(* ===== verification/Js_Base.thy ===== *)
theory Js_Base
  imports Main "HOL-Library.Sublist" "HOL-Library.AList" "HOL-Library.Multiset"
begin

text \<open>
  The prelude: the part of JavaScript's strings and containers the sources use.

  A string is the list of its UTF-16 code units, each a natural number below 65536, so
  \<open>length\<close>, \<open>slice\<close>, \<open>charCodeAt\<close> and surrogate pairs count what the engine counts.
  ASCII literals are written \<^term>\<open>js ''cd''\<close>; the Chinese labels of the user interface are lists
  of code units, each next to a comment with its text. Absent values (\<open>null\<close>, \<open>undefined\<close>) are
  \<^term>\<open>None\<close>. A \<open>Map\<close> or a record iterated in insertion order is an association list
  updated with \<^term>\<open>AList.update\<close>, which keeps the position of an existing key as
  \<open>Map.prototype.set\<close> does.
\<close>

section \<open>Automation shared by the components\<close>

named_theorems js_eval "equations that evaluate string primitives on literals"
named_theorems inv_step "preservation of a component's invariant by one operation"

section \<open>Strings\<close>

type_synonym jsstr = "nat list"

definition js :: "string \<Rightarrow> jsstr" where
  "js s = map of_char s"

lemma js_eq_iff [simp]: "js s = js t \<longleftrightarrow> s = t"
  unfolding js_def by (rule inj_map_eq_map, rule inj_onI, simp)

lemma js_Nil [simp]: "js [] = []"
  by (simp add: js_def)

lemma js_eq_Nil [simp]: "js s = [] \<longleftrightarrow> s = []"
  by (simp add: js_def)

lemma Nil_eq_js [simp]: "[] = js s \<longleftrightarrow> s = []"
  by (auto simp: js_def)

lemma length_js [simp]: "length (js s) = length s"
  by (simp add: js_def)

lemma js_append: "js (s @ t) = js s @ js t"
  by (simp add: js_def)

declare js_def [js_eval]

lemma inj_of_char: "inj (of_char :: char \<Rightarrow> nat)"
  by (rule inj_onI) simp

lemma prefix_js [simp]: "prefix (js s) (js t) \<longleftrightarrow> prefix s t"
proof
  assume "prefix (js s) (js t)"
  then obtain u where "js s = js u" "prefix u t"
    unfolding js_def by (metis prefix_map_rightE)
  then show "prefix s t" by simp
qed (auto simp: js_def map_mono_prefix)

lemma sublist_js [simp]: "sublist (js s) (js t) \<longleftrightarrow> sublist s t"
proof
  assume "sublist (js s) (js t)"
  then obtain u where "js s = js u" "sublist u t"
    unfolding js_def by (metis sublist_map_rightE)
  then show "sublist s t" by simp
qed (auto simp: js_def map_mono_sublist)

text \<open>\<open>a || b\<close> on strings: the empty string is falsy. \<open>a?.trim() || undefined\<close> and its kin
  use the optional form.\<close>

definition str_or :: "jsstr \<Rightarrow> jsstr \<Rightarrow> jsstr" where
  "str_or s d = (if s = [] then d else s)"

definition opt_truthy :: "jsstr option \<Rightarrow> jsstr option" where
  "opt_truthy v = (case v of None \<Rightarrow> None | Some s \<Rightarrow> if s = [] then None else Some s)"

definition opt_str_or :: "jsstr option \<Rightarrow> jsstr \<Rightarrow> jsstr" where
  "opt_str_or v d = (case v of None \<Rightarrow> d | Some s \<Rightarrow> str_or s d)"

text \<open>The operator \<open>??\<close>.\<close>

definition or_else :: "'a option \<Rightarrow> 'a \<Rightarrow> 'a" where
  "or_else v d = (case v of None \<Rightarrow> d | Some x \<Rightarrow> x)"

lemma opt_truthy_simps [simp]:
  "opt_truthy None = None"
  "opt_truthy (Some []) = None"
  "s \<noteq> [] \<Longrightarrow> opt_truthy (Some s) = Some s"
  by (simp_all add: opt_truthy_def)

lemma opt_truthy_Some_iff: "opt_truthy v = Some s \<longleftrightarrow> v = Some s \<and> s \<noteq> []"
  by (auto simp: opt_truthy_def split: option.splits)

lemma opt_truthy_idem [simp]: "opt_truthy (opt_truthy v) = opt_truthy v"
  by (auto simp: opt_truthy_def split: option.splits)

subsection \<open>White space and trimming\<close>

text \<open>The code units matched by \<open>\s\<close> and removed by \<open>trim\<close>: WhiteSpace and LineTerminator
  of the language.\<close>

definition is_ws :: "nat \<Rightarrow> bool" where
  "is_ws c \<longleftrightarrow> (9 \<le> c \<and> c \<le> 13) \<or> c = 32 \<or> c = 160 \<or> c = 5760 \<or> (8192 \<le> c \<and> c \<le> 8202)
     \<or> c = 8232 \<or> c = 8233 \<or> c = 8239 \<or> c = 8287 \<or> c = 12288 \<or> c = 65279"

text \<open>What \<open>.\<close> does not match in a regular expression.\<close>

definition is_line_terminator :: "nat \<Rightarrow> bool" where
  "is_line_terminator c \<longleftrightarrow> c = 10 \<or> c = 13 \<or> c = 8232 \<or> c = 8233"

definition js_trim_start :: "jsstr \<Rightarrow> jsstr" where
  "js_trim_start s = dropWhile is_ws s"

definition js_trim_end :: "jsstr \<Rightarrow> jsstr" where
  "js_trim_end s = rev (dropWhile is_ws (rev s))"

definition js_trim :: "jsstr \<Rightarrow> jsstr" where
  "js_trim s = js_trim_end (js_trim_start s)"

lemma dropWhile_dropWhile [simp]: "dropWhile P (dropWhile P xs) = dropWhile P xs"
  by (induction xs) auto

lemma js_trim_start_Nil [simp]: "js_trim_start [] = []"
  by (simp add: js_trim_start_def)

lemma js_trim_Nil [simp]: "js_trim [] = []"
  by (simp add: js_trim_def js_trim_start_def js_trim_end_def)

lemma js_trim_end_Cons:
  "js_trim_end (x # xs) = (if js_trim_end xs = [] \<and> is_ws x then [] else x # js_trim_end xs)"
  by (auto simp: js_trim_end_def dropWhile_append)

lemma js_trim_end_id: "s = [] \<or> \<not> is_ws (last s) \<Longrightarrow> js_trim_end s = s"
proof (cases s rule: rev_cases)
  case (snoc xs x)
  assume "s = [] \<or> \<not> is_ws (last s)"
  with snoc show ?thesis by (simp add: js_trim_end_def)
qed (simp add: js_trim_end_def)

lemma js_trim_id:
  assumes "s \<noteq> [] \<Longrightarrow> \<not> is_ws (hd s) \<and> \<not> is_ws (last s)"
  shows "js_trim s = s"
proof (cases s)
  case (Cons x xs)
  with assms have "js_trim_start s = s" by (simp add: js_trim_start_def)
  with assms Cons show ?thesis by (simp add: js_trim_def js_trim_end_id)
qed simp

lemma js_trim_end_last: "js_trim_end s \<noteq> [] \<Longrightarrow> \<not> is_ws (last (js_trim_end s))"
  unfolding js_trim_end_def
  by (metis hd_dropWhile last_rev rev_is_Nil_conv)

lemma js_trim_end_hd: "js_trim_end s \<noteq> [] \<Longrightarrow> hd (js_trim_end s) = hd s"
  by (cases s) (auto simp: js_trim_end_Cons js_trim_end_def [of "[]"] split: if_splits)

lemma js_trim_ends:
  assumes "js_trim s \<noteq> []"
  shows "\<not> is_ws (hd (js_trim s)) \<and> \<not> is_ws (last (js_trim s))"
proof -
  have "js_trim_start s \<noteq> []" using assms by (auto simp: js_trim_def js_trim_end_def)
  then have "\<not> is_ws (hd (js_trim_start s))"
    unfolding js_trim_start_def by (rule hd_dropWhile)
  with assms show ?thesis
    by (simp add: js_trim_def js_trim_end_hd js_trim_end_last)
qed

lemma js_trim_idem [simp]: "js_trim (js_trim s) = js_trim s"
  by (rule js_trim_id) (rule js_trim_ends)

lemma set_js_trim: "set (js_trim s) \<subseteq> set s"
  unfolding js_trim_def js_trim_end_def js_trim_start_def
  by (auto dest!: set_dropWhileD)

lemma length_js_trim: "length (js_trim s) \<le> length s"
  unfolding js_trim_def js_trim_end_def js_trim_start_def
  by (metis length_dropWhile_le length_rev order_trans)

subsection \<open>Case conversion\<close>

text \<open>
  \<open>toLowerCase\<close> and \<open>toUpperCase\<close> on Basic Latin, Latin-1, the basic Cyrillic block and the
  Kelvin and Angstrom signs; every other code unit is left alone. The scripts left out have
  no key name, protocol name or file suffix the sources compare with.
\<close>

definition lower_unit :: "nat \<Rightarrow> nat" where
  "lower_unit c =
     (if 65 \<le> c \<and> c \<le> 90 then c + 32
      else if 192 \<le> c \<and> c \<le> 222 \<and> c \<noteq> 215 then c + 32
      else if 1040 \<le> c \<and> c \<le> 1071 then c + 32
      else if 1024 \<le> c \<and> c \<le> 1039 then c + 80
      else if c = 8490 then 107
      else if c = 8491 then 229
      else c)"

definition js_lower :: "jsstr \<Rightarrow> jsstr" where
  "js_lower s = map lower_unit s"

definition upper_unit :: "nat \<Rightarrow> jsstr" where
  "upper_unit c =
     (if 97 \<le> c \<and> c \<le> 122 then [c - 32]
      else if c = 181 then [924]
      else if c = 223 then [83, 83]
      else if 224 \<le> c \<and> c \<le> 254 \<and> c \<noteq> 247 then [c - 32]
      else if c = 255 then [376]
      else if 1072 \<le> c \<and> c \<le> 1103 then [c - 32]
      else if 1104 \<le> c \<and> c \<le> 1119 then [c - 80]
      else [c])"

definition js_upper :: "jsstr \<Rightarrow> jsstr" where
  "js_upper s = concat (map upper_unit s)"

lemma lower_unit_idem [simp]: "lower_unit (lower_unit c) = lower_unit c"
  unfolding lower_unit_def by simp

lemma js_lower_idem [simp]: "js_lower (js_lower s) = js_lower s"
  by (simp add: js_lower_def comp_def)

lemma js_lower_append [simp]: "js_lower (s @ t) = js_lower s @ js_lower t"
  by (simp add: js_lower_def)

lemma length_js_lower [simp]: "length (js_lower s) = length s"
  by (simp add: js_lower_def)

lemma js_lower_eq_Nil [simp]: "js_lower s = [] \<longleftrightarrow> s = []"
  by (simp add: js_lower_def)

subsection \<open>Searching and slicing\<close>

text \<open>\<open>startsWith\<close>, \<open>endsWith\<close> and \<open>includes\<close> are the library's \<^term>\<open>prefix\<close>,
  \<^term>\<open>suffix\<close> and \<^term>\<open>sublist\<close>. \<open>indexOf\<close> returns \<^term>\<open>None\<close> where the language returns -1.\<close>

fun index_of_aux :: "nat \<Rightarrow> jsstr \<Rightarrow> jsstr \<Rightarrow> nat option" where
  "index_of_aux i pat [] = (if pat = [] then Some i else None)"
| "index_of_aux i pat (c # s) =
     (if prefix pat (c # s) then Some i else index_of_aux (Suc i) pat s)"

definition js_index_of :: "jsstr \<Rightarrow> jsstr \<Rightarrow> nat \<Rightarrow> nat option" where
  "js_index_of s pat from = index_of_aux from pat (drop from s)"

definition js_slice :: "jsstr \<Rightarrow> nat \<Rightarrow> nat \<Rightarrow> jsstr" where
  "js_slice s a b = drop a (take b s)"

text \<open>\<open>s.slice(-n)\<close> for a positive n.\<close>

definition js_last_n :: "nat \<Rightarrow> jsstr \<Rightarrow> jsstr" where
  "js_last_n n s = drop (length s - n) s"

lemma index_of_aux_bounds: "index_of_aux i pat s = Some k \<Longrightarrow> i \<le> k \<and> k + length pat \<le> i + length s"
proof (induction s arbitrary: i)
  case (Cons c s)
  then show ?case
    by (auto split: if_splits dest: prefix_length_le dest!: Cons.IH)
qed (auto split: if_splits)

lemma index_of_aux_prefix:
  "index_of_aux i pat s = Some k \<Longrightarrow> prefix pat (drop (k - i) s)"
proof (induction s arbitrary: i)
  case (Cons c s)
  show ?case
  proof (cases "prefix pat (c # s)")
    case True
    with Cons.prems show ?thesis by auto
  next
    case False
    with Cons.prems have r: "index_of_aux (Suc i) pat s = Some k" by simp
    then have "Suc i \<le> k" using index_of_aux_bounds by blast
    then have "k - i = Suc (k - Suc i)" by arith
    with Cons.IH[OF r] show ?thesis by simp
  qed
qed (auto split: if_splits)

lemma js_index_of_bounds:
  "js_index_of s pat from = Some k \<Longrightarrow> from \<le> length s \<Longrightarrow> from \<le> k \<and> k + length pat \<le> length s"
  unfolding js_index_of_def by (drule index_of_aux_bounds) simp

lemma length_js_last_n [simp]: "length (js_last_n n s) = min n (length s)"
  by (simp add: js_last_n_def)

lemma js_last_n_id: "length s \<le> n \<Longrightarrow> js_last_n n s = s"
  by (simp add: js_last_n_def)

subsection \<open>Splitting and joining\<close>

fun js_split :: "nat \<Rightarrow> jsstr \<Rightarrow> jsstr list" where
  "js_split c [] = [[]]"
| "js_split c (x # xs) =
     (if x = c then [] # js_split c xs
      else (case js_split c xs of [] \<Rightarrow> [[x]] | w # ws \<Rightarrow> (x # w) # ws))"

fun js_join :: "jsstr \<Rightarrow> jsstr list \<Rightarrow> jsstr" where
  "js_join sep [] = []"
| "js_join sep [w] = w"
| "js_join sep (w # v # ws) = w @ sep @ js_join sep (v # ws)"

lemma js_split_not_Nil [simp]: "js_split c s \<noteq> []"
  by (induction s) (auto split: list.splits)

lemma js_join_Cons: "ws \<noteq> [] \<Longrightarrow> js_join sep (w # ws) = w @ sep @ js_join sep ws"
  by (cases ws) auto

lemma js_join_split: "js_join [c] (js_split c s) = s"
proof (induction s)
  case (Cons x s)
  show ?case
  proof (cases "js_split c s")
    case Nil
    then show ?thesis by simp
  next
    case (Cons w ws)
    then show ?thesis using Cons.IH by (cases ws) (auto simp: js_join_Cons)
  qed
qed simp

lemma js_split_no_sep: "w \<in> set (js_split c s) \<Longrightarrow> c \<notin> set w"
  by (induction s arbitrary: w) (fastforce split: if_splits list.splits)+

lemma js_split_append_sep: "js_split c (s @ c # t) = js_split c s @ js_split c t"
  by (induction s) (auto split: list.splits)

lemma js_split_id: "c \<notin> set s \<Longrightarrow> js_split c s = [s]"
  by (induction s) auto

lemma js_split_join:
  "ws \<noteq> [] \<Longrightarrow> \<forall>w\<in>set ws. c \<notin> set w \<Longrightarrow> js_split c (js_join [c] ws) = ws"
proof (induction ws)
  case (Cons w ws)
  then show ?case
    by (cases ws) (auto simp: js_split_id js_split_append_sep js_join_Cons)
qed simp

lemma set_js_split: "w \<in> set (js_split c s) \<Longrightarrow> set w \<subseteq> set s"
  by (induction s arbitrary: w) (fastforce split: if_splits list.splits)+

text \<open>\<open>replace(/a/g, b)\<close> for single code units.\<close>

definition replace_unit :: "nat \<Rightarrow> nat \<Rightarrow> jsstr \<Rightarrow> jsstr" where
  "replace_unit a b s = map (\<lambda>c. if c = a then b else c) s"

lemma replace_unit_id: "a \<notin> set s \<Longrightarrow> replace_unit a b s = s"
  unfolding replace_unit_def by (induction s) auto

text \<open>\<open>lastIndexOf\<close> of a one-unit string.\<close>

definition last_index_unit :: "nat \<Rightarrow> jsstr \<Rightarrow> nat option" where
  "last_index_unit c s =
     (if c \<in> set s then Some (length s - 1 - length (takeWhile (\<lambda>x. x \<noteq> c) (rev s))) else None)"

subsection \<open>Code points\<close>

definition high_surrogate :: "nat \<Rightarrow> bool" where
  "high_surrogate c \<longleftrightarrow> 0xd800 \<le> c \<and> c \<le> 0xdbff"

definition low_surrogate :: "nat \<Rightarrow> bool" where
  "low_surrogate c \<longleftrightarrow> 0xdc00 \<le> c \<and> c \<le> 0xdfff"

text \<open>\<open>Array.from (s)\<close>: the code points, a surrogate pair together and a lone surrogate alone.\<close>

fun code_points :: "jsstr \<Rightarrow> jsstr list" where
  "code_points (a # b # s) =
     (if high_surrogate a \<and> low_surrogate b then [a, b] # code_points s else [a] # code_points (b # s))"
| "code_points [a] = [[a]]"
| "code_points [] = []"

lemma concat_code_points [simp]: "concat (code_points s) = s"
  by (induction s rule: code_points.induct) auto

lemma code_points_eq_Nil [simp]: "code_points s = [] \<longleftrightarrow> s = []"
  by (cases s rule: code_points.cases) auto

lemma code_points_no_Nil: "p \<in> set (code_points s) \<Longrightarrow> p \<noteq> []"
  by (induction s rule: code_points.induct) (auto split: if_splits)

subsection \<open>Decimal numerals\<close>

text \<open>\<open>toString\<close> of an integer.\<close>

fun dec_digits :: "nat \<Rightarrow> jsstr" where
  "dec_digits n = (if n < 10 then [48 + n] else dec_digits (n div 10) @ [48 + n mod 10])"

declare dec_digits.simps [simp del]
declare dec_digits.simps [js_eval]

definition js_of_int :: "int \<Rightarrow> jsstr" where
  "js_of_int i = (if i < 0 then 45 # dec_digits (nat (- i)) else dec_digits (nat i))"

definition is_digit_unit :: "nat \<Rightarrow> bool" where
  "is_digit_unit c \<longleftrightarrow> 48 \<le> c \<and> c \<le> 57"

definition dec_value :: "jsstr \<Rightarrow> nat" where
  "dec_value s = foldl (\<lambda>n c. 10 * n + (c - 48)) 0 s"

lemma dec_digits_not_Nil [simp]: "dec_digits n \<noteq> []"
  by (subst dec_digits.simps) simp

lemma dec_digits_digit: "c \<in> set (dec_digits n) \<Longrightarrow> is_digit_unit c"
proof (induction n rule: dec_digits.induct)
  case (1 n)
  then show ?case
    by (subst (asm) dec_digits.simps) (auto simp: is_digit_unit_def split: if_splits)
qed

lemma dec_value_digits [simp]: "dec_value (dec_digits n) = n"
proof (induction n rule: dec_digits.induct)
  case (1 n)
  show ?case
  proof (cases "n < 10")
    case False
    with 1 have "dec_value (dec_digits (n div 10)) = n div 10" by simp
    with False show ?thesis by (subst dec_digits.simps) (simp add: dec_value_def)
  qed (subst dec_digits.simps, simp add: dec_value_def)
qed

lemma dec_digits_inject [simp]: "dec_digits m = dec_digits n \<longleftrightarrow> m = n"
  by (metis dec_value_digits)

section \<open>Containers\<close>

text \<open>\<open>Array.prototype.find\<close> is \<^term>\<open>List.find\<close>; \<open>Array.from(new Map(...))\<close> folds the updates.\<close>

definition alist_of_updates :: "('k \<times> 'v) list \<Rightarrow> ('k \<times> 'v) list" where
  "alist_of_updates kvs = foldl (\<lambda>m kv. AList.update (fst kv) (snd kv) m) [] kvs"

lemma map_of_foldl_update:
  "map_of (foldl (\<lambda>m kv. AList.update (fst kv) (snd kv) m) m kvs) k
     = (case map_of (rev kvs) k of None \<Rightarrow> map_of m k | Some v \<Rightarrow> Some v)"
  by (induction kvs arbitrary: m) (auto simp: update_conv' map_add_def split: option.splits)

lemma map_of_alist_of_updates: "map_of (alist_of_updates kvs) = map_of (rev kvs)"
  by (rule ext) (auto simp: alist_of_updates_def map_of_foldl_update split: option.splits)

lemma take_drop_append [simp]: "take n xs @ drop n xs @ ys = xs @ ys"
  by (simp flip: append_assoc)

lemma find_SomeD: "List.find P xs = Some x \<Longrightarrow> P x \<and> x \<in> set xs"
  by (auto simp: find_Some_iff)

lemma find_map_eq:
  "(\<And>x. x \<in> set xs \<Longrightarrow> P (f x) = P x) \<Longrightarrow> List.find P (map f xs) = map_option f (List.find P xs)"
  by (induction xs) auto

lemma sum_list_map_append [simp]: "sum_list (map f (xs @ ys)) = sum_list (map f xs) + (sum_list (map f ys) :: nat)"
  by simp

lemma replicate_mset_add:
  "replicate_mset (m + n) x = replicate_mset m x + replicate_mset n x"
  by (rule multiset_eqI) simp

lemma distinct_mset_eq: "mset xs = mset ys \<Longrightarrow> distinct xs = distinct ys"
  by (rule mset_eq_imp_distinct_iff)

lemma count_list_distinct: "distinct xs \<Longrightarrow> count_list xs x = (if x \<in> set xs then 1 else 0)"
  by (induction xs) auto

lemma filter_map_id_on:
  "(\<And>x. x \<in> set xs \<Longrightarrow> f x = x) \<Longrightarrow> map f xs = xs"
  by (rule map_idI)

lemma distinct_subseq: "subseq xs ys \<Longrightarrow> distinct ys \<Longrightarrow> distinct xs"
  by (auto simp: subseq_conv_nths distinct_nthsI)

lemma subseq_set: "subseq xs ys \<Longrightarrow> set xs \<subseteq> set ys"
  by (auto simp: subseq_conv_nths dest: in_set_nthsD)

lemma length_filter_filter_le: "length (filter Q (filter P xs)) \<le> length (filter Q xs)"
  by (induction xs) auto

lemma subseq_filter_eq: "subseq (filter P xs) xs"
  by (rule subseq_filter_left)

end
