(* ===== verification/Js_Number.thy ===== *)
theory Js_Number
  imports Complex_Main Js_Base
begin

text \<open>
  JavaScript's \<open>number\<close>: a finite value, the two infinities and NaN. Finite values are rationals:
  arithmetic is exact where the engine rounds to 53 bits, and \<open>-0\<close> is \<open>0\<close>. What the sources
  depend on is kept: NaN propagates through \<open>Math.min\<close> and \<open>Math.max\<close>, and every comparison
  with NaN is false.
\<close>

datatype jsnum = NaN | PosInf | NegInf | Num rat

fun num_lt :: "jsnum \<Rightarrow> jsnum \<Rightarrow> bool" where
  "num_lt NaN y = False"
| "num_lt x NaN = False"
| "num_lt (Num a) (Num b) = (a < b)"
| "num_lt NegInf y = (y \<noteq> NegInf)"
| "num_lt PosInf y = False"
| "num_lt (Num a) y = (y = PosInf)"

definition num_le :: "jsnum \<Rightarrow> jsnum \<Rightarrow> bool" where
  "num_le x y \<longleftrightarrow> num_lt x y \<or> (x = y \<and> x \<noteq> NaN)"

definition num_max :: "jsnum \<Rightarrow> jsnum \<Rightarrow> jsnum" where
  "num_max x y = (if x = NaN \<or> y = NaN then NaN else if num_lt x y then y else x)"

definition num_min :: "jsnum \<Rightarrow> jsnum \<Rightarrow> jsnum" where
  "num_min x y = (if x = NaN \<or> y = NaN then NaN else if num_lt y x then y else x)"

definition num_clamp :: "rat \<Rightarrow> rat \<Rightarrow> jsnum \<Rightarrow> jsnum" where
  "num_clamp lo hi x = num_min (Num hi) (num_max (Num lo) x)"

fun num_neg :: "jsnum \<Rightarrow> jsnum" where
  "num_neg NaN = NaN"
| "num_neg PosInf = NegInf"
| "num_neg NegInf = PosInf"
| "num_neg (Num a) = Num (- a)"

fun num_add :: "jsnum \<Rightarrow> jsnum \<Rightarrow> jsnum" where
  "num_add (Num a) (Num b) = Num (a + b)"
| "num_add NaN y = NaN"
| "num_add x NaN = NaN"
| "num_add PosInf NegInf = NaN"
| "num_add NegInf PosInf = NaN"
| "num_add PosInf y = PosInf"
| "num_add NegInf y = NegInf"
| "num_add x PosInf = PosInf"
| "num_add x NegInf = NegInf"

definition num_sub :: "jsnum \<Rightarrow> jsnum \<Rightarrow> jsnum" where
  "num_sub x y = num_add x (num_neg y)"

definition num_sign_inf :: "bool \<Rightarrow> jsnum" where
  "num_sign_inf pos = (if pos then PosInf else NegInf)"

fun num_mul :: "jsnum \<Rightarrow> jsnum \<Rightarrow> jsnum" where
  "num_mul (Num a) (Num b) = Num (a * b)"
| "num_mul NaN y = NaN"
| "num_mul x NaN = NaN"
| "num_mul PosInf y =
     (if y = Num 0 then NaN else num_sign_inf (num_lt (Num 0) y))"
| "num_mul NegInf y =
     (if y = Num 0 then NaN else num_sign_inf (num_lt y (Num 0)))"
| "num_mul x PosInf =
     (if x = Num 0 then NaN else num_sign_inf (num_lt (Num 0) x))"
| "num_mul x NegInf =
     (if x = Num 0 then NaN else num_sign_inf (num_lt x (Num 0)))"

definition num_abs :: "jsnum \<Rightarrow> jsnum" where
  "num_abs x = (if num_lt x (Num 0) then num_neg x else x)"

fun num_div :: "jsnum \<Rightarrow> jsnum \<Rightarrow> jsnum" where
  "num_div NaN y = NaN"
| "num_div x NaN = NaN"
| "num_div (Num a) (Num b) =
     (if b = 0 then (if a = 0 then NaN else num_sign_inf (0 < a)) else Num (a / b))"
| "num_div (Num a) y = Num 0"
| "num_div PosInf (Num b) = num_sign_inf (0 \<le> b)"
| "num_div NegInf (Num b) = num_sign_inf (b < 0)"
| "num_div x y = NaN"

text \<open>\<open>===\<close> on numbers.\<close>

definition num_eq :: "jsnum \<Rightarrow> jsnum \<Rightarrow> bool" where
  "num_eq x y \<longleftrightarrow> x = y \<and> x \<noteq> NaN"

definition is_finite_num :: "jsnum \<Rightarrow> bool" where
  "is_finite_num x = (case x of Num _ \<Rightarrow> True | _ \<Rightarrow> False)"

lemma num_sub_Num [simp]: "num_sub (Num a) (Num b) = Num (a - b)"
  by (simp add: num_sub_def)

lemma num_clamp_NaN [simp]: "num_clamp lo hi NaN = NaN"
  by (simp add: num_clamp_def num_max_def num_min_def)

lemma num_clamp_Num: "num_clamp lo hi (Num a) = Num (min hi (max lo a))"
  by (simp add: num_clamp_def num_max_def num_min_def min_def max_def)

lemma num_clamp_range:
  assumes "x \<noteq> NaN" "lo \<le> hi"
  obtains r where "num_clamp lo hi x = Num r" "lo \<le> r" "r \<le> hi"
proof (rule that)
  show "num_clamp lo hi x = Num (case x of Num a \<Rightarrow> min hi (max lo a) | NegInf \<Rightarrow> lo | _ \<Rightarrow> hi)"
    using assms by (cases x) (auto simp: num_clamp_def num_max_def num_min_def min_def max_def)
qed (use assms in \<open>auto split: jsnum.split\<close>)

lemma num_clamp_idem [simp]: "lo \<le> hi \<Longrightarrow> num_clamp lo hi (num_clamp lo hi x) = num_clamp lo hi x"
  by (cases x) (auto simp: num_clamp_def num_max_def num_min_def)

lemma num_clamp_id: "lo \<le> a \<Longrightarrow> a \<le> hi \<Longrightarrow> num_clamp lo hi (Num a) = Num a"
  by (simp add: num_clamp_Num)

lemma num_clamp_eq_NaN [simp]: "num_clamp lo hi x = NaN \<longleftrightarrow> x = NaN"
  by (cases x) (auto simp: num_clamp_def num_max_def num_min_def)

section \<open>Numbers as text\<close>

text \<open>
  \<open>toString\<close>: integers in decimal; \<open>fstr\<close> stands for the engine's shortest decimal of a number
  that is not an integer. Integers from 1e21 on, printed with an exponent, do not occur.
\<close>

definition num_to_string :: "(rat \<Rightarrow> jsstr) \<Rightarrow> jsnum \<Rightarrow> jsstr" where
  "num_to_string fstr x =
     (case x of
        Num q \<Rightarrow> if of_int \<lfloor>q\<rfloor> = q then js_of_int \<lfloor>q\<rfloor> else fstr q
      | NaN \<Rightarrow> js ''NaN''
      | PosInf \<Rightarrow> js ''Infinity''
      | NegInf \<Rightarrow> js ''-Infinity'')"

text \<open>\<open>toFixed(1)\<close>: the nearest tenth, the larger one on a tie, of the magnitude.\<close>

definition fixed1_digits :: "rat \<Rightarrow> jsstr" where
  "fixed1_digits q = (let n = nat \<lfloor>10 * q + 1 / 2\<rfloor> in dec_digits (n div 10) @ [46] @ dec_digits (n mod 10))"

definition num_to_fixed1 :: "jsnum \<Rightarrow> jsstr" where
  "num_to_fixed1 x =
     (case x of
        Num q \<Rightarrow> if q < 0 then 45 # fixed1_digits (- q) else fixed1_digits q
      | NaN \<Rightarrow> js ''NaN''
      | PosInf \<Rightarrow> js ''Infinity''
      | NegInf \<Rightarrow> js ''-Infinity'')"

end
