(* ===== verification/Js_Sort.thy ===== *)
theory Js_Sort
  imports Js_Base
begin

text \<open>
  \<open>Array.prototype.sort\<close> with a comparison function. Only the sign of the comparator is used:
  \<open>gt a b\<close> says that \<open>compare(a, b)\<close> is positive (so \<open>a\<close> goes after \<open>b\<close>). The language asks
  for a stable sort; for a consistent comparator, which the locale below states, the stable
  result is unique and insertion computes it.
\<close>

fun sort_insert :: "('a \<Rightarrow> 'a \<Rightarrow> bool) \<Rightarrow> 'a \<Rightarrow> 'a list \<Rightarrow> 'a list" where
  "sort_insert gt x [] = [x]"
| "sort_insert gt x (y # ys) = (if gt x y then y # sort_insert gt x ys else x # y # ys)"

definition js_sort :: "('a \<Rightarrow> 'a \<Rightarrow> bool) \<Rightarrow> 'a list \<Rightarrow> 'a list" where
  "js_sort gt xs = foldr (sort_insert gt) xs []"

lemma js_sort_Nil [simp]: "js_sort gt [] = []"
  by (simp add: js_sort_def)

lemma js_sort_Cons [simp]: "js_sort gt (x # xs) = sort_insert gt x (js_sort gt xs)"
  by (simp add: js_sort_def)

lemma mset_sort_insert [simp]: "mset (sort_insert gt x xs) = add_mset x (mset xs)"
  by (induction xs) auto

lemma mset_js_sort [simp]: "mset (js_sort gt xs) = mset xs"
  by (induction xs) auto

lemma set_js_sort [simp]: "set (js_sort gt xs) = set xs"
  by (metis mset_js_sort set_mset_mset)

lemma length_js_sort [simp]: "length (js_sort gt xs) = length xs"
  by (metis mset_js_sort size_mset)

lemma distinct_js_sort [simp]: "distinct (map f (js_sort gt xs)) = distinct (map f xs)"
  by (rule mset_eq_imp_distinct_iff) simp

text \<open>The consistent comparators of the language: a strict weak order.\<close>

locale js_comparator =
  fixes gt :: "'a \<Rightarrow> 'a \<Rightarrow> bool"
  assumes asym: "gt a b \<Longrightarrow> \<not> gt b a"
    and neg_trans: "\<not> gt a b \<Longrightarrow> \<not> gt b c \<Longrightarrow> \<not> gt a c"
begin

lemma sorted_insert:
  "sorted_wrt (\<lambda>a b. \<not> gt a b) ys \<Longrightarrow> sorted_wrt (\<lambda>a b. \<not> gt a b) (sort_insert gt x ys)"
proof (induction ys)
  case (Cons y ys)
  have "set (sort_insert gt x ys) = insert x (set ys)"
    by (metis mset_sort_insert set_mset_add_mset_insert set_mset_mset)
  then show ?case using Cons
    by (cases "gt x y") (auto simp: asym dest: neg_trans [of x y])
qed simp

lemma sorted_js_sort: "sorted_wrt (\<lambda>a b. \<not> gt a b) (js_sort gt xs)"
  by (induction xs) (auto intro: sorted_insert)

definition tie :: "'a \<Rightarrow> 'a \<Rightarrow> bool" where
  "tie a b \<longleftrightarrow> \<not> gt a b \<and> \<not> gt b a"

lemma filter_insert_tie:
  "filter (tie k) (sort_insert gt x ys) = filter (tie k) (x # ys)"
proof (induction ys)
  case (Cons y ys)
  have "\<not> (tie k x \<and> tie k y)" if "gt x y"
    using that neg_trans unfolding tie_def by blast
  with Cons show ?case by auto
qed simp

lemma stable_js_sort: "filter (tie k) (js_sort gt xs) = filter (tie k) xs"
  by (induction xs) (auto simp: filter_insert_tie)

lemma js_sort_id: "sorted_wrt (\<lambda>a b. \<not> gt a b) xs \<Longrightarrow> js_sort gt xs = xs"
proof (induction xs)
  case (Cons x xs)
  then show ?case by (cases xs) auto
qed simp

lemma js_sort_idem: "js_sort gt (js_sort gt xs) = js_sort gt xs"
  by (rule js_sort_id) (rule sorted_js_sort)

end

text \<open>Comparators of the form \<open>a.k1 - b.k1 || a.k2 - b.k2\<close>.\<close>

definition lex_gt :: "('a \<Rightarrow> 'a \<Rightarrow> bool) \<Rightarrow> ('a \<Rightarrow> 'a \<Rightarrow> bool) \<Rightarrow> 'a \<Rightarrow> 'a \<Rightarrow> bool" where
  "lex_gt g h a b \<longleftrightarrow> g a b \<or> (\<not> g b a \<and> h a b)"

definition key_gt :: "('a \<Rightarrow> 'k::linorder) \<Rightarrow> 'a \<Rightarrow> 'a \<Rightarrow> bool" where
  "key_gt f a b \<longleftrightarrow> f b < f a"

lemma js_comparator_key: "js_comparator (key_gt f)"
  by unfold_locales (auto simp: key_gt_def)

lemma js_comparator_lex:
  assumes "js_comparator g" "js_comparator h"
  shows "js_comparator (lex_gt g h)"
proof
  fix a b assume "lex_gt g h a b"
  then show "\<not> lex_gt g h b a"
    using js_comparator.asym[OF assms(1)] js_comparator.asym[OF assms(2)]
    by (auto simp: lex_gt_def)
next
  fix a b c assume ab: "\<not> lex_gt g h a b" and bc: "\<not> lex_gt g h b c"
  note ng = js_comparator.neg_trans[OF assms(1)] and nh = js_comparator.neg_trans[OF assms(2)]
  from ab bc have g: "\<not> g a b" "\<not> g b c" by (auto simp: lex_gt_def)
  with ng have ac: "\<not> g a c" by blast
  show "\<not> lex_gt g h a c"
  proof (cases "g c a")
    case False
    with g ng have "\<not> g c b" "\<not> g b a" by blast+
    with ab bc g have "\<not> h a b" "\<not> h b c" by (auto simp: lex_gt_def)
    with nh ac show ?thesis by (auto simp: lex_gt_def)
  qed (use ac in \<open>simp add: lex_gt_def\<close>)
qed

end
