(* ===== verification/Terminal_Split.thy ===== *)
theory Terminal_Split
  imports Js_Number Js_Sort
begin

text \<open>
  The split-pane layout of the terminal area, \<open>src/features/terminal/terminalSplitLayout.ts\<close>:
  a binary tree whose leaves are panes, each bound to a terminal tab or empty, and whose inner
  nodes divide a rectangle in two. First the code's functions in the order of the file, then the
  lemmas on pane lists, ratios and geometry the properties rest on.
\<close>

section \<open>Data\<close>

datatype binding_kind = BindSsh | BindLocal

record pane_binding =
  pb_kind :: binding_kind
  pb_tabId :: jsstr

datatype split_direction = DirRow | DirColumn

datatype split_node =
    SplitLeaf (leaf_binding: "pane_binding option") (node_id: jsstr)
  | SplitBranch (branch_direction: split_direction) (branch_first: split_node)
      (node_id: jsstr) (branch_ratio: jsnum) (branch_second: split_node)

record split_bounds =
  sb_height :: jsnum
  sb_left :: jsnum
  sb_top :: jsnum
  sb_width :: jsnum

record split_pane =
  sp_binding :: "pane_binding option"
  sp_bounds :: split_bounds
  sp_id :: jsstr

record split_resizer =
  sr_bounds :: split_bounds
  sr_direction :: split_direction
  sr_id :: jsstr
  sr_ratio :: jsnum

definition terminalSplitMinRatio :: rat where "terminalSplitMinRatio = 1 / 5"

definition terminalSplitMaxRatio :: rat where "terminalSplitMaxRatio = 4 / 5"

definition terminalSplitMaxPanes :: nat where "terminalSplitMaxPanes = 4"

section \<open>Operations\<close>

fun binding_kind_str :: "binding_kind \<Rightarrow> jsstr" where
  "binding_kind_str BindSsh = js ''ssh''"
| "binding_kind_str BindLocal = js ''local''"

definition terminalPaneBindingKey :: "pane_binding \<Rightarrow> jsstr" where
  "terminalPaneBindingKey b = binding_kind_str (pb_kind b) @ js '':'' @ pb_tabId b"

definition terminalPaneBindingsEqual :: "pane_binding option \<Rightarrow> pane_binding option \<Rightarrow> bool" where
  "terminalPaneBindingsEqual first second =
     (case (first, second) of
        (Some a, Some b) \<Rightarrow> terminalPaneBindingKey a = terminalPaneBindingKey b
      | _ \<Rightarrow> False)"

definition createTerminalSplitLayout :: "jsstr \<Rightarrow> pane_binding \<Rightarrow> split_node" where
  "createTerminalSplitLayout paneId b = SplitLeaf (Some b) paneId"

definition clampTerminalSplitRatio :: "jsnum \<Rightarrow> jsnum" where
  "clampTerminalSplitRatio r = num_clamp terminalSplitMinRatio terminalSplitMaxRatio r"

definition emptyTerminalSplitBounds :: split_bounds where
  "emptyTerminalSplitBounds =
     \<lparr>sb_height = Num 1, sb_left = Num 0, sb_top = Num 0, sb_width = Num 1\<rparr>"

text \<open>The two arrays the source pushes to are the last two arguments, returned extended.\<close>

fun collectTerminalSplitGeometry ::
  "split_node \<Rightarrow> split_bounds \<Rightarrow> split_pane list \<Rightarrow> split_resizer list
     \<Rightarrow> split_pane list \<times> split_resizer list" where
  "collectTerminalSplitGeometry (SplitLeaf b i) bounds panes resizers =
     (panes @ [\<lparr>sp_binding = b, sp_bounds = bounds, sp_id = i\<rparr>], resizers)"
| "collectTerminalSplitGeometry (SplitBranch d f i r s) bounds panes resizers =
     (let ratio = clampTerminalSplitRatio r;
          resizers1 = resizers @ [\<lparr>sr_bounds = bounds, sr_direction = d, sr_id = i, sr_ratio = ratio\<rparr>]
      in case d of
           DirRow \<Rightarrow>
             (let firstWidth = num_mul (sb_width bounds) ratio;
                  firstBounds = bounds\<lparr>sb_width := firstWidth\<rparr>;
                  secondBounds = bounds\<lparr>sb_left := num_add (sb_left bounds) firstWidth,
                                        sb_width := num_sub (sb_width bounds) firstWidth\<rparr>;
                  (panes2, resizers2) = collectTerminalSplitGeometry f firstBounds panes resizers1
              in collectTerminalSplitGeometry s secondBounds panes2 resizers2)
         | DirColumn \<Rightarrow>
             (let firstHeight = num_mul (sb_height bounds) ratio;
                  firstBounds = bounds\<lparr>sb_height := firstHeight\<rparr>;
                  secondBounds = bounds\<lparr>sb_height := num_sub (sb_height bounds) firstHeight,
                                        sb_top := num_add (sb_top bounds) firstHeight\<rparr>;
                  (panes2, resizers2) = collectTerminalSplitGeometry f firstBounds panes resizers1
              in collectTerminalSplitGeometry s secondBounds panes2 resizers2))"

text \<open>The sign of \<open>compareTerminalSplitPanePosition(first, second)\<close>: positive or not.\<close>

definition compareTerminalSplitPanePosition_gt :: "split_pane \<Rightarrow> split_pane \<Rightarrow> bool" where
  "compareTerminalSplitPanePosition_gt p q =
     (let verticalDelta = num_sub (sb_top (sp_bounds p)) (sb_top (sp_bounds q))
      in if num_lt (Num (1 / 10000)) (num_abs verticalDelta) then num_lt (Num 0) verticalDelta
         else num_lt (Num 0) (num_sub (sb_left (sp_bounds p)) (sb_left (sp_bounds q))))"

definition collectTerminalSplitPanes :: "split_node \<Rightarrow> split_pane list" where
  "collectTerminalSplitPanes layout =
     js_sort compareTerminalSplitPanePosition_gt
       (fst (collectTerminalSplitGeometry layout emptyTerminalSplitBounds [] []))"

definition collectTerminalSplitResizers :: "split_node \<Rightarrow> split_resizer list" where
  "collectTerminalSplitResizers layout =
     snd (collectTerminalSplitGeometry layout emptyTerminalSplitBounds [] [])"

definition findTerminalSplitPaneByBinding :: "split_node \<Rightarrow> pane_binding \<Rightarrow> split_pane option" where
  "findTerminalSplitPaneByBinding layout b =
     List.find (\<lambda>pane. terminalPaneBindingsEqual (sp_binding pane) (Some b))
       (collectTerminalSplitPanes layout)"

fun splitTerminalPane ::
  "split_node \<Rightarrow> jsstr \<Rightarrow> split_direction \<Rightarrow> jsstr \<Rightarrow> jsstr \<Rightarrow> pane_binding option \<Rightarrow> split_node" where
  "splitTerminalPane (SplitLeaf b i) paneId d splitId newPaneId newBinding =
     (if i = paneId
      then SplitBranch d (SplitLeaf b i) splitId (Num (1 / 2)) (SplitLeaf newBinding newPaneId)
      else SplitLeaf b i)"
| "splitTerminalPane (SplitBranch bd f i r s) paneId d splitId newPaneId newBinding =
     SplitBranch bd (splitTerminalPane f paneId d splitId newPaneId newBinding) i r
       (splitTerminalPane s paneId d splitId newPaneId newBinding)"

record four_pane_ids =
  fp_bottomLeft :: jsstr
  fp_bottomRight :: jsstr
  fp_leftSplit :: jsstr
  fp_rightSplit :: jsstr
  fp_root :: jsstr
  fp_topLeft :: jsstr
  fp_topRight :: jsstr

text \<open>\<open>bindings[k]\<close> past the end is \<open>undefined\<close>.\<close>

definition nth_opt :: "'a list \<Rightarrow> nat \<Rightarrow> 'a option" where
  "nth_opt xs k = (if k < length xs then Some (xs ! k) else None)"

definition createTerminalFourPaneLayout :: "pane_binding list \<Rightarrow> four_pane_ids \<Rightarrow> split_node" where
  "createTerminalFourPaneLayout bs ids =
     SplitBranch DirRow
       (SplitBranch DirColumn (SplitLeaf (nth_opt bs 0) (fp_topLeft ids)) (fp_leftSplit ids)
          (Num (1 / 2)) (SplitLeaf (nth_opt bs 2) (fp_bottomLeft ids)))
       (fp_root ids) (Num (1 / 2))
       (SplitBranch DirColumn (SplitLeaf (nth_opt bs 1) (fp_topRight ids)) (fp_rightSplit ids)
          (Num (1 / 2)) (SplitLeaf (nth_opt bs 3) (fp_bottomRight ids)))"

fun equalizeTerminalSplitLayout :: "split_node \<Rightarrow> split_node" where
  "equalizeTerminalSplitLayout (SplitLeaf b i) = SplitLeaf b i"
| "equalizeTerminalSplitLayout (SplitBranch d f i r s) =
     SplitBranch d (equalizeTerminalSplitLayout f) i (Num (1 / 2)) (equalizeTerminalSplitLayout s)"

fun replaceTerminalSplitPane :: "split_node \<Rightarrow> jsstr \<Rightarrow> split_node \<Rightarrow> split_node" where
  "replaceTerminalSplitPane (SplitLeaf b i) paneId replacement =
     (if i = paneId then replacement else SplitLeaf b i)"
| "replaceTerminalSplitPane (SplitBranch d f i r s) paneId replacement =
     SplitBranch d (replaceTerminalSplitPane f paneId replacement) i r
       (replaceTerminalSplitPane s paneId replacement)"

fun updateTerminalSplitRatio :: "split_node \<Rightarrow> jsstr \<Rightarrow> jsnum \<Rightarrow> split_node" where
  "updateTerminalSplitRatio (SplitLeaf b i) splitId ratio = SplitLeaf b i"
| "updateTerminalSplitRatio (SplitBranch d f i r s) splitId ratio =
     (if i = splitId then SplitBranch d f i (clampTerminalSplitRatio ratio) s
      else SplitBranch d (updateTerminalSplitRatio f splitId ratio) i r
             (updateTerminalSplitRatio s splitId ratio))"

fun moveTerminalSplitBinding :: "split_node \<Rightarrow> jsstr \<Rightarrow> pane_binding \<Rightarrow> split_node" where
  "moveTerminalSplitBinding (SplitLeaf b i) paneId bnd =
     (if i = paneId then SplitLeaf (Some bnd) i
      else if terminalPaneBindingsEqual b (Some bnd) then SplitLeaf None i
      else SplitLeaf b i)"
| "moveTerminalSplitBinding (SplitBranch d f i r s) paneId bnd =
     SplitBranch d (moveTerminalSplitBinding f paneId bnd) i r (moveTerminalSplitBinding s paneId bnd)"

text \<open>The shortcut for unchanged children returns an equal tree, so one case covers both.\<close>

fun closeTerminalSplitPane :: "split_node \<Rightarrow> jsstr \<Rightarrow> split_node option" where
  "closeTerminalSplitPane (SplitLeaf b i) paneId = (if i = paneId then None else Some (SplitLeaf b i))"
| "closeTerminalSplitPane (SplitBranch d f i r s) paneId =
     (case (closeTerminalSplitPane f paneId, closeTerminalSplitPane s paneId) of
        (None, second) \<Rightarrow> second
      | (first, None) \<Rightarrow> first
      | (Some f', Some s') \<Rightarrow> Some (SplitBranch d f' i r s'))"

definition removeTerminalSplitBindings :: "split_node \<Rightarrow> jsstr set \<Rightarrow> split_node option" where
  "removeTerminalSplitBindings layout keys =
     (let paneIds = map sp_id (filter (\<lambda>pane. case sp_binding pane of None \<Rightarrow> False
                                    | Some b \<Rightarrow> terminalPaneBindingKey b \<in> keys)
                                (collectTerminalSplitPanes layout))
      in foldl (\<lambda>next paneId. case next of None \<Rightarrow> None | Some l \<Rightarrow> closeTerminalSplitPane l paneId)
           (Some layout) paneIds)"

section \<open>Leaves\<close>

text \<open>The abstract view of a layout: its panes in tree order, with their bindings.\<close>

fun split_leaves :: "split_node \<Rightarrow> (jsstr \<times> pane_binding option) list" where
  "split_leaves (SplitLeaf b i) = [(i, b)]"
| "split_leaves (SplitBranch d f i r s) = split_leaves f @ split_leaves s"

fun split_branches :: "split_node \<Rightarrow> (jsstr \<times> jsnum) list" where
  "split_branches (SplitLeaf b i) = []"
| "split_branches (SplitBranch d f i r s) = (i, r) # split_branches f @ split_branches s"

abbreviation pane_ids :: "split_node \<Rightarrow> jsstr list" where
  "pane_ids n \<equiv> map fst (split_leaves n)"

definition pane_keys :: "split_node \<Rightarrow> jsstr list" where
  "pane_keys n = map terminalPaneBindingKey (List.map_filter snd (split_leaves n))"

lemma map_filter_append_list [simp]:
  "List.map_filter f (xs @ ys) = List.map_filter f xs @ List.map_filter f ys"
  by (simp add: List.map_filter_def)

lemma pane_keys_simps [simp]:
  "pane_keys (SplitLeaf b i) = (case b of None \<Rightarrow> [] | Some x \<Rightarrow> [terminalPaneBindingKey x])"
  "pane_keys (SplitBranch d f i r s) = pane_keys f @ pane_keys s"
  by (auto simp: pane_keys_def List.map_filter_def split: option.splits)

lemma split_leaves_not_Nil [simp]: "split_leaves n \<noteq> []"
  by (induction n) auto

lemma terminalPaneBindingKey_inject [simp]:
  "terminalPaneBindingKey a = terminalPaneBindingKey b \<longleftrightarrow> a = b"
  by (cases "pb_kind a"; cases "pb_kind b") (auto simp: terminalPaneBindingKey_def js_def)

lemma terminalPaneBindingsEqual_iff [simp]:
  "terminalPaneBindingsEqual a (Some b) \<longleftrightarrow> a = Some b"
  by (auto simp: terminalPaneBindingsEqual_def split: option.splits)

lemma geometry_leaves:
  "map (\<lambda>p. (sp_id p, sp_binding p)) (fst (collectTerminalSplitGeometry n b ps rs))
     = map (\<lambda>p. (sp_id p, sp_binding p)) ps @ split_leaves n"
  by (induction n arbitrary: b ps rs)
    (auto simp: Let_def split: split_direction.splits prod.splits dest!: arg_cong [where f = fst])

lemma mset_collect_panes:
  "mset (map (\<lambda>p. (sp_id p, sp_binding p)) (collectTerminalSplitPanes n)) = mset (split_leaves n)"
proof -
  let ?f = "\<lambda>p. (sp_id p, sp_binding p)"
  let ?ps = "fst (collectTerminalSplitGeometry n emptyTerminalSplitBounds [] [])"
  have "mset (map ?f (collectTerminalSplitPanes n)) = mset (map ?f ?ps)"
    by (simp add: collectTerminalSplitPanes_def)
  also have "map ?f ?ps = split_leaves n"
    by (simp add: geometry_leaves)
  finally show ?thesis .
qed

lemma set_collect_panes:
  "(\<lambda>p. (sp_id p, sp_binding p)) ` set (collectTerminalSplitPanes n) = set (split_leaves n)"
  by (metis mset_collect_panes image_set set_mset_mset)

lemma collect_pane_iff:
  "(\<exists>p\<in>set (collectTerminalSplitPanes n). sp_id p = i \<and> sp_binding p = b) \<longleftrightarrow> (i, b) \<in> set (split_leaves n)"
  unfolding set_collect_panes [symmetric] by force

lemma length_collect_panes [simp]:
  "length (collectTerminalSplitPanes n) = length (split_leaves n)"
  using arg_cong [OF mset_collect_panes, of size] by simp

section \<open>Closing and removing panes\<close>

definition opt_leaves :: "split_node option \<Rightarrow> (jsstr \<times> pane_binding option) list" where
  "opt_leaves m = (case m of None \<Rightarrow> [] | Some n \<Rightarrow> split_leaves n)"

lemma opt_leaves_simps [simp]: "opt_leaves None = []" "opt_leaves (Some n) = split_leaves n"
  by (simp_all add: opt_leaves_def)

lemma opt_leaves_eq_Nil [simp]: "opt_leaves m = [] \<longleftrightarrow> m = None"
  by (cases m) auto

lemma close_leaves:
  "opt_leaves (closeTerminalSplitPane n p) = filter (\<lambda>(i, b). i \<noteq> p) (split_leaves n)"
proof (induction n)
  case (SplitBranch d f i r s)
  then show ?case
    by (cases "closeTerminalSplitPane f p"; cases "closeTerminalSplitPane s p")
      auto
qed simp

lemma close_branches:
  "closeTerminalSplitPane n p = Some m \<Longrightarrow> subseq (split_branches m) (split_branches n)"
proof (induction n arbitrary: m)
  case (SplitBranch d f i r s)
  show ?case
  proof (cases "closeTerminalSplitPane f p")
    case None
    with SplitBranch show ?thesis
      by (auto intro!: subseq_drop_many)
  next
    case (Some f')
    show ?thesis
    proof (cases "closeTerminalSplitPane s p")
      case None
      with SplitBranch Some have "subseq (split_branches m) (split_branches f)" by auto
      then have "subseq (split_branches m) (split_branches f @ split_branches s)"
        by (rule subseq_rev_drop_many)
      then show ?thesis by auto
    next
      case (Some s')
      with SplitBranch \<open>closeTerminalSplitPane f p = Some f'\<close> show ?thesis
        by (auto intro: list_emb_append_mono)
    qed
  qed
qed (auto split: if_splits)

definition close_all :: "split_node option \<Rightarrow> jsstr list \<Rightarrow> split_node option" where
  "close_all m ps = foldl (\<lambda>next p. case next of None \<Rightarrow> None | Some l \<Rightarrow> closeTerminalSplitPane l p) m ps"

lemma close_all_leaves:
  "opt_leaves (close_all m ps) = filter (\<lambda>(i, b). i \<notin> set ps) (opt_leaves m)"
proof (induction ps arbitrary: m)
  case (Cons p ps)
  have "opt_leaves (case m of None \<Rightarrow> None | Some l \<Rightarrow> closeTerminalSplitPane l p)
        = filter (\<lambda>(i, b). i \<noteq> p) (opt_leaves m)"
    by (cases m) (auto simp: close_leaves)
  with Cons show ?case
    by (simp add: close_all_def case_prod_unfold conj_commute cong: filter_cong)
qed (simp add: close_all_def case_prod_unfold)

lemma close_all_branches:
  "close_all (Some n) ps = Some m \<Longrightarrow> subseq (split_branches m) (split_branches n)"
proof (induction ps arbitrary: n)
  case (Cons p ps)
  have "close_all None ps = None"
    using close_all_leaves [of None ps] by simp
  with Cons.prems obtain n' where n': "closeTerminalSplitPane n p = Some n'" "close_all (Some n') ps = Some m"
    by (cases "closeTerminalSplitPane n p") (auto simp: close_all_def)
  then show ?case using Cons.IH close_branches subseq_order.trans by blast
qed (simp add: close_all_def)

lemma remove_as_close_all:
  "\<exists>ps. removeTerminalSplitBindings n keys = close_all (Some n) ps
     \<and> set ps = fst ` {l \<in> set (split_leaves n). \<exists>b. snd l = Some b \<and> terminalPaneBindingKey b \<in> keys}"
proof -
  let ?bound = "\<lambda>pane. case sp_binding pane of None \<Rightarrow> False | Some b \<Rightarrow> terminalPaneBindingKey b \<in> keys"
  let ?ps = "map sp_id (filter ?bound (collectTerminalSplitPanes n))"
  have "set ?ps = fst ` {l \<in> set (split_leaves n). \<exists>b. snd l = Some b \<and> terminalPaneBindingKey b \<in> keys}"
    unfolding set_collect_panes [symmetric]
    by (force split: option.splits)
  then show ?thesis
    by (intro exI [of _ ?ps]) (simp add: removeTerminalSplitBindings_def close_all_def)
qed

lemma remove_leaves:
  assumes "distinct (pane_ids n)"
  shows "opt_leaves (removeTerminalSplitBindings n keys)
    = filter (\<lambda>(i, b). \<not> (\<exists>x. b = Some x \<and> terminalPaneBindingKey x \<in> keys)) (split_leaves n)"
proof -
  obtain ps where ps: "removeTerminalSplitBindings n keys = close_all (Some n) ps"
    "set ps = fst ` {l \<in> set (split_leaves n). \<exists>b. snd l = Some b \<and> terminalPaneBindingKey b \<in> keys}"
    using remove_as_close_all [of n keys] by (elim exE conjE) (rule that)
  have "i \<in> set ps \<longleftrightarrow> (\<exists>x. b = Some x \<and> terminalPaneBindingKey x \<in> keys)"
    if "(i, b) \<in> set (split_leaves n)" for i b
  proof
    assume "i \<in> set ps"
    then obtain b' where b': "(i, b') \<in> set (split_leaves n)"
      and "\<exists>x. b' = Some x \<and> terminalPaneBindingKey x \<in> keys"
      using ps(2) by auto
    moreover have "b' = b"
      by (rule eq_key_imp_eq_value [OF assms b' that])
    ultimately show "\<exists>x. b = Some x \<and> terminalPaneBindingKey x \<in> keys"
      by simp
  qed (use that ps(2) in force)
  with ps(1) show ?thesis
    by (auto simp: close_all_leaves intro!: filter_cong)
qed

end
