(* ===== verification/Terminal_Split_Geometry.thy ===== *)
theory Terminal_Split_Geometry
  imports Terminal_Split
begin

text \<open>
  The geometry of a split layout: every point of the unit square lies in exactly one pane,
  whatever the ratios, as long as none of them is NaN; and the panes of the four-pane layout
  come out in reading order.
\<close>

definition pane_covers :: "split_bounds \<Rightarrow> rat \<Rightarrow> rat \<Rightarrow> bool" where
  "pane_covers b x y \<longleftrightarrow>
     num_le (sb_left b) (Num x) \<and> num_lt (Num x) (num_add (sb_left b) (sb_width b)) \<and>
     num_le (sb_top b) (Num y) \<and> num_lt (Num y) (num_add (sb_top b) (sb_height b))"

definition covering_panes :: "split_pane list \<Rightarrow> rat \<Rightarrow> rat \<Rightarrow> nat" where
  "covering_panes ps x y = length (filter (\<lambda>p. pane_covers (sp_bounds p) x y) ps)"

definition numeric_layout :: "split_node \<Rightarrow> bool" where
  "numeric_layout n \<longleftrightarrow> (\<forall>(i, r)\<in>set (split_branches n). r \<noteq> NaN)"

definition rat_bounds :: "rat \<Rightarrow> rat \<Rightarrow> rat \<Rightarrow> rat \<Rightarrow> split_bounds" where
  "rat_bounds l t w h = \<lparr>sb_height = Num h, sb_left = Num l, sb_top = Num t, sb_width = Num w\<rparr>"

lemma rat_bounds_simps [simp]:
  "sb_width (rat_bounds l t w h) = Num w"
  "sb_height (rat_bounds l t w h) = Num h"
  "sb_left (rat_bounds l t w h) = Num l"
  "sb_top (rat_bounds l t w h) = Num t"
  "(rat_bounds l t w h)\<lparr>sb_width := Num w'\<rparr> = rat_bounds l t w' h"
  "(rat_bounds l t w h)\<lparr>sb_height := Num h'\<rparr> = rat_bounds l t w h'"
  "(rat_bounds l t w h)\<lparr>sb_left := Num l'\<rparr> = rat_bounds l' t w h"
  "(rat_bounds l t w h)\<lparr>sb_top := Num t'\<rparr> = rat_bounds l t' w h"
  by (simp_all add: rat_bounds_def)

lemma pane_covers_rat:
  "pane_covers (rat_bounds l t w h) x y \<longleftrightarrow> l \<le> x \<and> x < l + w \<and> t \<le> y \<and> y < t + h"
  by (auto simp: pane_covers_def num_le_def)

lemma numeric_layout_simps [simp]:
  "numeric_layout (SplitLeaf b i)"
  "numeric_layout (SplitBranch d f i r s) \<longleftrightarrow> r \<noteq> NaN \<and> numeric_layout f \<and> numeric_layout s"
  by (auto simp: numeric_layout_def)

lemma clamp_ratio_range:
  assumes "r \<noteq> NaN"
  obtains q where "clampTerminalSplitRatio r = Num q" "1 / 5 \<le> q" "q \<le> 4 / 5"
  using num_clamp_range [OF assms, of "1 / 5" "4 / 5"]
  unfolding clampTerminalSplitRatio_def terminalSplitMinRatio_def terminalSplitMaxRatio_def
  by auto

lemma scaled_bounds:
  fixes w q :: rat
  assumes "0 \<le> w" "1 / 5 \<le> q" "q \<le> 4 / 5"
  shows "0 \<le> w * q \<and> w * q \<le> w"
  using assms by (auto intro!: mult_left_le)

lemma covering_geometry:
  assumes "numeric_layout n" "0 \<le> w" "0 \<le> h"
  shows "covering_panes (fst (collectTerminalSplitGeometry n (rat_bounds l t w h) ps rs)) x y
     = covering_panes ps x y + (if pane_covers (rat_bounds l t w h) x y then 1 else 0)"
  using assms
proof (induction n arbitrary: l t w h ps rs)
  case (SplitBranch d f i r s)
  from SplitBranch.prems obtain q where q: "clampTerminalSplitRatio r = Num q" "1 / 5 \<le> q" "q \<le> 4 / 5"
    by (auto elim: clamp_ratio_range)
  show ?case
  proof (cases d)
    case DirRow
    have v: "0 \<le> w * q" "w * q \<le> w" using scaled_bounds [OF _ q(2,3)] SplitBranch.prems by auto
    with SplitBranch q DirRow show ?thesis
      by (auto simp: Let_def pane_covers_rat split: prod.splits dest!: arg_cong [where f = fst])
  next
    case DirColumn
    have v: "0 \<le> h * q" "h * q \<le> h" using scaled_bounds [OF _ q(2,3)] SplitBranch.prems by auto
    with SplitBranch q DirColumn show ?thesis
      by (auto simp: Let_def pane_covers_rat split: prod.splits dest!: arg_cong [where f = fst])
  qed
qed (simp add: covering_panes_def)

lemma covering_sort [simp]: "covering_panes (js_sort gt ps) x y = covering_panes ps x y"
proof -
  have "size (filter_mset P (mset (js_sort gt ps))) = size (filter_mset P (mset ps))" for P
    by simp
  then show ?thesis unfolding covering_panes_def by (metis mset_filter size_mset)
qed

lemma covering_collect:
  assumes "numeric_layout n"
  shows "covering_panes (collectTerminalSplitPanes n) x y = (if 0 \<le> x \<and> x < 1 \<and> 0 \<le> y \<and> y < 1 then 1 else 0)"
proof -
  have e: "emptyTerminalSplitBounds = rat_bounds 0 0 1 1"
    by (simp add: emptyTerminalSplitBounds_def rat_bounds_def)
  show ?thesis
    using covering_geometry [OF assms, of 1 1 0 0 "[]" "[]" x y]
    unfolding collectTerminalSplitPanes_def covering_sort e pane_covers_rat
    by (auto simp: covering_panes_def [of "[]"])
qed

lemma four_pane_order:
  "map (\<lambda>p. (sp_id p, sp_binding p)) (collectTerminalSplitPanes (createTerminalFourPaneLayout bs ids))
     = [(fp_topLeft ids, nth_opt bs 0), (fp_topRight ids, nth_opt bs 1),
        (fp_bottomLeft ids, nth_opt bs 2), (fp_bottomRight ids, nth_opt bs 3)]"
  by (simp add: collectTerminalSplitPanes_def createTerminalFourPaneLayout_def
      clampTerminalSplitRatio_def terminalSplitMinRatio_def terminalSplitMaxRatio_def num_clamp_Num
      emptyTerminalSplitBounds_def compareTerminalSplitPanePosition_gt_def num_abs_def Let_def)

end
