(* ===== verification/Split_Session.thy ===== *)
theory Split_Session
  imports Terminal_Split_Geometry
begin

text \<open>
  The split state the workspace keeps (\<open>src/features/layout/WorkspaceShell.tsx\<close>): the layout, the
  focused pane and the counter of pane and split identifiers, and the operations of the user on it.
  The rest of the workspace's state (hosts, picker, synchronised input) is not modelled.
  \<open>created\<close> stands for the tab that \<open>createSameSessionTerminalBinding\<close> opens, when the setting
  that asks for it is on and opening it succeeds; \<open>host\<close> says that \<open>terminalSplitHostForBinding\<close> finds
  the workspace tab the binding belongs to (or that a split host is set already); \<open>available\<close> is the set of the keys of open tabs.
\<close>

record split_session =
  ss_layout :: "split_node option"
  ss_focused :: "jsstr option"
  ss_counter :: nat

definition terminal_pane_id :: "nat \<Rightarrow> jsstr" where
  "terminal_pane_id k = js ''terminal-pane'' @ js ''-'' @ dec_digits k"

definition terminal_split_id :: "nat \<Rightarrow> jsstr" where
  "terminal_split_id k = js ''terminal-split'' @ js ''-'' @ dec_digits k"

text \<open>\<open>nextTerminalSplitId(prefix)\<close>: the counter is increased first.\<close>

definition nextTerminalSplitId :: "jsstr \<Rightarrow> split_session \<Rightarrow> jsstr \<times> split_session" where
  "nextTerminalSplitId pre s =
     (let k = Suc (ss_counter s) in (pre @ js ''-'' @ dec_digits k, s\<lparr>ss_counter := k\<rparr>))"

definition session_panes :: "split_session \<Rightarrow> split_pane list" where
  "session_panes s = (case ss_layout s of None \<Rightarrow> [] | Some l \<Rightarrow> collectTerminalSplitPanes l)"

definition assignTerminalSplitBinding :: "jsstr \<Rightarrow> pane_binding \<Rightarrow> split_session \<Rightarrow> split_session" where
  "assignTerminalSplitBinding paneId b s =
     (let next = (case ss_layout s of
          None \<Rightarrow> None
        | Some layout \<Rightarrow>
            (let previousPane = findTerminalSplitPaneByBinding layout b;
                 targetPane = List.find (\<lambda>pane. sp_id pane = paneId) (collectTerminalSplitPanes layout);
                 nextLayout = moveTerminalSplitBinding layout paneId b
             in case previousPane of
                  None \<Rightarrow> Some nextLayout
                | Some prev \<Rightarrow>
                    if sp_id prev = paneId then Some nextLayout
                    else (case targetPane of
                            None \<Rightarrow> Some nextLayout
                          | Some target \<Rightarrow>
                              (case sp_binding target of
                                 None \<Rightarrow> Some nextLayout
                               | Some tb \<Rightarrow>
                                   if terminalPaneBindingsEqual (Some tb) (Some b) then Some nextLayout
                                   else Some (moveTerminalSplitBinding nextLayout (sp_id prev) tb)))))
      in s\<lparr>ss_layout := next, ss_focused := Some paneId\<rparr>)"

definition startTerminalSplitForBinding ::
  "bool \<Rightarrow> pane_binding \<Rightarrow> split_direction \<Rightarrow> pane_binding option \<Rightarrow> split_session \<Rightarrow> split_session" where
  "startTerminalSplitForBinding host b direction created s =
     (case ss_layout s of
        None \<Rightarrow>
          if \<not> host then s else
          (let (firstPaneId, s1) = nextTerminalSplitId (js ''terminal-pane'') s;
               (nextPaneId, s2) = nextTerminalSplitId (js ''terminal-pane'') s1;
               (splitId, s3) = nextTerminalSplitId (js ''terminal-split'') s2
           in s3\<lparr>ss_layout := Some (splitTerminalPane (createTerminalSplitLayout firstPaneId b)
                                firstPaneId direction splitId nextPaneId created),
                 ss_focused := Some nextPaneId\<rparr>)
      | Some layout \<Rightarrow>
          if \<not> length (session_panes s) < terminalSplitMaxPanes then s
          else
            (let boundPane = findTerminalSplitPaneByBinding layout b;
                 paneId = (case boundPane of
                             Some p \<Rightarrow> Some (sp_id p)
                           | None \<Rightarrow> (case opt_truthy (ss_focused s) of
                                        Some f \<Rightarrow> Some f
                                      | None \<Rightarrow> (case session_panes s of [] \<Rightarrow> None | p # _ \<Rightarrow> Some (sp_id p))))
             in case paneId of
                  None \<Rightarrow> s
                | Some pid \<Rightarrow>
                    (let (nextPaneId, s1) = nextTerminalSplitId (js ''terminal-pane'') s;
                         nextBinding = (if boundPane \<noteq> None then created else Some b);
                         (splitId, s2) = nextTerminalSplitId (js ''terminal-split'') s1
                     in s2\<lparr>ss_layout := Some (splitTerminalPane layout pid direction splitId nextPaneId nextBinding),
                           ss_focused := Some nextPaneId\<rparr>)))"

definition createTerminalFourPane :: "pane_binding list \<Rightarrow> split_session \<Rightarrow> split_session" where
  "createTerminalFourPane bs s =
     (let (bl, s1) = nextTerminalSplitId (js ''terminal-pane'') s;
          (br, s2) = nextTerminalSplitId (js ''terminal-pane'') s1;
          (ls, s3) = nextTerminalSplitId (js ''terminal-split'') s2;
          (rs, s4) = nextTerminalSplitId (js ''terminal-split'') s3;
          (rt, s5) = nextTerminalSplitId (js ''terminal-split'') s4;
          (tl, s6) = nextTerminalSplitId (js ''terminal-pane'') s5;
          (tr, s7) = nextTerminalSplitId (js ''terminal-pane'') s6;
          layout = createTerminalFourPaneLayout bs
            \<lparr>fp_bottomLeft = bl, fp_bottomRight = br, fp_leftSplit = ls, fp_rightSplit = rs,
             fp_root = rt, fp_topLeft = tl, fp_topRight = tr\<rparr>;
          panes = collectTerminalSplitPanes layout;
          emptyPane = List.find (\<lambda>pane. sp_binding pane = None) panes;
          boundPane = List.find (\<lambda>pane. terminalPaneBindingsEqual (sp_binding pane) (nth_opt bs 0)) panes;
          focusedPane = (case emptyPane of Some p \<Rightarrow> Some p
            | None \<Rightarrow> (case boundPane of Some p \<Rightarrow> Some p
                | None \<Rightarrow> (case panes of [] \<Rightarrow> None | p # _ \<Rightarrow> Some p)))
      in s7\<lparr>ss_layout := Some layout,
            ss_focused := Some (case focusedPane of None \<Rightarrow> tl | Some p \<Rightarrow> sp_id p)\<rparr>)"

text \<open>\<open>created\<close> lists the tabs the loop opens before the layout is full or opening one fails.\<close>

definition startTerminalFourPaneForBinding ::
  "bool \<Rightarrow> pane_binding \<Rightarrow> pane_binding list \<Rightarrow> split_session \<Rightarrow> split_session" where
  "startTerminalFourPaneForBinding host b created s =
     (if \<not> host then s else
      let current = List.map_filter sp_binding (session_panes s);
          bindings0 = (if current \<noteq> [] then current else [b]);
          bindings1 = (if \<exists>c\<in>set bindings0. terminalPaneBindingsEqual (Some c) (Some b)
                       then bindings0 else bindings0 @ [b]);
          bindings2 = bindings1 @ take (terminalSplitMaxPanes - length bindings1) created
      in createTerminalFourPane (take terminalSplitMaxPanes bindings2) s)"

definition close_session_pane :: "jsstr \<Rightarrow> split_session \<Rightarrow> split_session" where
  "close_session_pane paneId s =
     (case ss_layout s of
        None \<Rightarrow> s
      | Some layout \<Rightarrow>
          (case closeTerminalSplitPane layout paneId of
             None \<Rightarrow> s\<lparr>ss_layout := None, ss_focused := None\<rparr>
           | Some nextLayout \<Rightarrow>
               (let nextPanes = collectTerminalSplitPanes nextLayout;
                    nextFocused = (case List.find (\<lambda>pane. Some (sp_id pane) = ss_focused s) nextPanes of
                        Some p \<Rightarrow> Some p
                      | None \<Rightarrow> (case nextPanes of [] \<Rightarrow> None | p # _ \<Rightarrow> Some p))
                in s\<lparr>ss_layout := Some nextLayout, ss_focused := map_option sp_id nextFocused\<rparr>)))"

definition closeTerminalSplitEmptyPane :: "jsstr \<Rightarrow> split_session \<Rightarrow> split_session" where
  "closeTerminalSplitEmptyPane paneId s =
     (let s1 = s\<lparr>ss_layout := Option.bind (ss_layout s) (\<lambda>l. closeTerminalSplitPane l paneId)\<rparr>
      in if ss_focused s = Some paneId
         then s1\<lparr>ss_focused := map_option sp_id
                   (List.find (\<lambda>pane. sp_id pane \<noteq> paneId) (session_panes s))\<rparr>
         else s1)"

definition equalizeTerminalSplitPanes :: "split_session \<Rightarrow> split_session" where
  "equalizeTerminalSplitPanes s = s\<lparr>ss_layout := map_option equalizeTerminalSplitLayout (ss_layout s)\<rparr>"

definition update_session_ratio :: "jsstr \<Rightarrow> jsnum \<Rightarrow> split_session \<Rightarrow> split_session" where
  "update_session_ratio splitId ratio s =
     s\<lparr>ss_layout := map_option (\<lambda>l. updateTerminalSplitRatio l splitId ratio) (ss_layout s)\<rparr>"

text \<open>The first lines of \<open>focusTerminalSplitPane\<close>; the rest activates the tab of the pane.\<close>

definition focusTerminalSplitPane :: "jsstr \<Rightarrow> split_session \<Rightarrow> split_session" where
  "focusTerminalSplitPane paneId s =
     (case List.find (\<lambda>pane. sp_id pane = paneId) (session_panes s) of
        None \<Rightarrow> s
      | Some pane \<Rightarrow> s\<lparr>ss_focused := Some (sp_id pane)\<rparr>)"

text \<open>
  The effect that shrinks a layout with more panes than allowed; \<open>fallback\<close> is
  \<open>fallbackTerminalSplitBinding()\<close>, the tab of the active terminal if there is one.
\<close>

definition shrink_overfull :: "pane_binding option \<Rightarrow> split_session \<Rightarrow> split_session" where
  "shrink_overfull fallback s =
     (if ss_layout s = None \<or> length (session_panes s) \<le> terminalSplitMaxPanes then s
      else
        (let panes = session_panes s;
             focusedPane = (case opt_truthy (ss_focused s) of None \<Rightarrow> None
                            | Some f \<Rightarrow> List.find (\<lambda>pane. sp_id pane = f) panes);
             firstBound = List.find (\<lambda>pane. sp_binding pane \<noteq> None) panes;
             chosen = (case Option.bind focusedPane sp_binding of Some b \<Rightarrow> Some b
                       | None \<Rightarrow> (case Option.bind firstBound sp_binding of Some b \<Rightarrow> Some b
                           | None \<Rightarrow> fallback))
         in case chosen of
              None \<Rightarrow> s
            | Some b \<Rightarrow>
                createTerminalFourPane
                  (take terminalSplitMaxPanes
                     (b # filter (\<lambda>c. \<not> terminalPaneBindingsEqual (Some c) (Some b))
                            (List.map_filter sp_binding panes))) s))"

text \<open>The effect that drops the panes of closed tabs.\<close>

definition prune_unavailable :: "jsstr set \<Rightarrow> split_session \<Rightarrow> split_session" where
  "prune_unavailable available s =
     (case ss_layout s of
        None \<Rightarrow> s
      | Some layout \<Rightarrow>
          (let unavailable = set (filter (\<lambda>k. k \<notin> available)
                 (map terminalPaneBindingKey (List.map_filter sp_binding (collectTerminalSplitPanes layout))))
           in case removeTerminalSplitBindings layout unavailable of
                None \<Rightarrow> s\<lparr>ss_layout := None, ss_focused := None\<rparr>
              | Some nextLayout \<Rightarrow>
                  (let nextPanes = collectTerminalSplitPanes nextLayout;
                       exists = (case opt_truthy (ss_focused s) of None \<Rightarrow> False
                                 | Some f \<Rightarrow> (\<exists>p\<in>set nextPanes. sp_id p = f))
                   in s\<lparr>ss_layout := Some nextLayout,
                        ss_focused := (if exists then ss_focused s
                          else (case nextPanes of [] \<Rightarrow> None | p # _ \<Rightarrow> Some (sp_id p)))\<rparr>)))"

text \<open>The effect that leaves split mode when a single pane remains.\<close>

definition collapse_single_pane :: "split_session \<Rightarrow> split_session" where
  "collapse_single_pane s =
     (if ss_layout s = None \<or> length (session_panes s) \<noteq> 1 then s
      else s\<lparr>ss_layout := None, ss_focused := None\<rparr>)"

section \<open>Dragging a divider\<close>

definition terminalSplitRatioFits :: "rat \<Rightarrow> rat \<Rightarrow> split_node \<Rightarrow> jsstr \<Rightarrow> jsnum \<Rightarrow> bool" where
  "terminalSplitRatioFits rectWidth rectHeight layout splitId ratio =
     (\<forall>pane\<in>set (collectTerminalSplitPanes (updateTerminalSplitRatio layout splitId ratio)).
        num_le (Num 220) (num_mul (sb_width (sp_bounds pane)) (Num rectWidth)) \<and>
        num_le (Num 150) (num_mul (sb_height (sp_bounds pane)) (Num rectHeight)))"

fun bisect_ratio :: "(jsnum \<Rightarrow> bool) \<Rightarrow> nat \<Rightarrow> jsnum \<Rightarrow> jsnum \<Rightarrow> jsnum" where
  "bisect_ratio fits 0 validRatio invalidRatio = validRatio"
| "bisect_ratio fits (Suc k) validRatio invalidRatio =
     (let candidate = num_mul (num_add validRatio invalidRatio) (Num (1 / 2))
      in if fits candidate then bisect_ratio fits k candidate invalidRatio
         else bisect_ratio fits k validRatio candidate)"

definition clampRatioForMinimumPaneSize ::
  "rat \<Rightarrow> rat \<Rightarrow> split_node \<Rightarrow> split_resizer \<Rightarrow> jsnum \<Rightarrow> jsnum" where
  "clampRatioForMinimumPaneSize rectWidth rectHeight layout resizer requestedRatio =
     (let currentRatio = sr_ratio resizer;
          fits = terminalSplitRatioFits rectWidth rectHeight layout (sr_id resizer)
      in if fits requestedRatio then requestedRatio
         else if \<not> fits currentRatio then currentRatio
         else bisect_ratio fits 14 currentRatio requestedRatio)"


section \<open>The invariant of a session\<close>

text \<open>
  Pane and split identifiers are distinct and were drawn from the counter, every ratio is in its
  range, no tab is shown in two panes and there are at most four panes.
\<close>

definition ratio_ok :: "jsnum \<Rightarrow> bool" where
  "ratio_ok r \<longleftrightarrow> (\<exists>q. r = Num q \<and> terminalSplitMinRatio \<le> q \<and> q \<le> terminalSplitMaxRatio)"

definition layout_inv :: "nat \<Rightarrow> split_node \<Rightarrow> bool" where
  "layout_inv k n \<longleftrightarrow> distinct (pane_ids n) \<and> distinct (map fst (split_branches n))
     \<and> (\<forall>i\<in>set (pane_ids n). \<exists>j\<le>k. i = terminal_pane_id j)
     \<and> (\<forall>(i, r)\<in>set (split_branches n). (\<exists>j\<le>k. i = terminal_split_id j) \<and> ratio_ok r)
     \<and> distinct (pane_keys n) \<and> length (split_leaves n) \<le> terminalSplitMaxPanes"

text \<open>The focused pane is one of the layout; without a layout there is none.\<close>

definition session_inv :: "split_session \<Rightarrow> bool" where
  "session_inv s \<longleftrightarrow>
     (case ss_layout s of
        None \<Rightarrow> ss_focused s = None
      | Some n \<Rightarrow> layout_inv (ss_counter s) n \<and> (\<exists>f\<in>set (pane_ids n). ss_focused s = Some f))"

lemma terminal_ids_inject [simp]:
  "terminal_pane_id i = terminal_pane_id j \<longleftrightarrow> i = j"
  "terminal_split_id i = terminal_split_id j \<longleftrightarrow> i = j"
  by (simp_all add: terminal_pane_id_def terminal_split_id_def)

lemma nextTerminalSplitId_simps [simp]:
  "nextTerminalSplitId (js ''terminal-pane'') s
     = (terminal_pane_id (Suc (ss_counter s)), s\<lparr>ss_counter := Suc (ss_counter s)\<rparr>)"
  "nextTerminalSplitId (js ''terminal-split'') s
     = (terminal_split_id (Suc (ss_counter s)), s\<lparr>ss_counter := Suc (ss_counter s)\<rparr>)"
  by (simp_all add: nextTerminalSplitId_def terminal_pane_id_def terminal_split_id_def)

lemma ratio_ok_half [simp]: "ratio_ok (Num (1 / 2))"
  unfolding ratio_ok_def terminalSplitMinRatio_def terminalSplitMaxRatio_def
  by (rule exI [of _ "1 / 2"]) simp

lemma ratio_ok_clamp: "r \<noteq> NaN \<Longrightarrow> ratio_ok (clampTerminalSplitRatio r)"
  unfolding ratio_ok_def terminalSplitMinRatio_def terminalSplitMaxRatio_def
  by (erule clamp_ratio_range) blast

lemma ratio_ok_not_NaN [simp]: "\<not> ratio_ok NaN"
  by (simp add: ratio_ok_def)

definition shown :: "(jsstr \<times> pane_binding option) list \<Rightarrow> pane_binding list" where
  "shown ls = List.map_filter snd ls"

lemma shown_simps [simp]:
  "shown [] = []"
  "shown ((i, None) # ls) = shown ls"
  "shown ((i, Some b) # ls) = b # shown ls"
  "shown (ls @ ms) = shown ls @ shown ms"
  by (simp_all add: shown_def List.map_filter_def)

lemma set_shown: "set (shown ls) = {b. \<exists>i. (i, Some b) \<in> set ls}"
  by (force simp: shown_def List.map_filter_def)

lemma pane_keys_shown: "pane_keys n = map terminalPaneBindingKey (shown (split_leaves n))"
  by (simp add: pane_keys_def shown_def)

lemma distinct_pane_keys: "distinct (pane_keys n) \<longleftrightarrow> distinct (shown (split_leaves n))"
  by (simp add: pane_keys_shown distinct_map inj_on_def)

lemma mset_shown:
  "mset (shown ls) = (\<Sum>l\<in>#mset ls. case snd l of None \<Rightarrow> {#} | Some b \<Rightarrow> {#b#})"
  by (induction ls rule: list.induct) (auto split: option.splits simp: shown_def List.map_filter_def)

lemma distinct_shown_filter: "distinct (shown ls) \<Longrightarrow> distinct (shown (filter P ls))"
proof (induction ls)
  case (Cons l ls)
  then show ?case
    by (cases l; cases "snd l") (auto simp: set_shown)
qed simp

subsection \<open>Each tree operation on leaves and branches\<close>

lemma split_leaves_split:
  "mset (split_leaves (splitTerminalPane n p d si np nb))
     = mset (split_leaves n) + replicate_mset (count_list (pane_ids n) p) (np, nb)"
  by (induction n) (auto simp: replicate_mset_add algebra_simps)

lemma split_branches_split:
  "mset (split_branches (splitTerminalPane n p d si np nb))
     = mset (split_branches n) + replicate_mset (count_list (pane_ids n) p) (si, Num (1 / 2))"
  by (induction n) (auto simp: replicate_mset_add algebra_simps)

lemma move_leaves:
  "split_leaves (moveTerminalSplitBinding n p x)
     = map (\<lambda>(i, b). (i, if i = p then Some x else if b = Some x then None else b)) (split_leaves n)"
  by (induction n) auto

lemma move_branches [simp]: "split_branches (moveTerminalSplitBinding n p x) = split_branches n"
  by (induction n) auto

lemma equalize_leaves [simp]: "split_leaves (equalizeTerminalSplitLayout n) = split_leaves n"
  by (induction n) auto

lemma equalize_branches:
  "split_branches (equalizeTerminalSplitLayout n) = map (\<lambda>(i, r). (i, Num (1 / 2))) (split_branches n)"
  by (induction n) auto

lemma update_leaves [simp]: "split_leaves (updateTerminalSplitRatio n si r) = split_leaves n"
  by (induction n) auto

lemma update_branch_ids [simp]:
  "map fst (split_branches (updateTerminalSplitRatio n si r)) = map fst (split_branches n)"
  by (induction n) auto

lemma update_branch_set:
  "(i, q) \<in> set (split_branches (updateTerminalSplitRatio n si r)) \<Longrightarrow>
     (i, q) \<in> set (split_branches n) \<or> (i \<in> fst ` set (split_branches n) \<and> q = clampTerminalSplitRatio r)"
  by (induction n) (auto split: if_splits simp: image_iff)


subsection \<open>Preservation of the invariant of a layout\<close>

lemma layout_inv_mono: "layout_inv k n \<Longrightarrow> k \<le> k' \<Longrightarrow> layout_inv k' n"
  unfolding layout_inv_def by (fastforce intro: le_trans)

lemma terminal_pane_id_fresh:
  "layout_inv k n \<Longrightarrow> k < j \<Longrightarrow> terminal_pane_id j \<notin> set (pane_ids n)"
  by (auto simp: layout_inv_def)

lemma terminal_split_id_fresh:
  "layout_inv k n \<Longrightarrow> k < j \<Longrightarrow> terminal_split_id j \<notin> fst ` set (split_branches n)"
  by (fastforce simp: layout_inv_def)

lemma layout_inv_split:
  assumes inv: "layout_inv k n" and room: "length (split_leaves n) < terminalSplitMaxPanes"
    and fresh: "k < j" "k < j'" and nb: "\<And>b. nb = Some b \<Longrightarrow> b \<notin> set (shown (split_leaves n))"
  shows "layout_inv (max j j') (splitTerminalPane n p d (terminal_split_id j') (terminal_pane_id j) nb)"
proof (cases "p \<in> set (pane_ids n)")
  case False
  then have "mset (split_leaves (splitTerminalPane n p d si np nb)) = mset (split_leaves n)"
    and "splitTerminalPane n p d si np nb = n" for si np
    by (induction n) auto
  with inv fresh show ?thesis by (simp add: layout_inv_mono)
next
  case True
  let ?m = "splitTerminalPane n p d (terminal_split_id j') (terminal_pane_id j) nb"
  have c: "count_list (pane_ids n) p = 1"
    using inv True by (simp add: layout_inv_def count_list_distinct)
  have L: "mset (split_leaves ?m) = mset ((terminal_pane_id j, nb) # split_leaves n)"
    by (simp add: split_leaves_split c)
  have B: "mset (split_branches ?m) = mset ((terminal_split_id j', Num (1 / 2)) # split_branches n)"
    by (simp add: split_branches_split c)
  have ids: "distinct (pane_ids ?m) \<longleftrightarrow> distinct (terminal_pane_id j # pane_ids n)"
    using L by (intro distinct_mset_eq) (metis (no_types, lifting) fst_conv list.simps(9) mset_map)
  have bids: "distinct (map fst (split_branches ?m)) \<longleftrightarrow> distinct (terminal_split_id j' # map fst (split_branches n))"
    using B by (intro distinct_mset_eq) (metis (no_types, lifting) fst_conv list.simps(9) mset_map)
  have keys: "distinct (shown (split_leaves ?m)) \<longleftrightarrow> distinct (shown ((terminal_pane_id j, nb) # split_leaves n))"
    by (intro distinct_mset_eq) (simp add: mset_shown L)
  have sets: "set (split_leaves ?m) = insert (terminal_pane_id j, nb) (set (split_leaves n))"
    "set (split_branches ?m) = insert (terminal_split_id j', Num (1 / 2)) (set (split_branches n))"
    using mset_eq_setD [OF L] mset_eq_setD [OF B] by simp_all
  have len: "length (split_leaves ?m) = Suc (length (split_leaves n))"
    using arg_cong [OF L, of size] by simp
  have "distinct (shown ((terminal_pane_id j, nb) # split_leaves n))"
    using inv nb by (cases nb) (auto simp: layout_inv_def distinct_pane_keys)
  moreover have "\<forall>i\<in>set (pane_ids n). \<exists>i'\<le>max j j'. i = terminal_pane_id i'"
    and "\<forall>(i, r)\<in>set (split_branches n). (\<exists>i'\<le>max j j'. i = terminal_split_id i') \<and> ratio_ok r"
    using layout_inv_mono [OF inv, of "max j j'"] fresh by (simp_all add: layout_inv_def)
  ultimately show ?thesis
    using inv room len terminal_pane_id_fresh [OF inv fresh(1)] terminal_split_id_fresh [OF inv fresh(2)]
    unfolding layout_inv_def distinct_pane_keys ids bids keys sets set_map
    by auto
qed

lemma shown_move_other:
  assumes "p \<notin> fst ` set ls"
  shows "shown (map (\<lambda>(i, b). (i, if i = p then Some x else if b = Some x then None else b)) ls)
           = filter (\<lambda>b. b \<noteq> x) (shown ls)"
  using assms
proof (induction ls)
  case (Cons l ls)
  then show ?case
    by (cases l; cases "snd l") auto
qed simp

lemma shown_move:
  assumes "distinct (map fst ls)" "distinct (shown ls)"
  shows "distinct (shown (map (\<lambda>(i, b). (i, if i = p then Some x else if b = Some x then None else b)) ls))"
proof (cases "p \<in> fst ` set ls")
  case True
  then obtain b us vs where ls: "ls = us @ (p, b) # vs"
    by (auto dest: split_list)
  with assms(1) have "p \<notin> fst ` set us" "p \<notin> fst ` set vs" by auto
  with assms(2) show ?thesis
    by (cases b) (auto simp: ls shown_move_other)
qed (use assms(2) in \<open>simp add: shown_move_other\<close>)

lemma layout_inv_move: "layout_inv k n \<Longrightarrow> layout_inv k (moveTerminalSplitBinding n p x)"
  unfolding layout_inv_def distinct_pane_keys move_leaves move_branches
  by (auto simp: comp_def case_prod_unfold intro!: shown_move [unfolded case_prod_unfold])

lemma layout_inv_equalize: "layout_inv k n \<Longrightarrow> layout_inv k (equalizeTerminalSplitLayout n)"
  unfolding layout_inv_def distinct_pane_keys equalize_leaves equalize_branches
  by (auto simp: comp_def case_prod_unfold)

lemma layout_inv_update:
  "layout_inv k n \<Longrightarrow> r \<noteq> NaN \<Longrightarrow> layout_inv k (updateTerminalSplitRatio n si r)"
  unfolding layout_inv_def distinct_pane_keys update_leaves update_branch_ids
  by (fastforce dest!: update_branch_set intro: ratio_ok_clamp)

lemma layout_inv_sub:
  assumes inv: "layout_inv k n"
    and leaves: "split_leaves m = filter P (split_leaves n)"
    and branches: "subseq (split_branches m) (split_branches n)"
  shows "layout_inv k m"
proof -
  have "distinct (pane_ids m)"
    using inv by (simp add: layout_inv_def leaves distinct_map_filter)
  moreover have "distinct (map fst (split_branches m))"
    using inv by (intro distinct_subseq [OF subseq_map [OF branches]]) (simp add: layout_inv_def)
  moreover have "set (split_branches m) \<subseteq> set (split_branches n)"
    by (rule subseq_set [OF branches])
  moreover have "length (split_leaves m) \<le> length (split_leaves n)"
    by (simp add: leaves)
  ultimately show ?thesis
    using inv unfolding layout_inv_def distinct_pane_keys
    by (auto simp: leaves distinct_shown_filter intro: le_trans [OF length_filter_le])
qed

lemma layout_inv_close:
  assumes "layout_inv k n" "closeTerminalSplitPane n p = Some m"
  shows "layout_inv k m"
proof (rule layout_inv_sub [OF assms(1)])
  show "split_leaves m = filter (\<lambda>(i, b). i \<noteq> p) (split_leaves n)"
    using close_leaves [of n p] assms(2) by simp
qed (rule close_branches [OF assms(2)])

lemma layout_inv_remove:
  assumes "layout_inv k n" "removeTerminalSplitBindings n keys = Some m"
  shows "layout_inv k m"
proof (rule layout_inv_sub [OF assms(1)])
  show "split_leaves m
      = filter (\<lambda>(i, b). \<not> (\<exists>x. b = Some x \<and> terminalPaneBindingKey x \<in> keys)) (split_leaves n)"
    using remove_leaves [of n keys] assms by (simp add: layout_inv_def)
  have "\<exists>ps. removeTerminalSplitBindings n keys = close_all (Some n) ps"
    using remove_as_close_all [of n keys] by (elim exE conjE) (rule exI)
  then show "subseq (split_branches m) (split_branches n)"
    using assms(2) by (auto intro: close_all_branches)
qed

end
