(* ===== verification/Split_Reach.thy ===== *)
theory Split_Reach
  imports Split_Session
begin

text \<open>
  The step relation of a split session: what the user and the effects of the component do to the
  state of Split_Session, in any order, and the invariant every reachable state has.
\<close>

definition session_leaves :: "split_session \<Rightarrow> (jsstr \<times> pane_binding option) list" where
  "session_leaves s = (case ss_layout s of None \<Rightarrow> [] | Some n \<Rightarrow> split_leaves n)"

lemma session_leaves_simps [simp]:
  "ss_layout s = None \<Longrightarrow> session_leaves s = []"
  "ss_layout s = Some n \<Longrightarrow> session_leaves s = split_leaves n"
  by (simp_all add: session_leaves_def)

text \<open>
  A tab that \<open>createSameSessionTerminalBinding\<close> opens has a new identifier, so it is none of the
  bindings shown; a divider is dragged to a number; the picker and the drop target name a pane of
  the layout.
\<close>

inductive split_step :: "split_session \<Rightarrow> split_session \<Rightarrow> bool" where
  step_split: "set_option created \<inter> insert b (set (shown (session_leaves s))) = {} \<Longrightarrow>
     split_step s (startTerminalSplitForBinding host b d created s)"
| step_four: "distinct created \<Longrightarrow> set created \<inter> insert b (set (shown (session_leaves s))) = {} \<Longrightarrow>
     split_step s (startTerminalFourPaneForBinding host b created s)"
| step_assign: "i \<in> fst ` set (session_leaves s) \<Longrightarrow> split_step s (assignTerminalSplitBinding i b s)"
| step_focus: "split_step s (focusTerminalSplitPane i s)"
| step_close: "split_step s (close_session_pane i s)"
| step_close_empty: "split_step s (closeTerminalSplitEmptyPane i s)"
| step_equalize: "split_step s (equalizeTerminalSplitPanes s)"
| step_ratio: "r \<noteq> NaN \<Longrightarrow> split_step s (update_session_ratio i r s)"
| step_prune: "split_step s (prune_unavailable available s)"
| step_collapse: "split_step s (collapse_single_pane s)"
| step_shrink: "split_step s (shrink_overfull fallback s)"

definition split_init :: split_session where
  "split_init = \<lparr>ss_layout = None, ss_focused = None, ss_counter = 0\<rparr>"

inductive split_reachable :: "split_session \<Rightarrow> bool" where
  reach_init: "split_reachable split_init"
| reach_step: "split_reachable s \<Longrightarrow> split_step s s' \<Longrightarrow> split_reachable s'"

section \<open>Panes found by identifier and by binding\<close>

lemma session_panes_simps [simp]:
  "ss_layout s = None \<Longrightarrow> session_panes s = []"
  "ss_layout s = Some n \<Longrightarrow> session_panes s = collectTerminalSplitPanes n"
  by (simp_all add: session_panes_def)

lemma length_session_panes: "length (session_panes s) = length (session_leaves s)"
  by (cases "ss_layout s") simp_all

lemma pane_id_in_leaves: "p \<in> set (collectTerminalSplitPanes n) \<Longrightarrow> sp_id p \<in> set (pane_ids n)"
  unfolding set_map set_collect_panes [symmetric] by force

lemma find_pane_None:
  "findTerminalSplitPaneByBinding n b = None \<longleftrightarrow> b \<notin> set (shown (split_leaves n))"
  unfolding findTerminalSplitPaneByBinding_def find_None_iff set_shown set_collect_panes [symmetric]
  by (force simp: image_iff)

lemma find_pane_Some:
  "findTerminalSplitPaneByBinding n b = Some p \<Longrightarrow> (sp_id p, Some b) \<in> set (split_leaves n)"
  unfolding findTerminalSplitPaneByBinding_def set_collect_panes [symmetric]
  by (force dest: find_SomeD)

lemma find_id_Some:
  "List.find (\<lambda>p. sp_id p = i) (collectTerminalSplitPanes n) = Some p \<Longrightarrow> (i, sp_binding p) \<in> set (split_leaves n)"
  unfolding set_collect_panes [symmetric] by (force dest: find_SomeD)

lemma find_id_exists:
  "i \<in> set (pane_ids n) \<Longrightarrow> \<exists>p. List.find (\<lambda>p. sp_id p = i) (collectTerminalSplitPanes n) = Some p"
  unfolding set_map set_collect_panes [symmetric]
  by (cases "List.find (\<lambda>p. sp_id p = i) (collectTerminalSplitPanes n)")
    (auto simp: find_None_iff)

lemma collect_panes_not_Nil [simp]: "collectTerminalSplitPanes n \<noteq> []"
  using length_collect_panes [of n] by (metis length_0_conv split_leaves_not_Nil)

lemma mset_shown_panes:
  "mset (List.map_filter sp_binding (collectTerminalSplitPanes n)) = mset (shown (split_leaves n))"
proof -
  have "List.map_filter sp_binding ps = shown (map (\<lambda>p. (sp_id p, sp_binding p)) ps)" for ps :: "split_pane list"
    by (simp add: shown_def List.map_filter_def comp_def filter_map)
  then show ?thesis
    by (simp only: mset_shown mset_collect_panes)
qed

section \<open>Every step keeps the invariant\<close>

lemma inv_SomeI:
  "ss_layout s = Some n \<Longrightarrow> layout_inv (ss_counter s) n \<Longrightarrow> f \<in> set (pane_ids n) \<Longrightarrow>
     ss_focused s = Some f \<Longrightarrow> session_inv s"
  by (auto simp: session_inv_def)

lemma inv_split [inv_step]:
  assumes inv: "session_inv s" and fresh: "set_option created \<inter> insert b (set (shown (session_leaves s))) = {}"
  shows "session_inv (startTerminalSplitForBinding host b d created s)"
proof (cases "ss_layout s")
  case None
  have "b \<notin> set_option created" using fresh by blast
  then show ?thesis
    using inv by (cases created)
      (auto simp: None startTerminalSplitForBinding_def createTerminalSplitLayout_def session_inv_def
        layout_inv_def terminalSplitMaxPanes_def Let_def)
next
  case (Some n)
  let ?k = "ss_counter s"
  show ?thesis
  proof (cases "length (split_leaves n) < terminalSplitMaxPanes")
    case True
    let ?bp = "findTerminalSplitPaneByBinding n b"
    let ?nb = "if ?bp \<noteq> None then created else Some b"
    from inv Some obtain f where f: "ss_focused s = Some f" "f \<in> set (pane_ids n)"
      and L: "layout_inv ?k n" by (auto simp: session_inv_def)
    have "f \<noteq> []"
      using f L by (auto simp: layout_inv_def terminal_pane_id_def)
    define pid where "pid = (case ?bp of Some p \<Rightarrow> sp_id p | None \<Rightarrow> f)"
    have pid: "pid \<in> set (pane_ids n)"
      using f find_pane_Some [of n b] by (force simp: pid_def split: option.split)
    let ?m = "splitTerminalPane n pid d (terminal_split_id (Suc (Suc ?k))) (terminal_pane_id (Suc ?k)) ?nb"
    have "layout_inv (max (Suc ?k) (Suc (Suc ?k))) ?m"
      using fresh Some find_pane_None [of n b]
      by (intro layout_inv_split [OF L True]) (auto split: if_splits)
    moreover have "terminal_pane_id (Suc ?k) \<in> set (pane_ids ?m)"
    proof -
      have "0 < count_list (pane_ids n) pid"
        using pid by (metis count_notin gr0I count_list_0_iff)
      then show ?thesis
        using mset_eq_setD [where ys = "replicate (count_list (pane_ids n) pid)
            (terminal_pane_id (Suc ?k), ?nb) @ split_leaves n" and xs = "split_leaves ?m"]
        by (force simp: split_leaves_split)
    qed
    moreover have "startTerminalSplitForBinding host b d created s
      = s\<lparr>ss_counter := Suc (Suc ?k), ss_layout := Some ?m, ss_focused := Some (terminal_pane_id (Suc ?k))\<rparr>"
      using Some f True \<open>f \<noteq> []\<close>
      by (cases ?bp) (simp_all add: startTerminalSplitForBinding_def pid_def Let_def)
    ultimately show ?thesis
      by (intro inv_SomeI) simp_all
  qed (use inv Some in \<open>simp add: startTerminalSplitForBinding_def\<close>)
qed

lemma find_or_first_in:
  "(case List.find P ps of Some p \<Rightarrow> Some p
    | None \<Rightarrow> (case ps of [] \<Rightarrow> None | p # _ \<Rightarrow> Some p)) = Some q \<Longrightarrow> q \<in> set ps"
  by (auto split: option.splits list.splits dest: find_SomeD simp del: find.simps)

lemma find_find_or_first_in:
  assumes "ps \<noteq> []"
  shows "\<exists>p\<in>set ps. (case (case List.find P ps of Some p \<Rightarrow> Some p
            | None \<Rightarrow> (case List.find Q ps of Some p \<Rightarrow> Some p
                | None \<Rightarrow> (case ps of [] \<Rightarrow> None | p # _ \<Rightarrow> Some p))) of
          None \<Rightarrow> d | Some p \<Rightarrow> f p) = f p"
proof (cases "List.find P ps")
  case None
  show ?thesis
  proof (cases "List.find Q ps")
    case N: None
    from assms obtain q qs where "ps = q # qs" by (cases ps) auto
    with None N show ?thesis by (simp split: if_splits)
  qed (use None in \<open>auto dest: find_SomeD\<close>)
qed (auto dest: find_SomeD)

lemma inv_four_pane:
  assumes "distinct bs"
  shows "session_inv (createTerminalFourPane bs s)"
proof -
  let ?k = "ss_counter s"
  define k1 where "k1 = Suc (Suc ?k)"
  define k2 where "k2 = Suc (Suc (Suc k1))"
  define ids where "ids = \<lparr>fp_bottomLeft = terminal_pane_id (Suc ?k), fp_bottomRight = terminal_pane_id k1,
    fp_leftSplit = terminal_split_id (Suc k1), fp_rightSplit = terminal_split_id (Suc (Suc k1)),
    fp_root = terminal_split_id k2, fp_topLeft = terminal_pane_id (Suc k2),
    fp_topRight = terminal_pane_id (Suc (Suc k2))\<rparr>"
  let ?l = "createTerminalFourPaneLayout bs ids"
  let ?r = "createTerminalFourPane bs s"
  let ?ps = "collectTerminalSplitPanes ?l"
  have r: "ss_layout ?r = Some ?l" "ss_counter ?r = Suc (Suc k2)"
    and foc: "ss_focused ?r = Some (case (case List.find (\<lambda>p. sp_binding p = None) ?ps of Some p \<Rightarrow> Some p
            | None \<Rightarrow> (case List.find (\<lambda>p. terminalPaneBindingsEqual (sp_binding p) (nth_opt bs 0)) ?ps of
                Some p \<Rightarrow> Some p | None \<Rightarrow> (case ?ps of [] \<Rightarrow> None | p # _ \<Rightarrow> Some p))) of
          None \<Rightarrow> fp_topLeft ids | Some p \<Rightarrow> sp_id p)"
    unfolding ids_def k1_def k2_def by (simp_all add: createTerminalFourPane_def Let_def cong: option.case_cong list.case_cong)
  have eq: "i = j" if "nth_opt bs i = Some x" "nth_opt bs j = Some x" for i j x
    using that assms by (auto simp: nth_opt_def nth_eq_iff_index_eq split: if_splits)
  have "distinct (shown (split_leaves ?l))"
    using eq [of 0 _ 1] eq [of 0 _ 2] eq [of 0 _ 3] eq [of 1 _ 2] eq [of 1 _ 3] eq [of 2 _ 3]
    by (cases "nth_opt bs 0"; cases "nth_opt bs 1"; cases "nth_opt bs 2"; cases "nth_opt bs 3")
      (auto simp: createTerminalFourPaneLayout_def)
  then have "layout_inv (Suc (Suc k2)) ?l"
    unfolding layout_inv_def distinct_pane_keys
    by (auto simp: createTerminalFourPaneLayout_def ids_def terminalSplitMaxPanes_def
k1_def k2_def)
  moreover obtain p where "p \<in> set ?ps" "ss_focused ?r = Some (sp_id p)"
    using find_find_or_first_in [where P = "\<lambda>p. sp_binding p = None" and d = "fp_topLeft ids" and f = sp_id
        and Q = "\<lambda>p. terminalPaneBindingsEqual (sp_binding p) (nth_opt bs 0)",
        OF collect_panes_not_Nil [of ?l]]
    by (elim bexE) (rule that, assumption, simp only: foc)
  ultimately show ?thesis
    using r pane_id_in_leaves [of p ?l] by (intro inv_SomeI) simp_all
qed

lemma distinct_session_shown: "session_inv s \<Longrightarrow> distinct (shown (session_leaves s))"
  by (cases "ss_layout s") (auto simp: session_inv_def layout_inv_def distinct_pane_keys)

lemma mset_session_panes: "mset (List.map_filter sp_binding (session_panes s)) = mset (shown (session_leaves s))"
  by (cases "ss_layout s") (simp_all add: mset_shown_panes List.map_filter_def [of _ "[]"])

lemma inv_four [inv_step]:
  assumes "session_inv s" "distinct created" "set created \<inter> insert b (set (shown (session_leaves s))) = {}"
  shows "session_inv (startTerminalFourPaneForBinding host b created s)"
proof -
  let ?cur = "List.map_filter sp_binding (session_panes s)"
  have "distinct ?cur"
    using distinct_mset_eq [OF mset_session_panes] distinct_session_shown [OF assms(1)] by blast
  moreover have "set ?cur = set (shown (session_leaves s))"
    by (rule mset_eq_setD) (rule mset_session_panes)
  ultimately show ?thesis
    using assms unfolding startTerminalFourPaneForBinding_def Let_def
    by (cases host) (simp_all only: simp_thms if_True if_False, intro inv_four_pane distinct_take, auto dest!: in_set_takeD)
qed

lemma inv_shrink [inv_step]: "session_inv s \<Longrightarrow> session_inv (shrink_overfull fallback s)"
proof -
  assume inv: "session_inv s"
  have "length (session_panes s) \<le> terminalSplitMaxPanes"
    using inv by (cases "ss_layout s") (auto simp: session_inv_def layout_inv_def length_session_panes)
  with inv show ?thesis by (simp add: shrink_overfull_def)
qed

lemma pane_ids_move [simp]: "pane_ids (moveTerminalSplitBinding n p x) = pane_ids n"
  by (simp add: move_leaves comp_def case_prod_unfold)

lemma inv_assign [inv_step]:
  assumes "session_inv s" "i \<in> fst ` set (session_leaves s)"
  shows "session_inv (assignTerminalSplitBinding i b s)"
proof (cases "ss_layout s")
  case (Some n)
  then have L: "layout_inv (ss_counter s) n" and i: "i \<in> set (pane_ids n)"
    using assms by (auto simp: session_inv_def)
  have "\<exists>m. ss_layout (assignTerminalSplitBinding i b s) = Some m
      \<and> layout_inv (ss_counter s) m \<and> pane_ids m = pane_ids n"
    unfolding assignTerminalSplitBinding_def
    using L by (auto simp: Some Let_def intro: layout_inv_move split: option.split)
  then obtain m where "ss_layout (assignTerminalSplitBinding i b s) = Some m"
    and "layout_inv (ss_counter s) m" "pane_ids m = pane_ids n" by (elim exE conjE)
  with i show ?thesis
    by (intro inv_SomeI [of _ m i]) (simp_all add: assignTerminalSplitBinding_def)
qed (use assms in simp)

lemma inv_focus [inv_step]:
  assumes "session_inv s" shows "session_inv (focusTerminalSplitPane i s)"
proof (cases "ss_layout s")
  case (Some n)
  show ?thesis
  proof (cases "List.find (\<lambda>pane. sp_id pane = i) (collectTerminalSplitPanes n)")
    case p: (Some p)
    then have "sp_id p \<in> set (pane_ids n)"
      by (intro pane_id_in_leaves) (simp add: find_SomeD)
    with assms Some p show ?thesis
      by (intro inv_SomeI [of _ n "sp_id p"]) (auto simp: focusTerminalSplitPane_def session_inv_def)
  qed (use assms Some in \<open>simp add: focusTerminalSplitPane_def\<close>)
qed (use assms in \<open>simp add: focusTerminalSplitPane_def\<close>)

lemma inv_equalize [inv_step]: "session_inv s \<Longrightarrow> session_inv (equalizeTerminalSplitPanes s)"
  by (auto simp: equalizeTerminalSplitPanes_def session_inv_def layout_inv_equalize split: option.splits)

lemma inv_ratio [inv_step]: "session_inv s \<Longrightarrow> r \<noteq> NaN \<Longrightarrow> session_inv (update_session_ratio i r s)"
  by (auto simp: update_session_ratio_def session_inv_def layout_inv_update split: option.splits)

lemma inv_collapse [inv_step]: "session_inv s \<Longrightarrow> session_inv (collapse_single_pane s)"
  by (simp add: collapse_single_pane_def session_inv_def)

text \<open>The pane focused after some panes went: the previous one if it is left, else the first.\<close>

lemma refocus_in_layout:
  "(case List.find P (collectTerminalSplitPanes n) of
      Some p \<Rightarrow> Some p
    | None \<Rightarrow> (case collectTerminalSplitPanes n of [] \<Rightarrow> None | p # _ \<Rightarrow> Some p)) = Some q \<Longrightarrow>
   sp_id q \<in> set (pane_ids n)"
  by (rule pane_id_in_leaves) (rule find_or_first_in)

lemma inv_close [inv_step]:
  assumes "session_inv s" shows "session_inv (close_session_pane i s)"
proof (cases "ss_layout s")
  case (Some n)
  show ?thesis
  proof (cases "closeTerminalSplitPane n i")
    case None
    with Some show ?thesis by (simp add: close_session_pane_def session_inv_def)
  next
    case m: (Some m)
    have "layout_inv (ss_counter s) m"
      using assms Some m by (auto simp: session_inv_def intro: layout_inv_close)
    with Some m show ?thesis
      using refocus_in_layout [where n = m and P = "\<lambda>pane. Some (sp_id pane) = ss_focused s"]
      by (auto simp: close_session_pane_def session_inv_def Let_def neq_Nil_conv split: option.splits list.splits)
  qed
qed (use assms in \<open>simp add: close_session_pane_def\<close>)

lemma inv_close_empty [inv_step]:
  assumes "session_inv s" shows "session_inv (closeTerminalSplitEmptyPane i s)"
proof (cases "ss_layout s")
  case (Some n)
  from assms Some obtain f where L: "layout_inv (ss_counter s) n" and f: "f \<in> set (pane_ids n)" "ss_focused s = Some f"
    by (auto simp: session_inv_def)
  let ?other = "List.find (\<lambda>pane. sp_id pane \<noteq> i) (collectTerminalSplitPanes n)"
  have lv: "opt_leaves (closeTerminalSplitPane n i) = filter (\<lambda>(j, b). j \<noteq> i) (split_leaves n)"
    by (rule close_leaves)
  have other: "sp_id p \<in> set (pane_ids n) \<and> sp_id p \<noteq> i" if "?other = Some p" for p
    using find_SomeD [OF that] pane_id_in_leaves by blast
  have none: "\<forall>j\<in>set (pane_ids n). j = i" if "?other = None"
    using that unfolding set_map set_collect_panes [symmetric] by (simp add: find_None_iff image_image)
  show ?thesis
  proof (cases "closeTerminalSplitPane n i")
    case None
    then have "filter (\<lambda>(j, b). j \<noteq> i) (split_leaves n) = []"
      using lv by simp
    then have all: "\<forall>j\<in>set (pane_ids n). j = i"
      by (auto simp: filter_empty_conv)
    have "?other = None"
    proof (rule ccontr)
      assume "?other \<noteq> None"
      then obtain p where "?other = Some p" by blast
      with other all show False by blast
    qed
    moreover have "f = i" using all f by blast
    ultimately show ?thesis
      using Some None f by (simp add: closeTerminalSplitEmptyPane_def session_inv_def)
  next
    case m: (Some m)
    then have ids: "set (pane_ids m) = {j \<in> set (pane_ids n). j \<noteq> i}"
      using lv by force
    have "\<exists>g\<in>set (pane_ids m). ss_focused (closeTerminalSplitEmptyPane i s) = Some g"
    proof (cases "f = i")
      case True
      have "pane_ids m \<noteq> []" by simp
      then have "hd (pane_ids m) \<in> set (pane_ids m)" by (rule hd_in_set)
      then have "hd (pane_ids m) \<in> set (pane_ids n)" "hd (pane_ids m) \<noteq> i"
        unfolding ids by simp_all
      then have "?other \<noteq> None" using none by blast
      then obtain p where "?other = Some p" by blast
      with other True Some f ids show ?thesis
        by (auto simp: closeTerminalSplitEmptyPane_def Let_def)
    qed (use f ids in \<open>simp add: closeTerminalSplitEmptyPane_def\<close>)
    with Some m L show ?thesis
      by (auto simp: session_inv_def closeTerminalSplitEmptyPane_def Let_def intro: rev_bexI layout_inv_close)
  qed
qed (use assms in \<open>simp add: closeTerminalSplitEmptyPane_def session_inv_def\<close>)

lemma inv_prune [inv_step]:
  assumes "session_inv s" shows "session_inv (prune_unavailable available s)"
proof (cases "ss_layout s")
  case (Some n)
  let ?keys = "set (filter (\<lambda>k. k \<notin> available)
                 (map terminalPaneBindingKey (List.map_filter sp_binding (collectTerminalSplitPanes n))))"
  show ?thesis
  proof (cases "removeTerminalSplitBindings n ?keys")
    case None
    with Some show ?thesis by (simp add: prune_unavailable_def session_inv_def Let_def)
  next
    case m: (Some m)
    have "layout_inv (ss_counter s) m"
      using assms Some m by (auto simp: session_inv_def intro: layout_inv_remove)
    moreover obtain f where "ss_focused s = Some f"
      using assms Some by (auto simp: session_inv_def)
    moreover obtain p ps where "collectTerminalSplitPanes m = p # ps"
      by (cases "collectTerminalSplitPanes m") auto
    moreover have "sp_id q \<in> fst ` set (split_leaves m)" if "q = p \<or> q \<in> set ps" for q
      using pane_id_in_leaves [of q m] that calculation(3) by auto
    ultimately show ?thesis
      using Some m by (auto simp: prune_unavailable_def session_inv_def opt_truthy_def)
  qed
qed (use assms in \<open>simp add: prune_unavailable_def\<close>)

lemma split_step_inv: "split_step s s' \<Longrightarrow> session_inv s \<Longrightarrow> session_inv s'"
  by (induction rule: split_step.induct) (simp_all add: inv_step)

lemma reachable_inv: "split_reachable s \<Longrightarrow> session_inv s"
  by (induction rule: split_reachable.induct) (simp add: split_init_def session_inv_def, blast intro: split_step_inv)

end
