(* ===== verification/Split_Properties.thy ===== *)
theory Split_Properties
  imports Split_Reach
begin

text \<open>The properties of the split layout and of the session that keeps it.\<close>

section \<open>Lemmas\<close>

lemma shown_unique:
  "distinct (shown ls) \<Longrightarrow> (i, Some b) \<in> set ls \<Longrightarrow> (j, Some b) \<in> set ls \<Longrightarrow> i = j"
proof (induction ls)
  case (Cons l ls)
  then show ?case by (cases l; cases "snd l") (auto simp: set_shown)
qed simp

lemma map_snd_cong:
  "(\<And>j c. (j, c) \<in> set ls \<Longrightarrow> f j c = g j c) \<Longrightarrow>
     map (\<lambda>(j, c). (j, f j c)) ls = map (\<lambda>(j, c). (j, g j c)) ls"
  by (auto intro: map_cong)

lemma move_move_leaves:
  "split_leaves (moveTerminalSplitBinding (moveTerminalSplitBinding n i b) p t)
     = map (\<lambda>(j, c). (j, let c1 = if j = i then Some b else if c = Some b then None else c
                         in if j = p then Some t else if c1 = Some t then None else c1)) (split_leaves n)"
  by (simp add: move_leaves case_prod_unfold comp_def Let_def)

lemma assign_leaves:
  assumes inv: "layout_inv k n" and i: "(i, t) \<in> set (split_leaves n)" and p: "(p, Some b) \<in> set (split_leaves n)"
    and s: "ss_layout s = Some n"
  shows "session_leaves (assignTerminalSplitBinding i b s)
    = map (\<lambda>(j, c). (j, if j = i then Some b else if j = p then t else c)) (split_leaves n)"
proof -
  from inv have D: "distinct (pane_ids n)" "distinct (shown (split_leaves n))"
    by (simp_all add: layout_inv_def distinct_pane_keys)
  have uniq: "j = p" if "(j, Some b) \<in> set (split_leaves n)" for j
    by (rule shown_unique [OF D(2) that p])
  have b: "b \<in> set (shown (split_leaves n))"
    using p by (auto simp: set_shown)
  then have "findTerminalSplitPaneByBinding n b \<noteq> None"
    using find_pane_None [of n b] by simp
  then obtain prev where prev: "findTerminalSplitPaneByBinding n b = Some prev" by blast
  with uniq find_pane_Some have pid: "sp_id prev = p" by blast
  obtain target where tgt: "List.find (\<lambda>p. sp_id p = i) (collectTerminalSplitPanes n) = Some target"
    using find_id_exists [of i n] i by (force simp: image_iff)
  have tb: "sp_binding target = t"
    using eq_key_imp_eq_value [OF D(1) find_id_Some [OF tgt] i] .
  have at_i: "(j, c) \<in> set (split_leaves n) \<Longrightarrow> j = i \<Longrightarrow> c = t" for j c
    using eq_key_imp_eq_value [OF D(1) _ i] by blast
  have at_p: "(p, c) \<in> set (split_leaves n) \<Longrightarrow> c = Some b" for c
    using eq_key_imp_eq_value [OF D(1) _ p] by blast
  have no_t: "j = i" if "t = Some tb'" "(j, Some tb') \<in> set (split_leaves n)" for j tb'
    using shown_unique [OF D(2) that(2)] i that(1) by blast
  show ?thesis
  proof (cases "p = i")
    case True
    have pt: "(if j = i then Some b else if c = Some b then None else c)
          = (if j = i then Some b else if j = p then t else c)"
      if m: "(j, c) \<in> set (split_leaves n)" for j c
    proof -
      have "c = Some b \<Longrightarrow> j = i" using m uniq [of j] True by blast
      then show ?thesis using True by simp
    qed
    have "session_leaves (assignTerminalSplitBinding i b s) = split_leaves (moveTerminalSplitBinding n i b)"
      using s prev pid True by (simp add: assignTerminalSplitBinding_def Let_def)
    then show ?thesis
      unfolding move_leaves by (simp only:) (rule map_snd_cong, rule pt)
  next
    case False
    then have tneq: "t \<noteq> Some b" using uniq i by blast
    show ?thesis
    proof (cases t)
      case None
      have pt: "(if j = i then Some b else if c = Some b then None else c)
          = (if j = i then Some b else if j = p then t else c)"
        if m: "(j, c) \<in> set (split_leaves n)" for j c
      proof -
        have "c = Some b \<longleftrightarrow> j = p" using m uniq [of j] at_p [of c] by blast
        then show ?thesis using None by simp
      qed
      have "session_leaves (assignTerminalSplitBinding i b s) = split_leaves (moveTerminalSplitBinding n i b)"
        using s prev pid tgt tb False None by (simp add: assignTerminalSplitBinding_def Let_def)
      then show ?thesis
        unfolding move_leaves by (simp only:) (rule map_snd_cong, rule pt)
    next
      case (Some tb')
      have pt: "(if j = p then Some tb' else if c1 = Some tb' then None else c1)
          = (if j = i then Some b else if j = p then t else c)"
        if m: "(j, c) \<in> set (split_leaves n)" and c1: "c1 = (if j = i then Some b else if c = Some b then None else c)"
        for j c c1
      proof -
        have e: "c = Some b \<longleftrightarrow> j = p" using m uniq [of j] at_p [of c] by blast
        have d: "j \<noteq> i \<Longrightarrow> c \<noteq> Some tb'" using m no_t [OF Some, of j] by blast
        show ?thesis
        proof (cases "j = p")
          case True
          then show ?thesis using False Some by simp
        next
          case jp: False
          then have "c \<noteq> Some b" using e by blast
          with jp d tneq Some show ?thesis unfolding c1 by (cases "j = i") simp_all
        qed
      qed
      have "session_leaves (assignTerminalSplitBinding i b s)
        = split_leaves (moveTerminalSplitBinding (moveTerminalSplitBinding n i b) p tb')"
        using s prev pid tgt tb False tneq Some by (simp add: assignTerminalSplitBinding_def Let_def)
      then show ?thesis
        unfolding move_move_leaves Let_def by (simp only:) (rule map_snd_cong, rule pt, assumption, rule refl)
    qed
  qed
qed

lemma bisect_fits: "fits v \<Longrightarrow> fits (bisect_ratio fits k v w)"
  by (induction fits k v w rule: bisect_ratio.induct) (auto simp: Let_def)

section \<open>Properties\<close>

text \<open>C3. Whatever splits, moves and drags produced it, a layout tiles the terminal area: each point
  of the unit square lies in exactly one of the panes drawn, and no pane reaches outside it.\<close>

theorem split_panes_tile:
  assumes "numeric_layout n"
  shows "covering_panes (collectTerminalSplitPanes n) x y
    = (if 0 \<le> x \<and> x < 1 \<and> 0 \<le> y \<and> y < 1 then 1 else 0)"
  using assms by (rule covering_collect)

theorem split_panes_tile_witness:
  "covering_panes (collectTerminalSplitPanes
     (SplitBranch DirRow (SplitLeaf None (js ''a'')) (js ''s'') (Num (9 / 10)) (SplitLeaf None (js ''b''))))
     (7 / 10) (1 / 2) = 1"
  using split_panes_tile [of "SplitBranch DirRow (SplitLeaf None (js ''a'')) (js ''s'') (Num (9 / 10))
     (SplitLeaf None (js ''b''))" "7 / 10" "1 / 2"]
  by simp

text \<open>C4. In every state the user and the effects can reach, pane and split identifiers are unique
  and drawn from the counter, no terminal tab is shown in two panes, there are at most four panes,
  every ratio is within its limits, the focused pane exists, and so the effect that shrinks an
  overfull layout never has anything to do.\<close>

theorem split_session_safe:
  assumes "split_reachable s"
  shows "session_inv s \<and> shrink_overfull fallback s = s"
proof
  show inv: "session_inv s" using assms by (rule reachable_inv)
  have "length (session_panes s) \<le> terminalSplitMaxPanes"
    using inv by (cases "ss_layout s") (auto simp: session_inv_def layout_inv_def)
  then show "shrink_overfull fallback s = s"
    by (simp add: shrink_overfull_def)
qed

theorem split_session_safe_witness:
  "session_inv (startTerminalSplitForBinding True \<lparr>pb_kind = BindSsh, pb_tabId = js ''t1''\<rparr> DirRow None split_init)"
proof -
  have "split_reachable (startTerminalSplitForBinding True \<lparr>pb_kind = BindSsh, pb_tabId = js ''t1''\<rparr> DirRow None split_init)"
    by (rule reach_step [OF reach_init step_split]) simp
  from split_session_safe [OF this] show ?thesis by blast
qed

text \<open>C37. Closing a pane removes exactly the leaf with that identifier: every other pane keeps its
  binding and its place in the order of the tree, the layout is gone exactly when no pane is left,
  and the splits that remain keep their identifiers and ratios.\<close>

theorem close_pane_exact:
  "(case closeTerminalSplitPane n p of
      None \<Rightarrow> filter (\<lambda>(i, b). i \<noteq> p) (split_leaves n) = []
    | Some m \<Rightarrow> split_leaves m = filter (\<lambda>(i, b). i \<noteq> p) (split_leaves n)
        \<and> subseq (split_branches m) (split_branches n))"
  using close_leaves [of n p] close_branches [of n p]
  by (cases "closeTerminalSplitPane n p") simp_all

text \<open>Removing the bindings of closed tabs keeps exactly the panes whose binding is not among
  them, empty panes included.\<close>

theorem remove_bindings_exact:
  assumes "distinct (pane_ids n)"
  shows "opt_leaves (removeTerminalSplitBindings n keys)
    = filter (\<lambda>(i, b). case b of None \<Rightarrow> True | Some x \<Rightarrow> terminalPaneBindingKey x \<notin> keys) (split_leaves n)"
  unfolding remove_leaves [OF assms]
  by (rule filter_cong) (auto split: option.splits)

theorem remove_bindings_exact_witness:
  "split_leaves (the (removeTerminalSplitBindings
     (SplitBranch DirRow (SplitLeaf None (js ''a'')) (js ''s'') (Num (1 / 2))
        (SplitLeaf (Some \<lparr>pb_kind = BindSsh, pb_tabId = js ''t''\<rparr>) (js ''b''))) {js ''ssh:t''}))
   = [(js ''a'', None)]"
proof -
  let ?n = "SplitBranch DirRow (SplitLeaf None (js ''a'')) (js ''s'') (Num (1 / 2))
        (SplitLeaf (Some \<lparr>pb_kind = BindSsh, pb_tabId = js ''t''\<rparr>) (js ''b''))"
  have "opt_leaves (removeTerminalSplitBindings ?n {js ''ssh:t''}) = [(js ''a'', None)]"
    using remove_bindings_exact [of ?n "{js ''ssh:t''}"]
    by (simp add: terminalPaneBindingKey_def js_def)
  then show ?thesis
    by (cases "removeTerminalSplitBindings ?n {js ''ssh:t''}") simp_all
qed

text \<open>C15. Dropping a tab that is already shown onto another pane swaps the two: the target shows
  the tab, the pane it came from shows what the target had, every other pane is unchanged, and the
  target gets the focus.\<close>

theorem assign_swaps:
  assumes "layout_inv k n" "(i, t) \<in> set (split_leaves n)" "(p, Some b) \<in> set (split_leaves n)"
    and "ss_layout s = Some n"
  shows "session_leaves (assignTerminalSplitBinding i b s)
      = map (\<lambda>(j, c). (j, if j = i then Some b else if j = p then t else c)) (split_leaves n)
    \<and> ss_focused (assignTerminalSplitBinding i b s) = Some i"
  using assign_leaves [OF assms] by (simp add: assignTerminalSplitBinding_def)

theorem assign_swaps_witness:
  "let x = \<lparr>pb_kind = BindSsh, pb_tabId = js ''x''\<rparr>; y = \<lparr>pb_kind = BindLocal, pb_tabId = js ''y''\<rparr>;
       n = SplitBranch DirRow (SplitLeaf (Some x) (terminal_pane_id 1)) (terminal_split_id 3) (Num (1 / 2))
             (SplitLeaf (Some y) (terminal_pane_id 2))
   in session_leaves (assignTerminalSplitBinding (terminal_pane_id 1) y
        \<lparr>ss_layout = Some n, ss_focused = None, ss_counter = 3\<rparr>)
      = [(terminal_pane_id 1, Some y), (terminal_pane_id 2, Some x)]"
proof -
  let ?x = "\<lparr>pb_kind = BindSsh, pb_tabId = js ''x''\<rparr>"
  let ?y = "\<lparr>pb_kind = BindLocal, pb_tabId = js ''y''\<rparr>"
  let ?n = "SplitBranch DirRow (SplitLeaf (Some ?x) (terminal_pane_id 1)) (terminal_split_id 3) (Num (1 / 2))
             (SplitLeaf (Some ?y) (terminal_pane_id 2))"
  have "layout_inv 3 ?n"
    by (simp add: layout_inv_def terminalSplitMaxPanes_def)
  from assign_swaps [OF this, of "terminal_pane_id 1" "Some ?x" "terminal_pane_id 2" ?y
      "\<lparr>ss_layout = Some ?n, ss_focused = None, ss_counter = 3\<rparr>"]
  show ?thesis by (simp add: Let_def)
qed

text \<open>The four-pane layout shows the first four bindings in reading order: top left, top right,
  bottom left, bottom right.\<close>

theorem four_panes_in_reading_order:
  "map (\<lambda>p. (sp_id p, sp_binding p)) (collectTerminalSplitPanes (createTerminalFourPaneLayout bs ids))
     = [(fp_topLeft ids, nth_opt bs 0), (fp_topRight ids, nth_opt bs 1),
        (fp_bottomLeft ids, nth_opt bs 2), (fp_bottomRight ids, nth_opt bs 3)]"
  by (rule four_pane_order)

text \<open>Dragging a divider never makes a pane smaller than 220 by 150 pixels: if the panes fit
  before the drag they fit at the ratio it ends with.\<close>

theorem drag_keeps_minimum_size:
  assumes "terminalSplitRatioFits w h layout (sr_id rz) (sr_ratio rz)"
  shows "terminalSplitRatioFits w h layout (sr_id rz) (clampRatioForMinimumPaneSize w h layout rz requested)"
  using assms bisect_fits [of "terminalSplitRatioFits w h layout (sr_id rz)" "sr_ratio rz"]
  by (simp add: clampRatioForMinimumPaneSize_def Let_def)

theorem drag_keeps_minimum_size_witness:
  "let n = SplitBranch DirRow (SplitLeaf None (js ''a'')) (js ''s'') (Num (1 / 2)) (SplitLeaf None (js ''b''));
       rz = \<lparr>sr_bounds = emptyTerminalSplitBounds, sr_direction = DirRow, sr_id = js ''s'', sr_ratio = Num (1 / 2)\<rparr>
   in terminalSplitRatioFits 800 600 n (js ''s'') (clampRatioForMinimumPaneSize 800 600 n rz PosInf)"
proof -
  let ?n = "SplitBranch DirRow (SplitLeaf None (js ''a'')) (js ''s'') (Num (1 / 2)) (SplitLeaf None (js ''b''))"
  let ?rz = "\<lparr>sr_bounds = emptyTerminalSplitBounds, sr_direction = DirRow, sr_id = js ''s'', sr_ratio = Num (1 / 2)\<rparr>"
  have "terminalSplitRatioFits 800 600 ?n (js ''s'') (Num (1 / 2))"
    by (simp add: terminalSplitRatioFits_def collectTerminalSplitPanes_def clampTerminalSplitRatio_def
        terminalSplitMinRatio_def terminalSplitMaxRatio_def num_clamp_Num emptyTerminalSplitBounds_def num_le_def Let_def)
  then show ?thesis
    using drag_keeps_minimum_size [of 800 600 ?n ?rz PosInf] by (simp add: Let_def)
qed

end
