(* ===== verification/Text_Buffer.thy ===== *)
theory Text_Buffer
  imports Js_Number
begin

text \<open>
  Buffers of text between a producer and a consumer: the interface both kinds of the program
  share, with what follows from it, and the timed buffer of
  \<open>src/shared/stream/bufferedTextFlush.ts\<close> as its first provider.
\<close>

section \<open>The interface\<close>

datatype buf_op = BufPut jsstr | BufTake | BufDrop

fun buf_run ::
  "(jsstr \<Rightarrow> 'q \<Rightarrow> 'q) \<Rightarrow> ('q \<Rightarrow> jsstr \<times> 'q) \<Rightarrow> ('q \<Rightarrow> 'q) \<Rightarrow> buf_op list \<Rightarrow> 'q \<Rightarrow> jsstr list \<times> 'q" where
  "buf_run put out drp [] q = ([], q)"
| "buf_run put out drp (BufPut t # ops) q = buf_run put out drp ops (put t q)"
| "buf_run put out drp (BufTake # ops) q =
     (let (b, q1) = out q; (bs, q2) = buf_run put out drp ops q1 in (b # bs, q2))"
| "buf_run put out drp (BufDrop # ops) q = buf_run put out drp ops (drp q)"

declare buf_run.simps(3) [simp del]

lemma buf_run_take [simp]:
  "buf_run put out drp (BufTake # ops) q =
     (fst (out q) # fst (buf_run put out drp ops (snd (out q))), snd (buf_run put out drp ops (snd (out q))))"
  by (simp add: buf_run.simps(3) Let_def case_prod_unfold)

fun op_text :: "buf_op \<Rightarrow> jsstr" where
  "op_text (BufPut t) = t"
| "op_text BufTake = []"
| "op_text BufDrop = []"

locale text_buffer =
  fixes put :: "jsstr \<Rightarrow> 'q \<Rightarrow> 'q"
    and out :: "'q \<Rightarrow> jsstr \<times> 'q"
    and drp :: "'q \<Rightarrow> 'q"
    and content :: "'q \<Rightarrow> jsstr"
    and live :: "'q \<Rightarrow> bool"
    and inv :: "'q \<Rightarrow> bool"
  assumes put_content: "inv q \<Longrightarrow> live q \<Longrightarrow> content (put t q) = content q @ t"
    and put_dead: "\<not> live q \<Longrightarrow> put t q = q"
    and out_content: "inv q \<Longrightarrow> content q = fst (out q) @ content (snd (out q))"
    and out_progress: "inv q \<Longrightarrow> live q \<Longrightarrow> content q \<noteq> [] \<Longrightarrow> fst (out q) \<noteq> []"
    and drp_content: "content (drp q) = []"
    and dead_content: "inv q \<Longrightarrow> \<not> live q \<Longrightarrow> content q = []"
    and inv_put: "inv q \<Longrightarrow> inv (put t q)"
    and inv_out: "inv q \<Longrightarrow> inv (snd (out q))"
    and inv_drp: "inv q \<Longrightarrow> inv (drp q)"
    and live_put: "live (put t q) = live q"
    and live_out: "live (snd (out q)) = live q"
    and live_drp: "live (drp q) = live q"
begin

lemma inv_run: "inv q \<Longrightarrow> inv (snd (buf_run put out drp ops q))"
proof (induction ops arbitrary: q)
  case (Cons a ops)
  then show ?case by (cases a) (simp_all add: inv_put inv_out inv_drp)
qed simp

text \<open>Nothing is lost, duplicated or reordered.\<close>

lemma conservation:
  assumes "inv q" "live q" "BufDrop \<notin> set ops"
  shows "concat (fst (buf_run put out drp ops q)) @ content (snd (buf_run put out drp ops q))
     = content q @ concat (map op_text ops)"
  using assms
proof (induction ops arbitrary: q)
  case (Cons a ops)
  show ?case
  proof (cases a)
    case (BufPut t)
    with Cons show ?thesis by (simp add: put_content inv_put live_put)
  next
    case BufTake
    with Cons show ?thesis
      using out_content [of q] by (simp add: inv_out live_out)
  qed (use Cons in simp)
qed simp

text \<open>With drops, what comes out is a subsequence of what went in.\<close>

lemma out_subseq:
  assumes "inv q"
  shows "subseq (concat (fst (buf_run put out drp ops q)) @ content (snd (buf_run put out drp ops q)))
     (content q @ concat (map op_text ops))"
  using assms
proof (induction ops arbitrary: q)
  case (Cons a ops)
  show ?case
  proof (cases a)
    case (BufPut t)
    have "subseq (content (put t q)) (content q @ t)"
    proof (cases "live q")
      case False
      with Cons.prems show ?thesis by (simp add: put_dead dead_content)
    qed (use Cons.prems in \<open>simp add: put_content\<close>)
    then have "subseq (content (put t q) @ concat (map op_text ops)) (content q @ t @ concat (map op_text ops))"
      unfolding append_assoc [symmetric] by (rule list_emb_append_mono) simp
    from subseq_order.trans [OF Cons.IH [OF inv_put [OF Cons.prems]] this] show ?thesis
      unfolding BufPut by simp
  next
    case BufTake
    with Cons show ?thesis
      using out_content [of q] by (simp add: inv_out subseq_append')
  next
    case BufDrop
    have "subseq (concat (map op_text ops)) (content q @ concat (map op_text ops))"
      by (intro subseq_drop_many) (rule subseq_order.refl)
    from subseq_order.trans [OF Cons.IH [OF inv_drp [OF Cons.prems], unfolded drp_content append_Nil] this]
    show ?thesis unfolding BufDrop by simp
  qed
qed simp

text \<open>Taking as often as there are characters empties the buffer.\<close>

lemma drains:
  assumes "inv q" "live q" "length (content q) \<le> n"
  shows "content (snd (buf_run put out drp (replicate n BufTake) q)) = []"
  using assms
proof (induction n arbitrary: q)
  case (Suc n)
  have c: "length (content q) = length (fst (out q)) + length (content (snd (out q)))"
    using arg_cong [OF out_content [OF Suc.prems(1)], of length] by simp
  have "length (content (snd (out q))) \<le> n"
  proof (cases "content q = []")
    case False
    then have "0 < length (fst (out q))"
      using out_progress [OF Suc.prems(1,2)] by simp
    with c Suc.prems(3) show ?thesis by linarith
  qed (use c in simp)
  with Suc show ?case by (simp add: inv_out live_out)
qed simp

end

section \<open>The timed buffer\<close>

text \<open>\<open>tf_scheduled\<close> says that \<open>scheduledCancel\<close> is set, so the timer is armed.\<close>

record text_flush =
  tf_disposed :: bool
  tf_pending :: "jsstr list"
  tf_scheduled :: bool

definition new_BufferedTextFlush :: text_flush where
  "new_BufferedTextFlush = \<lparr>tf_disposed = False, tf_pending = [], tf_scheduled = False\<rparr>"

definition tf_append :: "jsstr \<Rightarrow> text_flush \<Rightarrow> text_flush" where
  "tf_append t b =
     (if tf_disposed b \<or> t = [] then b
      else (let b1 = b\<lparr>tf_pending := tf_pending b @ [t]\<rparr>
            in if tf_scheduled b1 then b1 else b1\<lparr>tf_scheduled := True\<rparr>))"

text \<open>\<open>None\<close>: \<open>onFlush\<close> is not called.\<close>

definition tf_flush :: "text_flush \<Rightarrow> jsstr option \<times> text_flush" where
  "tf_flush b =
     (let b1 = b\<lparr>tf_scheduled := False\<rparr>
      in if tf_disposed b1 \<or> tf_pending b1 = [] then (None, b1)
         else (Some (concat (tf_pending b1)), b1\<lparr>tf_pending := []\<rparr>))"

definition tf_discard :: "text_flush \<Rightarrow> text_flush" where
  "tf_discard b = b\<lparr>tf_scheduled := False, tf_pending := []\<rparr>"

definition tf_dispose :: "text_flush \<Rightarrow> text_flush" where
  "tf_dispose b = tf_discard (b\<lparr>tf_disposed := True\<rparr>)"

text \<open>The timer fires only while it is armed; its callback clears \<open>scheduledCancel\<close> and flushes.\<close>

definition tf_timer :: "text_flush \<Rightarrow> jsstr option \<times> text_flush" where
  "tf_timer b = (if tf_scheduled b then tf_flush (b\<lparr>tf_scheduled := False\<rparr>) else (None, b))"

text \<open>Text waits only while the timer is armed, and never after disposal.\<close>

definition tf_inv :: "text_flush \<Rightarrow> bool" where
  "tf_inv b \<longleftrightarrow> (tf_scheduled b \<longleftrightarrow> tf_pending b \<noteq> []) \<and> (\<forall>t\<in>set (tf_pending b). t \<noteq> [])
     \<and> (tf_disposed b \<longrightarrow> tf_pending b = [])"

definition tf_content :: "text_flush \<Rightarrow> jsstr" where
  "tf_content b = concat (tf_pending b)"

definition flushed :: "jsstr option \<Rightarrow> jsstr" where
  "flushed r = (case r of None \<Rightarrow> [] | Some t \<Rightarrow> t)"

lemma flushed_simps [simp]: "flushed None = []" "flushed (Some t) = t"
  by (simp_all add: flushed_def)

definition tf_out :: "text_flush \<Rightarrow> jsstr \<times> text_flush" where
  "tf_out b = apfst flushed (tf_flush b)"

interpretation timed: text_buffer tf_append tf_out tf_discard tf_content "\<lambda>b. \<not> tf_disposed b" tf_inv
  by unfold_locales
    (auto simp: tf_append_def tf_out_def tf_flush_def tf_discard_def tf_content_def tf_inv_def Let_def
      split: if_splits)

lemma tf_inv_new: "tf_inv new_BufferedTextFlush"
  by (simp add: tf_inv_def new_BufferedTextFlush_def)

lemma tf_inv_step [inv_step]:
  "tf_inv b \<Longrightarrow> tf_inv (tf_append t b)"
  "tf_inv b \<Longrightarrow> tf_inv (snd (tf_flush b))"
  "tf_inv b \<Longrightarrow> tf_inv (snd (tf_timer b))"
  "tf_inv b \<Longrightarrow> tf_inv (tf_discard b)"
  "tf_inv b \<Longrightarrow> tf_inv (tf_dispose b)"
  by (auto simp: tf_append_def tf_flush_def tf_timer_def tf_discard_def tf_dispose_def tf_inv_def Let_def)

datatype flush_event = FlAppend jsstr | FlFlush | FlTimer | FlDiscard | FlDispose

fun tf_event :: "flush_event \<Rightarrow> text_flush \<Rightarrow> jsstr option \<times> text_flush" where
  "tf_event (FlAppend t) b = (None, tf_append t b)"
| "tf_event FlFlush b = tf_flush b"
| "tf_event FlTimer b = tf_timer b"
| "tf_event FlDiscard b = (None, tf_discard b)"
| "tf_event FlDispose b = (None, tf_dispose b)"

fun tf_run :: "flush_event list \<Rightarrow> text_flush \<Rightarrow> jsstr list \<times> text_flush" where
  "tf_run [] b = ([], b)"
| "tf_run (e # es) b =
     (let rest = tf_run es (snd (tf_event e b))
      in (case fst (tf_event e b) of None \<Rightarrow> fst rest | Some t \<Rightarrow> t # fst rest, snd rest))"

lemma tf_inv_event: "tf_inv b \<Longrightarrow> tf_inv (snd (tf_event e b))"
  by (cases e) (simp_all add: inv_step)

lemma tf_inv_run: "tf_inv b \<Longrightarrow> tf_inv (snd (tf_run es b))"
  by (induction es arbitrary: b) (simp_all add: Let_def tf_inv_event)

fun is_append :: "flush_event \<Rightarrow> jsstr" where
  "is_append (FlAppend t) = t"
| "is_append _ = []"

lemma tf_event_content:
  assumes "tf_inv b" "\<not> tf_disposed b" "e \<noteq> FlDiscard" "e \<noteq> FlDispose"
  shows "flushed (fst (tf_event e b)) @ tf_content (snd (tf_event e b)) = tf_content b @ is_append e
    \<and> \<not> tf_disposed (snd (tf_event e b))"
proof (cases e)
  case (FlAppend t)
  with assms timed.put_content [OF assms(1), of t] timed.live_put [of t b] show ?thesis by simp
next
  case FlFlush
  with assms timed.out_content [OF assms(1)] timed.live_out [of b] show ?thesis
    by (simp add: tf_out_def)
next
  case FlTimer
  with assms show ?thesis
    by (auto simp: tf_timer_def tf_flush_def tf_content_def Let_def)
qed (use assms in simp_all)

lemma tf_run_content:
  assumes "tf_inv b" "\<not> tf_disposed b" "FlDiscard \<notin> set es" "FlDispose \<notin> set es"
  shows "concat (fst (tf_run es b)) @ tf_content (snd (tf_run es b)) = tf_content b @ concat (map is_append es)"
  using assms
proof (induction es arbitrary: b)
  case (Cons e es)
  have "e \<noteq> FlDiscard" "e \<noteq> FlDispose" using Cons.prems by auto
  note c = tf_event_content [OF Cons.prems(1,2) this]
  from Cons.IH [OF tf_inv_event [OF Cons.prems(1)], of e] c Cons.prems
  show ?case by (cases "fst (tf_event e b)") (auto simp: Let_def)
qed simp

lemma tf_event_disposed:
  "tf_disposed b \<Longrightarrow> fst (tf_event e b) = None \<and> tf_disposed (snd (tf_event e b))"
  by (cases e) (simp_all add: tf_append_def tf_flush_def tf_timer_def tf_discard_def tf_dispose_def Let_def)

lemma tf_run_disposed: "tf_disposed b \<Longrightarrow> fst (tf_run es b) = []"
  by (induction es arbitrary: b) (simp_all add: Let_def tf_event_disposed)

section \<open>Properties\<close>

text \<open>The timed buffer delivers every character it was given exactly once and in order: what it
  flushed followed by what still waits is what was appended, and whenever text waits the timer is
  armed, so it will be flushed.\<close>

theorem timed_buffer_fifo:
  assumes "FlDiscard \<notin> set es" "FlDispose \<notin> set es"
  shows "concat (fst (tf_run es new_BufferedTextFlush)) @ tf_content (snd (tf_run es new_BufferedTextFlush))
      = concat (map is_append es)
    \<and> (tf_content (snd (tf_run es new_BufferedTextFlush)) \<noteq> []
         \<longrightarrow> tf_scheduled (snd (tf_run es new_BufferedTextFlush)))"
  using tf_run_content [OF tf_inv_new _ assms] tf_inv_run [OF tf_inv_new, of es]
  by (auto simp: new_BufferedTextFlush_def tf_content_def tf_inv_def)

theorem timed_buffer_fifo_witness:
  "concat (fst (tf_run [FlAppend [97], FlTimer, FlAppend [98]] new_BufferedTextFlush))
    @ tf_content (snd (tf_run [FlAppend [97], FlTimer, FlAppend [98]] new_BufferedTextFlush)) = [97, 98]"
  using timed_buffer_fifo [of "[FlAppend [97], FlTimer, FlAppend [98]]"] by simp

text \<open>After the timed buffer is disposed nothing is ever flushed again, whatever is appended and
  whichever timers still fire.\<close>

theorem timed_buffer_silent_after_dispose:
  "fst (tf_run es (tf_dispose b)) = [] \<and> tf_content (tf_dispose b) = [] \<and> \<not> tf_scheduled (tf_dispose b)"
  using tf_run_disposed [of "tf_dispose b" es]
  by (simp add: tf_dispose_def tf_discard_def tf_content_def)

end
