(* ===== verification/Terminal_Output.thy ===== *)
theory Terminal_Output
  imports Text_Buffer
begin

text \<open>
  The queue between a terminal's session and its screen, \<open>src/features/terminal/terminalOutputFlow.ts\<close>:
  output is written in batches of bounded size, one at a time, each scheduled on the next frame
  and acknowledged by the terminal before the next is scheduled.
\<close>

section \<open>State and operations\<close>

text \<open>
  \<open>tq_scheduled\<close> says that \<open>scheduledCancel\<close> is set. \<open>tq_completed\<close> has the \<open>completed\<close> flag of the
  closure of each write, in the order of the writes, because a terminal may call an old \<open>onParsed\<close> again.
\<close>

record term_queue =
  tq_chunks :: "jsstr list"
  tq_chunkIndex :: nat
  tq_disposed :: bool
  tq_pendingChars :: int
  tq_scheduled :: bool
  tq_writing :: bool
  tq_completed :: "bool list"

text \<open>The constructor: the batch size it accepts, or \<open>None\<close> for its \<open>throw\<close>.\<close>

definition new_TerminalOutputQueue :: "jsnum \<Rightarrow> (nat \<times> term_queue) option" where
  "new_TerminalOutputQueue maxBatchChars =
     (case maxBatchChars of
        Num q \<Rightarrow> if of_int \<lfloor>q\<rfloor> \<noteq> q \<or> q < 2 then None
          else Some (nat \<lfloor>q\<rfloor>, \<lparr>tq_chunks = [], tq_chunkIndex = 0, tq_disposed = False, tq_pendingChars = 0,
                 tq_scheduled = False, tq_writing = False, tq_completed = []\<rparr>)
      | _ \<Rightarrow> None)"

definition scheduleNext :: "term_queue \<Rightarrow> term_queue" where
  "scheduleNext q =
     (if tq_disposed q \<or> tq_writing q \<or> tq_pendingChars q = 0 \<or> tq_scheduled q then q
      else q\<lparr>tq_scheduled := True\<rparr>)"

definition tq_enqueue :: "jsstr \<Rightarrow> term_queue \<Rightarrow> term_queue" where
  "tq_enqueue d q =
     (if tq_disposed q \<or> d = [] then q
      else scheduleNext (q\<lparr>tq_chunks := tq_chunks q @ [d], tq_pendingChars := tq_pendingChars q + int (length d)\<rparr>))"

definition tq_clear :: "term_queue \<Rightarrow> term_queue" where
  "tq_clear q = q\<lparr>tq_scheduled := False, tq_chunks := [], tq_chunkIndex := 0, tq_pendingChars := 0\<rparr>"

definition tq_dispose :: "term_queue \<Rightarrow> term_queue" where
  "tq_dispose q = tq_clear (q\<lparr>tq_disposed := True\<rparr>)"

text \<open>\<open>charCodeAt\<close> at \<open>index - 1\<close> and \<open>index\<close>; \<open>index\<close> is a length here, so never negative.\<close>

definition splitsSurrogatePair :: "jsstr \<Rightarrow> nat \<Rightarrow> bool" where
  "splitsSurrogatePair v i =
     (if i \<le> 0 \<or> length v \<le> i then False
      else high_surrogate (v ! (i - 1)) \<and> low_surrogate (v ! i))"

text \<open>The loop of \<open>takeBatch\<close>: the characters still wanted, the chunks, their index, the parts so far.\<close>

function takeBatch_loop ::
  "nat \<Rightarrow> jsstr list \<Rightarrow> nat \<Rightarrow> jsstr list \<Rightarrow> jsstr list \<times> jsstr list \<times> nat" where
  "takeBatch_loop remaining chunks i parts =
     (if 0 < remaining \<and> i < length chunks then
        (let chunk = chunks ! i
         in if length chunk \<le> remaining
            then takeBatch_loop (remaining - length chunk) chunks (Suc i) (parts @ [chunk])
            else (let n = (if splitsSurrogatePair chunk remaining then remaining - 1 else remaining)
                  in if n = 0 then (parts, chunks, i)
                     else takeBatch_loop (remaining - n) (chunks[i := drop n chunk]) i (parts @ [take n chunk])))
      else (parts, chunks, i))"
  by pat_completeness auto
termination
  by (relation "measure (\<lambda>(r, cs, i, ps). r + (length cs - i))") auto

declare takeBatch_loop.simps [simp del]

definition takeBatch :: "nat \<Rightarrow> term_queue \<Rightarrow> jsstr \<times> term_queue" where
  "takeBatch maxBatchChars q =
     (let (parts, chunks, i) = takeBatch_loop maxBatchChars (tq_chunks q) (tq_chunkIndex q) [];
          batch = concat parts;
          q1 = q\<lparr>tq_chunks := chunks, tq_chunkIndex := i, tq_pendingChars := tq_pendingChars q - int (length batch)\<rparr>
      in if i = length chunks then (batch, q1\<lparr>tq_chunks := [], tq_chunkIndex := 0\<rparr>)
         else if 64 \<le> i then (batch, q1\<lparr>tq_chunks := drop i chunks, tq_chunkIndex := 0\<rparr>)
         else (batch, q1))"

definition onParsed :: "nat \<Rightarrow> term_queue \<Rightarrow> term_queue" where
  "onParsed k q =
     (if k < length (tq_completed q) \<and> \<not> tq_completed q ! k
      then scheduleNext (q\<lparr>tq_completed := (tq_completed q)[k := True], tq_writing := False\<rparr>)
      else q)"

text \<open>
  What \<open>write\<close> and \<open>onBatch\<close> may do with a batch: return, with the terminal parsing it later;
  call \<open>onParsed\<close> before returning; throw; or throw after calling \<open>onParsed\<close>.
\<close>

datatype write_outcome = WriteAccepted | WriteParsed | WriteThrows | WriteParsedThrows

definition flushNext :: "nat \<Rightarrow> write_outcome \<Rightarrow> term_queue \<Rightarrow> jsstr option \<times> term_queue" where
  "flushNext maxBatchChars outcome q =
     (if tq_disposed q \<or> tq_writing q \<or> tq_pendingChars q = 0 then (None, q)
      else
        (let (batch, q1) = takeBatch maxBatchChars q;
             k = length (tq_completed q1);
             q2 = q1\<lparr>tq_writing := True, tq_completed := tq_completed q1 @ [False]\<rparr>;
             fail = (\<lambda>q3. tq_clear (q3\<lparr>tq_completed := (tq_completed q3)[k := True], tq_writing := False,
                                        tq_disposed := True\<rparr>))
         in (Some batch,
             case outcome of
               WriteAccepted \<Rightarrow> q2
             | WriteParsed \<Rightarrow> onParsed k q2
             | WriteThrows \<Rightarrow> fail q2
             | WriteParsedThrows \<Rightarrow> fail (onParsed k q2))))"

text \<open>The scheduled callback runs only while it is not cancelled.\<close>

definition tq_frame :: "nat \<Rightarrow> write_outcome \<Rightarrow> term_queue \<Rightarrow> jsstr option \<times> term_queue" where
  "tq_frame m outcome q =
     (if tq_scheduled q then flushNext m outcome (q\<lparr>tq_scheduled := False\<rparr>) else (None, q))"

section \<open>The loop of a batch\<close>

text \<open>The loop's three ways on: stop, take a whole chunk, take part of one.\<close>

lemma loop_stop: "\<not> (0 < r \<and> i < length cs) \<Longrightarrow> takeBatch_loop r cs i ps = (ps, cs, i)"
  by (simp only: takeBatch_loop.simps [of r cs i ps] if_False)

lemma loop_whole:
  "0 < r \<Longrightarrow> i < length cs \<Longrightarrow> length (cs ! i) \<le> r \<Longrightarrow>
     takeBatch_loop r cs i ps = takeBatch_loop (r - length (cs ! i)) cs (Suc i) (ps @ [cs ! i])"
  by (simp only: takeBatch_loop.simps [of r cs i ps] simp_thms if_True Let_def)

definition cut_at :: "jsstr \<Rightarrow> nat \<Rightarrow> nat" where
  "cut_at chunk r = (if splitsSurrogatePair chunk r then r - 1 else r)"

lemma loop_part:
  "0 < r \<Longrightarrow> i < length cs \<Longrightarrow> \<not> length (cs ! i) \<le> r \<Longrightarrow>
     takeBatch_loop r cs i ps =
       (if cut_at (cs ! i) r = 0 then (ps, cs, i)
        else takeBatch_loop (r - cut_at (cs ! i) r) (cs[i := drop (cut_at (cs ! i) r) (cs ! i)]) i
               (ps @ [take (cut_at (cs ! i) r) (cs ! i)]))"
  by (simp only: takeBatch_loop.simps [of r cs i ps] simp_thms if_True if_False Let_def cut_at_def)

lemmas loop_steps = loop_stop loop_whole loop_part

lemma cut_at_le: "cut_at c r \<le> r" "r - 1 \<le> cut_at c r"
  by (simp_all add: cut_at_def)

lemma drop_update_Cons: "i < length cs \<Longrightarrow> drop i (cs[i := x]) = x # drop (Suc i) cs"
  by (metis Cons_nth_drop_Suc drop_update_cancel length_list_update lessI nth_list_update_eq)

lemma takeBatch_loop_induct [case_names stop whole cut part]:
  assumes "\<And>r cs i ps. \<not> (0 < r \<and> i < length cs) \<Longrightarrow> P r cs i ps"
    and "\<And>r cs i ps. 0 < r \<Longrightarrow> i < length cs \<Longrightarrow> length (cs ! i) \<le> r \<Longrightarrow>
       P (r - length (cs ! i)) cs (Suc i) (ps @ [cs ! i]) \<Longrightarrow> P r cs i ps"
    and "\<And>r cs i ps. 0 < r \<Longrightarrow> i < length cs \<Longrightarrow> \<not> length (cs ! i) \<le> r \<Longrightarrow> cut_at (cs ! i) r = 0 \<Longrightarrow> P r cs i ps"
    and "\<And>r cs i ps. 0 < r \<Longrightarrow> i < length cs \<Longrightarrow> \<not> length (cs ! i) \<le> r \<Longrightarrow> cut_at (cs ! i) r \<noteq> 0 \<Longrightarrow>
       P (r - cut_at (cs ! i) r) (cs[i := drop (cut_at (cs ! i) r) (cs ! i)]) i
         (ps @ [take (cut_at (cs ! i) r) (cs ! i)]) \<Longrightarrow> P r cs i ps"
  shows "P r cs i ps"
proof (induction r cs i ps rule: takeBatch_loop.induct)
  case (1 r cs i ps)
  show ?case
  proof (cases "0 < r \<and> i < length cs")
    case True
    show ?thesis
    proof (cases "length (cs ! i) \<le> r")
      case le: True
      then show ?thesis using "1.IH"(1) [OF True refl] assms(2) True by blast
    next
      case gt: False
      show ?thesis
      proof (cases "cut_at (cs ! i) r = 0")
        case False
        then show ?thesis
          using "1.IH"(2) [OF True refl gt refl] assms(4) [of r i cs ps] True gt
          unfolding cut_at_def by blast
      qed (use assms(3) True gt in blast)
    qed
  qed (use assms(1) in blast)
qed

text \<open>No character is lost or reordered, and the batch is no longer than asked.\<close>

lemma takeBatch_loop_spec:
  assumes "takeBatch_loop r cs i ps = (ps', cs', i')" "i \<le> length cs" "\<forall>c\<in>set (drop i cs). c \<noteq> []"
  shows "concat ps @ concat (drop i cs) = concat ps' @ concat (drop i' cs')
    \<and> i' \<le> length cs' \<and> (\<forall>c\<in>set (drop i' cs'). c \<noteq> [])
    \<and> length (concat ps') \<le> length (concat ps) + r"
  using assms
proof (induction r cs i ps rule: takeBatch_loop_induct)
  case (whole r cs i ps)
  have "drop i cs = cs ! i # drop (Suc i) cs" using whole by (simp add: Cons_nth_drop_Suc)
  with whole show ?case by (simp add: loop_whole)
next
  case (part r cs i ps)
  have "drop i cs = cs ! i # drop (Suc i) cs" using part by (simp add: Cons_nth_drop_Suc)
  moreover have "cut_at (cs ! i) r \<le> r" by (rule cut_at_le)
  ultimately show ?case
    using part by (simp add: loop_part drop_update_Cons)
qed (simp_all add: loop_steps)

lemma takeBatch_loop_extends:
  "takeBatch_loop r cs i ps = (ps', cs', i') \<Longrightarrow> \<exists>zs. ps' = ps @ zs"
  by (induction r cs i ps rule: takeBatch_loop_induct) (auto simp: loop_steps)

lemma takeBatch_loop_progress:
  assumes "takeBatch_loop r cs i ps = (ps', cs', i')" "2 \<le> r" "i < length cs" "cs ! i \<noteq> []"
  shows "concat ps' \<noteq> []"
proof (cases "length (cs ! i) \<le> r")
  case True
  with assms have "takeBatch_loop (r - length (cs ! i)) cs (Suc i) (ps @ [cs ! i]) = (ps', cs', i')"
    by (simp add: loop_whole)
  from takeBatch_loop_extends [OF this] assms(4) show ?thesis by auto
next
  case False
  let ?k = "cut_at (cs ! i) r"
  have k: "?k \<noteq> 0" using cut_at_le(2) [of r "cs ! i"] assms(2) by linarith
  with assms False have "takeBatch_loop (r - ?k) (cs[i := drop ?k (cs ! i)]) i (ps @ [take ?k (cs ! i)]) = (ps', cs', i')"
    by (simp add: loop_part)
  from takeBatch_loop_extends [OF this] k assms(4) show ?thesis by auto
qed

text \<open>A batch never ends between the two halves of a surrogate pair, if the chunks do not.\<close>

definition pair_safe :: "jsstr \<Rightarrow> jsstr \<Rightarrow> bool" where
  "pair_safe b rest \<longleftrightarrow> b = [] \<or> rest = [] \<or> \<not> (high_surrogate (last b) \<and> low_surrogate (hd rest))"

definition whole_chunks :: "jsstr list \<Rightarrow> bool" where
  "whole_chunks cs \<longleftrightarrow> (\<forall>c\<in>set cs. c \<noteq> [] \<and> \<not> high_surrogate (last c))"

lemma cut_at_safe:
  assumes "0 < r" "\<not> length c \<le> r" "cut_at c r \<noteq> 0"
  shows "\<not> (high_surrogate (last (take (cut_at c r) c)) \<and> low_surrogate (hd (drop (cut_at c r) c)))"
proof -
  let ?k = "cut_at c r"
  have k: "?k < length c" using cut_at_le(1) [of c r] assms(2) by linarith
  obtain j where j: "?k = Suc j" using assms(3) by (cases ?k) auto
  have "last (take ?k c) = c ! (?k - 1)"
    using k by (simp add: j take_Suc_conv_app_nth)
  moreover have "hd (drop ?k c) = c ! ?k"
    using k by (rule hd_drop_conv_nth)
  moreover have "\<not> (high_surrogate (c ! (?k - 1)) \<and> low_surrogate (c ! ?k))"
    using assms k by (auto simp: cut_at_def splitsSurrogatePair_def high_surrogate_def low_surrogate_def split: if_splits)
  ultimately show ?thesis by simp
qed

lemma takeBatch_loop_safe:
  assumes "takeBatch_loop r cs i ps = (ps', cs', i')" "whole_chunks (drop i cs)"
    and "pair_safe (concat ps) (concat (drop i cs))"
  shows "pair_safe (concat ps') (concat (drop i' cs')) \<and> whole_chunks (drop i' cs')"
  using assms
proof (induction r cs i ps rule: takeBatch_loop_induct)
  case (whole r cs i ps)
  have "drop i cs = cs ! i # drop (Suc i) cs" using whole by (simp add: Cons_nth_drop_Suc)
  then have "whole_chunks (drop (Suc i) cs)" "pair_safe (concat (ps @ [cs ! i])) (concat (drop (Suc i) cs))"
    using whole.prems(2) by (simp_all add: whole_chunks_def pair_safe_def)
  with whole.IH whole.prems(1) whole.hyps show ?case by (simp add: loop_whole)
next
  case (part r cs i ps)
  let ?k = "cut_at (cs ! i) r"
  have d: "drop i cs = cs ! i # drop (Suc i) cs" using part by (simp add: Cons_nth_drop_Suc)
  have k: "?k < length (cs ! i)" using cut_at_le(1) [of "cs ! i" r] part by linarith
  have "pair_safe (concat (ps @ [take ?k (cs ! i)])) (concat (drop i (cs[i := drop ?k (cs ! i)])))"
  proof -
    have "last (concat ps @ take ?k (cs ! i)) = last (take ?k (cs ! i))"
      and "hd (drop ?k (cs ! i) @ concat (drop (Suc i) cs)) = hd (drop ?k (cs ! i))"
      using part.hyps k by (auto intro!: last_appendR hd_append2)
    with cut_at_safe [of r "cs ! i"] part.hyps show ?thesis
      by (simp add: drop_update_Cons pair_safe_def)
  qed
  moreover have "whole_chunks (drop i (cs[i := drop ?k (cs ! i)]))"
    using part.prems(2) part.hyps k d by (simp add: whole_chunks_def drop_update_Cons)
  ultimately show ?case
    using part.IH part.prems(1) part.hyps by (simp add: loop_part)
qed (simp_all add: loop_steps)

section \<open>The invariant of the queue\<close>

definition tq_content :: "term_queue \<Rightarrow> jsstr" where
  "tq_content q = concat (drop (tq_chunkIndex q) (tq_chunks q))"

text \<open>The pending count is the length of what waits; a disposed queue holds nothing.\<close>

definition tq_data :: "term_queue \<Rightarrow> bool" where
  "tq_data q \<longleftrightarrow> tq_chunkIndex q \<le> length (tq_chunks q)
     \<and> (\<forall>c\<in>set (drop (tq_chunkIndex q) (tq_chunks q)). c \<noteq> [])
     \<and> tq_pendingChars q = int (length (tq_content q))
     \<and> (tq_disposed q \<longrightarrow> tq_content q = [])"

text \<open>
  A frame is scheduled only when there is something to write and no write is outstanding; while
  something waits, either a frame is scheduled or a write is outstanding, so a wake-up is never
  lost; exactly the last write may be incomplete, and it is exactly while \<open>writing\<close> is set.
\<close>

definition tq_flags :: "bool list \<Rightarrow> bool \<Rightarrow> bool" where
  "tq_flags cs w \<longleftrightarrow> (\<exists>n. cs = replicate n True @ (if w then [False] else []))"

definition tq_control :: "term_queue \<Rightarrow> bool" where
  "tq_control q \<longleftrightarrow>
     (tq_scheduled q \<longrightarrow> \<not> tq_writing q \<and> tq_pendingChars q \<noteq> 0 \<and> \<not> tq_disposed q)
     \<and> tq_flags (tq_completed q) (tq_writing q)"

definition tq_awake :: "term_queue \<Rightarrow> bool" where
  "tq_awake q \<longleftrightarrow> (tq_pendingChars q \<noteq> 0 \<longrightarrow> tq_scheduled q \<or> tq_writing q)"

definition tq_inv :: "term_queue \<Rightarrow> bool" where
  "tq_inv q \<longleftrightarrow> tq_data q \<and> tq_control q \<and> tq_awake q"

lemma takeBatch_fields:
  assumes "takeBatch_loop m (tq_chunks q) (tq_chunkIndex q) [] = (ps, cs, i)" "takeBatch m q = (b, q')"
  shows "b = concat ps" "drop (tq_chunkIndex q') (tq_chunks q') = drop i cs"
    "i \<le> length cs \<Longrightarrow> tq_chunkIndex q' \<le> length (tq_chunks q')"
    "tq_pendingChars q' = tq_pendingChars q - int (length b)"
    "tq_disposed q' = tq_disposed q" "tq_scheduled q' = tq_scheduled q" "tq_writing q' = tq_writing q"
    "tq_completed q' = tq_completed q"
proof -
  have q': "b = fst (takeBatch m q)" "q' = snd (takeBatch m q)"
    using assms(2) by simp_all
  show "b = concat ps" "drop (tq_chunkIndex q') (tq_chunks q') = drop i cs"
    "i \<le> length cs \<Longrightarrow> tq_chunkIndex q' \<le> length (tq_chunks q')"
    "tq_pendingChars q' = tq_pendingChars q - int (length b)"
    "tq_disposed q' = tq_disposed q" "tq_scheduled q' = tq_scheduled q" "tq_writing q' = tq_writing q"
    "tq_completed q' = tq_completed q"
    unfolding q' by (simp_all add: takeBatch_def assms(1) Let_def)
qed

lemma takeBatch_spec:
  assumes "tq_data q" "takeBatch m q = (b, q')"
  shows "tq_content q = b @ tq_content q' \<and> tq_data q' \<and> length b \<le> m"
proof -
  obtain ps cs i where l: "takeBatch_loop m (tq_chunks q) (tq_chunkIndex q) [] = (ps, cs, i)"
    by (cases "takeBatch_loop m (tq_chunks q) (tq_chunkIndex q) []") auto
  note f = takeBatch_fields [OF l assms(2)]
  have loop: "tq_content q = b @ tq_content q'" "i \<le> length cs" "\<forall>c\<in>set (drop i cs). c \<noteq> []" "length b \<le> m"
    using takeBatch_loop_spec [OF l] assms(1) by (simp_all add: tq_data_def tq_content_def f(1,2))
  moreover have "tq_data q'"
    using assms(1) loop unfolding tq_data_def f(2) f(4-5) by (simp add: f(3))
  ultimately show ?thesis by blast
qed

lemma takeBatch_progress:
  assumes "tq_data q" "2 \<le> m" "tq_content q \<noteq> []"
  shows "fst (takeBatch m q) \<noteq> []"
proof -
  obtain ps cs i where l: "takeBatch_loop m (tq_chunks q) (tq_chunkIndex q) [] = (ps, cs, i)"
    by (cases "takeBatch_loop m (tq_chunks q) (tq_chunkIndex q) []") auto
  have "tq_chunkIndex q < length (tq_chunks q)"
    using assms by (cases "tq_chunkIndex q < length (tq_chunks q)") (auto simp: tq_data_def tq_content_def)
  moreover from this have "tq_chunks q ! tq_chunkIndex q \<noteq> []"
    using assms by (auto simp: tq_data_def Cons_nth_drop_Suc [symmetric])
  ultimately show ?thesis
    using takeBatch_loop_progress [OF l assms(2)] by (simp add: takeBatch_def l Let_def)
qed

lemma takeBatch_safe:
  assumes "whole_chunks (drop (tq_chunkIndex q) (tq_chunks q))" "takeBatch m q = (b, q')"
  shows "pair_safe b (tq_content q') \<and> whole_chunks (drop (tq_chunkIndex q') (tq_chunks q'))"
proof -
  obtain ps cs i where l: "takeBatch_loop m (tq_chunks q) (tq_chunkIndex q) [] = (ps, cs, i)"
    by (cases "takeBatch_loop m (tq_chunks q) (tq_chunkIndex q) []") auto
  from takeBatch_loop_safe [OF l assms(1)] show ?thesis
    unfolding tq_content_def takeBatch_fields(1,2) [OF l assms(2)] by (simp add: pair_safe_def)
qed

section \<open>Events\<close>

datatype queue_event =
    EvOutput jsstr | EvFrame write_outcome | EvParsed nat | EvClear | EvDispose

fun tq_event :: "nat \<Rightarrow> queue_event \<Rightarrow> term_queue \<Rightarrow> jsstr option \<times> term_queue" where
  "tq_event m (EvOutput d) q = (None, tq_enqueue d q)"
| "tq_event m (EvFrame r) q = tq_frame m r q"
| "tq_event m (EvParsed k) q = (None, onParsed k q)"
| "tq_event m EvClear q = (None, tq_clear q)"
| "tq_event m EvDispose q = (None, tq_dispose q)"

fun tq_run :: "nat \<Rightarrow> queue_event list \<Rightarrow> term_queue \<Rightarrow> jsstr list \<times> term_queue" where
  "tq_run m [] q = ([], q)"
| "tq_run m (e # es) q =
     (let rest = tq_run m es (snd (tq_event m e q))
      in (case fst (tq_event m e q) of None \<Rightarrow> fst rest | Some b \<Rightarrow> b # fst rest, snd rest))"

lemma scheduleNext_fields [simp]:
  "tq_chunks (scheduleNext q) = tq_chunks q" "tq_chunkIndex (scheduleNext q) = tq_chunkIndex q"
  "tq_content (scheduleNext q) = tq_content q" "tq_disposed (scheduleNext q) = tq_disposed q"
  "tq_pendingChars (scheduleNext q) = tq_pendingChars q" "tq_writing (scheduleNext q) = tq_writing q"
  "tq_completed (scheduleNext q) = tq_completed q" "tq_data (scheduleNext q) = tq_data q"
  by (simp_all add: scheduleNext_def tq_content_def tq_data_def)

lemma inv_scheduleNext: "tq_data q \<Longrightarrow> tq_control q \<Longrightarrow> tq_inv (scheduleNext q)"
  by (simp add: tq_inv_def tq_control_def tq_awake_def, simp add: scheduleNext_def)
    (auto simp: tq_data_def)

lemma data_simps [simp]:
  "tq_content (q\<lparr>tq_scheduled := b\<rparr>) = tq_content q" "tq_content (q\<lparr>tq_writing := b\<rparr>) = tq_content q"
  "tq_content (q\<lparr>tq_completed := cs\<rparr>) = tq_content q" "tq_content (q\<lparr>tq_pendingChars := n\<rparr>) = tq_content q"
  "tq_content (q\<lparr>tq_disposed := b\<rparr>) = tq_content q"
  "tq_data (q\<lparr>tq_scheduled := b\<rparr>) = tq_data q" "tq_data (q\<lparr>tq_writing := b\<rparr>) = tq_data q"
  "tq_data (q\<lparr>tq_completed := cs\<rparr>) = tq_data q"
  by (simp_all add: tq_content_def tq_data_def)

lemma flags_simps [simp]:
  "tq_flags (cs @ [False]) True = tq_flags cs False"
  "tq_flags cs False \<Longrightarrow> tq_flags (cs @ [True]) False"
  by (auto simp: tq_flags_def replicate_append_same intro: exI [of _ "Suc _"])

lemma flags_complete:
  assumes "tq_flags cs w" "k < length cs" "\<not> cs ! k"
  shows "w \<and> tq_flags (cs[k := True]) False"
proof -
  obtain n where n: "cs = replicate n True @ (if w then [False] else [])"
    using assms(1) by (auto simp: tq_flags_def)
  have w: "w" "k = n"
    using assms(2,3) unfolding n by (auto simp: nth_append split: if_splits)
  have "cs[k := True] = replicate (Suc n) True"
    using w n by (simp add: list_update_append replicate_append_same)
  then have "tq_flags (cs[k := True]) False" unfolding tq_flags_def by (intro exI [of _ "Suc n"]) simp
  with w show ?thesis by blast
qed

lemma inv_tq_enqueue [inv_step]:
  assumes inv: "tq_inv q" shows "tq_inv (tq_enqueue d q)"
proof (cases "tq_disposed q \<or> d = []")
  case False
  let ?q = "q\<lparr>tq_chunks := tq_chunks q @ [d], tq_pendingChars := tq_pendingChars q + int (length d)\<rparr>"
  from inv have D: "tq_data q" "tq_control q" by (simp_all add: tq_inv_def)
  have c: "tq_content ?q = tq_content q @ d" using D(1) by (simp add: tq_content_def tq_data_def)
  have "tq_data ?q" using D(1) False c by (simp add: tq_data_def)
  moreover have "tq_pendingChars ?q \<noteq> 0" using D(1) False by (cases d) (simp_all add: tq_data_def)
  then have "tq_control ?q" using D(2) by (simp add: tq_control_def)
  ultimately show ?thesis using False by (simp add: tq_enqueue_def inv_scheduleNext)
qed (use inv in \<open>simp add: tq_enqueue_def\<close>)

lemma data_tq_clear [simp]: "tq_data (tq_clear q)" "tq_content (tq_clear q) = []"
  by (simp_all add: tq_clear_def tq_data_def tq_content_def)

lemma inv_tq_clear: "tq_flags (tq_completed q) (tq_writing q) \<Longrightarrow> tq_inv (tq_clear q)"
  by (simp add: tq_inv_def tq_control_def tq_awake_def) (simp add: tq_clear_def)

lemma inv_tq_dispose [inv_step]: "tq_inv q \<Longrightarrow> tq_inv (tq_dispose q)"
  unfolding tq_dispose_def by (rule inv_tq_clear) (simp add: tq_inv_def tq_control_def)

lemma inv_onParsed [inv_step]:
  assumes inv: "tq_inv q" shows "tq_inv (onParsed k q)"
proof (cases "k < length (tq_completed q) \<and> \<not> tq_completed q ! k")
  case True
  have "tq_writing q \<and> tq_flags ((tq_completed q)[k := True]) False"
    using flags_complete [of "tq_completed q" "tq_writing q" k] True inv by (simp add: tq_inv_def tq_control_def)
  with inv have "tq_control (q\<lparr>tq_completed := (tq_completed q)[k := True], tq_writing := False\<rparr>)"
    by (simp add: tq_inv_def tq_control_def)
  with inv True show ?thesis
    by (simp add: onParsed_def inv_scheduleNext tq_inv_def [of q])
qed (use inv in \<open>auto simp: onParsed_def\<close>)

text \<open>What a frame does when it runs, in terms of the batch taken.\<close>

lemma frame_cases:
  assumes inv: "tq_inv q" and s: "tq_scheduled q" and t: "takeBatch m (q\<lparr>tq_scheduled := False\<rparr>) = (b, q1)"
  defines "q2 \<equiv> q1\<lparr>tq_writing := True, tq_completed := tq_completed q1 @ [False]\<rparr>"
  shows "fst (tq_frame m r q) = Some b" "tq_inv q2" "tq_content q = b @ tq_content q2" "length b \<le> m"
    "tq_inv (snd (tq_frame m r q))"
    "tq_content (snd (tq_frame m r q)) = (if r \<in> {WriteAccepted, WriteParsed} then tq_content q2 else [])"
    "tq_disposed (snd (tq_frame m r q)) = (r \<notin> {WriteAccepted, WriteParsed})"
proof -
  let ?q0 = "q\<lparr>tq_scheduled := False\<rparr>"
  have nw: "\<not> tq_writing q" "tq_pendingChars q \<noteq> 0" "\<not> tq_disposed q"
    using inv s by (auto simp: tq_inv_def tq_control_def)
  have d0: "tq_data ?q0" using inv by (simp add: tq_inv_def)
  obtain ps cs i where l: "takeBatch_loop m (tq_chunks ?q0) (tq_chunkIndex ?q0) [] = (ps, cs, i)"
    by (cases "takeBatch_loop m (tq_chunks ?q0) (tq_chunkIndex ?q0) []") auto
  note f = takeBatch_fields [OF l t]
  note sp = takeBatch_spec [OF d0 t]
  have fl: "tq_flags (tq_completed q1) False"
    using inv nw f(8) by (simp add: tq_inv_def tq_control_def)
  show i2: "tq_inv q2"
    using f fl sp by (simp add: q2_def tq_inv_def tq_control_def tq_awake_def)
  show "tq_content q = b @ tq_content q2" "length b \<le> m"
    using sp by (simp_all add: q2_def)
  let ?k = "length (tq_completed q1)"
  let ?fail = "\<lambda>q3. tq_clear (q3\<lparr>tq_completed := (tq_completed q3)[?k := True], tq_writing := False, tq_disposed := True\<rparr>)"
  have p2: "tq_inv (onParsed ?k q2)" using i2 by (rule inv_onParsed)
  have e: "onParsed ?k q2 = scheduleNext (q2\<lparr>tq_completed := (tq_completed q1 @ [True]), tq_writing := False\<rparr>)"
    by (simp add: onParsed_def q2_def list_update_append)
  have fr: "tq_frame m r q = (Some b, case r of WriteAccepted \<Rightarrow> q2 | WriteParsed \<Rightarrow> onParsed ?k q2
      | WriteThrows \<Rightarrow> ?fail q2 | WriteParsedThrows \<Rightarrow> ?fail (onParsed ?k q2))"
    using s nw t by (cases r) (simp_all add: tq_frame_def flushNext_def q2_def Let_def)
  show "fst (tq_frame m r q) = Some b" by (simp add: fr)
  have fail: "tq_inv (?fail q2)" "tq_inv (?fail (onParsed ?k q2))"
    using fl unfolding e by (auto intro!: inv_tq_clear simp: q2_def list_update_append)
  show "tq_inv (snd (tq_frame m r q))"
    unfolding fr using i2 p2 fail by (cases r) simp_all
  have "tq_disposed q2 = False" "tq_disposed (onParsed ?k q2) = False"
    using f(5) nw unfolding e by (simp_all add: q2_def)
  then show "tq_disposed (snd (tq_frame m r q)) = (r \<notin> {WriteAccepted, WriteParsed})"
    unfolding fr by (cases r) (simp_all add: tq_clear_def)
  show "tq_content (snd (tq_frame m r q)) = (if r \<in> {WriteAccepted, WriteParsed} then tq_content q2 else [])"
    unfolding fr by (cases r) (simp_all add: e)
qed

lemma frame_idle: "\<not> tq_scheduled q \<Longrightarrow> tq_frame m r q = (None, q)"
  by (simp add: tq_frame_def)

lemma inv_tq_frame [inv_step]: "tq_inv q \<Longrightarrow> tq_inv (snd (tq_frame m r q))"
  using frame_cases(5) [of q m "fst (takeBatch m (q\<lparr>tq_scheduled := False\<rparr>))"
      "snd (takeBatch m (q\<lparr>tq_scheduled := False\<rparr>))" r]
  by (cases "tq_scheduled q") (simp_all add: frame_idle)

lemma tq_inv_event: "tq_inv q \<Longrightarrow> tq_inv (snd (tq_event m e q))"
  by (cases e) (simp_all add: inv_step inv_tq_clear tq_inv_def [of q] tq_control_def [of q])

lemma tq_inv_run: "tq_inv q \<Longrightarrow> tq_inv (snd (tq_run m es q))"
  by (induction es arbitrary: q) (simp_all add: Let_def tq_inv_event)

section \<open>The queue as a text buffer\<close>

lemma content_tq_enqueue: "tq_data q \<Longrightarrow> \<not> tq_disposed q \<Longrightarrow> tq_content (tq_enqueue d q) = tq_content q @ d"
  by (auto simp: tq_enqueue_def tq_content_def tq_data_def)

lemma data_tq_enqueue: "tq_data q \<Longrightarrow> tq_data (tq_enqueue d q)"
  by (auto simp: tq_enqueue_def tq_data_def tq_content_def)

lemma disposed_content: "tq_data q \<Longrightarrow> tq_disposed q \<Longrightarrow> tq_content q = []"
  by (simp add: tq_data_def)

lemma disposed_tq_enqueue [simp]: "tq_disposed (tq_enqueue d q) = tq_disposed q"
  by (simp add: tq_enqueue_def)

lemma disposed_takeBatch [simp]: "tq_disposed (snd (takeBatch m q)) = tq_disposed q"
  by (simp add: takeBatch_def Let_def split: prod.split)

interpretation batched: text_buffer tq_enqueue "takeBatch (m + 2)" tq_clear tq_content "\<lambda>q. \<not> tq_disposed q" tq_data
  for m :: nat
proof
  fix q assume d: "tq_data q"
  show "tq_content q = fst (takeBatch (m + 2) q) @ tq_content (snd (takeBatch (m + 2) q))"
    and "tq_data (snd (takeBatch (m + 2) q))"
    using takeBatch_spec [OF d, of "m + 2" "fst (takeBatch (m + 2) q)" "snd (takeBatch (m + 2) q)"] by simp_all
  show "tq_content q \<noteq> [] \<Longrightarrow> fst (takeBatch (m + 2) q) \<noteq> []"
    using takeBatch_progress [OF d, of "m + 2"] by simp
qed (simp_all add: content_tq_enqueue data_tq_enqueue disposed_content, simp_all add: tq_enqueue_def tq_clear_def)

section \<open>Runs\<close>

fun out_text :: "queue_event \<Rightarrow> jsstr" where
  "out_text (EvOutput d) = d"
| "out_text _ = []"

text \<open>Events that lose nothing: everything but clearing, disposing and a failing write.\<close>

fun lossless :: "queue_event \<Rightarrow> bool" where
  "lossless (EvFrame r) = (r = WriteAccepted \<or> r = WriteParsed)"
| "lossless EvClear = False"
| "lossless EvDispose = False"
| "lossless _ = True"

lemma onParsed_fields [simp]: "tq_content (onParsed k q) = tq_content q" "tq_disposed (onParsed k q) = tq_disposed q"
  by (simp_all add: onParsed_def tq_content_def)

lemma frame_split:
  assumes "tq_inv q" "tq_scheduled q"
  obtains b q1 where "takeBatch m (q\<lparr>tq_scheduled := False\<rparr>) = (b, q1)" "tq_content q = b @ tq_content q1"
    "fst (tq_frame m r q) = Some b" "length b \<le> m" "2 \<le> m \<Longrightarrow> b \<noteq> []"
proof -
  obtain b q1 where t: "takeBatch m (q\<lparr>tq_scheduled := False\<rparr>) = (b, q1)" by (cases "takeBatch m (q\<lparr>tq_scheduled := False\<rparr>)")
  have d: "tq_data q" "tq_pendingChars q \<noteq> 0"
    using assms by (simp_all add: tq_inv_def tq_control_def)
  then have "tq_content q \<noteq> []" by (auto simp: tq_data_def)
  with d(1) have "2 \<le> m \<Longrightarrow> b \<noteq> []"
    using takeBatch_progress [of "q\<lparr>tq_scheduled := False\<rparr>" m] t by simp
  with frame_cases(1) [OF assms t, of r] frame_cases(3,4) [OF assms t] t
  show ?thesis by (intro that [of b q1]) simp_all
qed

lemma event_content:
  assumes inv: "tq_inv q" and "\<not> tq_disposed q" "lossless e"
  shows "flushed (fst (tq_event m e q)) @ tq_content (snd (tq_event m e q)) = tq_content q @ out_text e
    \<and> \<not> tq_disposed (snd (tq_event m e q))"
proof (cases e)
  case (EvFrame r)
  show ?thesis
  proof (cases "tq_scheduled q")
    case True
    obtain b q1 where "takeBatch m (q\<lparr>tq_scheduled := False\<rparr>) = (b, q1)"
      by (cases "takeBatch m (q\<lparr>tq_scheduled := False\<rparr>)")
    from frame_cases(3) [OF inv True this] frame_cases(1,6,7) [OF inv True this, of r] assms(3) EvFrame
    show ?thesis by auto
  qed (use assms EvFrame in \<open>simp add: frame_idle\<close>)
qed (use assms in \<open>auto simp: content_tq_enqueue tq_inv_def\<close>)

lemma event_batch:
  assumes "tq_inv q" "fst (tq_event m e q) = Some b" "2 \<le> m"
  shows "b \<noteq> [] \<and> length b \<le> m"
proof (cases e)
  case (EvFrame r)
  with assms have "tq_scheduled q" by (cases "tq_scheduled q") (simp_all add: frame_idle)
  then show ?thesis
    by (rule frame_split [OF assms(1), where m = m and r = r]) (use assms EvFrame in simp)
qed (use assms in simp_all)

lemma run_content:
  assumes "tq_inv q" "\<not> tq_disposed q" "\<forall>e\<in>set es. lossless e"
  shows "concat (fst (tq_run m es q)) @ tq_content (snd (tq_run m es q)) = tq_content q @ concat (map out_text es)
    \<and> \<not> tq_disposed (snd (tq_run m es q))"
  using assms
proof (induction es arbitrary: q)
  case (Cons e es)
  have "lossless e" using Cons.prems by simp
  note c = event_content [OF Cons.prems(1,2) this, of m]
  from Cons.IH [OF tq_inv_event [OF Cons.prems(1)]] c Cons.prems(3)
  show ?case by (cases "fst (tq_event m e q)") (auto simp: Let_def)
qed simp

lemma run_batches:
  assumes "tq_inv q" "2 \<le> m" "b \<in> set (fst (tq_run m es q))"
  shows "b \<noteq> [] \<and> length b \<le> m"
  using assms
proof (induction es arbitrary: q)
  case (Cons e es)
  from Cons.IH [OF tq_inv_event [OF Cons.prems(1)] Cons.prems(2)] Cons.prems(3)
    event_batch [OF Cons.prems(1) _ Cons.prems(2), of e b]
  show ?case by (auto simp: Let_def split: option.splits)
qed simp

lemma event_disposed:
  "tq_disposed q \<Longrightarrow> \<not> tq_scheduled q \<Longrightarrow> fst (tq_event m e q) = None
     \<and> tq_disposed (snd (tq_event m e q)) \<and> \<not> tq_scheduled (snd (tq_event m e q))"
  by (cases e) (simp_all add: frame_idle tq_enqueue_def tq_clear_def tq_dispose_def onParsed_def scheduleNext_def)

lemma run_disposed: "tq_disposed q \<Longrightarrow> \<not> tq_scheduled q \<Longrightarrow> fst (tq_run m es q) = []"
  by (induction es arbitrary: q) (simp_all add: Let_def event_disposed)

lemma inv_new: "new_TerminalOutputQueue n = Some (m, q) \<Longrightarrow> tq_inv q \<and> 2 \<le> m \<and> \<not> tq_disposed q \<and> tq_content q = []"
  by (auto simp: new_TerminalOutputQueue_def tq_inv_def tq_data_def tq_control_def tq_awake_def tq_content_def
      tq_flags_def le_nat_iff le_floor_iff split: jsnum.splits if_splits)

text \<open>
  One round: the frame runs, the terminal takes the batch and acknowledges it later. \<open>k\<close> writes
  were made before.
\<close>

fun rounds :: "nat \<Rightarrow> nat \<Rightarrow> queue_event list" where
  "rounds k 0 = []"
| "rounds k (Suc n) = EvFrame WriteAccepted # EvParsed k # rounds (Suc k) n"

lemma round_shrinks:
  assumes inv: "tq_inv q" and s: "tq_scheduled q" and m: "2 \<le> m"
  defines "q' \<equiv> onParsed (length (tq_completed q)) (snd (tq_frame m WriteAccepted q))"
  shows "length (tq_content q') < length (tq_content q) \<and> tq_inv q' \<and> \<not> tq_writing q'
    \<and> length (tq_completed q') = Suc (length (tq_completed q))"
proof -
  obtain b q1 where t: "takeBatch m (q\<lparr>tq_scheduled := False\<rparr>) = (b, q1)" by (cases "takeBatch m (q\<lparr>tq_scheduled := False\<rparr>)")
  obtain ps cs i where l: "takeBatch_loop m (tq_chunks q) (tq_chunkIndex q) [] = (ps, cs, i)"
    by (cases "takeBatch_loop m (tq_chunks q) (tq_chunkIndex q) []") auto
  have c: "tq_completed q1 = tq_completed q"
    using takeBatch_fields(8) [of m "q\<lparr>tq_scheduled := False\<rparr>" ps cs i, OF _ t] l by simp
  have nw: "\<not> tq_writing q" "tq_pendingChars q \<noteq> 0" "\<not> tq_disposed q"
    using inv s by (auto simp: tq_inv_def tq_control_def)
  let ?q2 = "q1\<lparr>tq_writing := True, tq_completed := tq_completed q1 @ [False]\<rparr>"
  have fr: "snd (tq_frame m WriteAccepted q) = ?q2"
    using s nw t by (simp add: tq_frame_def flushNext_def Let_def)
  have i2: "tq_inv ?q2" and ct: "tq_content q = b @ tq_content ?q2"
    using frame_cases(2,3) [OF inv s t] by simp_all
  have "b \<noteq> []"
    by (rule frame_split [OF inv s, where m = m and r = WriteAccepted]) (use t m in simp)
  moreover have "q' = scheduleNext (?q2\<lparr>tq_completed := tq_completed q @ [True], tq_writing := False\<rparr>)"
    unfolding q'_def fr by (simp add: onParsed_def c list_update_append)
  moreover have "tq_inv q'"
    unfolding q'_def fr by (rule inv_onParsed) (rule i2)
  ultimately show ?thesis
    using ct by simp
qed

lemma event_empty:
  assumes "tq_inv q" "tq_content q = []" "out_text e = []"
  shows "tq_content (snd (tq_event m e q)) = []"
proof -
  have "\<not> tq_scheduled q"
    using assms by (auto simp: tq_inv_def tq_control_def tq_data_def)
  with assms show ?thesis
    by (cases e) (simp_all add: frame_idle tq_enqueue_def tq_dispose_def)
qed

lemma run_empty:
  "tq_inv q \<Longrightarrow> tq_content q = [] \<Longrightarrow> \<forall>e\<in>set es. out_text e = [] \<Longrightarrow> tq_content (snd (tq_run m es q)) = []"
  by (induction es arbitrary: q) (simp_all add: Let_def tq_inv_event event_empty)

lemma rounds_silent: "e \<in> set (rounds k n) \<Longrightarrow> out_text e = []"
  by (induction k n rule: rounds.induct) auto

lemma rounds_drain:
  assumes "tq_inv q" "\<not> tq_writing q" "2 \<le> m" "length (tq_content q) \<le> n"
  shows "tq_content (snd (tq_run m (rounds (length (tq_completed q)) n) q)) = []"
  using assms
proof (induction n arbitrary: q)
  case (Suc n)
  let ?e = "EvFrame WriteAccepted"
  show ?case
  proof (cases "tq_scheduled q")
    case True
    let ?q' = "onParsed (length (tq_completed q)) (snd (tq_frame m WriteAccepted q))"
    note r = round_shrinks [OF Suc.prems(1) True Suc.prems(3)]
    have "tq_content (snd (tq_run m (rounds (length (tq_completed ?q')) n) ?q')) = []"
      by (rule Suc.IH) (use r Suc.prems in simp_all)
    with r show ?thesis by (simp add: Let_def)
  next
    case False
    have "tq_pendingChars q = 0"
      using Suc.prems False by (auto simp: tq_inv_def tq_awake_def)
    then have "tq_content q = []" using Suc.prems by (simp add: tq_inv_def tq_data_def)
    then show ?thesis
      using rounds_silent by (intro run_empty Suc.prems ballI)
  qed
qed simp

section \<open>Properties\<close>

text \<open>C6. The terminal queue delivers the session's output exactly once and in order, in batches
  that are never empty and never longer than the maximum; and while output waits a frame is
  scheduled or a write is outstanding, so no wake-up is lost.\<close>

theorem terminal_output_fifo:
  assumes "new_TerminalOutputQueue n = Some (m, q)" "\<forall>e\<in>set es. lossless e"
  shows "concat (fst (tq_run m es q)) @ tq_content (snd (tq_run m es q)) = concat (map out_text es)
    \<and> (\<forall>b\<in>set (fst (tq_run m es q)). b \<noteq> [] \<and> length b \<le> m)
    \<and> (tq_content (snd (tq_run m es q)) \<noteq> []
         \<longrightarrow> tq_scheduled (snd (tq_run m es q)) \<or> tq_writing (snd (tq_run m es q)))"
proof -
  from inv_new [OF assms(1)] have q: "tq_inv q" "2 \<le> m" "\<not> tq_disposed q" "tq_content q = []"
    by simp_all
  have "tq_inv (snd (tq_run m es q))" by (rule tq_inv_run) (rule q)
  then have "tq_content (snd (tq_run m es q)) \<noteq> []
      \<longrightarrow> tq_scheduled (snd (tq_run m es q)) \<or> tq_writing (snd (tq_run m es q))"
    by (auto simp: tq_inv_def tq_awake_def tq_data_def)
  with run_content [OF q(1,3) assms(2), of m] run_batches [OF q(1,2), of _ es] q(4) show ?thesis
    by simp
qed

definition sample_queue :: term_queue where
  "sample_queue = \<lparr>tq_chunks = [], tq_chunkIndex = 0, tq_disposed = False, tq_pendingChars = 0,
     tq_scheduled = False, tq_writing = False, tq_completed = []\<rparr>"

lemma sample_queue_new: "new_TerminalOutputQueue (Num 2) = Some (2, sample_queue)"
  by (simp add: new_TerminalOutputQueue_def sample_queue_def)

theorem terminal_output_fifo_witness:
  "concat (fst (tq_run 2 [EvOutput [97, 98, 99], EvFrame WriteAccepted, EvParsed 0] sample_queue))
    @ tq_content (snd (tq_run 2 [EvOutput [97, 98, 99], EvFrame WriteAccepted, EvParsed 0] sample_queue))
   = [97, 98, 99]"
  using terminal_output_fifo [OF sample_queue_new, of "[EvOutput [97, 98, 99], EvFrame WriteAccepted, EvParsed 0]"]
  by simp

text \<open>C10. The queue drains: from any state it can be in with no write outstanding, if each
  scheduled frame runs and each write is acknowledged, everything that waits has been written
  after at most as many rounds as there are characters waiting.\<close>

theorem terminal_output_drains:
  assumes "new_TerminalOutputQueue n = Some (m, q0)" "q = snd (tq_run m es q0)" "\<not> tq_writing q"
  shows "tq_content (snd (tq_run m (rounds (length (tq_completed q)) (length (tq_content q))) q)) = []"
  using inv_new [OF assms(1)] tq_inv_run [of q0 m es] assms(2,3)
  by (intro rounds_drain) simp_all

theorem terminal_output_drains_witness:
  "\<exists>k. tq_content (snd (tq_run 2 (rounds 0 k) (snd (tq_run 2 [EvOutput [97, 98, 99]] sample_queue)))) = []"
  using terminal_output_drains [OF sample_queue_new refl, of "[EvOutput [97, 98, 99]]"]
  by (auto simp: tq_enqueue_def scheduleNext_def sample_queue_def Let_def)

text \<open>A batch never cuts a surrogate pair in two: if no chunk waiting ends in a high surrogate,
  the last character of the batch and the first that stays behind are not the halves of a pair,
  and what stays behind has no chunk that ends in a high surrogate either.\<close>

theorem batch_keeps_surrogate_pairs:
  assumes "whole_chunks (drop (tq_chunkIndex q) (tq_chunks q))"
  shows "pair_safe (fst (takeBatch m q)) (tq_content (snd (takeBatch m q)))
    \<and> whole_chunks (drop (tq_chunkIndex (snd (takeBatch m q))) (tq_chunks (snd (takeBatch m q))))"
  using takeBatch_safe [OF assms, of m "fst (takeBatch m q)" "snd (takeBatch m q)"] by simp

theorem batch_keeps_surrogate_pairs_witness:
  "pair_safe (fst (takeBatch 2 (tq_enqueue [97, 0xd83d, 0xde00] sample_queue)))
     (tq_content (snd (takeBatch 2 (tq_enqueue [97, 0xd83d, 0xde00] sample_queue))))"
  using batch_keeps_surrogate_pairs [of "tq_enqueue [97, 0xd83d, 0xde00] sample_queue" 2]
  by (simp add: tq_enqueue_def sample_queue_def whole_chunks_def high_surrogate_def)

text \<open>C30. At most one write is outstanding, a second acknowledgement of the same write changes
  nothing, and once a write or its observer has thrown, or the queue was disposed, nothing is
  ever written again and nothing waits.\<close>

theorem one_write_and_silent_after_failure:
  assumes "new_TerminalOutputQueue n = Some (m, q0)" "q = snd (tq_run m es q0)"
  shows "count_list (tq_completed q) False = of_bool (tq_writing q)
    \<and> (\<forall>k<length (tq_completed q). tq_completed q ! k \<longrightarrow> onParsed k q = q)
    \<and> (tq_disposed q \<longrightarrow> tq_content q = [] \<and> fst (tq_run m es' q) = [])
    \<and> tq_disposed (tq_dispose q)
    \<and> (tq_scheduled q \<longrightarrow> tq_disposed (snd (tq_frame m WriteThrows q)))"
proof -
  have inv: "tq_inv q" using inv_new [OF assms(1)] tq_inv_run [of q0 m es] assms(2) by simp
  then obtain j where "tq_completed q = replicate j True @ (if tq_writing q then [False] else [])"
    by (auto simp: tq_inv_def tq_control_def tq_flags_def)
  then have "count_list (tq_completed q) False = of_bool (tq_writing q)"
    by (simp add: count_list_append)
  moreover have "tq_disposed q \<longrightarrow> tq_content q = [] \<and> fst (tq_run m es' q) = []"
    using inv run_disposed [of q m es'] by (auto simp: tq_inv_def tq_control_def tq_data_def)
  moreover have "tq_scheduled q \<longrightarrow> tq_disposed (snd (tq_frame m WriteThrows q))"
    using frame_cases(7) [OF inv, of m "fst (takeBatch m (q\<lparr>tq_scheduled := False\<rparr>))"
        "snd (takeBatch m (q\<lparr>tq_scheduled := False\<rparr>))" WriteThrows] by simp
  ultimately show ?thesis by (simp add: onParsed_def tq_dispose_def tq_clear_def)
qed

theorem one_write_and_silent_after_failure_witness:
  "tq_disposed (snd (tq_frame 2 WriteThrows (snd (tq_run 2 [EvOutput [97]] sample_queue))))"
  using one_write_and_silent_after_failure [OF sample_queue_new refl, of "[EvOutput [97]]" "[]"]
  by (simp add: tq_enqueue_def scheduleNext_def sample_queue_def Let_def)

end
