(* ===== verification/Js_Bytes.thy ===== *)
theory Js_Bytes
  imports Js_Base "HOL-Library.Word"
begin

text \<open>
  Bytes: the elements of an \<open>Uint8Array\<close> are words of eight bits. \<open>TextEncoder\<close> of the language's
  environment writes UTF-8, with U+FFFD for a lone surrogate; \<open>set\<close>, \<open>toString(8)\<close> and
  \<open>padStart\<close>, and the lemmas on reading a field of a block after another field was written.
\<close>

type_synonym byte = "8 word"

section \<open>UTF-8\<close>

definition point_value :: "jsstr \<Rightarrow> nat" where
  "point_value p =
     (case p of
        [a, b] \<Rightarrow> 0x10000 + (a - 0xd800) * 0x400 + (b - 0xdc00)
      | [a] \<Rightarrow> if high_surrogate a \<or> low_surrogate a then 0xfffd else a
      | _ \<Rightarrow> 0)"

definition utf8_units :: "nat \<Rightarrow> nat list" where
  "utf8_units v =
     (if v < 0x80 then [v]
      else if v < 0x800 then [192 + v div 64, 128 + v mod 64]
      else if v < 0x10000 then [224 + v div 4096, 128 + v div 64 mod 64, 128 + v mod 64]
      else [240 + v div 262144, 128 + v div 4096 mod 64, 128 + v div 64 mod 64, 128 + v mod 64])"

definition utf8 :: "jsstr \<Rightarrow> byte list" where
  "utf8 s = map of_nat (concat (map (\<lambda>p. utf8_units (point_value p)) (code_points s)))"

definition code_units :: "jsstr \<Rightarrow> bool" where
  "code_units s \<longleftrightarrow> (\<forall>c\<in>set s. c < 0x10000)"

lemma point_value_bound: "code_units s \<Longrightarrow> p \<in> set (code_points s) \<Longrightarrow> point_value p < 0x110000"
proof (induction s rule: code_points.induct)
  case (1 a b s)
  then show ?case
    by (auto simp: code_units_def point_value_def high_surrogate_def low_surrogate_def split: if_splits)
qed (auto simp: code_units_def point_value_def)

lemma point_value_zero: "p \<in> set (code_points s) \<Longrightarrow> point_value p = 0 \<Longrightarrow> 0 \<in> set s"
proof (induction s rule: code_points.induct)
  case (1 a b s)
  then show ?case by (auto simp: point_value_def split: if_splits)
qed (auto simp: point_value_def split: if_splits)

lemma utf8_units_range:
  assumes "v < 0x110000" "v \<noteq> 0" "b \<in> set (utf8_units v)"
  shows "0 < b \<and> b < 256"
proof -
  have "v div 262144 \<le> 4" using assms(1) by simp
  moreover have "v div 4096 < 16" if "v < 0x10000" using that by (simp add: less_mult_imp_div_less)
  moreover have "v div 64 < 32" if "v < 0x800" using that by (simp add: less_mult_imp_div_less)
  moreover have "x mod 64 < 64" for x :: nat by simp
  ultimately show ?thesis using assms(2,3)
    by (auto simp: utf8_units_def split: if_splits)
qed

lemma utf8_no_zero:
  assumes "code_units s" "0 \<notin> set s"
  shows "0 \<notin> set (utf8 s)"
proof
  assume "0 \<in> set (utf8 s)"
  then obtain p b where p: "p \<in> set (code_points s)" "b \<in> set (utf8_units (point_value p))" "(of_nat b :: byte) = 0"
    by (auto simp: utf8_def)
  have "point_value p \<noteq> 0" using point_value_zero [OF p(1)] assms(2) by blast
  with utf8_units_range [OF point_value_bound [OF assms(1) p(1)] _ p(2)] have "0 < b" "b < 256" by auto
  with p(3) show False by (simp add: word_of_nat_eq_0_iff nat_dvd_not_less)
qed

lemma utf8_Nil [simp]: "utf8 [] = []"
  by (simp add: utf8_def)

section \<open>Numerals\<close>

fun oct_digits :: "nat \<Rightarrow> jsstr" where
  "oct_digits n = (if n < 8 then [48 + n] else oct_digits (n div 8) @ [48 + n mod 8])"

declare oct_digits.simps [simp del]

definition pad_start :: "nat \<Rightarrow> nat \<Rightarrow> jsstr \<Rightarrow> jsstr" where
  "pad_start n c s = replicate (n - length s) c @ s"

definition oct_value :: "nat list \<Rightarrow> nat" where
  "oct_value s = foldl (\<lambda>n c. 8 * n + (c - 48)) 0 s"

lemma oct_value_snoc [simp]: "oct_value (s @ [c]) = 8 * oct_value s + (c - 48)"
  by (simp add: oct_value_def)

lemma oct_value_zeros [simp]: "oct_value (replicate k 48 @ s) = oct_value s"
  by (induction k) (simp_all add: oct_value_def)

lemma oct_value_digits [simp]: "oct_value (oct_digits n) = n"
proof (induction n rule: oct_digits.induct)
  case (1 n)
  then show ?case by (subst oct_digits.simps) (auto simp: oct_value_def [of "[_]"])
qed

lemma oct_digits_range: "c \<in> set (oct_digits n) \<Longrightarrow> 48 \<le> c \<and> c \<le> 55"
proof (induction n rule: oct_digits.induct)
  case (1 n)
  have "n mod 8 < 8" by simp
  with 1 show ?case by (subst (asm) oct_digits.simps) (auto split: if_splits)
qed

lemma length_oct_digits: "n < 8 ^ k \<Longrightarrow> 0 < k \<Longrightarrow> length (oct_digits n) \<le> k"
proof (induction n arbitrary: k rule: oct_digits.induct)
  case (1 n)
  show ?case
  proof (cases "n < 8")
    case False
    with 1(2,3) obtain j where k: "k = Suc j" "0 < j" by (cases k; cases "k - 1") auto
    then have "n div 8 < 8 ^ j" using 1(2) by (simp add: less_mult_imp_div_less mult.commute)
    from 1(1) [OF False this k(2)] show ?thesis using False k(1) by (subst oct_digits.simps) simp
  qed (use 1(3) in \<open>subst oct_digits.simps, simp\<close>)
qed

section \<open>Blocks of bytes\<close>

text \<open>\<open>block.set(bytes, offset)\<close>; it throws when the bytes do not fit, which no caller does.\<close>

definition set_at :: "nat \<Rightarrow> byte list \<Rightarrow> byte list \<Rightarrow> byte list" where
  "set_at offset bytes block = take offset block @ bytes @ drop (offset + length bytes) block"

definition field :: "nat \<Rightarrow> nat \<Rightarrow> byte list \<Rightarrow> byte list" where
  "field offset n block = take n (drop offset block)"

lemma length_set_at [simp]: "offset + length bytes \<le> length block \<Longrightarrow> length (set_at offset bytes block) = length block"
  by (simp add: set_at_def)

lemma field_set_at_before [simp]:
  "a + n \<le> offset \<Longrightarrow> offset + length bytes \<le> length block \<Longrightarrow> field a n (set_at offset bytes block) = field a n block"
  by (simp add: field_def set_at_def take_drop min_def)

lemma field_set_at_after [simp]:
  "offset + length bytes \<le> a \<Longrightarrow> offset + length bytes \<le> length block \<Longrightarrow> field a n (set_at offset bytes block) = field a n block"
  by (simp add: field_def set_at_def)

lemma field_set_at [simp]:
  "length bytes \<le> n \<Longrightarrow> offset + length bytes \<le> length block \<Longrightarrow>
     field offset n (set_at offset bytes block) = bytes @ field (offset + length bytes) (n - length bytes) block"
  by (simp add: field_def set_at_def)

lemma field_replicate [simp]: "a + n \<le> m \<Longrightarrow> field a n (replicate m b) = replicate n b"
  by (simp add: field_def min_def)

lemma field_empty [simp]: "field a 0 block = []"
  by (simp add: field_def)

end
