(* ===== verification/Remote_Paths.thy ===== *)
theory Remote_Paths
  imports Js_Sort
begin

text \<open>
  Remote paths, directory listings and file names: \<open>src/features/files/remoteFilePaths.ts\<close>,
  the entry types of \<open>remoteFileTypes.ts\<close> and \<open>src/shared/remoteFiles/fileNames.ts\<close>.
  A slash is code unit 47, a backslash 92, a dot 46.
\<close>

section \<open>Paths\<close>

text \<open>\<open>replace(/\/+/g, "/")\<close>.\<close>

fun collapse_slashes :: "jsstr \<Rightarrow> jsstr" where
  "collapse_slashes (a # b # s) =
     (if a = 47 \<and> b = 47 then collapse_slashes (b # s) else a # collapse_slashes (b # s))"
| "collapse_slashes s = s"

text \<open>\<open>replace(/\/$/, "")\<close>.\<close>

definition strip_last_slash :: "jsstr \<Rightarrow> jsstr" where
  "strip_last_slash s = (if s \<noteq> [] \<and> last s = 47 then butlast s else s)"

definition normalizeRemotePath :: "jsstr option \<Rightarrow> jsstr" where
  "normalizeRemotePath path =
     (let normalized = collapse_slashes (replace_unit 92 47 (js_trim (opt_str_or path (js ''/''))))
      in if normalized = [] then js ''/''
         else if normalized = js ''/'' then js ''/''
         else strip_last_slash normalized)"

text \<open>\<open>slice(0, lastIndexOf)\<close>: \<open>None\<close> is -1, and \<open>slice(0, -1)\<close> drops the last code unit.\<close>

definition remotePathParent :: "jsstr option \<Rightarrow> jsstr" where
  "remotePathParent path =
     (let p = normalizeRemotePath path
      in if p = js ''/'' then js ''/''
         else str_or (case last_index_unit 47 p of None \<Rightarrow> butlast p | Some i \<Rightarrow> take i p) (js ''/''))"

definition path_segments :: "jsstr \<Rightarrow> jsstr list" where
  "path_segments p = filter (\<lambda>s. s \<noteq> []) (js_split 47 p)"

definition remotePathAncestors :: "jsstr option \<Rightarrow> jsstr list" where
  "remotePathAncestors path =
     (let p = normalizeRemotePath path
      in if p = js ''/'' then []
         else (let segments = path_segments p
               in map (\<lambda>index. if index = 0 then js ''/'' else js ''/'' @ js_join (js ''/'') (take index segments))
                    [0..<length segments]))"

definition isRemotePathStrictDescendant :: "jsstr option \<Rightarrow> jsstr option \<Rightarrow> bool" where
  "isRemotePathStrictDescendant path ancestor =
     (let p = normalizeRemotePath path; a = normalizeRemotePath ancestor
      in if p = a then False
         else if a = js ''/'' then p \<noteq> js ''/''
         else prefix (a @ js ''/'') p)"

definition shouldShowRemoteDirectoryEmptyRow :: "nat \<Rightarrow> bool \<Rightarrow> bool \<Rightarrow> bool" where
  "shouldShowRemoteDirectoryEmptyRow childCount loaded loading \<longleftrightarrow> loaded \<and> \<not> loading \<and> childCount = 0"

section \<open>Entries\<close>

datatype remote_file_kind = KindDirectory | KindFile | KindSymlink | KindOther

record remote_entry =
  re_name :: jsstr
  re_path :: jsstr
  re_type :: remote_file_kind

definition remoteFileRank :: "remote_file_kind \<Rightarrow> nat" where
  "remoteFileRank kind =
     (if kind = KindDirectory then 0 else if kind = KindSymlink then 1 else if kind = KindFile then 2 else 3)"

text \<open>The kinds ordered by their rank.\<close>

instantiation remote_file_kind :: linorder
begin

definition less_eq_remote_file_kind :: "remote_file_kind \<Rightarrow> remote_file_kind \<Rightarrow> bool" where
  "less_eq_remote_file_kind a b \<longleftrightarrow> remoteFileRank a \<le> remoteFileRank b"

definition less_remote_file_kind :: "remote_file_kind \<Rightarrow> remote_file_kind \<Rightarrow> bool" where
  "less_remote_file_kind a b \<longleftrightarrow> remoteFileRank a < remoteFileRank b"

instance
proof
  fix a b c :: remote_file_kind
  show "a \<le> b \<Longrightarrow> b \<le> a \<Longrightarrow> a = b"
    by (cases a; cases b) (simp_all add: less_eq_remote_file_kind_def remoteFileRank_def)
qed (auto simp: less_eq_remote_file_kind_def less_remote_file_kind_def)

end

text \<open>
  \<open>base a b\<close> and \<open>full a b\<close> say that \<open>a.localeCompare(b)\<close> is positive, with and without base
  sensitivity: the collation of the engine's locale is a parameter.
\<close>

definition remote_entry_gt ::
  "(jsstr \<Rightarrow> jsstr \<Rightarrow> bool) \<Rightarrow> (jsstr \<Rightarrow> jsstr \<Rightarrow> bool) \<Rightarrow> remote_entry \<Rightarrow> remote_entry \<Rightarrow> bool" where
  "remote_entry_gt base full =
     lex_gt (key_gt (\<lambda>e. remoteFileRank (re_type e)))
       (lex_gt (\<lambda>a b. base (re_name a) (re_name b)) (\<lambda>a b. full (re_name a) (re_name b)))"

definition sortRemoteFileEntries ::
  "(jsstr \<Rightarrow> jsstr \<Rightarrow> bool) \<Rightarrow> (jsstr \<Rightarrow> jsstr \<Rightarrow> bool) \<Rightarrow> remote_entry list \<Rightarrow> remote_entry list" where
  "sortRemoteFileEntries base full entries = js_sort (remote_entry_gt base full) entries"

text \<open>The rank alone is a consistent comparator, the first key of the sort.\<close>

interpretation by_rank: js_comparator "key_gt (\<lambda>e. remoteFileRank (re_type e))"
  by (rule js_comparator_key)

lemma remote_entry_comparator:
  assumes "js_comparator base" "js_comparator full"
  shows "js_comparator (remote_entry_gt base full)"
  unfolding remote_entry_gt_def
proof (rule js_comparator_lex [OF js_comparator_key], rule js_comparator_lex)
  show "js_comparator (\<lambda>a b. base (re_name a) (re_name b))" "js_comparator (\<lambda>a b. full (re_name a) (re_name b))"
    using assms unfolding js_comparator_def by blast+
qed

section \<open>File names\<close>

definition remoteFileNameFromPath :: "jsstr \<Rightarrow> jsstr" where
  "remoteFileNameFromPath path =
     (case rev (path_segments path) of
        s # _ \<Rightarrow> str_or (str_or s path) (js ''untitled'')
      | [] \<Rightarrow> str_or path (js ''untitled''))"

definition remoteFileExtension :: "jsstr \<Rightarrow> jsstr" where
  "remoteFileExtension fileName =
     (let parts = js_split 46 (js_lower fileName) in if 1 < length parts then last parts else [])"

definition isDockerfileName :: "jsstr \<Rightarrow> bool" where
  "isDockerfileName fileName =
     (let n = js_lower (remoteFileNameFromPath fileName)
      in n = js ''dockerfile'' \<or> suffix (js ''.dockerfile'') n)"

section \<open>Lemmas on normal paths\<close>

text \<open>No backslash, no two slashes in a row, and no slash at the end except for the root.\<close>

fun no_double :: "jsstr \<Rightarrow> bool" where
  "no_double (a # b # s) \<longleftrightarrow> \<not> (a = 47 \<and> b = 47) \<and> no_double (b # s)"
| "no_double _ \<longleftrightarrow> True"

definition canonical :: "jsstr \<Rightarrow> bool" where
  "canonical p \<longleftrightarrow> p \<noteq> [] \<and> 92 \<notin> set p \<and> no_double p \<and> (p = [47] \<or> last p \<noteq> 47)"

lemma js_slash [simp]: "js ''/'' = [47]"
  by (simp add: js_def)

lemma collapse_head [simp]: "collapse_slashes s = [] \<longleftrightarrow> s = []" "s \<noteq> [] \<Longrightarrow> hd (collapse_slashes s) = hd s"
  by (induction s rule: collapse_slashes.induct) auto

lemma set_collapse: "set (collapse_slashes s) = set s"
  by (induction s rule: collapse_slashes.induct) auto

lemma last_collapse: "s \<noteq> [] \<Longrightarrow> last (collapse_slashes s) = last s"
  by (induction s rule: collapse_slashes.induct) auto

lemma no_double_Cons: "no_double (a # s) \<longleftrightarrow> \<not> (a = 47 \<and> s \<noteq> [] \<and> hd s = 47) \<and> no_double s"
  by (cases s) auto

lemma no_double_collapse: "no_double (collapse_slashes s)"
  by (induction s rule: collapse_slashes.induct) (auto simp: no_double_Cons)

lemma collapse_id: "no_double s \<Longrightarrow> collapse_slashes s = s"
  by (induction s rule: collapse_slashes.induct) auto

lemma no_double_butlast: "no_double s \<Longrightarrow> no_double (butlast s)"
  by (induction s rule: no_double.induct) (auto simp: no_double_Cons)

lemma no_double_two_last: "no_double s \<Longrightarrow> last s = 47 \<Longrightarrow> butlast s \<noteq> [] \<Longrightarrow> last (butlast s) \<noteq> 47"
  by (induction s rule: no_double.induct) (auto split: if_splits)

definition cleaned_path :: "jsstr option \<Rightarrow> jsstr" where
  "cleaned_path path = collapse_slashes (replace_unit 92 47 (js_trim (opt_str_or path [47])))"

lemma normalize_cleaned:
  "normalizeRemotePath path
     = (if cleaned_path path = [] \<or> cleaned_path path = [47] then [47] else strip_last_slash (cleaned_path path))"
  by (simp add: normalizeRemotePath_def Let_def cleaned_path_def)

lemma cleaned_path_clean: "no_double (cleaned_path path)" "92 \<notin> set (cleaned_path path)"
  by (auto simp: cleaned_path_def no_double_collapse set_collapse replace_unit_def)

lemma canonical_strip:
  assumes "no_double n" "92 \<notin> set n" "n \<noteq> []" "n \<noteq> [47]"
  shows "canonical (strip_last_slash n)"
proof (cases "last n = 47")
  case True
  then have "butlast n \<noteq> []" using assms by (cases n rule: rev_cases) auto
  with True assms no_double_two_last [OF assms(1) True] show ?thesis
    by (auto simp: strip_last_slash_def canonical_def no_double_butlast dest: in_set_butlastD)
qed (use assms in \<open>auto simp: strip_last_slash_def canonical_def\<close>)

lemma canonical_normalize: "canonical (normalizeRemotePath path)"
  using canonical_strip [OF cleaned_path_clean] by (simp add: normalize_cleaned canonical_def [of "[47]"])

lemma normalize_id:
  assumes "canonical p" "\<not> is_ws (hd p)" "\<not> is_ws (last p)"
  shows "normalizeRemotePath (Some p) = p"
proof -
  have "cleaned_path (Some p) = p"
    using assms by (simp add: cleaned_path_def canonical_def opt_str_or_def str_or_def js_trim_id replace_unit_id collapse_id)
  with assms(1) show ?thesis
    by (auto simp: normalize_cleaned strip_last_slash_def canonical_def)
qed

section \<open>Segments of an absolute path\<close>

definition absolute :: "jsstr \<Rightarrow> bool" where
  "absolute p \<longleftrightarrow> p \<noteq> [] \<and> hd p = 47"

lemma split_head: "hd (js_split 47 s) = [] \<longleftrightarrow> s = [] \<or> hd s = 47"
  by (cases s) (auto split: list.splits)

lemma split_tail:
  "no_double s \<Longrightarrow> s \<noteq> [] \<Longrightarrow> last s \<noteq> 47 \<Longrightarrow> [] \<notin> set (tl (js_split 47 s))"
proof (induction s)
  case (Cons a s)
  show ?case
  proof (cases "s = []")
    case False
    with Cons have "[] \<notin> set (tl (js_split 47 s))" by (simp add: no_double_Cons)
    moreover have "hd (js_split 47 s) = [] \<longleftrightarrow> hd s = 47" using split_head [of s] False by simp
    ultimately show ?thesis
      using Cons.prems(1) False by (cases "js_split 47 s") (auto simp: no_double_Cons)
  qed (use Cons.prems in simp)
qed simp

lemma canonical_absolute:
  assumes "canonical p" "absolute p" "p \<noteq> [47]"
  shows "js_split 47 p = [] # path_segments p" "path_segments p \<noteq> []" "p = 47 # js_join [47] (path_segments p)"
proof -
  have h: "hd (js_split 47 p) = []" using assms(2) split_head [of p] by (simp add: absolute_def)
  have t: "[] \<notin> set (tl (js_split 47 p))" using assms split_tail [of p] by (simp add: canonical_def)
  obtain segs where segs: "js_split 47 p = [] # segs" using h by (cases "js_split 47 p") auto
  with t have f: "path_segments p = segs" by (auto simp: path_segments_def intro!: filter_True)
  then show "js_split 47 p = [] # path_segments p" using segs by simp
  have j: "js_join [47] ([] # segs) = p" using js_join_split [of 47 p] segs by simp
  with assms have "segs \<noteq> []" by (auto simp: canonical_def)
  then show "path_segments p \<noteq> []" "p = 47 # js_join [47] (path_segments p)"
    using j f by (simp_all add: js_join_Cons)
qed

lemma segments_no_slash: "s \<in> set (path_segments p) \<Longrightarrow> 47 \<notin> set s \<and> s \<noteq> []"
  by (auto simp: path_segments_def dest: js_split_no_sep)

lemma segments_join:
  "\<forall>s\<in>set segs. 47 \<notin> set s \<and> s \<noteq> [] \<Longrightarrow> path_segments (47 # js_join [47] segs) = segs"
  by (cases "segs = []") (auto simp: path_segments_def js_split_join intro!: filter_True)

text \<open>The absolute path with the given segments, and its canonicity.\<close>

definition path_of :: "jsstr list \<Rightarrow> jsstr" where
  "path_of segs = 47 # js_join [47] segs"

definition good_segments :: "jsstr list \<Rightarrow> bool" where
  "good_segments segs \<longleftrightarrow> (\<forall>s\<in>set segs. 47 \<notin> set s \<and> 92 \<notin> set s \<and> s \<noteq> [] \<and> \<not> is_ws (last s))"

lemma join_last: "segs \<noteq> [] \<Longrightarrow> last segs \<noteq> [] \<Longrightarrow> js_join [47] segs \<noteq> [] \<and> last (js_join [47] segs) = last (last segs)"
proof (induction segs)
  case (Cons a segs)
  then show ?case by (cases segs) (auto simp: js_join_Cons)
qed simp

lemma no_double_append: "47 \<notin> set s \<Longrightarrow> s \<noteq> [] \<Longrightarrow> no_double (s @ t) = no_double t"
proof (induction s)
  case (Cons a s)
  then show ?case by (cases s) (auto simp: no_double_Cons)
qed simp

lemma no_double_path: "\<forall>s\<in>set segs. 47 \<notin> set s \<and> s \<noteq> [] \<Longrightarrow> no_double (path_of segs)"
proof (induction segs)
  case (Cons a segs)
  have "hd a \<noteq> 47" using Cons.prems by (cases a) auto
  with Cons show ?case
    by (cases segs) (auto simp: path_of_def no_double_Cons no_double_append [of a "[]", simplified] no_double_append)
qed (simp add: path_of_def)

lemma set_js_join: "set (js_join sep ws) \<subseteq> set sep \<union> (\<Union>w\<in>set ws. set w)"
  by (induction sep ws rule: js_join.induct) auto

lemma path_of_normal:
  assumes "good_segments segs" shows "normalizeRemotePath (Some (path_of segs)) = path_of segs"
proof (cases "segs = []")
  case False
  have g: "\<forall>s\<in>set segs. 47 \<notin> set s \<and> s \<noteq> []" "last segs \<noteq> []" "47 \<notin> set (last segs)" "\<not> is_ws (last (last segs))"
    using assms False by (auto simp: good_segments_def)
  have l: "js_join [47] segs \<noteq> []" "last (js_join [47] segs) = last (last segs)"
    using join_last [OF False g(2)] by simp_all
  have "last (last segs) \<noteq> 47" using g(2,3) last_in_set by metis
  moreover have "92 \<notin> set (js_join [47] segs)"
    using assms set_js_join [of "[47]" segs] by (auto simp: good_segments_def)
  ultimately have "canonical (path_of segs)"
    using no_double_path [OF g(1)] l by (simp add: canonical_def path_of_def)
  then show ?thesis
    by (rule normalize_id) (use l g(4) in \<open>simp_all add: path_of_def is_ws_def\<close>)
qed (simp add: path_of_def normalize_cleaned cleaned_path_def opt_str_or_def str_or_def js_trim_id replace_unit_def is_ws_def)

lemma segments_path_of: "good_segments segs \<Longrightarrow> path_segments (path_of segs) = segs"
  unfolding path_of_def by (rule segments_join) (simp add: good_segments_def)

lemma path_of_root [simp]: "good_segments segs \<Longrightarrow> path_of segs = [47] \<longleftrightarrow> segs = []"
  using join_last [of segs] by (cases "segs = []") (auto simp: path_of_def good_segments_def)

lemma good_take: "good_segments segs \<Longrightarrow> good_segments (take k segs)"
  by (auto simp: good_segments_def dest: in_set_takeD)

lemma path_of_inject: "good_segments a \<Longrightarrow> good_segments b \<Longrightarrow> path_of a = path_of b \<longleftrightarrow> a = b"
  using segments_path_of by metis

lemma join_append: "a \<noteq> [] \<Longrightarrow> b \<noteq> [] \<Longrightarrow> js_join [47] (a @ b) = js_join [47] a @ 47 # js_join [47] b"
proof (induction a)
  case (Cons x a)
  then show ?case by (cases a) (auto simp: js_join_Cons)
qed simp

text \<open>Strict descent is proper extension of the list of segments.\<close>

lemma prefix_path_of:
  assumes "good_segments a" "good_segments b" "a \<noteq> []"
  shows "prefix (path_of a @ [47]) (path_of b) \<longleftrightarrow> (\<exists>c. c \<noteq> [] \<and> b = a @ c)"
proof
  assume "prefix (path_of a @ [47]) (path_of b)"
  then obtain t where t: "path_of b = path_of a @ 47 # t" by (auto simp: prefix_def)
  have "js_split 47 (path_of b) = js_split 47 (path_of a) @ js_split 47 t"
    unfolding t by (rule js_split_append_sep)
  then have "path_segments (path_of b) = path_segments (path_of a) @ path_segments t"
    by (simp add: path_segments_def)
  then have b: "b = a @ path_segments t" using assms by (simp add: segments_path_of)
  moreover have "path_segments t \<noteq> []"
    using b t assms path_of_inject by fastforce
  ultimately show "\<exists>c. c \<noteq> [] \<and> b = a @ c" by blast
next
  assume "\<exists>c. c \<noteq> [] \<and> b = a @ c"
  then show "prefix (path_of a @ [47]) (path_of b)"
    using assms(3) by (auto simp: path_of_def join_append)
qed

lemma strict_descendant_segments:
  assumes "good_segments a" "good_segments b"
  shows "isRemotePathStrictDescendant (Some (path_of b)) (Some (path_of a)) \<longleftrightarrow> (\<exists>c. c \<noteq> [] \<and> b = a @ c)"
proof (cases "a = []")
  case True
  then show ?thesis
    using assms path_of_root [of b]
    by (auto simp: isRemotePathStrictDescendant_def path_of_normal path_of_inject Let_def)
next
  case False
  then show ?thesis
    using assms path_of_root [of a] prefix_path_of [OF assms False] path_of_inject [OF assms]
    by (auto simp: isRemotePathStrictDescendant_def path_of_normal Let_def)
qed

lemma ancestors_path_of:
  assumes "good_segments segs"
  shows "remotePathAncestors (Some (path_of segs)) = map (\<lambda>k. path_of (take k segs)) [0..<length segs]"
  using assms
  by (auto simp: remotePathAncestors_def path_of_normal segments_path_of Let_def) (auto simp: path_of_def)

lemma last_index_append: "47 \<notin> set s \<Longrightarrow> last_index_unit 47 (p @ 47 # s) = Some (length p)"
proof -
  assume s: "47 \<notin> set s"
  have "takeWhile (\<lambda>x. x \<noteq> 47) (rev s @ 47 # rev p) = rev s"
    by (subst takeWhile_append2) (use s in auto)
  then show ?thesis by (simp add: last_index_unit_def)
qed

lemma parent_path_of:
  assumes "good_segments segs" "segs \<noteq> []"
  shows "remotePathParent (Some (path_of segs)) = path_of (butlast segs)"
proof -
  obtain init s where segs: "segs = init @ [s]" using assms(2) by (cases segs rule: rev_cases) auto
  have s: "47 \<notin> set s" using assms(1) segs by (simp add: good_segments_def)
  have ni: "normalizeRemotePath (Some (path_of segs)) = path_of segs" "path_of segs \<noteq> [47]"
    using assms path_of_root by (auto simp: path_of_normal)
  show ?thesis
  proof (cases "init = []")
    case True
    then have "path_of segs = [] @ 47 # s" by (simp add: segs path_of_def)
    then have "last_index_unit 47 (path_of segs) = Some 0" using last_index_append [OF s, of "[]"] by simp
    then show ?thesis using ni True by (simp add: remotePathParent_def str_or_def segs path_of_def [of "[]"])
  next
    case False
    then have p: "path_of segs = path_of init @ 47 # s" by (simp add: segs path_of_def join_append)
    then have "last_index_unit 47 (path_of segs) = Some (length (path_of init))"
      using last_index_append [OF s] by simp
    moreover have "path_of init \<noteq> []" by (simp add: path_of_def)
    ultimately show ?thesis using ni p by (simp add: remotePathParent_def str_or_def segs)
  qed
qed

section \<open>Properties\<close>

text \<open>A normalised remote path is never empty, has no backslash, no doubled slash and no slash
  at the end unless it is the root; and a path of that form that does not begin or end with white
  space is left as it is, so normalising twice is normalising once for it.\<close>

theorem normalized_path_canonical:
  "canonical (normalizeRemotePath path)
    \<and> (\<not> is_ws (hd (normalizeRemotePath path)) \<and> \<not> is_ws (last (normalizeRemotePath path))
        \<longrightarrow> normalizeRemotePath (Some (normalizeRemotePath path)) = normalizeRemotePath path)"
  using canonical_normalize [of path] normalize_id by blast

theorem normalized_path_canonical_witness:
  "normalizeRemotePath (Some (normalizeRemotePath (Some (js ''/a//b/'')))) = normalizeRemotePath (Some (js ''/a//b/''))"
proof -
  have "normalizeRemotePath (Some (js ''/a//b/'')) = js ''/a/b''"
    by (simp add: normalize_cleaned cleaned_path_def js_def opt_str_or_def str_or_def js_trim_id
        replace_unit_def strip_last_slash_def is_ws_def)
  with normalized_path_canonical [of "Some (js ''/a//b/'')"] show ?thesis
    by (simp add: js_def is_ws_def)
qed

text \<open>C32. The ancestors of an absolute path are the paths of the proper prefixes of its segments,
  from the root down; the last of them is its parent, and they are exactly the paths it is a
  strict descendant of.\<close>

theorem ancestors_and_parent:
  assumes "good_segments segs" "segs \<noteq> []"
  shows "remotePathAncestors (Some (path_of segs)) = map (\<lambda>k. path_of (take k segs)) [0..<length segs]
    \<and> remotePathParent (Some (path_of segs)) = last (remotePathAncestors (Some (path_of segs)))
    \<and> (\<forall>a. good_segments a \<longrightarrow>
         (isRemotePathStrictDescendant (Some (path_of segs)) (Some (path_of a))
            \<longleftrightarrow> path_of a \<in> set (remotePathAncestors (Some (path_of segs)))))"
proof (intro conjI allI impI)
  show anc: "remotePathAncestors (Some (path_of segs)) = map (\<lambda>k. path_of (take k segs)) [0..<length segs]"
    by (rule ancestors_path_of) (rule assms)
  show "remotePathParent (Some (path_of segs)) = last (remotePathAncestors (Some (path_of segs)))"
    using assms by (simp add: anc parent_path_of last_map butlast_conv_take)
  fix a assume a: "good_segments a"
  have "(\<exists>c. c \<noteq> [] \<and> segs = a @ c) \<longleftrightarrow> (\<exists>k<length segs. a = take k segs)"
    by (auto intro: exI [of _ "length a"] exI [of _ "drop _ segs"])
      (metis append_take_drop_id drop_eq_Nil linorder_not_le)
  then show "isRemotePathStrictDescendant (Some (path_of segs)) (Some (path_of a))
            \<longleftrightarrow> path_of a \<in> set (remotePathAncestors (Some (path_of segs)))"
    unfolding strict_descendant_segments [OF a assms(1)]
  proof (rule trans)
    have "(path_of a = path_of (take k segs)) = (a = take k segs)" for k
      by (rule path_of_inject [OF a good_take [OF assms(1)]])
    then show "(\<exists>k<length segs. a = take k segs) \<longleftrightarrow> path_of a \<in> set (remotePathAncestors (Some (path_of segs)))"
      unfolding anc by (auto simp: image_iff)
  qed
qed

theorem ancestors_and_parent_witness:
  "remotePathAncestors (Some (path_of [js ''a'', js ''b''])) = [path_of [], path_of [js ''a'']]
    \<and> remotePathParent (Some (path_of [js ''a'', js ''b''])) = path_of [js ''a'']"
  using ancestors_and_parent [of "[js ''a'', js ''b'']"]
  by (simp add: good_segments_def js_def is_ws_def upt_rec)

text \<open>A directory listing is sorted into a permutation of itself, directories first, then links,
  then files, then the rest, each group by name; entries the comparison cannot tell apart keep
  their order, and sorting a sorted listing changes nothing.\<close>

theorem listing_sorted:
  assumes "js_comparator base" "js_comparator full"
  shows "mset (sortRemoteFileEntries base full es) = mset es
    \<and> sorted (map re_type (sortRemoteFileEntries base full es))
    \<and> sorted_wrt (\<lambda>a b. \<not> remote_entry_gt base full a b) (sortRemoteFileEntries base full es)
    \<and> filter (js_comparator.tie (remote_entry_gt base full) k) (sortRemoteFileEntries base full es)
        = filter (js_comparator.tie (remote_entry_gt base full) k) es
    \<and> sortRemoteFileEntries base full (sortRemoteFileEntries base full es) = sortRemoteFileEntries base full es"
proof -
  note cmp = remote_entry_comparator [OF assms]
  have s: "sorted_wrt (\<lambda>a b. \<not> remote_entry_gt base full a b) (sortRemoteFileEntries base full es)"
    unfolding sortRemoteFileEntries_def by (rule js_comparator.sorted_js_sort [OF cmp])
  have "sorted_wrt (\<lambda>a b. re_type a \<le> re_type b) (sortRemoteFileEntries base full es)"
    by (rule sorted_wrt_mono_rel [OF _ s])
      (auto simp: remote_entry_gt_def lex_gt_def key_gt_def less_eq_remote_file_kind_def)
  then have "sorted (map re_type (sortRemoteFileEntries base full es))"
    by (simp add: sorted_map)
  with s js_comparator.stable_js_sort [OF cmp] js_comparator.js_sort_idem [OF cmp] show ?thesis
    by (simp add: sortRemoteFileEntries_def)
qed

theorem listing_sorted_witness:
  "map re_type (sortRemoteFileEntries (\<lambda>a b. length b < length a) (\<lambda>a b. length b < length a)
      [\<lparr>re_name = [97], re_path = [47, 97], re_type = KindFile\<rparr>,
       \<lparr>re_name = [98], re_path = [47, 98], re_type = KindDirectory\<rparr>]) = [KindDirectory, KindFile]"
proof -
  have c: "js_comparator (\<lambda>a b. length b < length (a :: jsstr))" by unfold_locales auto
  let ?es = "[\<lparr>re_name = [97], re_path = [47, 97], re_type = KindFile\<rparr>,
       \<lparr>re_name = [98], re_path = [47, 98], re_type = KindDirectory\<rparr>] :: remote_entry list"
  let ?s = "sortRemoteFileEntries (\<lambda>a b. length b < length a) (\<lambda>a b. length b < length a) ?es"
  from listing_sorted [OF c c, of ?es] have "sorted (map re_type ?s)" "mset ?s = mset ?es" by blast+
  then have "sorted (map re_type ?s)" "mset (map re_type ?s) = mset [KindDirectory, KindFile]"
    by (simp_all add: add_mset_commute)
  moreover have "sorted [KindDirectory, KindFile]"
    by (simp add: less_eq_remote_file_kind_def remoteFileRank_def)
  ultimately show ?thesis
    using properties_for_sort [of "map re_type ?s" "[KindDirectory, KindFile]"]
      properties_for_sort [OF refl, of "[KindDirectory, KindFile]"] by simp
qed

end
