(* ===== verification/Transfer_Items.thy ===== *)
theory Transfer_Items
  imports Remote_Paths Js_Number
begin

text \<open>
  File transfers: the items of the transfer list (\<open>src/features/files/remoteFileTransferTypes.ts\<close>)
  and the functions that compute their progress and labels (\<open>remoteFileTransferUtils.ts\<close>). The
  current time is an argument \<open>now\<close>, in milliseconds; the shortest decimal of a fraction is the
  argument \<open>fstr\<close>. A browser \<open>File\<close> is named by a number.
\<close>

section \<open>Types\<close>

datatype transfer_direction = DirUpload | DirDownload

datatype transfer_kind = TransferFile | TransferDirectory

datatype transfer_status = StQueued | StRunning | StSuccess | StError | StSkipped | StCanceled

datatype conflict_policy = PolicyAsk | PolicyOverwrite | PolicySkip | PolicyRename

record upload_item =
  ui_file :: nat
  ui_relativePath :: jsstr

record download_input =
  di_connectionId :: jsstr
  di_compress :: "bool option"
  di_conflictPolicy :: "conflict_policy option"
  di_directory :: "bool option"
  di_downloadRoot :: "jsstr option"
  di_groupBySession :: "bool option"
  di_keepArchives :: "bool option"
  di_path :: jsstr
  di_sessionName :: "jsstr option"
  di_timestampDirectory :: "bool option"
  di_timestampName :: "jsstr option"

text \<open>The arguments of each constructor in the order of the type's fields.\<close>

datatype transfer_retry =
    RetryLocalFile jsstr conflict_policy jsstr jsstr
  | RetryLocalDirectory bool jsstr conflict_policy bool jsstr jsstr
  | RetryBrowserFile jsstr conflict_policy upload_item jsstr
  | RetryBrowserDirectory jsstr conflict_policy "upload_item list" bool jsstr jsstr
  | RetryDownload remote_entry download_input

record transfer_item =
  ti_id :: jsstr
  ti_createdAt :: int
  ti_direction :: transfer_direction
  ti_error :: "jsstr option"
  ti_kind :: transfer_kind
  ti_localPath :: "jsstr option"
  ti_name :: jsstr
  ti_progress :: jsnum
  ti_progressDetail :: "jsstr option"
  ti_progressIndeterminate :: bool
  ti_retry :: "transfer_retry option"
  ti_remotePath :: jsstr
  ti_speedText :: "jsstr option"
  ti_stage :: jsstr
  ti_startedAt :: int
  ti_status :: transfer_status

section \<open>Progress\<close>

definition clampTransferProgress :: "jsnum \<Rightarrow> jsnum" where
  "clampTransferProgress p =
     (if \<not> is_finite_num p then Num 0 else num_max (Num 0) (num_min (Num 100) p))"

definition transferProgressPercent :: "jsnum \<Rightarrow> jsnum \<Rightarrow> jsnum" where
  "transferProgressPercent loadedBytes totalBytes =
     (if num_le totalBytes (Num 0) then Num 0
      else num_mul (num_div (num_max (Num 0) loadedBytes) totalBytes) (Num 100))"

definition interpolateTransferProgress :: "jsnum \<Rightarrow> jsnum \<Rightarrow> jsnum \<Rightarrow> jsnum \<Rightarrow> jsnum" where
  "interpolateTransferProgress start endp loadedBytes totalBytes =
     (if num_le totalBytes (Num 0) then endp
      else (let ratio = num_max (Num 0) (num_min (Num 1) (num_div loadedBytes totalBytes))
            in num_add start (num_mul (num_sub endp start) ratio)))"

definition formatFileSize :: "(rat \<Rightarrow> jsstr) \<Rightarrow> jsnum \<Rightarrow> jsstr" where
  "formatFileSize fstr bytes =
     (if num_lt bytes (Num 1024) then num_to_string fstr bytes @ js '' B''
      else if num_lt bytes (Num (1024 * 1024)) then num_to_fixed1 (num_div bytes (Num 1024)) @ js '' KB''
      else if num_lt bytes (Num (1024 * 1024 * 1024)) then
        num_to_fixed1 (num_div (num_div bytes (Num 1024)) (Num 1024)) @ js '' MB''
      else num_to_fixed1 (num_div (num_div (num_div bytes (Num 1024)) (Num 1024)) (Num 1024)) @ js '' GB'')"

definition formatTransferProgressBytes :: "(rat \<Rightarrow> jsstr) \<Rightarrow> jsnum \<Rightarrow> jsnum \<Rightarrow> jsstr" where
  "formatTransferProgressBytes fstr loadedBytes totalBytes =
     (if num_le totalBytes (Num 0) then formatFileSize fstr loadedBytes
      else formatFileSize fstr loadedBytes @ js '' / '' @ formatFileSize fstr totalBytes)"

definition formatTransferSpeed :: "(rat \<Rightarrow> jsstr) \<Rightarrow> jsnum \<Rightarrow> jsstr option" where
  "formatTransferSpeed fstr bytesPerSecond =
     (if \<not> is_finite_num bytesPerSecond \<or> num_le bytesPerSecond (Num 0) then None
      else Some (formatFileSize fstr bytesPerSecond @ js ''/s''))"

definition calculateTransferAverageSpeed :: "int \<Rightarrow> jsnum \<Rightarrow> int \<Rightarrow> jsnum" where
  "calculateTransferAverageSpeed now loadedBytes startedAt =
     (let elapsedSeconds = num_max (Num (1 / 1000)) (Num (of_int (now - startedAt) / 1000))
      in num_max (Num 0) (num_div loadedBytes elapsedSeconds))"

text \<open>The tracker of \<open>createTransferSpeedTracker\<close>: the variables its closure keeps.\<close>

record speed_tracker =
  st_startedAt :: rat
  st_lastSampleAt :: rat
  st_lastLoadedBytes :: rat
  st_lastSpeed :: "rat option"

definition createTransferSpeedTracker :: "rat \<Rightarrow> speed_tracker" where
  "createTransferSpeedTracker now =
     \<lparr>st_startedAt = now, st_lastSampleAt = now, st_lastLoadedBytes = 0, st_lastSpeed = None\<rparr>"

definition tracker_sample ::
  "(rat \<Rightarrow> jsstr) \<Rightarrow> rat \<Rightarrow> rat \<Rightarrow> speed_tracker \<Rightarrow> jsstr option \<times> speed_tracker" where
  "tracker_sample fstr now loadedBytes t =
     (let elapsedMs = now - st_lastSampleAt t;
          totalElapsedMs = now - st_startedAt t;
          t1 = (if 250 \<le> elapsedMs \<or> loadedBytes = 0 \<or> st_lastSpeed t = None then
                  (let deltaBytes = max 0 (loadedBytes - st_lastLoadedBytes t)
                   in t\<lparr>st_lastSpeed := Some (if 0 < elapsedMs then deltaBytes / elapsedMs * 1000
                          else if 0 < totalElapsedMs then loadedBytes / totalElapsedMs * 1000 else 0),
                        st_lastLoadedBytes := loadedBytes, st_lastSampleAt := now\<rparr>)
                else t)
      in (formatTransferSpeed fstr (Num (case st_lastSpeed t1 of Some v \<Rightarrow> v
            | None \<Rightarrow> if 0 < totalElapsedMs then loadedBytes / totalElapsedMs * 1000 else 0)), t1))"

section \<open>Labels\<close>

datatype transfer_file_class = ClassDirectory | ClassArchive | ClassLog | ClassFile

definition transferFileTypeClass :: "transfer_item \<Rightarrow> transfer_file_class" where
  "transferFileTypeClass item =
     (if ti_kind item = TransferDirectory then ClassDirectory
      else (let name = js_lower (ti_name item)
            in if suffix (js ''.tar.gz'') name \<or> suffix (js ''.tgz'') name \<or> suffix (js ''.zip'') name
                 \<or> suffix (js ''.gz'') name \<or> suffix (js ''.7z'') name \<or> suffix (js ''.rar'') name
               then ClassArchive
               else if suffix (js ''.log'') name then ClassLog
               else ClassFile))"

definition transferFileTypeLabel :: "transfer_item \<Rightarrow> jsstr option" where
  "transferFileTypeLabel item =
     (if ti_kind item = TransferDirectory then None
      else (let name = js_lower (ti_name item)
            in if suffix (js ''.tar.gz'') name \<or> suffix (js ''.tgz'') name then Some (js ''TGZ'')
               else if suffix (js ''.zip'') name then Some (js ''ZIP'')
               else if suffix (js ''.gz'') name then Some (js ''GZ'')
               else if suffix (js ''.7z'') name then Some (js ''7Z'')
               else if suffix (js ''.rar'') name then Some (js ''RAR'')
               else if suffix (js ''.log'') name then Some (js ''LOG'')
               else (let extension = (if 46 \<in> set (ti_name item) then last (js_split 46 (ti_name item)) else [])
                     in if 0 < length extension \<and> length extension \<le> 4 then Some (js_upper extension) else None)))"

text \<open>The Chinese labels, as code units.\<close>

definition label_canceled :: jsstr where \<comment> \<open>canceled\<close>
  "label_canceled = [24050, 21462, 28040]"

definition label_wait_remote :: jsstr where \<comment> \<open>waiting for the remote side to confirm\<close>
  "label_wait_remote = [31561, 24453, 36828, 31471, 30830, 35748]"

definition label_compressing :: jsstr where \<comment> \<open>compressing\<close>
  "label_compressing = [21387, 32553, 20013]"

definition label_uploading :: jsstr where \<comment> \<open>uploading\<close>
  "label_uploading = [19978, 20256, 20013]"

definition label_downloading :: jsstr where \<comment> \<open>downloading\<close>
  "label_downloading = [19979, 36733, 20013]"

definition label_archive :: jsstr where \<comment> \<open>archive, with a space\<close>
  "label_archive = [21387, 32553, 21253, 32]"

definition label_directory :: jsstr where \<comment> \<open>directory\<close>
  "label_directory = [30446, 24405]"

definition label_file :: jsstr where \<comment> \<open>file\<close>
  "label_file = [25991, 20214]"

definition label_upload :: jsstr where \<comment> \<open>upload\<close>
  "label_upload = [19978, 20256]"

definition label_download :: jsstr where \<comment> \<open>download\<close>
  "label_download = [19979, 36733]"

definition label_local_chosen :: jsstr where \<comment> \<open>locally chosen file\<close>
  "label_local_chosen = [26412, 22320, 36873, 25321, 30340, 25991, 20214]"

definition label_local_download :: jsstr where \<comment> \<open>local download directory\<close>
  "label_local_download = [26412, 22320, 19979, 36733, 30446, 24405]"

definition label_failed :: jsstr where \<comment> \<open>failed\<close>
  "label_failed = [22833, 36133]"

definition label_waiting :: jsstr where \<comment> \<open>waiting\<close>
  "label_waiting = [31561, 24453]"

definition label_in_progress :: jsstr where \<comment> \<open>in progress\<close>
  "label_in_progress = [36827, 34892, 20013]"

definition label_skipped :: jsstr where \<comment> \<open>skipped\<close>
  "label_skipped = [24050, 36339, 36807]"

definition label_done :: jsstr where \<comment> \<open>done\<close>
  "label_done = [23436, 25104]"

definition label_semicolon :: jsstr where \<comment> \<open>full-width semicolon\<close>
  "label_semicolon = [65307]"

definition label_compress :: jsstr where \<comment> \<open>compress\<close>
  "label_compress = [21387, 32553]"

definition label_pack :: jsstr where \<comment> \<open>pack\<close>
  "label_pack = [25171, 21253]"

definition label_scan :: jsstr where \<comment> \<open>scan\<close>
  "label_scan = [25195, 25551]"

definition label_scanning :: jsstr where \<comment> \<open>scanning\<close>
  "label_scanning = [25195, 25551, 20013]"

definition label_check :: jsstr where \<comment> \<open>check\<close>
  "label_check = [26816, 26597]"

definition label_prepare :: jsstr where \<comment> \<open>prepare\<close>
  "label_prepare = [20934, 22791]"

definition label_preparing :: jsstr where \<comment> \<open>preparing\<close>
  "label_preparing = [20934, 22791, 20013]"

definition label_extract :: jsstr where \<comment> \<open>extract\<close>
  "label_extract = [35299, 21387]"

definition label_extracting :: jsstr where \<comment> \<open>extracting\<close>
  "label_extracting = [35299, 21387, 20013]"

lemmas transfer_labels = label_canceled_def label_wait_remote_def label_compressing_def label_uploading_def
  label_downloading_def label_archive_def label_directory_def label_file_def
  label_upload_def label_download_def label_local_chosen_def label_local_download_def
  label_failed_def label_waiting_def label_in_progress_def label_skipped_def
  label_done_def label_semicolon_def label_compress_def label_pack_def
  label_scan_def label_scanning_def label_check_def label_prepare_def
  label_preparing_def label_extract_def label_extracting_def

definition detail_shown :: "transfer_item \<Rightarrow> jsstr option" where
  "detail_shown item =
     (case ti_progressDetail item of None \<Rightarrow> None
      | Some d \<Rightarrow> if sublist (js '' / '') d \<or> prefix label_archive d then Some d else None)"

definition transferItemSizeText :: "transfer_item \<Rightarrow> jsstr" where
  "transferItemSizeText item =
     (case detail_shown item of
        Some d \<Rightarrow> d
      | None \<Rightarrow> if ti_kind item = TransferDirectory then label_directory else label_file)"

fun transferDirectionLabel :: "transfer_direction \<Rightarrow> jsstr" where
  "transferDirectionLabel DirUpload = label_upload"
| "transferDirectionLabel DirDownload = label_download"

fun transferKindLabel :: "transfer_kind \<Rightarrow> jsstr" where
  "transferKindLabel TransferDirectory = label_directory"
| "transferKindLabel TransferFile = label_file"

definition transferSourcePath :: "transfer_item \<Rightarrow> jsstr" where
  "transferSourcePath item =
     (if ti_direction item = DirUpload then opt_str_or (ti_localPath item) label_local_chosen
      else ti_remotePath item)"

definition transferTargetPath :: "transfer_item \<Rightarrow> jsstr" where
  "transferTargetPath item =
     (if ti_direction item = DirUpload then ti_remotePath item
      else opt_str_or (ti_localPath item) label_local_download)"

fun transferStatusLabel :: "transfer_status \<Rightarrow> jsstr" where
  "transferStatusLabel StCanceled = label_canceled"
| "transferStatusLabel StError = label_failed"
| "transferStatusLabel StQueued = label_waiting"
| "transferStatusLabel StRunning = label_in_progress"
| "transferStatusLabel StSkipped = label_skipped"
| "transferStatusLabel StSuccess = label_done"

text \<open>\<open>split(/\r?\n/)\<close>: a carriage return belongs to the separator after it.\<close>

fun split_lines :: "jsstr \<Rightarrow> jsstr list" where
  "split_lines [] = [[]]"
| "split_lines [c] = (if c = 10 then [[], []] else [[c]])"
| "split_lines (c # d # s) =
     (if c = 10 then [] # split_lines (d # s)
      else if c = 13 \<and> d = 10 then [] # split_lines s
      else (case split_lines (d # s) of [] \<Rightarrow> [[c]] | w # ws \<Rightarrow> (c # w) # ws))"

text \<open>\<open>replace(/^Error:\s*/i, "").trim()\<close>\<close>

definition normalizeErrorText :: "jsstr \<Rightarrow> jsstr" where
  "normalizeErrorText message =
     js_trim (if js_lower (take 6 message) = js ''error:'' then dropWhile is_ws (drop 6 message) else message)"

definition transferInlineErrorText :: "jsstr \<Rightarrow> jsstr" where
  "transferInlineErrorText err =
     js_join label_semicolon (filter (\<lambda>l. l \<noteq> []) (map normalizeErrorText (split_lines err)))"

definition transferDisplayStatusLabel :: "transfer_item \<Rightarrow> jsstr" where
  "transferDisplayStatusLabel item =
     (if ti_status item \<noteq> StRunning \<and> ti_status item \<noteq> StQueued then transferStatusLabel (ti_status item)
      else (let stage = js_trim (ti_stage item)
            in if stage = [] then transferStatusLabel (ti_status item)
               else if sublist label_waiting stage then label_waiting
               else if sublist label_compress stage \<or> sublist label_pack stage \<or> sublist (js ''tar.gz'') stage
                 then label_compressing
               else if sublist label_scan stage then label_scanning
               else if sublist label_check stage \<or> sublist label_prepare stage then label_preparing
               else if sublist label_download stage then label_downloading
               else if sublist label_upload stage then label_uploading
               else if sublist label_extract stage then label_extracting
               else transferStatusLabel (ti_status item)))"

section \<open>Lemmas\<close>

lemma clamp_progress_range:
  obtains q where "clampTransferProgress p = Num q" "0 \<le> q" "q \<le> 100"
proof (rule that)
  show "clampTransferProgress p = Num (case p of Num a \<Rightarrow> max 0 (min 100 a) | _ \<Rightarrow> 0)"
    by (cases p) (auto simp: clampTransferProgress_def is_finite_num_def num_max_def num_min_def max_def min_def)
qed (auto split: jsnum.split)

lemma clamp_progress_not_NaN [simp]: "clampTransferProgress p \<noteq> NaN"
  by (rule clamp_progress_range [of p]) simp

lemma clamp_progress_idem [simp]: "clampTransferProgress (clampTransferProgress p) = clampTransferProgress p"
  by (cases p) (auto simp: clampTransferProgress_def is_finite_num_def num_max_def num_min_def)

lemma interpolate_between:
  assumes "a \<le> b" "0 \<le> l" "0 < t"
  shows "\<exists>q. interpolateTransferProgress (Num a) (Num b) (Num l) (Num t) = Num q \<and> a \<le> q \<and> q \<le> b"
proof -
  define r where "r = max 0 (min 1 (l / t))"
  have r: "0 \<le> r" "r \<le> 1" by (simp_all add: r_def)
  have "interpolateTransferProgress (Num a) (Num b) (Num l) (Num t) = Num (a + (b - a) * r)"
    using assms by (auto simp: interpolateTransferProgress_def num_le_def num_max_def num_min_def r_def max_def min_def
        zero_less_divide_iff)
  moreover have "0 \<le> (b - a) * r" "(b - a) * r \<le> b - a"
    using assms r by (simp_all add: mult_left_le)
  ultimately show ?thesis by simp
qed

end
