(* ===== verification/Upload_Archive.thy ===== *)
theory Upload_Archive
  imports Js_Bytes Js_Sort Transfer_Items
begin

text \<open>
  The archive the browser builds for the upload of a folder, in \<open>src/features/layout/WorkspaceShell.tsx\<close>:
  relative paths, the folders of a selection, the tar headers and the stream of blocks that is compressed
  into a temporary file. The compression is the platform's, a parameter; \<open>tar_read\<close> is a reader of the
  ustar format, the reference the archive is compared with. \<open>bytes_of\<close> gives the contents of the
  \<open>File\<close> objects, whose \<open>size\<close> is its length.
\<close>

section \<open>Relative paths\<close>

definition upload_part :: "jsstr \<Rightarrow> bool" where
  "upload_part p \<longleftrightarrow> p \<noteq> [] \<and> p \<noteq> js ''.'' \<and> p \<noteq> js ''..''"

definition normalizeUploadRelativePath :: "jsstr \<Rightarrow> jsstr" where
  "normalizeUploadRelativePath path =
     js_join [47] (filter upload_part (map js_trim (js_split 47 (replace_unit 92 47 path))))"

definition totalUploadBytes :: "(nat \<Rightarrow> byte list) \<Rightarrow> upload_item list \<Rightarrow> nat" where
  "totalUploadBytes bytes_of items =
     foldl (\<lambda>acc item. if normalizeUploadRelativePath (ui_relativePath item) \<noteq> []
              then acc + length (bytes_of (ui_file item)) else acc) 0 items"

text \<open>\<open>Map.set\<close> keeps the place of a key that is there.\<close>

definition group_item ::
  "(jsstr \<times> upload_item list) list \<Rightarrow> upload_item \<Rightarrow> (jsstr \<times> upload_item list) list" where
  "group_item groups item =
     (let relativePath = normalizeUploadRelativePath (ui_relativePath item);
          rootName = hd (js_split 47 relativePath)
      in if rootName = [] \<or> 47 \<notin> set relativePath then groups
         else AList.update rootName
                (or_else (map_of groups rootName) [] @ [\<lparr>ui_file = ui_file item, ui_relativePath = relativePath\<rparr>]) groups)"

definition groupUploadDirectories :: "upload_item list \<Rightarrow> (jsstr \<times> upload_item list) list" where
  "groupUploadDirectories items = foldl group_item [] items"

text \<open>A \<open>Set\<close> filled in order keeps the first of equal values; \<open>collate a b\<close>: \<open>a.localeCompare(b)\<close> is positive.\<close>

definition set_of :: "'a list \<Rightarrow> 'a list" where
  "set_of xs = rev (remdups (rev xs))"

definition tar_ancestors :: "upload_item \<Rightarrow> jsstr list" where
  "tar_ancestors item =
     (let parts = js_split 47 (normalizeUploadRelativePath (ui_relativePath item))
      in map (\<lambda>index. js_join [47] (take index parts)) [1..<length parts])"

definition collectTarDirectories :: "(jsstr \<Rightarrow> jsstr \<Rightarrow> bool) \<Rightarrow> upload_item list \<Rightarrow> jsstr list" where
  "collectTarDirectories collate items = js_sort collate (set_of (concat (map tar_ancestors items)))"

section \<open>Headers\<close>

definition splitTarPath :: "jsstr \<Rightarrow> jsstr \<times> jsstr" where
  "splitTarPath path =
     (if length path \<le> 100 then (path, [])
      else
        (let segments = js_split 47 path;
             name = str_or (last segments) (js_last_n 100 path);
             pre = js_join [47] (butlast segments)
         in (if 100 < length name then js_last_n 100 name else name,
             if 155 < length pre then js_last_n 155 pre else pre)))"

definition writeTarString :: "nat \<Rightarrow> nat \<Rightarrow> jsstr \<Rightarrow> byte list \<Rightarrow> byte list" where
  "writeTarString offset n value header = set_at offset (take n (utf8 value)) header"

definition tar_octal :: "nat \<Rightarrow> nat \<Rightarrow> jsstr" where
  "tar_octal n value = take (n - 1) (pad_start (n - 1) 48 (oct_digits value))"

definition writeTarOctal :: "nat \<Rightarrow> nat \<Rightarrow> nat \<Rightarrow> byte list \<Rightarrow> byte list" where
  "writeTarOctal offset n value header =
     set_at (offset + n - 1) [0] (set_at offset (map of_nat (tar_octal n value)) header)"

definition tar_fields :: "nat \<Rightarrow> jsstr \<Rightarrow> nat \<Rightarrow> bool \<Rightarrow> byte list" where
  "tar_fields seconds path fsize directory =
     (let (name, pre) = splitTarPath (take 255 (normalizeUploadRelativePath path));
          h0 = replicate 512 0;
          h1 = writeTarString 0 100 name h0;
          h2 = writeTarOctal 100 8 (if directory then 493 else 420) h1;
          h3 = writeTarOctal 108 8 0 h2;
          h4 = writeTarOctal 116 8 0 h3;
          h5 = writeTarOctal 124 12 (if directory then 0 else fsize) h4;
          h6 = writeTarOctal 136 12 seconds h5;
          h7 = set_at 148 (replicate 8 32) h6;
          h8 = set_at 156 [if directory then 53 else 48] h7;
          h9 = writeTarString 257 6 (js ''ustar'') h8;
          h10 = writeTarString 263 2 (js ''00'') h9
      in writeTarString 345 155 pre h10)"

definition byte_sum :: "byte list \<Rightarrow> nat" where
  "byte_sum bs = sum_list (map unat bs)"

definition buildTarHeader :: "nat \<Rightarrow> jsstr \<Rightarrow> nat \<Rightarrow> bool \<Rightarrow> byte list" where
  "buildTarHeader seconds path fsize directory =
     (let header = tar_fields seconds path fsize directory
      in writeTarOctal 148 8 (byte_sum header) header)"

definition paddingForTarBlock :: "nat \<Rightarrow> nat" where
  "paddingForTarBlock fsize = (512 - fsize mod 512) mod 512"

section \<open>The stream of blocks\<close>

datatype archive_phase = PhaseRead | PhaseCompress

record archive_progress =
  ap_archiveBytes :: nat
  ap_loadedBytes :: nat
  ap_phase :: archive_phase
  ap_totalBytes :: nat

text \<open>What the producer does: a write to the compression stream, a report of its own, or setting \<open>loadedBytes\<close>
  between two files. A report of the phase \<open>compress\<close> takes the number of bytes appended so far.\<close>

datatype archive_action = TarWrite "byte list" | TarReport archive_progress | TarLoaded nat | TarCompressing

definition fileReadChunkBytes :: nat where "fileReadChunkBytes = 4 * 1024 * 1024"

definition uploadTempAppendChunkBytes :: nat where "uploadTempAppendChunkBytes = fileReadChunkBytes"

definition read_report :: "nat \<Rightarrow> nat \<Rightarrow> archive_progress" where
  "read_report loaded totalBytes = \<lparr>ap_archiveBytes = 0, ap_loadedBytes = loaded, ap_phase = PhaseRead, ap_totalBytes = totalBytes\<rparr>"

function file_actions :: "byte list \<Rightarrow> nat \<Rightarrow> nat \<Rightarrow> nat \<Rightarrow> archive_action list" where
  "file_actions content loadedBefore totalBytes loaded =
     (if \<not> loaded < length content then []
      else
        (let nextOffset = min (length content) (loaded + fileReadChunkBytes)
         in TarWrite (drop loaded (take nextOffset content)) # TarReport (read_report (loadedBefore + nextOffset) totalBytes)
            # file_actions content loadedBefore totalBytes nextOffset))"
  by pat_completeness auto
termination
  by (relation "measure (\<lambda>(content, _, _, loaded). length content - loaded)") (auto simp: fileReadChunkBytes_def)

declare file_actions.simps [simp del]

definition writeFileToTarGzipStream :: "byte list \<Rightarrow> nat \<Rightarrow> nat \<Rightarrow> archive_action list" where
  "writeFileToTarGzipStream content loadedBefore totalBytes =
     (if content = [] then [TarReport (read_report loadedBefore totalBytes)]
      else file_actions content loadedBefore totalBytes 0)"

fun item_actions :: "(nat \<Rightarrow> byte list) \<Rightarrow> nat \<Rightarrow> nat \<Rightarrow> nat \<Rightarrow> upload_item list \<Rightarrow> archive_action list" where
  "item_actions bytes_of seconds totalBytes loaded [] = []"
| "item_actions bytes_of seconds totalBytes loaded (item # items) =
     (let relativePath = normalizeUploadRelativePath (ui_relativePath item);
          content = bytes_of (ui_file item)
      in if relativePath = [] then item_actions bytes_of seconds totalBytes loaded items
         else TarWrite (buildTarHeader seconds relativePath (length content) False)
              # writeFileToTarGzipStream content loaded totalBytes
              @ TarLoaded (loaded + length content)
              # TarWrite (replicate (paddingForTarBlock (length content)) 0)
              # item_actions bytes_of seconds totalBytes (loaded + length content) items)"

definition archive_actions ::
  "(jsstr \<Rightarrow> jsstr \<Rightarrow> bool) \<Rightarrow> (nat \<Rightarrow> byte list) \<Rightarrow> nat \<Rightarrow> upload_item list \<Rightarrow> archive_action list" where
  "archive_actions collate bytes_of seconds items =
     (let totalBytes = totalUploadBytes bytes_of items
      in map (\<lambda>directory. TarWrite (buildTarHeader seconds (directory @ [47]) 0 True)) (collectTarDirectories collate items)
         @ item_actions bytes_of seconds totalBytes 0 items
         @ [TarLoaded totalBytes, TarCompressing, TarWrite (replicate 1024 0)])"

text \<open>
  The consumer reads the compressed chunks and appends them to the temporary file, at least four megabytes at a
  time; it runs interleaved with the producer. \<open>archive_run\<close> is the state both share: the counters,
  the chunks that wait, what was appended, what was written to the compression, and the reports made.
\<close>

record archive_run =
  ar_loaded :: nat
  ar_archiveBytes :: nat
  ar_pending :: "byte list list"
  ar_temp :: "byte list list"
  ar_written :: "byte list"
  ar_reports :: "archive_progress list"

datatype archive_event = Produced archive_action | GzipChunk "byte list" | GzipEnd

definition archive_start :: archive_run where
  "archive_start = \<lparr>ar_loaded = 0, ar_archiveBytes = 0, ar_pending = [], ar_temp = [], ar_written = [], ar_reports = []\<rparr>"

definition compress_report :: "nat \<Rightarrow> archive_run \<Rightarrow> archive_progress" where
  "compress_report totalBytes r =
     \<lparr>ap_archiveBytes = ar_archiveBytes r, ap_loadedBytes = ar_loaded r, ap_phase = PhaseCompress, ap_totalBytes = totalBytes\<rparr>"

definition flushGzipChunks :: "nat \<Rightarrow> archive_run \<Rightarrow> archive_run" where
  "flushGzipChunks totalBytes r =
     (let chunk = concat (ar_pending r)
      in if chunk = [] then r
         else (let r1 = r\<lparr>ar_pending := [], ar_temp := ar_temp r @ [chunk], ar_archiveBytes := ar_archiveBytes r + length chunk\<rparr>
               in r1\<lparr>ar_reports := ar_reports r1 @ [compress_report totalBytes r1]\<rparr>))"

fun archive_step :: "nat \<Rightarrow> archive_run \<Rightarrow> archive_event \<Rightarrow> archive_run" where
  "archive_step totalBytes r (Produced (TarWrite bytes)) = r\<lparr>ar_written := ar_written r @ bytes\<rparr>"
| "archive_step totalBytes r (Produced (TarReport report)) = r\<lparr>ar_reports := ar_reports r @ [report]\<rparr>"
| "archive_step totalBytes r (Produced (TarLoaded loaded)) = r\<lparr>ar_loaded := loaded\<rparr>"
| "archive_step totalBytes r (Produced TarCompressing) = r\<lparr>ar_reports := ar_reports r @ [compress_report totalBytes r]\<rparr>"
| "archive_step totalBytes r (GzipChunk chunk) =
     (if chunk = [] then r
      else
        (let r1 = r\<lparr>ar_pending := ar_pending r @ [chunk]\<rparr>
         in if uploadTempAppendChunkBytes \<le> length (concat (ar_pending r1)) then flushGzipChunks totalBytes r1 else r1))"
| "archive_step totalBytes r GzipEnd = flushGzipChunks totalBytes r"

text \<open>A run: every action of the producer, in order, and the chunks of the compression, in any
  interleaving; after the end of both the last report is made and the number of bytes returned.\<close>

definition produced :: "archive_event list \<Rightarrow> archive_action list" where
  "produced evs = List.map_filter (\<lambda>e. case e of Produced a \<Rightarrow> Some a | _ \<Rightarrow> None) evs"

definition gzip_output :: "archive_event list \<Rightarrow> byte list" where
  "gzip_output evs = concat (List.map_filter (\<lambda>e. case e of GzipChunk c \<Rightarrow> Some c | _ \<Rightarrow> None) evs)"

definition buildTarGzArchiveToTemp :: "nat \<Rightarrow> archive_event list \<Rightarrow> nat \<times> archive_run" where
  "buildTarGzArchiveToTemp totalBytes evs =
     (let r = foldl (archive_step totalBytes) archive_start evs;
          r1 = r\<lparr>ar_reports := ar_reports r @ [compress_report totalBytes (r\<lparr>ar_loaded := totalBytes\<rparr>)]\<rparr>
      in (ar_archiveBytes r1, r1))"

section \<open>The format\<close>

text \<open>A reader of ustar archives: checksum and magic are checked, two blocks of zeros end the archive.\<close>

record tar_entry =
  te_path :: "byte list"
  te_directory :: bool
  te_content :: "byte list"

definition tar_text :: "nat \<Rightarrow> nat \<Rightarrow> byte list \<Rightarrow> byte list" where
  "tar_text offset n header = takeWhile (\<lambda>b. b \<noteq> 0) (field offset n header)"

definition tar_number :: "nat \<Rightarrow> nat \<Rightarrow> byte list \<Rightarrow> nat" where
  "tar_number offset n header = oct_value (map unat (tar_text offset n header))"

definition tar_checksum :: "byte list \<Rightarrow> nat" where
  "tar_checksum header = byte_sum (take 148 header) + 8 * 32 + byte_sum (drop 156 header)"

definition tar_path :: "byte list \<Rightarrow> byte list" where
  "tar_path header =
     (let pre = tar_text 345 155 header; name = tar_text 0 100 header
      in if pre = [] then name else pre @ [47] @ name)"

definition tar_header_ok :: "byte list \<Rightarrow> bool" where
  "tar_header_ok header \<longleftrightarrow>
     tar_number 148 8 header = tar_checksum header \<and> field 257 5 header = map of_nat (js ''ustar'')"

function tar_read :: "byte list \<Rightarrow> tar_entry list option" where
  "tar_read bs =
     (if length bs < 512 then None
      else
        (let header = take 512 bs; rest = drop 512 bs; n = tar_number 124 12 header
         in if header = replicate 512 0 then (if take 512 rest = replicate 512 0 then Some [] else None)
            else if \<not> tar_header_ok header \<or> length rest < n + paddingForTarBlock n then None
            else map_option ((#) \<lparr>te_path = tar_path header, te_directory = field 156 1 header = [53], te_content = take n rest\<rparr>)
                   (tar_read (drop (n + paddingForTarBlock n) rest))))"
  by pat_completeness auto
termination
  by (relation "measure length") auto

declare tar_read.simps [simp del]

end
