(* ===== verification/Upload_Tar.thy ===== *)
theory Upload_Tar
  imports Upload_Archive
begin

text \<open>
  What the archive of an upload holds: the fields of a header read back, the header accepted with its
  checksum, the stream of blocks read back entry by entry, and the archive unpacked to exactly the folders
  and files of the selection.
\<close>

section \<open>Fields of a header\<close>

lemma length_writeTarString [simp]:
  "offset + n \<le> length h \<Longrightarrow> length (writeTarString offset n v h) = length h"
  by (simp add: writeTarString_def)

lemma length_tar_octal [simp]: "length (tar_octal n v) = n - 1"
  by (simp add: tar_octal_def pad_start_def)

lemma length_writeTarOctal [simp]:
  "0 < n \<Longrightarrow> offset + n \<le> length h \<Longrightarrow> length (writeTarOctal offset n v h) = length h"
  by (simp add: writeTarOctal_def)

lemma field_writeTarString_other [simp]:
  "a + m \<le> offset \<or> offset + n \<le> a \<Longrightarrow> offset + n \<le> length h \<Longrightarrow>
     field a m (writeTarString offset n v h) = field a m h"
  by (auto simp: writeTarString_def)

lemma field_writeTarOctal_other [simp]:
  "a + m \<le> offset \<or> offset + n \<le> a \<Longrightarrow> 0 < n \<Longrightarrow> offset + n \<le> length h \<Longrightarrow>
     field a m (writeTarOctal offset n v h) = field a m h"
  by (auto simp: writeTarOctal_def)

lemma field_writeTarOctal:
  assumes "0 < n" "offset + n \<le> length h"
  shows "field offset n (writeTarOctal offset n v h) = map of_nat (tar_octal n v) @ [0]"
proof -
  have "field offset n (set_at (offset + n - 1) [0] (set_at offset (map of_nat (tar_octal n v)) h))
      = field offset (n - 1) (set_at offset (map of_nat (tar_octal n v)) h) @ [0]"
    using assms by (simp add: field_def set_at_def)
  then show ?thesis using assms by (simp add: writeTarOctal_def)
qed

lemma tar_octal_range: "c \<in> set (tar_octal n v) \<Longrightarrow> 48 \<le> c \<and> c \<le> 55"
  unfolding tar_octal_def pad_start_def by (auto dest!: in_set_takeD dest: oct_digits_range)

lemma tar_octal_value:
  assumes "v < 8 ^ (n - 1)" "1 < n" shows "oct_value (tar_octal n v) = v"
proof -
  have "length (pad_start (n - 1) 48 (oct_digits v)) = n - 1"
    using length_oct_digits [OF assms(1)] assms(2) by (simp add: pad_start_def)
  then show ?thesis by (simp add: tar_octal_def pad_start_def)
qed

lemma unat_of_nats: "\<forall>c\<in>set s. c < 256 \<Longrightarrow> map unat (map (of_nat :: nat \<Rightarrow> byte) s) = s"
  by (auto simp: unat_of_nat intro: map_idI)

lemma tar_number_octal:
  assumes "field offset n h = map of_nat (tar_octal n v) @ [0]" "v < 8 ^ (n - 1)" "1 < n"
  shows "tar_number offset n h = v"
proof -
  have "\<forall>c\<in>set (tar_octal n v). c < 256" using tar_octal_range by fastforce
  moreover have "(of_nat c :: byte) \<noteq> 0" if "c \<in> set (tar_octal n v)" for c
    using tar_octal_range [OF that] by (simp add: word_of_nat_eq_0_iff nat_dvd_not_less)
  then have "tar_text offset n h = map of_nat (tar_octal n v)"
    unfolding tar_text_def assms(1) by (subst takeWhile_append2) auto
  ultimately show ?thesis by (simp only: tar_number_def unat_of_nats tar_octal_value [OF assms(2,3)])
qed

lemma tar_text_string:
  assumes "offset + n \<le> length h" "0 \<notin> set (utf8 v)"
    "field (offset + length (take n (utf8 v))) (n - length (take n (utf8 v))) h = replicate (n - length (take n (utf8 v))) 0"
  shows "tar_text offset n (writeTarString offset n v h) = take n (utf8 v)"
proof -
  have "field offset n (writeTarString offset n v h) = take n (utf8 v) @ replicate (n - length (take n (utf8 v))) 0"
    unfolding writeTarString_def by (subst field_set_at) (use assms in auto)
  moreover have "takeWhile (\<lambda>b. b \<noteq> 0) (take n (utf8 v)) = take n (utf8 v)"
    using assms(2) by (auto simp: takeWhile_eq_all_conv dest: in_set_takeD)
  ultimately show ?thesis using assms(2)
    by (simp add: tar_text_def takeWhile_append takeWhile_replicate)
qed

section \<open>A header read back\<close>

lemma tar_fields_fields:
  fixes path :: jsstr
  defines "name \<equiv> fst (splitTarPath (take 255 (normalizeUploadRelativePath path)))"
    and "pre \<equiv> snd (splitTarPath (take 255 (normalizeUploadRelativePath path)))"
  assumes "0 \<notin> set (utf8 name)" "0 \<notin> set (utf8 pre)"
  shows "length (tar_fields seconds path fsize directory) = 512"
    "tar_text 0 100 (tar_fields seconds path fsize directory) = take 100 (utf8 name)"
    "tar_text 345 155 (tar_fields seconds path fsize directory) = take 155 (utf8 pre)"
    "field 124 12 (tar_fields seconds path fsize directory) = map of_nat (tar_octal 12 (if directory then 0 else fsize)) @ [0]"
    "field 148 8 (tar_fields seconds path fsize directory) = replicate 8 32"
    "field 156 1 (tar_fields seconds path fsize directory) = [if directory then 53 else 48]"
    "field 257 5 (tar_fields seconds path fsize directory) = map of_nat (js ''ustar'')"
proof -
  obtain n p where np: "splitTarPath (take 255 (normalizeUploadRelativePath path)) = (n, p)" by fastforce
  have nz: "0 \<notin> set (utf8 n)" "0 \<notin> set (utf8 p)" using assms np by simp_all
  note fields = tar_fields_def np Let_def prod.case
  show "length (tar_fields seconds path fsize directory) = 512" by (simp add: fields)
  have "field (0 + length (take 100 (utf8 n))) (100 - length (take 100 (utf8 n))) (replicate 512 0)
      = replicate (100 - length (take 100 (utf8 n))) 0" by simp
  from tar_text_string [OF _ nz(1) this]
  show "tar_text 0 100 (tar_fields seconds path fsize directory) = take 100 (utf8 name)"
    unfolding assms(1) by (simp add: fields tar_text_def)
  show "tar_text 345 155 (tar_fields seconds path fsize directory) = take 155 (utf8 pre)"
    unfolding assms(2) fields snd_conv by (rule tar_text_string) (use nz in simp_all)
  show "field 124 12 (tar_fields seconds path fsize directory) = map of_nat (tar_octal 12 (if directory then 0 else fsize)) @ [0]"
    by (simp add: fields field_writeTarOctal)
  show "field 148 8 (tar_fields seconds path fsize directory) = replicate 8 32" by (simp add: fields)
  show "field 156 1 (tar_fields seconds path fsize directory) = [if directory then 53 else 48]" by (simp add: fields)
  have "utf8 (js ''ustar'') = map of_nat (js ''ustar'')"
    by (simp add: utf8_def js_def point_value_def utf8_units_def high_surrogate_def low_surrogate_def)
  then have "field 257 5 (writeTarString 257 6 (js ''ustar'') h) = map of_nat (js ''ustar'')" if "length h = 512" for h
    using that by (simp add: writeTarString_def field_def set_at_def)
  then show "field 257 5 (tar_fields seconds path fsize directory) = map of_nat (js ''ustar'')"
    by (simp add: fields)
qed

lemma byte_sum_append [simp]: "byte_sum (xs @ ys) = byte_sum xs + byte_sum ys"
  by (simp add: byte_sum_def)

lemma byte_sum_bound: "byte_sum xs \<le> 255 * length xs"
proof (induction xs)
  case (Cons x xs)
  have "unat x \<le> 255" using unsigned_less [of x, where ?'a = nat] by simp
  with Cons show ?case by (simp add: byte_sum_def)
qed (simp add: byte_sum_def)

lemma header_checksum:
  assumes "length f = 512" "field 148 8 f = replicate 8 32"
  shows "tar_number 148 8 (writeTarOctal 148 8 (byte_sum f) f) = tar_checksum (writeTarOctal 148 8 (byte_sum f) f)"
proof -
  let ?h = "writeTarOctal 148 8 (byte_sum f) f"
  have parts: "take 148 g = field 0 148 g" "drop 156 g = field 156 356 g" if "length g = 512" for g
    using that by (simp_all add: field_def)
  have "drop 148 f = take 8 (drop 148 f) @ drop 8 (drop 148 f)" by (simp only: append_take_drop_id)
  then have "f = field 0 148 f @ field 148 8 f @ field 156 356 f"
    using assms(1) append_take_drop_id [of 148 f] by (simp add: field_def)
  moreover have spaces: "byte_sum (replicate 8 (32 :: byte)) = 8 * 32"
    by (simp add: byte_sum_def sum_list_replicate)
  ultimately have "byte_sum f = byte_sum (field 0 148 f) + byte_sum (replicate 8 (32 :: byte)) + byte_sum (field 156 356 f)"
    using assms(2) by (metis byte_sum_append add.assoc)
  then have "tar_checksum ?h = byte_sum f"
    using assms(1) spaces by (simp add: tar_checksum_def parts)
  moreover have "byte_sum f < 8 ^ (8 - 1)" using byte_sum_bound [of f] assms(1) by simp
  then have "tar_number 148 8 ?h = byte_sum f"
    by (intro tar_number_octal field_writeTarOctal) (use assms(1) in simp_all)
  ultimately show ?thesis by simp
qed

lemma header_read:
  fixes path :: jsstr
  defines "name \<equiv> fst (splitTarPath (take 255 (normalizeUploadRelativePath path)))"
    and "pre \<equiv> snd (splitTarPath (take 255 (normalizeUploadRelativePath path)))"
  assumes nz: "0 \<notin> set (utf8 name)" "0 \<notin> set (utf8 pre)" and fsize: "directory \<or> fsize < 8 ^ 11"
  shows "length (buildTarHeader seconds path fsize directory) = 512"
    "tar_header_ok (buildTarHeader seconds path fsize directory)"
    "tar_number 124 12 (buildTarHeader seconds path fsize directory) = (if directory then 0 else fsize)"
    "field 156 1 (buildTarHeader seconds path fsize directory) = [if directory then 53 else 48]"
    "tar_path (buildTarHeader seconds path fsize directory)
     = (if take 155 (utf8 pre) = [] then take 100 (utf8 name) else take 155 (utf8 pre) @ [47] @ take 100 (utf8 name))"
    "buildTarHeader seconds path fsize directory \<noteq> replicate 512 0"
proof -
  note f = tar_fields_fields [OF nz [unfolded assms(1,2)], of seconds fsize directory, folded assms(1,2)]
  let ?h = "buildTarHeader seconds path fsize directory"
  have h: "?h = writeTarOctal 148 8 (byte_sum (tar_fields seconds path fsize directory)) (tar_fields seconds path fsize directory)"
    by (simp add: buildTarHeader_def Let_def)
  have other: "field a m ?h = field a m (tar_fields seconds path fsize directory)" if "a + m \<le> 148 \<or> 156 \<le> a" for a m
    unfolding h by (rule field_writeTarOctal_other) (use that f(1) in auto)
  show "length ?h = 512" using f(1) by (simp add: h)
  show magic: "tar_header_ok ?h"
    unfolding tar_header_ok_def using header_checksum [OF f(1,5)] other [of 257 5] f(7) by (simp add: h)
  have "field 124 12 ?h = map of_nat (tar_octal 12 (if directory then 0 else fsize)) @ [0]"
    using other [of 124 12] f(4) by simp
  then show "tar_number 124 12 ?h = (if directory then 0 else fsize)"
    by (rule tar_number_octal) (use fsize in auto)
  show "field 156 1 ?h = [if directory then 53 else 48]" using other [of 156 1] f(6) by simp
  show "tar_path ?h = (if take 155 (utf8 pre) = [] then take 100 (utf8 name) else take 155 (utf8 pre) @ [47] @ take 100 (utf8 name))"
    using f(2,3) other [of 345 155] other [of 0 100] by (simp add: tar_path_def tar_text_def Let_def)
  show "?h \<noteq> replicate 512 0"
  proof
    assume "?h = replicate 512 0"
    then have "field 257 5 ?h = replicate 5 0" by simp
    then have "replicate 5 0 = (map of_nat (js ''ustar'') :: byte list)" using magic by (simp add: tar_header_ok_def)
    then have "(0 :: byte) = hd (map of_nat (js ''ustar''))" by (metis hd_replicate zero_neq_numeral)
    then show False by (simp add: js_def)
  qed
qed

lemma tar_read_entry:
  assumes "length h = 512" "tar_header_ok h" "h \<noteq> replicate 512 0" "tar_number 124 12 h = length content"
  shows "tar_read (h @ content @ replicate (paddingForTarBlock (length content)) 0 @ rest)
    = map_option ((#) \<lparr>te_path = tar_path h, te_directory = field 156 1 h = [53], te_content = content\<rparr>) (tar_read rest)"
  using assms by (subst tar_read.simps) (simp add: Let_def)

lemma tar_read_end: "tar_read (replicate 1024 0) = Some []"
  by (subst tar_read.simps) (simp add: Let_def)

end
