(* ===== verification/Upload_Unpack.thy ===== *)
theory Upload_Unpack
  imports Upload_Tar
begin

text \<open>
  The folder archive as a whole: normal relative paths, names that fit a header, the blocks written, what
  reaches the temporary file, and the archive unpacked. Names that do not fit are cut, which the lemma
  \<open>long_name_cut\<close> and the counts of bytes in a header show.
\<close>

section \<open>Normal relative paths\<close>

definition normal_parts :: "jsstr list \<Rightarrow> bool" where
  "normal_parts ws \<longleftrightarrow> (\<forall>w\<in>set ws. upload_part w \<and> js_trim w = w \<and> 47 \<notin> set w \<and> 92 \<notin> set w)"

lemma normalize_parts: "\<exists>ws. normal_parts ws \<and> normalizeUploadRelativePath path = js_join [47] ws"
proof (intro exI conjI)
  let ?ws = "filter upload_part (map js_trim (js_split 47 (replace_unit 92 47 path)))"
  have "92 \<notin> set (replace_unit 92 47 path)" by (auto simp: replace_unit_def)
  then have "47 \<notin> set w \<and> 92 \<notin> set w" if "w \<in> set (js_split 47 (replace_unit 92 47 path))" for w
    using js_split_no_sep [OF that] set_js_split [OF that] by blast
  then show "normal_parts ?ws" using set_js_trim by (fastforce simp: normal_parts_def)
  show "normalizeUploadRelativePath path = js_join [47] ?ws" by (simp add: normalizeUploadRelativePath_def)
qed

lemma normal_join_units: "normal_parts ws \<Longrightarrow> 92 \<notin> set (js_join [47] ws)"
  by (auto simp: normal_parts_def dest!: set_js_join [THEN subsetD])

lemma normal_kept: "normal_parts ws \<Longrightarrow> filter upload_part (map js_trim ws) = ws"
  by (simp add: normal_parts_def map_idI filter_id_conv)

lemma normalize_join [simp]: "normal_parts ws \<Longrightarrow> normalizeUploadRelativePath (js_join [47] ws) = js_join [47] ws"
proof (cases "ws = []")
  case True
  then show ?thesis by (simp add: normalizeUploadRelativePath_def replace_unit_def upload_part_def)
next
  case False
  assume ws: "normal_parts ws"
  then have "js_split 47 (js_join [47] ws) = ws" using False by (intro js_split_join) (auto simp: normal_parts_def)
  then show ?thesis using normal_kept [OF ws]
    by (simp add: normalizeUploadRelativePath_def replace_unit_id normal_join_units [OF ws])
qed

lemma normalize_join_slash [simp]:
  "normal_parts ws \<Longrightarrow> normalizeUploadRelativePath (js_join [47] ws @ [47]) = js_join [47] ws"
proof -
  assume ws: "normal_parts ws"
  have "replace_unit 92 47 (js_join [47] ws @ [47]) = js_join [47] ws @ [47]"
    by (rule replace_unit_id) (use normal_join_units [OF ws] in simp)
  moreover have "js_split 47 (js_join [47] ws @ [47]) = js_split 47 (js_join [47] ws) @ [[]]"
    using js_split_append_sep [of 47 "js_join [47] ws" "[]"] by simp
  ultimately have "normalizeUploadRelativePath (js_join [47] ws @ [47]) = normalizeUploadRelativePath (js_join [47] ws)"
    by (simp add: normalizeUploadRelativePath_def replace_unit_id normal_join_units [OF ws] upload_part_def)
  then show ?thesis using ws by simp
qed

lemma normal_join_Nil: "normal_parts ws \<Longrightarrow> js_join [47] ws = [] \<longleftrightarrow> ws = []"
  by (cases ws rule: remdups_adj.cases) (auto simp: normal_parts_def upload_part_def)

text \<open>No part leads upwards, and the path is relative: an upload stays below its target.\<close>

lemma normalized_parts:
  "set (js_split 47 (normalizeUploadRelativePath path)) \<subseteq> {w. upload_part w \<and> 92 \<notin> set w} \<or> normalizeUploadRelativePath path = []"
proof -
  obtain ws where ws: "normal_parts ws" "normalizeUploadRelativePath path = js_join [47] ws" using normalize_parts by blast
  show ?thesis
  proof (cases "ws = []")
    case False
    then have "js_split 47 (js_join [47] ws) = ws" using ws(1) by (intro js_split_join) (auto simp: normal_parts_def)
    then show ?thesis using ws by (auto simp: normal_parts_def)
  qed (use ws in simp)
qed

section \<open>Names that fit\<close>

lemma code_points_sep:
  assumes "\<not> high_surrogate c" "\<not> low_surrogate c"
  shows "code_points (s @ c # t) = code_points s @ [c] # code_points t"
proof (induction s rule: code_points.induct)
  case (1 a b s)
  then show ?case by simp
next
  case (2 a)
  then show ?case using assms by (cases t) auto
next
  case 3
  then show ?case using assms by (cases t) auto
qed

lemma utf8_slash: "utf8 (s @ 47 # t) = utf8 s @ 47 # utf8 t"
proof -
  have "code_points (s @ 47 # t) = code_points s @ [47] # code_points t"
    by (rule code_points_sep) (simp_all add: high_surrogate_def low_surrogate_def)
  moreover have "utf8_units (point_value [47]) = [47]"
    by (simp add: utf8_units_def point_value_def high_surrogate_def low_surrogate_def)
  ultimately show ?thesis by (simp add: utf8_def)
qed

lemma length_le_utf8: "length s \<le> length (utf8 s)"
proof (induction s rule: code_points.induct)
  case (1 a b s)
  have "2 \<le> length (utf8_units (point_value [a, b]))" by (simp add: utf8_units_def point_value_def)
  moreover have "1 \<le> length (utf8_units v)" for v by (simp add: utf8_units_def)
  ultimately show ?case using 1
    by (auto simp: utf8_def intro: add_mono [of 1 _ "Suc _", simplified])
next
  case (2 a)
  then show ?case by (simp add: utf8_def utf8_units_def)
qed (simp add: utf8_def)

definition tar_fits :: "jsstr \<Rightarrow> bool" where
  "tar_fits path \<longleftrightarrow>
     code_units path \<and> 0 \<notin> set path \<and> length path \<le> 255
     \<and> (let segments = js_split 47 path
        in if length path \<le> 100 then length (utf8 path) \<le> 100
           else length (utf8 (last segments)) \<le> 100 \<and> length (utf8 (js_join [47] (butlast segments))) \<le> 155)"

lemma utf8_part_nz:
  assumes "code_units p" "0 \<notin> set p" "set q \<subseteq> set p"
  shows "0 \<notin> set (utf8 q)"
  by (rule utf8_no_zero) (use assms in \<open>auto simp: code_units_def\<close>)

lemma split_fits:
  assumes "tar_fits p" "p = js_join [47] ws" "normal_parts ws" "ws \<noteq> []" "splitTarPath p = (n, q)"
  shows "0 \<notin> set (utf8 n)" "0 \<notin> set (utf8 q)" "length (utf8 n) \<le> 100" "length (utf8 q) \<le> 155"
    "utf8 p = (if utf8 q = [] then utf8 n else utf8 q @ 47 # utf8 n)"
proof -
  from assms(1) have c: "code_units p" "0 \<notin> set p" by (simp_all add: tar_fits_def)
  have "set n \<subseteq> set p \<and> set q \<subseteq> set p \<and> length (utf8 n) \<le> 100 \<and> length (utf8 q) \<le> 155
      \<and> utf8 p = (if utf8 q = [] then utf8 n else utf8 q @ 47 # utf8 n)"
  proof (cases "length p \<le> 100")
    case True
    then show ?thesis using assms(1,5) by (auto simp: splitTarPath_def tar_fits_def)
  next
    case False
    have segs: "js_split 47 p = ws" using assms(2-4) by (auto simp: normal_parts_def intro!: js_split_join)
    then have bytes: "length (utf8 (last ws)) \<le> 100" "length (utf8 (js_join [47] (butlast ws))) \<le> 155"
      using False assms(1) by (simp_all add: tar_fits_def)
    have short: "length (last ws) \<le> 100" "length (js_join [47] (butlast ws)) \<le> 155"
      using bytes length_le_utf8 le_trans by blast+
    have "last ws \<noteq> []" using assms(3,4) by (auto simp: normal_parts_def upload_part_def)
    then have nq: "n = last ws" "q = js_join [47] (butlast ws)"
      using assms(5) False segs short by (auto simp: splitTarPath_def str_or_def Let_def split: if_splits)
    have "butlast ws \<noteq> []"
    proof
      assume "butlast ws = []"
      then have "ws = [last ws]" using assms(4) by (metis append_Nil append_butlast_last_id)
      then have "p = last ws" using assms(2) by (metis js_join.simps(2))
      then show False using False short(1) by simp
    qed
    then have p: "p = q @ 47 # n"
      using join_append [of "butlast ws" "[last ws]"] assms(2,4) nq by simp
    have "q \<noteq> []" using \<open>butlast ws \<noteq> []\<close> assms(3) nq normal_join_Nil [of "butlast ws"]
      by (auto simp: normal_parts_def dest: in_set_butlastD)
    then have "utf8 q \<noteq> []" using length_le_utf8 [of q] by auto
    with p nq bytes show ?thesis by (auto simp: utf8_slash)
  qed
  then show "0 \<notin> set (utf8 n)" "0 \<notin> set (utf8 q)" "length (utf8 n) \<le> 100" "length (utf8 q) \<le> 155"
    "utf8 p = (if utf8 q = [] then utf8 n else utf8 q @ 47 # utf8 n)"
    using utf8_part_nz [OF c] by blast+
qed

text \<open>The header of a path that fits, of a file or, with a slash behind it, of a folder.\<close>

lemma header_fits:
  assumes "tar_fits p" "p = js_join [47] ws" "normal_parts ws" "ws \<noteq> []" "directory \<or> length content < 8 ^ 11"
    "path = (if directory then p @ [47] else p)" "directory \<Longrightarrow> content = []"
  shows "tar_read (buildTarHeader seconds path (length content) directory
      @ content @ replicate (paddingForTarBlock (length content)) 0 @ rest)
    = map_option ((#) \<lparr>te_path = utf8 p, te_directory = directory, te_content = content\<rparr>) (tar_read rest)"
proof -
  have norm: "take 255 (normalizeUploadRelativePath path) = p" using assms(1-3,6) by (auto simp: tar_fits_def)
  obtain n q where nq: "splitTarPath p = (n, q)" by fastforce
  note s = split_fits [OF assms(1-4) nq]
  note h = header_read [of path directory "length content" seconds, unfolded norm nq fst_conv snd_conv, OF s(1,2) assms(5)]
  have "tar_number 124 12 (buildTarHeader seconds path (length content) directory) = length content"
    using h(3) assms(7) by (cases directory) simp_all
  from tar_read_entry [OF h(1,2,6) this] show ?thesis
    using h(4,5) s(3-5) by simp
qed

section \<open>The blocks written\<close>

definition tar_written :: "archive_action list \<Rightarrow> byte list" where
  "tar_written actions = concat (List.map_filter (\<lambda>a. case a of TarWrite b \<Rightarrow> Some b | _ \<Rightarrow> None) actions)"

lemma tar_written_simps [simp]:
  "tar_written [] = []"
  "tar_written (TarWrite b # as) = b @ tar_written as"
  "tar_written (TarReport p # as) = tar_written as"
  "tar_written (TarLoaded n # as) = tar_written as"
  "tar_written (TarCompressing # as) = tar_written as"
  "tar_written (as @ bs) = tar_written as @ tar_written bs"
  by (simp_all add: tar_written_def List.map_filter_def)

lemma drop_take_append: "a \<le> b \<Longrightarrow> drop a (take b xs) @ drop b xs = drop a xs"
  using append_take_drop_id [of "b - a" "drop a xs"] by (simp add: drop_take)

lemma tar_written_file: "tar_written (file_actions content before whole loaded) = drop loaded content"
proof (induction content before whole loaded rule: file_actions.induct)
  case (1 content before whole loaded)
  let ?next = "min (length content) (loaded + fileReadChunkBytes)"
  show ?case
  proof (cases "loaded < length content")
    case True
    then have "loaded \<le> ?next" by simp
    then have "drop loaded (take ?next content) @ drop ?next content = drop loaded content"
      by (rule drop_take_append)
    then show ?thesis using True 1 [OF _ refl] by (subst file_actions.simps) (simp add: Let_def)
  qed (subst file_actions.simps, simp)
qed

lemma tar_written_content [simp]: "tar_written (writeFileToTarGzipStream content before whole) = content"
  by (simp add: writeFileToTarGzipStream_def tar_written_file)

definition archived_path :: "upload_item \<Rightarrow> jsstr" where
  "archived_path item = normalizeUploadRelativePath (ui_relativePath item)"

definition file_entries :: "(nat \<Rightarrow> byte list) \<Rightarrow> upload_item list \<Rightarrow> tar_entry list" where
  "file_entries bytes_of items =
     map (\<lambda>item. \<lparr>te_path = utf8 (archived_path item), te_directory = False, te_content = bytes_of (ui_file item)\<rparr>)
       (filter (\<lambda>item. archived_path item \<noteq> []) items)"

lemma read_tar_items:
  assumes "\<forall>item\<in>set items. archived_path item \<noteq> [] \<longrightarrow> tar_fits (archived_path item) \<and> length (bytes_of (ui_file item)) < 8 ^ 11"
  shows "tar_read (tar_written (item_actions bytes_of seconds whole loaded items) @ replicate 1024 0) = Some (file_entries bytes_of items)"
  using assms
proof (induction items arbitrary: loaded)
  case Nil
  then show ?case by (simp add: tar_read_end file_entries_def)
next
  case (Cons item items)
  note ih = Cons.IH [OF Cons.prems [THEN ballI [OF bspec, OF _ list.set_intros(2)]]]
  show ?case
  proof (cases "archived_path item = []")
    case True
    then show ?thesis using ih [of loaded] by (simp add: archived_path_def file_entries_def)
  next
    case False
    obtain ws where ws: "normal_parts ws" "archived_path item = js_join [47] ws"
      using normalize_parts unfolding archived_path_def by blast
    have "ws \<noteq> []" using False ws by auto
    moreover have "tar_fits (archived_path item)" "length (bytes_of (ui_file item)) < 8 ^ 11"
      using Cons.prems False by simp_all
    ultimately show ?thesis
      using header_fits [OF _ ws(2,1), of False "bytes_of (ui_file item)" "archived_path item" seconds] False ih
      by (simp add: archived_path_def [symmetric] file_entries_def Let_def)
  qed
qed

lemma set_set_of [simp]: "set (set_of xs) = set xs"
  by (simp add: set_of_def)

lemma directory_normal:
  assumes "d \<in> set (collectTarDirectories collate items)"
  shows "\<exists>ws. normal_parts ws \<and> ws \<noteq> [] \<and> d = js_join [47] ws"
proof -
  from assms obtain item where "d \<in> set (tar_ancestors item)" by (auto simp: collectTarDirectories_def)
  then have "d \<in> (\<lambda>k. js_join [47] (take k (js_split 47 (archived_path item)))) ` {1..<length (js_split 47 (archived_path item))}"
    by (simp add: tar_ancestors_def archived_path_def Let_def)
  then obtain k where item: "0 < k" "k < length (js_split 47 (archived_path item))"
      "d = js_join [47] (take k (js_split 47 (archived_path item)))" by (auto simp: Suc_le_eq)
  obtain ws where ws: "normal_parts ws" "archived_path item = js_join [47] ws"
    using normalize_parts unfolding archived_path_def by blast
  show ?thesis
  proof (cases "ws = []")
    case False
    then have "js_split 47 (archived_path item) = ws"
      unfolding ws(2) by (intro js_split_join) (use ws(1) in \<open>auto simp: normal_parts_def\<close>)
    with item ws(1) show ?thesis by (intro exI [of _ "take k ws"]) (auto simp: normal_parts_def dest: in_set_takeD)
  qed (use item ws in simp)
qed

text \<open>The folders of a selection, without the code's own operations: what stands before a slash of a path.\<close>

definition upload_folders :: "upload_item list \<Rightarrow> jsstr set" where
  "upload_folders items = {d. \<exists>item\<in>set items. \<exists>rest. archived_path item = d @ 47 # rest}"

lemma split_prefix:
  "(\<exists>k. 0 < k \<and> k < length (js_split 47 p) \<and> d = js_join [47] (take k (js_split 47 p))) \<longleftrightarrow> (\<exists>rest. p = d @ 47 # rest)"
proof
  assume "\<exists>k. 0 < k \<and> k < length (js_split 47 p) \<and> d = js_join [47] (take k (js_split 47 p))"
  then obtain k where k: "0 < k" "k < length (js_split 47 p)" "d = js_join [47] (take k (js_split 47 p))" by blast
  then have "js_join [47] (take k (js_split 47 p) @ drop k (js_split 47 p)) = d @ [47] @ js_join [47] (drop k (js_split 47 p))"
    by (subst join_append) auto
  then have "p = d @ 47 # js_join [47] (drop k (js_split 47 p))" by (simp add: js_join_split)
  then show "\<exists>rest. p = d @ 47 # rest" by blast
next
  assume "\<exists>rest. p = d @ 47 # rest"
  then obtain rest where "p = d @ 47 # rest" by blast
  then have "js_split 47 p = js_split 47 d @ js_split 47 rest" by (simp add: js_split_append_sep)
  then show "\<exists>k. 0 < k \<and> k < length (js_split 47 p) \<and> d = js_join [47] (take k (js_split 47 p))"
    by (intro exI [of _ "length (js_split 47 d)"]) (simp add: js_join_split)
qed

lemma collected_folders:
  "set (collectTarDirectories collate items) = upload_folders items" "distinct (collectTarDirectories collate items)"
proof -
  have "d \<in> set (tar_ancestors item) \<longleftrightarrow> (\<exists>rest. archived_path item = d @ 47 # rest)" for d item
    unfolding split_prefix [symmetric] by (auto simp: tar_ancestors_def archived_path_def Let_def Suc_le_eq)
  then show "set (collectTarDirectories collate items) = upload_folders items"
    by (auto simp: collectTarDirectories_def upload_folders_def)
  show "distinct (collectTarDirectories collate items)"
    using distinct_js_sort [of "\<lambda>d :: jsstr. d"] by (simp add: collectTarDirectories_def set_of_def)
qed

definition folder_entries :: "jsstr list \<Rightarrow> tar_entry list" where
  "folder_entries folders = map (\<lambda>d. \<lparr>te_path = utf8 d, te_directory = True, te_content = []\<rparr>) folders"

lemma read_folders:
  assumes "\<forall>d\<in>set ds. tar_fits d \<and> (\<exists>ws. normal_parts ws \<and> ws \<noteq> [] \<and> d = js_join [47] ws)"
  shows "tar_read (tar_written (map (\<lambda>directory. TarWrite (buildTarHeader seconds (directory @ [47]) 0 True)) ds) @ rest)
    = map_option ((@) (map (\<lambda>d. \<lparr>te_path = utf8 d, te_directory = True, te_content = []\<rparr>) ds)) (tar_read rest)"
  using assms
proof (induction ds)
  case Nil
  then show ?case by (simp add: option.map_ident)
next
  case (Cons d ds)
  then obtain ws where ws: "normal_parts ws" "ws \<noteq> []" "d = js_join [47] ws" by auto
  have "tar_fits d" using Cons.prems by simp
  from header_fits [OF this ws(3,1,2), of True "[]" "d @ [47]" seconds] Cons
  show ?case by (simp add: paddingForTarBlock_def option.map_comp comp_def)
qed

lemma read_archive:
  assumes "\<forall>d\<in>upload_folders items. tar_fits d"
    "\<forall>item\<in>set items. archived_path item \<noteq> [] \<longrightarrow> tar_fits (archived_path item) \<and> length (bytes_of (ui_file item)) < 8 ^ 11"
  shows "tar_read (tar_written (archive_actions collate bytes_of seconds items))
    = Some (folder_entries (collectTarDirectories collate items) @ file_entries bytes_of items)"
proof -
  have folders: "\<forall>d\<in>set (collectTarDirectories collate items). tar_fits d
      \<and> (\<exists>ws. normal_parts ws \<and> ws \<noteq> [] \<and> d = js_join [47] ws)"
    using assms(1) directory_normal by (simp add: collected_folders)
  show ?thesis
    using read_folders [OF folders] read_tar_items [OF assms(2)]
    by (simp add: archive_actions_def folder_entries_def Let_def)
qed

text \<open>The path an item gets in the archive: nothing in it leads upwards, and a path that has nothing to clean is kept.\<close>

lemma archived_clean:
  "archived_path item = [] \<or> set (js_split 47 (archived_path item)) \<subseteq> {w. w \<notin> {[], js ''.'', js ''..''} \<and> 92 \<notin> set w}"
  using normalized_parts [of "ui_relativePath item"] by (auto simp: archived_path_def upload_part_def)

lemma archived_same: "normal_parts ws \<Longrightarrow> ui_relativePath item = js_join [47] ws \<Longrightarrow> archived_path item = ui_relativePath item"
  by (simp add: archived_path_def)

section \<open>What reaches the temporary file\<close>

lemma produced_snoc [simp]:
  "produced [] = []" "produced (evs @ [Produced a]) = produced evs @ [a]"
  "produced (evs @ [GzipChunk c]) = produced evs" "produced (evs @ [GzipEnd]) = produced evs"
  by (simp_all add: produced_def List.map_filter_def)

lemma gzip_output_snoc [simp]:
  "gzip_output [] = []" "gzip_output (evs @ [Produced a]) = gzip_output evs"
  "gzip_output (evs @ [GzipChunk c]) = gzip_output evs @ c" "gzip_output (evs @ [GzipEnd]) = gzip_output evs"
  by (simp_all add: gzip_output_def List.map_filter_def)

text \<open>A report stays within the total and within what has been appended; an action of the producer is sound if it
  keeps the counter within the total.\<close>

definition report_ok :: "nat \<Rightarrow> nat \<Rightarrow> archive_progress \<Rightarrow> bool" where
  "report_ok whole appended p \<longleftrightarrow>
     ap_loadedBytes p \<le> whole \<and> ap_totalBytes p = whole \<and> ap_archiveBytes p \<le> appended"

definition action_ok :: "nat \<Rightarrow> archive_action \<Rightarrow> bool" where
  "action_ok whole a =
     (case a of TarReport p \<Rightarrow> report_ok whole 0 p | TarLoaded n \<Rightarrow> n \<le> whole | _ \<Rightarrow> True)"

lemma action_ok_simps [simp]:
  "action_ok whole (TarWrite b)"
  "action_ok whole (TarReport p) = report_ok whole 0 p"
  "action_ok whole (TarLoaded n) = (n \<le> whole)"
  "action_ok whole TarCompressing"
  by (simp_all add: action_ok_def)

definition archive_inv :: "nat \<Rightarrow> archive_event list \<Rightarrow> archive_run \<Rightarrow> bool" where
  "archive_inv whole evs r \<longleftrightarrow>
     concat (ar_temp r) @ concat (ar_pending r) = gzip_output evs
     \<and> ar_written r = tar_written (produced evs)
     \<and> ar_archiveBytes r = length (concat (ar_temp r))
     \<and> (list_all (action_ok whole) (produced evs) \<longrightarrow>
          ar_loaded r \<le> whole \<and> list_all (report_ok whole (ar_archiveBytes r)) (ar_reports r))"

lemma reports_mono: "list_all (report_ok whole m) ps \<Longrightarrow> m \<le> n \<Longrightarrow> list_all (report_ok whole n) ps"
  by (auto simp: list_all_iff report_ok_def)

lemma archive_inv_flush: "archive_inv whole evs r \<Longrightarrow> archive_inv whole evs (flushGzipChunks whole r)"
  by (auto simp: archive_inv_def flushGzipChunks_def Let_def report_ok_def compress_report_def
        intro: reports_mono) (metis length_append)+

lemma archive_inv_step:
  "archive_inv whole evs r \<Longrightarrow> archive_inv whole (evs @ [e]) (archive_step whole r e)"
proof (cases "(whole, r, e)" rule: archive_step.cases)
  case (2 a b report)
  assume "archive_inv whole evs r"
  with 2 show ?thesis by (auto simp: archive_inv_def action_ok_def report_ok_def)
next
  case (5 a b chunk)
  assume inv: "archive_inv whole evs r"
  have "archive_inv whole (evs @ [GzipChunk chunk]) (r\<lparr>ar_pending := ar_pending r @ [chunk]\<rparr>)"
    using inv by (auto simp: archive_inv_def)
  moreover have "archive_inv whole (evs @ [GzipChunk []]) r" using inv by (auto simp: archive_inv_def)
  ultimately show ?thesis using 5 archive_inv_flush by (auto simp: Let_def)
next
  case (6 a b)
  assume "archive_inv whole evs r"
  then have "archive_inv whole (evs @ [GzipEnd]) r" by (auto simp: archive_inv_def)
  with 6 show ?thesis using archive_inv_flush by auto
qed (auto simp: archive_inv_def action_ok_def report_ok_def compress_report_def)

lemma archive_inv_run: "archive_inv whole evs (foldl (archive_step whole) archive_start evs)"
proof (induction evs rule: rev_induct)
  case Nil
  then show ?case by (simp add: archive_inv_def archive_start_def)
qed (simp add: archive_inv_step)

text \<open>The producer's own actions keep the counter within the total.\<close>

lemma file_actions_ok: "before + length content \<le> whole \<Longrightarrow> list_all (action_ok whole) (file_actions content before whole loaded)"
proof (induction content before whole loaded rule: file_actions.induct)
  case (1 content before whole loaded)
  show ?case
  proof (cases "loaded < length content")
    case True
    then show ?thesis using 1(1) [OF _ refl 1(2)] 1(2)
      by (subst file_actions.simps) (simp add: Let_def report_ok_def read_report_def)
  qed (subst file_actions.simps, simp)
qed

definition upload_bytes :: "(nat \<Rightarrow> byte list) \<Rightarrow> upload_item list \<Rightarrow> nat" where
  "upload_bytes bytes_of items =
     sum_list (map (\<lambda>item. length (bytes_of (ui_file item))) (filter (\<lambda>item. archived_path item \<noteq> []) items))"

lemma totalUploadBytes_sum: "totalUploadBytes bytes_of items = upload_bytes bytes_of items"
proof -
  have "foldl (\<lambda>acc item. if normalizeUploadRelativePath (ui_relativePath item) \<noteq> []
      then acc + length (bytes_of (ui_file item)) else acc) k items = k + upload_bytes bytes_of items" for k
    by (induction items arbitrary: k) (simp_all add: upload_bytes_def archived_path_def)
  then show ?thesis by (simp add: totalUploadBytes_def)
qed

lemma item_actions_ok:
  "loaded + upload_bytes bytes_of items \<le> whole \<Longrightarrow> list_all (action_ok whole) (item_actions bytes_of seconds whole loaded items)"
proof (induction items arbitrary: loaded)
  case (Cons item items)
  have content: "list_all (action_ok whole) (writeFileToTarGzipStream content before whole)" if "before + length content \<le> whole"
    for content before using that
    by (simp add: writeFileToTarGzipStream_def file_actions_ok report_ok_def read_report_def)
  show ?case
  proof (cases "archived_path item = []")
    case True
    then show ?thesis using Cons by (simp add: archived_path_def upload_bytes_def)
  next
    case False
    then have n: "loaded + length (bytes_of (ui_file item)) + upload_bytes bytes_of items \<le> whole"
      using Cons.prems by (simp add: upload_bytes_def)
    then show ?thesis using False Cons.IH [OF n] content
      by (simp add: archived_path_def Let_def)
  qed
qed simp

lemma archive_actions_ok: "list_all (action_ok (totalUploadBytes bytes_of items)) (archive_actions collate bytes_of seconds items)"
proof -
  have "list_all (action_ok w) (map (\<lambda>d. TarWrite (f d)) ds)" for w f and ds :: "jsstr list"
    by (simp add: list_all_iff)
  then show ?thesis
    using item_actions_ok [of 0 bytes_of items "totalUploadBytes bytes_of items" seconds]
    by (simp add: archive_actions_def totalUploadBytes_sum Let_def)
qed

section \<open>Properties\<close>

text \<open>C7. The archive of a folder unpacks to the folder. Whatever the interleaving of the producer's blocks and the
  compressed chunks, if the compression can be undone, the temporary file holds an archive that a reader of
  the format accepts and unpacks to one entry for every folder, which is what stands before a slash in the path of a file, each once,
  and then one for every file, in order, with its path and its contents. No path leads upwards, and a
  path without anything to clean (no empty part, dot, double dot, backslash, or part with blanks at its ends) is kept as it is.
  The number returned is the size of the file, and no report exceeds the total or what has been appended. The conditions are on names
  and sizes: every folder and file path fits a header (at most 255 code units, none of them zero; the bytes of
  its UTF-8 at most 100, or, for a path of more than 100 code units, at most 100 for the last part and 155 for what is before
  it), and every file is below eight gigabytes. Without them names are cut and entries collide.\<close>

theorem uploaded_folder_unpacks:
  assumes "produced evs = archive_actions collate bytes_of seconds items"
    "gunzip (gzip_output evs) = tar_written (produced evs)"
    "\<forall>d\<in>upload_folders items. tar_fits d"
    "\<forall>item\<in>set items. archived_path item \<noteq> [] \<longrightarrow> tar_fits (archived_path item) \<and> length (bytes_of (ui_file item)) < 8 ^ 11"
  shows "let whole = totalUploadBytes bytes_of items; (archiveBytes, r) = buildTarGzArchiveToTemp whole (evs @ [GzipEnd])
    in (\<exists>folders. set folders = {d. \<exists>item\<in>set items. \<exists>rest. archived_path item = d @ 47 # rest} \<and> distinct folders
          \<and> tar_read (gunzip (concat (ar_temp r)))
            = Some (map (\<lambda>d. \<lparr>te_path = utf8 d, te_directory = True, te_content = []\<rparr>) folders
                @ map (\<lambda>item. \<lparr>te_path = utf8 (archived_path item), te_directory = False, te_content = bytes_of (ui_file item)\<rparr>)
                    (filter (\<lambda>item. archived_path item \<noteq> []) items)))
       \<and> (\<forall>item\<in>set items. (archived_path item = []
            \<or> set (js_split 47 (archived_path item)) \<subseteq> {w. w \<notin> {[], js ''.'', js ''..''} \<and> 92 \<notin> set w})
          \<and> (\<forall>ws. normal_parts ws \<and> ui_relativePath item = js_join [47] ws \<longrightarrow> archived_path item = ui_relativePath item))
       \<and> archiveBytes = length (concat (ar_temp r))
       \<and> list_all (report_ok whole archiveBytes) (ar_reports r)"
proof -
  let ?w = "totalUploadBytes bytes_of items"
  define r where "r = foldl (archive_step ?w) archive_start (evs @ [GzipEnd])"
  have "archive_inv ?w (evs @ [GzipEnd]) r" unfolding r_def by (rule archive_inv_run)
  moreover have "concat (ar_pending r) = []"
    by (simp add: r_def flushGzipChunks_def Let_def)
  moreover have "list_all (action_ok ?w) (produced evs)" using archive_actions_ok assms(1) by simp
  ultimately have "concat (ar_temp r) = gzip_output evs" "ar_archiveBytes r = length (concat (ar_temp r))"
    "list_all (report_ok ?w (ar_archiveBytes r)) (ar_reports r)"
    unfolding archive_inv_def by auto
  moreover from this have "report_ok ?w (ar_archiveBytes r) (compress_report ?w (r\<lparr>ar_loaded := ?w\<rparr>))"
    by (simp add: report_ok_def compress_report_def)
  moreover have "tar_read (gunzip (gzip_output evs))
      = Some (folder_entries (collectTarDirectories collate items) @ file_entries bytes_of items)"
    using read_archive [OF assms(3,4), of collate seconds] assms(1,2) by simp
  ultimately have run: "tar_read (gunzip (concat (ar_temp r)))
      = Some (folder_entries (collectTarDirectories collate items) @ file_entries bytes_of items)"
    "ar_archiveBytes r = length (concat (ar_temp r))"
    "list_all (report_ok ?w (ar_archiveBytes r)) (ar_reports r @ [compress_report ?w (r\<lparr>ar_loaded := ?w\<rparr>)])" by simp_all
  show ?thesis
    unfolding buildTarGzArchiveToTemp_def Let_def r_def [symmetric] prod.case
  proof (intro conjI)
    show "\<exists>folders. set folders = {d. \<exists>item\<in>set items. \<exists>rest. archived_path item = d @ 47 # rest} \<and> distinct folders
        \<and> tar_read (gunzip (concat (ar_temp (r\<lparr>ar_reports := ar_reports r @ [compress_report ?w (r\<lparr>ar_loaded := ?w\<rparr>)]\<rparr>))))
          = Some (map (\<lambda>d. \<lparr>te_path = utf8 d, te_directory = True, te_content = []\<rparr>) folders
              @ map (\<lambda>item. \<lparr>te_path = utf8 (archived_path item), te_directory = False, te_content = bytes_of (ui_file item)\<rparr>)
                  (filter (\<lambda>item. archived_path item \<noteq> []) items))"
      using collected_folders [of collate items] run(1) unfolding folder_entries_def file_entries_def upload_folders_def
      by (intro exI [of _ "collectTarDirectories collate items"]) simp
    show "\<forall>item\<in>set items. (archived_path item = []
          \<or> set (js_split 47 (archived_path item)) \<subseteq> {w. w \<notin> {[], js ''.'', js ''..''} \<and> 92 \<notin> set w})
        \<and> (\<forall>ws. normal_parts ws \<and> ui_relativePath item = js_join [47] ws \<longrightarrow> archived_path item = ui_relativePath item)"
      using archived_clean archived_same by blast
  qed (use run in simp_all)
qed

text \<open>A selection with a folder, a file in it, a file beside it and a name that is dropped.\<close>

definition sample_items :: "upload_item list" where
  "sample_items = [\<lparr>ui_file = 0, ui_relativePath = js ''a/b''\<rparr>, \<lparr>ui_file = 1, ui_relativePath = js ''../c''\<rparr>,
     \<lparr>ui_file = 0, ui_relativePath = js ''..''\<rparr>]"

definition sample_bytes :: "nat \<Rightarrow> byte list" where
  "sample_bytes f = (if f = 0 then [104, 105] else [])"

definition sample_events :: "archive_event list" where
  "sample_events = map Produced (archive_actions (\<lambda>a b. False) sample_bytes 0 sample_items)
     @ [GzipChunk (tar_written (archive_actions (\<lambda>a b. False) sample_bytes 0 sample_items))]"

lemma sample_paths: "map archived_path sample_items = [js ''a/b'', js ''c'', []]"
  by (simp add: archived_path_def sample_items_def normalizeUploadRelativePath_def upload_part_def replace_unit_def js_def
      js_trim_id is_ws_def)

lemma sample_folders: "upload_folders sample_items = {js ''a''}"
proof -
  have "upload_folders sample_items = {d. \<exists>p\<in>set (map archived_path sample_items). \<exists>rest. p = d @ 47 # rest}"
    by (auto simp: upload_folders_def)
  also have "\<dots> = {js ''a''}" unfolding sample_paths by (auto simp: js_def Cons_eq_append_conv)
  finally show ?thesis .
qed

lemma sample_fits: "tar_fits (js s)" if "s \<in> {''a'', ''a/b'', ''c''}"
  using that by (auto simp: tar_fits_def code_units_def js_def utf8_def high_surrogate_def utf8_units_def point_value_def low_surrogate_def)

theorem uploaded_folder_unpacks_witness:
  "\<exists>r :: archive_run. tar_read (concat (ar_temp r)) = Some [\<lparr>te_path = utf8 (js ''a''), te_directory = True, te_content = []\<rparr>,
     \<lparr>te_path = utf8 (js ''a/b''), te_directory = False, te_content = [104, 105]\<rparr>,
     \<lparr>te_path = utf8 (js ''c''), te_directory = False, te_content = []\<rparr>]"
proof -
  have "produced (map Produced as @ [GzipChunk c]) = as" for as c
    by (simp add: produced_def List.map_filter_def comp_def)
  moreover have "gzip_output (map Produced as @ [GzipChunk c]) = c" for as c
    by (induction as) (simp_all add: gzip_output_def List.map_filter_def)
  ultimately have evs: "produced sample_events = archive_actions (\<lambda>a b. False) sample_bytes 0 sample_items"
    "(\<lambda>x. x) (gzip_output sample_events) = tar_written (produced sample_events)"
    by (simp_all only: sample_events_def)
  have fits: "\<forall>d\<in>upload_folders sample_items. tar_fits d" using sample_fits by (simp add: sample_folders)
  have paths: "\<forall>item\<in>set sample_items. archived_path item \<in> {js ''a/b'', js ''c'', []}"
    using arg_cong [OF sample_paths, of set] by auto
  have sizes: "\<forall>item\<in>set sample_items. archived_path item \<noteq> [] \<longrightarrow>
      tar_fits (archived_path item) \<and> length (sample_bytes (ui_file item)) < 8 ^ 11"
  proof (intro ballI impI conjI)
    fix item assume "item \<in> set sample_items" "archived_path item \<noteq> []"
    then show "tar_fits (archived_path item)" using paths sample_fits by fastforce
  qed (simp add: sample_bytes_def)
  obtain r :: archive_run and folders where r: "set folders = {d. \<exists>item\<in>set sample_items. \<exists>rest. archived_path item = d @ 47 # rest}"
    "distinct folders" "tar_read (concat (ar_temp r)) = Some (map (\<lambda>d. \<lparr>te_path = utf8 d, te_directory = True, te_content = []\<rparr>) folders
        @ map (\<lambda>item. \<lparr>te_path = utf8 (archived_path item), te_directory = False, te_content = sample_bytes (ui_file item)\<rparr>)
            (filter (\<lambda>item. archived_path item \<noteq> []) sample_items))"
    using uploaded_folder_unpacks [where gunzip = "\<lambda>x. x", OF evs fits sizes] unfolding Let_def by (auto split: prod.splits)
  have "set folders = {js ''a''}" using r(1) sample_folders by (simp add: upload_folders_def)
  then have "folders = [js ''a'']" using r(2) by (cases folders; cases "tl folders") auto
  moreover have "map (\<lambda>item. \<lparr>te_path = utf8 (archived_path item), te_directory = False, te_content = sample_bytes (ui_file item)\<rparr>)
      (filter (\<lambda>item. archived_path item \<noteq> []) sample_items)
    = [\<lparr>te_path = utf8 (js ''a/b''), te_directory = False, te_content = [104, 105]\<rparr>,
       \<lparr>te_path = utf8 (js ''c''), te_directory = False, te_content = []\<rparr>]"
    using sample_paths by (simp add: sample_items_def sample_bytes_def js_def)
  ultimately show ?thesis using r(3) by auto
qed

text \<open>The length of a name is compared in code units but the field has bytes: a name of up to a hundred units that
  takes more bytes is cut, and two different names can become the same entry.\<close>

lemma long_name_cut:
  assumes "normal_parts ws" "p = js_join [47] ws" "length p \<le> 100" "code_units p" "0 \<notin> set p" "n < 8 ^ 11"
  shows "tar_path (buildTarHeader seconds p n False) = take 100 (utf8 p)"
proof -
  have norm: "take 255 (normalizeUploadRelativePath p) = p" using assms(1-3) by simp
  have split: "splitTarPath p = (p, [])" using assms(3) by (simp add: splitTarPath_def)
  have "0 \<notin> set (utf8 p)" using assms(4,5) by (rule utf8_no_zero)
  with header_read(5) [of p False n seconds, unfolded norm split fst_conv snd_conv] assms(6) show ?thesis by simp
qed

lemma distinct_names_collide:
  "tar_path (buildTarHeader seconds (replicate 34 20013) n False)
   = tar_path (buildTarHeader seconds (replicate 33 20013 @ [20014]) n False)" if "n < 8 ^ 11"
proof -
  have units: "utf8 (replicate k 20013 @ s) = concat (replicate k [228, 184, 173]) @ utf8 s" for k s
  proof (induction k)
    case (Suc k)
    have "code_points (20013 # t) = [20013] # code_points t" for t
      by (cases t) (simp_all add: high_surrogate_def)
    with Suc show ?case
      by (simp add: utf8_def utf8_units_def point_value_def high_surrogate_def low_surrogate_def)
  qed simp
  have name: "normal_parts [w] \<and> code_units w \<and> 0 \<notin> set w" if "w \<noteq> []" "set w \<subseteq> {20013, 20014}" for w
  proof -
    have "hd w \<in> {20013, 20014}" "last w \<in> {20013, 20014}"
      using that hd_in_set last_in_set by blast+
    then have "js_trim w = w" by (intro js_trim_id) (auto simp: is_ws_def)
    then show ?thesis using that by (auto simp: normal_parts_def upload_part_def js_def code_units_def)
  qed
  have cut: "tar_path (buildTarHeader seconds w n False) = take 100 (utf8 w)"
    if "w \<noteq> []" "set w \<subseteq> {20013, 20014}" "length w \<le> 100" for w
    by (rule long_name_cut [of "[w]"]) (use name [OF that(1,2)] that(3) \<open>n < 8 ^ 11\<close> in simp_all)
  have "take (k * 3 + 1) (utf8 (replicate k 20013 @ [c])) = concat (replicate k [228, 184, 173]) @ [228]"
    if "c \<in> {20013, 20014}" for c k
  proof -
    have "\<exists>t. utf8 [c] = 228 # t" using that
      by (auto simp: utf8_def utf8_units_def point_value_def high_surrogate_def low_surrogate_def)
    then obtain t where "utf8 [c] = 228 # t" by blast
    moreover have "length (concat (replicate k [228, 184, 173 :: byte])) = k * 3" by (induction k) simp_all
    ultimately show ?thesis by (simp add: units)
  qed
  from this [of _ 33] have "take 100 (utf8 (replicate 33 20013 @ [c])) = concat (replicate 33 [228, 184, 173]) @ [228]"
    if "c \<in> {20013, 20014}" for c using that by simp
  moreover have "replicate (Suc 33) (20013 :: nat) = replicate 33 20013 @ [20013]"
    by (simp only: replicate_Suc replicate_append_same)
  ultimately show ?thesis using cut by simp
qed

end
