(* ===== verification/Remote_Entries.thy ===== *)
theory Remote_Entries
  imports Remote_Paths Js_Sort
begin

text \<open>
  Names and paths of remote entries in \<open>src/features/layout/WorkspaceShell.tsx\<close>: joining a folder and a
  name, the last name of a path, what the dialogs accept, and the list of entries a deletion removes.
  \<open>collate a b\<close> says that \<open>a.localeCompare(b)\<close> is positive.
\<close>

section \<open>Names and paths\<close>

definition joinRemotePath :: "jsstr \<Rightarrow> jsstr \<Rightarrow> jsstr" where
  "joinRemotePath parentPath name =
     (let normalizedParent = normalizeRemotePath (Some parentPath);
          cleanName = dropWhile (\<lambda>c. c = 47) (replace_unit 92 47 (js_trim name))
      in if cleanName = [] then normalizedParent
         else normalizeRemotePath (Some (if normalizedParent = js ''/'' then js ''/'' @ cleanName
                                         else normalizedParent @ js ''/'' @ cleanName)))"

definition remoteFileName :: "jsstr \<Rightarrow> jsstr" where
  "remoteFileName path =
     (let p = normalizeRemotePath (Some path)
      in if p = js ''/'' then js ''/''
         else (case rev (path_segments p) of name # _ \<Rightarrow> name | [] \<Rightarrow> p))"

definition localPathName :: "jsstr \<Rightarrow> jsstr" where
  "localPathName path =
     (let p = rev (dropWhile (\<lambda>c. c = 47) (rev (replace_unit 92 47 path)))
      in case rev (path_segments p) of name # _ \<Rightarrow> name | [] \<Rightarrow> js ''upload'')"

definition has_slash :: "jsstr \<Rightarrow> bool" where
  "has_slash s \<longleftrightarrow> 92 \<in> set s \<or> 47 \<in> set s"

definition isValidRemoteBaseName :: "jsstr \<Rightarrow> bool" where
  "isValidRemoteBaseName name =
     (let trimmed = js_trim name
      in trimmed \<noteq> [] \<and> trimmed \<noteq> js ''.'' \<and> trimmed \<noteq> js ''..'' \<and> \<not> has_slash trimmed)"

definition remoteFileNameValidationMessage :: "jsstr \<Rightarrow> jsstr" where
  "remoteFileNameValidationMessage name =
     (let trimmed = js_trim name
      in if trimmed = [] then [35831, 36755, 20837, 21517, 31216, 12290] \<comment> \<open>enter a name\<close>
         else if trimmed = js ''.'' \<or> trimmed = js ''..'' then [21517, 31216, 19981, 33021, 26159, 32, 46, 32, 25110, 32, 46, 46, 12290] \<comment> \<open>a name cannot be . or ..\<close>
         else if has_slash trimmed then [36825, 37324, 21482, 33021, 22635, 20889, 21517, 31216, 65292, 19981, 33021, 21253,
        21547, 36335, 24452, 12290] \<comment> \<open>only a name, no path\<close>
         else [35831, 36755, 20837, 26377, 25928, 21517, 31216, 12290])" \<comment> \<open>enter a valid name\<close>

datatype remote_text_action =
    CreateDirectory jsstr jsstr \<comment> \<open>connection and parent path\<close>
  | CreateFile jsstr jsstr
  | RenameEntry jsstr remote_entry

definition remoteFileActionTitle :: "remote_text_action \<Rightarrow> jsstr" where
  "remoteFileActionTitle action =
     (case action of
        CreateFile _ _ \<Rightarrow> [26032, 24314, 25991, 20214] \<comment> \<open>new file\<close>
      | CreateDirectory _ _ \<Rightarrow> [26032, 24314, 25991, 20214, 22841] \<comment> \<open>new folder\<close>
      | RenameEntry _ _ \<Rightarrow> [37325, 21629, 21517])" \<comment> \<open>rename\<close>

definition remoteFileActionDescription :: "remote_text_action \<Rightarrow> jsstr" where
  "remoteFileActionDescription action =
     [29238, 30446, 24405, 65306] @ \<comment> \<open>parent folder:\<close>
     (case action of
        RenameEntry _ entry \<Rightarrow> remotePathParent (Some (re_path entry))
      | CreateFile _ parent \<Rightarrow> parent
      | CreateDirectory _ parent \<Rightarrow> parent)"

section \<open>Deleting entries\<close>

text \<open>\<open>Map.set\<close> keeps the place of a path that is there and replaces the entry.\<close>

definition entries_by_path :: "remote_entry list \<Rightarrow> (jsstr \<times> remote_entry) list" where
  "entries_by_path entries =
     foldl (\<lambda>m e. let path = normalizeRemotePath (Some (re_path e)) in AList.update path (e\<lparr>re_path := path\<rparr>) m) [] entries"

definition delete_order_gt :: "(jsstr \<Rightarrow> jsstr \<Rightarrow> bool) \<Rightarrow> remote_entry \<Rightarrow> remote_entry \<Rightarrow> bool" where
  "delete_order_gt collate = lex_gt (key_gt (\<lambda>e. length (re_path e))) (\<lambda>a b. collate (re_path a) (re_path b))"

definition covered :: "remote_entry list \<Rightarrow> remote_entry \<Rightarrow> bool" where
  "covered collapsed e \<longleftrightarrow>
     list_ex (\<lambda>s. re_type s = KindDirectory \<and> isRemotePathStrictDescendant (Some (re_path e)) (Some (re_path s))) collapsed"

definition collapseRemoteFileDeleteEntries :: "(jsstr \<Rightarrow> jsstr \<Rightarrow> bool) \<Rightarrow> remote_entry list \<Rightarrow> remote_entry list" where
  "collapseRemoteFileDeleteEntries collate entries =
     foldl (\<lambda>collapsed e. if covered collapsed e then collapsed else collapsed @ [e]) []
       (js_sort (delete_order_gt collate) (map snd (entries_by_path entries)))"

definition uniqueRemoteParentPaths :: "remote_entry list \<Rightarrow> jsstr list" where
  "uniqueRemoteParentPaths entries = rev (remdups (rev (map (\<lambda>e. remotePathParent (Some (re_path e))) entries)))"

definition remoteFileDeleteDescription :: "remote_entry list \<Rightarrow> nat \<Rightarrow> nat \<Rightarrow> jsstr" where
  "remoteFileDeleteDescription entries affectedTabs dirtyTabs =
     (let base = (case entries of
            [entry] \<Rightarrow> [30830, 35748, 21024, 38500, 8220] @ re_path entry @ [8221, 21527, 65311, 36825, 20010, 25805, 20316, 26080, 27861, 25764, 38144, 12290]
          | _ \<Rightarrow> [30830, 35748, 21024, 38500, 36873, 20013, 30340, 32] @ dec_digits (length entries) @ [32, 20010, 36828, 31243, 26465, 30446, 21527, 65311, 36825, 20010, 25805, 20316,
        26080, 27861, 25764, 38144, 12290])
      in if 0 < dirtyTabs
         then base @ [32, 23558, 21516, 26102, 20851, 38381, 32] @ dec_digits affectedTabs @ [32, 20010, 24050, 25171, 24320, 25991, 20214, 65292, 20854, 20013, 32] @ dec_digits dirtyTabs
              @ [32, 20010, 26377, 26410, 20445, 23384, 20462, 25913, 12290]
         else if 0 < affectedTabs
         then base @ [32, 23558, 21516, 26102, 20851, 38381, 32] @ dec_digits affectedTabs @ [32, 20010, 24050, 25171, 24320, 25991, 20214, 12290]
         else base)"

section \<open>The entries a deletion removes\<close>

text \<open>A path as the server lists it: absolute, its parts without slashes and backslashes and not ending in white space.
  Normalising leaves it alone.\<close>

definition listed_path :: "jsstr \<Rightarrow> bool" where
  "listed_path p \<longleftrightarrow> (\<exists>segs. good_segments segs \<and> p = path_of segs)"

definition lies_below :: "jsstr \<Rightarrow> jsstr \<Rightarrow> bool" where
  "lies_below p d \<longleftrightarrow> p \<noteq> d \<and> (d = [47] \<or> prefix (d @ [47]) p)"

lemma listed_normal: "listed_path p \<Longrightarrow> normalizeRemotePath (Some p) = p"
  by (auto simp: listed_path_def path_of_normal)

lemma listed_absolute: "listed_path p \<Longrightarrow> \<exists>q. p = 47 # q"
  by (auto simp: listed_path_def path_of_def)

lemma below_descendant:
  "listed_path p \<Longrightarrow> listed_path d \<Longrightarrow> isRemotePathStrictDescendant (Some p) (Some d) = lies_below p d"
  by (auto simp: isRemotePathStrictDescendant_def listed_normal lies_below_def Let_def)

lemma below_longer: "lies_below p d \<Longrightarrow> listed_path p \<Longrightarrow> length d < length p"
proof -
  assume p: "lies_below p d" "listed_path p"
  obtain q where "p = 47 # q" using listed_absolute [OF p(2)] by blast
  then show ?thesis using p(1) by (cases q) (auto simp: lies_below_def dest!: prefix_length_le)
qed

lemma below_trans:
  assumes "lies_below p d" "lies_below d f" "listed_path p" "listed_path d" "listed_path f"
  shows "lies_below p f"
proof -
  have "length f < length p" using below_longer assms by (meson less_trans)
  moreover have "f = [47] \<or> prefix (f @ [47]) p"
  proof (cases "d = [47]")
    case True
    then show ?thesis using assms(2) listed_absolute [OF assms(5)] by (auto simp: lies_below_def dest!: prefix_length_le)
  next
    case False
    then have "prefix d p" using assms(1) by (auto simp: lies_below_def dest: append_prefixD)
    then show ?thesis using assms(2) by (auto simp: lies_below_def intro: prefix_order.trans)
  qed
  ultimately show ?thesis by (auto simp: lies_below_def)
qed

text \<open>Of entries with the same path the last one counts.\<close>

definition chosen_entries :: "remote_entry list \<Rightarrow> remote_entry set" where
  "chosen_entries entries = {e. \<exists>before behind. entries = before @ e # behind \<and> re_path e \<notin> re_path ` set behind}"

lemma chosen_snoc: "chosen_entries (entries @ [x]) = insert x {e \<in> chosen_entries entries. re_path e \<noteq> re_path x}"
proof -
  have "e \<in> chosen_entries (entries @ [x]) \<longleftrightarrow> e = x \<or> e \<in> chosen_entries entries \<and> re_path e \<noteq> re_path x" for e
  proof
    assume "e \<in> chosen_entries (entries @ [x])"
    then obtain before behind where split: "entries @ [x] = before @ e # behind" "re_path e \<notin> re_path ` set behind"
      by (auto simp: chosen_entries_def)
    then show "e = x \<or> e \<in> chosen_entries entries \<and> re_path e \<noteq> re_path x"
      by (cases behind rule: rev_cases) (auto simp: chosen_entries_def)
  next
    assume "e = x \<or> e \<in> chosen_entries entries \<and> re_path e \<noteq> re_path x"
    then show "e \<in> chosen_entries (entries @ [x])"
    proof
      assume "e \<in> chosen_entries entries \<and> re_path e \<noteq> re_path x"
      then obtain before behind where "entries = before @ e # behind" "re_path e \<notin> re_path ` set (behind @ [x])"
        by (auto simp: chosen_entries_def)
      then have "entries @ [x] = before @ e # (behind @ [x]) \<and> re_path e \<notin> re_path ` set (behind @ [x])" by simp
      then show ?thesis unfolding chosen_entries_def by blast
    next
      assume "e = x"
      then have "entries @ [x] = entries @ e # [] \<and> re_path e \<notin> re_path ` set []" by simp
      then show ?thesis unfolding chosen_entries_def by blast
    qed
  qed
  then show ?thesis by blast
qed

lemma chosen_in: "chosen_entries entries \<subseteq> set entries"
  by (auto simp: chosen_entries_def)

lemma chosen_paths: "re_path ` chosen_entries entries = re_path ` set entries"
proof (induction entries rule: rev_induct)
  case (snoc x entries)
  have "re_path ` {e \<in> chosen_entries entries. re_path e \<noteq> re_path x} = re_path ` chosen_entries entries - {re_path x}" by auto
  then show ?case using snoc by (simp add: chosen_snoc)
qed (simp add: chosen_entries_def)

lemma set_update_entry:
  "distinct (map fst m) \<Longrightarrow> set (AList.update k v m) = insert (k, v) {(k', v') \<in> set m. k' \<noteq> k}"
  by (induction m) (auto simp: image_iff)

lemma entries_by_path_distinct: "distinct (map fst (entries_by_path entries))"
  by (induction entries rule: rev_induct) (simp_all add: entries_by_path_def Let_def distinct_update)

lemma entries_by_path_set:
  "\<forall>e\<in>set entries. listed_path (re_path e) \<Longrightarrow> set (entries_by_path entries) = (\<lambda>e. (re_path e, e)) ` chosen_entries entries"
proof (induction entries rule: rev_induct)
  case (snoc x entries)
  have "entries_by_path (entries @ [x]) = AList.update (re_path x) x (entries_by_path entries)"
    using snoc.prems by (simp add: entries_by_path_def listed_normal Let_def)
  moreover note set_update_entry [OF entries_by_path_distinct]
  ultimately show ?case using snoc by (auto simp: chosen_snoc)
qed (simp add: entries_by_path_def chosen_entries_def)

lemma covered_mono: "covered xs e \<Longrightarrow> covered (xs @ ys) e"
  by (simp add: covered_def)

definition collapse_step :: "remote_entry list \<Rightarrow> remote_entry \<Rightarrow> remote_entry list" where
  "collapse_step collapsed e = (if covered collapsed e then collapsed else collapsed @ [e])"

lemma collapse_step_simps [simp]:
  "covered xs e \<Longrightarrow> collapse_step xs e = xs"
  "\<not> covered xs e \<Longrightarrow> collapse_step xs e = xs @ [e]"
  by (simp_all add: collapse_step_def)

lemma collapse_extends: "\<exists>ys. foldl collapse_step xs es = xs @ ys \<and> set ys \<subseteq> set es"
proof (induction es arbitrary: xs)
  case (Cons e es)
  obtain ys where "foldl collapse_step (collapse_step xs e) es = collapse_step xs e @ ys" "set ys \<subseteq> set es"
    using Cons.IH by blast
  then show ?case by (cases "covered xs e") auto
qed simp

lemma collapse_covers: "e \<in> set es \<Longrightarrow> e \<in> set (foldl collapse_step xs es) \<or> covered (foldl collapse_step xs es) e"
proof (induction es arbitrary: xs)
  case (Cons x es)
  obtain ys where "foldl collapse_step (collapse_step xs x) es = collapse_step xs x @ ys" using collapse_extends by blast
  then show ?case using Cons.IH [of "collapse_step xs x"] Cons.prems by (cases "covered xs x") (auto dest: covered_mono)
qed simp

text \<open>Kept entries keep their order, and no kept entry lies below a folder kept before it.\<close>

lemma collapse_kept:
  assumes "sorted_wrt P (xs @ es)" "sorted_wrt (\<lambda>a b. \<not> covered [a] b) xs" "distinct (map re_path (xs @ es))"
  shows "sorted_wrt P (foldl collapse_step xs es) \<and> sorted_wrt (\<lambda>a b. \<not> covered [a] b) (foldl collapse_step xs es)
    \<and> distinct (map re_path (foldl collapse_step xs es))"
  using assms
proof (induction es arbitrary: xs)
  case (Cons e es)
  show ?case
  proof (cases "covered xs e")
    case True
    then show ?thesis using Cons by (simp add: sorted_wrt_append)
  next
    case False
    then have "sorted_wrt (\<lambda>a b. \<not> covered [a] b) (xs @ [e])"
      using Cons.prems(2) by (auto simp: sorted_wrt_append covered_def list_ex_iff)
    then show ?thesis using False Cons.IH [of "xs @ [e]"] Cons.prems(1,3) by simp
  qed
qed simp

lemma sorted_wrt_pair:
  "sorted_wrt P xs \<Longrightarrow> sorted_wrt Q xs \<Longrightarrow> a \<in> set xs \<Longrightarrow> b \<in> set xs \<Longrightarrow> a \<noteq> b \<Longrightarrow> P a b \<and> Q a b \<or> P b a \<and> Q b a"
  by (induction xs) auto

lemma delete_order_sorted:
  assumes "js_comparator collate"
  shows "sorted_wrt (\<lambda>a b. length (re_path a) \<le> length (re_path b)) (js_sort (delete_order_gt collate) es)"
proof -
  have "js_comparator (delete_order_gt collate)"
    unfolding delete_order_gt_def
    by (rule js_comparator_lex [OF js_comparator_key]) (use assms in \<open>unfold js_comparator_def, blast\<close>)
  from js_comparator.sorted_js_sort [OF this] show ?thesis
    by (rule sorted_wrt_mono_rel [rotated]) (auto simp: delete_order_gt_def lex_gt_def key_gt_def)
qed

text \<open>C21. A deletion works through exactly those selected entries that no selected folder lies above, each once and the
  shorter paths first, so that every selected entry is removed, by itself or with a folder above it, and nothing that was not
  selected is named. Of entries with the same path the last one counts. This is for paths as
  servers list them, absolute and with parts that hold no backslash and do not end in white space: others are
  changed before they are compared, and the deletion then names another entry.\<close>

theorem delete_list_exact:
  assumes "js_comparator collate" "\<forall>e\<in>set entries. listed_path (re_path e)"
  shows "let removed = collapseRemoteFileDeleteEntries collate entries;
             chosen = {e. \<exists>before behind. entries = before @ e # behind \<and> re_path e \<notin> re_path ` set behind}
    in set removed = {e \<in> chosen. \<not> (\<exists>s\<in>chosen. re_type s = KindDirectory \<and> lies_below (re_path e) (re_path s))}
       \<and> distinct (map re_path removed) \<and> sorted_wrt (\<lambda>a b. length (re_path a) \<le> length (re_path b)) removed
       \<and> (\<forall>e\<in>set entries. \<exists>r\<in>set removed. re_path r = re_path e
            \<or> re_type r = KindDirectory \<and> lies_below (re_path e) (re_path r))"
proof -
  let ?es = "map snd (entries_by_path entries)"
  let ?L = "js_sort (delete_order_gt collate) ?es"
  define R where "R = collapseRemoteFileDeleteEntries collate entries"
  have R: "R = foldl collapse_step [] ?L"
    by (simp add: R_def collapseRemoteFileDeleteEntries_def collapse_step_def [abs_def])
  note by_path = entries_by_path_set [OF assms(2)]
  have chosen: "set ?L = chosen_entries entries" by (simp add: by_path image_image)
  have listed: "listed_path (re_path e)" if "e \<in> chosen_entries entries" for e using that assms(2) chosen_in by blast
  have "map re_path ?es = map fst (entries_by_path entries)" using by_path by (auto simp: map_eq_conv)
  with entries_by_path_distinct [of entries] have L: "sorted_wrt (\<lambda>a b. length (re_path a) \<le> length (re_path b)) ?L" "distinct (map re_path ?L)"
    by - (rule delete_order_sorted [OF assms(1)], simp only: distinct_js_sort)
  note kept = collapse_kept [of _ "[]", unfolded append_Nil, OF L(1) _ L(2), folded R, simplified]
  obtain ys where "R = [] @ ys" "set ys \<subseteq> set ?L" unfolding R using collapse_extends by blast
  then have sub: "set R \<subseteq> chosen_entries entries" using chosen by simp
  have cov: "covered R e \<longleftrightarrow> (\<exists>s\<in>set R. re_type s = KindDirectory \<and> lies_below (re_path e) (re_path s))"
    if e: "e \<in> chosen_entries entries" for e
  proof -
    have "isRemotePathStrictDescendant (Some (re_path e)) (Some (re_path s)) = lies_below (re_path e) (re_path s)"
      if "s \<in> set R" for s
      using below_descendant listed sub e that by blast
    then show ?thesis by (auto simp: covered_def list_ex_iff)
  qed
  have none: "\<not> covered R r" if r: "r \<in> set R" for r
  proof
    assume "covered R r"
    then obtain f where f: "f \<in> set R" "re_type f = KindDirectory" "lies_below (re_path r) (re_path f)" using cov r sub by blast
    then have "covered [f] r" using below_descendant [of "re_path r" "re_path f"] listed sub r by (simp add: covered_def subset_iff)
    moreover have "length (re_path f) < length (re_path r)" using below_longer f(3) listed r sub by blast
    ultimately show False using sorted_wrt_pair [of _ R _ f r] kept f(1) r by fastforce
  qed
  have reached: "e \<in> set R \<or> covered R e" if "e \<in> chosen_entries entries" for e
    using collapse_covers [of e ?L "[]", folded R] that chosen by blast
  have above: "covered R e" if es: "e \<in> chosen_entries entries" "s \<in> chosen_entries entries" "re_type s = KindDirectory"
    "lies_below (re_path e) (re_path s)" for e s
    using reached [OF es(2)]
  proof
    assume "covered R s"
    then obtain f where "f \<in> set R" "re_type f = KindDirectory" "lies_below (re_path s) (re_path f)" using cov es(2) by blast
    moreover from this have "lies_below (re_path e) (re_path f)" using below_trans [of "re_path e" "re_path s" "re_path f"] es listed sub by blast
    ultimately show ?thesis using cov es(1) by blast
  qed (use cov es in blast)
  have "set R = {e \<in> chosen_entries entries. \<not> (\<exists>s\<in>chosen_entries entries.
      re_type s = KindDirectory \<and> lies_below (re_path e) (re_path s))}"
    using sub none reached above cov by blast
  moreover have "\<exists>r\<in>set R. re_path r = re_path e \<or> re_type r = KindDirectory \<and> lies_below (re_path e) (re_path r)"
    if e: "e \<in> set entries" for e
  proof -
    have "re_path e \<in> re_path ` chosen_entries entries" using e by (simp add: chosen_paths)
    then obtain c where "c \<in> chosen_entries entries" "re_path c = re_path e" by (metis imageE)
    then show ?thesis using reached cov by metis
  qed
  moreover have "distinct (map re_path R)" "sorted_wrt (\<lambda>a b. length (re_path a) \<le> length (re_path b)) R"
    using kept by blast+
  ultimately show ?thesis
    unfolding Let_def R_def [symmetric] chosen_entries_def [symmetric] by (intro conjI ballI) assumption+
qed

definition sample_entries :: "remote_entry list" where
  "sample_entries = [\<lparr>re_name = js ''b'', re_path = js ''/a/b'', re_type = KindFile\<rparr>,
     \<lparr>re_name = js ''a'', re_path = js ''/a'', re_type = KindDirectory\<rparr>]"

theorem delete_list_exact_witness:
  "distinct (map re_path (collapseRemoteFileDeleteEntries (\<lambda>a b. False) sample_entries))
   \<and> map re_path (collapseRemoteFileDeleteEntries (\<lambda>a b. False) sample_entries) = [js ''/a'']"
proof -
  have n: "normalizeRemotePath (Some (js s)) = js s" if "s \<in> {''/a'', ''/a/b''}" for s
    using that by (auto simp: normalizeRemotePath_def opt_str_or_def str_or_def js_def js_trim_id is_ws_def replace_unit_def
        strip_last_slash_def Let_def)
  have eval: "map re_path (collapseRemoteFileDeleteEntries (\<lambda>a b. False) sample_entries) = [js ''/a'']"
    using n by (simp add: collapseRemoteFileDeleteEntries_def entries_by_path_def delete_order_gt_def lex_gt_def key_gt_def
        covered_def isRemotePathStrictDescendant_def Let_def sample_entries_def) (simp add: js_def)
  have "js_comparator (\<lambda>a b :: jsstr. False)" by unfold_locales auto
  moreover have "js ''/a'' = path_of [js ''a'']" "js ''/a/b'' = path_of [js ''a'', js ''b'']"
    "good_segments [js ''a'']" "good_segments [js ''a'', js ''b'']"
    by (simp_all add: path_of_def good_segments_def js_def is_ws_def)
  then have "\<forall>e\<in>set sample_entries. listed_path (re_path e)"
    by (simp add: sample_entries_def listed_path_def) blast
  ultimately show ?thesis
    using delete_list_exact [of "\<lambda>a b. False" sample_entries] eval unfolding Let_def by blast
qed

text \<open>Normalising trims: an entry whose name ends in a space stands in the list under the path of another entry.\<close>

lemma trailing_space_deletes_other:
  "map re_path (collapseRemoteFileDeleteEntries collate [\<lparr>re_name = js ''a '', re_path = js ''/a '', re_type = t\<rparr>]) = [js ''/a'']"
proof -
  have "js_trim (js ''/a '') = js ''/a''"
    by (simp add: js_def js_trim_def js_trim_start_def js_trim_end_def is_ws_def)
  then show ?thesis
    by (simp add: collapseRemoteFileDeleteEntries_def entries_by_path_def covered_def normalizeRemotePath_def opt_str_or_def
        str_or_def replace_unit_def strip_last_slash_def Let_def) (simp add: js_def)
qed

end
