(* ===== verification/Connection_Types.thy ===== *)
theory Connection_Types
  imports Js_Number
begin

text \<open>
  The data of connections: \<open>src/features/connections/connectionTypes.ts\<close> and the enumerations of
  \<open>src/features/terminal/characterSessionTypes.ts\<close>. A field the sources read with \<open>?.\<close> or give
  a default with \<open>||\<close> or \<open>??\<close> may be absent and is an option, so that a form's input and a
  normalised configuration have one type; what normalising guarantees is proved, not built in.
  The encoding stays a string, as the normaliser treats it.
\<close>

section \<open>Enumerations\<close>

datatype auth_kind = AuthPassword | AuthPrivateKey
datatype credential_mode = CredSaved | CredInline | CredPrompt
datatype jump_kind = JumpNone | JumpSsh
datatype protocol = ProtoSsh | ProtoRdp | ProtoVnc | ProtoTelnet | ProtoSerial
datatype proxy_kind = ProxyNone | ProxyHttpConnect | ProxySocks5
datatype rdp_display_mode = RdpEmbedded | RdpWindowed | RdpFullscreen | RdpAllMonitors
datatype rdp_audio = AudioLocal | AudioRemote | AudioDisabled
datatype rdp_gateway_mode = GatewayDisabled | GatewayAuto | GatewayExplicit
datatype rdp_gateway_source = GatewaySame | GatewayPrompt
datatype rdp_preset = RdpAuto | RdpLan | RdpBalanced | RdpLowBandwidth
datatype rdp_credential_mode = RdpCredPrompt | RdpCredSaved | RdpCredOsStore
datatype rdp_nla = NlaAuto | NlaEnabled | NlaDisabled
datatype rdp_certificate = CertTrust | CertPrompt | CertStrict
datatype rdp_render = RdpRenderEmbedded | RdpRenderExternal | RdpRenderCustom
datatype rdp_runner_kind = MstscActivex | Mstsc | Freerdp | MacosApp | RdpCustom
datatype platform = PlatWindows | PlatLinux | PlatMacos | PlatUnknown
datatype vnc_scale = ScaleFit | ScaleStretch | ScaleActual
datatype vnc_preset = VncAuto | VncQuality | VncBalanced | VncLowBandwidth
datatype vnc_credential_mode = VncCredPrompt | VncCredSaved
datatype vnc_render = VncRenderEmbedded | VncRenderWindowed | VncRenderExternal | VncRenderCustom
datatype vnc_runner_kind = Novnc | Vncviewer | Tigervnc | Realvnc | VncCustom
datatype enter_mode = EnterCr | EnterLf | EnterCrlf
datatype backspace_mode = BackDel | BackCtrlH
datatype serial_data_bits = BitsFive | BitsSix | BitsSeven | BitsEight
datatype serial_parity = ParityNone | ParityOdd | ParityEven
datatype serial_stop_bits = StopOne | StopTwo
datatype serial_flow = FlowNone | FlowSoftware | FlowHardware

section \<open>Configurations\<close>

record jump_config =
  jc_kind :: jump_kind
  jc_jump_connection_id :: "jsstr option"

record proxy_config =
  px_kind :: proxy_kind
  px_host :: "jsstr option"
  px_port :: "jsnum option"
  px_username :: "jsstr option"
  px_password :: "jsstr option"

record x11_config =
  x11_enabled :: "bool option"
  x11_trusted :: "bool option"
  x11_display :: "jsstr option"
  x11_xauth_path :: "jsstr option"

record advanced_config =
  ad_connect_timeout_ms :: jsnum
  ad_auth_timeout_ms :: jsnum
  ad_keepalive_interval_ms :: jsnum
  ad_terminal_encoding :: "jsstr option"
  ad_x11_forwarding :: "x11_config option"

record rdp_display =
  rd_mode :: "rdp_display_mode option"
  rd_width :: "jsnum option"
  rd_height :: "jsnum option"
  rd_dynamic_resize :: "bool option"
  rd_use_multimon :: "bool option"

record rdp_resources =
  rr_clipboard :: "bool option"
  rr_audio :: "rdp_audio option"
  rr_drives :: "bool option"
  rr_printers :: "bool option"
  rr_smart_cards :: "bool option"

record rdp_gateway =
  rg_mode :: "rdp_gateway_mode option"
  rg_host :: "jsstr option"
  rg_credential_source :: "rdp_gateway_source option"

record rdp_remote_app =
  ra_enabled :: "bool option"
  ra_program :: "jsstr option"
  ra_working_dir :: "jsstr option"
  ra_args :: "jsstr option"

record rdp_performance =
  rp_preset :: "rdp_preset option"
  rp_desktop_background :: "bool option"
  rp_font_smoothing :: "bool option"
  rp_visual_styles :: "bool option"

record rdp_security =
  rs_credential_mode :: "rdp_credential_mode option"
  rs_nla :: "rdp_nla option"
  rs_certificate_policy :: "rdp_certificate option"

record rdp_runner =
  rn_render_mode :: "rdp_render option"
  rn_preferred_runner :: "rdp_runner_kind option"
  rn_custom_executable :: "jsstr option"
  rn_custom_args_template :: "jsstr option"

record rdp_config =
  rc_domain :: "jsstr option"
  rc_display :: "rdp_display option"
  rc_resources :: "rdp_resources option"
  rc_gateway :: "rdp_gateway option"
  rc_remote_app :: "rdp_remote_app option"
  rc_performance :: "rdp_performance option"
  rc_security :: "rdp_security option"
  rc_runner :: "rdp_runner option"
  rc_raw_rdp_settings :: "jsstr option"
  rc_raw_runner_args :: "jsstr option"

record vnc_display =
  vd_scale_mode :: "vnc_scale option"
  vd_resize_session :: "bool option"
  vd_clip_viewport :: "bool option"

record vnc_input =
  vi_view_only :: "bool option"
  vi_clipboard :: "bool option"
  vi_shared :: "bool option"

record vnc_performance =
  vp_preset :: "vnc_preset option"
  vp_quality_level :: "jsnum option"
  vp_compression_level :: "jsnum option"

record vnc_security =
  vs_credential_mode :: "vnc_credential_mode option"

record vnc_runner =
  vn_render_mode :: "vnc_render option"
  vn_preferred_runner :: "vnc_runner_kind option"
  vn_custom_executable :: "jsstr option"
  vn_custom_args_template :: "jsstr option"

record vnc_config =
  vc_display :: "vnc_display option"
  vc_input :: "vnc_input option"
  vc_performance :: "vnc_performance option"
  vc_security :: "vnc_security option"
  vc_runner :: "vnc_runner option"
  vc_raw_runner_args :: "jsstr option"

record telnet_config =
  tc_enter_mode :: "enter_mode option"
  tc_backspace_mode :: "backspace_mode option"

record serial_config =
  sc_port_name :: "jsstr option"
  sc_baud_rate :: "jsnum option"
  sc_data_bits :: "serial_data_bits option"
  sc_parity :: "serial_parity option"
  sc_stop_bits :: "serial_stop_bits option"
  sc_flow_control :: "serial_flow option"
  sc_backspace_mode :: "backspace_mode option"

section \<open>Profiles and their inputs\<close>

record connection_profile =
  cp_id :: jsstr
  cp_name :: jsstr
  cp_protocol :: "protocol option"
  cp_group :: "jsstr option"
  cp_host :: jsstr
  cp_port :: jsnum
  cp_username :: jsstr
  cp_credential_mode :: "credential_mode option"
  cp_credential_id :: "jsstr option"
  cp_inline_auth_kind :: "auth_kind option"
  cp_inline_password :: "jsstr option"
  cp_inline_private_key_path :: "jsstr option"
  cp_inline_private_key_passphrase :: "jsstr option"
  cp_prompt_auth_kind :: "auth_kind option"
  cp_proxy :: "proxy_config option"
  cp_jump :: "jump_config option"
  cp_advanced :: "advanced_config option"
  cp_rdp :: "rdp_config option"
  cp_vnc :: "vnc_config option"
  cp_telnet :: "telnet_config option"
  cp_serial :: "serial_config option"
  cp_notes :: "jsstr option"
  cp_is_favorite :: bool
  cp_last_connected_at :: "jsstr option"
  cp_remote_os_id :: "jsstr option"
  cp_remote_os_name :: "jsstr option"
  cp_remote_os_version :: "jsstr option"
  cp_created_at :: jsstr
  cp_updated_at :: jsstr
  cp_auth_kind :: "auth_kind option"
  cp_password :: "jsstr option"
  cp_private_key_path :: "jsstr option"
  cp_private_key_passphrase :: "jsstr option"

record connection_input =
  ci_id :: "jsstr option"
  ci_source_connection_id :: "jsstr option"
  ci_protocol :: "protocol option"
  ci_name :: "jsstr option"
  ci_group :: "jsstr option"
  ci_host :: jsstr
  ci_port :: jsnum
  ci_username :: jsstr
  ci_credential_mode :: "credential_mode option"
  ci_credential_id :: "jsstr option"
  ci_inline_auth_kind :: "auth_kind option"
  ci_inline_password :: "jsstr option"
  ci_inline_password_touched :: "bool option"
  ci_inline_private_key_path :: "jsstr option"
  ci_inline_private_key_passphrase :: "jsstr option"
  ci_inline_private_key_passphrase_touched :: "bool option"
  ci_prompt_auth_kind :: "auth_kind option"
  ci_proxy :: "proxy_config option"
  ci_jump :: "jump_config option"
  ci_advanced :: "advanced_config option"
  ci_rdp :: "rdp_config option"
  ci_vnc :: "vnc_config option"
  ci_telnet :: "telnet_config option"
  ci_serial :: "serial_config option"
  ci_notes :: "jsstr option"
  ci_is_favorite :: "bool option"
  ci_last_connected_at :: "jsstr option"
  ci_remote_os_id :: "jsstr option"
  ci_remote_os_name :: "jsstr option"
  ci_remote_os_version :: "jsstr option"
  ci_auth_kind :: "auth_kind option"
  ci_password :: "jsstr option"
  ci_private_key_path :: "jsstr option"
  ci_private_key_passphrase :: "jsstr option"

record credential_profile =
  cr_id :: jsstr
  cr_name :: jsstr
  cr_username :: "jsstr option"
  cr_kind :: auth_kind
  cr_password :: "jsstr option"
  cr_private_key_path :: "jsstr option"
  cr_private_key_passphrase :: "jsstr option"
  cr_notes :: "jsstr option"
  cr_created_at :: jsstr
  cr_updated_at :: jsstr

record credential_input =
  cri_id :: "jsstr option"
  cri_name :: "jsstr option"
  cri_username :: "jsstr option"
  cri_kind :: auth_kind
  cri_password :: "jsstr option"
  cri_password_touched :: "bool option"
  cri_private_key_path :: "jsstr option"
  cri_private_key_passphrase :: "jsstr option"
  cri_private_key_passphrase_touched :: "bool option"
  cri_notes :: "jsstr option"

end
