(* ===== verification/Js_Value.thy ===== *)
theory Js_Value
  imports Js_Number
begin

text \<open>
  A value of type \<open>unknown\<close>: what \<open>JSON.parse\<close> returns or a caller passes. An object has its own
  properties in order; an absent property reads as \<open>JUndefined\<close>. Properties inherited from
  \<open>Object.prototype\<close> are not part of the model; the one place where they matter
  (\<open>Shortcut_Keys\<close>) treats them explicitly.
\<close>

datatype json = JUndefined | JNull | JBool bool | JNumber jsnum | JString jsstr
  | JArray "json list" | JObject "(jsstr \<times> json) list"

definition js_get :: "json \<Rightarrow> jsstr \<Rightarrow> json" where
  "js_get v k = (case v of JObject kvs \<Rightarrow> (case map_of kvs k of Some x \<Rightarrow> x | None \<Rightarrow> JUndefined) | _ \<Rightarrow> JUndefined)"

definition js_has :: "json \<Rightarrow> jsstr \<Rightarrow> bool" where
  "js_has v k = (case v of JObject kvs \<Rightarrow> map_of kvs k \<noteq> None | _ \<Rightarrow> False)"

definition is_string :: "json \<Rightarrow> bool" where
  "is_string v = (case v of JString _ \<Rightarrow> True | _ \<Rightarrow> False)"

definition is_number :: "json \<Rightarrow> bool" where
  "is_number v = (case v of JNumber _ \<Rightarrow> True | _ \<Rightarrow> False)"

definition js_truthy :: "json \<Rightarrow> bool" where
  "js_truthy v = (case v of JUndefined \<Rightarrow> False | JNull \<Rightarrow> False | JBool b \<Rightarrow> b
     | JNumber n \<Rightarrow> n \<noteq> NaN \<and> n \<noteq> Num 0 | JString t \<Rightarrow> t \<noteq> [] | _ \<Rightarrow> True)"

definition is_record :: "json \<Rightarrow> bool" where
  "is_record v = (case v of JObject _ \<Rightarrow> True | _ \<Rightarrow> False)"

end
