(* ===== verification/Connection_Steps.thy ===== *)
theory Connection_Steps
  imports Connection_Types Js_Value
begin

text \<open>
  How the interface presents the progress and the errors of a connection:
  \<open>src/features/connections/connectionStepPresentation.ts\<close>, the labels of
  \<open>connectionTypes.ts\<close> and the host key errors of \<open>hostKeyErrors.ts\<close>. Error codes, stages and
  messages are strings; the texts shown are lists of code units.
\<close>

section \<open>Labels of clients\<close>

definition formatRdpRunnerKind :: "rdp_runner_kind option \<Rightarrow> jsstr" where
  "formatRdpRunnerKind runner =
     (case runner of
        Some MstscActivex \<Rightarrow> js ''Windows embedded RDP''
      | Some Mstsc \<Rightarrow> js ''mstsc.exe''
      | Some Freerdp \<Rightarrow> js ''FreeRDP''
      | Some MacosApp \<Rightarrow> [109, 97, 99, 79, 83, 32, 31995, 32479, 32, 82, 68, 80, 32, 23458, 25143, 31471]
      | Some RdpCustom \<Rightarrow> [33258, 23450, 20041, 32, 82, 68, 80, 32, 23458, 25143, 31471]
      | None \<Rightarrow> [33258, 21160, 36873, 25321])"

definition rdpExternalModeLabelForPlatform :: "platform option \<Rightarrow> jsstr" where
  "rdpExternalModeLabelForPlatform plat =
     (if plat = Some PlatMacos then [31995, 32479, 32, 82, 68, 80, 32, 23458, 25143, 31471]
      else if plat = Some PlatLinux then js ''FreeRDP''
      else [109, 115, 116, 115, 99, 46, 101, 120, 101, 32, 27169, 24335])"

definition rdpExternalModeNoteForPlatform :: "platform option \<Rightarrow> jsstr" where
  "rdpExternalModeNoteForPlatform plat =
     (if plat = Some PlatMacos then
        [31995, 32479, 32, 82, 68, 80, 32, 23458, 25143, 31471, 27169, 24335, 20250, 36890,
        36807, 32, 87, 105, 110, 100, 111, 119, 115, 32, 65, 112, 112, 32, 47, 32, 77, 105,
        99, 114, 111, 115, 111, 102, 116, 32, 82, 101, 109, 111, 116, 101, 32, 68, 101,
        115, 107, 116, 111, 112, 32, 25171, 24320, 32, 46, 114, 100, 112, 32, 25991, 20214,
        65292, 36866, 21512, 38656, 35201, 23448, 26041, 23458, 25143, 31471, 20860, 23481,
        34892, 20026, 30340, 22330, 26223, 12290]
      else if plat = Some PlatLinux then
        [70, 114, 101, 101, 82, 68, 80, 32, 27169, 24335, 20250, 36890, 36807, 31995, 32479,
        32, 70, 114, 101, 101, 82, 68, 80, 32, 23458, 25143, 31471, 25171, 24320, 65292,
        36866, 21512, 38656, 35201, 22806, 37096, 23458, 25143, 31471, 20860, 23481, 34892,
        20026, 30340, 22330, 26223, 12290]
      else
        [109, 115, 116, 115, 99, 46, 101, 120, 101, 32, 27169, 24335, 20250, 36890, 36807,
        31995, 32479, 36828, 31243, 26700, 38754, 23458, 25143, 31471, 25171, 24320, 65292,
        36866, 21512, 38656, 35201, 31995, 32479, 23458, 25143, 31471, 20860, 23481, 34892,
        20026, 30340, 22330, 26223, 12290])"

definition formatVncRunnerKind :: "vnc_runner_kind option \<Rightarrow> jsstr" where
  "formatVncRunnerKind runner =
     (case runner of
        Some Novnc \<Rightarrow> [110, 111, 86, 78, 67, 32, 20869, 23884]
      | Some Vncviewer \<Rightarrow> js ''VNC Viewer''
      | Some Tigervnc \<Rightarrow> js ''TigerVNC''
      | Some Realvnc \<Rightarrow> js ''RealVNC''
      | Some VncCustom \<Rightarrow> [33258, 23450, 20041, 32, 86, 78, 67, 32, 23458, 25143, 31471]
      | None \<Rightarrow> [33258, 21160, 36873, 25321])"

section \<open>X11\<close>

record x11_step =
  xs_index :: nat
  xs_label :: jsstr
  xs_description :: jsstr
  xs_suggestion :: jsstr

definition x11_channel_codes :: "jsstr list" where
  "x11_channel_codes =
     [js ''x11_auth_expired'', js ''x11_channel_limit'', js ''x11_auth_rejected'',
      js ''x11_setup_invalid'', js ''x11_stream_failed'', js ''x11_not_active'']"

definition x11ErrorContext :: "jsstr \<Rightarrow> x11_step option" where
  "x11ErrorContext code =
     (if \<not> prefix (js ''x11_'') code then None
      else if prefix (js ''x11_request_'') code then
        Some \<lparr>xs_index = 4,
          xs_label = [83, 83, 72, 32, 88, 49, 49, 32, 36716, 21457, 35831, 27714],
          xs_description = [31561, 24453, 32, 83, 83, 72, 32, 26381, 21153, 31471, 30830, 35748, 32, 88, 49,
        49, 32, 36716, 21457],
          xs_suggestion = [26816, 26597, 32, 83, 83, 72, 32, 26381, 21153, 31471, 30340, 32, 88, 49, 49, 70,
        111, 114, 119, 97, 114, 100, 105, 110, 103, 12289, 120, 97, 117, 116, 104, 32,
        21644, 36716, 21457, 31574, 30053, 65292, 24182, 26597, 30475, 32, 115, 115, 104,
        100, 32, 26085, 24535, 12290]\<rparr>
      else if code \<in> set x11_channel_codes then
        Some \<lparr>xs_index = 4,
          xs_label = [88, 49, 49, 32, 25968, 25454, 36716, 21457],
          xs_description = [22788, 29702, 22270, 24418, 31243, 24207, 30340, 32, 88, 49, 49, 32, 36830, 25509],
          xs_suggestion = [26816, 26597, 24403, 21069, 32, 83, 83, 72, 32, 20250, 35805, 30340, 32, 68, 73,
        83, 80, 76, 65, 89, 32, 21644, 32, 88, 49, 49, 32, 25480, 26435, 65307, 25480,
        26435, 21040, 26399, 26102, 37325, 26032, 36830, 25509, 32, 83, 83, 72, 12290]\<rparr>
      else
        Some \<lparr>xs_index = 0,
          xs_label = [26412, 22320, 32, 88, 49, 49, 32, 20934, 22791],
          xs_description = [26816, 26597, 26412, 26426, 32, 88, 32, 83, 101, 114, 118, 101, 114, 12289, 68,
        105, 115, 112, 108, 97, 121, 32, 21644, 35748, 35777, 25991, 20214],
          xs_suggestion =
            (if prefix (js ''x11_authority_'') code \<or> code = js ''x11_cookie_missing'' then
               [26680, 23545, 38169, 35823, 35814, 24773, 20013, 30340, 35748, 35777, 25991, 20214,
        36335, 24452, 21644, 26435, 38480, 65307, 20462, 25913, 32, 88, 65, 85, 84, 72, 79,
        82, 73, 84, 89, 32, 21518, 23436, 20840, 36864, 20986, 24182, 37325, 21551, 32,
        109, 88, 116, 101, 114, 109, 12290, 19981, 35201, 21024, 38500, 27491, 22312,
        20351, 29992, 30340, 35748, 35777, 25991, 20214, 25110, 38145, 25991, 20214, 12290]
             else
               [26816, 26597, 26412, 26426, 32, 88, 32, 83, 101, 114, 118, 101, 114, 12289, 68,
        105, 115, 112, 108, 97, 121, 12289, 120, 97, 117, 116, 104, 32, 21644, 35748,
        35777, 35774, 32622, 65307, 26412, 22320, 26816, 26597, 36890, 36807, 21518, 25165,
        20250, 24314, 31435, 32, 83, 83, 72, 32, 32593, 32476, 36830, 25509, 12290])\<rparr>)"

definition connectionX11Step :: "jsstr option \<Rightarrow> jsstr option \<Rightarrow> x11_step option" where
  "connectionX11Step stage errorCode =
     (case opt_truthy errorCode of
        Some code \<Rightarrow> x11ErrorContext code
      | None \<Rightarrow>
          if stage = Some (js ''x11_preparing'') then x11ErrorContext (js ''x11_xauth_failed'')
          else if stage = Some (js ''x11_requesting'') \<or> stage = Some (js ''x11_ready'')
          then x11ErrorContext (js ''x11_request_denied'')
          else None)"

section \<open>Steps\<close>

definition connectionProgressIndex :: "jsstr \<Rightarrow> nat option" where
  "connectionProgressIndex stage =
     (if stage = js ''x11_preparing'' then Some 0
      else if stage = js ''tcp_connecting'' then Some 1
      else if stage = js ''tcp_connected'' then Some 2
      else if stage \<in> set [js ''authenticating'', js ''authenticated''] then Some 3
      else if stage \<in> set [js ''channel_opening'', js ''x11_requesting'', js ''x11_ready'',
                js ''pty_requesting'', js ''pty_ready'', js ''shell_starting'', js ''shell_ready'']
      then Some 4
      else None)"

definition connectionStepErrorIndex :: "jsstr \<Rightarrow> nat" where
  "connectionStepErrorIndex code =
     (case x11ErrorContext code of
        Some x11 \<Rightarrow> xs_index x11
      | None \<Rightarrow>
          if code \<in> set [js ''terminal_tcp_connect_failed'', js ''terminal_connect_failed'', js ''terminal_connect_timeout'']
             \<or> prefix (js ''proxy_'') code then 1
          else if code \<in> set [js ''host_key_unknown'', js ''host_key_changed''] then 2
          else if code \<in> set [js ''terminal_auth_failed'', js ''terminal_auth_rejected'', js ''terminal_auth_timeout'',
                    js ''terminal_auth_missing'', js ''terminal_private_key_invalid'']
             \<or> prefix (js ''credential_'') code \<or> prefix (js ''connection_credential_'') code then 3
          else if code \<in> set [js ''terminal_channel_open_failed'', js ''terminal_pty_failed'', js ''terminal_shell_failed'']
          then 4
          else 1)"

definition isConnectionTimeoutError :: "jsstr \<Rightarrow> jsstr \<Rightarrow> bool" where
  "isConnectionTimeoutError code raw \<longleftrightarrow>
     sublist (js ''connect_timeout'') code \<or> code = js ''terminal_tcp_connect_timeout''
     \<or> sublist (js ''timeout'') raw \<or> sublist (js ''timed out'') raw \<or> sublist (js ''operation timed out'') raw"

definition label_connect_timeout :: jsstr where \<comment> \<open>network connection timed out\<close>
  "label_connect_timeout = [32593, 32476, 36830, 25509, 36229, 26102]"

definition label_network_stage :: jsstr where \<comment> \<open>network connection stage\<close>
  "label_network_stage = [32593, 32476, 36830, 25509, 38454, 27573]"

definition label_host_key_stage :: jsstr where \<comment> \<open>host key stage\<close>
  "label_host_key_stage = [20027, 26426, 23494, 38053, 38454, 27573]"

definition label_auth_stage :: jsstr where \<comment> \<open>user authentication stage\<close>
  "label_auth_stage = [29992, 25143, 35748, 35777, 38454, 27573]"

definition label_terminal_stage :: jsstr where \<comment> \<open>remote terminal initialisation stage\<close>
  "label_terminal_stage = [36828, 31243, 32456, 31471, 21021, 22987, 21270, 38454, 27573]"

definition label_connect_stage :: jsstr where \<comment> \<open>connection stage\<close>
  "label_connect_stage = [36830, 25509, 38454, 27573]"

definition connectionErrorStage :: "jsstr \<Rightarrow> jsstr \<Rightarrow> jsstr" where
  "connectionErrorStage code rawMessage =
     (case x11ErrorContext code of
        Some x11 \<Rightarrow> xs_label x11
      | None \<Rightarrow>
          (let raw = js_lower rawMessage
           in if isConnectionTimeoutError code raw then label_connect_timeout
              else if code \<in> set [js ''terminal_connect_failed'', js ''terminal_tcp_connect_failed'', js ''remote_exec_connect_failed'']
                 \<or> prefix (js ''proxy_'') code \<or> sublist (js ''connection refused'') raw
                 \<or> sublist (js ''actively refused'') raw \<or> sublist (js ''no route'') raw
                 \<or> sublist (js ''unreachable'') raw \<or> sublist (js ''reset'') raw
              then label_network_stage
              else if code \<in> set [js ''host_key_unknown'', js ''host_key_changed''] then label_host_key_stage
              else if code \<in> set [js ''terminal_auth_failed'', js ''terminal_auth_rejected'', js ''terminal_auth_timeout'',
                        js ''terminal_private_key_invalid'']
                 \<or> prefix (js ''credential_'') code
              then label_auth_stage
              else if code \<in> set [js ''terminal_channel_open_failed'', js ''terminal_pty_failed'', js ''terminal_shell_failed'']
              then label_terminal_stage
              else label_connect_stage))"

definition connectionErrorSuggestion :: "jsstr \<Rightarrow> jsstr \<Rightarrow> jsstr" where
  "connectionErrorSuggestion code rawMessage =
     (case x11ErrorContext code of
        Some x11 \<Rightarrow> xs_suggestion x11
      | None \<Rightarrow>
          (let raw = js_lower rawMessage
           in if isConnectionTimeoutError code raw then
                [26816, 26597, 20027, 26426, 32, 73, 80, 12289, 31471, 21475, 12289, 38450, 28779,
        22681, 21644, 32593, 32476, 36830, 36890, 24615, 65307, 30830, 35748, 30446, 26631,
        32, 83, 83, 72, 32, 26381, 21153, 21487, 20197, 20174, 26412, 26426, 35775, 38382,
        12290]
              else if sublist (js ''connection refused'') raw \<or> sublist (js ''actively refused'') raw then
                [30446, 26631, 20027, 26426, 21487, 36798, 20294, 31471, 21475, 25298, 32477, 36830,
        25509, 65292, 30830, 35748, 32, 83, 83, 72, 32, 26381, 21153, 24050, 21551, 21160,
        12289, 31471, 21475, 22635, 20889, 27491, 30830, 65292, 25110, 23433, 20840, 32452,
        20801, 35768, 35775, 38382, 12290]
              else if sublist (js ''no route'') raw \<or> sublist (js ''unreachable'') raw then
                [26412, 26426, 21040, 30446, 26631, 20027, 26426, 27809, 26377, 21487, 29992, 36335,
        30001, 65292, 26816, 26597, 32, 86, 80, 78, 12289, 32593, 27573, 12289, 32593,
        20851, 25110, 20195, 29702, 37197, 32622, 12290]
              else if sublist (js ''reset'') raw then
                [36830, 25509, 34987, 23545, 31471, 37325, 32622, 65292, 26816, 26597, 32, 83, 83,
        72, 32, 26381, 21153, 31574, 30053, 12289, 20195, 29702, 38142, 36335, 25110,
        20013, 38388, 38450, 28779, 22681, 12290]
              else if prefix (js ''proxy_'') code then
                [26816, 26597, 20195, 29702, 31867, 22411, 12289, 20195, 29702, 22320, 22336, 31471,
        21475, 20197, 21450, 20195, 29702, 29992, 25143, 21517, 23494, 30721, 12290]
              else if code = js ''terminal_auth_rejected'' then
                [20027, 26426, 24050, 21709, 24212, 20294, 35748, 35777, 34987, 25298, 32477, 65292,
        26816, 26597, 29992, 25143, 21517, 12289, 23494, 30721, 25110, 31169, 38053, 26159,
        21542, 21305, 37197, 12290]
              else if code = js ''terminal_private_key_invalid'' then
                [26816, 26597, 31169, 38053, 36335, 24452, 12289, 25991, 20214, 26684, 24335, 21644,
        31169, 38053, 21475, 20196, 12290]
              else if code = js ''terminal_auth_failed'' \<or> code = js ''terminal_auth_timeout'' then
                [26816, 26597, 35748, 35777, 26041, 24335, 12289, 29992, 25143, 21517, 12289, 23494,
        30721, 25110, 31169, 38053, 65307, 22914, 26524, 26381, 21153, 22120, 31105, 29992,
        35813, 26041, 24335, 65292, 38656, 35201, 25442, 29992, 20801, 35768, 30340, 35748,
        35777, 26041, 24335, 12290]
              else if code = js ''host_key_changed'' then
                [30830, 35748, 30446, 26631, 20027, 26426, 26159, 21542, 37325, 35013, 25110, 21464,
        26356, 36807, 65307, 21482, 26377, 30830, 35748, 23433, 20840, 21518, 20877, 26356,
        26032, 20449, 20219, 12290]
              else if code = js ''host_key_unknown'' then
                [26680, 23545, 20027, 26426, 25351, 32441, 65292, 30830, 35748, 26080, 35823, 21518,
        20449, 20219, 24182, 32487, 32493, 36830, 25509, 12290]
              else if code = js ''terminal_pty_failed'' \<or> code = js ''terminal_shell_failed'' then
                [83, 83, 72, 32, 24050, 30331, 24405, 20294, 36828, 31243, 32456, 31471, 21021,
        22987, 21270, 22833, 36133, 65292, 26816, 26597, 26381, 21153, 22120, 26159, 21542,
        20801, 35768, 20998, 37197, 32, 80, 84, 89, 32, 21644, 21551, 21160, 40664, 35748,
        32, 83, 104, 101, 108, 108, 12290]
              else
                [26597, 30475, 24213, 23618, 21407, 22240, 21518, 37325, 35797, 65307, 22914, 26524,
        37197, 32622, 26377, 35823, 65292, 28857, 20987, 32534, 36753, 36830, 25509, 35843,
        25972, 20027, 26426, 12289, 31471, 21475, 12289, 20195, 29702, 25110, 35748, 35777,
        20449, 24687, 12290]))"

definition connectionErrorSummary :: "jsstr \<Rightarrow> jsstr \<Rightarrow> jsstr \<Rightarrow> jsstr" where
  "connectionErrorSummary code rawMessage fallback =
     (case x11ErrorContext code of
        Some _ \<Rightarrow> fallback
      | None \<Rightarrow>
          (let raw = js_lower rawMessage
           in if isConnectionTimeoutError code raw then [36830, 25509, 36229, 26102]
              else if sublist (js ''connection refused'') raw \<or> sublist (js ''actively refused'') raw then
                [31471, 21475, 26080, 27861, 36830, 25509]
              else if sublist (js ''no route'') raw \<or> sublist (js ''unreachable'') raw then [20027, 26426, 19981, 21487, 36798]
              else fallback))"

text \<open>The stages of a connection in the order they occur.\<close>

definition connection_stages :: "jsstr list" where
  "connection_stages =
     [js ''x11_preparing'', js ''tcp_connecting'', js ''tcp_connected'', js ''authenticating'', js ''authenticated'',
      js ''channel_opening'', js ''x11_requesting'', js ''x11_ready'', js ''pty_requesting'', js ''pty_ready'',
      js ''shell_starting'', js ''shell_ready'']"

lemma x11_index: "x11ErrorContext code = Some x \<Longrightarrow> xs_index x = 0 \<or> xs_index x = 4"
  by (auto simp: x11ErrorContext_def split: if_splits)

lemma x11_None_iff: "x11ErrorContext code = None \<longleftrightarrow> \<not> prefix (js ''x11_'') code"
  by (auto simp: x11ErrorContext_def)

text \<open>Words by which a message is taken for a network failure.\<close>

definition network_words :: "jsstr list" where
  "network_words =
     [js ''timeout'', js ''timed out'', js ''operation timed out'', js ''connection refused'', js ''actively refused'',
      js ''no route'', js ''unreachable'', js ''reset'']"

lemma progress_index_range: "connectionProgressIndex stage = Some n \<Longrightarrow> n \<le> 4"
  unfolding connectionProgressIndex_def by (simp split: if_split_asm)

lemma step_error_range: "connectionStepErrorIndex code \<le> 4"
proof (cases "x11ErrorContext code")
  case None
  then show ?thesis by (simp add: connectionStepErrorIndex_def)
next
  case (Some x)
  with x11_index [OF Some] show ?thesis by (auto simp: connectionStepErrorIndex_def)
qed

lemma progress_index_None: "stage \<notin> set connection_stages \<Longrightarrow> connectionProgressIndex stage = None"
  by (simp add: connectionProgressIndex_def connection_stages_def)

text \<open>Progress never goes back along the stages of a connection and every step shown is one of the five; every error is shown at one of the five steps; X11 errors, and only they, are shown with the X11 texts and keep the caller's summary; and an authentication error whose message has no network word is shown at the authentication step with the authentication label.\<close>

theorem connection_steps_consistent:
  "List.map_filter connectionProgressIndex connection_stages = [0, 1, 2, 3, 3, 4, 4, 4, 4, 4, 4, 4]
   \<and> (connectionProgressIndex stage = Some n \<longrightarrow> n \<le> 4 \<and> stage \<in> set connection_stages)
   \<and> connectionStepErrorIndex code \<le> 4
   \<and> (code \<noteq> [] \<longrightarrow> (connectionX11Step stage_opt (Some code) \<noteq> None \<longleftrightarrow> prefix (js ''x11_'') code))
   \<and> (prefix (js ''x11_'') code \<longrightarrow> connectionErrorSummary code raw fallback = fallback)
   \<and> (code \<in> set [js ''terminal_auth_failed'', js ''terminal_auth_rejected'', js ''terminal_auth_timeout'',
          js ''terminal_private_key_invalid''] \<and> (\<forall>w\<in>set network_words. \<not> sublist w (js_lower raw)) \<longrightarrow>
        connectionStepErrorIndex code = 3 \<and> connectionErrorStage code raw = label_auth_stage)"
proof (intro conjI impI; (elim conjE)?)
  show "List.map_filter connectionProgressIndex connection_stages = [0, 1, 2, 3, 3, 4, 4, 4, 4, 4, 4, 4]"
    by (simp add: connection_stages_def connectionProgressIndex_def map_filter_simps)
  show "n \<le> 4" if "connectionProgressIndex stage = Some n"
    using that by (rule progress_index_range)
  show "stage \<in> set connection_stages" if "connectionProgressIndex stage = Some n"
    using that progress_index_None by fastforce
  show "connectionStepErrorIndex code \<le> 4"
    by (rule step_error_range)
  show "connectionX11Step stage_opt (Some code) \<noteq> None \<longleftrightarrow> prefix (js ''x11_'') code" if "code \<noteq> []"
    using that x11_None_iff [of code] by (simp add: connectionX11Step_def)
  show "connectionErrorSummary code raw fallback = fallback" if "prefix (js ''x11_'') code"
    using that x11_None_iff [of code] by (auto simp: connectionErrorSummary_def split: option.splits)
next
  assume c: "code \<in> set [js ''terminal_auth_failed'', js ''terminal_auth_rejected'', js ''terminal_auth_timeout'',
          js ''terminal_private_key_invalid'']" and w: "\<forall>w\<in>set network_words. \<not> sublist w (js_lower raw)"
  have x: "x11ErrorContext code = None"
    unfolding x11_None_iff using c by auto
  have "\<not> sublist (js ''connect_timeout'') code"
  proof
    assume "sublist (js ''connect_timeout'') code"
    then have "{99, 111} \<subseteq> set code" by (auto simp: js_def dest!: set_mono_sublist)
    with c show False by (auto simp: js_def)
  qed
  then have t: "\<not> isConnectionTimeoutError code (js_lower raw)"
    using c w by (auto simp: isConnectionTimeoutError_def network_words_def)
  from c consider "code = js ''terminal_auth_failed''" | "code = js ''terminal_auth_rejected''"
    | "code = js ''terminal_auth_timeout''" | "code = js ''terminal_private_key_invalid''" by auto
  then have auth: "\<not> prefix (js ''proxy_'') code" "code \<notin> set [js ''host_key_unknown'', js ''host_key_changed'']"
    "code \<notin> set [js ''terminal_tcp_connect_failed'', js ''terminal_connect_failed'', js ''terminal_connect_timeout'']"
    "code \<notin> set [js ''terminal_connect_failed'', js ''terminal_tcp_connect_failed'', js ''remote_exec_connect_failed'']"
    by (cases; simp)+
  show "connectionStepErrorIndex code = 3"
    using auth c unfolding connectionStepErrorIndex_def x by auto
  have "\<not> sublist w (js_lower raw)" if "w \<in> set network_words" for w using w that by blast
  then show "connectionErrorStage code raw = label_auth_stage"
    using auth c t unfolding connectionErrorStage_def x network_words_def Let_def by simp
qed

lemma connection_steps_consistent_witness:
  "connectionStepErrorIndex (js ''terminal_auth_failed'') = 3
   \<and> connectionErrorStage (js ''terminal_auth_failed'') [] = label_auth_stage"
proof -
  have "\<forall>w\<in>set network_words. \<not> sublist w (js_lower [])"
    by (simp add: network_words_def js_lower_def)
  then show ?thesis
    using connection_steps_consistent [of _ _ "js ''terminal_auth_failed''" _ "[]"] by simp
qed

text \<open>An authentication error whose message mentions a timeout is shown at the authentication step, yet labelled as a network timeout.\<close>

lemma auth_timeout_labelled_network:
  "connectionStepErrorIndex (js ''terminal_auth_timeout'') = 3
   \<and> connectionErrorStage (js ''terminal_auth_timeout'') (js ''authentication timeout'') = label_connect_timeout"
proof -
  have "js_lower (js ''authentication timeout'') = js ''authentication timeout''"
    by (simp add: js_lower_def js_def lower_unit_def)
  then show ?thesis
    by (simp add: connectionStepErrorIndex_def connectionErrorStage_def x11ErrorContext_def
      isConnectionTimeoutError_def sublist_Cons_right)
qed

section \<open>Host key errors\<close>

text \<open>\<open>JSON.parse\<close> is the argument \<open>parse\<close>, absent where it throws, and \<open>String\<close> of a value that is
  not a string is \<open>to_text\<close>.\<close>

datatype host_key_decision = HostKeyUnknown | HostKeyChanged

record host_key_error =
  hk_decision :: host_key_decision
  hk_hostKey :: json
  hk_oldFingerprint :: "jsstr option"

definition isHostKeyInfo :: "json \<Rightarrow> bool" where
  "isHostKeyInfo value \<longleftrightarrow>
     (case value of JObject _ \<Rightarrow> True | JArray _ \<Rightarrow> True | _ \<Rightarrow> False)
     \<and> is_string (js_get value (js ''host'')) \<and> is_number (js_get value (js ''port''))
     \<and> is_string (js_get value (js ''key_algorithm''))
     \<and> is_string (js_get value (js ''fingerprint_sha256''))
     \<and> is_string (js_get value (js ''public_key''))"

definition parseHostKeyError ::
  "(jsstr \<Rightarrow> json option) \<Rightarrow> (json \<Rightarrow> jsstr) \<Rightarrow> json \<Rightarrow> host_key_error option" where
  "parseHostKeyError parse to_text error =
     (if \<not> js_has error (js ''code'') then None
      else (let code = js_get error (js ''code'')
        in if code \<noteq> JString (js ''host_key_unknown'') \<and> code \<noteq> JString (js ''host_key_changed'') then None
           else (let message = js_get error (js ''raw_message'');
                     raw = (if \<not> js_truthy message then [] else case message of JString t \<Rightarrow> t | _ \<Rightarrow> to_text message)
             in case parse raw of
                  None \<Rightarrow> None
                | Some parsed \<Rightarrow>
                    if isHostKeyInfo parsed then
                      Some \<lparr>hk_decision = HostKeyUnknown, hk_hostKey = parsed, hk_oldFingerprint = None\<rparr>
                    else if js_has parsed (js ''host_key'') \<and> isHostKeyInfo (js_get parsed (js ''host_key'')) then
                      Some \<lparr>hk_decision = (if code = JString (js ''host_key_changed'') then HostKeyChanged else HostKeyUnknown),
                            hk_hostKey = js_get parsed (js ''host_key''),
                            hk_oldFingerprint = (case js_get parsed (js ''old_fingerprint_sha256'') of
                              JString t \<Rightarrow> Some t | _ \<Rightarrow> None)\<rparr>
                    else None)))"

text \<open>The payload of a changed key, as the backend sends it.\<close>

definition changed_payload :: "json \<Rightarrow> jsstr \<Rightarrow> json" where
  "changed_payload info old = JObject [(js ''host_key'', info), (js ''old_fingerprint_sha256'', JString old)]"

definition host_key_exception :: "jsstr \<Rightarrow> jsstr \<Rightarrow> json" where
  "host_key_exception code raw = JObject [(js ''code'', JString code), (js ''raw_message'', JString raw)]"

lemma changed_payload_not_info: "\<not> isHostKeyInfo (changed_payload info old)"
  by (simp add: isHostKeyInfo_def changed_payload_def js_get_def is_string_def)

text \<open>A host key error is recognised only from an error whose code is one of the two host key codes, and then carries a complete host key; it is presented as a changed key only if the code says so. If the parser reads back the text the backend wrote, the payload of a changed key is recognised with its key and its old fingerprint.\<close>

theorem host_key_errors_recognised:
  "(\<forall>r. parseHostKeyError parse to_text error = Some r \<longrightarrow>
      js_get error (js ''code'') \<in> {JString (js ''host_key_unknown''), JString (js ''host_key_changed'')}
      \<and> isHostKeyInfo (hk_hostKey r)
      \<and> (hk_decision r = HostKeyChanged \<longrightarrow> js_get error (js ''code'') = JString (js ''host_key_changed'')))
   \<and> (parse text = Some (changed_payload info old) \<and> text \<noteq> [] \<and> isHostKeyInfo info \<longrightarrow>
      parseHostKeyError parse to_text (host_key_exception (js ''host_key_changed'') text)
        = Some \<lparr>hk_decision = HostKeyChanged, hk_hostKey = info, hk_oldFingerprint = Some old\<rparr>)"
proof (intro conjI allI impI)
  fix r assume r: "parseHostKeyError parse to_text error = Some r"
  show "js_get error (js ''code'') \<in> {JString (js ''host_key_unknown''), JString (js ''host_key_changed'')}"
    using r by (auto simp: parseHostKeyError_def Let_def split: if_split_asm)
  show "isHostKeyInfo (hk_hostKey r)"
    using r by (auto simp: parseHostKeyError_def Let_def split: if_split_asm option.splits)
  show "js_get error (js ''code'') = JString (js ''host_key_changed'')" if "hk_decision r = HostKeyChanged"
    using r that by (auto simp: parseHostKeyError_def Let_def split: if_split_asm option.splits)
next
  assume "parse text = Some (changed_payload info old) \<and> text \<noteq> [] \<and> isHostKeyInfo info"
  then show "parseHostKeyError parse to_text (host_key_exception (js ''host_key_changed'') text)
        = Some \<lparr>hk_decision = HostKeyChanged, hk_hostKey = info, hk_oldFingerprint = Some old\<rparr>"
    using changed_payload_not_info [of info old]
    by (simp add: parseHostKeyError_def host_key_exception_def js_get_def js_has_def js_truthy_def
      changed_payload_def)
qed

lemma host_key_errors_recognised_witness:
  "\<exists>parse info. isHostKeyInfo info \<and>
     parseHostKeyError parse (\<lambda>_. []) (host_key_exception (js ''host_key_changed'') (js ''x''))
       = Some \<lparr>hk_decision = HostKeyChanged, hk_hostKey = info, hk_oldFingerprint = Some (js ''old'')\<rparr>"
proof -
  define info where "info = JObject [(js ''host'', JString []), (js ''port'', JNumber (Num 22)),
    (js ''key_algorithm'', JString []), (js ''fingerprint_sha256'', JString []), (js ''public_key'', JString [])]"
  have "isHostKeyInfo info"
    by (simp add: info_def isHostKeyInfo_def js_get_def is_string_def is_number_def)
  then show ?thesis
    using host_key_errors_recognised [of "\<lambda>_. Some (changed_payload info (js ''old''))" "\<lambda>_. []" _ "js ''x''" info "js ''old''"]
    by auto
qed

end
