(* ===== verification/Js_Pattern.thy ===== *)
theory Js_Pattern
  imports Js_Base
begin

text \<open>
  Pieces of regular expressions the sources share, as scanners of code units. A repetition is
  \<open>takeWhile\<close> and \<open>dropWhile\<close> where the text after it cannot start with a unit it matches; where it
  can, the scanner tries every length.
\<close>

text \<open>The flag \<open>i\<close> on the ASCII letters the pattern has.\<close>

definition ascii_lower :: "jsstr \<Rightarrow> jsstr" where
  "ascii_lower s = map (\<lambda>c. if 65 \<le> c \<and> c \<le> 90 then c + 32 else c) s"

definition is_name_unit :: "nat \<Rightarrow> bool" where
  "is_name_unit c \<longleftrightarrow> (65 \<le> c \<and> c \<le> 90) \<or> (97 \<le> c \<and> c \<le> 122) \<or> (48 \<le> c \<and> c \<le> 57)
     \<or> c = 46 \<or> c = 95 \<or> c = 45"

text \<open>\<open>[A-Za-z0-9._-]+@[A-Za-z0-9._-]+\<close>, and the rest.\<close>

definition user_at_host :: "jsstr \<Rightarrow> jsstr option" where
  "user_at_host s =
     (let user = takeWhile is_name_unit s; r = dropWhile is_name_unit s
      in if user = [] \<or> r = [] \<or> hd r \<noteq> 64 then None
         else (let host = takeWhile is_name_unit (tl r)
               in if host = [] then None else Some (dropWhile is_name_unit (tl r))))"

definition is_word_unit :: "nat \<Rightarrow> bool" where
  "is_word_unit c \<longleftrightarrow> (48 \<le> c \<and> c \<le> 57) \<or> (65 \<le> c \<and> c \<le> 90) \<or> c = 95 \<or> (97 \<le> c \<and> c \<le> 122)"

text \<open>The boundary \<open>\b\<close> after a word unit, and before one: whether the text goes on with a word unit.\<close>

definition starts_word :: "jsstr \<Rightarrow> bool" where
  "starts_word s \<longleftrightarrow> s \<noteq> [] \<and> is_word_unit (hd s)"

text \<open>A search without anchor: \<open>P\<close> gets whether a word unit stands before, and the rest of the text.\<close>

fun somewhere :: "(bool \<Rightarrow> jsstr \<Rightarrow> bool) \<Rightarrow> bool \<Rightarrow> jsstr \<Rightarrow> bool" where
  "somewhere P w [] = P w []"
| "somewhere P w (c # s) \<longleftrightarrow> P w (c # s) \<or> somewhere P (is_word_unit c) s"

definition regex_test :: "(bool \<Rightarrow> jsstr \<Rightarrow> bool) \<Rightarrow> jsstr \<Rightarrow> bool" where
  "regex_test P s = somewhere P False s"

text \<open>\<open>\bword\<close> with the flag \<open>i\<close>, the word in lower case; what follows must satisfy \<open>Q\<close>.\<close>

definition after_word :: "jsstr \<Rightarrow> (jsstr \<Rightarrow> bool) \<Rightarrow> bool \<Rightarrow> jsstr \<Rightarrow> bool" where
  "after_word word Q w s \<longleftrightarrow> \<not> w \<and> prefix word (ascii_lower s) \<and> Q (drop (length word) s)"

text \<open>A repetition that may stop anywhere, with the flag \<open>i\<close> left to the arguments.\<close>

fun star_then :: "(nat \<Rightarrow> bool) \<Rightarrow> (jsstr \<Rightarrow> bool) \<Rightarrow> jsstr \<Rightarrow> bool" where
  "star_then C Q [] = Q []"
| "star_then C Q (c # s) \<longleftrightarrow> Q (c # s) \<or> (C c \<and> star_then C Q s)"

text \<open>\<open>split(/\s+/)\<close>: a maximal run of white space separates.\<close>

function split_ws :: "jsstr \<Rightarrow> jsstr list" where
  "split_ws [] = [[]]"
| "split_ws (c # s) =
     (if is_ws c then [] # split_ws (dropWhile is_ws s)
      else (case split_ws s of [] \<Rightarrow> [[c]] | w # ws \<Rightarrow> (c # w) # ws))"
  by pat_completeness auto

termination
  by (relation "measure length") (simp_all add: length_dropWhile_le le_imp_less_Suc)

lemma ascii_lower_append [simp]: "ascii_lower (s @ t) = ascii_lower s @ ascii_lower t"
  by (simp add: ascii_lower_def)

lemma length_ascii_lower [simp]: "length (ascii_lower s) = length s"
  by (simp add: ascii_lower_def)

text \<open>A match inside a text is a match inside any text around it, if the match bears the change of context.\<close>

lemma somewhere_append:
  assumes "somewhere P w s" "\<And>w s. P w s \<Longrightarrow> P w (s @ t)"
  shows "somewhere P w (s @ t)"
  using assms(1)
proof (induction s arbitrary: w)
  case Nil
  then have "P w t" using assms(2) [of w "[]"] by simp
  then show ?case by (cases t) auto
next
  case (Cons c s)
  then show ?case using assms(2) [of w "c # s"] by auto
qed

lemma somewhere_mono: "somewhere P w s \<Longrightarrow> (\<And>s. P w s \<Longrightarrow> P v s) \<Longrightarrow> somewhere P v s"
  by (cases s) auto

lemma somewhere_prepend:
  assumes "somewhere P False s" "r = [] \<or> \<not> is_word_unit (last r)"
  shows "somewhere P False (r @ s)"
proof -
  have "somewhere P w (r @ s)" if "r \<noteq> []" "\<not> is_word_unit (last r)" for w
    using that
  proof (induction r arbitrary: w)
    case (Cons c r)
    then show ?case using assms(1) by (cases "r = []") auto
  qed simp
  then show ?thesis using assms by (cases "r = []") auto
qed

end
