(* ===== verification/Shell_Errors.thy ===== *)
theory Shell_Errors
  imports Connection_Steps Js_Pattern
begin

text \<open>
  What the workspace makes of a rejected command, in \<open>src/features/layout/WorkspaceShell.tsx\<close>: the text of an
  error, the codes and suggestions of failed transfers, the logs of a connection and the description of its
  error. \<open>str\<close> is the language's \<open>String\<close>.
\<close>

definition formatError :: "(json \<Rightarrow> jsstr) \<Rightarrow> json \<Rightarrow> jsstr" where
  "formatError str e = (if js_has e (js ''message'') then str (js_get e (js ''message'')) else str e)"

text \<open>\<open>replace(/^Error:\s*/i, "")\<close> and \<open>replace(/\s+/g, " ")\<close>.\<close>

definition drop_error_word :: "jsstr \<Rightarrow> jsstr" where
  "drop_error_word s = (if prefix (js ''error:'') (ascii_lower s) then dropWhile is_ws (drop 6 s) else s)"

definition shell_error_text :: "(json \<Rightarrow> jsstr) \<Rightarrow> json \<Rightarrow> jsstr" where
  "shell_error_text str v =
     js_trim (js_join [32] (split_ws (drop_error_word (if v = JUndefined \<or> v = JNull then [] else str v))))"

definition raw_message :: "(json \<Rightarrow> jsstr) \<Rightarrow> json \<Rightarrow> jsstr option" where
  "raw_message str e =
     (if js_has e (js ''raw_message'') then Some (shell_error_text str (js_get e (js ''raw_message''))) else None)"

definition formatDetailedError :: "(json \<Rightarrow> jsstr) \<Rightarrow> json \<Rightarrow> jsstr" where
  "formatDetailedError str e =
     (let message = formatError str e; raw = or_else (raw_message str e) []
      in if raw \<noteq> [] \<and> raw \<noteq> shell_error_text str (JString message) then message @ [10] @ raw else message)"

definition extractTransferErrorCode :: "(json \<Rightarrow> jsstr) \<Rightarrow> json \<Rightarrow> jsstr option" where
  "extractTransferErrorCode str e = (if js_has e (js ''code'') then Some (str (js_get e (js ''code''))) else None)"

definition isTransferCanceledError :: "(json \<Rightarrow> jsstr) \<Rightarrow> json \<Rightarrow> bool" where
  "isTransferCanceledError str e =
     (extractTransferErrorCode str e = Some (js ''remote_file_transfer_canceled''))"

definition isRemoteFileConflict :: "json \<Rightarrow> bool" where
  "isRemoteFileConflict e = (js_get e (js ''code'') = JString (js ''remote_file_conflict''))"

definition transferErrorStage :: "jsstr \<Rightarrow> jsstr option" where
  "transferErrorStage code =
     (if code = js ''remote_file_upload_confirm_timeout'' then Some ([36828, 31243, 20889, 20837, 30830, 35748, 36229, 26102]) \<comment> \<open>write not confirmed in time\<close>
      else if code = js ''remote_file_upload_confirm_failed'' then Some ([36828, 31243, 20889, 20837, 30830, 35748, 22833, 36133]) \<comment> \<open>write not confirmed\<close>
      else if code = js ''remote_sftp_subsystem_failed'' \<or> code = js ''remote_sftp_subsystem_timeout''
      then Some ([83, 70, 84, 80, 32, 23376, 31995, 32479, 19981, 21487, 29992]) \<comment> \<open>no SFTP subsystem\<close>
      else if code = js ''remote_sftp_connect_failed'' \<or> code = js ''remote_sftp_connect_timeout''
      then Some ([83, 70, 84, 80, 32, 36830, 25509, 22833, 36133]) \<comment> \<open>SFTP connection failed\<close>
      else if code = js ''remote_sftp_channel_failed'' \<or> code = js ''remote_sftp_init_failed''
        \<or> code = js ''remote_sftp_channel_timeout''
      then Some ([83, 70, 84, 80, 32, 36890, 36947, 24314, 31435, 22833, 36133]) \<comment> \<open>SFTP channel failed\<close>
      else if code = js ''remote_sftp_auth_timeout'' then Some ([83, 70, 84, 80, 32, 35748, 35777, 36229, 26102]) \<comment> \<open>SFTP authentication timed out\<close>
      else None)"

definition transferErrorSuggestion :: "jsstr \<Rightarrow> jsstr option" where
  "transferErrorSuggestion code =
     (if code = js ''remote_file_upload_confirm_timeout''
      then Some ([36828, 31471, 20889, 20837, 21709, 24212, 25110, 20851, 38381, 30830, 35748, 36229,
        26102, 65292, 20020, 26102, 32, 46, 109, 120, 112, 97, 114, 116, 32, 25991, 20214,
        20250, 20445, 30041, 29992, 20110, 37325, 35797, 12290, 35831, 26816, 26597, 32593,
        32476, 12289, 36828, 31471, 32, 83, 70, 84, 80, 32, 26381, 21153, 25110, 30446,
        24405, 36127, 36733, 21518, 37325, 35797, 12290])
      else if code = js ''remote_file_upload_confirm_failed''
      then Some ([36828, 31471, 20889, 20837, 30830, 35748, 22833, 36133, 65292, 20020, 26102, 32,
        46, 109, 120, 112, 97, 114, 116, 32, 25991, 20214, 21487, 33021, 20445, 30041,
        22312, 30446, 26631, 30446, 24405, 65307, 35831, 26816, 26597, 30446, 24405, 26435,
        38480, 12289, 30913, 30424, 31354, 38388, 21644, 36828, 31471, 25991, 20214, 31995,
        32479, 29366, 24577, 12290])
      else if code = js ''remote_sftp_subsystem_failed'' \<or> code = js ''remote_sftp_subsystem_timeout''
      then Some ([35813, 26381, 21153, 22120, 21487, 33021, 26410, 21551, 29992, 32, 83, 70, 84, 80,
        32, 23376, 31995, 32479, 65292, 35831, 32852, 31995, 31649, 29702, 21592, 26816,
        26597, 32, 115, 115, 104, 100, 95, 99, 111, 110, 102, 105, 103, 32, 20013, 30340,
        32] @ [39] @ js ''Subsystem sftp'' @ [39]
        @ [32, 37197, 32622, 65292, 25110, 22312, 35774, 32622, 20013, 20851, 38381, 30456,
        20851, 21387, 32553, 36873, 39033, 12290])
      else if code = js ''remote_sftp_connect_failed'' \<or> code = js ''remote_sftp_connect_timeout''
      then Some ([83, 70, 84, 80, 32, 36830, 25509, 26080, 27861, 24314, 31435, 65292, 35831, 26816,
        26597, 32593, 32476, 36830, 36890, 24615, 12289, 38450, 28779, 22681, 35268, 21017,
        25110, 20195, 29702, 35774, 32622, 12290])
      else if code = js ''remote_sftp_channel_failed'' \<or> code = js ''remote_sftp_init_failed''
        \<or> code = js ''remote_sftp_channel_timeout''
      then Some ([83, 70, 84, 80, 32, 36890, 36947, 26080, 27861, 24314, 31435, 65292, 26381, 21153,
        22120, 21487, 33021, 38480, 21046, 20102, 32, 83, 70, 84, 80, 32, 20250, 35805,
        25968, 25110, 23376, 31995, 32479, 24322, 24120, 65292, 35831, 31245, 21518, 37325,
        35797, 25110, 32852, 31995, 31649, 29702, 21592, 12290])
      else if code = js ''remote_sftp_auth_timeout''
      then Some ([83, 70, 84, 80, 32, 35748, 35777, 36229, 26102, 65292, 35831, 30830, 35748, 20973,
        25454, 26377, 25928, 25110, 26816, 26597, 32593, 32476, 24310, 36831, 12290])
      else None)"

definition appendUniqueLogs :: "jsstr list \<Rightarrow> jsstr list \<Rightarrow> jsstr list" where
  "appendUniqueLogs logs nextLines =
     foldl (\<lambda>next line. if next = [] \<or> last next \<noteq> line then next @ [line] else next) logs
       (filter (\<lambda>line. line \<noteq> []) (map js_trim nextLines))"

record step_error_detail =
  sd_code :: jsstr
  sd_message :: jsstr
  sd_rawMessage :: jsstr
  sd_recoverable :: bool
  sd_stage :: jsstr
  sd_suggestion :: jsstr

text \<open>\<open>Boolean(value)\<close>.\<close>

definition json_truthy :: "json \<Rightarrow> bool" where
  "json_truthy v =
     (case v of
        JUndefined \<Rightarrow> False | JNull \<Rightarrow> False | JBool b \<Rightarrow> b | JString s \<Rightarrow> s \<noteq> []
      | JNumber n \<Rightarrow> n \<noteq> Num 0 \<and> n \<noteq> NaN | _ \<Rightarrow> True)"

definition describeConnectionStepError :: "(json \<Rightarrow> jsstr) \<Rightarrow> json \<Rightarrow> step_error_detail" where
  "describeConnectionStepError str e =
     (let code = or_else (extractTransferErrorCode str e) (js ''unknown_error'');
          message = formatError str e;
          raw = or_else (raw_message str e) (shell_error_text str e)
      in \<lparr>sd_code = code,
          sd_message = connectionErrorSummary code raw message,
          sd_rawMessage = str_or raw message,
          sd_recoverable = (if js_has e (js ''recoverable'') then json_truthy (js_get e (js ''recoverable'')) else True),
          sd_stage = connectionErrorStage code raw,
          sd_suggestion = connectionErrorSuggestion code raw\<rparr>)"

section \<open>Logs\<close>

text \<open>The logs only grow.\<close>

lemma appendUniqueLogs_grows: "prefix logs (appendUniqueLogs logs ls)"
proof -
  have "prefix logs (foldl (\<lambda>next line. if next = [] \<or> last next \<noteq> line then next @ [line] else next) logs xs)"
    for xs :: "jsstr list"
  proof (induction xs arbitrary: logs)
    case (Cons x xs)
    show ?case using Cons.IH [of "if logs = [] \<or> last logs \<noteq> x then logs @ [x] else logs"]
      by (auto dest: append_prefixD split: if_splits)
  qed simp
  then show ?thesis by (simp add: appendUniqueLogs_def)
qed

end
