(* ===== verification/Remote_Editor.thy ===== *)
theory Remote_Editor
  imports Remote_Entries Shell_Errors
begin

text \<open>
  The remote files open in editors: \<open>src/features/editor/remoteFileEditorTypes.ts\<close> and the handlers of
  \<open>src/features/layout/WorkspaceShell.tsx\<close> that open, read, edit, save, reload, close, rename and delete them.
  Reads, writes, renamings and deletions are commands in flight; each carries what its continuation captured
  when it was sent: the tabs of that moment for a deletion, the active tab for a renaming. The state
  is the native one; the browser preview is not modelled, nor is what activating a tab does to the terminals.
\<close>

section \<open>Tabs\<close>

datatype save_state = SaveLoading | SaveReady | SaveDirty | SaveSaving | SaveSaved | SaveError | SaveConflict

record remote_metadata =
  rm_name :: jsstr
  rm_path :: jsstr
  rm_size :: int
  rm_mtime :: int
  rm_mode :: "jsstr option"

record editor_tab =
  et_connectionId :: jsstr
  et_connectionName :: jsstr
  et_content :: jsstr
  et_dirty :: bool
  et_error :: "jsstr option"
  et_id :: jsstr
  et_metadata :: "remote_metadata option"
  et_name :: jsstr
  et_path :: jsstr
  et_savedContent :: jsstr
  et_saveState :: save_state
  et_statusMessage :: "jsstr option"

record read_result =
  rr_content :: jsstr
  rr_metadata :: remote_metadata
  rr_name :: jsstr
  rr_path :: jsstr

record write_input =
  wi_connectionId :: jsstr
  wi_content :: jsstr
  wi_expectedMtime :: int
  wi_expectedSize :: int
  wi_overwrite :: bool
  wi_path :: jsstr

datatype editor_call =
    CallRead jsstr jsstr jsstr \<comment> \<open>connection, path and tab\<close>
  | CallWrite jsstr write_input
  | CallRename jsstr jsstr jsstr "jsstr option" \<comment> \<open>connection, old and new path, the active tab\<close>
  | CallDelete jsstr "remote_entry list" "editor_tab list" "jsstr option" "jsstr option" "jsstr option"
      \<comment> \<open>connection, entries, the tabs, the active tab and the two pending tabs\<close>

record editor_world =
  ew_tabs :: "editor_tab list"
  ew_active :: "jsstr option"
  ew_pendingClose :: "jsstr option"
  ew_pendingConflict :: "jsstr option"
  ew_pendingSessions :: "jsstr list option"
  ew_calls :: "editor_call list"

definition remoteFileTabId :: "jsstr \<Rightarrow> jsstr \<Rightarrow> jsstr" where
  "remoteFileTabId connectionId path = js ''file:'' @ connectionId @ js '':'' @ normalizeRemotePath (Some path)"

definition updateRemoteFileTab :: "jsstr \<Rightarrow> (editor_tab \<Rightarrow> editor_tab) \<Rightarrow> editor_world \<Rightarrow> editor_world" where
  "updateRemoteFileTab tabId updater w =
     w\<lparr>ew_tabs := map (\<lambda>tab. if et_id tab = tabId then updater tab else tab) (ew_tabs w)\<rparr>"

definition find_tab :: "jsstr \<Rightarrow> editor_world \<Rightarrow> editor_tab option" where
  "find_tab tabId w = List.find (\<lambda>tab. et_id tab = tabId) (ew_tabs w)"

definition send_call :: "editor_call \<Rightarrow> editor_world \<Rightarrow> editor_world" where
  "send_call c w = w\<lparr>ew_calls := ew_calls w @ [c]\<rparr>"

definition activateRemoteFileTab :: "editor_tab \<Rightarrow> editor_world \<Rightarrow> editor_world" where
  "activateRemoteFileTab tab w = w\<lparr>ew_active := Some (et_id tab)\<rparr>"

definition activateRemoteFileFallbackAfterRemoval :: "editor_tab list \<Rightarrow> jsstr \<Rightarrow> editor_world \<Rightarrow> editor_world" where
  "activateRemoteFileFallbackAfterRemoval nextTabs preferredConnectionId w =
     (case List.find (\<lambda>tab. et_connectionId tab = preferredConnectionId) nextTabs of
        Some tab \<Rightarrow> activateRemoteFileTab tab w
      | None \<Rightarrow> (case nextTabs of tab # _ \<Rightarrow> activateRemoteFileTab tab w | [] \<Rightarrow> w\<lparr>ew_active := None\<rparr>))"

section \<open>Opening and reading\<close>

definition new_tab :: "jsstr \<Rightarrow> jsstr \<Rightarrow> remote_entry \<Rightarrow> editor_tab" where
  "new_tab connectionId connectionName entry =
     (let path = normalizeRemotePath (Some (re_path entry))
      in \<lparr>et_connectionId = connectionId, et_connectionName = connectionName, et_content = [], et_dirty = False,
          et_error = None, et_id = remoteFileTabId connectionId path, et_metadata = None, et_name = re_name entry,
          et_path = path, et_savedContent = [], et_saveState = SaveLoading,
          et_statusMessage = Some ([35835, 21462, 20013])\<rparr>)" \<comment> \<open>reading\<close>

definition openRemoteFile :: "(jsstr \<times> jsstr) option \<Rightarrow> remote_entry \<Rightarrow> editor_world \<Rightarrow> editor_world" where
  "openRemoteFile activeConnection entry w =
     (case activeConnection of
        None \<Rightarrow> w
      | Some (connectionId, connectionName) \<Rightarrow>
          if re_type entry = KindDirectory then w
          else
            (let path = normalizeRemotePath (Some (re_path entry))
             in case List.find (\<lambda>tab. et_connectionId tab = connectionId \<and> et_path tab = path) (ew_tabs w) of
                  Some tab \<Rightarrow> activateRemoteFileTab tab w
                | None \<Rightarrow>
                    (let tab = new_tab connectionId connectionName entry
                     in send_call (CallRead connectionId path (et_id tab))
                          (activateRemoteFileTab tab (w\<lparr>ew_tabs := ew_tabs w @ [tab]\<rparr>)))))"

definition loaded_tab :: "read_result \<Rightarrow> editor_tab \<Rightarrow> editor_tab" where
  "loaded_tab result tab =
     tab\<lparr>et_content := rr_content result, et_dirty := False, et_error := None, et_metadata := Some (rr_metadata result),
       et_name := rr_name result, et_path := rr_path result, et_savedContent := rr_content result,
       et_saveState := SaveReady, et_statusMessage := Some ([23601, 32490])\<rparr>" \<comment> \<open>ready\<close>

definition load_failed_tab :: "jsstr \<Rightarrow> editor_tab \<Rightarrow> editor_tab" where
  "load_failed_tab message tab =
     tab\<lparr>et_content := [], et_dirty := False, et_error := Some message, et_saveState := SaveError,
       et_statusMessage := Some message\<rparr>"

definition loadRemoteFileTab_settled ::
  "(json \<Rightarrow> jsstr) \<Rightarrow> jsstr \<Rightarrow> json + read_result \<Rightarrow> editor_world \<Rightarrow> editor_world" where
  "loadRemoteFileTab_settled str tabId answer =
     (case answer of
        Inr result \<Rightarrow> updateRemoteFileTab tabId (loaded_tab result)
      | Inl e \<Rightarrow> updateRemoteFileTab tabId (load_failed_tab (formatError str e)))"

definition reloading_tab :: "editor_tab \<Rightarrow> editor_tab" where
  "reloading_tab tab = tab\<lparr>et_error := None, et_saveState := SaveLoading, et_statusMessage := Some ([35835, 21462, 20013])\<rparr>"

text \<open>\<open>known\<close> says which connections exist.\<close>

definition reloadRemoteFile :: "(jsstr \<Rightarrow> bool) \<Rightarrow> jsstr \<Rightarrow> editor_world \<Rightarrow> editor_world" where
  "reloadRemoteFile known tabId w =
     (case find_tab tabId w of
        None \<Rightarrow> w
      | Some tab \<Rightarrow>
          if \<not> known (et_connectionId tab) then w
          else send_call (CallRead (et_connectionId tab) (et_path tab) tabId) (updateRemoteFileTab tabId reloading_tab w))"

section \<open>Editing and saving\<close>

definition changed_tab :: "jsstr \<Rightarrow> editor_tab \<Rightarrow> editor_tab" where
  "changed_tab content tab =
     tab\<lparr>et_content := content, et_dirty := (content \<noteq> et_savedContent tab),
       et_saveState := (if content = et_savedContent tab then SaveReady else SaveDirty),
       et_statusMessage := Some (if content = et_savedContent tab then [23601, 32490] else [24050, 20462, 25913])\<rparr>" \<comment> \<open>ready, modified\<close>

definition handleRemoteFileChange :: "jsstr \<Rightarrow> jsstr \<Rightarrow> editor_world \<Rightarrow> editor_world" where
  "handleRemoteFileChange tabId content = updateRemoteFileTab tabId (changed_tab content)"

definition saving_tab :: "editor_tab \<Rightarrow> editor_tab" where
  "saving_tab tab = tab\<lparr>et_error := None, et_saveState := SaveSaving, et_statusMessage := Some ([20445, 23384, 20013])\<rparr>" \<comment> \<open>saving\<close>

definition saveRemoteFile :: "jsstr \<Rightarrow> bool \<Rightarrow> editor_world \<Rightarrow> editor_world" where
  "saveRemoteFile tabId overwrite w =
     (case find_tab tabId w of
        None \<Rightarrow> w
      | Some tab \<Rightarrow>
          (case et_metadata tab of
             None \<Rightarrow> w
           | Some metadata \<Rightarrow>
               if et_saveState tab = SaveSaving then w
               else send_call (CallWrite tabId \<lparr>wi_connectionId = et_connectionId tab, wi_content = et_content tab,
                      wi_expectedMtime = rm_mtime metadata, wi_expectedSize = rm_size metadata,
                      wi_overwrite = overwrite, wi_path = et_path tab\<rparr>)
                    (updateRemoteFileTab tabId saving_tab w)))"

definition saved_tab :: "remote_metadata \<Rightarrow> editor_tab \<Rightarrow> editor_tab" where
  "saved_tab metadata tab =
     tab\<lparr>et_dirty := False, et_error := None, et_metadata := Some metadata, et_savedContent := et_content tab,
       et_saveState := SaveSaved, et_statusMessage := Some ([24050, 20445, 23384])\<rparr>" \<comment> \<open>saved\<close>

definition conflict_tab :: "jsstr \<Rightarrow> editor_tab \<Rightarrow> editor_tab" where
  "conflict_tab message tab =
     tab\<lparr>et_error := Some message, et_saveState := SaveConflict,
       et_statusMessage := Some ([36828, 31471, 24050, 21464, 21270])\<rparr>" \<comment> \<open>the remote file has changed\<close>

definition save_failed_tab :: "jsstr \<Rightarrow> editor_tab \<Rightarrow> editor_tab" where
  "save_failed_tab message tab =
     tab\<lparr>et_error := Some message, et_saveState := SaveError, et_statusMessage := Some message\<rparr>"

definition saveRemoteFile_settled ::
  "(json \<Rightarrow> jsstr) \<Rightarrow> jsstr \<Rightarrow> json + remote_metadata \<Rightarrow> editor_world \<Rightarrow> editor_world" where
  "saveRemoteFile_settled str tabId answer w =
     (case answer of
        Inr metadata \<Rightarrow> updateRemoteFileTab tabId (saved_tab metadata) w
      | Inl e \<Rightarrow>
          if isRemoteFileConflict e
          then (updateRemoteFileTab tabId (conflict_tab (formatError str e)) w)\<lparr>ew_pendingConflict := Some tabId\<rparr>
          else updateRemoteFileTab tabId (save_failed_tab (formatError str e)) w)"

definition discarded_tab :: "editor_tab \<Rightarrow> editor_tab" where
  "discarded_tab tab =
     tab\<lparr>et_content := et_savedContent tab, et_dirty := False, et_error := None, et_saveState := SaveReady,
       et_statusMessage := Some ([24050, 25918, 24323, 26356, 25913])\<rparr>" \<comment> \<open>changes discarded\<close>

definition discardRemoteFileChanges :: "jsstr \<Rightarrow> editor_world \<Rightarrow> editor_world" where
  "discardRemoteFileChanges tabId = updateRemoteFileTab tabId discarded_tab"

section \<open>Closing\<close>

definition closeRemoteFileTabsNow :: "jsstr list \<Rightarrow> editor_world \<Rightarrow> editor_world" where
  "closeRemoteFileTabsNow tabIds w =
     (let closingActive = (case opt_truthy (ew_active w) of
            Some active \<Rightarrow> List.find (\<lambda>tab. et_id tab = active \<and> et_id tab \<in> set tabIds) (ew_tabs w)
          | None \<Rightarrow> None);
          nextTabs = filter (\<lambda>tab. et_id tab \<notin> set tabIds) (ew_tabs w);
          w1 = w\<lparr>ew_tabs := nextTabs\<rparr>
      in case closingActive of
           Some tab \<Rightarrow> activateRemoteFileFallbackAfterRemoval nextTabs (et_connectionId tab) w1
         | None \<Rightarrow> w1)"

definition closeRemoteFileTab :: "jsstr \<Rightarrow> editor_world \<Rightarrow> editor_world" where
  "closeRemoteFileTab tabId w =
     (case find_tab tabId w of
        Some tab \<Rightarrow> if et_dirty tab then w\<lparr>ew_pendingClose := Some tabId\<rparr> else closeRemoteFileTabsNow [tabId] w
      | None \<Rightarrow> closeRemoteFileTabsNow [tabId] w)"

definition closeRemoteFileTabs :: "jsstr list \<Rightarrow> editor_world \<Rightarrow> editor_world" where
  "closeRemoteFileTabs tabIds w =
     (let dirtyTab = List.find (\<lambda>tab. et_id tab \<in> set tabIds \<and> et_dirty tab) (ew_tabs w);
          cleanTabIds = map et_id (filter (\<lambda>tab. et_id tab \<in> set tabIds \<and> \<not> et_dirty tab) (ew_tabs w));
          w1 = (if cleanTabIds \<noteq> [] then closeRemoteFileTabsNow cleanTabIds w else w)
      in case dirtyTab of Some tab \<Rightarrow> w1\<lparr>ew_pendingClose := Some (et_id tab)\<rparr> | None \<Rightarrow> w1)"

definition same_connection :: "editor_tab \<Rightarrow> editor_world \<Rightarrow> editor_tab list" where
  "same_connection tab w = filter (\<lambda>item. et_connectionId item = et_connectionId tab) (ew_tabs w)"

definition closeOtherRemoteFileTabs :: "jsstr \<Rightarrow> editor_world \<Rightarrow> editor_world" where
  "closeOtherRemoteFileTabs tabId w =
     (case find_tab tabId w of
        None \<Rightarrow> w
      | Some tab \<Rightarrow> closeRemoteFileTabs (map et_id (filter (\<lambda>item. et_id item \<noteq> tabId) (same_connection tab w))) w)"

text \<open>\<open>findIndex\<close> then \<open>slice(index + 1)\<close>: what stands behind the first tab with the identifier.\<close>

definition closeRemoteFileTabsToRight :: "jsstr \<Rightarrow> editor_world \<Rightarrow> editor_world" where
  "closeRemoteFileTabsToRight tabId w =
     (case find_tab tabId w of
        None \<Rightarrow> w
      | Some tab \<Rightarrow>
          (let behind = dropWhile (\<lambda>item. et_id item \<noteq> tabId) (same_connection tab w)
           in if behind = [] then w else closeRemoteFileTabs (map et_id (tl behind)) w))"

definition closeAllRemoteFileTabsForConnection :: "jsstr \<Rightarrow> editor_world \<Rightarrow> editor_world" where
  "closeAllRemoteFileTabsForConnection connectionId w =
     closeRemoteFileTabs (map et_id (filter (\<lambda>tab. et_connectionId tab = connectionId) (ew_tabs w))) w"

definition isClosableSavedRemoteFileTab :: "editor_tab \<Rightarrow> bool" where
  "isClosableSavedRemoteFileTab tab \<longleftrightarrow> \<not> et_dirty tab \<and> (et_saveState tab = SaveReady \<or> et_saveState tab = SaveSaved)"

definition closeSavedRemoteFileTabsForConnection :: "jsstr \<Rightarrow> editor_world \<Rightarrow> editor_world" where
  "closeSavedRemoteFileTabsForConnection connectionId w =
     closeRemoteFileTabsNow
       (map et_id (filter (\<lambda>tab. et_connectionId tab = connectionId \<and> isClosableSavedRemoteFileTab tab) (ew_tabs w))) w"

text \<open>Closing sessions: the part of \<open>closeConnectionSessions\<close> and of
  \<open>clearRemoteFileSessionStateForConnections\<close> on the files.\<close>

definition keep_pending :: "editor_tab list \<Rightarrow> jsstr option \<Rightarrow> jsstr option" where
  "keep_pending tabs pending =
     (case opt_truthy pending of
        Some i \<Rightarrow> if i \<in> et_id ` set tabs then Some i else None
      | None \<Rightarrow> None)"

definition clearRemoteFileSessionStateForConnections :: "jsstr list \<Rightarrow> editor_world \<Rightarrow> editor_world" where
  "clearRemoteFileSessionStateForConnections closing w =
     (let nextTabs = filter (\<lambda>tab. et_connectionId tab \<notin> set closing) (ew_tabs w)
      in w\<lparr>ew_tabs := nextTabs,
           ew_active := (case opt_truthy (ew_active w) of
                           Some i \<Rightarrow> if i \<in> et_id ` set nextTabs then ew_active w else None
                         | None \<Rightarrow> ew_active w),
           ew_pendingClose := keep_pending nextTabs (ew_pendingClose w),
           ew_pendingConflict := keep_pending nextTabs (ew_pendingConflict w)\<rparr>)"

definition close_session_files :: "jsstr list \<Rightarrow> bool \<Rightarrow> editor_world \<Rightarrow> editor_world" where
  "close_session_files connectionIds discardDirty w =
     (if list_ex (\<lambda>tab. et_connectionId tab \<in> set connectionIds \<and> et_dirty tab) (ew_tabs w) \<and> \<not> discardDirty
      then w\<lparr>ew_pendingSessions := Some connectionIds\<rparr>
      else clearRemoteFileSessionStateForConnections connectionIds (w\<lparr>ew_pendingSessions := None\<rparr>))"

section \<open>Renaming and deleting\<close>

definition isRemoteFileTabUnderEntry :: "editor_tab \<Rightarrow> jsstr \<Rightarrow> jsstr \<Rightarrow> bool" where
  "isRemoteFileTabUnderEntry tab connectionId entryPath =
     (let p = normalizeRemotePath (Some entryPath)
      in et_connectionId tab = connectionId
         \<and> (et_path tab = p \<or> isRemotePathStrictDescendant (Some (et_path tab)) (Some p)))"

definition renamed_tab :: "jsstr \<Rightarrow> jsstr \<Rightarrow> jsstr \<Rightarrow> editor_tab \<Rightarrow> editor_tab" where
  "renamed_tab connectionId old new tab =
     (if \<not> isRemoteFileTabUnderEntry tab connectionId old then tab
      else
        (let o' = normalizeRemotePath (Some old); n' = normalizeRemotePath (Some new);
             nextPath = (if et_path tab = o' then n' else joinRemotePath n' (drop (length o' + 1) (et_path tab)))
         in tab\<lparr>et_id := remoteFileTabId connectionId nextPath, et_name := remoteFileName nextPath, et_path := nextPath\<rparr>))"

definition renameRemoteFileTabs :: "jsstr \<Rightarrow> jsstr \<Rightarrow> jsstr \<Rightarrow> jsstr option \<Rightarrow> editor_world \<Rightarrow> editor_world" where
  "renameRemoteFileTabs connectionId old new activeThen w =
     (let w1 = w\<lparr>ew_tabs := map (renamed_tab connectionId old new) (ew_tabs w)\<rparr>
      in if activeThen = Some (remoteFileTabId connectionId (normalizeRemotePath (Some old)))
         then w1\<lparr>ew_active := Some (remoteFileTabId connectionId (normalizeRemotePath (Some new)))\<rparr> else w1)"

text \<open>\<open>confirmRemoteFileDelete\<close>: the deletions are sent, and what follows them uses the tabs of that moment.\<close>

definition confirmRemoteFileDelete ::
  "(jsstr \<Rightarrow> jsstr \<Rightarrow> bool) \<Rightarrow> jsstr \<Rightarrow> remote_entry list \<Rightarrow> editor_world \<Rightarrow> editor_world" where
  "confirmRemoteFileDelete collate connectionId targets w =
     (let entries = collapseRemoteFileDeleteEntries collate targets
      in if entries = [] then w
         else send_call (CallDelete connectionId entries (ew_tabs w) (ew_active w) (ew_pendingClose w) (ew_pendingConflict w)) w)"

definition delete_settled ::
  "jsstr \<Rightarrow> remote_entry list \<Rightarrow> editor_tab list \<Rightarrow> jsstr option \<Rightarrow> jsstr option \<Rightarrow> jsstr option
     \<Rightarrow> editor_world \<Rightarrow> editor_world" where
  "delete_settled connectionId entries tabs active pendingClose pendingConflict w =
     (let nextTabs = filter (\<lambda>tab. \<not> list_ex (\<lambda>entry. isRemoteFileTabUnderEntry tab connectionId (re_path entry)) entries) tabs;
          gone = (\<lambda>pending. case opt_truthy pending of Some i \<Rightarrow> i \<notin> et_id ` set nextTabs | None \<Rightarrow> False);
          removedActive = (case opt_truthy active of
             Some i \<Rightarrow> i \<in> et_id ` set tabs \<and> i \<notin> et_id ` set nextTabs | None \<Rightarrow> False);
          w1 = w\<lparr>ew_tabs := nextTabs,
                 ew_pendingClose := (if gone pendingClose then None else ew_pendingClose w),
                 ew_pendingConflict := (if gone pendingConflict then None else ew_pendingConflict w)\<rparr>
      in if removedActive then activateRemoteFileFallbackAfterRemoval nextTabs connectionId w1 else w1)"

section \<open>Events\<close>

datatype editor_event =
    UserOpen "(jsstr \<times> jsstr) option" remote_entry
  | UserChange jsstr jsstr
  | UserSave jsstr bool
  | UserReload jsstr
  | UserDiscard jsstr
  | UserClose jsstr
  | UserCloseOthers jsstr
  | UserCloseRight jsstr
  | UserCloseAll jsstr
  | UserCloseSaved jsstr
  | UserConfirmClose
  | UserCancelClose
  | UserConflictReload
  | UserConflictOverwrite
  | UserConflictCancel
  | UserCloseSessions "jsstr list"
  | UserConfirmSessions
  | UserCancelSessions
  | UserRename jsstr jsstr jsstr
  | UserDelete jsstr "remote_entry list"
  | AnswerRead jsstr jsstr jsstr "json + read_result"
  | AnswerWrite jsstr write_input "json + remote_metadata"
  | AnswerRename jsstr jsstr jsstr "jsstr option" bool
  | AnswerDelete jsstr "remote_entry list" "editor_tab list" "jsstr option" "jsstr option" "jsstr option" bool

text \<open>The dialogs act on the pending tab only while it is open.\<close>

definition pending_tab :: "jsstr option \<Rightarrow> editor_world \<Rightarrow> editor_tab option" where
  "pending_tab pending w = Option.bind (opt_truthy pending) (\<lambda>i. find_tab i w)"

definition answer_to :: "editor_call \<Rightarrow> (editor_world \<Rightarrow> editor_world) \<Rightarrow> editor_world \<Rightarrow> editor_world" where
  "answer_to c f w = (if c \<in> set (ew_calls w) then f (w\<lparr>ew_calls := remove1 c (ew_calls w)\<rparr>) else w)"

record editor_env =
  ee_str :: "json \<Rightarrow> jsstr"
  ee_known :: "jsstr \<Rightarrow> bool"
  ee_collate :: "jsstr \<Rightarrow> jsstr \<Rightarrow> bool"

fun editor_step :: "editor_env \<Rightarrow> editor_event \<Rightarrow> editor_world \<Rightarrow> editor_world" where
  "editor_step env (UserOpen conn entry) w = openRemoteFile conn entry w"
| "editor_step env (UserChange i content) w = handleRemoteFileChange i content w"
| "editor_step env (UserSave i overwrite) w = saveRemoteFile i overwrite w"
| "editor_step env (UserReload i) w = reloadRemoteFile (ee_known env) i w"
| "editor_step env (UserDiscard i) w = discardRemoteFileChanges i w"
| "editor_step env (UserClose i) w = closeRemoteFileTab i w"
| "editor_step env (UserCloseOthers i) w = closeOtherRemoteFileTabs i w"
| "editor_step env (UserCloseRight i) w = closeRemoteFileTabsToRight i w"
| "editor_step env (UserCloseAll conn) w = closeAllRemoteFileTabsForConnection conn w"
| "editor_step env (UserCloseSaved conn) w = closeSavedRemoteFileTabsForConnection conn w"
| "editor_step env UserConfirmClose w =
     (case pending_tab (ew_pendingClose w) w of
        Some tab \<Rightarrow> (closeRemoteFileTabsNow [et_id tab] w)\<lparr>ew_pendingClose := None\<rparr>
      | None \<Rightarrow> w)"
| "editor_step env UserCancelClose w = w\<lparr>ew_pendingClose := None\<rparr>"
| "editor_step env UserConflictReload w =
     (case pending_tab (ew_pendingConflict w) w of
        Some tab \<Rightarrow> (reloadRemoteFile (ee_known env) (et_id tab) w)\<lparr>ew_pendingConflict := None\<rparr>
      | None \<Rightarrow> w\<lparr>ew_pendingConflict := None\<rparr>)"
| "editor_step env UserConflictOverwrite w =
     (case pending_tab (ew_pendingConflict w) w of
        Some tab \<Rightarrow> (saveRemoteFile (et_id tab) True w)\<lparr>ew_pendingConflict := None\<rparr>
      | None \<Rightarrow> w\<lparr>ew_pendingConflict := None\<rparr>)"
| "editor_step env UserConflictCancel w = w\<lparr>ew_pendingConflict := None\<rparr>"
| "editor_step env (UserCloseSessions conns) w = close_session_files conns False w"
| "editor_step env UserConfirmSessions w =
     (case ew_pendingSessions w of Some conns \<Rightarrow> close_session_files conns True w | None \<Rightarrow> w)"
| "editor_step env UserCancelSessions w = w\<lparr>ew_pendingSessions := None\<rparr>"
| "editor_step env (UserRename conn old new) w = send_call (CallRename conn old new (ew_active w)) w"
| "editor_step env (UserDelete conn entries) w = confirmRemoteFileDelete (ee_collate env) conn entries w"
| "editor_step env (AnswerRead conn path i answer) w =
     answer_to (CallRead conn path i) (loadRemoteFileTab_settled (ee_str env) i answer) w"
| "editor_step env (AnswerWrite i input answer) w =
     answer_to (CallWrite i input) (saveRemoteFile_settled (ee_str env) i answer) w"
| "editor_step env (AnswerRename conn old new active ok) w =
     answer_to (CallRename conn old new active) (if ok then renameRemoteFileTabs conn old new active else id) w"
| "editor_step env (AnswerDelete conn entries tabs active pc pf ok) w =
     answer_to (CallDelete conn entries tabs active pc pf) (if ok then delete_settled conn entries tabs active pc pf else id) w"

definition editor_run :: "editor_env \<Rightarrow> editor_event list \<Rightarrow> editor_world \<Rightarrow> editor_world" where
  "editor_run env evs w = foldl (\<lambda>w e. editor_step env e w) w evs"

definition editor_start :: editor_world where
  "editor_start = \<lparr>ew_tabs = [], ew_active = None, ew_pendingClose = None, ew_pendingConflict = None,
     ew_pendingSessions = None, ew_calls = []\<rparr>"

end
