(* ===== verification/Remote_Editor_Laws.thy ===== *)
theory Remote_Editor_Laws
  imports Remote_Editor
begin

text \<open>
  What holds of the open files: the mark of a changed file is exact in every reachable state that no failed read led to,
  and what a failed read leaves shows it; the ways, four of the user and four of the program, by which edits that are not
  saved can leave; and a save marks as saved what stands in the editor when it ends.
\<close>

section \<open>Tabs after an operation\<close>

lemma tabs_simps [simp]:
  "ew_tabs (send_call c w) = ew_tabs w"
  "ew_tabs (updateRemoteFileTab i f w) = map (\<lambda>tab. if et_id tab = i then f tab else tab) (ew_tabs w)"
  "ew_tabs (activateRemoteFileTab tab w) = ew_tabs w"
  by (simp_all add: send_call_def updateRemoteFileTab_def activateRemoteFileTab_def)

lemma calls_simps [simp]:
  "ew_calls (send_call c w) = ew_calls w @ [c]"
  "ew_calls (updateRemoteFileTab i f w) = ew_calls w"
  "ew_calls (activateRemoteFileTab tab w) = ew_calls w"
  by (simp_all add: send_call_def updateRemoteFileTab_def activateRemoteFileTab_def)

lemma fallback_simps [simp]:
  "ew_tabs (activateRemoteFileFallbackAfterRemoval ts conn w) = ew_tabs w"
  "ew_calls (activateRemoteFileFallbackAfterRemoval ts conn w) = ew_calls w"
  by (simp_all add: activateRemoteFileFallbackAfterRemoval_def split: option.splits list.splits)

lemma close_now_simps [simp]:
  "ew_tabs (closeRemoteFileTabsNow ids w) = filter (\<lambda>tab. et_id tab \<notin> set ids) (ew_tabs w)"
  "ew_calls (closeRemoteFileTabsNow ids w) = ew_calls w"
  by (simp_all add: closeRemoteFileTabsNow_def Let_def split: option.splits)

lemma close_tabs_simps [simp]:
  "ew_tabs (closeRemoteFileTabs ids w)
   = filter (\<lambda>tab. et_id tab \<notin> et_id ` {t \<in> set (ew_tabs w). et_id t \<in> set ids \<and> \<not> et_dirty t}) (ew_tabs w)"
  "ew_calls (closeRemoteFileTabs ids w) = ew_calls w"
proof -
  have "filter (\<lambda>tab. et_id tab \<notin> et_id ` {t \<in> set (ew_tabs w). et_id t \<in> set ids \<and> \<not> et_dirty t}) (ew_tabs w) = ew_tabs w"
    if "map et_id (filter (\<lambda>tab. et_id tab \<in> set ids \<and> \<not> et_dirty tab) (ew_tabs w)) = []"
    using that by (auto simp: filter_id_conv filter_empty_conv)
  moreover have "set (map et_id (filter (\<lambda>tab. et_id tab \<in> set ids \<and> \<not> et_dirty tab) (ew_tabs w)))
      = et_id ` {t \<in> set (ew_tabs w). et_id t \<in> set ids \<and> \<not> et_dirty t}" by auto
  ultimately show "ew_tabs (closeRemoteFileTabs ids w)
      = filter (\<lambda>tab. et_id tab \<notin> et_id ` {t \<in> set (ew_tabs w). et_id t \<in> set ids \<and> \<not> et_dirty t}) (ew_tabs w)"
    unfolding closeRemoteFileTabs_def Let_def by (simp split: option.split del: set_map set_filter)
  show "ew_calls (closeRemoteFileTabs ids w) = ew_calls w"
    by (simp add: closeRemoteFileTabs_def Let_def split: option.split)
qed

lemma close_tab_simps [simp]:
  "ew_tabs (closeRemoteFileTab i w)
   = (if \<exists>t. find_tab i w = Some t \<and> et_dirty t then ew_tabs w else filter (\<lambda>tab. et_id tab \<noteq> i) (ew_tabs w))"
  "ew_calls (closeRemoteFileTab i w) = ew_calls w"
  by (auto simp: closeRemoteFileTab_def split: option.split)

section \<open>The mark of a changed file\<close>

text \<open>A tab is marked as changed exactly when its text differs from the saved one, but for a failed read, which
  empties the editor without a mark. Such a tab shows that it is not ready, and without a failed read there is none.\<close>

definition mark_exact :: "editor_tab \<Rightarrow> bool" where
  "mark_exact tab \<longleftrightarrow> et_dirty tab = (et_content tab \<noteq> et_savedContent tab)"

definition tab_ok :: "editor_tab \<Rightarrow> bool" where
  "tab_ok tab \<longleftrightarrow> mark_exact tab
     \<or> \<not> et_dirty tab \<and> et_content tab = [] \<and> et_saveState tab \<in> {SaveError, SaveLoading, SaveSaving, SaveConflict}"

text \<open>A predicate on tabs that holds of the tabs and of those a deletion has captured.\<close>

definition all_tabs :: "(editor_tab \<Rightarrow> bool) \<Rightarrow> editor_world \<Rightarrow> bool" where
  "all_tabs P w \<longleftrightarrow> list_all P (ew_tabs w)
     \<and> list_all (\<lambda>c. case c of CallDelete _ _ tabs _ _ _ \<Rightarrow> list_all P tabs | _ \<Rightarrow> True) (ew_calls w)"

definition failed_read :: "editor_event \<Rightarrow> bool" where
  "failed_read e \<longleftrightarrow> (case e of AnswerRead _ _ _ (Inl _) \<Rightarrow> True | _ \<Rightarrow> False)"

text \<open>What the changes of a tab must keep for every event to keep it; a failed read is apart.\<close>

definition kept_by_changes :: "(editor_tab \<Rightarrow> bool) \<Rightarrow> bool" where
  "kept_by_changes P \<longleftrightarrow> (\<forall>conn name entry. P (new_tab conn name entry)) \<and> (\<forall>r t. P (loaded_tab r t)) \<and> (\<forall>c t. P (changed_tab c t))
     \<and> (\<forall>md t. P (saved_tab md t)) \<and> (\<forall>t. P (discarded_tab t)) \<and> (\<forall>t. P t \<longrightarrow> P (reloading_tab t)) \<and> (\<forall>t. P t \<longrightarrow> P (saving_tab t))
     \<and> (\<forall>m t. P t \<longrightarrow> P (conflict_tab m t)) \<and> (\<forall>m t. P t \<longrightarrow> P (save_failed_tab m t))
     \<and> (\<forall>conn old new t. P t \<longrightarrow> P (renamed_tab conn old new t))"

lemmas tab_changes = new_tab_def loaded_tab_def load_failed_tab_def changed_tab_def saved_tab_def discarded_tab_def
  reloading_tab_def saving_tab_def conflict_tab_def save_failed_tab_def renamed_tab_def

lemma mark_kept: "kept_by_changes mark_exact" "kept_by_changes tab_ok"
  by (simp_all add: kept_by_changes_def tab_ok_def mark_exact_def tab_changes Let_def)

lemma all_answer:
  assumes "all_tabs P w" "\<And>v. all_tabs P v \<Longrightarrow> c \<in> set (ew_calls w) \<Longrightarrow> all_tabs P (f v)"
  shows "all_tabs P (answer_to c f w)"
proof -
  have "set (remove1 c (ew_calls w)) \<subseteq> set (ew_calls w)" by (rule set_remove1_subset)
  then have "all_tabs P (w\<lparr>ew_calls := remove1 c (ew_calls w)\<rparr>)" using assms(1) by (auto simp: all_tabs_def list_all_iff)
  then show ?thesis using assms by (simp add: answer_to_def)
qed

lemma all_settled:
  assumes "kept_by_changes P" "all_tabs P w"
  shows "(\<forall>e. r = Inl e \<longrightarrow> (\<forall>m t. P (load_failed_tab m t))) \<Longrightarrow> all_tabs P (loadRemoteFileTab_settled str i r w)"
    "all_tabs P (saveRemoteFile_settled str i a w)" "all_tabs P (renameRemoteFileTabs conn old new active w)"
    "list_all P ts \<Longrightarrow> all_tabs P (delete_settled conn es ts active pc pf w)"
  using assms
  by (auto simp: loadRemoteFileTab_settled_def saveRemoteFile_settled_def renameRemoteFileTabs_def delete_settled_def
      all_tabs_def list_all_iff kept_by_changes_def Let_def split: sum.split)

lemma all_user:
  assumes "kept_by_changes P" "all_tabs P w"
  shows "all_tabs P (openRemoteFile c entry w)" "all_tabs P (handleRemoteFileChange i content w)"
    "all_tabs P (saveRemoteFile i overwrite w)" "all_tabs P (reloadRemoteFile known i w)"
    "all_tabs P (discardRemoteFileChanges i w)" "all_tabs P (closeRemoteFileTabsNow ids w)" "all_tabs P (closeRemoteFileTab i w)"
    "all_tabs P (closeRemoteFileTabs ids w)" "all_tabs P (close_session_files conns discard w)"
    "all_tabs P (confirmRemoteFileDelete collate conn es w)" "all_tabs P (w\<lparr>ew_pendingClose := pc\<rparr>)"
    "all_tabs P (w\<lparr>ew_pendingConflict := pf\<rparr>)" "all_tabs P (w\<lparr>ew_pendingSessions := ps\<rparr>)"
    "all_tabs P (send_call (CallRename conn old new active) w)"
  using assms
  by (auto simp: all_tabs_def openRemoteFile_def handleRemoteFileChange_def saveRemoteFile_def reloadRemoteFile_def
      discardRemoteFileChanges_def close_session_files_def clearRemoteFileSessionStateForConnections_def
      confirmRemoteFileDelete_def list_all_iff kept_by_changes_def Let_def split: option.splits)

lemma all_step:
  assumes "kept_by_changes P" "failed_read e \<Longrightarrow> \<forall>m t. P (load_failed_tab m t)" "all_tabs P w"
  shows "all_tabs P (editor_step env e w)"
proof (cases e)
  case (AnswerDelete conn entries tabs active pc pf ok)
  have "list_all P tabs" if "CallDelete conn entries tabs active pc pf \<in> set (ew_calls w)"
    using assms(3) that by (fastforce simp: all_tabs_def list_all_iff)
  then show ?thesis using AnswerDelete assms by (auto intro!: all_answer all_settled)
next
  case (AnswerRead conn path i r)
  have "all_tabs P (loadRemoteFileTab_settled (ee_str env) i r v)" if "all_tabs P v" for v
    using assms(2) AnswerRead by (intro all_settled assms(1) that) (auto simp: failed_read_def)
  then show ?thesis using AnswerRead assms(3) by (auto intro!: all_answer)
qed (use assms in \<open>auto intro!: all_answer all_settled all_user simp: closeOtherRemoteFileTabs_def closeRemoteFileTabsToRight_def
      closeAllRemoteFileTabsForConnection_def closeSavedRemoteFileTabsForConnection_def Let_def split: option.splits\<close>)

lemma all_run:
  assumes "kept_by_changes P" "(\<exists>e\<in>set evs. failed_read e) \<longrightarrow> (\<forall>m t. P (load_failed_tab m t))"
  shows "list_all P (ew_tabs (editor_run env evs editor_start))"
proof -
  have "all_tabs P (editor_run env evs w)" if "all_tabs P w" for w
    using that assms(2) unfolding editor_run_def
    by (induction evs arbitrary: w) (auto simp: all_step [OF assms(1)])
  moreover have "all_tabs P editor_start" by (simp add: all_tabs_def editor_start_def)
  ultimately show ?thesis by (simp add: all_tabs_def)
qed

text \<open>C11. As long as no read has failed, every file is marked as changed exactly when its text differs from the text its
  tab holds as saved (the one last read, or the one in the editor when the last save ended), whatever the user does and in
  whatever order reads, writes, renamings and deletions are answered. With failed reads, which empty the editor without a mark, a marked file still always differs, and an unmarked
  one differs only if its editor is empty and its state is one of error, loading, saving and conflict; and after a change
  by the user the mark of the changed file is exact in any case.\<close>

theorem changed_mark_exact:
  "(let w = editor_run env evs editor_start
    in (\<not> (\<exists>e\<in>set evs. failed_read e) \<longrightarrow> (\<forall>t\<in>set (ew_tabs w). et_dirty t = (et_content t \<noteq> et_savedContent t)))
     \<and> (\<forall>t\<in>set (ew_tabs w). et_dirty t = (et_content t \<noteq> et_savedContent t)
          \<or> \<not> et_dirty t \<and> et_content t = [] \<and> et_saveState t \<in> {SaveError, SaveLoading, SaveSaving, SaveConflict})
     \<and> (\<forall>i content. \<forall>t\<in>set (ew_tabs (editor_step env (UserChange i content) w)). et_id t = i \<longrightarrow>
          et_content t = content \<and> et_dirty t = (content \<noteq> et_savedContent t)))"
proof -
  define w where "w = editor_run env evs editor_start"
  have exact: "\<not> (\<exists>e\<in>set evs. failed_read e) \<longrightarrow> (\<forall>t\<in>set (ew_tabs w). mark_exact t)"
    using all_run [OF mark_kept(1), of evs env] unfolding list_all_iff w_def by blast
  have "list_all tab_ok (ew_tabs w)"
    unfolding w_def by (rule all_run [OF mark_kept(2)]) (simp add: tab_ok_def load_failed_tab_def)
  then have ok: "\<forall>t\<in>set (ew_tabs w). tab_ok t" by (simp only: list_all_iff)
  have changed: "et_content t = content \<and> et_dirty t = (content \<noteq> et_savedContent t)"
    if "t \<in> set (ew_tabs (editor_step env (UserChange i content) w))" "et_id t = i" for i content t
  proof -
    note t = that
    obtain u where "t = (if et_id u = i then changed_tab content u else u)"
      using t(1) unfolding editor_step.simps handleRemoteFileChange_def tabs_simps set_map by blast
    with t(2) have "t = changed_tab content u" by (simp split: if_splits)
    then show ?thesis by (simp add: changed_tab_def)
  qed
  show ?thesis
    unfolding Let_def w_def [symmetric]
    by (intro conjI exact [unfolded mark_exact_def] ok [unfolded tab_ok_def mark_exact_def]) (intro allI ballI impI changed)
qed

text \<open>A run in which a file is opened and read, and the user empties it: it is marked.\<close>

theorem changed_mark_exact_witness:
  "(let w = editor_run \<lparr>ee_str = (\<lambda>_. []), ee_known = (\<lambda>_. True), ee_collate = (\<lambda>_ _. False)\<rparr>
          [UserOpen (Some (js ''c'', js ''host'')) \<lparr>re_name = js ''a'', re_path = js ''/a'', re_type = KindFile\<rparr>,
           AnswerRead (js ''c'') (js ''/a'') (js ''file:c:/a'') (Inr \<lparr>rr_content = js ''text'', rr_metadata = \<lparr>rm_name = js ''a'',
             rm_path = js ''/a'', rm_size = 4, rm_mtime = 0, rm_mode = None\<rparr>, rr_name = js ''a'', rr_path = js ''/a''\<rparr>),
           UserChange (js ''file:c:/a'') []] editor_start
    in \<forall>t\<in>set (ew_tabs w). et_dirty t = (et_content t \<noteq> et_savedContent t))"
  (is "let w = editor_run ?env ?evs editor_start in _")
proof -
  have "\<not> (\<exists>e\<in>set ?evs. failed_read e)" by (simp add: failed_read_def)
  with changed_mark_exact [where evs = ?evs and env = ?env] show ?thesis unfolding Let_def by blast
qed

section \<open>Unsaved edits\<close>

text \<open>The acts by which the user gives the edits of a tab up, or edits it further: editing, discarding, confirming that
  the tab is closed, and confirming that its session is closed.\<close>

definition user_gives_up :: "editor_event \<Rightarrow> editor_world \<Rightarrow> editor_tab \<Rightarrow> bool" where
  "user_gives_up e w t \<longleftrightarrow>
     (case e of
        UserChange i _ \<Rightarrow> i = et_id t
      | UserDiscard i \<Rightarrow> i = et_id t
      | UserConfirmClose \<Rightarrow> ew_pendingClose w = Some (et_id t)
      | UserConfirmSessions \<Rightarrow> (case ew_pendingSessions w of Some conns \<Rightarrow> et_connectionId t \<in> set conns | None \<Rightarrow> False)
      | _ \<Rightarrow> False)"

definition same_edits :: "editor_tab \<Rightarrow> editor_tab \<Rightarrow> bool" where
  "same_edits t u \<longleftrightarrow> et_content u = et_content t \<and> et_savedContent u = et_savedContent t \<and> et_dirty u = et_dirty t
     \<and> et_connectionId u = et_connectionId t \<and> et_id u = et_id t \<and> et_path u = et_path t"

text \<open>What else takes them: a read of the tab that is answered, well or badly; a save of it that succeeds; a deletion that
  succeeds, when the file is deleted or the edits are not in the list of tabs the deletion captured when it was sent; and a
  request to close, when an unchanged tab has the same identifier.\<close>

definition closes_tabs :: "editor_event \<Rightarrow> bool" where
  "closes_tabs e \<longleftrightarrow> (case e of UserClose _ \<Rightarrow> True | UserCloseOthers _ \<Rightarrow> True | UserCloseRight _ \<Rightarrow> True
     | UserCloseAll _ \<Rightarrow> True | UserCloseSaved _ \<Rightarrow> True | _ \<Rightarrow> False)"

definition program_takes :: "editor_event \<Rightarrow> editor_world \<Rightarrow> editor_tab \<Rightarrow> bool" where
  "program_takes e w t \<longleftrightarrow>
     (case e of
        AnswerRead conn path i _ \<Rightarrow> i = et_id t \<and> CallRead conn path i \<in> set (ew_calls w)
      | AnswerWrite i input (Inr _) \<Rightarrow> i = et_id t \<and> CallWrite i input \<in> set (ew_calls w)
      | AnswerDelete conn entries tabs active pc pf ok \<Rightarrow>
          ok \<and> CallDelete conn entries tabs active pc pf \<in> set (ew_calls w)
          \<and> \<not> (\<exists>u\<in>set tabs. same_edits t u \<and> (\<forall>entry\<in>set entries. \<not> isRemoteFileTabUnderEntry u conn (re_path entry)))
      | _ \<Rightarrow> closes_tabs e \<and> (\<exists>u\<in>set (ew_tabs w). et_id u = et_id t \<and> \<not> et_dirty u))"

definition edits_kept :: "editor_tab \<Rightarrow> editor_world \<Rightarrow> bool" where
  "edits_kept t w \<longleftrightarrow> (\<exists>u\<in>set (ew_tabs w). same_edits t u)"

lemma edits_kept_same: "t \<in> set (ew_tabs w) \<Longrightarrow> edits_kept t w"
  by (auto simp: edits_kept_def same_edits_def)

lemma edits_kept_update:
  assumes "t \<in> set (ew_tabs w)" "i = et_id t \<Longrightarrow> same_edits t (f t)"
  shows "edits_kept t (updateRemoteFileTab i f w)"
  using assms by (auto simp: edits_kept_def same_edits_def intro!: bexI [OF _ imageI [OF assms(1)]])

lemma edits_kept_answer:
  "edits_kept t w \<Longrightarrow> (c \<in> set (ew_calls w) \<Longrightarrow> edits_kept t (f (w\<lparr>ew_calls := remove1 c (ew_calls w)\<rparr>)))
    \<Longrightarrow> edits_kept t (answer_to c f w)"
  by (simp add: answer_to_def)

lemma edits_kept_fields [simp]:
  "edits_kept t (w\<lparr>ew_pendingClose := pc\<rparr>) = edits_kept t w"
  "edits_kept t (w\<lparr>ew_pendingConflict := pc\<rparr>) = edits_kept t w"
  "edits_kept t (w\<lparr>ew_pendingSessions := ps\<rparr>) = edits_kept t w"
  "edits_kept t (w\<lparr>ew_calls := cs\<rparr>) = edits_kept t w"
  "edits_kept t (send_call c w) = edits_kept t w"
  by (simp_all add: edits_kept_def)

lemma dirty_not_closed:
  assumes "\<forall>u\<in>set (ew_tabs w). et_id u = et_id t \<longrightarrow> et_dirty u" "t \<in> set (ew_tabs w)"
  shows "edits_kept t (closeRemoteFileTabs ids w)" "edits_kept t (closeRemoteFileTab i w)"
    "edits_kept t (closeSavedRemoteFileTabsForConnection conn w)"
proof -
  have other: "et_id t \<notin> et_id ` {u \<in> set (ew_tabs w). P u \<and> \<not> et_dirty u}" for P
    using assms(1) by auto
  show "edits_kept t (closeRemoteFileTabs ids w)"
    by (rule edits_kept_same) (use assms(2) other [of "\<lambda>u. et_id u \<in> set ids"] in simp_all)
  show "edits_kept t (closeRemoteFileTab i w)"
  proof (rule edits_kept_same)
    have "\<exists>u. find_tab i w = Some u \<and> et_dirty u" if "et_id t = i"
    proof -
      have "find_tab i w \<noteq> None" using assms(2) that by (auto simp: find_tab_def find_None_iff)
      then obtain u where u: "find_tab i w = Some u" by blast
      then have "u \<in> set (ew_tabs w)" "et_id u = i" by (auto simp: find_tab_def dest!: find_SomeD)
      then have "et_dirty u" using assms(1) that by simp
      with u show ?thesis by blast
    qed
    then show "t \<in> set (ew_tabs (closeRemoteFileTab i w))" using assms(2) by auto
  qed
  have "et_id t \<notin> set (map et_id (filter (\<lambda>u. et_connectionId u = conn \<and> isClosableSavedRemoteFileTab u) (ew_tabs w)))"
    using assms(1) by (auto simp: isClosableSavedRemoteFileTab_def)
  then show "edits_kept t (closeSavedRemoteFileTabsForConnection conn w)"
    unfolding closeSavedRemoteFileTabsForConnection_def by (intro edits_kept_same) (use assms(2) in simp_all)
qed

lemma dirty_session_kept: "t \<in> set (ew_tabs w) \<Longrightarrow> et_dirty t \<Longrightarrow> edits_kept t (close_session_files conns False w)"
  by (rule edits_kept_same)
    (auto simp: close_session_files_def clearRemoteFileSessionStateForConnections_def list_ex_iff Let_def)

lemma changes_keep_edits:
  "same_edits t (saving_tab t)" "same_edits t (reloading_tab t)" "same_edits t (conflict_tab m t)" "same_edits t (save_failed_tab m t)"
  by (simp_all add: same_edits_def tab_changes)


definition sample_tab :: editor_tab where
  "sample_tab = \<lparr>et_connectionId = js ''c'', et_connectionName = js ''host'', et_content = js ''new'', et_dirty = True,
     et_error = None, et_id = js ''file:c:/a'',
     et_metadata = Some \<lparr>rm_name = js ''a'', rm_path = js ''/a'', rm_size = 3, rm_mtime = 0, rm_mode = None\<rparr>,
     et_name = js ''a'', et_path = js ''/a'', et_savedContent = js ''old'', et_saveState = SaveDirty, et_statusMessage = None\<rparr>"

definition sample_editor :: editor_world where
  "sample_editor = editor_start\<lparr>ew_tabs := [sample_tab], ew_active := Some (js ''file:c:/a'')\<rparr>"

definition sample_editor_env :: editor_env where
  "sample_editor_env = \<lparr>ee_str = (\<lambda>_. []), ee_known = (\<lambda>_. True), ee_collate = (\<lambda>_ _. False)\<rparr>"

lemma sample_fields:
  "ew_tabs sample_editor = [sample_tab]" "et_content sample_tab = js ''new''" "et_dirty sample_tab"
  "et_id sample_tab = js ''file:c:/a''" "et_saveState sample_tab = SaveDirty" "find_tab (js ''file:c:/a'') sample_editor = Some sample_tab"
  by (simp_all add: sample_editor_def sample_tab_def find_tab_def)


text \<open>C23. A save that succeeds marks as saved the text that stands in the editor when it ends, not the text that
  was written: after an edit during the save the file counts as saved, with the text typed since, while the
  server has the text before the edit; closing the tab then drops the edit without asking.\<close>

theorem edit_during_save_counts_as_saved:
  assumes "find_tab i w = Some t" "et_metadata t = Some metadata" "et_saveState t \<noteq> SaveSaving"
  shows "let input = \<lparr>wi_connectionId = et_connectionId t, wi_content = et_content t, wi_expectedMtime = rm_mtime metadata,
               wi_expectedSize = rm_size metadata, wi_overwrite = overwrite, wi_path = et_path t\<rparr>;
             w1 = editor_step env (UserSave i overwrite) w;
             w2 = editor_run env [UserChange i typed, AnswerWrite i input (Inr metadata')] w1
    in ew_calls w1 = ew_calls w @ [CallWrite i input]
       \<and> map (\<lambda>u. (et_content u, et_savedContent u, et_dirty u)) (filter (\<lambda>u. et_id u = i) (ew_tabs w2))
         = map (\<lambda>u. (typed, typed, False)) (filter (\<lambda>u. et_id u = i) (ew_tabs w))
       \<and> i \<notin> et_id ` set (ew_tabs (editor_step env (UserClose i) w2))"
proof -
  let ?input = "\<lparr>wi_connectionId = et_connectionId t, wi_content = et_content t, wi_expectedMtime = rm_mtime metadata,
               wi_expectedSize = rm_size metadata, wi_overwrite = overwrite, wi_path = et_path t\<rparr>"
  let ?f = "\<lambda>u. saved_tab metadata' (changed_tab typed (saving_tab u))"
  have w1: "editor_step env (UserSave i overwrite) w
      = send_call (CallWrite i ?input) (updateRemoteFileTab i saving_tab w)"
    using assms by (simp add: saveRemoteFile_def)
  have id: "et_id (?f u) = et_id u" "et_id (changed_tab typed (saving_tab u)) = et_id u" "et_id (saving_tab u) = et_id u" for u
    by (simp_all add: saved_tab_def changed_tab_def saving_tab_def)
  define w2 where "w2 = editor_run env [UserChange i typed, AnswerWrite i ?input (Inr metadata')]
      (editor_step env (UserSave i overwrite) w)"
  have tabs: "ew_tabs w2 = map (\<lambda>u. if et_id u = i then ?f u else u) (ew_tabs w)"
    unfolding w2_def w1 by (simp add: editor_run_def answer_to_def saveRemoteFile_settled_def handleRemoteFileChange_def id comp_def
        cong: if_cong)
  have fields: "(et_content (?f u), et_savedContent (?f u), et_dirty (?f u)) = (typed, typed, False)" for u
    by (simp add: saved_tab_def changed_tab_def saving_tab_def)
  have closed: "i \<notin> et_id ` set (ew_tabs (editor_step env (UserClose i) w2))"
  proof -
    have "\<not> et_dirty u" if "find_tab i w2 = Some u" for u
      using that fields unfolding find_tab_def tabs by (auto dest!: find_SomeD split: if_splits)
    then show ?thesis by auto
  qed
  have "map (\<lambda>u. (et_content u, et_savedContent u, et_dirty u)) (filter (\<lambda>u. et_id u = i)
      (map (\<lambda>u. if et_id u = i then ?f u else u) ts)) = map (\<lambda>u. (typed, typed, False)) (filter (\<lambda>u. et_id u = i) ts)" for ts
    by (induction ts) (simp_all add: id fields)
  moreover have "ew_calls (editor_step env (UserSave i overwrite) w) = ew_calls w @ [CallWrite i ?input]"
    unfolding w1 by simp
  ultimately show ?thesis using closed tabs unfolding Let_def w2_def [symmetric] by (simp only: simp_thms)
qed

definition sample_input :: write_input where
  "sample_input = \<lparr>wi_connectionId = js ''c'', wi_content = js ''new'', wi_expectedMtime = 0, wi_expectedSize = 3,
     wi_overwrite = False, wi_path = js ''/a''\<rparr>"

definition sample_metadata :: remote_metadata where
  "sample_metadata = \<lparr>rm_name = js ''a'', rm_path = js ''/a'', rm_size = 3, rm_mtime = 0, rm_mode = None\<rparr>"

theorem edit_during_save_counts_as_saved_witness:
  "map (\<lambda>u. (et_content u, et_savedContent u, et_dirty u)) (filter (\<lambda>u. et_id u = js ''file:c:/a'')
     (ew_tabs (editor_run sample_editor_env
       [UserChange (js ''file:c:/a'') (js ''newer''), AnswerWrite (js ''file:c:/a'') sample_input (Inr sample_metadata)]
       (editor_step sample_editor_env (UserSave (js ''file:c:/a'') False) sample_editor))))
   = [(js ''newer'', js ''newer'', False)]"
proof -
  have t: "et_metadata sample_tab = Some sample_metadata" "et_saveState sample_tab \<noteq> SaveSaving"
    by (simp_all add: sample_tab_def sample_metadata_def)
  have "\<lparr>wi_connectionId = et_connectionId sample_tab, wi_content = et_content sample_tab, wi_expectedMtime = rm_mtime sample_metadata,
      wi_expectedSize = rm_size sample_metadata, wi_overwrite = False, wi_path = et_path sample_tab\<rparr> = sample_input"
    by (simp add: sample_tab_def sample_metadata_def sample_input_def)
  with edit_during_save_counts_as_saved [OF sample_fields(6) t, where env = sample_editor_env and overwrite = False
      and typed = "js ''newer''" and metadata' = sample_metadata]
  show ?thesis by (simp only: Let_def sample_fields(1,4) filter.simps list.map simp_thms if_True)
qed

text \<open>The continuation of a deletion puts the tabs of the moment it was sent back: what was typed since, in any
  file, is gone.\<close>

lemma edits_during_delete_lost:
  assumes "entries = collapseRemoteFileDeleteEntries (ee_collate env) targets" "entries \<noteq> []"
  shows "ew_tabs (editor_run env [UserDelete conn targets, UserChange i typed,
      AnswerDelete conn entries (ew_tabs w) (ew_active w) (ew_pendingClose w) (ew_pendingConflict w) True] w)
    = filter (\<lambda>tab. \<not> list_ex (\<lambda>entry. isRemoteFileTabUnderEntry tab conn (re_path entry)) entries) (ew_tabs w)"
  using assms by (simp add: editor_run_def confirmRemoteFileDelete_def answer_to_def handleRemoteFileChange_def
      delete_settled_def Let_def)

end
