(* ===== verification/Transfer_Store.thy ===== *)
theory Transfer_Store
  imports Transfer_Items
begin

text \<open>
  The list of transfers, \<open>src/features/files/remoteFileTransferStore.ts\<close>: items are added in
  front, updated in place, trimmed to a bounded history, and fed with the progress events of the
  backend, which are collected by transfer and applied together on a timer.
\<close>

section \<open>Trimming\<close>

definition finished_status :: "transfer_status \<Rightarrow> bool" where
  "finished_status s \<longleftrightarrow> s \<in> {StSuccess, StSkipped, StCanceled}"

definition maxFinishedTransferHistory :: nat where "maxFinishedTransferHistory = 100"

definition maxErrorTransferHistory :: nat where "maxErrorTransferHistory = 100"

text \<open>The loop, with its two counters.\<close>

fun trim_loop :: "nat \<Rightarrow> nat \<Rightarrow> transfer_item list \<Rightarrow> transfer_item list" where
  "trim_loop finishedCount errorCount [] = []"
| "trim_loop finishedCount errorCount (item # items) =
     (if ti_status item = StError then
        (if errorCount < maxErrorTransferHistory
         then item # trim_loop finishedCount (Suc errorCount) items
         else trim_loop finishedCount errorCount items)
      else if \<not> finished_status (ti_status item) then item # trim_loop finishedCount errorCount items
      else if finishedCount < maxFinishedTransferHistory
        then item # trim_loop (Suc finishedCount) errorCount items
        else trim_loop finishedCount errorCount items)"

definition trimTransferHistory :: "transfer_item list \<Rightarrow> transfer_item list" where
  "trimTransferHistory items = trim_loop 0 0 items"

section \<open>Operations on the items\<close>

definition getRemoteFileTransfer :: "transfer_item list \<Rightarrow> jsstr \<Rightarrow> transfer_item option" where
  "getRemoteFileTransfer items transferId = List.find (\<lambda>item. ti_id item = transferId) items"

record add_transfer_input =
  ai_direction :: transfer_direction
  ai_kind :: transfer_kind
  ai_name :: jsstr
  ai_progress :: "jsnum option"
  ai_progressDetail :: "jsstr option"
  ai_progressIndeterminate :: "bool option"
  ai_remotePath :: jsstr
  ai_retry :: "transfer_retry option"
  ai_speedText :: "jsstr option"
  ai_stage :: jsstr

text \<open>\<open>newId\<close> is the identifier made of the time and random characters.\<close>

definition addRemoteFileTransfer ::
  "jsstr \<Rightarrow> int \<Rightarrow> add_transfer_input \<Rightarrow> transfer_item list \<Rightarrow> transfer_item list" where
  "addRemoteFileTransfer newId now input items =
     trimTransferHistory
       (\<lparr>ti_id = newId, ti_createdAt = now, ti_direction = ai_direction input, ti_error = None,
         ti_kind = ai_kind input, ti_localPath = None, ti_name = ai_name input,
         ti_progress = or_else (ai_progress input) (Num 0),
         ti_progressDetail = ai_progressDetail input,
         ti_progressIndeterminate = or_else (ai_progressIndeterminate input) False,
         ti_retry = ai_retry input,
         ti_remotePath = normalizeRemotePath (Some (ai_remotePath input)),
         ti_speedText = ai_speedText input, ti_stage = ai_stage input, ti_startedAt = now,
         ti_status = StQueued\<rparr> # items)"

text \<open>A partial update: \<open>None\<close> for a field the update does not have.\<close>

record transfer_update =
  up_direction :: "transfer_direction option"
  up_error :: "jsstr option option"
  up_kind :: "transfer_kind option"
  up_localPath :: "jsstr option option"
  up_name :: "jsstr option"
  up_progress :: "jsnum option"
  up_progressDetail :: "jsstr option option"
  up_progressIndeterminate :: "bool option"
  up_retry :: "transfer_retry option option"
  up_remotePath :: "jsstr option"
  up_speedText :: "jsstr option option"
  up_stage :: "jsstr option"
  up_startedAt :: "int option"
  up_status :: "transfer_status option"

definition no_update :: transfer_update where
  "no_update = \<lparr>up_direction = None, up_error = None, up_kind = None, up_localPath = None, up_name = None,
     up_progress = None, up_progressDetail = None, up_progressIndeterminate = None, up_retry = None,
     up_remotePath = None, up_speedText = None, up_stage = None, up_startedAt = None, up_status = None\<rparr>"

definition spread_update :: "transfer_item \<Rightarrow> transfer_update \<Rightarrow> transfer_item" where
  "spread_update item u =
     item\<lparr>ti_direction := or_else (up_direction u) (ti_direction item),
          ti_error := or_else (up_error u) (ti_error item),
          ti_kind := or_else (up_kind u) (ti_kind item),
          ti_localPath := or_else (up_localPath u) (ti_localPath item),
          ti_name := or_else (up_name u) (ti_name item),
          ti_progress := or_else (up_progress u) (ti_progress item),
          ti_progressDetail := or_else (up_progressDetail u) (ti_progressDetail item),
          ti_progressIndeterminate := or_else (up_progressIndeterminate u) (ti_progressIndeterminate item),
          ti_retry := or_else (up_retry u) (ti_retry item),
          ti_remotePath := or_else (up_remotePath u) (ti_remotePath item),
          ti_speedText := or_else (up_speedText u) (ti_speedText item),
          ti_stage := or_else (up_stage u) (ti_stage item),
          ti_startedAt := or_else (up_startedAt u) (ti_startedAt item),
          ti_status := or_else (up_status u) (ti_status item)\<rparr>"

text \<open>
  \<open>retry\<close> is compared by identity in the source; two equal descriptions that are different objects
  count as a change there, which replaces the item by an equal one.
\<close>

definition isTransferItemEqual :: "transfer_item \<Rightarrow> transfer_item \<Rightarrow> bool" where
  "isTransferItemEqual l r \<longleftrightarrow>
     ti_direction l = ti_direction r \<and> ti_error l = ti_error r \<and> ti_kind l = ti_kind r
     \<and> ti_localPath l = ti_localPath r \<and> ti_name l = ti_name r \<and> num_eq (ti_progress l) (ti_progress r)
     \<and> ti_progressDetail l = ti_progressDetail r
     \<and> ti_progressIndeterminate l = ti_progressIndeterminate r \<and> ti_retry l = ti_retry r
     \<and> ti_remotePath l = ti_remotePath r \<and> ti_speedText l = ti_speedText r \<and> ti_stage l = ti_stage r
     \<and> ti_startedAt l = ti_startedAt r \<and> ti_status l = ti_status r"

text \<open>The item after the update, before the comparison: a detail in bytes is not replaced by \<open>100%\<close>.\<close>

definition next_item :: "transfer_item \<Rightarrow> transfer_update \<Rightarrow> transfer_item" where
  "next_item item u =
     (let next = spread_update item u
      in if up_progressDetail u = Some (Some (js ''100%''))
            \<and> (case ti_progressDetail item of None \<Rightarrow> False | Some d \<Rightarrow> sublist (js '' / '') d)
         then next\<lparr>ti_progressDetail := ti_progressDetail item\<rparr> else next)"

definition update_one :: "jsstr \<Rightarrow> transfer_update \<Rightarrow> transfer_item \<Rightarrow> transfer_item" where
  "update_one transferId u item =
     (if ti_id item \<noteq> transferId then item
      else if isTransferItemEqual item (next_item item u) then item
      else next_item item u)"

definition updateRemoteFileTransfer ::
  "jsstr \<Rightarrow> transfer_update \<Rightarrow> transfer_item list \<Rightarrow> transfer_item list" where
  "updateRemoteFileTransfer transferId u items =
     (if \<exists>item\<in>set items. ti_id item = transferId \<and> \<not> isTransferItemEqual item (next_item item u)
      then trimTransferHistory (map (update_one transferId u) items)
      else items)"

record progress_input =
  pi_detail :: "jsstr option"
  pi_indeterminate :: "bool option"
  pi_progress :: jsnum
  pi_speedText :: "jsstr option"
  pi_stage :: jsstr
  pi_status :: "transfer_status option"

definition setTransferProgress :: "jsstr \<Rightarrow> progress_input \<Rightarrow> transfer_item list \<Rightarrow> transfer_item list" where
  "setTransferProgress transferId input items =
     updateRemoteFileTransfer transferId
       (no_update\<lparr>up_progress := Some (clampTransferProgress (pi_progress input)),
          up_progressDetail := Some (pi_detail input),
          up_progressIndeterminate := Some (or_else (pi_indeterminate input) False),
          up_speedText := Some (pi_speedText input), up_stage := Some (pi_stage input),
          up_status := Some (or_else (pi_status input) StRunning)\<rparr>) items"

definition prepareTransferRetry :: "jsstr \<Rightarrow> jsstr \<Rightarrow> int \<Rightarrow> transfer_item list \<Rightarrow> transfer_item list" where
  "prepareTransferRetry transferId stage now items =
     updateRemoteFileTransfer transferId
       (no_update\<lparr>up_error := Some None, up_localPath := Some None, up_progress := Some (Num 0),
          up_progressDetail := Some None, up_progressIndeterminate := Some False,
          up_speedText := Some None, up_stage := Some stage, up_startedAt := Some now,
          up_status := Some StQueued\<rparr>) items"

definition markTransferCanceled :: "jsstr \<Rightarrow> transfer_item list \<Rightarrow> transfer_item list" where
  "markTransferCanceled transferId items =
     updateRemoteFileTransfer transferId
       (no_update\<lparr>up_progress := Some (Num 0), up_progressDetail := Some None,
          up_progressIndeterminate := Some False, up_speedText := Some None,
          up_status := Some StCanceled, up_stage := Some label_canceled\<rparr>) items"

text \<open>The unchanged state is kept when nothing is filtered out, which is the same list.\<close>

definition clearFinishedTransfers :: "transfer_item list \<Rightarrow> transfer_item list" where
  "clearFinishedTransfers items = filter (\<lambda>item. \<not> finished_status (ti_status item)) items"

definition removeRemoteFileTransfer :: "jsstr \<Rightarrow> transfer_item list \<Rightarrow> transfer_item list" where
  "removeRemoteFileTransfer transferId items = filter (\<lambda>item. ti_id item \<noteq> transferId) items"

section \<open>Progress events\<close>

record progress_event =
  pe_direction :: transfer_direction
  pe_loaded_bytes :: jsnum
  pe_total_bytes :: "jsnum option"
  pe_transfer_id :: jsstr

text \<open>What an event makes of a running item.\<close>

definition progress_item :: "(rat \<Rightarrow> jsstr) \<Rightarrow> int \<Rightarrow> progress_event \<Rightarrow> transfer_item \<Rightarrow> transfer_item" where
  "progress_item fstr now event item =
     (let hasKnownTotal = pe_total_bytes event \<noteq> None;
          totalBytes = or_else (pe_total_bytes event) (Num 0);
          progress = (if num_lt (Num 0) totalBytes then transferProgressPercent (pe_loaded_bytes event) totalBytes
                      else ti_progress item);
          full = num_le (Num 100) progress;
          displayProgress = (if pe_direction event = DirUpload \<and> full then Num 99 else progress);
          stage = (if pe_direction event = DirUpload \<and> full then label_wait_remote
                   else if ti_kind item = TransferDirectory \<and> pe_direction event = DirDownload \<and> \<not> hasKnownTotal
                     then label_compressing
                   else if pe_direction event = DirUpload then label_uploading else label_downloading);
          progressDetail = (if ti_kind item = TransferDirectory \<and> pe_direction event = DirDownload \<and> \<not> hasKnownTotal
                     then label_archive @ formatFileSize fstr (pe_loaded_bytes event)
                     else formatTransferProgressBytes fstr (pe_loaded_bytes event) totalBytes);
          nextProgress = clampTransferProgress displayProgress;
          nextSpeedText = formatTransferSpeed fstr
            (calculateTransferAverageSpeed now (pe_loaded_bytes event) (ti_startedAt item));
          nextIndeterminate = num_le totalBytes (Num 0)
      in if num_eq (ti_progress item) nextProgress \<and> ti_progressDetail item = Some progressDetail
            \<and> ti_progressIndeterminate item = nextIndeterminate \<and> ti_speedText item = nextSpeedText
            \<and> ti_stage item = stage
         then item
         else item\<lparr>ti_progress := nextProgress, ti_progressDetail := Some progressDetail,
                    ti_progressIndeterminate := nextIndeterminate, ti_speedText := nextSpeedText,
                    ti_stage := stage\<rparr>)"

definition applyRemoteTransferProgressEvents ::
  "(rat \<Rightarrow> jsstr) \<Rightarrow> int \<Rightarrow> progress_event list \<Rightarrow> transfer_item list \<Rightarrow> transfer_item list" where
  "applyRemoteTransferProgressEvents fstr now events items =
     (let eventByTransferId = map_of (rev (map (\<lambda>event. (pe_transfer_id event, event)) events))
      in map (\<lambda>item. case eventByTransferId (ti_id item) of
                None \<Rightarrow> item
              | Some event \<Rightarrow> if ti_status item \<noteq> StRunning then item else progress_item fstr now event item) items)"

text \<open>The pending events, by transfer in order of arrival, and whether the timer is armed.\<close>

record progress_buffer =
  pb_pending :: "(jsstr \<times> progress_event) list"
  pb_timer :: bool

definition queueRemoteTransferProgress :: "progress_event \<Rightarrow> progress_buffer \<Rightarrow> progress_buffer" where
  "queueRemoteTransferProgress event b =
     b\<lparr>pb_pending := AList.update (pe_transfer_id event) event (pb_pending b), pb_timer := True\<rparr>"

definition progress_timer ::
  "(rat \<Rightarrow> jsstr) \<Rightarrow> int \<Rightarrow> progress_buffer \<times> transfer_item list \<Rightarrow> progress_buffer \<times> transfer_item list" where
  "progress_timer fstr now s =
     (case s of (b, items) \<Rightarrow>
        if \<not> pb_timer b then (b, items)
        else (b\<lparr>pb_timer := False, pb_pending := []\<rparr>,
              applyRemoteTransferProgressEvents fstr now (map snd (pb_pending b)) items))"

definition clearPendingTransferProgressEvents :: "progress_buffer \<Rightarrow> progress_buffer" where
  "clearPendingTransferProgressEvents b = b\<lparr>pb_timer := False, pb_pending := []\<rparr>"

section \<open>Lemmas on trimming\<close>

abbreviation is_finished :: "transfer_item \<Rightarrow> bool" where
  "is_finished item \<equiv> finished_status (ti_status item)"

abbreviation is_error :: "transfer_item \<Rightarrow> bool" where
  "is_error item \<equiv> ti_status item = StError"

definition is_active :: "transfer_item \<Rightarrow> bool" where
  "is_active item \<longleftrightarrow> ti_status item = StQueued \<or> ti_status item = StRunning"

lemma active_iff: "is_active item \<longleftrightarrow> \<not> is_finished item \<and> \<not> is_error item"
  by (cases "ti_status item") (simp_all add: is_active_def finished_status_def)

lemma error_not_finished [simp]: "\<not> finished_status StError"
  by (simp add: finished_status_def)

lemma trim_active: "filter is_active (trim_loop f e items) = filter is_active items"
  by (induction f e items rule: trim_loop.induct) (auto simp: active_iff)

lemma trim_finished:
  "filter is_finished (trim_loop f e items) = take (maxFinishedTransferHistory - f) (filter is_finished items)"
  by (induction f e items rule: trim_loop.induct) (auto simp: take_Cons' finished_status_def)

lemma trim_error:
  "filter is_error (trim_loop f e items) = take (maxErrorTransferHistory - e) (filter is_error items)"
  by (induction f e items rule: trim_loop.induct) (auto simp: take_Cons' finished_status_def)

lemma trim_subseq: "subseq (trim_loop f e items) items"
  by (induction f e items rule: trim_loop.induct) auto

text \<open>The histories are within their bounds.\<close>

definition history_ok :: "transfer_item list \<Rightarrow> bool" where
  "history_ok items \<longleftrightarrow> length (filter is_finished items) \<le> maxFinishedTransferHistory
     \<and> length (filter is_error items) \<le> maxErrorTransferHistory"

lemma trim_loop_id:
  "length (filter is_finished items) + f \<le> maxFinishedTransferHistory \<Longrightarrow>
   length (filter is_error items) + e \<le> maxErrorTransferHistory \<Longrightarrow> trim_loop f e items = items"
  by (induction f e items rule: trim_loop.induct) (auto simp: finished_status_def)

lemma history_trim: "history_ok (trimTransferHistory items)"
  by (simp add: history_ok_def trimTransferHistory_def trim_finished trim_error)

lemma trim_id: "history_ok items \<Longrightarrow> trimTransferHistory items = items"
  by (simp add: history_ok_def trimTransferHistory_def trim_loop_id)

lemma history_filter: "history_ok items \<Longrightarrow> history_ok (filter P items)"
  unfolding history_ok_def using length_filter_filter_le order_trans by blast

lemma history_map_status:
  "(\<And>item. item \<in> set items \<Longrightarrow> ti_status (g item) = ti_status item) \<Longrightarrow>
     history_ok (map g items) = history_ok items"
  by (induction items) (auto simp: history_ok_def filter_map comp_def cong: filter_cong)

section \<open>Reachable lists\<close>

definition progress_ok :: "jsnum \<Rightarrow> bool" where
  "progress_ok p \<longleftrightarrow> (\<exists>q. p = Num q \<and> 0 \<le> q \<and> q \<le> 100)"

lemma progress_ok_clamp [simp]: "progress_ok (clampTransferProgress p)"
  unfolding progress_ok_def by (rule clamp_progress_range [of p]) blast

lemma progress_ok_0 [simp]: "progress_ok (Num 0)"
  by (simp add: progress_ok_def)

definition store_inv :: "transfer_item list \<Rightarrow> bool" where
  "store_inv items \<longleftrightarrow> distinct (map ti_id items) \<and> history_ok items \<and> (\<forall>item\<in>set items. progress_ok (ti_progress item))"

text \<open>
  What the program does to the list. Identifiers of new transfers are unused; a caller that sets
  the progress itself sets it between 0 and 100.
\<close>

inductive store_step ::
  "(rat \<Rightarrow> jsstr) \<Rightarrow> progress_buffer \<times> transfer_item list \<Rightarrow> progress_buffer \<times> transfer_item list \<Rightarrow> bool"
  for fstr where
  store_add: "newId \<notin> ti_id ` set items \<Longrightarrow> progress_ok (or_else (ai_progress input) (Num 0)) \<Longrightarrow>
     store_step fstr (b, items) (b, addRemoteFileTransfer newId now input items)"
| store_update: "progress_ok (or_else (up_progress u) (Num 0)) \<Longrightarrow>
     store_step fstr (b, items) (b, updateRemoteFileTransfer i u items)"
| store_progress: "store_step fstr (b, items) (b, setTransferProgress i input items)"
| store_retry: "store_step fstr (b, items) (b, prepareTransferRetry i stage now items)"
| store_cancel: "store_step fstr (b, items) (b, markTransferCanceled i items)"
| store_clear: "store_step fstr (b, items) (b, clearFinishedTransfers items)"
| store_remove: "store_step fstr (b, items) (b, removeRemoteFileTransfer i items)"
| store_event: "store_step fstr (b, items) (queueRemoteTransferProgress e b, items)"
| store_timer: "store_step fstr s (progress_timer fstr now s)"
| store_drop: "store_step fstr (b, items) (clearPendingTransferProgressEvents b, items)"

inductive store_reachable :: "(rat \<Rightarrow> jsstr) \<Rightarrow> progress_buffer \<times> transfer_item list \<Rightarrow> bool"
  for fstr where
  store_init: "store_reachable fstr (\<lparr>pb_pending = [], pb_timer = False\<rparr>, [])"
| store_next: "store_reachable fstr s \<Longrightarrow> store_step fstr s s' \<Longrightarrow> store_reachable fstr s'"

lemma store_inv_trim:
  assumes "distinct (map ti_id items)" "\<forall>item\<in>set items. progress_ok (ti_progress item)"
  shows "store_inv (trimTransferHistory items)"
proof -
  have s: "subseq (trimTransferHistory items) items"
    unfolding trimTransferHistory_def by (rule trim_subseq)
  have "distinct (map ti_id (trimTransferHistory items))"
    by (rule distinct_subseq [OF subseq_map [OF s]]) (rule assms(1))
  moreover note subseq_set [OF s]
  ultimately show ?thesis using assms(2) history_trim by (auto simp: store_inv_def)
qed

lemma next_item_id [simp]: "ti_id (next_item item u) = ti_id item"
  by (simp add: next_item_def spread_update_def Let_def)

lemma next_item_progress: "ti_progress (next_item item u) = or_else (up_progress u) (ti_progress item)"
  by (simp add: next_item_def spread_update_def Let_def)

lemma update_one_id [simp]: "ti_id (update_one i u item) = ti_id item"
  by (simp add: update_one_def)

lemma update_one_ids [simp]: "map (ti_id \<circ> update_one i u) items = map ti_id items"
  by simp

lemma update_one_progress:
  "progress_ok (or_else (up_progress u) (Num 0)) \<Longrightarrow> progress_ok (ti_progress item) \<Longrightarrow>
     progress_ok (ti_progress (update_one i u item))"
  by (cases "up_progress u") (simp_all add: update_one_def next_item_progress or_else_def)

lemma store_inv_update [inv_step]:
  assumes "store_inv items" "progress_ok (or_else (up_progress u) (Num 0))"
  shows "store_inv (updateRemoteFileTransfer i u items)"
proof -
  have "store_inv (trimTransferHistory (map (update_one i u) items))"
    by (rule store_inv_trim) (use assms in \<open>simp_all add: store_inv_def update_one_progress\<close>)
  with assms(1) show ?thesis by (simp add: updateRemoteFileTransfer_def)
qed

lemma store_inv_filter [inv_step]: "store_inv items \<Longrightarrow> store_inv (filter P items)"
  by (auto simp: store_inv_def history_filter distinct_map_filter)

lemma progress_item_fields [simp]:
  "ti_id (progress_item fstr now e item) = ti_id item" "ti_status (progress_item fstr now e item) = ti_status item"
  by (simp_all add: progress_item_def Let_def)

lemma progress_item_progress:
  "progress_ok (ti_progress item) \<Longrightarrow> progress_ok (ti_progress (progress_item fstr now e item))"
  by (simp add: progress_item_def Let_def)

lemma store_inv_events [inv_step]:
  assumes "store_inv items" shows "store_inv (applyRemoteTransferProgressEvents fstr now es items)"
proof -
  let ?f = "\<lambda>item. case map_of (rev (map (\<lambda>event. (pe_transfer_id event, event)) es)) (ti_id item) of
      None \<Rightarrow> item | Some event \<Rightarrow> if ti_status item \<noteq> StRunning then item else progress_item fstr now event item"
  have f: "ti_id (?f item) = ti_id item" "ti_status (?f item) = ti_status item"
    "progress_ok (ti_progress item) \<Longrightarrow> progress_ok (ti_progress (?f item))" for item
    by (simp_all add: progress_item_progress split: option.split)
  have "map ti_id (map ?f items) = map ti_id items" using f(1) by (simp only: map_map comp_def)
  moreover have "history_ok (map ?f items) = history_ok items" by (rule history_map_status) (rule f(2))
  moreover have "\<forall>item\<in>set (map ?f items). progress_ok (ti_progress item)"
    using assms f(3) by (simp only: store_inv_def list.set_map ball_simps) blast
  ultimately show ?thesis using assms by (simp only: store_inv_def applyRemoteTransferProgressEvents_def Let_def)
qed

lemma store_inv_add [inv_step]:
  assumes "store_inv items" "newId \<notin> ti_id ` set items" "progress_ok (or_else (ai_progress input) (Num 0))"
  shows "store_inv (addRemoteFileTransfer newId now input items)"
  unfolding addRemoteFileTransfer_def
  by (rule store_inv_trim) (use assms in \<open>auto simp: store_inv_def\<close>)

lemma store_step_inv: "store_step fstr s s' \<Longrightarrow> store_inv (snd s) \<Longrightarrow> store_inv (snd s')"
proof (induction rule: store_step.induct)
  case (store_timer s now)
  then show ?case by (cases s) (simp add: progress_timer_def inv_step)
qed (auto intro!: inv_step simp: setTransferProgress_def prepareTransferRetry_def markTransferCanceled_def
    clearFinishedTransfers_def removeRemoteFileTransfer_def no_update_def or_else_def)

lemma store_reachable_inv: "store_reachable fstr s \<Longrightarrow> store_inv (snd s)"
  by (induction rule: store_reachable.induct)
    (simp add: store_inv_def history_ok_def, blast intro: store_step_inv)

section \<open>Properties\<close>

text \<open>C29. Trimming the history never drops a transfer that waits or runs, keeps the hundred most
  recent finished ones and the hundred most recent failed ones, keeps the order, and changes
  nothing the second time.\<close>

theorem trim_keeps_active:
  "filter is_active (trimTransferHistory items) = filter is_active items
    \<and> filter is_finished (trimTransferHistory items) = take 100 (filter is_finished items)
    \<and> filter is_error (trimTransferHistory items) = take 100 (filter is_error items)
    \<and> subseq (trimTransferHistory items) items
    \<and> trimTransferHistory (trimTransferHistory items) = trimTransferHistory items"
  using trim_id [OF history_trim] trim_finished [of 0 0 items] trim_error [of 0 0 items]
  by (simp add: trimTransferHistory_def trim_active trim_subseq maxFinishedTransferHistory_def
      maxErrorTransferHistory_def)

text \<open>C36. In every list the program can reach identifiers are unique, at most a hundred finished and a
  hundred failed transfers are kept, and every progress is a number between 0 and 100.\<close>

theorem transfer_list_safe:
  assumes "store_reachable fstr (b, items)"
  shows "distinct (map ti_id items)
    \<and> length (filter is_finished items) \<le> 100 \<and> length (filter is_error items) \<le> 100
    \<and> (\<forall>item\<in>set items. \<exists>q. ti_progress item = Num q \<and> 0 \<le> q \<and> q \<le> 100)"
  using store_reachable_inv [OF assms]
  by (simp add: store_inv_def history_ok_def progress_ok_def maxFinishedTransferHistory_def
      maxErrorTransferHistory_def)

definition sample_input :: add_transfer_input where
  "sample_input = \<lparr>ai_direction = DirUpload, ai_kind = TransferFile, ai_name = js ''f'', ai_progress = None,
     ai_progressDetail = None, ai_progressIndeterminate = None, ai_remotePath = js ''/f'', ai_retry = None,
     ai_speedText = None, ai_stage = []\<rparr>"

theorem transfer_list_safe_witness:
  "distinct (map ti_id (addRemoteFileTransfer (js ''t'') 0 sample_input []))"
proof -
  have "store_reachable dec (\<lparr>pb_pending = [], pb_timer = False\<rparr>, addRemoteFileTransfer (js ''t'') 0 sample_input [])"
    for dec
    by (rule store_next [OF store_init store_add]) (simp_all add: sample_input_def or_else_def)
  from transfer_list_safe [OF this] show ?thesis by blast
qed

text \<open>Progress events touch only transfers that run, and of those only the progress, its text, the
  speed and the stage; a number already at or past the total shows an upload at 99 until the task
  itself reports success; and a cancelled or finished transfer is never revived.\<close>

theorem progress_events_confined:
  "length (applyRemoteTransferProgressEvents fstr now es items) = length items
    \<and> (\<forall>k<length items.
         let old = items ! k; new = applyRemoteTransferProgressEvents fstr now es items ! k
         in ti_id new = ti_id old \<and> ti_status new = ti_status old \<and> ti_error new = ti_error old
            \<and> ti_retry new = ti_retry old \<and> ti_remotePath new = ti_remotePath old
            \<and> (ti_status old \<noteq> StRunning \<longrightarrow> new = old)
            \<and> (new \<noteq> old \<longrightarrow> progress_ok (ti_progress new)
                  \<and> (\<exists>e\<in>set es. pe_transfer_id e = ti_id old
                       \<and> (pe_direction e = DirUpload \<longrightarrow> num_lt (ti_progress new) (Num 100)))))"
proof -
  have up: "num_lt (ti_progress (progress_item fstr now e item)) (Num 100)"
    if "pe_direction e = DirUpload" "progress_item fstr now e item \<noteq> item" for e item
  proof -
    have below: "num_lt (clampTransferProgress p) (Num 100)" if "\<not> num_le (Num 100) p" for p
      using that by (cases p) (auto simp: clampTransferProgress_def is_finite_num_def num_le_def num_max_def num_min_def)
    have "num_lt (clampTransferProgress (Num 99)) (Num 100)"
      by (simp add: clampTransferProgress_def is_finite_num_def num_max_def num_min_def)
    with that below show ?thesis by (auto simp: progress_item_def Let_def split: if_splits)
  qed
  have ev: "e \<in> set es \<and> pe_transfer_id e = x"
    if "map_of (rev (map (\<lambda>event. (pe_transfer_id event, event)) es)) x = Some e" for e x
    using map_of_SomeD [OF that] by auto
  have fields: "ti_error (progress_item fstr now e item) = ti_error item"
    "ti_retry (progress_item fstr now e item) = ti_retry item"
    "ti_remotePath (progress_item fstr now e item) = ti_remotePath item"
    "progress_item fstr now e item \<noteq> item \<longrightarrow> progress_ok (ti_progress (progress_item fstr now e item))" for e item
    by (simp_all add: progress_item_def Let_def)
  let ?m = "map_of (rev (map (\<lambda>event. (pe_transfer_id event, event)) es))"
  let ?f = "\<lambda>item. case ?m (ti_id item) of None \<Rightarrow> item
      | Some event \<Rightarrow> if ti_status item \<noteq> StRunning then item else progress_item fstr now event item"
  have one: "ti_id (?f old) = ti_id old \<and> ti_status (?f old) = ti_status old \<and> ti_error (?f old) = ti_error old
      \<and> ti_retry (?f old) = ti_retry old \<and> ti_remotePath (?f old) = ti_remotePath old
      \<and> (ti_status old \<noteq> StRunning \<longrightarrow> ?f old = old)
      \<and> (?f old \<noteq> old \<longrightarrow> progress_ok (ti_progress (?f old))
            \<and> (\<exists>e\<in>set es. pe_transfer_id e = ti_id old
                 \<and> (pe_direction e = DirUpload \<longrightarrow> num_lt (ti_progress (?f old)) (Num 100))))" for old
  proof (cases "?m (ti_id old)")
    case (Some e)
    from ev [OF Some] up [of e old] fields [of e old] show ?thesis
      by (cases "ti_status old = StRunning"; cases "progress_item fstr now e old = old") (auto simp: Some)
  qed simp
  have "applyRemoteTransferProgressEvents fstr now es items = map ?f items"
    by (simp add: applyRemoteTransferProgressEvents_def)
  then show ?thesis
    using one by (simp add: Let_def)
qed

definition running_item :: transfer_item where
  "running_item = \<lparr>ti_id = js ''t'', ti_createdAt = 0, ti_direction = DirUpload, ti_error = None,
     ti_kind = TransferFile, ti_localPath = None, ti_name = js ''f'', ti_progress = Num 0,
     ti_progressDetail = None, ti_progressIndeterminate = False, ti_retry = None, ti_remotePath = js ''/f'',
     ti_speedText = None, ti_stage = [], ti_startedAt = 0, ti_status = StRunning\<rparr>"

theorem progress_events_confined_witness:
  "let e = \<lparr>pe_direction = DirUpload, pe_loaded_bytes = Num 5, pe_total_bytes = Some (Num 10), pe_transfer_id = js ''t''\<rparr>;
       new = applyRemoteTransferProgressEvents (\<lambda>_. []) 0 [e] [running_item] ! 0
   in ti_status new = StRunning \<and> ti_id new = js ''t''"
proof -
  define e where "e = \<lparr>pe_direction = DirUpload, pe_loaded_bytes = Num 5, pe_total_bytes = Some (Num 10),
    pe_transfer_id = js ''t''\<rparr>"
  have "ti_status (applyRemoteTransferProgressEvents (\<lambda>_. []) 0 [e] [running_item] ! 0) = ti_status running_item
    \<and> ti_id (applyRemoteTransferProgressEvents (\<lambda>_. []) 0 [e] [running_item] ! 0) = ti_id running_item"
    using progress_events_confined [of "\<lambda>_. []" 0 "[e]" "[running_item]"] unfolding Let_def by fastforce
  then show ?thesis unfolding Let_def e_def [symmetric] by (simp add: running_item_def)
qed

end
