(* ===== verification/Transfer_Queue.thy ===== *)
theory Transfer_Queue
  imports Transfer_Store
begin

text \<open>
  The transfer controller, \<open>src/features/files/useRemoteFileTransferController.ts\<close>: transfers wait
  in a queue and at most a configured number runs at once. Tasks are named by numbers. A task is a
  promise: it settles later, which is the event \<open>task_settled\<close>; what it does to the transfer list
  while it runs, and what the error callback does, are store updates between the events. The
  cancellation command sent to the backend and the subscription to its events are not modelled.
\<close>

section \<open>State and operations\<close>

record transfer_ctl =
  tc_concurrency :: int
  tc_queue :: "jsstr list"
  tc_running :: "jsstr list"
  tc_tasks :: "(jsstr \<times> nat) list"
  tc_items :: "transfer_item list"

definition set_add :: "'a \<Rightarrow> 'a list \<Rightarrow> 'a list" where
  "set_add x xs = (if x \<in> set xs then xs else xs @ [x])"

definition mark_running :: "int \<Rightarrow> jsstr \<Rightarrow> transfer_item list \<Rightarrow> transfer_item list" where
  "mark_running now transferId items =
     updateRemoteFileTransfer transferId
       (no_update\<lparr>up_startedAt := Some now, up_status := Some StRunning\<rparr>) items"

text \<open>
  One turn of the loop of \<open>drainTransferQueue\<close>: the task to call for the identifier taken from the
  queue, or \<open>None\<close> for its \<open>continue\<close>, which forgets the task unless the identifier is empty.
\<close>

definition task_to_start :: "transfer_ctl \<Rightarrow> jsstr \<Rightarrow> nat option" where
  "task_to_start s x =
     (if x = [] then None
      else
        (case map_of (tc_tasks s) x of
           None \<Rightarrow> None
         | Some task \<Rightarrow>
             (case getRemoteFileTransfer (tc_items s) x of
                Some item \<Rightarrow> if ti_status item \<noteq> StQueued then None else Some task
              | None \<Rightarrow> Some task)))"

definition skip_transfer :: "jsstr \<Rightarrow> transfer_ctl \<Rightarrow> transfer_ctl" where
  "skip_transfer x s = (if x = [] then s else s\<lparr>tc_tasks := AList.delete x (tc_tasks s)\<rparr>)"

definition start_transfer :: "int \<Rightarrow> jsstr \<Rightarrow> transfer_ctl \<Rightarrow> transfer_ctl" where
  "start_transfer now x s =
     s\<lparr>tc_running := set_add x (tc_running s), tc_items := mark_running now x (tc_items s)\<rparr>"

text \<open>The loop on the queue; the tasks it calls are returned in order.\<close>

fun drain_from :: "int \<Rightarrow> jsstr list \<Rightarrow> transfer_ctl \<Rightarrow> (jsstr \<times> nat) list \<times> transfer_ctl" where
  "drain_from now [] s = ([], s\<lparr>tc_queue := []\<rparr>)"
| "drain_from now (x # xs) s =
     (if \<not> int (length (tc_running s)) < tc_concurrency s then ([], s\<lparr>tc_queue := x # xs\<rparr>)
      else
        (case task_to_start s x of
           None \<Rightarrow> drain_from now xs (skip_transfer x s)
         | Some task \<Rightarrow>
             (let rest = drain_from now xs (start_transfer now x s)
              in ((x, task) # fst rest, snd rest))))"

definition drainTransferQueue :: "int \<Rightarrow> transfer_ctl \<Rightarrow> (jsstr \<times> nat) list \<times> transfer_ctl" where
  "drainTransferQueue now s = drain_from now (tc_queue s) s"

definition set_concurrency :: "int \<Rightarrow> int \<Rightarrow> transfer_ctl \<Rightarrow> (jsstr \<times> nat) list \<times> transfer_ctl" where
  "set_concurrency now n s = drainTransferQueue now (s\<lparr>tc_concurrency := n\<rparr>)"

definition dropQueuedTransfer :: "jsstr \<Rightarrow> transfer_ctl \<Rightarrow> transfer_ctl" where
  "dropQueuedTransfer x s =
     s\<lparr>tc_queue := filter (\<lambda>i. i \<noteq> x) (tc_queue s), tc_tasks := AList.delete x (tc_tasks s)\<rparr>"

definition enqueueRemoteFileTransfer ::
  "int \<Rightarrow> jsstr \<Rightarrow> nat \<Rightarrow> transfer_ctl \<Rightarrow> (jsstr \<times> nat) list \<times> transfer_ctl" where
  "enqueueRemoteFileTransfer now x task s =
     (let s1 = s\<lparr>tc_tasks := AList.update x task (tc_tasks s)\<rparr>;
          s2 = (if x \<notin> set (tc_queue s1) \<and> x \<notin> set (tc_running s1)
                then s1\<lparr>tc_queue := tc_queue s1 @ [x]\<rparr> else s1)
      in drainTransferQueue now s2)"

text \<open>The \<open>finally\<close> of a task.\<close>

definition task_settled :: "int \<Rightarrow> jsstr \<Rightarrow> transfer_ctl \<Rightarrow> (jsstr \<times> nat) list \<times> transfer_ctl" where
  "task_settled now x s =
     drainTransferQueue now
       (s\<lparr>tc_running := removeAll x (tc_running s), tc_tasks := AList.delete x (tc_tasks s)\<rparr>)"

definition cancelQueuedTransfer :: "jsstr \<Rightarrow> transfer_ctl \<Rightarrow> transfer_ctl" where
  "cancelQueuedTransfer x s =
     (let s1 = dropQueuedTransfer x s
      in s1\<lparr>tc_items := updateRemoteFileTransfer x
              (no_update\<lparr>up_error := Some None, up_progress := Some (Num 0), up_progressDetail := Some None,
                 up_progressIndeterminate := Some False, up_speedText := Some None,
                 up_stage := Some label_canceled, up_status := Some StCanceled\<rparr>) (tc_items s1)\<rparr>)"

definition requestCancelTransfer :: "jsstr \<Rightarrow> transfer_ctl \<Rightarrow> transfer_ctl" where
  "requestCancelTransfer x s =
     (case getRemoteFileTransfer (tc_items s) x of
        None \<Rightarrow> cancelQueuedTransfer x s
      | Some item \<Rightarrow>
          if ti_status item = StQueued then cancelQueuedTransfer x s
          else if ti_status item \<noteq> StRunning then s
          else s\<lparr>tc_items := markTransferCanceled x (tc_items s)\<rparr>)"

definition removeTransfer :: "jsstr \<Rightarrow> transfer_ctl \<Rightarrow> transfer_ctl" where
  "removeTransfer x s =
     (let s1 = dropQueuedTransfer x s in s1\<lparr>tc_items := removeRemoteFileTransfer x (tc_items s1)\<rparr>)"

definition isTransferNoLongerActive :: "jsstr \<Rightarrow> transfer_ctl \<Rightarrow> bool" where
  "isTransferNoLongerActive x s =
     (case getRemoteFileTransfer (tc_items s) x of
        None \<Rightarrow> False | Some item \<Rightarrow> ti_status item = StCanceled \<or> ti_status item = StError)"

section \<open>Active items survive updates of others\<close>

lemma get_iff:
  "distinct (map ti_id items) \<Longrightarrow> getRemoteFileTransfer items x = Some item \<longleftrightarrow> item \<in> set items \<and> ti_id item = x"
  unfolding getRemoteFileTransfer_def
proof (induction items)
  case (Cons i items)
  then show ?case by (auto simp: image_iff)
qed simp

lemma distinct_trim: "distinct (map ti_id items) \<Longrightarrow> distinct (map ti_id (trimTransferHistory items))"
  unfolding trimTransferHistory_def by (rule distinct_subseq [OF subseq_map [OF trim_subseq]])

lemma get_trim:
  assumes "distinct (map ti_id items)" "getRemoteFileTransfer items x = Some item" "is_active item"
  shows "getRemoteFileTransfer (trimTransferHistory items) x = Some item"
proof -
  have "item \<in> set (filter is_active items)" using assms by (simp add: get_iff)
  then have "item \<in> set (filter is_active (trimTransferHistory items))"
    unfolding trimTransferHistory_def trim_active .
  with assms show ?thesis by (simp add: get_iff distinct_trim)
qed

lemma distinct_update:
  "distinct (map ti_id items) \<Longrightarrow> distinct (map ti_id (updateRemoteFileTransfer i u items))"
  by (simp add: updateRemoteFileTransfer_def distinct_trim)

lemma get_update_other:
  assumes "distinct (map ti_id items)" "getRemoteFileTransfer items x = Some item" "is_active item" "i \<noteq> x"
  shows "getRemoteFileTransfer (updateRemoteFileTransfer i u items) x = Some item"
proof -
  have "item = update_one i u item" using assms by (auto simp: get_iff update_one_def)
  then have "item \<in> set (map (update_one i u) items)" using assms by (auto simp: get_iff)
  then have "getRemoteFileTransfer (map (update_one i u) items) x = Some item"
    using assms by (subst get_iff) (simp_all add: get_iff)
  then have "getRemoteFileTransfer (trimTransferHistory (map (update_one i u) items)) x = Some item"
    using assms(1,3) by (intro get_trim) simp_all
  with assms show ?thesis by (simp add: updateRemoteFileTransfer_def)
qed

section \<open>Draining\<close>

text \<open>A queued identifier whose transfer waits to be started.\<close>

definition startable :: "transfer_ctl \<Rightarrow> jsstr \<Rightarrow> bool" where
  "startable s x \<longleftrightarrow> x \<noteq> [] \<and> map_of (tc_tasks s) x \<noteq> None
     \<and> (\<exists>item. getRemoteFileTransfer (tc_items s) x = Some item \<and> ti_status item = StQueued)"

lemma skip_fields [simp]:
  "tc_running (skip_transfer x s) = tc_running s" "tc_concurrency (skip_transfer x s) = tc_concurrency s"
  "tc_items (skip_transfer x s) = tc_items s"
  by (simp_all add: skip_transfer_def)

lemma start_fields [simp]:
  "x \<notin> set (tc_running s) \<Longrightarrow> tc_running (start_transfer now x s) = tc_running s @ [x]"
  "tc_concurrency (start_transfer now x s) = tc_concurrency s" "tc_tasks (start_transfer now x s) = tc_tasks s"
  by (simp_all add: start_transfer_def set_add_def)

lemma drain_basic:
  fixes now :: int and s :: transfer_ctl
  assumes "distinct (xs @ tc_running s)"
  defines "r \<equiv> drain_from now xs s"
  shows "suffix (tc_queue (snd r)) xs" "tc_running (snd r) = tc_running s @ map fst (fst r)"
    "subseq (map fst (fst r) @ tc_queue (snd r)) xs" "tc_concurrency (snd r) = tc_concurrency s"
    "tc_queue (snd r) \<noteq> [] \<Longrightarrow> tc_concurrency s \<le> int (length (tc_running (snd r)))"
    "int (length (tc_running (snd r))) \<le> max (int (length (tc_running s))) (tc_concurrency s)"
proof -
  have "suffix (tc_queue (snd r)) xs \<and> tc_running (snd r) = tc_running s @ map fst (fst r)
    \<and> subseq (map fst (fst r) @ tc_queue (snd r)) xs \<and> tc_concurrency (snd r) = tc_concurrency s
    \<and> (tc_queue (snd r) \<noteq> [] \<longrightarrow> tc_concurrency s \<le> int (length (tc_running (snd r))))
    \<and> int (length (tc_running (snd r))) \<le> max (int (length (tc_running s))) (tc_concurrency s)"
    using assms(1) unfolding r_def
  proof (induction now xs s rule: drain_from.induct)
    case (2 now x xs s)
    then have x: "x \<notin> set (tc_running s)" "x \<notin> set xs" by auto
    show ?case
    proof (cases "int (length (tc_running s)) < tc_concurrency s")
      case True
      then show ?thesis
      proof (cases "task_to_start s x")
        case None
        with "2.IH"(1) "2.prems" True show ?thesis by (auto intro: suffix_ConsI)
      next
        case (Some task)
        with "2.IH"(2) "2.prems" True x show ?thesis by (auto simp: Let_def intro: suffix_ConsI)
      qed
    qed (use "2.prems" in simp)
  qed simp
  then show "suffix (tc_queue (snd r)) xs" "tc_running (snd r) = tc_running s @ map fst (fst r)"
    "subseq (map fst (fst r) @ tc_queue (snd r)) xs" "tc_concurrency (snd r) = tc_concurrency s"
    "tc_queue (snd r) \<noteq> [] \<Longrightarrow> tc_concurrency s \<le> int (length (tc_running (snd r)))"
    "int (length (tc_running (snd r))) \<le> max (int (length (tc_running s))) (tc_concurrency s)"
    by blast+
qed

text \<open>A started task is the one stored for its identifier; what stays queued keeps its task.\<close>

lemma skip_tasks_other: "y \<noteq> x \<Longrightarrow> map_of (tc_tasks (skip_transfer x s)) y = map_of (tc_tasks s) y"
  by (simp add: skip_transfer_def delete_conv')

lemma task_to_start_task: "task_to_start s x = Some t \<Longrightarrow> map_of (tc_tasks s) x = Some t"
  by (auto simp: task_to_start_def split: if_splits option.splits)

lemma drain_sets: "set (tc_queue (snd (drain_from now xs s))) \<union> fst ` set (fst (drain_from now xs s)) \<subseteq> set xs"
proof (induction now xs s rule: drain_from.induct)
  case (2 now x xs s)
  then show ?case
    by (cases "int (length (tc_running s)) < tc_concurrency s"; cases "task_to_start s x")
      (simp_all add: Let_def, blast+)
qed simp

lemma drain_tasks_other: "y \<notin> set xs \<Longrightarrow> map_of (tc_tasks (snd (drain_from now xs s))) y = map_of (tc_tasks s) y"
  by (induction now xs s rule: drain_from.induct) (simp_all add: Let_def skip_tasks_other split: option.split)

lemma drain_tasks_kept:
  "distinct xs \<Longrightarrow> y \<in> set (tc_queue (snd (drain_from now xs s))) \<or> y \<in> fst ` set (fst (drain_from now xs s)) \<Longrightarrow>
     map_of (tc_tasks (snd (drain_from now xs s))) y = map_of (tc_tasks s) y"
proof (induction now xs s rule: drain_from.induct)
  case (2 now x xs s)
  show ?case
  proof (cases "int (length (tc_running s)) < tc_concurrency s")
    case room: True
    show ?thesis
    proof (cases "task_to_start s x")
      case None
      then have "y \<in> set xs"
        using "2.prems"(2) room drain_sets [of now xs "skip_transfer x s"] by auto
      with "2.prems"(1) have "y \<noteq> x" by auto
      with "2.IH"(1) [of] None room "2.prems" show ?thesis by (simp add: skip_tasks_other)
    next
      case (Some task)
      show ?thesis
      proof (cases "y = x")
        case True
        with Some room "2.prems"(1) show ?thesis by (simp add: Let_def drain_tasks_other)
      next
        case False
        with "2.IH"(2) Some room "2.prems" show ?thesis by (simp add: Let_def)
      qed
    qed
  qed simp
qed simp

lemma drain_started_task:
  "distinct xs \<Longrightarrow> (x, t) \<in> set (fst (drain_from now xs s)) \<Longrightarrow> map_of (tc_tasks s) x = Some t"
proof (induction now xs s rule: drain_from.induct)
  case (2 now y xs s)
  have "x \<noteq> y" if "(x, t) \<in> set (fst (drain_from now xs s'))" for s'
    using that drain_sets [of now xs s'] "2.prems"(1) by force
  with 2 show ?case
    by (cases "int (length (tc_running s)) < tc_concurrency s"; cases "task_to_start s y")
      (auto simp: Let_def skip_tasks_other task_to_start_task)
qed simp

lemma drain_tasks_distinct:
  "distinct (map fst (tc_tasks s)) \<Longrightarrow> distinct (map fst (tc_tasks (snd (drain_from now xs s))))"
  by (induction now xs s rule: drain_from.induct)
    (simp_all add: Let_def skip_transfer_def distinct_delete split: option.split)

text \<open>A startable transfer is not skipped: it is started, or it stays queued.\<close>

lemma startable_start:
  assumes "startable s y" "y \<noteq> x" "distinct (map ti_id (tc_items s))"
  shows "startable (start_transfer now x s) y"
  using assms get_update_other [OF assms(3), of y _ x]
  by (auto simp: startable_def start_transfer_def mark_running_def is_active_def)

lemma startable_skip: "startable s y \<Longrightarrow> y \<noteq> x \<Longrightarrow> startable (skip_transfer x s) y"
  by (simp add: startable_def skip_tasks_other)

lemma drain_keeps_startable:
  "distinct xs \<Longrightarrow> distinct (map ti_id (tc_items s)) \<Longrightarrow> startable s y \<Longrightarrow> y \<in> set xs \<Longrightarrow>
     y \<in> fst ` set (fst (drain_from now xs s)) \<or> y \<in> set (tc_queue (snd (drain_from now xs s)))"
proof (induction now xs s rule: drain_from.induct)
  case (2 now x xs s)
  show ?case
  proof (cases "int (length (tc_running s)) < tc_concurrency s")
    case room: True
    have st: "task_to_start s y \<noteq> None" using "2.prems"(3) by (auto simp: startable_def task_to_start_def)
    show ?thesis
    proof (cases "task_to_start s x")
      case None
      then have "y \<noteq> x" using st by auto
      with 2 None room show ?thesis by (simp add: startable_skip)
    next
      case (Some task)
      show ?thesis
      proof (cases "y = x")
        case False
        with 2 Some room show ?thesis
          by (simp add: Let_def startable_start) (simp add: start_transfer_def mark_running_def distinct_update)
      qed (use Some room in \<open>simp add: Let_def\<close>)
    qed
  qed (use "2.prems" in simp)
qed simp

lemma drain_items_distinct:
  "distinct (map ti_id (tc_items s)) \<Longrightarrow> distinct (map ti_id (tc_items (snd (drain_from now xs s))))"
  by (induction now xs s rule: drain_from.induct)
    (simp_all add: Let_def start_transfer_def mark_running_def distinct_update split: option.split)

text \<open>The entry of a waiting transfer stays as it is until the transfer is started.\<close>

lemma drain_item_kept:
  "distinct (map ti_id (tc_items s)) \<Longrightarrow> getRemoteFileTransfer (tc_items s) y = Some item \<Longrightarrow> is_active item \<Longrightarrow>
     y \<notin> fst ` set (fst (drain_from now xs s)) \<Longrightarrow> getRemoteFileTransfer (tc_items (snd (drain_from now xs s))) y = Some item"
proof (induction now xs s rule: drain_from.induct)
  case (2 now x xs s)
  show ?case
  proof (cases "int (length (tc_running s)) < tc_concurrency s")
    case room: True
    show ?thesis
    proof (cases "task_to_start s x")
      case None
      then show ?thesis using 2 room by simp
    next
      case (Some task)
      then have "y \<noteq> x" using "2.prems"(4) room by (auto simp: Let_def)
      then have "getRemoteFileTransfer (tc_items (start_transfer now x s)) y = Some item"
        using "2.prems"(1-3) get_update_other by (simp add: start_transfer_def mark_running_def)
      moreover have "distinct (map ti_id (tc_items (start_transfer now x s)))"
        using "2.prems"(1) by (simp add: start_transfer_def mark_running_def distinct_update)
      ultimately show ?thesis using "2.IH"(2) [OF _ Some] "2.prems"(3,4) room Some by (simp add: Let_def)
    qed
  qed (use "2.prems" in simp)
qed simp

text \<open>A transfer that waits, with its task and its entry in the list; after a step it is started with that task or waits on.\<close>

definition waits :: "transfer_ctl \<Rightarrow> jsstr \<Rightarrow> nat \<Rightarrow> transfer_item \<Rightarrow> bool" where
  "waits s x task item \<longleftrightarrow> x \<in> set (tc_queue s) \<and> map_of (tc_tasks s) x = Some task
     \<and> getRemoteFileTransfer (tc_items s) x = Some item \<and> ti_status item = StQueued"

definition started_or_waits :: "jsstr \<Rightarrow> nat \<Rightarrow> transfer_item \<Rightarrow> (jsstr \<times> nat) list \<times> transfer_ctl \<Rightarrow> bool" where
  "started_or_waits x task item r \<longleftrightarrow> (x, task) \<in> set (fst r) \<or> waits (snd r) x task item"

text \<open>The changes of the list that are not about the transfer: updates and removals of others, a new entry, clearing what is
  finished, and progress reports, which only touch what runs.\<close>

inductive other_change :: "jsstr \<Rightarrow> transfer_item list \<Rightarrow> transfer_item list \<Rightarrow> bool" for x items where
  other_update: "y \<noteq> x \<Longrightarrow> other_change x items (updateRemoteFileTransfer y u items)"
| other_add: "newId \<notin> ti_id ` set items \<Longrightarrow> other_change x items (addRemoteFileTransfer newId now input items)"
| other_remove: "y \<noteq> x \<Longrightarrow> other_change x items (removeRemoteFileTransfer y items)"
| other_clear: "other_change x items (clearFinishedTransfers items)"
| other_progress: "other_change x items (applyRemoteTransferProgressEvents fstr now events items)"

lemma get_filter:
  "getRemoteFileTransfer items x = Some item \<Longrightarrow> P item \<Longrightarrow> distinct (map ti_id items) \<Longrightarrow>
   getRemoteFileTransfer (filter P items) x = Some item"
  by (simp add: get_iff distinct_map_filter)

lemma get_other:
  assumes "other_change x items items'" "distinct (map ti_id items)" "getRemoteFileTransfer items x = Some item" "ti_status item = StQueued"
  shows "getRemoteFileTransfer items' x = Some item"
  using assms(1)
proof cases
  case (other_update y u)
  then show ?thesis using get_update_other [OF assms(2,3)] assms(4) by (simp add: is_active_def)
next
  case (other_add newId now input)
  then have "newId \<noteq> x" using assms(2,3) by (auto simp: get_iff)
  then show ?thesis unfolding other_add(1) addRemoteFileTransfer_def
    using assms(2-4) other_add(2) by (intro get_trim) (auto simp: is_active_def getRemoteFileTransfer_def)
next
  case (other_remove y)
  then show ?thesis using assms(2,3) unfolding other_remove(1) removeRemoteFileTransfer_def
    by (intro get_filter) (auto simp: get_iff)
next
  case other_clear
  then show ?thesis using assms(2-4) unfolding other_clear clearFinishedTransfers_def
    by (intro get_filter) (auto simp: finished_status_def)
next
  case (other_progress fstr now events)
  let ?f = "\<lambda>item. case map_of (rev (map (\<lambda>event. (pe_transfer_id event, event)) events)) (ti_id item) of
      None \<Rightarrow> item | Some event \<Rightarrow> if ti_status item \<noteq> StRunning then item else progress_item fstr now event item"
  have ids: "ti_id (?f i) = ti_id i" for i by (simp add: progress_item_progress split: option.split)
  then have "distinct (map ti_id (map ?f items))" using assms(2) by (simp only: map_map comp_def)
  moreover have "?f item = item" using assms(4) by (simp split: option.split)
  ultimately show ?thesis
    using assms(2,3) ids unfolding other_progress applyRemoteTransferProgressEvents_def Let_def
    by (simp only: get_iff) (metis (no_types, lifting) imageI list.set_map)
qed

section \<open>The invariant of the controller\<close>

text \<open>
  No transfer is queued twice or queued while it runs, every queued transfer has its task, and
  transfers wait only while as many run as are allowed.
\<close>

definition ctl_data :: "transfer_ctl \<Rightarrow> bool" where
  "ctl_data s \<longleftrightarrow> distinct (tc_queue s @ tc_running s) \<and> [] \<notin> set (tc_queue s)
     \<and> set (tc_queue s) \<subseteq> dom (map_of (tc_tasks s)) \<and> distinct (map ti_id (tc_items s))"

definition ctl_inv :: "transfer_ctl \<Rightarrow> bool" where
  "ctl_inv s \<longleftrightarrow> ctl_data s \<and> (tc_queue s \<noteq> [] \<longrightarrow> tc_concurrency s \<le> int (length (tc_running s)))"

inductive ctl_step :: "transfer_ctl \<Rightarrow> (jsstr \<times> nat) list \<Rightarrow> transfer_ctl \<Rightarrow> bool" where
  ctl_enqueue: "x \<noteq> [] \<Longrightarrow> enqueueRemoteFileTransfer now x task s = (st, s') \<Longrightarrow> ctl_step s st s'"
| ctl_settle: "x \<in> set (tc_running s) \<Longrightarrow> task_settled now x s = (st, s') \<Longrightarrow> ctl_step s st s'"
| ctl_concurrency: "set_concurrency now n s = (st, s') \<Longrightarrow> ctl_step s st s'"
| ctl_cancel: "ctl_step s [] (requestCancelTransfer x s)"
| ctl_remove: "ctl_step s [] (removeTransfer x s)"
| ctl_store: "distinct (map ti_id items) \<Longrightarrow> ctl_step s [] (s\<lparr>tc_items := items\<rparr>)"

definition new_ctl :: "int \<Rightarrow> transfer_item list \<Rightarrow> transfer_ctl" where
  "new_ctl n items = \<lparr>tc_concurrency = n, tc_queue = [], tc_running = [], tc_tasks = [], tc_items = items\<rparr>"

inductive ctl_reachable :: "transfer_ctl \<Rightarrow> bool" where
  ctl_init: "distinct (map ti_id items) \<Longrightarrow> ctl_reachable (new_ctl n items)"
| ctl_next: "ctl_reachable s \<Longrightarrow> ctl_step s st s' \<Longrightarrow> ctl_reachable s'"

lemma inv_drain:
  assumes "ctl_data s" shows "ctl_inv (snd (drainTransferQueue now s))"
proof -
  let ?r = "drain_from now (tc_queue s) s"
  have d: "distinct (tc_queue s @ tc_running s)" "distinct (tc_queue s)" "distinct (map ti_id (tc_items s))"
    "[] \<notin> set (tc_queue s)" "set (tc_queue s) \<subseteq> dom (map_of (tc_tasks s))"
    using assms by (auto simp: ctl_data_def)
  note b = drain_basic [OF d(1), of now]
  have sub: "set (map fst (fst ?r) @ tc_queue (snd ?r)) \<subseteq> set (tc_queue s)" by (rule subseq_set) (rule b(3))
  have dis: "distinct (map fst (fst ?r) @ tc_queue (snd ?r))" by (rule distinct_subseq [OF b(3) d(2)])
  have "distinct (tc_queue (snd ?r) @ tc_running (snd ?r))"
    using d(1) sub dis unfolding b(2) by (simp add: distinct_append) blast
  moreover have "set (tc_queue (snd ?r)) \<subseteq> dom (map_of (tc_tasks (snd ?r)))"
  proof
    fix y assume y: "y \<in> set (tc_queue (snd ?r))"
    then have "map_of (tc_tasks (snd ?r)) y = map_of (tc_tasks s) y"
      by (intro drain_tasks_kept d(2)) simp
    moreover have "y \<in> dom (map_of (tc_tasks s))" using y sub d(5) by auto
    ultimately show "y \<in> dom (map_of (tc_tasks (snd ?r)))" by (simp add: dom_def)
  qed
  moreover have "distinct (map ti_id (tc_items (snd ?r)))" by (rule drain_items_distinct) (rule d(3))
  moreover have "[] \<notin> set (tc_queue (snd ?r))" using sub d(4) by auto
  ultimately show ?thesis
    using b(4,5) by (simp add: ctl_inv_def ctl_data_def drainTransferQueue_def)
qed

lemma data_enqueue:
  assumes "ctl_data s" "x \<noteq> []"
  shows "ctl_inv (snd (enqueueRemoteFileTransfer now x task s))"
  unfolding enqueueRemoteFileTransfer_def Let_def
  by (rule inv_drain) (use assms in \<open>auto simp: ctl_data_def update_conv'\<close>)

lemma data_settled:
  assumes "ctl_data s" "x \<in> set (tc_running s)"
  shows "ctl_inv (snd (task_settled now x s))"
proof -
  have "x \<notin> set (tc_queue s)" using assms by (auto simp: ctl_data_def)
  then have "ctl_data (s\<lparr>tc_running := removeAll x (tc_running s), tc_tasks := AList.delete x (tc_tasks s)\<rparr>)"
    using assms by (auto simp: ctl_data_def delete_conv' distinct_removeAll dom_def)
  then show ?thesis unfolding task_settled_def by (rule inv_drain)
qed

lemma inv_drop: "ctl_inv s \<Longrightarrow> distinct (map ti_id items) \<Longrightarrow> ctl_inv (dropQueuedTransfer x s\<lparr>tc_items := items\<rparr>)"
  by (auto simp: ctl_inv_def ctl_data_def dropQueuedTransfer_def delete_conv' dom_def)

lemma ctl_step_inv: "ctl_step s st s' \<Longrightarrow> ctl_inv s \<Longrightarrow> ctl_inv s'"
proof (induction rule: ctl_step.induct)
  case (ctl_enqueue x now task s st s')
  then show ?case using data_enqueue [of s x now task] by (simp add: ctl_inv_def)
next
  case (ctl_settle x s now st s')
  then show ?case using data_settled [of s x now] by (simp add: ctl_inv_def)
next
  case (ctl_concurrency now n s st s')
  then show ?case using inv_drain [of "s\<lparr>tc_concurrency := n\<rparr>" now]
    by (simp add: ctl_inv_def ctl_data_def set_concurrency_def)
next
  case (ctl_cancel s x)
  then have d: "distinct (map ti_id (tc_items s))" by (simp add: ctl_inv_def ctl_data_def)
  have "tc_items (dropQueuedTransfer x s) = tc_items s" by (simp add: dropQueuedTransfer_def)
  with ctl_cancel d have "ctl_inv (cancelQueuedTransfer x s)"
    by (simp add: cancelQueuedTransfer_def Let_def inv_drop distinct_update)
  with ctl_cancel d show ?case
    by (auto simp: requestCancelTransfer_def markTransferCanceled_def ctl_inv_def ctl_data_def distinct_update
        split: option.split)
next
  case (ctl_remove s x)
  then have "distinct (map ti_id (removeRemoteFileTransfer x (tc_items s)))"
    by (simp add: ctl_inv_def ctl_data_def removeRemoteFileTransfer_def distinct_map_filter)
  moreover have "tc_items (dropQueuedTransfer x s) = tc_items s" by (simp add: dropQueuedTransfer_def)
  ultimately show ?case using ctl_remove by (simp add: removeTransfer_def Let_def inv_drop)
qed (simp add: ctl_inv_def ctl_data_def)

lemma ctl_reachable_inv: "ctl_reachable s \<Longrightarrow> ctl_inv s"
  by (induction rule: ctl_reachable.induct)
    (simp add: new_ctl_def ctl_inv_def ctl_data_def, blast intro: ctl_step_inv)

lemma drain_bounds:
  fixes now :: int
  assumes "ctl_data s"
  defines "r \<equiv> drainTransferQueue now s"
  shows "int (length (tc_running (snd r))) \<le> max (int (length (tc_running s))) (tc_concurrency (snd r))"
    "\<forall>(x, t)\<in>set (fst r). x \<in> set (tc_running (snd r)) \<and> map_of (tc_tasks (snd r)) x = Some t"
proof -
  have d: "distinct (tc_queue s @ tc_running s)" "distinct (tc_queue s)"
    using assms(1) by (auto simp: ctl_data_def)
  note b = drain_basic [OF d(1), of now]
  show "int (length (tc_running (snd r))) \<le> max (int (length (tc_running s))) (tc_concurrency (snd r))"
    using b(4,6) by (simp add: r_def drainTransferQueue_def)
  show "\<forall>(x, t)\<in>set (fst r). x \<in> set (tc_running (snd r)) \<and> map_of (tc_tasks (snd r)) x = Some t"
  proof clarify
    fix x t assume xt: "(x, t) \<in> set (fst r)"
    then have "x \<in> fst ` set (fst r)" by force
    then have "map_of (tc_tasks (snd r)) x = map_of (tc_tasks s) x"
      unfolding r_def drainTransferQueue_def by (intro drain_tasks_kept d(2)) simp
    with xt drain_started_task [OF d(2), of x t now s] \<open>x \<in> fst ` set (fst r)\<close> b(2)
    show "x \<in> set (tc_running (snd r)) \<and> map_of (tc_tasks (snd r)) x = Some t"
      by (simp add: r_def drainTransferQueue_def)
  qed
qed

lemma data_before_drain:
  assumes "ctl_data s"
  shows "x \<noteq> [] \<Longrightarrow> \<exists>t. enqueueRemoteFileTransfer now x task s = drainTransferQueue now t \<and> ctl_data t \<and> tc_running t = tc_running s"
    "x \<in> set (tc_running s) \<Longrightarrow> \<exists>t. task_settled now x s = drainTransferQueue now t \<and> ctl_data t
        \<and> tc_running t = removeAll x (tc_running s) \<and> tc_queue t = tc_queue s \<and> tc_concurrency t = tc_concurrency s"
    "\<exists>t. set_concurrency now n s = drainTransferQueue now t \<and> ctl_data t \<and> tc_running t = tc_running s"
proof -
  show "x \<noteq> [] \<Longrightarrow> \<exists>t. enqueueRemoteFileTransfer now x task s = drainTransferQueue now t \<and> ctl_data t \<and> tc_running t = tc_running s"
    unfolding enqueueRemoteFileTransfer_def Let_def
    by (rule exI, rule conjI, rule refl) (use assms in \<open>auto simp: ctl_data_def update_conv'\<close>)
  show "x \<in> set (tc_running s) \<Longrightarrow> \<exists>t. task_settled now x s = drainTransferQueue now t \<and> ctl_data t
        \<and> tc_running t = removeAll x (tc_running s) \<and> tc_queue t = tc_queue s \<and> tc_concurrency t = tc_concurrency s"
    unfolding task_settled_def
    by (rule exI, rule conjI, rule refl)
      (use assms in \<open>auto simp: ctl_data_def delete_conv' distinct_removeAll dom_def\<close>)
  show "\<exists>t. set_concurrency now n s = drainTransferQueue now t \<and> ctl_data t \<and> tc_running t = tc_running s"
    unfolding set_concurrency_def by (rule exI, rule conjI, rule refl) (use assms in \<open>simp add: ctl_data_def\<close>)
qed

lemma step_bounds:
  assumes "ctl_step s st s'" "ctl_data s"
  shows "int (length (tc_running s')) \<le> max (int (length (tc_running s))) (tc_concurrency s')
    \<and> (\<forall>(x, t)\<in>set st. x \<in> set (tc_running s') \<and> map_of (tc_tasks s') x = Some t)"
  using assms
proof (induction rule: ctl_step.induct)
  case (ctl_enqueue x now task s st s')
  from data_before_drain(1) [OF ctl_enqueue(3,1), of now task] obtain t where
    "drainTransferQueue now t = (st, s')" "ctl_data t" "tc_running t = tc_running s"
    using ctl_enqueue(2) by (elim exE conjE) simp
  then show ?case using drain_bounds [of t now] by simp
next
  case (ctl_settle x s now st s')
  from data_before_drain(2) [OF ctl_settle(3,1), of now] obtain t where
    t: "drainTransferQueue now t = (st, s')" "ctl_data t" "tc_running t = removeAll x (tc_running s)"
    using ctl_settle(2) by (elim exE conjE) simp
  have "max (int (length (removeAll x (tc_running s)))) c \<le> max (int (length (tc_running s))) c" for c
    by (intro max.mono) simp_all
  from order_trans [OF _ this] drain_bounds [OF t(2), of now] show ?case unfolding t(1,3) fst_conv snd_conv by blast
next
  case (ctl_concurrency now n s st s')
  from data_before_drain(3) [OF ctl_concurrency(2), of now n] obtain t where
    "drainTransferQueue now t = (st, s')" "ctl_data t" "tc_running t = tc_running s"
    using ctl_concurrency(1) by (elim exE conjE) simp
  then show ?case using drain_bounds [of t now] by simp
qed (simp_all add: requestCancelTransfer_def cancelQueuedTransfer_def dropQueuedTransfer_def removeTransfer_def
    Let_def split: option.split)

lemma settle_shrinks:
  assumes "ctl_inv s" "x \<in> set (tc_running s)"
  shows "length (tc_queue (snd (task_settled now x s))) + length (tc_running (snd (task_settled now x s)))
      < length (tc_queue s) + length (tc_running s)"
proof -
  have "ctl_data s" using assms by (simp add: ctl_inv_def)
  from data_before_drain(2) [OF this assms(2), of now] obtain t where t:
    "task_settled now x s = drainTransferQueue now t" "ctl_data t" "tc_running t = removeAll x (tc_running s)"
    "tc_queue t = tc_queue s" by (elim exE conjE) simp
  let ?r = "drain_from now (tc_queue t) t"
  have "distinct (tc_queue t @ tc_running t)" using t(2) by (simp add: ctl_data_def)
  note b = drain_basic [OF this, of now]
  have "length (map fst (fst ?r) @ tc_queue (snd ?r)) \<le> length (tc_queue t)"
    using b(3) by (rule list_emb_length)
  moreover have "length (removeAll x (tc_running s)) < length (tc_running s)"
    using assms(2) by (rule length_removeAll_less)
  ultimately show ?thesis
    using t b(2) by (simp add: drainTransferQueue_def)
qed

lemma drain_waits:
  assumes "distinct (tc_queue s)" "distinct (map ti_id (tc_items s))" "waits s x task item" "x \<noteq> []"
  shows "started_or_waits x task item (drainTransferQueue now s)"
proof -
  let ?r = "drain_from now (tc_queue s) s"
  have W: "x \<in> set (tc_queue s)" "map_of (tc_tasks s) x = Some task" "getRemoteFileTransfer (tc_items s) x = Some item"
    "ti_status item = StQueued" using assms(3) by (simp_all add: waits_def)
  then have "startable s x" using assms(4) by (simp add: startable_def)
  from drain_keeps_startable [OF assms(1,2) this W(1), of now]
  have "(x, task) \<in> set (fst ?r) \<or> x \<notin> fst ` set (fst ?r) \<and> x \<in> set (tc_queue (snd ?r))"
    using drain_started_task [OF assms(1)] W(2) by fastforce
  moreover have "getRemoteFileTransfer (tc_items (snd ?r)) x = Some item" if "x \<notin> fst ` set (fst ?r)"
    using drain_item_kept [OF assms(2) W(3) _ that] W(4) by (simp add: is_active_def)
  moreover have "map_of (tc_tasks (snd ?r)) x = Some task" if "x \<in> set (tc_queue (snd ?r))"
    using drain_tasks_kept [OF assms(1)] that W(2) by simp
  ultimately show ?thesis using W(4) by (auto simp: started_or_waits_def waits_def drainTransferQueue_def)
qed

text \<open>The item an update sets the status of has that status afterwards.\<close>

lemma next_item_status: "ti_status (next_item item u) = or_else (up_status u) (ti_status item)"
  by (simp add: next_item_def spread_update_def Let_def)

lemma update_status:
  assumes "i \<in> set (updateRemoteFileTransfer x u items)" "ti_id i = x" "up_status u = Some st"
  shows "ti_status i = st"
proof -
  have one: "ti_status (update_one x u item) = st" if "ti_id item = x" for item
    using that assms(3) by (auto simp: update_one_def isTransferItemEqual_def next_item_status or_else_def)
  show ?thesis
  proof (cases "\<exists>item\<in>set items. ti_id item = x \<and> \<not> isTransferItemEqual item (next_item item u)")
    case True
    then have "i \<in> set (map (update_one x u) items)"
      using assms(1) subseq_set [OF trim_subseq, of 0 0 "map (update_one x u) items"]
      by (auto simp: updateRemoteFileTransfer_def trimTransferHistory_def)
    then obtain xa where xa: "xa \<in> set items" "i = update_one x u xa" by auto
    then have "ti_id xa = x" using assms(2) by simp
    with one xa show ?thesis by simp
  next
    case False
    with assms have "isTransferItemEqual i (next_item i u)" by (auto simp: updateRemoteFileTransfer_def)
    with assms(3) show ?thesis by (simp add: isTransferItemEqual_def next_item_status or_else_def)
  qed
qed

section \<open>Properties\<close>

text \<open>C12. In every state the controller can reach, whatever happens next, no transfer is queued
  twice or queued while it runs; a step never lets more transfers run than allowed unless as many
  ran before; it runs exactly the task stored for a transfer and counts it as running; and
  transfers wait only while as many run as are allowed.\<close>

theorem transfer_controller_safe:
  assumes "ctl_reachable s" "ctl_step s started s'"
  shows "distinct (tc_queue s' @ tc_running s')
    \<and> (tc_queue s' \<noteq> [] \<longrightarrow> tc_concurrency s' \<le> int (length (tc_running s')))
    \<and> int (length (tc_running s')) \<le> max (int (length (tc_running s))) (tc_concurrency s')
    \<and> (\<forall>(x, t)\<in>set started. x \<in> set (tc_running s') \<and> map_of (tc_tasks s') x = Some t)"
  using ctl_step_inv [OF assms(2) ctl_reachable_inv [OF assms(1)]] step_bounds [OF assms(2)]
    ctl_reachable_inv [OF assms(1)]
  by (simp add: ctl_inv_def ctl_data_def)

theorem transfer_controller_safe_witness:
  "tc_running (snd (enqueueRemoteFileTransfer 0 (js ''t'') 7 (new_ctl 1 []))) = [js ''t'']
    \<and> distinct (tc_queue (snd (enqueueRemoteFileTransfer 0 (js ''t'') 7 (new_ctl 1 [])))
        @ tc_running (snd (enqueueRemoteFileTransfer 0 (js ''t'') 7 (new_ctl 1 []))))"
proof -
  let ?r = "enqueueRemoteFileTransfer 0 (js ''t'') 7 (new_ctl 1 [])"
  have "ctl_step (new_ctl 1 []) (fst ?r) (snd ?r)"
    by (rule ctl_enqueue [where x = "js ''t''" and now = 0 and task = 7]) simp_all
  from transfer_controller_safe [OF ctl_init this] have "distinct (tc_queue (snd ?r) @ tc_running (snd ?r))"
    by simp
  moreover have "tc_running (snd ?r) = [js ''t'']"
    by (simp add: enqueueRemoteFileTransfer_def new_ctl_def drainTransferQueue_def task_to_start_def
        getRemoteFileTransfer_def start_transfer_def set_add_def)
  ultimately show ?thesis by blast
qed

text \<open>C27. No waiting transfer is lost. Whenever a task settles, the limit changes or a transfer is enqueued, a transfer that waits
  is started, with its task, or waits on with its task and its entry in the list unchanged; enqueueing it again only replaces its
  task. Cancelling or removing another transfer, and every change of the list that is not about it (updates and removals of
  others, new entries, clearing what is finished, progress reports), leave it waiting as it was. Cancelling or removing it takes it out.\<close>

theorem waiting_transfer_kept:
  assumes "ctl_reachable s" "waits s x task item"
  shows "(\<forall>now. \<forall>y\<in>set (tc_running s). started_or_waits x task item (task_settled now y s))
    \<and> (\<forall>now n. started_or_waits x task item (set_concurrency now n s))
    \<and> (\<forall>now y task'. y \<noteq> [] \<longrightarrow>
         started_or_waits x (if y = x then task' else task) item (enqueueRemoteFileTransfer now y task' s))
    \<and> (\<forall>y. y \<noteq> x \<longrightarrow> waits (requestCancelTransfer y s) x task item \<and> waits (removeTransfer y s) x task item)
    \<and> (\<forall>items'. other_change x (tc_items s) items' \<longrightarrow> waits (s\<lparr>tc_items := items'\<rparr>) x task item)
    \<and> x \<notin> set (tc_queue (requestCancelTransfer x s)) \<and> x \<notin> set (tc_queue (removeTransfer x s))"
proof (intro conjI allI ballI impI)
  have D: "ctl_data s" using ctl_reachable_inv [OF assms(1)] by (simp add: ctl_inv_def)
  have W: "x \<in> set (tc_queue s)" "map_of (tc_tasks s) x = Some task" "getRemoteFileTransfer (tc_items s) x = Some item"
    "ti_status item = StQueued" using assms(2) by (simp_all add: waits_def)
  have x: "x \<noteq> []" and ids: "distinct (map ti_id (tc_items s))" using D W(1) by (auto simp: ctl_data_def)
  note drained = drain_waits [OF _ _ _ x]
  show "started_or_waits x task item (task_settled now y s)" if y: "y \<in> set (tc_running s)" for now y
  proof -
    have "x \<noteq> y" using D y W(1) by (auto simp: ctl_data_def)
    then show ?thesis unfolding task_settled_def
      by (intro drained) (use D W in \<open>auto simp: ctl_data_def waits_def delete_conv'\<close>)
  qed
  show "started_or_waits x task item (set_concurrency now n s)" for now n
    unfolding set_concurrency_def by (intro drained) (use D W in \<open>auto simp: ctl_data_def waits_def\<close>)
  show "started_or_waits x (if y = x then task' else task) item (enqueueRemoteFileTransfer now y task' s)" if "y \<noteq> []" for now y task'
    unfolding enqueueRemoteFileTransfer_def Let_def
    by (intro drained) (use D W in \<open>auto simp: ctl_data_def waits_def update_conv'\<close>)
  show "waits (removeTransfer y s) x task item" if "y \<noteq> x" for y
    using W that get_other [OF other_remove [OF that] ids W(3,4)]
    by (simp add: removeTransfer_def dropQueuedTransfer_def waits_def delete_conv' Let_def)
  have cancel: "waits (cancelQueuedTransfer y s) x task item" if "y \<noteq> x" for y
    using W that get_other [OF other_update [OF that] ids W(3,4)]
    by (simp add: cancelQueuedTransfer_def dropQueuedTransfer_def waits_def delete_conv' Let_def)
  have mark: "waits (s\<lparr>tc_items := markTransferCanceled y (tc_items s)\<rparr>) x task item" if "y \<noteq> x" for y
    using W get_other [OF other_update [OF that] ids W(3,4)] by (simp add: waits_def markTransferCanceled_def)
  show "waits (requestCancelTransfer y s) x task item" if "y \<noteq> x" for y
    using cancel [OF that] mark [OF that] assms(2) by (simp add: requestCancelTransfer_def split: option.split)
  show "waits (s\<lparr>tc_items := items'\<rparr>) x task item" if "other_change x (tc_items s) items'" for items'
    using W get_other [OF that ids W(3,4)] by (simp add: waits_def)
  show "x \<notin> set (tc_queue (requestCancelTransfer x s))" "x \<notin> set (tc_queue (removeTransfer x s))"
    using W(3,4) by (simp_all add: requestCancelTransfer_def cancelQueuedTransfer_def removeTransfer_def dropQueuedTransfer_def Let_def)
qed

definition sample_item :: transfer_item where
  "sample_item = \<lparr>ti_id = js ''b'', ti_createdAt = 0, ti_direction = DirUpload, ti_error = None,
     ti_kind = TransferFile, ti_localPath = None, ti_name = js ''f'', ti_progress = Num 0,
     ti_progressDetail = None, ti_progressIndeterminate = False, ti_retry = None, ti_remotePath = js ''/f'',
     ti_speedText = None, ti_stage = [], ti_startedAt = 0, ti_status = StQueued\<rparr>"

definition sample_ctl :: transfer_ctl where
  "sample_ctl = snd (enqueueRemoteFileTransfer 0 (js ''b'') 2 (snd (enqueueRemoteFileTransfer 0 (js ''a'') 1 (new_ctl 1 [sample_item]))))"

lemma sample_ctl_fields:
  "ctl_reachable sample_ctl" "tc_queue sample_ctl = [js ''b'']" "tc_running sample_ctl = [js ''a'']"
  "waits sample_ctl (js ''b'') 2 sample_item"
proof -
  let ?s0 = "new_ctl 1 [sample_item]"
  let ?r = "enqueueRemoteFileTransfer 0 (js ''a'') 1 ?s0"
  have "ctl_reachable ?s0" by (rule ctl_init) simp
  moreover have "ctl_step ?s0 (fst ?r) (snd ?r)"
    by (rule ctl_enqueue [where x = "js ''a''" and now = 0 and task = 1]) simp_all
  ultimately have "ctl_reachable (snd ?r)" by (rule ctl_next)
  moreover have "ctl_step (snd ?r) (fst (enqueueRemoteFileTransfer 0 (js ''b'') 2 (snd ?r))) sample_ctl"
    by (rule ctl_enqueue [where x = "js ''b''" and now = 0 and task = 2]) (simp_all add: sample_ctl_def)
  ultimately show "ctl_reachable sample_ctl" by (rule ctl_next)
  show "tc_queue sample_ctl = [js ''b'']" "tc_running sample_ctl = [js ''a'']" "waits sample_ctl (js ''b'') 2 sample_item"
    by (simp_all add: sample_ctl_def enqueueRemoteFileTransfer_def new_ctl_def drainTransferQueue_def task_to_start_def
        getRemoteFileTransfer_def start_transfer_def set_add_def sample_item_def waits_def mark_running_def
        updateRemoteFileTransfer_def)
qed

theorem waiting_transfer_kept_witness:
  "started_or_waits (js ''b'') 2 sample_item (task_settled 0 (js ''a'') sample_ctl)
    \<and> waits (removeTransfer (js ''a'') sample_ctl) (js ''b'') 2 sample_item"
  using waiting_transfer_kept [OF sample_ctl_fields(1,4)] by (simp add: sample_ctl_fields)

text \<open>C34. Settling tasks empties the controller: each task that settles leaves fewer transfers waiting
  or running, and if at least one transfer may run, then one does whenever any waits.\<close>

theorem transfers_finish:
  assumes "ctl_reachable s"
  shows "(\<forall>x\<in>set (tc_running s). \<forall>now.
           length (tc_queue (snd (task_settled now x s))) + length (tc_running (snd (task_settled now x s)))
             < length (tc_queue s) + length (tc_running s))
    \<and> (1 \<le> tc_concurrency s \<longrightarrow> tc_queue s \<noteq> [] \<longrightarrow> tc_running s \<noteq> [])"
  using ctl_reachable_inv [OF assms] settle_shrinks by (auto simp: ctl_inv_def)

theorem transfers_finish_witness:
  "length (tc_queue (snd (task_settled 0 (js ''a'') sample_ctl)))
     + length (tc_running (snd (task_settled 0 (js ''a'') sample_ctl))) < 2"
  using transfers_finish [OF sample_ctl_fields(1)] by (simp add: sample_ctl_fields numeral_2_eq_2)

text \<open>Cancelling a transfer that waits takes it and its task out, so that neither a settled task
  nor a changed limit starts it any more, and its entry in the list is marked as cancelled.\<close>

theorem cancel_waiting_transfer:
  assumes "ctl_reachable s" "getRemoteFileTransfer (tc_items s) x = Some item" "ti_status item = StQueued"
  shows "x \<notin> set (tc_queue (requestCancelTransfer x s))
    \<and> map_of (tc_tasks (requestCancelTransfer x s)) x = None
    \<and> x \<notin> fst ` set (fst (task_settled now y (requestCancelTransfer x s)))
    \<and> x \<notin> fst ` set (fst (set_concurrency now n (requestCancelTransfer x s)))
    \<and> (\<forall>i\<in>set (tc_items (requestCancelTransfer x s)). ti_id i = x \<longrightarrow> ti_status i = StCanceled)"
proof -
  let ?c = "requestCancelTransfer x s"
  have c: "?c = cancelQueuedTransfer x s" using assms by (simp add: requestCancelTransfer_def)
  have q: "x \<notin> set (tc_queue ?c)" "map_of (tc_tasks ?c) x = None"
    by (simp_all add: c cancelQueuedTransfer_def dropQueuedTransfer_def Let_def delete_conv')
  have "x \<notin> fst ` set (fst (drainTransferQueue now t))" if "tc_queue t = tc_queue ?c" for t
    using that q(1) drain_sets [of now "tc_queue t" t] by (auto simp: drainTransferQueue_def)
  then have "x \<notin> fst ` set (fst (task_settled now y ?c))" "x \<notin> fst ` set (fst (set_concurrency now n ?c))"
    by (simp_all add: task_settled_def set_concurrency_def)
  moreover have "ti_status i = StCanceled" if "i \<in> set (tc_items ?c)" "ti_id i = x" for i
    using that by (auto simp: c cancelQueuedTransfer_def dropQueuedTransfer_def Let_def elim: update_status)
  ultimately show ?thesis using q by blast
qed

theorem cancel_waiting_transfer_witness:
  "js ''b'' \<notin> fst ` set (fst (task_settled 0 (js ''a'') (requestCancelTransfer (js ''b'') sample_ctl)))"
proof -
  from sample_ctl_fields(4) obtain item where
    "getRemoteFileTransfer (tc_items sample_ctl) (js ''b'') = Some item" "ti_status item = StQueued"
    by (auto simp: waits_def)
  from cancel_waiting_transfer [OF sample_ctl_fields(1) this, of 0 "js ''a''"] show ?thesis by blast
qed

end
