(* ===== verification/Connection_Normalize.thy ===== *)
theory Connection_Normalize
  imports Connection_Types
begin

text \<open>
  Normalising a connection before it is stored: the defaults and helpers of
  \<open>src/features/connections/connectionTypes.ts\<close>, \<open>normalizeConnectionInput\<close> with the functions it
  calls (\<open>useConnections.ts\<close>) and \<open>normalizeCredentialInput\<close> (\<open>useCredentials.ts\<close>). The result
  of \<open>resolveDesktopPlatform\<close> is the argument \<open>plat\<close>.
\<close>

section \<open>Absent and falsy values\<close>

text \<open>\<open>value?.trim() || undefined\<close>.\<close>

definition trim_opt :: "jsstr option \<Rightarrow> jsstr option" where
  "trim_opt v = opt_truthy (map_option js_trim v)"

text \<open>\<open>a || b\<close> where a present value is truthy, and \<open>a ?? b\<close>.\<close>

definition or_default :: "'a option \<Rightarrow> 'a option \<Rightarrow> 'a option" where
  "or_default a b = (case a of None \<Rightarrow> b | Some x \<Rightarrow> Some x)"

text \<open>\<open>a || b\<close> on strings that may be absent.\<close>

definition str_or_opt :: "jsstr option \<Rightarrow> jsstr option \<Rightarrow> jsstr option" where
  "str_or_opt a b = (if opt_truthy a = None then b else a)"

text \<open>\<open>Boolean(flag)\<close>.\<close>

definition flag :: "bool option \<Rightarrow> bool" where
  "flag b \<longleftrightarrow> b = Some True"

text \<open>\<open>Number(n) || d\<close>: NaN and zero are falsy; \<open>Number(undefined)\<close> is NaN and \<open>Number(null)\<close> zero.\<close>

definition num_truthy :: "jsnum option \<Rightarrow> jsnum option" where
  "num_truthy v = (case v of None \<Rightarrow> None | Some x \<Rightarrow> if x = NaN \<or> x = Num 0 then None else Some x)"

definition num_or :: "jsnum \<Rightarrow> jsnum \<Rightarrow> jsnum" where
  "num_or x d = (if x = NaN \<or> x = Num 0 then d else x)"

lemma trim_opt_None [simp]: "trim_opt None = None"
  by (simp add: trim_opt_def)

lemma trim_opt_idem [simp]: "trim_opt (trim_opt v) = trim_opt v"
  by (auto simp: trim_opt_def opt_truthy_def split: option.splits)

lemma or_default_simps [simp]: "or_default (Some x) b = Some x" "or_default None b = b"
  by (simp_all add: or_default_def)

lemma or_default_absorb [simp]: "or_default (or_default a b) b = or_default a b"
  by (cases a; cases b) simp_all

lemma or_default_same [simp]: "or_default a None = a"
  by (cases a) simp_all

lemma or_default_Some_ne [simp]: "or_default a (Some b) \<noteq> None"
  by (cases a) simp_all

lemma str_or_opt_None [simp]: "trim_opt (str_or_opt v None) = trim_opt v"
  by (auto simp: str_or_opt_def trim_opt_def opt_truthy_def split: option.splits if_splits)

lemma trim_str_or_opt_trim [simp]: "trim_opt (str_or_opt (trim_opt v) None) = trim_opt v"
  by simp

lemma flag_simps [simp]: "flag (Some b) = b" "\<not> flag None"
  by (simp_all add: flag_def)

lemma num_truthy_None [simp]: "num_truthy None = None"
  by (simp add: num_truthy_def)

lemma num_truthy_idem [simp]: "num_truthy (num_truthy v) = num_truthy v"
  by (auto simp: num_truthy_def split: option.splits)

lemma or_num_truthy_absorb [simp]:
  "num_truthy b = b \<Longrightarrow> or_default (num_truthy (or_default (num_truthy a) b)) b = or_default (num_truthy a) b"
  by (cases "num_truthy a") (auto simp: num_truthy_def split: option.splits if_splits)

lemma num_or_idem [simp]: "num_or (num_or x d) d = num_or x d"
  by (simp add: num_or_def)

lemma num_or_truthy: "d \<noteq> NaN \<Longrightarrow> d \<noteq> Num 0 \<Longrightarrow> num_or x d \<noteq> NaN \<and> num_or x d \<noteq> Num 0"
  by (simp add: num_or_def)

section \<open>Defaults\<close>

definition defaultProxyConfig :: proxy_config where
  "defaultProxyConfig = \<lparr>px_kind = ProxyNone, px_host = Some [], px_port = Some (Num 8080),
     px_username = Some [], px_password = Some []\<rparr>"

definition defaultJumpConfig :: jump_config where
  "defaultJumpConfig = \<lparr>jc_kind = JumpNone, jc_jump_connection_id = Some []\<rparr>"

definition defaultAdvancedConfig :: advanced_config where
  "defaultAdvancedConfig =
     \<lparr>ad_connect_timeout_ms = Num 30000, ad_auth_timeout_ms = Num 45000,
      ad_keepalive_interval_ms = Num 20000, ad_terminal_encoding = Some (js ''utf-8''),
      ad_x11_forwarding = Some \<lparr>x11_enabled = Some False, x11_trusted = Some False,
        x11_display = Some [], x11_xauth_path = Some []\<rparr>\<rparr>"

definition defaultRdpConfig :: rdp_config where
  "defaultRdpConfig =
     \<lparr>rc_domain = Some [],
      rc_display = Some \<lparr>rd_mode = Some RdpEmbedded, rd_width = Some (Num 1440), rd_height = Some (Num 900),
        rd_dynamic_resize = Some True, rd_use_multimon = Some False\<rparr>,
      rc_resources = Some \<lparr>rr_clipboard = Some True, rr_audio = Some AudioLocal, rr_drives = Some False,
        rr_printers = Some False, rr_smart_cards = Some False\<rparr>,
      rc_gateway = Some \<lparr>rg_mode = Some GatewayDisabled, rg_host = Some [], rg_credential_source = Some GatewayPrompt\<rparr>,
      rc_remote_app = Some \<lparr>ra_enabled = Some False, ra_program = Some [], ra_working_dir = Some [], ra_args = Some []\<rparr>,
      rc_performance = Some \<lparr>rp_preset = Some RdpAuto, rp_desktop_background = Some False,
        rp_font_smoothing = Some True, rp_visual_styles = Some True\<rparr>,
      rc_security = Some \<lparr>rs_credential_mode = Some RdpCredPrompt, rs_nla = Some NlaAuto,
        rs_certificate_policy = Some CertPrompt\<rparr>,
      rc_runner = Some \<lparr>rn_render_mode = Some RdpRenderEmbedded, rn_preferred_runner = None,
        rn_custom_executable = Some [], rn_custom_args_template = Some []\<rparr>,
      rc_raw_rdp_settings = Some [], rc_raw_runner_args = Some []\<rparr>"

text \<open>\<open>(compression_level, quality_level)\<close> of each preset.\<close>

definition vncPerformancePresetDefaults :: "vnc_preset \<Rightarrow> rat \<times> rat" where
  "vncPerformancePresetDefaults preset =
     (case preset of VncAuto \<Rightarrow> (0, 7) | VncQuality \<Rightarrow> (1, 8) | VncBalanced \<Rightarrow> (2, 6) | VncLowBandwidth \<Rightarrow> (6, 4))"

definition defaultVncConfig :: vnc_config where
  "defaultVncConfig =
     \<lparr>vc_display = Some \<lparr>vd_scale_mode = Some ScaleFit, vd_resize_session = Some True, vd_clip_viewport = Some True\<rparr>,
      vc_input = Some \<lparr>vi_view_only = Some False, vi_clipboard = Some True, vi_shared = Some True\<rparr>,
      vc_performance = Some \<lparr>vp_preset = Some VncAuto,
        vp_quality_level = Some (Num (snd (vncPerformancePresetDefaults VncAuto))),
        vp_compression_level = Some (Num (fst (vncPerformancePresetDefaults VncAuto)))\<rparr>,
      vc_security = Some \<lparr>vs_credential_mode = Some VncCredPrompt\<rparr>,
      vc_runner = Some \<lparr>vn_render_mode = Some VncRenderEmbedded, vn_preferred_runner = Some Novnc,
        vn_custom_executable = Some [], vn_custom_args_template = Some []\<rparr>,
      vc_raw_runner_args = Some []\<rparr>"

definition defaultTelnetConfig :: telnet_config where
  "defaultTelnetConfig = \<lparr>tc_enter_mode = Some EnterCrlf, tc_backspace_mode = Some BackDel\<rparr>"

definition defaultSerialConfig :: serial_config where
  "defaultSerialConfig =
     \<lparr>sc_port_name = Some [], sc_baud_rate = Some (Num 9600), sc_data_bits = Some BitsEight,
      sc_parity = Some ParityNone, sc_stop_bits = Some StopOne, sc_flow_control = Some FlowNone,
      sc_backspace_mode = Some BackDel\<rparr>"

lemmas connection_defaults = defaultRdpConfig_def defaultVncConfig_def defaultTelnetConfig_def
  defaultSerialConfig_def vncPerformancePresetDefaults_def

section \<open>VNC performance levels\<close>

definition clampVncPerformanceLevel :: "jsnum \<Rightarrow> jsnum" where
  "clampVncPerformanceLevel value = num_min (Num 9) (num_max (Num 0) value)"

text \<open>The result is \<open>(compressionLevel, qualityLevel)\<close>.\<close>

definition resolveVncPerformanceLevels :: "vnc_performance \<Rightarrow> jsnum \<times> jsnum" where
  "resolveVncPerformanceLevels p =
     (let dflt = vncPerformancePresetDefaults (case vp_preset p of Some v \<Rightarrow> v | None \<Rightarrow> VncAuto);
          quality = (case vp_quality_level p of Some q \<Rightarrow> clampVncPerformanceLevel q | None \<Rightarrow> Num (snd dflt));
          compression = (case vp_compression_level p of Some c \<Rightarrow> clampVncPerformanceLevel c | None \<Rightarrow> Num (fst dflt))
      in if vp_preset p = Some VncAuto
         then (if compression = Num 2 then Num (fst dflt) else compression,
               if quality = Num 6 then Num (snd dflt) else quality)
         else (compression, quality))"

section \<open>Encodings, X11 and external runners\<close>

definition terminalEncodingOptions :: "(jsstr \<times> jsstr) list" where
  "terminalEncodingOptions =
     [(js ''UTF-8'', js ''utf-8''), (js ''GBK'', js ''gbk''), (js ''GB18030'', js ''gb18030''),
      (js ''Big5'', js ''big5''), (js ''EUC-JP'', js ''euc-jp''), (js ''ISO-2022-JP'', js ''iso-2022-jp''),
      (js ''Shift_JIS'', js ''shift-jis''), (js ''EUC-KR'', js ''euc-kr'')]"

definition normalizeTerminalEncoding :: "jsstr option \<Rightarrow> jsstr" where
  "normalizeTerminalEncoding value =
     (let normalized = replace_unit 95 45 (js_lower (js_trim (case value of Some v \<Rightarrow> v | None \<Rightarrow> [])))
      in case List.find (\<lambda>item. snd item = normalized) terminalEncodingOptions of
           Some item \<Rightarrow> snd item
         | None \<Rightarrow> the (ad_terminal_encoding defaultAdvancedConfig))"

definition normalizeX11ForwardingConfig :: "x11_config option \<Rightarrow> x11_config" where
  "normalizeX11ForwardingConfig value =
     \<lparr>x11_enabled = Some (Option.bind value x11_enabled = Some True),
      x11_trusted = Some (Option.bind value x11_trusted = Some True),
      x11_display = trim_opt (Option.bind value x11_display),
      x11_xauth_path = trim_opt (Option.bind value x11_xauth_path)\<rparr>"

definition defaultRdpExternalRunnerForPlatform :: "platform \<Rightarrow> rdp_runner_kind" where
  "defaultRdpExternalRunnerForPlatform plat =
     (if plat = PlatMacos then MacosApp else if plat = PlatLinux then Freerdp else Mstsc)"

section \<open>Normalising one protocol's configuration\<close>

definition normalizeTelnetConfig :: "telnet_config option \<Rightarrow> telnet_config" where
  "normalizeTelnetConfig input =
     (let telnet = (case input of Some t \<Rightarrow> t | None \<Rightarrow> defaultTelnetConfig)
      in \<lparr>tc_enter_mode = or_default (tc_enter_mode telnet) (tc_enter_mode defaultTelnetConfig),
          tc_backspace_mode = or_default (tc_backspace_mode telnet) (tc_backspace_mode defaultTelnetConfig)\<rparr>)"

definition normalizeSerialConfig :: "serial_config option \<Rightarrow> serial_config" where
  "normalizeSerialConfig input =
     (let serial = (case input of Some s \<Rightarrow> s | None \<Rightarrow> defaultSerialConfig)
      in \<lparr>sc_port_name = Some (case sc_port_name serial of Some n \<Rightarrow> js_trim n | None \<Rightarrow> []),
          sc_baud_rate = or_default (num_truthy (sc_baud_rate serial)) (sc_baud_rate defaultSerialConfig),
          sc_data_bits = or_default (sc_data_bits serial) (sc_data_bits defaultSerialConfig),
          sc_parity = or_default (sc_parity serial) (sc_parity defaultSerialConfig),
          sc_stop_bits = or_default (sc_stop_bits serial) (sc_stop_bits defaultSerialConfig),
          sc_flow_control = or_default (sc_flow_control serial) (sc_flow_control defaultSerialConfig),
          sc_backspace_mode = or_default (sc_backspace_mode serial) (sc_backspace_mode defaultSerialConfig)\<rparr>)"

definition vnc_level :: "jsnum option \<Rightarrow> jsnum option \<Rightarrow> jsnum option" where
  "vnc_level level dflt =
     (case level of Some l \<Rightarrow> Some (num_min (Num 9) (num_max (Num 0) l)) | None \<Rightarrow> dflt)"

definition normalizeVncConfig :: "vnc_config option \<Rightarrow> vnc_config" where
  "normalizeVncConfig input =
     (let vnc = (case input of Some v \<Rightarrow> v | None \<Rightarrow> defaultVncConfig);
          display = vc_display vnc; inp = vc_input vnc; performance = vc_performance vnc;
          runner = vc_runner vnc;
          renderMode = or_default (Option.bind runner vn_render_mode)
               (Option.bind (vc_runner defaultVncConfig) vn_render_mode)
      in \<lparr>vc_display = Some
            \<lparr>vd_scale_mode = or_default (Option.bind display vd_scale_mode)
               (Option.bind (vc_display defaultVncConfig) vd_scale_mode),
             vd_resize_session = or_default (Option.bind display vd_resize_session)
               (Option.bind (vc_display defaultVncConfig) vd_resize_session),
             vd_clip_viewport = or_default (Option.bind display vd_clip_viewport)
               (Option.bind (vc_display defaultVncConfig) vd_clip_viewport)\<rparr>,
          vc_input = Some
            \<lparr>vi_view_only = Some (flag (Option.bind inp vi_view_only)),
             vi_clipboard = or_default (Option.bind inp vi_clipboard)
               (Option.bind (vc_input defaultVncConfig) vi_clipboard),
             vi_shared = or_default (Option.bind inp vi_shared)
               (Option.bind (vc_input defaultVncConfig) vi_shared)\<rparr>,
          vc_performance = Some
            \<lparr>vp_preset = or_default (Option.bind performance vp_preset)
               (Option.bind (vc_performance defaultVncConfig) vp_preset),
             vp_quality_level = vnc_level (Option.bind performance vp_quality_level)
               (Option.bind (vc_performance defaultVncConfig) vp_quality_level),
             vp_compression_level = vnc_level (Option.bind performance vp_compression_level)
               (Option.bind (vc_performance defaultVncConfig) vp_compression_level)\<rparr>,
          vc_security = Some
            \<lparr>vs_credential_mode = or_default (Option.bind (vc_security vnc) vs_credential_mode)
               (Option.bind (vc_security defaultVncConfig) vs_credential_mode)\<rparr>,
          vc_runner = Some
            \<lparr>vn_render_mode = renderMode,
             vn_preferred_runner =
               (if renderMode = Some VncRenderEmbedded \<or> renderMode = Some VncRenderWindowed then Some Novnc
                else or_default (Option.bind runner vn_preferred_runner)
                 (Option.bind (vc_runner defaultVncConfig) vn_preferred_runner)),
             vn_custom_executable =
               (if renderMode = Some VncRenderCustom then trim_opt (Option.bind runner vn_custom_executable) else None),
             vn_custom_args_template =
               (if renderMode = Some VncRenderCustom then trim_opt (Option.bind runner vn_custom_args_template) else None)\<rparr>,
          vc_raw_runner_args = trim_opt (vc_raw_runner_args vnc)\<rparr>)"

definition normalizeRdpConfig :: "platform \<Rightarrow> rdp_config option \<Rightarrow> rdp_config" where
  "normalizeRdpConfig plat input =
     (let rdp = (case input of Some r \<Rightarrow> r | None \<Rightarrow> defaultRdpConfig);
          display = rc_display rdp; resources = rc_resources rdp; gateway = rc_gateway rdp;
          remoteApp = rc_remote_app rdp; performance = rc_performance rdp; security = rc_security rdp;
          gatewayMode = or_default (Option.bind gateway rg_mode) (Some GatewayDisabled);
          remoteAppEnabled = flag (Option.bind remoteApp ra_enabled);
          renderMode = (if Option.bind (rc_runner rdp) rn_render_mode = Some RdpRenderExternal
                        then RdpRenderExternal else RdpRenderEmbedded);
          externalRunner = defaultRdpExternalRunnerForPlatform plat;
          displayMode = (if Option.bind display rd_mode = Some RdpWindowed
                         then Option.bind (rc_display defaultRdpConfig) rd_mode else Option.bind display rd_mode)
      in \<lparr>rc_domain = trim_opt (rc_domain rdp),
          rc_display = Some
            \<lparr>rd_mode = or_default displayMode (Option.bind (rc_display defaultRdpConfig) rd_mode),
             rd_width = or_default (num_truthy (Option.bind display rd_width))
               (Option.bind (rc_display defaultRdpConfig) rd_width),
             rd_height = or_default (num_truthy (Option.bind display rd_height))
               (Option.bind (rc_display defaultRdpConfig) rd_height),
             rd_dynamic_resize = or_default (Option.bind display rd_dynamic_resize)
               (Option.bind (rc_display defaultRdpConfig) rd_dynamic_resize),
             rd_use_multimon = Some (Option.bind display rd_mode = Some RdpAllMonitors
               \<or> flag (Option.bind display rd_use_multimon))\<rparr>,
          rc_resources = Some
            \<lparr>rr_clipboard = or_default (Option.bind resources rr_clipboard)
               (Option.bind (rc_resources defaultRdpConfig) rr_clipboard),
             rr_audio = or_default (Option.bind resources rr_audio)
               (Option.bind (rc_resources defaultRdpConfig) rr_audio),
             rr_drives = Some (flag (Option.bind resources rr_drives)),
             rr_printers = Some (flag (Option.bind resources rr_printers)),
             rr_smart_cards = Some (flag (Option.bind resources rr_smart_cards))\<rparr>,
          rc_gateway =
            (if gatewayMode = Some GatewayDisabled then None
             else Some \<lparr>rg_mode = gatewayMode,
                        rg_host = trim_opt (Option.bind gateway rg_host),
                        rg_credential_source = or_default (Option.bind gateway rg_credential_source)
                          (or_default (Option.bind (rc_gateway defaultRdpConfig) rg_credential_source)
                             (Some GatewayPrompt))\<rparr>),
          rc_remote_app = Some
            (if remoteAppEnabled
             then \<lparr>ra_enabled = Some True,
                   ra_program = trim_opt (Option.bind remoteApp ra_program),
                   ra_working_dir = trim_opt (Option.bind remoteApp ra_working_dir),
                   ra_args = trim_opt (Option.bind remoteApp ra_args)\<rparr>
             else \<lparr>ra_enabled = Some False, ra_program = None, ra_working_dir = None, ra_args = None\<rparr>),
          rc_performance = Some
            \<lparr>rp_preset = or_default (Option.bind performance rp_preset)
               (Option.bind (rc_performance defaultRdpConfig) rp_preset),
             rp_desktop_background = Some (flag (Option.bind performance rp_desktop_background)),
             rp_font_smoothing = or_default (Option.bind performance rp_font_smoothing)
               (Option.bind (rc_performance defaultRdpConfig) rp_font_smoothing),
             rp_visual_styles = or_default (Option.bind performance rp_visual_styles)
               (Option.bind (rc_performance defaultRdpConfig) rp_visual_styles)\<rparr>,
          rc_security = Some
            \<lparr>rs_credential_mode = or_default (Option.bind security rs_credential_mode)
               (Option.bind (rc_security defaultRdpConfig) rs_credential_mode),
             rs_nla = or_default (Option.bind security rs_nla)
               (Option.bind (rc_security defaultRdpConfig) rs_nla),
             rs_certificate_policy = or_default (Option.bind security rs_certificate_policy)
               (Option.bind (rc_security defaultRdpConfig) rs_certificate_policy)\<rparr>,
          rc_runner = Some
            \<lparr>rn_render_mode = Some renderMode,
             rn_preferred_runner = (if renderMode = RdpRenderExternal then Some externalRunner else None),
             rn_custom_executable = None, rn_custom_args_template = None\<rparr>,
          rc_raw_rdp_settings = trim_opt (rc_raw_rdp_settings rdp),
          rc_raw_runner_args = None\<rparr>)"

text \<open>\<open>input?.kind !== "ssh_jump"\<close> holds of an absent configuration too.\<close>

definition normalizeJumpConfig :: "jump_config option \<Rightarrow> jump_config" where
  "normalizeJumpConfig input =
     (if map_option jc_kind input \<noteq> Some JumpSsh then \<lparr>jc_kind = JumpNone, jc_jump_connection_id = None\<rparr>
      else \<lparr>jc_kind = JumpSsh,
            jc_jump_connection_id = Some (case Option.bind input jc_jump_connection_id of
              Some v \<Rightarrow> js_trim v | None \<Rightarrow> [])\<rparr>)"

definition no_proxy :: proxy_config where
  "no_proxy = \<lparr>px_kind = ProxyNone, px_host = None, px_port = None, px_username = None, px_password = None\<rparr>"

definition no_jump :: jump_config where
  "no_jump = \<lparr>jc_kind = JumpNone, jc_jump_connection_id = None\<rparr>"

definition normalize_proxy :: "proxy_config option \<Rightarrow> proxy_config" where
  "normalize_proxy input =
     (let proxyKind = (case input of Some p \<Rightarrow> px_kind p | None \<Rightarrow> ProxyNone)
      in if proxyKind = ProxyNone then no_proxy
         else \<lparr>px_kind = proxyKind, px_host = trim_opt (Option.bind input px_host),
               px_port = num_truthy (Option.bind input px_port),
               px_username = trim_opt (Option.bind input px_username),
               px_password = trim_opt (Option.bind input px_password)\<rparr>)"

definition normalize_advanced :: "advanced_config option \<Rightarrow> advanced_config" where
  "normalize_advanced input =
     (let number = (\<lambda>f. num_or (case input of Some a \<Rightarrow> f a | None \<Rightarrow> NaN) (f defaultAdvancedConfig))
      in \<lparr>ad_connect_timeout_ms = number ad_connect_timeout_ms,
          ad_auth_timeout_ms = number ad_auth_timeout_ms,
          ad_keepalive_interval_ms = number ad_keepalive_interval_ms,
          ad_terminal_encoding = Some (normalizeTerminalEncoding (Option.bind input ad_terminal_encoding)),
          ad_x11_forwarding = Some (normalizeX11ForwardingConfig (Option.bind input ad_x11_forwarding))\<rparr>)"

section \<open>Normalising a connection\<close>

text \<open>The flags \<open>..._touched\<close>: given, or whether there is a secret.\<close>

definition touched :: "bool option \<Rightarrow> jsstr option \<Rightarrow> bool" where
  "touched given secret = (case given of Some b \<Rightarrow> b | None \<Rightarrow> secret \<noteq> None)"

text \<open>What the branches for RDP and VNC share, field by field.\<close>

definition normalize_desktop :: "protocol \<Rightarrow> rat \<Rightarrow> connection_input \<Rightarrow> connection_input" where
  "normalize_desktop proto default_port i =
     (let credentialMode = or_default (ci_credential_mode i) (Some CredPrompt);
          inlinePassword = trim_opt (str_or_opt (ci_inline_password i) (ci_password i));
          inlinePasswordTouched = touched (ci_inline_password_touched i) inlinePassword
      in \<lparr>ci_id = trim_opt (ci_id i),
          ci_source_connection_id = trim_opt (ci_source_connection_id i),
          ci_protocol = Some proto,
          ci_name = trim_opt (ci_name i),
          ci_group = trim_opt (ci_group i),
          ci_host = js_trim (ci_host i),
          ci_port = num_or (ci_port i) (Num default_port),
          ci_username = js_trim (ci_username i),
          ci_credential_mode = credentialMode,
          ci_credential_id = (if credentialMode = Some CredSaved then trim_opt (ci_credential_id i) else None),
          ci_inline_auth_kind = (if credentialMode = Some CredInline then Some AuthPassword else None),
          ci_inline_password =
            (if credentialMode = Some CredInline \<and> inlinePasswordTouched then inlinePassword else None),
          ci_inline_password_touched = Some (if credentialMode = Some CredInline then inlinePasswordTouched else False),
          ci_inline_private_key_path = None,
          ci_inline_private_key_passphrase = None,
          ci_inline_private_key_passphrase_touched = Some False,
          ci_prompt_auth_kind = None,
          ci_proxy = Some no_proxy,
          ci_jump = Some no_jump,
          ci_advanced = Some defaultAdvancedConfig,
          ci_rdp = None, ci_vnc = None, ci_telnet = None, ci_serial = None,
          ci_notes = trim_opt (ci_notes i),
          ci_is_favorite = ci_is_favorite i,
          ci_last_connected_at = trim_opt (ci_last_connected_at i),
          ci_remote_os_id = trim_opt (ci_remote_os_id i),
          ci_remote_os_name = trim_opt (ci_remote_os_name i),
          ci_remote_os_version = trim_opt (ci_remote_os_version i),
          ci_auth_kind = None, ci_password = None, ci_private_key_path = None, ci_private_key_passphrase = None\<rparr>)"

text \<open>What the branches for telnet and serial lines share: there are no credentials.\<close>

definition normalize_character :: "protocol \<Rightarrow> jsstr \<Rightarrow> jsnum \<Rightarrow> connection_input \<Rightarrow> connection_input" where
  "normalize_character proto host port i =
     \<lparr>ci_id = trim_opt (ci_id i),
      ci_source_connection_id = trim_opt (ci_source_connection_id i),
      ci_protocol = Some proto,
      ci_name = trim_opt (ci_name i),
      ci_group = trim_opt (ci_group i),
      ci_host = host,
      ci_port = port,
      ci_username = [],
      ci_credential_mode = Some CredPrompt,
      ci_credential_id = None,
      ci_inline_auth_kind = None,
      ci_inline_password = None,
      ci_inline_password_touched = Some False,
      ci_inline_private_key_path = None,
      ci_inline_private_key_passphrase = None,
      ci_inline_private_key_passphrase_touched = Some False,
      ci_prompt_auth_kind = None,
      ci_proxy = Some no_proxy,
      ci_jump = Some no_jump,
      ci_advanced = Some defaultAdvancedConfig,
      ci_rdp = None, ci_vnc = None, ci_telnet = None, ci_serial = None,
      ci_notes = trim_opt (ci_notes i),
      ci_is_favorite = ci_is_favorite i,
      ci_last_connected_at = trim_opt (ci_last_connected_at i),
      ci_remote_os_id = None, ci_remote_os_name = None, ci_remote_os_version = None,
      ci_auth_kind = None, ci_password = None, ci_private_key_path = None, ci_private_key_passphrase = None\<rparr>"

definition normalize_ssh :: "connection_input \<Rightarrow> connection_input" where
  "normalize_ssh i =
     (let credentialMode = or_default (ci_credential_mode i) (Some CredInline);
          inlineAuthKind = or_default (or_default (ci_inline_auth_kind i) (ci_auth_kind i))
            (Some (if opt_truthy (ci_private_key_path i) \<noteq> None then AuthPrivateKey else AuthPassword));
          promptAuthKind = or_default (or_default (ci_prompt_auth_kind i) (ci_auth_kind i)) (Some AuthPassword);
          inlinePassword = trim_opt (str_or_opt (ci_inline_password i) (ci_password i));
          inlinePrivateKeyPassphrase =
            trim_opt (str_or_opt (ci_inline_private_key_passphrase i) (ci_private_key_passphrase i));
          inlinePasswordTouched = touched (ci_inline_password_touched i) inlinePassword;
          inlinePrivateKeyPassphraseTouched =
            touched (ci_inline_private_key_passphrase_touched i) inlinePrivateKeyPassphrase;
          by_password = (credentialMode = Some CredInline \<and> inlineAuthKind = Some AuthPassword);
          by_key = (credentialMode = Some CredInline \<and> inlineAuthKind = Some AuthPrivateKey)
      in \<lparr>ci_id = trim_opt (ci_id i),
          ci_source_connection_id = trim_opt (ci_source_connection_id i),
          ci_protocol = Some ProtoSsh,
          ci_name = trim_opt (ci_name i),
          ci_group = trim_opt (ci_group i),
          ci_host = js_trim (ci_host i),
          ci_port = num_or (ci_port i) (Num 22),
          ci_username = js_trim (ci_username i),
          ci_credential_mode = credentialMode,
          ci_credential_id = (if credentialMode = Some CredSaved then trim_opt (ci_credential_id i) else None),
          ci_inline_auth_kind = (if credentialMode = Some CredInline then inlineAuthKind else None),
          ci_inline_password = (if by_password \<and> inlinePasswordTouched then inlinePassword else None),
          ci_inline_password_touched = Some (if by_password then inlinePasswordTouched else False),
          ci_inline_private_key_path =
            (if by_key then trim_opt (str_or_opt (ci_inline_private_key_path i) (ci_private_key_path i)) else None),
          ci_inline_private_key_passphrase =
            (if by_key \<and> inlinePrivateKeyPassphraseTouched then inlinePrivateKeyPassphrase else None),
          ci_inline_private_key_passphrase_touched =
            Some (if by_key then inlinePrivateKeyPassphraseTouched else False),
          ci_prompt_auth_kind = (if credentialMode = Some CredPrompt then promptAuthKind else None),
          ci_proxy = Some (normalize_proxy (ci_proxy i)),
          ci_jump = Some (normalizeJumpConfig (ci_jump i)),
          ci_advanced = Some (normalize_advanced (ci_advanced i)),
          ci_rdp = None, ci_vnc = None, ci_telnet = None, ci_serial = None,
          ci_notes = trim_opt (ci_notes i),
          ci_is_favorite = ci_is_favorite i,
          ci_last_connected_at = trim_opt (ci_last_connected_at i),
          ci_remote_os_id = trim_opt (ci_remote_os_id i),
          ci_remote_os_name = trim_opt (ci_remote_os_name i),
          ci_remote_os_version = trim_opt (ci_remote_os_version i),
          ci_auth_kind = None, ci_password = None, ci_private_key_path = None, ci_private_key_passphrase = None\<rparr>)"

definition normalizeConnectionInput :: "platform \<Rightarrow> connection_input \<Rightarrow> connection_input" where
  "normalizeConnectionInput plat i =
     (case ci_protocol i of
        Some ProtoRdp \<Rightarrow> (normalize_desktop ProtoRdp 3389 i)\<lparr>ci_rdp := Some (normalizeRdpConfig plat (ci_rdp i))\<rparr>
      | Some ProtoVnc \<Rightarrow> (normalize_desktop ProtoVnc 5900 i)\<lparr>ci_vnc := Some (normalizeVncConfig (ci_vnc i))\<rparr>
      | Some ProtoTelnet \<Rightarrow>
          (normalize_character ProtoTelnet (js_trim (ci_host i)) (num_or (ci_port i) (Num 23)) i)
            \<lparr>ci_telnet := Some (normalizeTelnetConfig (ci_telnet i))\<rparr>
      | Some ProtoSerial \<Rightarrow>
          (let serial = normalizeSerialConfig (ci_serial i);
               portName = opt_str_or (sc_port_name serial) (js_trim (ci_host i))
           in (normalize_character ProtoSerial portName (Num 1) i)
                \<lparr>ci_serial := Some (serial\<lparr>sc_port_name := Some portName\<rparr>)\<rparr>)
      | _ \<Rightarrow> normalize_ssh i)"

end
