(* ===== verification/Connection_Laws.thy ===== *)
theory Connection_Laws
  imports Connection_Normalize
begin

text \<open>
  What normalising a connection guarantees: it is idempotent, keeps exactly the configuration of
  the chosen protocol, stores a secret only where the chosen way to authenticate uses it, and
  keeps the levels of VNC within their range. The facts about each configuration come first.
\<close>

section \<open>Idempotence of the parts\<close>

lemma num_truthy_Num [simp]: "q \<noteq> 0 \<Longrightarrow> num_truthy (Some (Num q)) = Some (Num q)"
  by (simp add: num_truthy_def)

lemma or_default_drop [simp]: "or_default (or_default a (Some b)) c = or_default a (Some b)"
  by (cases a) simp_all

lemma or_default_eq_Some: "or_default a (Some b) = Some c \<longleftrightarrow> a = Some c \<or> (a = None \<and> b = c)"
  by (cases a) simp_all

lemma normalizeTelnetConfig_idem [simp]:
  "normalizeTelnetConfig (Some (normalizeTelnetConfig i)) = normalizeTelnetConfig i"
  by (simp add: normalizeTelnetConfig_def Let_def)

lemma serial_port_name: "\<exists>n. sc_port_name (normalizeSerialConfig i) = Some n \<and> js_trim n = n"
  by (auto simp: normalizeSerialConfig_def Let_def split: option.splits)

lemma normalizeSerialConfig_idem [simp]:
  "js_trim n = n \<Longrightarrow> normalizeSerialConfig (Some (normalizeSerialConfig i\<lparr>sc_port_name := Some n\<rparr>)) = normalizeSerialConfig i\<lparr>sc_port_name := Some n\<rparr>"
  by (simp add: normalizeSerialConfig_def Let_def defaultSerialConfig_def)

lemma vnc_level_idem [simp]: "vnc_level (vnc_level l d) d = vnc_level l d" if "vnc_level d d = d"
  using that num_clamp_idem [of 0 9] by (cases l) (auto simp: vnc_level_def num_clamp_def)

lemma normalizeVncConfig_idem [simp]:
  "normalizeVncConfig (Some (normalizeVncConfig i)) = normalizeVncConfig i"
proof -
  have d: "vnc_level (Some (Num 7)) (Some (Num 7)) = Some (Num 7)" "vnc_level (Some (Num 0)) (Some (Num 0)) = Some (Num 0)"
    by (simp_all add: vnc_level_def num_min_def num_max_def)
  show ?thesis
    by (simp add: normalizeVncConfig_def Let_def defaultVncConfig_def vncPerformancePresetDefaults_def d)
qed

lemma normalizeRdpConfig_idem [simp]:
  "normalizeRdpConfig p (Some (normalizeRdpConfig p i)) = normalizeRdpConfig p i"
  apply (simp add: normalizeRdpConfig_def Let_def defaultRdpConfig_def or_default_eq_Some)
  done

lemma normalizeJumpConfig_idem [simp]: "normalizeJumpConfig (Some (normalizeJumpConfig i)) = normalizeJumpConfig i"
  by (cases i) (auto simp: normalizeJumpConfig_def split: option.splits)

lemma normalize_proxy_idem [simp]: "normalize_proxy (Some (normalize_proxy i)) = normalize_proxy i"
  by (simp add: normalize_proxy_def Let_def no_proxy_def)

lemma terminalEncoding_units:
  "map snd terminalEncodingOptions =
     [[117, 116, 102, 45, 56], [103, 98, 107], [103, 98, 49, 56, 48, 51, 48], [98, 105, 103, 53],
      [101, 117, 99, 45, 106, 112], [105, 115, 111, 45, 50, 48, 50, 50, 45, 106, 112],
      [115, 104, 105, 102, 116, 45, 106, 105, 115], [101, 117, 99, 45, 107, 114]]"
  by (simp add: terminalEncodingOptions_def js_def)

lemma terminalEncoding_clean:
  assumes "e \<in> set (map snd terminalEncodingOptions)"
  shows "replace_unit 95 45 (js_lower (js_trim e)) = e"
proof -
  have "list_all (\<lambda>e. e \<noteq> [] \<and> \<not> is_ws (hd e) \<and> \<not> is_ws (last e)
      \<and> list_all (\<lambda>c. c \<noteq> 95 \<and> lower_unit c = c) e) (map snd terminalEncodingOptions)"
    unfolding terminalEncoding_units by (simp add: is_ws_def lower_unit_def)
  with assms have e: "e \<noteq> []" "\<not> is_ws (hd e)" "\<not> is_ws (last e)"
      "\<forall>c\<in>set e. c \<noteq> 95 \<and> lower_unit c = c"
    unfolding list_all_iff by blast+
  then have "js_lower e = e" unfolding js_lower_def by (intro map_idI) blast
  moreover have "95 \<notin> set e" using e by blast
  ultimately show ?thesis using e by (simp add: js_trim_id replace_unit_id)
qed

lemma find_snd_case:
  "(case List.find (\<lambda>i. snd i = n) xs of Some i \<Rightarrow> snd i | None \<Rightarrow> d)
     = (if n \<in> set (map snd xs) then n else d)"
  by (induction xs) auto

lemma normalizeTerminalEncoding_option:
  "normalizeTerminalEncoding v \<in> set (map snd terminalEncodingOptions)"
proof -
  have "js ''utf-8'' \<in> set (map snd terminalEncodingOptions)"
    by (simp add: terminalEncodingOptions_def)
  then show ?thesis
    by (simp add: normalizeTerminalEncoding_def Let_def find_snd_case defaultAdvancedConfig_def del: set_map)
qed

lemma normalizeTerminalEncoding_fixed:
  "e \<in> set (map snd terminalEncodingOptions) \<Longrightarrow> normalizeTerminalEncoding (Some e) = e"
  by (simp add: normalizeTerminalEncoding_def Let_def find_snd_case terminalEncoding_clean del: set_map)

lemma normalizeTerminalEncoding_idem [simp]:
  "normalizeTerminalEncoding (Some (normalizeTerminalEncoding v)) = normalizeTerminalEncoding v"
  by (rule normalizeTerminalEncoding_fixed) (rule normalizeTerminalEncoding_option)

lemma normalizeX11_idem [simp]:
  "normalizeX11ForwardingConfig (Some (normalizeX11ForwardingConfig v)) = normalizeX11ForwardingConfig v"
  by (simp add: normalizeX11ForwardingConfig_def)

lemma normalize_advanced_idem [simp]: "normalize_advanced (Some (normalize_advanced i)) = normalize_advanced i"
  by (simp add: normalize_advanced_def Let_def)

lemma normalize_ssh_idem: "normalize_ssh (normalize_ssh i) = normalize_ssh i"
  by (simp add: normalize_ssh_def Let_def touched_def)
lemma normalize_desktop_idem: "normalize_desktop p n (normalize_desktop p n i) = normalize_desktop p n i"
  by (simp add: normalize_desktop_def Let_def touched_def)
lemma normalize_char_idem: "normalize_character p h n (normalize_character p h n i) = normalize_character p h n i"
  apply (simp add: normalize_character_def Let_def touched_def) done


lemma normalize_desktop_ignores [simp]:
  "normalize_desktop p n (j\<lparr>ci_rdp := r\<rparr>) = normalize_desktop p n j"
  "normalize_desktop p n (j\<lparr>ci_vnc := v\<rparr>) = normalize_desktop p n j"
  by (simp_all add: normalize_desktop_def Let_def cong: if_cong)

lemma normalize_desktop_fields [simp]:
  "ci_protocol (normalize_desktop p n i) = Some p"
  "ci_rdp (normalize_desktop p n i) = None" "ci_vnc (normalize_desktop p n i) = None"
  "ci_telnet (normalize_desktop p n i) = None" "ci_serial (normalize_desktop p n i) = None"
  by (simp_all add: normalize_desktop_def Let_def)

lemma normalize_character_keeps [simp]:
  "normalize_character p h n ((normalize_character q h' n' i)\<lparr>ci_telnet := t\<rparr>) = normalize_character p h n i"
  "normalize_character p h n ((normalize_character q h' n' i)\<lparr>ci_serial := s\<rparr>) = normalize_character p h n i"
  by (simp_all add: normalize_character_def)

lemma normalize_character_fields [simp]:
  "ci_protocol (normalize_character p h n i) = Some p"
  "ci_host (normalize_character p h n i) = h" "ci_port (normalize_character p h n i) = n"
  "ci_rdp (normalize_character p h n i) = None" "ci_vnc (normalize_character p h n i) = None"
  "ci_telnet (normalize_character p h n i) = None" "ci_serial (normalize_character p h n i) = None"
  by (simp_all add: normalize_character_def)

lemma normalize_ssh_fields [simp]:
  "ci_protocol (normalize_ssh i) = Some ProtoSsh"
  "ci_rdp (normalize_ssh i) = None" "ci_vnc (normalize_ssh i) = None"
  "ci_telnet (normalize_ssh i) = None" "ci_serial (normalize_ssh i) = None"
  by (simp_all add: normalize_ssh_def Let_def)

section \<open>Idempotence\<close>

text \<open>C31. Normalising a connection twice gives what normalising it once gives, for every protocol, every combination of absent fields and every platform.\<close>

theorem connection_normalization_idempotent:
  "normalizeConnectionInput plat (normalizeConnectionInput plat i) = normalizeConnectionInput plat i"
proof -
  have ssh: "normalizeConnectionInput plat (normalize_ssh i) = normalize_ssh i"
    by (simp add: normalizeConnectionInput_def normalize_ssh_idem)
  obtain n where n: "sc_port_name (normalizeSerialConfig (ci_serial i)) = Some n" "js_trim n = n"
    using serial_port_name by blast
  define m where "m = opt_str_or (Some n) (js_trim (ci_host i))"
  have m: "js_trim m = m" "opt_str_or (Some m) m = m"
    using n by (simp_all add: m_def opt_str_or_def str_or_def)
  show ?thesis
  proof (cases "ci_protocol i")
    case None
    then show ?thesis using ssh by (simp add: normalizeConnectionInput_def)
  next
    case (Some p)
    then show ?thesis
    proof (cases p)
      case ProtoSerial
      with Some n m show ?thesis
        by (simp add: normalizeConnectionInput_def Let_def flip: m_def)
    qed (use Some ssh in \<open>simp_all add: normalizeConnectionInput_def normalize_desktop_idem\<close>)
  qed
qed

section \<open>Well-formed results\<close>

text \<open>An optional text that is present is trimmed and not empty.\<close>

definition clean_opt :: "jsstr option \<Rightarrow> bool" where
  "clean_opt v \<longleftrightarrow> (case v of None \<Rightarrow> True | Some s \<Rightarrow> s \<noteq> [] \<and> js_trim s = s)"

lemma clean_opt_trim [simp]: "clean_opt (trim_opt v)"
  by (auto simp: clean_opt_def trim_opt_def opt_truthy_def split: option.splits)

lemma clean_opt_None [simp]: "clean_opt None"
  by (simp add: clean_opt_def)

lemma clean_opt_if [simp]: "clean_opt (if b then v else w) = (if b then clean_opt v else clean_opt w)"
  by simp

text \<open>The texts of a connection that may be absent: its own, those of the proxy, and those of the RDP and VNC configurations.\<close>

definition proxy_texts :: "proxy_config \<Rightarrow> jsstr option list" where
  "proxy_texts p = [px_host p, px_username p, px_password p]"

definition rdp_texts :: "rdp_config \<Rightarrow> jsstr option list" where
  "rdp_texts r = [rc_domain r, rc_raw_rdp_settings r, rc_raw_runner_args r, Option.bind (rc_gateway r) rg_host,
     Option.bind (rc_remote_app r) ra_program, Option.bind (rc_remote_app r) ra_working_dir, Option.bind (rc_remote_app r) ra_args,
     Option.bind (rc_runner r) rn_custom_executable, Option.bind (rc_runner r) rn_custom_args_template]"

definition vnc_texts :: "vnc_config \<Rightarrow> jsstr option list" where
  "vnc_texts v = [vc_raw_runner_args v, Option.bind (vc_runner v) vn_custom_executable, Option.bind (vc_runner v) vn_custom_args_template]"

definition own_texts :: "connection_input \<Rightarrow> jsstr option list" where
  "own_texts j = map (\<lambda>f. f j) [ci_id, ci_source_connection_id, ci_name, ci_group, ci_notes, ci_last_connected_at,
     ci_credential_id, ci_inline_password, ci_inline_private_key_path, ci_inline_private_key_passphrase,
     ci_remote_os_id, ci_remote_os_name, ci_remote_os_version]"

definition optional_texts :: "connection_input \<Rightarrow> jsstr option list" where
  "optional_texts j = own_texts j @ case_option [] proxy_texts (ci_proxy j) @ case_option [] rdp_texts (ci_rdp j)
     @ case_option [] vnc_texts (ci_vnc j)"

text \<open>The texts that may be empty: host, user name, the connection jumped over, the serial port and the two of X11.\<close>

definition plain_texts :: "connection_input \<Rightarrow> jsstr list" where
  "plain_texts j = [ci_host j, ci_username j] @ List.map_filter (\<lambda>t. t)
     [Option.bind (ci_jump j) jc_jump_connection_id, Option.bind (ci_serial j) sc_port_name,
      Option.bind (Option.bind (ci_advanced j) ad_x11_forwarding) x11_display,
      Option.bind (Option.bind (ci_advanced j) ad_x11_forwarding) x11_xauth_path]"

text \<open>The parts of the claim that do not speak of the input.\<close>

definition stored_fields_ok :: "connection_input \<Rightarrow> bool" where
  "stored_fields_ok j \<longleftrightarrow>
     ((ci_rdp j \<noteq> None) \<longleftrightarrow> ci_protocol j = Some ProtoRdp)
     \<and> ((ci_vnc j \<noteq> None) \<longleftrightarrow> ci_protocol j = Some ProtoVnc)
     \<and> ((ci_telnet j \<noteq> None) \<longleftrightarrow> ci_protocol j = Some ProtoTelnet)
     \<and> ((ci_serial j \<noteq> None) \<longleftrightarrow> ci_protocol j = Some ProtoSerial)
     \<and> ci_credential_mode j \<noteq> None \<and> ci_proxy j \<noteq> None \<and> ci_jump j \<noteq> None
     \<and> ci_auth_kind j = None \<and> ci_password j = None
     \<and> ci_private_key_path j = None \<and> ci_private_key_passphrase j = None
     \<and> (\<exists>e. Option.bind (ci_advanced j) ad_terminal_encoding = Some e
            \<and> e \<in> set (map snd terminalEncodingOptions))"

definition stored_well_formed :: "connection_input \<Rightarrow> bool" where
  "stored_well_formed j \<longleftrightarrow> stored_fields_ok j
     \<and> list_all clean_opt (optional_texts j) \<and> list_all (\<lambda>t. js_trim t = t) (plain_texts j)"

lemma default_encoding_option:
  "\<exists>e. ad_terminal_encoding defaultAdvancedConfig = Some e \<and> e \<in> set (map snd terminalEncodingOptions)"
  by (simp add: defaultAdvancedConfig_def terminalEncodingOptions_def)

lemma texts_none [simp]:
  "list_all clean_opt (proxy_texts no_proxy)" "jc_jump_connection_id no_jump = None"
  "\<forall>x. ad_x11_forwarding defaultAdvancedConfig = Some x \<longrightarrow> x11_display x = Some [] \<and> x11_xauth_path x = Some []"
  "\<exists>x. ad_x11_forwarding defaultAdvancedConfig = Some x"
  by (simp_all add: proxy_texts_def no_proxy_def no_jump_def defaultAdvancedConfig_def)

lemma texts_clean:
  "list_all clean_opt (proxy_texts (normalize_proxy p))" "list_all clean_opt (rdp_texts (normalizeRdpConfig plat r))"
  "list_all clean_opt (vnc_texts (normalizeVncConfig v))"
  by (simp_all add: proxy_texts_def normalize_proxy_def no_proxy_def rdp_texts_def normalizeRdpConfig_def vnc_texts_def
      normalizeVncConfig_def Let_def)

lemma trim_opt_trimmed: "trim_opt v = Some t \<Longrightarrow> js_trim t = t"
  by (auto simp: trim_opt_def opt_truthy_def split: option.splits if_splits)

lemma jump_trimmed: "jc_jump_connection_id (normalizeJumpConfig input) = Some t \<Longrightarrow> js_trim t = t"
  by (auto simp: normalizeJumpConfig_def split: if_splits option.splits)

lemma x11_trimmed:
  "x11_display (normalizeX11ForwardingConfig x) = Some t \<Longrightarrow> js_trim t = t"
  "x11_xauth_path (normalizeX11ForwardingConfig x) = Some t \<Longrightarrow> js_trim t = t"
  by (auto simp: normalizeX11ForwardingConfig_def trim_opt_trimmed)

lemma own_clean: "list_all clean_opt (own_texts (normalize_desktop p n i))"
  "list_all clean_opt (own_texts (normalize_character p h q i))" "list_all clean_opt (own_texts (normalize_ssh i))"
  by (simp_all add: own_texts_def normalize_desktop_def normalize_character_def normalize_ssh_def Let_def)

lemma own_same [simp]:
  "own_texts (j\<lparr>ci_rdp := r\<rparr>) = own_texts j" "own_texts (j\<lparr>ci_vnc := v\<rparr>) = own_texts j"
  "own_texts (j\<lparr>ci_telnet := t\<rparr>) = own_texts j" "own_texts (j\<lparr>ci_serial := s\<rparr>) = own_texts j"
  by (simp_all add: own_texts_def)

lemma plain_trimmed:
  "t \<in> set (plain_texts (normalize_desktop p n i)) \<Longrightarrow> js_trim t = t"
  "js_trim h = h \<Longrightarrow> t \<in> set (plain_texts (normalize_character p h q i)) \<Longrightarrow> js_trim t = t"
  "t \<in> set (plain_texts (normalize_ssh i)) \<Longrightarrow> js_trim t = t"
  using jump_trimmed x11_trimmed
  by (auto simp: plain_texts_def normalize_desktop_def normalize_character_def normalize_ssh_def Let_def List.map_filter_def
      no_jump_def defaultAdvancedConfig_def normalize_advanced_def split: if_splits)

lemma plain_same [simp]:
  "plain_texts (j\<lparr>ci_rdp := r\<rparr>) = plain_texts j" "plain_texts (j\<lparr>ci_vnc := v\<rparr>) = plain_texts j"
  "plain_texts (j\<lparr>ci_telnet := t\<rparr>) = plain_texts j"
  by (simp_all add: plain_texts_def)

lemma plain_serial: "t \<in> set (plain_texts (j\<lparr>ci_serial := Some s\<rparr>)) \<Longrightarrow> t \<in> set (plain_texts j) \<or> sc_port_name s = Some t"
  by (auto simp: plain_texts_def List.map_filter_def split: if_splits)

lemma fields_ok:
  "stored_fields_ok ((normalize_desktop ProtoRdp n i)\<lparr>ci_rdp := Some r\<rparr>)"
  "stored_fields_ok ((normalize_desktop ProtoVnc n i)\<lparr>ci_vnc := Some v\<rparr>)"
  "stored_fields_ok ((normalize_character ProtoTelnet h q i)\<lparr>ci_telnet := Some t\<rparr>)"
  "stored_fields_ok ((normalize_character ProtoSerial h q i)\<lparr>ci_serial := Some s\<rparr>)"
  "stored_fields_ok (normalize_ssh i)"
  using default_encoding_option normalizeTerminalEncoding_option
  by (simp_all add: stored_fields_ok_def normalize_desktop_def normalize_character_def normalize_ssh_def normalize_advanced_def
      Let_def del: set_map)

lemma proxies:
  "ci_proxy (normalize_desktop p n i) = Some no_proxy" "ci_proxy (normalize_character p h q i) = Some no_proxy"
  "ci_proxy (normalize_ssh i) = Some (normalize_proxy (ci_proxy i))"
  by (simp_all add: normalize_desktop_def normalize_character_def normalize_ssh_def Let_def)

lemma optional_ok:
  "list_all clean_opt (optional_texts ((normalize_desktop p n i)\<lparr>ci_rdp := Some (normalizeRdpConfig plat r)\<rparr>))"
  "list_all clean_opt (optional_texts ((normalize_desktop p n i)\<lparr>ci_vnc := Some (normalizeVncConfig v)\<rparr>))"
  "list_all clean_opt (optional_texts ((normalize_character p h q i)\<lparr>ci_telnet := t\<rparr>))"
  "list_all clean_opt (optional_texts ((normalize_character p h q i)\<lparr>ci_serial := s\<rparr>))"
  "list_all clean_opt (optional_texts (normalize_ssh i))"
  by (simp_all add: optional_texts_def proxies own_clean texts_clean)

lemma plain_ok:
  "list_all (\<lambda>t. js_trim t = t) (plain_texts (normalize_desktop p n i))"
  "js_trim h = h \<Longrightarrow> list_all (\<lambda>t. js_trim t = t) (plain_texts (normalize_character p h q i))"
  "list_all (\<lambda>t. js_trim t = t) (plain_texts (normalize_ssh i))"
  unfolding list_all_iff
  by (rule ballI, erule plain_trimmed(1)) (rule ballI, erule (1) plain_trimmed(2), rule ballI, erule plain_trimmed(3))

lemma plain_serial_ok:
  assumes "js_trim h = h" "sc_port_name s = Some m" "js_trim m = m"
  shows "list_all (\<lambda>t. js_trim t = t) (plain_texts ((normalize_character p h q i)\<lparr>ci_serial := Some s\<rparr>))"
  unfolding list_all_iff
proof
  fix t assume "t \<in> set (plain_texts ((normalize_character p h q i)\<lparr>ci_serial := Some s\<rparr>))"
  from plain_serial [OF this] show "js_trim t = t" using plain_trimmed(2) [OF assms(1)] assms(2,3) by auto
qed

lemma well_formed:
  "stored_well_formed ((normalize_desktop ProtoRdp n i)\<lparr>ci_rdp := Some (normalizeRdpConfig plat r)\<rparr>)"
  "stored_well_formed ((normalize_desktop ProtoVnc n i)\<lparr>ci_vnc := Some (normalizeVncConfig v)\<rparr>)"
  "js_trim h = h \<Longrightarrow> stored_well_formed ((normalize_character ProtoTelnet h q i)\<lparr>ci_telnet := Some t\<rparr>)"
  "js_trim h = h \<Longrightarrow> sc_port_name s = Some m \<Longrightarrow> js_trim m = m \<Longrightarrow>
     stored_well_formed ((normalize_character ProtoSerial h q i)\<lparr>ci_serial := Some s\<rparr>)"
  "stored_well_formed (normalize_ssh i)"
  by (simp_all add: stored_well_formed_def fields_ok optional_ok plain_ok plain_serial_ok)


section \<open>Secrets\<close>

lemma touched_trim: "touched t v = (t = Some True \<or> (t = None \<and> v \<noteq> None))"
  by (auto simp: touched_def split: option.splits)

lemma desktop_password:
  "ci_inline_password ((normalize_desktop p n i)) =
     (if ci_credential_mode (normalize_desktop p n i) = Some CredInline
         \<and> ci_inline_password_touched (normalize_desktop p n i) = Some True
      then trim_opt (str_or_opt (ci_inline_password i) (ci_password i)) else None)"
  by (simp add: normalize_desktop_def Let_def)

text \<open>C22. A password is stored only for inline credentials by password and only when it was touched, a passphrase and a key path only for inline credentials by key, a saved credential only in that mode; and a stored secret is the one given, trimmed.\<close>

theorem stored_secrets_confined:
  fixes plat :: platform and i :: connection_input
  defines "j \<equiv> normalizeConnectionInput plat i"
  shows "(ci_inline_password j \<noteq> None \<longrightarrow>
            ci_credential_mode j = Some CredInline \<and> ci_inline_auth_kind j = Some AuthPassword
            \<and> ci_inline_password_touched j = Some True
            \<and> ci_inline_password j = trim_opt (str_or_opt (ci_inline_password i) (ci_password i)))
       \<and> (ci_inline_private_key_passphrase j \<noteq> None \<longrightarrow>
            ci_protocol j = Some ProtoSsh
            \<and> ci_credential_mode j = Some CredInline \<and> ci_inline_auth_kind j = Some AuthPrivateKey
            \<and> ci_inline_private_key_passphrase_touched j = Some True
            \<and> ci_inline_private_key_passphrase j
                = trim_opt (str_or_opt (ci_inline_private_key_passphrase i) (ci_private_key_passphrase i)))
       \<and> (ci_inline_private_key_path j \<noteq> None \<longrightarrow>
            ci_credential_mode j = Some CredInline \<and> ci_inline_auth_kind j = Some AuthPrivateKey)
       \<and> (ci_credential_id j \<noteq> None \<longrightarrow> ci_credential_mode j = Some CredSaved)
       \<and> (ci_inline_auth_kind j \<noteq> None \<longleftrightarrow> ci_credential_mode j = Some CredInline)"
proof -
  have ssh: ?thesis if "j = normalize_ssh i"
    unfolding that by (auto simp add: normalize_ssh_def Let_def touched_trim simp del: not_None_eq)
  have desktop: ?thesis if "j = (normalize_desktop p n i)\<lparr>ci_rdp := r, ci_vnc := v\<rparr>" for p n r v
    unfolding that by (simp add: normalize_desktop_def Let_def)
  have character: ?thesis if "j = (normalize_character p h n i)\<lparr>ci_telnet := t, ci_serial := s\<rparr>" for p h n t s
    unfolding that by (simp add: normalize_character_def)
  show ?thesis
  proof (cases "ci_protocol i")
    case None
    then show ?thesis by (intro ssh) (simp add: j_def normalizeConnectionInput_def)
  next
    case (Some p)
    show ?thesis
    proof (cases p)
      case ProtoSsh
      with Some show ?thesis by (intro ssh) (simp add: j_def normalizeConnectionInput_def)
    next
      case ProtoRdp
      with Some show ?thesis
        by (intro desktop [where p = ProtoRdp and n = 3389 and r = "Some (normalizeRdpConfig plat (ci_rdp i))" and v = None])
          (simp add: j_def normalizeConnectionInput_def)
    next
      case ProtoVnc
      with Some show ?thesis
        by (intro desktop [where p = ProtoVnc and n = 5900 and r = None and v = "Some (normalizeVncConfig (ci_vnc i))"])
          (simp add: j_def normalizeConnectionInput_def)
    next
      case ProtoTelnet
      with Some show ?thesis
        by (intro character [where p = ProtoTelnet and h = "js_trim (ci_host i)" and n = "num_or (ci_port i) (Num 23)"
              and t = "Some (normalizeTelnetConfig (ci_telnet i))" and s = None])
          (simp add: j_def normalizeConnectionInput_def)
    next
      case ProtoSerial
      define m where "m = opt_str_or (sc_port_name (normalizeSerialConfig (ci_serial i))) (js_trim (ci_host i))"
      from ProtoSerial Some show ?thesis
        by (intro character [where p = ProtoSerial and h = m and n = "Num 1" and t = None
              and s = "Some ((normalizeSerialConfig (ci_serial i))\<lparr>sc_port_name := Some m\<rparr>)"])
          (simp add: j_def m_def normalizeConnectionInput_def Let_def)
    qed
  qed
qed

text \<open>An SSH connection with a password that has spaces around it.\<close>

definition sample_input :: connection_input where
  "sample_input =
     \<lparr>ci_id = None, ci_source_connection_id = None, ci_protocol = None, ci_name = None, ci_group = None,
      ci_host = js ''h'', ci_port = NaN, ci_username = js ''root'', ci_credential_mode = Some CredInline,
      ci_credential_id = Some (js ''c''), ci_inline_auth_kind = Some AuthPassword,
      ci_inline_password = Some (js '' pw ''), ci_inline_password_touched = None,
      ci_inline_private_key_path = Some (js ''k''), ci_inline_private_key_passphrase = None,
      ci_inline_private_key_passphrase_touched = None, ci_prompt_auth_kind = None, ci_proxy = None,
      ci_jump = None, ci_advanced = None, ci_rdp = None, ci_vnc = None, ci_telnet = None, ci_serial = None,
      ci_notes = None, ci_is_favorite = None, ci_last_connected_at = None, ci_remote_os_id = None,
      ci_remote_os_name = None, ci_remote_os_version = None, ci_auth_kind = None, ci_password = None,
      ci_private_key_path = None, ci_private_key_passphrase = None\<rparr>"

lemma sample_password:
  "ci_inline_password (normalizeConnectionInput plat sample_input) = Some (js ''pw'')"
  by (simp add: sample_input_def normalizeConnectionInput_def normalize_ssh_def Let_def touched_def
    trim_opt_def str_or_opt_def opt_truthy_def js_trim_def js_trim_start_def js_trim_end_def js_def is_ws_def)

theorem stored_secrets_confined_witness:
  "ci_inline_auth_kind (normalizeConnectionInput PlatLinux sample_input) = Some AuthPassword
   \<and> ci_inline_password_touched (normalizeConnectionInput PlatLinux sample_input) = Some True"
  using stored_secrets_confined [of PlatLinux sample_input] sample_password by simp

section \<open>VNC levels\<close>

lemma clampVnc_Num: "clampVncPerformanceLevel (Num a) = Num (min 9 (max 0 a))"
  by (simp add: clampVncPerformanceLevel_def num_max_def num_min_def min_def max_def)

lemma clampVnc_range:
  "l \<noteq> NaN \<Longrightarrow> \<exists>r. clampVncPerformanceLevel l = Num r \<and> 0 \<le> r \<and> r \<le> 9"
  using num_clamp_range [of l 0 9] unfolding clampVncPerformanceLevel_def num_clamp_def
  by (metis zero_le_numeral)

lemma preset_range:
  "0 \<le> fst (vncPerformancePresetDefaults d) \<and> fst (vncPerformancePresetDefaults d) \<le> 9
   \<and> 0 \<le> snd (vncPerformancePresetDefaults d) \<and> snd (vncPerformancePresetDefaults d) \<le> 9"
  by (cases d) (simp_all add: vncPerformancePresetDefaults_def)

definition level_ok :: "jsnum \<Rightarrow> bool" where
  "level_ok l \<longleftrightarrow> (\<exists>r. l = Num r \<and> 0 \<le> r \<and> r \<le> 9)"

lemma level_ok_Num [simp]: "level_ok (Num r) \<longleftrightarrow> 0 \<le> r \<and> r \<le> 9"
  by (simp add: level_ok_def)

lemma level_ok_simps:
  "0 \<le> fst (vncPerformancePresetDefaults d)" "fst (vncPerformancePresetDefaults d) \<le> 9"
  "0 \<le> snd (vncPerformancePresetDefaults d)" "snd (vncPerformancePresetDefaults d) \<le> 9"
  "l \<noteq> NaN \<Longrightarrow> level_ok (clampVncPerformanceLevel l)"
  using preset_range [of d] clampVnc_range [of l] by (simp_all add: level_ok_def)

lemma clampVnc_idem: "clampVncPerformanceLevel (clampVncPerformanceLevel l) = clampVncPerformanceLevel l"
  using num_clamp_idem [of 0 9 l] by (simp add: clampVncPerformanceLevel_def num_clamp_def)

text \<open>The two levels handed to a VNC client lie between 0 and 9 whatever the configuration holds, unless a given level is NaN; and normalising the configuration does not change levels that are given.\<close>

theorem vnc_levels:
  assumes "vp_quality_level p \<noteq> Some NaN" "vp_compression_level p \<noteq> Some NaN"
  shows "level_ok (fst (resolveVncPerformanceLevels p)) \<and> level_ok (snd (resolveVncPerformanceLevels p))
    \<and> (vp_quality_level p \<noteq> None \<and> vp_compression_level p \<noteq> None \<and> vp_preset p \<noteq> None
       \<and> vc_performance v = Some p \<longrightarrow>
       map_option resolveVncPerformanceLevels (vc_performance (normalizeVncConfig (Some v)))
         = Some (resolveVncPerformanceLevels p))"
proof -
  have "level_ok (fst (resolveVncPerformanceLevels p)) \<and> level_ok (snd (resolveVncPerformanceLevels p))"
    using assms by (auto simp: resolveVncPerformanceLevels_def Let_def level_ok_simps split: option.splits)
  moreover have "map_option resolveVncPerformanceLevels (vc_performance (normalizeVncConfig (Some v)))
         = Some (resolveVncPerformanceLevels p)"
    if "vp_quality_level p = Some q" "vp_compression_level p = Some c" "vp_preset p = Some r"
      "vc_performance v = Some p" for q c r
    using that clampVnc_idem
    by (simp add: normalizeVncConfig_def Let_def resolveVncPerformanceLevels_def vnc_level_def
      flip: clampVncPerformanceLevel_def)
  ultimately show ?thesis by auto
qed

lemma vnc_levels_witness:
  "fst (resolveVncPerformanceLevels \<lparr>vp_preset = Some VncQuality, vp_quality_level = Some (Num 12),
      vp_compression_level = Some (Num 3)\<rparr>) = Num 3
   \<and> level_ok (snd (resolveVncPerformanceLevels \<lparr>vp_preset = Some VncQuality, vp_quality_level = Some (Num 12),
      vp_compression_level = Some (Num 3)\<rparr>))"
  using vnc_levels [of "\<lparr>vp_preset = Some VncQuality, vp_quality_level = Some (Num 12),
      vp_compression_level = Some (Num 3)\<rparr>"]
  by (simp add: resolveVncPerformanceLevels_def Let_def clampVnc_Num)

text \<open>A preset without levels: the configuration stored has the levels of the automatic preset.\<close>

lemma vnc_preset_levels_lost:
  assumes "vc_performance v = Some \<lparr>vp_preset = Some VncLowBandwidth, vp_quality_level = None,
      vp_compression_level = None\<rparr>"
  shows "map_option resolveVncPerformanceLevels (vc_performance v) = Some (Num 6, Num 4)"
    and "map_option resolveVncPerformanceLevels (vc_performance (normalizeVncConfig (Some v))) = Some (Num 0, Num 7)"
  using assms
  by (simp_all add: normalizeVncConfig_def Let_def resolveVncPerformanceLevels_def vnc_level_def
    vncPerformancePresetDefaults_def defaultVncConfig_def clampVnc_Num)

end
