(* ===== verification/Connection_Store.thy ===== *)
theory Connection_Store
  imports Connection_Laws
begin

text \<open>
  The lists of connections and of saved credentials that the interface keeps:
  \<open>src/features/connections/useConnections.ts\<close> and \<open>useCredentials.ts\<close>. An operation that asks the
  backend is split at its \<open>await\<close>: what the backend returned is an argument. Without the Tauri
  runtime the operations work on demonstration data. What \<open>setFavorite\<close> and \<open>markConnected\<close>
  return, and \<open>formatError\<close> on values that are not strings, are not modelled.
\<close>

section \<open>Lists of records with an identifier\<close>

text \<open>\<open>items.find((item) => item.id === id)\<close>, the \<open>map\<close> that replaces an item, the \<open>upsert\<close> of the two
  hooks and the \<open>filter\<close> that removes.\<close>

definition lookup_by :: "('a \<Rightarrow> jsstr) \<Rightarrow> 'a list \<Rightarrow> jsstr \<Rightarrow> 'a option" where
  "lookup_by key items k = List.find (\<lambda>item. key item = k) items"

definition replace_by :: "('a \<Rightarrow> jsstr) \<Rightarrow> 'a \<Rightarrow> 'a list \<Rightarrow> 'a list" where
  "replace_by key x items = map (\<lambda>item. if key item = key x then x else item) items"

definition upsert_by :: "('a \<Rightarrow> jsstr) \<Rightarrow> 'a \<Rightarrow> 'a list \<Rightarrow> 'a list" where
  "upsert_by key x items = (if lookup_by key items (key x) = None then items @ [x] else replace_by key x items)"

definition remove_by :: "('a \<Rightarrow> jsstr) \<Rightarrow> jsstr \<Rightarrow> 'a list \<Rightarrow> 'a list" where
  "remove_by key k items = filter (\<lambda>item. key item \<noteq> k) items"

lemma lookup_by_simps [simp]:
  "lookup_by key [] k = None"
  "lookup_by key (x # xs) k = (if key x = k then Some x else lookup_by key xs k)"
  by (simp_all add: lookup_by_def)

lemma lookup_by_None: "lookup_by key xs k = None \<longleftrightarrow> k \<notin> key ` set xs"
  by (induction xs) auto

lemma lookup_by_append: "lookup_by key (xs @ ys) k = (case lookup_by key xs k of None \<Rightarrow> lookup_by key ys k | Some x \<Rightarrow> Some x)"
  by (induction xs) auto

lemma keys_replace_by [simp]: "map key (replace_by key x xs) = map key xs"
  by (simp add: replace_by_def)

lemma lookup_replace_by:
  "lookup_by key (replace_by key x xs) k =
     (if k = key x \<and> lookup_by key xs k \<noteq> None then Some x else lookup_by key xs k)"
  by (induction xs) (auto simp: replace_by_def)

lemma keys_upsert_by:
  "map key (upsert_by key x xs) = (if key x \<in> key ` set xs then map key xs else map key xs @ [key x])"
  by (simp add: upsert_by_def lookup_by_None)

lemma lookup_upsert_by: "lookup_by key (upsert_by key x xs) k = (if k = key x then Some x else lookup_by key xs k)"
  by (auto simp: upsert_by_def lookup_replace_by lookup_by_append split: option.split)

lemma distinct_upsert_by: "distinct (map key xs) \<Longrightarrow> distinct (map key (upsert_by key x xs))"
  by (auto simp: keys_upsert_by)

lemma keys_remove_by: "map key (remove_by key k xs) = filter (\<lambda>i. i \<noteq> k) (map key xs)"
  by (simp add: remove_by_def filter_map comp_def)

lemma lookup_remove_by: "lookup_by key (remove_by key k xs) k' = (if k' = k then None else lookup_by key xs k')"
  by (induction xs) (auto simp: remove_by_def)

lemma distinct_remove_by: "distinct (map key xs) \<Longrightarrow> distinct (map key (remove_by key k xs))"
  by (simp add: keys_remove_by)

section \<open>The contract of a list of profiles\<close>

text \<open>Clients see a finite map from identifiers to profiles whose keys stay in the order of arrival.\<close>

datatype 'a list_op = PutProfile 'a | DropProfile jsstr

fun run_ops :: "('a \<Rightarrow> 'a list \<Rightarrow> 'a list) \<Rightarrow> (jsstr \<Rightarrow> 'a list \<Rightarrow> 'a list) \<Rightarrow> 'a list_op list \<Rightarrow> 'a list \<Rightarrow> 'a list" where
  "run_ops put drop_key [] xs = xs"
| "run_ops put drop_key (PutProfile x # ops) xs = run_ops put drop_key ops (put x xs)"
| "run_ops put drop_key (DropProfile k # ops) xs = run_ops put drop_key ops (drop_key k xs)"

fun spec_ops :: "('a \<Rightarrow> jsstr) \<Rightarrow> 'a list_op list \<Rightarrow> (jsstr \<Rightarrow> 'a option) \<Rightarrow> (jsstr \<Rightarrow> 'a option)" where
  "spec_ops key [] m = m"
| "spec_ops key (PutProfile x # ops) m = spec_ops key ops (m(key x := Some x))"
| "spec_ops key (DropProfile k # ops) m = spec_ops key ops (m(k := None))"

locale profile_list =
  fixes key :: "'a \<Rightarrow> jsstr"
    and put :: "'a \<Rightarrow> 'a list \<Rightarrow> 'a list"
    and drop_key :: "jsstr \<Rightarrow> 'a list \<Rightarrow> 'a list"
  assumes lookup_put: "lookup_by key (put x xs) = (lookup_by key xs)(key x := Some x)"
    and lookup_drop: "lookup_by key (drop_key k xs) = (lookup_by key xs)(k := None)"
    and distinct_put: "distinct (map key xs) \<Longrightarrow> distinct (map key (put x xs))"
    and distinct_drop: "distinct (map key xs) \<Longrightarrow> distinct (map key (drop_key k xs))"
begin

lemma run_refines: "lookup_by key (run_ops put drop_key ops xs) = spec_ops key ops (lookup_by key xs)"
proof (induction ops arbitrary: xs)
  case (Cons op ops)
  then show ?case by (cases op) (simp_all add: lookup_put lookup_drop fun_upd_def)
qed simp

lemma run_distinct: "distinct (map key xs) \<Longrightarrow> distinct (map key (run_ops put drop_key ops xs))"
proof (induction ops arbitrary: xs)
  case (Cons op ops)
  then show ?case by (cases op) (simp_all add: distinct_put distinct_drop)
qed simp

lemma run_set:
  "distinct (map key xs) \<Longrightarrow>
   x \<in> set (run_ops put drop_key ops xs) \<longleftrightarrow> spec_ops key ops (lookup_by key xs) (key x) = Some x"
proof -
  assume d: "distinct (map key xs)"
  have "x \<in> set ys \<longleftrightarrow> lookup_by key ys (key x) = Some x" if "distinct (map key ys)" for ys
    using that by (induction ys) (auto simp: lookup_by_None rev_image_eqI)
  from this [OF run_distinct [OF d]] show ?thesis by (simp add: run_refines)
qed

end

section \<open>Connections\<close>

text \<open>A demonstration profile: the fields its entries share.\<close>

definition demo_profile ::
  "jsstr \<Rightarrow> jsstr \<Rightarrow> protocol \<Rightarrow> jsstr \<Rightarrow> rat \<Rightarrow> jsstr \<Rightarrow> jsstr \<Rightarrow> credential_mode \<Rightarrow> jsstr \<Rightarrow> bool \<Rightarrow> connection_profile" where
  "demo_profile i name proto host port user grp mode notes favorite =
     \<lparr>cp_id = i, cp_name = name, cp_protocol = Some proto, cp_group = Some grp, cp_host = host,
      cp_port = Num port, cp_username = user, cp_credential_mode = Some mode, cp_credential_id = None,
      cp_inline_auth_kind = None, cp_inline_password = None, cp_inline_private_key_path = None,
      cp_inline_private_key_passphrase = None, cp_prompt_auth_kind = None,
      cp_proxy = Some defaultProxyConfig, cp_jump = Some defaultJumpConfig,
      cp_advanced = Some defaultAdvancedConfig, cp_rdp = None, cp_vnc = None, cp_telnet = None,
      cp_serial = None, cp_notes = Some notes, cp_is_favorite = favorite,
      cp_last_connected_at = Some (js ''demo''), cp_remote_os_id = None, cp_remote_os_name = None,
      cp_remote_os_version = None, cp_created_at = js ''demo'', cp_updated_at = js ''demo'',
      cp_auth_kind = None, cp_password = None, cp_private_key_path = None, cp_private_key_passphrase = None\<rparr>"

definition demoConnections :: "connection_profile list" where
  "demoConnections =
     [(demo_profile (js ''demo-dev-core'') [24320, 21457, 29615, 22659, 32, 47, 32, 97, 112, 112] ProtoSsh (js ''203.0.113.70'') 22 (js ''root'')
        [24320, 21457, 29615, 22659] CredInline [24320, 21457, 32, 25910, 34255, 32, 107, 56, 115] True)
        \<lparr>cp_inline_auth_kind := Some AuthPassword, cp_inline_password := Some []\<rparr>,
      (demo_profile (js ''demo-test-web'') [27979, 35797, 29615, 22659, 32, 47, 32, 119, 101, 98] ProtoSsh (js ''203.0.113.131'') 22 (js ''root'')
        [27979, 35797, 29615, 22659] CredInline [27979, 35797, 32, 113, 97] False)
        \<lparr>cp_inline_auth_kind := Some AuthPassword, cp_inline_password := Some []\<rparr>,
      (demo_profile (js ''demo-bastion'') [29983, 20135, 36339, 26495] ProtoSsh (js ''203.0.113.33'') 22 (js ''root'')
        [29983, 20135, 29615, 22659] CredInline [36339, 26495, 32, 116, 97, 105, 108, 115, 99, 97, 108, 101, 32, 98, 97, 115, 116, 105, 111, 110] False)
        \<lparr>cp_inline_auth_kind := Some AuthPrivateKey, cp_inline_private_key_path := Some (js ''~/.ssh/id_ed25519''),
          cp_inline_private_key_passphrase := Some []\<rparr>,
      (demo_profile (js ''demo-cloud-ubuntu'') [20113, 20027, 26426, 32, 47, 32, 117, 98, 117, 110, 116, 117] ProtoSsh (js ''198.51.100.24'') 22 (js ''ubuntu'')
        [20113, 20027, 26426] CredInline [20113, 32, 97, 119, 115] False)
        \<lparr>cp_inline_auth_kind := Some AuthPrivateKey, cp_inline_private_key_path := Some (js ''~/.ssh/cloud.pem''),
          cp_inline_private_key_passphrase := Some [],
          cp_jump := Some \<lparr>jc_kind = JumpSsh, jc_jump_connection_id = Some (js ''demo-bastion'')\<rparr>\<rparr>,
      (demo_profile (js ''demo-dev-k8s'') (js ''dev-k8s-node2'') ProtoSsh (js ''203.0.113.16'') 22 (js ''root'')
        [24320, 21457, 29615, 22659] CredPrompt [24320, 21457, 32, 107, 56, 115, 32, 112, 114, 101, 118, 105, 101, 119] False)\<lparr>cp_prompt_auth_kind := Some AuthPassword\<rparr>,
      (demo_profile (js ''demo-rdp-win'') [21150, 20844, 32, 87, 105, 110, 100, 111, 119, 115] ProtoRdp (js ''198.51.100.45'') 3389 (js ''administrator'')
        [29983, 20135, 29615, 22659] CredPrompt (js ''rdp windows desktop'') True)\<lparr>cp_rdp := Some defaultRdpConfig\<rparr>,
      (demo_profile (js ''demo-vnc-linux'') [76, 105, 110, 117, 120, 32, 22270, 24418, 26700, 38754] ProtoVnc (js ''198.51.100.88'') 5900 (js ''vncuser'')
        [29983, 20135, 29615, 22659] CredPrompt (js ''vnc desktop'') False)\<lparr>cp_vnc := Some defaultVncConfig\<rparr>,
      (demo_profile (js ''demo-stage'') [39044, 21457, 29615, 22659, 32, 47, 32, 115, 116, 97, 103, 101] ProtoSsh (js ''198.51.100.78'') 22 (js ''deploy'')
        [39044, 21457, 29615, 22659] CredInline [115, 116, 97, 103, 101, 32, 27979, 35797] False)
        \<lparr>cp_inline_auth_kind := Some AuthPassword, cp_inline_password := Some []\<rparr>]"

text \<open>\<open>defaultConnectionName\<close>; \<open>fstr\<close> prints a port that is not an integer.\<close>

definition defaultConnectionName :: "(rat \<Rightarrow> jsstr) \<Rightarrow> connection_input \<Rightarrow> jsstr" where
  "defaultConnectionName fstr i =
     (if ci_protocol i = Some ProtoTelnet then
        js ''Telnet '' @ js_trim (ci_host i) @ js '':'' @ num_to_string fstr (ci_port i)
      else if ci_protocol i = Some ProtoSerial then
        [20018, 21475, 32] @ js_trim (opt_str_or (Option.bind (ci_serial i) sc_port_name) (ci_host i))
      else js_trim (ci_username i) @ js ''@'' @ js_trim (ci_host i))"

text \<open>The profile \<open>upsert\<close> builds from a normalised input when there is no backend, at the time \<open>clock\<close>.\<close>

definition preview_profile :: "(rat \<Rightarrow> jsstr) \<Rightarrow> nat \<Rightarrow> connection_input \<Rightarrow> connection_profile" where
  "preview_profile fstr clock n =
     \<lparr>cp_id = opt_str_or (ci_id n) (js ''preview-'' @ dec_digits clock),
      cp_name = opt_str_or (ci_name n) (defaultConnectionName fstr n),
      cp_protocol = ci_protocol n, cp_group = ci_group n, cp_host = ci_host n, cp_port = ci_port n,
      cp_username = ci_username n, cp_credential_mode = ci_credential_mode n,
      cp_credential_id = ci_credential_id n, cp_inline_auth_kind = ci_inline_auth_kind n,
      cp_inline_password = ci_inline_password n,
      cp_inline_private_key_path = ci_inline_private_key_path n,
      cp_inline_private_key_passphrase = ci_inline_private_key_passphrase n,
      cp_prompt_auth_kind = ci_prompt_auth_kind n,
      cp_proxy = ci_proxy n, cp_jump = ci_jump n, cp_advanced = ci_advanced n, cp_rdp = ci_rdp n,
      cp_vnc = ci_vnc n, cp_telnet = ci_telnet n, cp_serial = ci_serial n, cp_notes = ci_notes n,
      cp_is_favorite = flag (ci_is_favorite n),
      cp_last_connected_at = opt_truthy (ci_last_connected_at n),
      cp_remote_os_id = ci_remote_os_id n, cp_remote_os_name = ci_remote_os_name n,
      cp_remote_os_version = ci_remote_os_version n,
      cp_created_at = js ''preview'', cp_updated_at = js ''preview'',
      cp_auth_kind = ci_auth_kind n, cp_password = ci_password n,
      cp_private_key_path = ci_private_key_path n,
      cp_private_key_passphrase = ci_private_key_passphrase n\<rparr>"

record connections_state =
  cs_connections :: "connection_profile list"
  cs_loading :: bool
  cs_error :: "jsstr option"

definition connections_init :: connections_state where
  "connections_init = \<lparr>cs_connections = [], cs_loading = True, cs_error = None\<rparr>"

text \<open>\<open>reload\<close> up to its \<open>await\<close>, and after it.\<close>

definition connections_reload :: "bool \<Rightarrow> bool \<Rightarrow> connections_state \<Rightarrow> connections_state" where
  "connections_reload enabled isTauri s =
     (if \<not> enabled then s\<lparr>cs_connections := [], cs_loading := False, cs_error := None\<rparr>
      else if \<not> isTauri then s\<lparr>cs_connections := demoConnections, cs_loading := False, cs_error := None\<rparr>
      else s\<lparr>cs_loading := True, cs_error := None\<rparr>)"

definition connections_reloaded :: "jsstr + connection_profile list \<Rightarrow> connections_state \<Rightarrow> connections_state" where
  "connections_reloaded res s =
     (case res of Inr items \<Rightarrow> s\<lparr>cs_connections := items, cs_loading := False\<rparr>
      | Inl e \<Rightarrow> s\<lparr>cs_error := Some e, cs_loading := False\<rparr>)"

definition connection_upsert :: "connection_profile \<Rightarrow> connections_state \<Rightarrow> connections_state" where
  "connection_upsert p s = s\<lparr>cs_connections := upsert_by cp_id p (cs_connections s)\<rparr>"

text \<open>\<open>upsert\<close> without a backend.\<close>

definition connection_upsert_preview ::
  "(rat \<Rightarrow> jsstr) \<Rightarrow> nat \<Rightarrow> platform \<Rightarrow> connection_input \<Rightarrow> connections_state \<Rightarrow> connections_state" where
  "connection_upsert_preview fstr clock plat input s =
     connection_upsert (preview_profile fstr clock (normalizeConnectionInput plat input)) s"

text \<open>After \<open>connectionSetFavorite\<close>, \<open>connectionMarkConnected\<close> and \<open>connectionProbeSystem\<close>.\<close>

definition connection_replace :: "connection_profile \<Rightarrow> connections_state \<Rightarrow> connections_state" where
  "connection_replace p s = s\<lparr>cs_connections := replace_by cp_id p (cs_connections s)\<rparr>"

definition setFavorite_preview :: "jsstr \<Rightarrow> bool \<Rightarrow> jsstr \<Rightarrow> connections_state \<Rightarrow> connections_state" where
  "setFavorite_preview i isFavorite now s =
     s\<lparr>cs_connections := map (\<lambda>item. if cp_id item \<noteq> i then item
          else item\<lparr>cp_is_favorite := isFavorite, cp_updated_at := now\<rparr>) (cs_connections s)\<rparr>"

definition markConnected_preview :: "jsstr \<Rightarrow> jsstr \<Rightarrow> connections_state \<Rightarrow> connections_state" where
  "markConnected_preview i now s =
     s\<lparr>cs_connections := map (\<lambda>item. if cp_id item \<noteq> i then item
          else item\<lparr>cp_last_connected_at := Some now\<rparr>) (cs_connections s)\<rparr>"

definition connection_remove :: "jsstr \<Rightarrow> connections_state \<Rightarrow> connections_state" where
  "connection_remove i s = s\<lparr>cs_connections := remove_by cp_id i (cs_connections s)\<rparr>"

interpretation connection_list: profile_list cp_id "upsert_by cp_id" "remove_by cp_id"
  by unfold_locales (auto simp: lookup_upsert_by lookup_remove_by distinct_upsert_by distinct_remove_by)

section \<open>Saved credentials\<close>

definition normalizeCredentialInput :: "credential_input \<Rightarrow> credential_input" where
  "normalizeCredentialInput i =
     (let password = trim_opt (cri_password i);
          privateKeyPassphrase = trim_opt (cri_private_key_passphrase i);
          passwordTouched = touched (cri_password_touched i) password;
          privateKeyPassphraseTouched = touched (cri_private_key_passphrase_touched i) privateKeyPassphrase
      in \<lparr>cri_id = trim_opt (cri_id i),
          cri_name = trim_opt (cri_name i),
          cri_username = trim_opt (cri_username i),
          cri_kind = cri_kind i,
          cri_password = (if cri_kind i = AuthPassword \<and> passwordTouched then password else None),
          cri_password_touched = Some (if cri_kind i = AuthPassword then passwordTouched else False),
          cri_private_key_path = (if cri_kind i = AuthPrivateKey then trim_opt (cri_private_key_path i) else None),
          cri_private_key_passphrase =
            (if cri_kind i = AuthPrivateKey \<and> privateKeyPassphraseTouched then privateKeyPassphrase else None),
          cri_private_key_passphrase_touched =
            Some (if cri_kind i = AuthPrivateKey then privateKeyPassphraseTouched else False),
          cri_notes = trim_opt (cri_notes i)\<rparr>)"

definition defaultCredentialName :: "credential_input \<Rightarrow> jsstr" where
  "defaultCredentialName i =
     (if cri_kind i = AuthPrivateKey then js ''SSH '' @ [31169, 38053, 36134, 21495]
      else js ''SSH '' @ [23494, 30721, 36134, 21495])"

definition demoCredentials :: "credential_profile list" where
  "demoCredentials =
     [\<lparr>cr_id = js ''demo-credential-root-password'', cr_name = [114, 111, 111, 116, 32, 23494, 30721, 36134, 21495],
       cr_username = Some (js ''root''), cr_kind = AuthPassword, cr_password = Some [],
       cr_private_key_path = None, cr_private_key_passphrase = None, cr_notes = Some [39044, 35272, 36134, 21495],
       cr_created_at = js ''demo'', cr_updated_at = js ''demo''\<rparr>,
      \<lparr>cr_id = js ''demo-credential-cloud-key'', cr_name = [20113, 20027, 26426, 31169, 38053, 36134, 21495],
       cr_username = Some (js ''deploy''), cr_kind = AuthPrivateKey, cr_password = None,
       cr_private_key_path = Some (js ''~/.ssh/cloud.pem''), cr_private_key_passphrase = Some [],
       cr_notes = Some [39044, 35272, 36134, 21495], cr_created_at = js ''demo'', cr_updated_at = js ''demo''\<rparr>]"

definition preview_credential :: "nat \<Rightarrow> credential_input \<Rightarrow> credential_profile" where
  "preview_credential clock n =
     \<lparr>cr_id = opt_str_or (cri_id n) (js ''preview-credential-'' @ dec_digits clock),
      cr_name = opt_str_or (cri_name n) (defaultCredentialName n),
      cr_username = cri_username n, cr_kind = cri_kind n, cr_password = cri_password n,
      cr_private_key_path = cri_private_key_path n,
      cr_private_key_passphrase = cri_private_key_passphrase n, cr_notes = cri_notes n,
      cr_created_at = js ''preview'', cr_updated_at = js ''preview''\<rparr>"

record credentials_state =
  crs_credentials :: "credential_profile list"
  crs_loading :: bool
  crs_error :: "jsstr option"

definition credentials_init :: credentials_state where
  "credentials_init = \<lparr>crs_credentials = [], crs_loading = True, crs_error = None\<rparr>"

definition credentials_reload :: "bool \<Rightarrow> bool \<Rightarrow> credentials_state \<Rightarrow> credentials_state" where
  "credentials_reload enabled isTauri s =
     (if \<not> enabled then s\<lparr>crs_credentials := [], crs_loading := False, crs_error := None\<rparr>
      else if \<not> isTauri then s\<lparr>crs_credentials := demoCredentials, crs_loading := False, crs_error := None\<rparr>
      else s\<lparr>crs_loading := True, crs_error := None\<rparr>)"

definition credentials_reloaded :: "jsstr + credential_profile list \<Rightarrow> credentials_state \<Rightarrow> credentials_state" where
  "credentials_reloaded res s =
     (case res of Inr items \<Rightarrow> s\<lparr>crs_credentials := items, crs_loading := False\<rparr>
      | Inl e \<Rightarrow> s\<lparr>crs_error := Some e, crs_loading := False\<rparr>)"

definition upsertLocal :: "credential_profile list \<Rightarrow> credential_profile \<Rightarrow> credential_profile list" where
  "upsertLocal items profile = upsert_by cr_id profile items"

definition credential_upsert :: "credential_profile \<Rightarrow> credentials_state \<Rightarrow> credentials_state" where
  "credential_upsert p s = s\<lparr>crs_credentials := upsertLocal (crs_credentials s) p\<rparr>"

definition credential_upsert_preview :: "nat \<Rightarrow> credential_input \<Rightarrow> credentials_state \<Rightarrow> credentials_state" where
  "credential_upsert_preview clock input s =
     credential_upsert (preview_credential clock (normalizeCredentialInput input)) s"

definition credential_remove :: "jsstr \<Rightarrow> credentials_state \<Rightarrow> credentials_state" where
  "credential_remove i s = s\<lparr>crs_credentials := remove_by cr_id i (crs_credentials s)\<rparr>"

interpretation credential_list: profile_list cr_id "\<lambda>p items. upsertLocal items p" "remove_by cr_id"
  by unfold_locales
    (auto simp: upsertLocal_def lookup_upsert_by lookup_remove_by distinct_upsert_by distinct_remove_by)

section \<open>The states the two hooks reach\<close>

text \<open>The backend's lists have no two profiles with one identifier.\<close>

inductive conn_step :: "connections_state \<Rightarrow> connections_state \<Rightarrow> bool" where
  conn_reload: "conn_step s (connections_reload enabled isTauri s)"
| conn_loaded: "distinct (map cp_id items) \<Longrightarrow> conn_step s (connections_reloaded (Inr items) s)"
| conn_load_failed: "conn_step s (connections_reloaded (Inl e) s)"
| conn_upsert: "conn_step s (connection_upsert p s)"
| conn_upsert_preview: "conn_step s (connection_upsert_preview fstr clock plat input s)"
| conn_replace: "conn_step s (connection_replace p s)"
| conn_favorite: "conn_step s (setFavorite_preview i b now s)"
| conn_marked: "conn_step s (markConnected_preview i now s)"
| conn_remove: "conn_step s (connection_remove i s)"

inductive conn_reachable :: "connections_state \<Rightarrow> bool" where
  conn_start: "conn_reachable connections_init"
| conn_next: "conn_reachable s \<Longrightarrow> conn_step s t \<Longrightarrow> conn_reachable t"

inductive_cases conn_stepE: "conn_step s t"

lemma demo_ids: "distinct (map cp_id demoConnections)" "distinct (map cr_id demoCredentials)"
  by (simp_all add: demoConnections_def demo_profile_def demoCredentials_def)

lemma conn_step_distinct:
  assumes "conn_step s t" "distinct (map cp_id (cs_connections s))"
  shows "distinct (map cp_id (cs_connections t))"
proof -
  have fav: "map cp_id (cs_connections (setFavorite_preview i b now s)) = map cp_id (cs_connections s)"
    "map cp_id (cs_connections (markConnected_preview i now s)) = map cp_id (cs_connections s)" for i b now
    by (simp_all add: setFavorite_preview_def markConnected_preview_def)
  from assms show ?thesis
    by cases
      (simp_all add: fav connections_reload_def connections_reloaded_def connection_upsert_def
        connection_upsert_preview_def connection_replace_def connection_remove_def demo_ids
        distinct_upsert_by distinct_remove_by del: map_map)
qed

lemma conn_reachable_distinct: "conn_reachable s \<Longrightarrow> distinct (map cp_id (cs_connections s))"
  by (induction rule: conn_reachable.induct)
    (simp add: connections_init_def, rule conn_step_distinct)

text \<open>C24. The list of connections behaves as a finite map: in every reachable state no two connections share an identifier, and any further sequence of additions, replacements and removals of profiles gives the list that looks up as the map updated the same way.\<close>

theorem connection_list_refines_map:
  assumes "conn_reachable s"
  shows "distinct (map cp_id (run_ops (upsert_by cp_id) (remove_by cp_id) ops (cs_connections s)))
    \<and> lookup_by cp_id (run_ops (upsert_by cp_id) (remove_by cp_id) ops (cs_connections s))
        = spec_ops cp_id ops (lookup_by cp_id (cs_connections s))
    \<and> set (run_ops (upsert_by cp_id) (remove_by cp_id) ops (cs_connections s))
        = ran (spec_ops cp_id ops (lookup_by cp_id (cs_connections s)))"
proof -
  note d = conn_reachable_distinct [OF assms]
  have r: "ran (lookup_by cp_id xs) = set xs" if "distinct (map cp_id xs)" for xs :: "connection_profile list"
  proof -
    have "lookup_by cp_id xs k = Some x \<longleftrightarrow> x \<in> set xs \<and> cp_id x = k" for k x
      using that by (induction xs) (auto simp: lookup_by_None)
    then show ?thesis by (auto simp: ran_def)
  qed
  show ?thesis
    using connection_list.run_distinct [OF d] r [OF connection_list.run_distinct [OF d], of ops]
    by (simp add: connection_list.run_refines)
qed

theorem connection_list_refines_map_witness:
  "lookup_by cp_id (run_ops (upsert_by cp_id) (remove_by cp_id) [DropProfile (js ''demo-bastion'')] demoConnections)
     (js ''demo-bastion'') = None"
proof -
  have "conn_reachable (connections_reload True False connections_init)"
    by (rule conn_next [OF conn_start conn_reload])
  from connection_list_refines_map [OF this, of "[DropProfile (js ''demo-bastion'')]"] show ?thesis
    by (simp add: connections_reload_def del: run_ops.simps)
qed

text \<open>A saved credential keeps the secret of its own kind only, and only when it was touched; normalising twice changes nothing; and the list of credentials behaves as a finite map with unique identifiers.\<close>

theorem credentials_confined:
  fixes i :: credential_input
  defines "j \<equiv> normalizeCredentialInput i"
  shows "normalizeCredentialInput j = j
    \<and> (cri_password j \<noteq> None \<longrightarrow> cri_kind j = AuthPassword \<and> cri_password_touched j = Some True
         \<and> cri_password j = trim_opt (cri_password i))
    \<and> (cri_private_key_path j \<noteq> None \<or> cri_private_key_passphrase j \<noteq> None \<longrightarrow> cri_kind j = AuthPrivateKey)
    \<and> (cri_private_key_passphrase j \<noteq> None \<longrightarrow> cri_private_key_passphrase_touched j = Some True)
    \<and> (distinct (map cr_id cs) \<longrightarrow>
         distinct (map cr_id (run_ops (\<lambda>p items. upsertLocal items p) (remove_by cr_id) ops cs))
         \<and> lookup_by cr_id (run_ops (\<lambda>p items. upsertLocal items p) (remove_by cr_id) ops cs)
             = spec_ops cr_id ops (lookup_by cr_id cs))"
proof -
  have "normalizeCredentialInput j = j"
    unfolding j_def by (simp add: normalizeCredentialInput_def Let_def touched_def)
  moreover have "(cri_password j \<noteq> None \<longrightarrow> cri_kind j = AuthPassword \<and> cri_password_touched j = Some True
         \<and> cri_password j = trim_opt (cri_password i))
    \<and> (cri_private_key_path j \<noteq> None \<or> cri_private_key_passphrase j \<noteq> None \<longrightarrow> cri_kind j = AuthPrivateKey)
    \<and> (cri_private_key_passphrase j \<noteq> None \<longrightarrow> cri_private_key_passphrase_touched j = Some True)"
    unfolding j_def by (simp add: normalizeCredentialInput_def Let_def)
  ultimately show ?thesis
    using credential_list.run_distinct credential_list.run_refines by blast
qed

theorem credentials_confined_witness:
  "distinct (map cr_id (run_ops (\<lambda>p items. upsertLocal items p) (remove_by cr_id) [DropProfile []] demoCredentials))"
  using credentials_confined [of _ demoCredentials "[DropProfile []]"] demo_ids by blast

end
