(* ===== verification/Connection_Search.thy ===== *)
theory Connection_Search
  imports Connection_Store Js_Sort Js_Pattern
begin

text \<open>
  Searching connections: \<open>src/features/connections/connectionSearch.ts\<close>. The time of the search
  \<open>now\<close>, \<open>Date.parse\<close> (\<open>parse_date\<close>, absent where it gives NaN), the locale's comparison of names
  \<open>cmp\<close> and the text of a fraction \<open>fstr\<close> are the fields of an environment. \<open>Date.now()\<close> is the
  same for all comparisons of one search.
\<close>

record search_env =
  se_now :: rat
  se_parse_date :: "jsstr \<Rightarrow> rat option"
  se_cmp :: "jsstr \<Rightarrow> jsstr \<Rightarrow> bool"
  se_fstr :: "rat \<Rightarrow> jsstr"

section \<open>Terms of a query\<close>

definition normalizeConnectionSearchTerms :: "jsstr \<Rightarrow> jsstr list" where
  "normalizeConnectionSearchTerms query = filter (\<lambda>w. w \<noteq> []) (split_ws (js_lower (js_trim query)))"

section \<open>Order of connections\<close>

text \<open>\<open>Number\<close> of a numeral: from half a unit above the greatest double on it is infinite.\<close>

definition numeral_finite :: "nat \<Rightarrow> bool" where
  "numeral_finite n \<longleftrightarrow> n < 2 ^ 1024 - 2 ^ 970"

definition connectionTimestampOf :: "search_env \<Rightarrow> jsstr option \<Rightarrow> rat" where
  "connectionTimestampOf env value =
     (case trim_opt value of
        None \<Rightarrow> 0
      | Some trimmed \<Rightarrow>
          (let normalized = js_lower trimmed
           in if normalized = js ''demo'' \<or> normalized = js ''preview'' then se_now env
              else if list_all is_digit_unit normalized then
                (let numeric = dec_value normalized
                 in if \<not> numeral_finite numeric then 0
                    else if numeric < 1000000000000 then of_nat numeric * 1000 else of_nat numeric)
              else (case se_parse_date env trimmed of Some t \<Rightarrow> t | None \<Rightarrow> 0)))"

text \<open>\<open>sortConnectionsByRecent(left, right) > 0\<close>.\<close>

definition recent_gt :: "search_env \<Rightarrow> connection_profile \<Rightarrow> connection_profile \<Rightarrow> bool" where
  "recent_gt env =
     lex_gt (key_gt (\<lambda>c. - connectionTimestampOf env (cp_last_connected_at c)))
       (lex_gt (key_gt (\<lambda>c. - connectionTimestampOf env (Some (cp_created_at c))))
          (\<lambda>a b. se_cmp env (cp_name a) (cp_name b)))"

section \<open>Entries\<close>

record search_entry =
  en_address :: jsstr
  en_connection :: connection_profile
  en_groupLabel :: jsstr
  en_metaLabel :: jsstr
  en_score :: nat

record search_fields =
  sf_address :: jsstr
  sf_groupLabel :: jsstr
  sf_metaLabel :: jsstr
  sf_name :: jsstr
  sf_searchText :: jsstr

definition middle_dot :: jsstr where \<comment> \<open>a middle dot between two spaces\<close>
  "middle_dot = [32, 183, 32]"

definition formatConnectionAddress :: "(rat \<Rightarrow> jsstr) \<Rightarrow> connection_profile \<Rightarrow> jsstr" where
  "formatConnectionAddress fstr c =
     (let address = cp_username c @ js ''@'' @ cp_host c @ js '':'' @ num_to_string fstr (cp_port c)
      in case cp_protocol c of
           Some ProtoRdp \<Rightarrow> js ''RDP'' @ middle_dot @ address
         | Some ProtoVnc \<Rightarrow> js ''VNC'' @ middle_dot @ address
         | Some ProtoTelnet \<Rightarrow> js ''Telnet'' @ middle_dot @ cp_host c @ js '':'' @ num_to_string fstr (cp_port c)
         | Some ProtoSerial \<Rightarrow> [20018, 21475] @ middle_dot @ opt_str_or (Option.bind (cp_serial c) sc_port_name) (cp_host c)
         | _ \<Rightarrow> address)"

definition protocol_name :: "protocol \<Rightarrow> jsstr" where
  "protocol_name p =
     (case p of ProtoSsh \<Rightarrow> js ''ssh'' | ProtoRdp \<Rightarrow> js ''rdp'' | ProtoVnc \<Rightarrow> js ''vnc''
      | ProtoTelnet \<Rightarrow> js ''telnet'' | ProtoSerial \<Rightarrow> js ''serial'')"

definition opt_text :: "jsstr option \<Rightarrow> jsstr" where
  "opt_text v = (case v of Some t \<Rightarrow> t | None \<Rightarrow> [])"

definition nonempty :: "jsstr list \<Rightarrow> jsstr list" where
  "nonempty ws = filter (\<lambda>w. w \<noteq> []) ws"

definition buildConnectionSearchFields :: "(rat \<Rightarrow> jsstr) \<Rightarrow> connection_profile \<Rightarrow> search_fields" where
  "buildConnectionSearchFields fstr c =
     (let address = formatConnectionAddress fstr c;
          groupLabel = (case trim_opt (cp_group c) of Some g \<Rightarrow> g | None \<Rightarrow> [26410, 20998, 32452]);
          systemLabel = js_join [32] (nonempty
            [opt_text (map_option js_trim (cp_remote_os_name c)), opt_text (map_option js_trim (cp_remote_os_version c))]);
          metaLabel = js_join middle_dot (nonempty [groupLabel, systemLabel]);
          name = js_trim (cp_name c);
          searchText = js_lower (js_join [10]
            [name, protocol_name (case cp_protocol c of Some p \<Rightarrow> p | None \<Rightarrow> ProtoSsh), cp_host c,
             num_to_string fstr (cp_port c), cp_username c, address, groupLabel, opt_text (cp_notes c),
             opt_text (cp_remote_os_id c), opt_text (cp_remote_os_name c), opt_text (cp_remote_os_version c)])
      in \<lparr>sf_address = address, sf_groupLabel = groupLabel, sf_metaLabel = metaLabel, sf_name = name,
          sf_searchText = searchText\<rparr>)"

definition term_score :: "connection_profile \<Rightarrow> search_fields \<Rightarrow> jsstr \<Rightarrow> nat" where
  "term_score c sfs t =
     (let name = js_lower (sf_name sfs); host = js_lower (cp_host c); address = js_lower (sf_address sfs);
          username = js_lower (cp_username c); grp = js_lower (sf_groupLabel sfs);
          notes = js_lower (opt_text (cp_notes c));
          system = js_lower (js_join [32]
            [opt_text (cp_remote_os_id c), opt_text (cp_remote_os_name c), opt_text (cp_remote_os_version c)])
      in if prefix t name then 120 else if sublist t name then 90 else if sublist t host then 70
         else if sublist t address then 65 else if sublist t username then 50 else if sublist t grp then 45
         else if sublist t notes then 25 else if sublist t system then 20 else 0)"

definition scoreConnectionSearchResult :: "connection_profile \<Rightarrow> search_fields \<Rightarrow> jsstr list \<Rightarrow> nat" where
  "scoreConnectionSearchResult c sfs terms =
     (if terms = [] then (if cp_is_favorite c then 1 else 0)
      else foldl (\<lambda>score t. score + term_score c sfs t) (if cp_is_favorite c then 6 else 0) terms)"

definition buildConnectionSearchEntry ::
  "(rat \<Rightarrow> jsstr) \<Rightarrow> jsstr list \<Rightarrow> connection_profile \<Rightarrow> search_entry option" where
  "buildConnectionSearchEntry fstr terms c =
     (let sfs = buildConnectionSearchFields fstr c
      in if \<not> list_all (\<lambda>t. sublist t (sf_searchText sfs)) terms then None
         else Some \<lparr>en_address = sf_address sfs, en_connection = c, en_groupLabel = sf_groupLabel sfs,
                    en_metaLabel = sf_metaLabel sfs,
                    en_score = scoreConnectionSearchResult c sfs terms\<rparr>)"

definition entry_gt :: "search_env \<Rightarrow> bool \<Rightarrow> search_entry \<Rightarrow> search_entry \<Rightarrow> bool" where
  "entry_gt env hasQuery =
     (if hasQuery
      then lex_gt (key_gt (\<lambda>e. - int (en_score e))) (\<lambda>a b. recent_gt env (en_connection a) (en_connection b))
      else (\<lambda>a b. recent_gt env (en_connection a) (en_connection b)))"

definition defaultConnectionSearchLimit :: nat where
  "defaultConnectionSearchLimit = 50"

definition buildConnectionSearchEntries ::
  "search_env \<Rightarrow> connection_profile list \<Rightarrow> jsstr \<Rightarrow> nat \<Rightarrow> search_entry list" where
  "buildConnectionSearchEntries env connections query limit =
     (let terms = normalizeConnectionSearchTerms query
      in take limit (js_sort (entry_gt env (terms \<noteq> []))
           (List.map_filter (buildConnectionSearchEntry (se_fstr env) terms) connections)))"

section \<open>Lemmas\<close>

lemma split_ws_clean: "w \<in> set (split_ws s) \<Longrightarrow> \<forall>c\<in>set w. \<not> is_ws c"
proof (induction s arbitrary: w rule: split_ws.induct)
  case (2 c s)
  show ?case
  proof (cases "is_ws c")
    case True
    with 2 show ?thesis by auto
  next
    case False
    from False "2.prems" obtain v where "v \<in> set (split_ws s) \<and> w = c # v \<or> w \<in> set (split_ws s) \<or> w = [c]"
      by (cases "split_ws s") auto
    with False 2(2) show ?thesis by auto
  qed
qed simp

lemma terms_clean:
  "t \<in> set (normalizeConnectionSearchTerms q) \<Longrightarrow> t \<noteq> [] \<and> (\<forall>c\<in>set t. \<not> is_ws c)"
  by (auto simp: normalizeConnectionSearchTerms_def dest: split_ws_clean)

lemma js_comparator_on:
  assumes "js_comparator g"
  shows "js_comparator (\<lambda>a b. g (f a) (f b))"
  using assms unfolding js_comparator_def by blast

lemma recent_comparator: "js_comparator (se_cmp env) \<Longrightarrow> js_comparator (recent_gt env)"
  unfolding recent_gt_def
  by (rule js_comparator_lex [OF js_comparator_key js_comparator_lex [OF js_comparator_key js_comparator_on]])

lemma entry_comparator: "js_comparator (se_cmp env) \<Longrightarrow> js_comparator (entry_gt env b)"
proof (cases b)
  case True
  then show "js_comparator (se_cmp env) \<Longrightarrow> js_comparator (entry_gt env b)"
    by (simp add: entry_gt_def js_comparator_lex [OF js_comparator_key js_comparator_on] recent_comparator)
next
  case False
  then show "js_comparator (se_cmp env) \<Longrightarrow> js_comparator (entry_gt env b)"
    using js_comparator_on [of "recent_gt env" en_connection] by (simp add: entry_gt_def recent_comparator)
qed

lemma foldl_scores: "foldl (\<lambda>score t. score + f t) (a::nat) ts = a + sum_list (map f ts)"
  by (induction ts arbitrary: a) auto

lemma entry_Some_iff:
  "buildConnectionSearchEntry fstr terms c = Some e \<longleftrightarrow>
     (\<forall>t\<in>set terms. sublist t (sf_searchText (buildConnectionSearchFields fstr c)))
     \<and> e = \<lparr>en_address = formatConnectionAddress fstr c, en_connection = c,
            en_groupLabel = sf_groupLabel (buildConnectionSearchFields fstr c),
            en_metaLabel = sf_metaLabel (buildConnectionSearchFields fstr c),
            en_score = scoreConnectionSearchResult c (buildConnectionSearchFields fstr c) terms\<rparr>"
  by (auto simp: buildConnectionSearchEntry_def Let_def list_all_iff buildConnectionSearchFields_def)

lemma map_filter_connections:
  "map en_connection (List.map_filter (buildConnectionSearchEntry fstr terms) cs)
     = filter (\<lambda>c. \<forall>t\<in>set terms. sublist t (sf_searchText (buildConnectionSearchFields fstr c))) cs"
  by (induction cs) (auto simp: buildConnectionSearchEntry_def Let_def list_all_iff map_filter_simps)

text \<open>What a search without a limit finds.\<close>

definition matches :: "search_env \<Rightarrow> jsstr \<Rightarrow> connection_profile \<Rightarrow> bool" where
  "matches env query c \<longleftrightarrow>
     (\<forall>t\<in>set (normalizeConnectionSearchTerms query).
        sublist t (sf_searchText (buildConnectionSearchFields (se_fstr env) c)))"

lemma matches_filter:
  "mset (map en_connection (js_sort g (List.map_filter (buildConnectionSearchEntry (se_fstr env)
      (normalizeConnectionSearchTerms query)) cs))) = mset (filter (matches env query) cs)"
  unfolding mset_map mset_js_sort
  by (simp add: matches_def [abs_def] flip: mset_map map_filter_connections)

text \<open>C35. A search returns at most as many connections as asked, all of them connections whose text contains every term of the query; with room for all matching connections it returns each of them exactly as often as the list holds it; the results are ordered by score, then by the last use, by creation and by name, and what is cut off never goes before what is kept.\<close>

theorem connection_search_correct:
  assumes "js_comparator (se_cmp env)"
  shows "(let rs = buildConnectionSearchEntries env cs query limit;
              gt = entry_gt env (normalizeConnectionSearchTerms query \<noteq> []);
              found = filter (matches env query) cs
          in length rs = min limit (length found)
             \<and> mset (map en_connection rs) \<subseteq># mset found
             \<and> (length found \<le> limit \<longrightarrow> mset (map en_connection rs) = mset found)
             \<and> sorted_wrt (\<lambda>a b. \<not> gt a b) rs
             \<and> (\<forall>c\<in>#mset found - mset (map en_connection rs).
                  \<exists>e. buildConnectionSearchEntry (se_fstr env) (normalizeConnectionSearchTerms query) c = Some e
                      \<and> (\<forall>r\<in>set rs. \<not> gt r e)))"
proof -
  define terms where "terms = normalizeConnectionSearchTerms query"
  define gt where "gt = entry_gt env (terms \<noteq> [])"
  define es where "es = js_sort gt (List.map_filter (buildConnectionSearchEntry (se_fstr env) terms) cs)"
  have rs: "buildConnectionSearchEntries env cs query limit = take limit es"
    by (simp add: buildConnectionSearchEntries_def Let_def es_def gt_def terms_def)
  have m: "mset (map en_connection es) = mset (filter (matches env query) cs)"
    unfolding es_def terms_def by (rule matches_filter)
  have len: "length es = length (filter (matches env query) cs)"
    using arg_cong [OF m, of size] by (metis length_map size_mset)
  have s: "sorted_wrt (\<lambda>a b. \<not> gt a b) es"
    unfolding es_def gt_def
    by (rule js_comparator.sorted_js_sort) (rule entry_comparator [OF assms])
  have parts: "mset (map en_connection (take limit es)) + mset (map en_connection (drop limit es))
      = mset (filter (matches env query) cs)"
    unfolding m [symmetric] by (metis append_take_drop_id map_append mset_append)
  have cut: "\<exists>e. buildConnectionSearchEntry (se_fstr env) terms c = Some e \<and> (\<forall>r\<in>set (take limit es). \<not> gt r e)"
    if "c \<in># mset (map en_connection (drop limit es))" for c
  proof -
    from that obtain e where e: "e \<in> set (drop limit es)" "en_connection e = c" by auto
    then have "e \<in> set es" by (meson in_set_dropD)
    then obtain d where d: "buildConnectionSearchEntry (se_fstr env) terms d = Some e"
      unfolding es_def by (auto simp: map_filter_def)
    then have "d = c" using e by (auto simp: entry_Some_iff)
    moreover have "\<not> gt r e" if "r \<in> set (take limit es)" for r
      using s that e by (metis append_take_drop_id sorted_wrt_append)
    ultimately show ?thesis using d by blast
  qed
  have rest: "mset (filter (matches env query) cs) - mset (map en_connection (take limit es))
      = mset (map en_connection (drop limit es))"
    unfolding parts [symmetric] by simp
  have sub: "mset (map en_connection (take limit es)) \<subseteq># mset (filter (matches env query) cs)"
    unfolding parts [symmetric] by simp
  have all: "mset (map en_connection (take limit es)) = mset (filter (matches env query) cs)"
    if "length (filter (matches env query) cs) \<le> limit"
    using that len m by simp
  have "length (take limit es) = min limit (length (filter (matches env query) cs))"
    using len by simp
  then show ?thesis
    unfolding Let_def rs terms_def [symmetric] gt_def [symmetric]
    using rest sub all cut sorted_wrt_take [OF s] by (simp del: mset_map mset_filter)
qed

lemma connection_search_correct_witness:
  "length (buildConnectionSearchEntries
      \<lparr>se_now = 0, se_parse_date = (\<lambda>_. None), se_cmp = (\<lambda>a b. length b < length a), se_fstr = (\<lambda>_. [])\<rparr>
      demoConnections [] 3) = 3"
proof -
  define env where
    "env = \<lparr>se_now = 0, se_parse_date = (\<lambda>_::jsstr. None), se_cmp = (\<lambda>a b::jsstr. length b < length a),
            se_fstr = (\<lambda>_::rat. [])\<rparr>"
  have c: "js_comparator (se_cmp env)" by unfold_locales (auto simp: env_def)
  have "filter (matches env []) demoConnections = demoConnections"
    by (simp add: matches_def normalizeConnectionSearchTerms_def js_lower_def)
  moreover have "length demoConnections = 8" by (simp add: demoConnections_def)
  ultimately show ?thesis
    using connection_search_correct [OF c, of demoConnections "[]" 3] by (simp add: Let_def env_def)
qed

end
