(* ===== verification/Connect_Step.thy ===== *)
theory Connect_Step
  imports Connection_Steps Shell_Errors
begin

text \<open>
  One connection attempt as the page shows it, from \<open>src/features/layout/WorkspaceShell.tsx\<close>: the state of
  the steps, what the page derives from it (the current step, the state and label of every item, titles) and
  the credentials an attempt hands to the backend.
\<close>

section \<open>Connections\<close>

definition connection_protocol :: "connection_profile \<Rightarrow> protocol" where
  "connection_protocol c = (case cp_protocol c of Some p \<Rightarrow> p | None \<Rightarrow> ProtoSsh)"

definition isRdpConnection :: "connection_profile option \<Rightarrow> bool" where
  "isRdpConnection c \<longleftrightarrow> map_option connection_protocol c = Some ProtoRdp"

definition isVncConnection :: "connection_profile option \<Rightarrow> bool" where
  "isVncConnection c \<longleftrightarrow> map_option connection_protocol c = Some ProtoVnc"

definition isTelnetConnection :: "connection_profile option \<Rightarrow> bool" where
  "isTelnetConnection c \<longleftrightarrow> map_option connection_protocol c = Some ProtoTelnet"

definition isSerialConnection :: "connection_profile option \<Rightarrow> bool" where
  "isSerialConnection c \<longleftrightarrow> map_option connection_protocol c = Some ProtoSerial"

text \<open>\<open>show_num\<close> is \<open>toString\<close> of a number.\<close>

definition shell_connection_address :: "(jsnum \<Rightarrow> jsstr) \<Rightarrow> connection_profile \<Rightarrow> jsstr" where
  "shell_connection_address show_num c =
     (if connection_protocol c = ProtoTelnet then cp_host c @ js '':'' @ show_num (cp_port c)
      else if connection_protocol c = ProtoSerial
      then opt_str_or (Option.bind (cp_serial c) sc_port_name) (cp_host c)
      else cp_username c @ js ''@'' @ cp_host c @ js '':'' @ show_num (cp_port c))"

section \<open>The state of an attempt\<close>

datatype step_mode = ModeTest | ModeTerminal
datatype step_status = StepIdle | StepRunning | StepWaitingHostKey | StepPrompt | StepSuccess | StepError

record connection_step =
  cs_progressStage :: "jsstr option"
  cs_activeStepIndex :: "nat option"
  cs_authKind :: auth_kind
  cs_connection :: connection_profile
  cs_errorDetail :: "step_error_detail option"
  cs_error :: "jsstr option"
  cs_hostKey :: "json option"
  cs_hostKeyDecision :: "host_key_decision option"
  cs_oldHostKeyFingerprint :: "jsstr option"
  cs_id :: nat
  cs_logs :: "jsstr list"
  cs_mode :: step_mode
  cs_password :: jsstr
  cs_privateKeyPassphrase :: jsstr
  cs_privateKeyPath :: jsstr
  cs_sessionId :: "jsstr option"
  cs_status :: step_status

definition resetConnectionStepForRetry :: "connection_step \<Rightarrow> connection_step" where
  "resetConnectionStepForRetry step = step\<lparr>cs_activeStepIndex := Some 1, cs_progressStage := None, cs_error := None,
     cs_errorDetail := None, cs_hostKey := None, cs_hostKeyDecision := None,
     cs_logs := (case cs_logs step of line # _ \<Rightarrow> if line = [] then [] else [line] | [] \<Rightarrow> []),
     cs_oldHostKeyFingerprint := None, cs_sessionId := None, cs_status := StepIdle\<rparr>"

record runtime_credentials =
  rc_auth_kind :: "auth_kind option"
  rc_connection_id :: jsstr
  rc_password :: "jsstr option"
  rc_private_key_passphrase :: "jsstr option"
  rc_private_key_path :: "jsstr option"

definition runtimeCredentialRequest :: "connection_step \<Rightarrow> runtime_credentials" where
  "runtimeCredentialRequest step =
     \<lparr>rc_auth_kind = (if cp_credential_mode (cs_connection step) = Some CredPrompt then Some (cs_authKind step) else None),
      rc_connection_id = cp_id (cs_connection step),
      rc_password = (if cs_authKind step = AuthPassword then opt_truthy (Some (cs_password step)) else None),
      rc_private_key_passphrase =
        (if cs_authKind step = AuthPrivateKey then opt_truthy (Some (cs_privateKeyPassphrase step)) else None),
      rc_private_key_path =
        (if cs_authKind step = AuthPrivateKey then opt_truthy (Some (cs_privateKeyPath step)) else None)\<rparr>"

section \<open>The page of an attempt\<close>

definition clampConnectionStepIndex :: "nat \<Rightarrow> nat" where
  "clampConnectionStepIndex index = min index 4"

definition currentConnectionStepIndex :: "connection_step \<Rightarrow> nat" where
  "currentConnectionStepIndex step =
     (case cs_status step of
        StepSuccess \<Rightarrow> 4
      | StepWaitingHostKey \<Rightarrow> 2
      | StepPrompt \<Rightarrow> 3
      | StepError \<Rightarrow> connectionStepErrorIndex (case cs_errorDetail step of Some d \<Rightarrow> sd_code d | None \<Rightarrow> [])
      | status \<Rightarrow>
          (case cs_activeStepIndex step of
             Some i \<Rightarrow> if status = StepRunning then clampConnectionStepIndex i else min (max (length (cs_logs step) - 1) 1) 4
           | None \<Rightarrow> min (max (length (cs_logs step) - 1) 1) 4))"

datatype item_state = ItemActive | ItemDone | ItemError | ItemPending

definition connectionStepItemState :: "connection_step \<Rightarrow> nat \<Rightarrow> nat \<Rightarrow> item_state" where
  "connectionStepItemState step index activeStepIndex =
     (if cs_status step = StepSuccess \<or> index < activeStepIndex then ItemDone
      else if cs_status step = StepError \<and> index = activeStepIndex then ItemError
      else if index = activeStepIndex then ItemActive
      else ItemPending)"

definition connectionStepAuthDescription :: "connection_step \<Rightarrow> jsstr" where
  "connectionStepAuthDescription step =
     (let c = cs_connection step;
          authKind = (if cp_credential_mode c = Some CredPrompt then cs_authKind step
            else case cp_inline_auth_kind c of Some k \<Rightarrow> k
                 | None \<Rightarrow> (case cp_auth_kind c of Some k \<Rightarrow> k | None \<Rightarrow> cs_authKind step))
      in if cp_credential_mode c = Some CredPrompt
         then (if authKind = AuthPrivateKey
           then [20351, 29992, 26412, 27425, 36755, 20837, 30340, 32, 83, 83, 72, 32, 23494, 38053] \<comment> \<open>the SSH key entered this time\<close>
           else [20351, 29992, 26412, 27425, 36755, 20837, 30340, 32, 83, 83, 72, 32, 23494, 30721]) \<comment> \<open>the SSH password entered this time\<close>
         else if authKind = AuthPrivateKey
         then [20351, 29992, 32, 83, 83, 72, 32, 23494, 38053, 35748, 35777] \<comment> \<open>authenticate with an SSH key\<close>
         else [20351, 29992, 23494, 30721, 35748, 35777])" \<comment> \<open>authenticate with a password\<close>

definition connectionStepItemLabel :: "item_state \<Rightarrow> step_status \<Rightarrow> jsstr" where
  "connectionStepItemLabel state status =
     (case state of
        ItemDone \<Rightarrow> [23436, 25104] \<comment> \<open>done\<close>
      | ItemError \<Rightarrow> [22833, 36133] \<comment> \<open>failed\<close>
      | ItemActive \<Rightarrow>
          (case status of
             StepPrompt \<Rightarrow> [31561, 24453, 36755, 20837] \<comment> \<open>waiting for input\<close>
           | StepWaitingHostKey \<Rightarrow> [24453, 30830, 35748] \<comment> \<open>to be confirmed\<close>
           | StepIdle \<Rightarrow> [20934, 22791, 20013] \<comment> \<open>preparing\<close>
           | _ \<Rightarrow> [36827, 34892, 20013]) \<comment> \<open>in progress\<close>
      | ItemPending \<Rightarrow> [24453, 22788, 29702])" \<comment> \<open>pending\<close>

definition connectionStepStatusTitle :: "connection_step \<Rightarrow> jsstr" where
  "connectionStepStatusTitle step =
     (case cs_status step of
        StepSuccess \<Rightarrow> [27979, 35797, 36890, 36807] \<comment> \<open>test passed\<close>
      | StepError \<Rightarrow> [36830, 25509, 22833, 36133] \<comment> \<open>connection failed\<close>
      | StepWaitingHostKey \<Rightarrow> [31561, 24453, 30830, 35748] \<comment> \<open>waiting for confirmation\<close>
      | StepPrompt \<Rightarrow> [38656, 35201, 20973, 25454] \<comment> \<open>credentials needed\<close>
      | _ \<Rightarrow> [27491, 22312, 26816, 26597])" \<comment> \<open>checking\<close>

definition connectionStepPanelTitle :: "connection_step \<Rightarrow> jsstr" where
  "connectionStepPanelTitle step =
     (case cs_status step of
        StepSuccess \<Rightarrow> [36830, 25509, 26816, 26597, 23436, 25104] \<comment> \<open>connection check complete\<close>
      | StepError \<Rightarrow> [36830, 25509, 26410, 23436, 25104] \<comment> \<open>connection not completed\<close>
      | StepWaitingHostKey \<Rightarrow> [20027, 26426, 23494, 38053, 30830, 35748] \<comment> \<open>host key confirmation\<close>
      | StepPrompt \<Rightarrow> [34917, 20805, 35748, 35777, 20449, 24687] \<comment> \<open>complete the credentials\<close>
      | _ \<Rightarrow> [25191, 34892, 36830, 25509, 26816, 26597])" \<comment> \<open>running the connection check\<close>

definition connectionStepPanelDescription :: "connection_step \<Rightarrow> jsstr" where
  "connectionStepPanelDescription step =
     (case cs_status step of
        StepSuccess \<Rightarrow> [26412, 27425, 27979, 35797, 27809, 26377, 21019, 24314, 32456, 31471, 20250, 35805,
        12290] \<comment> \<open>this test created no terminal session\<close>
      | StepError \<Rightarrow> [38169, 35823, 20445, 30041, 22312, 24403, 21069, 39029, 38754, 65292, 19981, 20250,
        20889, 20837, 32456, 31471, 12290] \<comment> \<open>the error stays on this page\<close>
      | StepWaitingHostKey \<Rightarrow> [39318, 27425, 36830, 25509, 25110, 25351, 32441, 21464, 21270, 26102, 38656, 35201,
        26174, 24335, 20449, 20219, 12290] \<comment> \<open>a first connection or a changed fingerprint needs explicit trust\<close>
      | StepPrompt \<Rightarrow> [20020, 26102, 20973, 25454, 21482, 29992, 20110, 36825, 19968, 27425, 36830, 25509,
        12290] \<comment> \<open>temporary credentials serve this connection only\<close>
      | _ \<Rightarrow> [36830, 25509, 27493, 39588, 20250, 22312, 36825, 37324, 23454, 26102, 26356, 26032,
        12290])" \<comment> \<open>the steps are updated here\<close>

definition step_progress_percent :: "connection_step \<Rightarrow> rat" where
  "step_progress_percent step = max 8 (min 100 ((of_nat (currentConnectionStepIndex step) + 1) / 5 * 100))"

definition step_items :: "(jsnum \<Rightarrow> jsstr) \<Rightarrow> connection_step \<Rightarrow> (jsstr \<times> jsstr) list" where
  "step_items show_num step =
     (let c = cs_connection step;
          items =
            [([35835, 21462, 37197, 32622], [21152, 36733, 36830, 25509, 21442, 25968, 21644, 35748, 35777, 26448, 26009]), \<comment> \<open>read the configuration\<close>
             ([32593, 32476, 36830, 25509], js ''TCP '' @ [25569, 25163, 32] @ cp_host c @ js '':'' @ show_num (cp_port c)), \<comment> \<open>network connection\<close>
             ([20027, 26426, 23494, 38053, 39564, 35777], [26657, 39564, 26381, 21153, 22120, 25351, 32441, 21644, 32, 107, 110, 111, 119,
        110, 95, 104, 111, 115, 116, 115]), \<comment> \<open>host key verification\<close>
             ([29992, 25143, 35748, 35777], connectionStepAuthDescription step), \<comment> \<open>user authentication\<close>
             (if cs_mode step = ModeTerminal
              then ([25171, 24320, 32456, 31471], [21551, 21160, 20132, 20114, 24335, 32, 83, 104, 101, 108, 108, 32, 20250, 35805]) \<comment> \<open>open the terminal\<close>
              else ([23436, 25104, 27979, 35797], [23436, 25104, 36830, 25509, 27979, 35797, 27969, 31243]))] \<comment> \<open>finish the test\<close>
      in case connectionX11Step (cs_progressStage step) (map_option sd_code (cs_errorDetail step)) of
           Some x11 \<Rightarrow> items[xs_index x11 := (xs_label x11, xs_description x11)]
         | None \<Rightarrow> items)"

definition shown_item_states :: "connection_step \<Rightarrow> item_state list" where
  "shown_item_states step =
     map (\<lambda>index. connectionStepItemState step index (currentConnectionStepIndex step)) [0..<5]"

section \<open>Laws\<close>

lemma current_index_range: "currentConnectionStepIndex step \<le> 4"
  using step_error_range by (auto simp: currentConnectionStepIndex_def clampConnectionStepIndex_def split: step_status.split option.split)

end
