(* ===== verification/Local_Profiles.thy ===== *)
theory Local_Profiles
  imports Js_Sort Js_Bytes
begin

text \<open>
  The profiles of local terminals: \<open>src/features/terminal/localTerminalTypes.ts\<close> and the functions of
  \<open>src/features/layout/WorkspaceShell.tsx\<close> that check a profile of the user, merge the profiles the
  backend detects with those of the user and choose the one a new terminal opens with. The collation of the
  language \<open>zh-Hans\<close> is a parameter.
\<close>

record local_profile =
  lp_id :: jsstr
  lp_name :: jsstr
  lp_kind :: jsstr
  lp_platform :: jsstr
  lp_source :: jsstr
  lp_command :: jsstr
  lp_args :: "jsstr list"
  lp_cwd :: "jsstr option"
  lp_env :: "(jsstr \<times> jsstr) list"
  lp_icon :: jsstr
  lp_hidden :: bool
  lp_detected :: bool

record profile_input =
  pi_id :: "jsstr option"
  pi_name :: jsstr
  pi_kind :: jsstr
  pi_platform :: jsstr
  pi_source :: jsstr
  pi_command :: jsstr
  pi_args :: "jsstr list"
  pi_cwd :: "jsstr option"
  pi_env :: "(jsstr \<times> jsstr) list"
  pi_icon :: jsstr
  pi_hidden :: bool
  pi_detected :: bool

definition localTerminalProfileRank :: "jsstr \<Rightarrow> nat" where
  "localTerminalProfileRank kind =
     (if kind \<in> set [js ''powershell_core'', js ''pwsh''] then 0
      else if kind = js ''powershell'' then 1
      else if kind = js ''cmd'' then 2
      else if kind = js ''wsl'' then 3
      else if kind = js ''git_bash'' then 4
      else if kind = js ''bash'' then 5
      else if kind = js ''zsh'' then 6
      else if kind = js ''fish'' then 7
      else 20)"

definition localTerminalProfileSortKey :: "local_profile \<Rightarrow> jsstr" where
  "localTerminalProfileSortKey profile =
     pad_start 2 48 (dec_digits (localTerminalProfileRank (lp_kind profile))) @ js '':'' @ lp_name profile @ js '':'' @ lp_id profile"

text \<open>\<open>Object.fromEntries\<close>: a later entry replaces the value of an earlier one with the same trimmed key.\<close>

definition normalizeLocalTerminalProfileInput :: "profile_input \<Rightarrow> nat \<Rightarrow> local_profile option" where
  "normalizeLocalTerminalProfileInput profile index =
     (let profileId = str_or (js_trim (case pi_id profile of Some i \<Rightarrow> i | None \<Rightarrow> [])) (js ''custom-'' @ dec_digits index);
          name = js_trim (pi_name profile); kind = js_trim (pi_kind profile); command = js_trim (pi_command profile)
      in if name = [] \<or> kind = [] \<or> command = [] then None
         else Some \<lparr>lp_id = profileId, lp_name = name, lp_kind = kind, lp_platform = str_or (pi_platform profile) (js ''all''),
           lp_source = str_or (pi_source profile) (js ''custom''), lp_command = command,
           lp_args = filter (\<lambda>item. js_trim item \<noteq> []) (pi_args profile),
           lp_cwd = opt_truthy (map_option js_trim (pi_cwd profile)),
           lp_env = alist_of_updates (map (\<lambda>(k, v). (js_trim k, js_trim v)) (pi_env profile)),
           lp_icon = str_or (pi_icon profile) (js ''terminal-'' @ kind), lp_hidden = pi_hidden profile,
           lp_detected = pi_detected profile\<rparr>)"

definition detected_profiles :: "local_profile list \<Rightarrow> jsstr list \<Rightarrow> (jsstr \<times> local_profile) list" where
  "detected_profiles detected hiddenIds =
     foldl (\<lambda>m profile. if lp_id profile \<notin> set hiddenIds \<and> \<not> lp_hidden profile
         then AList.update (lp_id profile) profile m else m) [] detected"

definition add_custom_profile ::
  "jsstr list \<Rightarrow> (jsstr \<times> local_profile) list \<Rightarrow> nat \<times> profile_input \<Rightarrow> (jsstr \<times> local_profile) list" where
  "add_custom_profile hiddenIds m entry =
     (case entry of (index, profile) \<Rightarrow>
        (case normalizeLocalTerminalProfileInput profile index of
           Some normalized \<Rightarrow>
             if \<not> lp_hidden normalized \<and> lp_id normalized \<notin> set hiddenIds
             then AList.update (lp_id normalized) normalized m else m
         | None \<Rightarrow> m))"

definition mergeLocalTerminalProfiles ::
  "(jsstr \<Rightarrow> jsstr \<Rightarrow> bool) \<Rightarrow> local_profile list \<Rightarrow> profile_input list \<Rightarrow> jsstr list \<Rightarrow> local_profile list" where
  "mergeLocalTerminalProfiles collate detected custom hiddenIds =
     js_sort (\<lambda>a b. collate (localTerminalProfileSortKey a) (localTerminalProfileSortKey b))
       (map snd (foldl (add_custom_profile hiddenIds) (detected_profiles detected hiddenIds)
         (enumerate 0 custom)))"

definition toLocalTerminalProfileInput :: "local_profile \<Rightarrow> profile_input" where
  "toLocalTerminalProfileInput profile =
     \<lparr>pi_id = Some (lp_id profile), pi_name = lp_name profile, pi_kind = lp_kind profile, pi_platform = lp_platform profile,
      pi_source = lp_source profile, pi_command = lp_command profile, pi_args = lp_args profile,
      pi_cwd = opt_truthy (lp_cwd profile), pi_env = lp_env profile, pi_icon = lp_icon profile,
      pi_hidden = lp_hidden profile, pi_detected = lp_detected profile\<rparr>"

definition buildPreviewLocalTerminalProfile ::
  "jsstr list \<Rightarrow> jsstr \<Rightarrow> jsstr \<Rightarrow> jsstr \<Rightarrow> jsstr \<Rightarrow> jsstr \<Rightarrow> jsstr \<Rightarrow> local_profile" where
  "buildPreviewLocalTerminalProfile args command icon profileId kind name platform =
     \<lparr>lp_id = profileId, lp_name = name, lp_kind = kind, lp_platform = platform, lp_source = js ''detected'',
      lp_command = command, lp_args = args, lp_cwd = None, lp_env = [], lp_icon = icon, lp_hidden = False,
      lp_detected = True\<rparr>"

definition previewLocalTerminalProfiles :: "jsstr \<Rightarrow> local_profile list" where
  "previewLocalTerminalProfiles platform =
     (if platform = js ''windows'' then
        [buildPreviewLocalTerminalProfile [js ''-NoLogo'', js ''-NoProfile''] (js ''pwsh.exe'') (js ''terminal-powershell'')
           (js ''pwsh'') (js ''powershell_core'') (js ''PowerShell 7'') platform,
         buildPreviewLocalTerminalProfile [js ''-NoLogo'', js ''-NoProfile''] (js ''powershell.exe'') (js ''terminal-powershell'')
           (js ''powershell'') (js ''powershell'') (js ''Windows PowerShell'') platform,
         buildPreviewLocalTerminalProfile [] (js ''cmd.exe'') (js ''terminal-cmd'') (js ''cmd'') (js ''cmd'')
           ([21629, 20196, 25552, 31034, 31526]) platform, \<comment> \<open>command prompt\<close>
         buildPreviewLocalTerminalProfile [js ''--login'', js ''-i''] (js ''bash.exe'') (js ''terminal-git-bash'')
           (js ''git-bash'') (js ''git_bash'') (js ''Git Bash'') platform]
      else
        (let unixPlatform = (if platform = js ''macos'' then js ''macos'' else js ''linux'')
         in [buildPreviewLocalTerminalProfile [] (js ''zsh'') (js ''terminal-zsh'') (js ''zsh'') (js ''zsh'') (js ''zsh'') unixPlatform,
             buildPreviewLocalTerminalProfile [] (js ''bash'') (js ''terminal-bash'') (js ''bash'') (js ''bash'') (js ''bash'') unixPlatform,
             buildPreviewLocalTerminalProfile [] (js ''pwsh'') (js ''terminal-powershell'') (js ''pwsh'') (js ''pwsh'')
               (js ''PowerShell 7'') unixPlatform]))"

definition resolveDefaultLocalTerminalProfile :: "jsstr option \<Rightarrow> local_profile list \<Rightarrow> local_profile option" where
  "resolveDefaultLocalTerminalProfile defaultProfileId profiles =
     (case List.find (\<lambda>profile. Some (lp_id profile) = defaultProfileId) profiles of
        Some profile \<Rightarrow> Some profile
      | None \<Rightarrow> (case profiles of profile # _ \<Rightarrow> Some profile | [] \<Rightarrow> None))"

definition localTerminalTitle :: "local_profile \<Rightarrow> nat \<Rightarrow> jsstr" where
  "localTerminalTitle profile index = (if index \<le> 1 then lp_name profile else lp_name profile @ js '' '' @ dec_digits index)"

section \<open>The merged list\<close>

definition profiles_ok :: "jsstr list \<Rightarrow> (jsstr \<times> local_profile) list \<Rightarrow> bool" where
  "profiles_ok hiddenIds m \<longleftrightarrow> distinct (map fst m)
     \<and> (\<forall>(k, p)\<in>set m. lp_id p = k \<and> k \<notin> set hiddenIds \<and> \<not> lp_hidden p)"

lemma set_update_subset: "set (AList.update k v m) \<subseteq> insert (k, v) (set m)"
  by (induction m) auto

lemma profiles_ok_update [inv_step]:
  "profiles_ok hiddenIds m \<Longrightarrow> lp_id p \<notin> set hiddenIds \<Longrightarrow> \<not> lp_hidden p
   \<Longrightarrow> profiles_ok hiddenIds (AList.update (lp_id p) p m)"
  using set_update_subset [of "lp_id p" p m] unfolding profiles_ok_def by (auto simp: distinct_update)

lemma profiles_ok_detected: "profiles_ok hiddenIds (detected_profiles detected hiddenIds)"
proof -
  have "profiles_ok hiddenIds m \<Longrightarrow> profiles_ok hiddenIds (foldl (\<lambda>m profile. if lp_id profile \<notin> set hiddenIds
      \<and> \<not> lp_hidden profile then AList.update (lp_id profile) profile m else m) m detected)" for m
    by (induction detected arbitrary: m) (auto intro: inv_step)
  from this [of "[]"] show ?thesis by (simp add: detected_profiles_def profiles_ok_def)
qed

lemma profiles_ok_custom:
  "profiles_ok hiddenIds m \<Longrightarrow> profiles_ok hiddenIds (foldl (add_custom_profile hiddenIds) m custom)"
  by (induction custom arbitrary: m) (auto simp: add_custom_profile_def inv_step split: option.split)

text \<open>Every profile of the merged list has an identifier of its own, none is hidden, and the list is in the order
  of the sort keys.\<close>

lemma merged_profiles_sound:
  assumes "js_comparator (\<lambda>a b. collate (localTerminalProfileSortKey a) (localTerminalProfileSortKey b))"
  shows "distinct (map lp_id (mergeLocalTerminalProfiles collate detected custom hiddenIds))"
    "\<forall>p\<in>set (mergeLocalTerminalProfiles collate detected custom hiddenIds). \<not> lp_hidden p \<and> lp_id p \<notin> set hiddenIds"
    "sorted_wrt (\<lambda>a b. \<not> collate (localTerminalProfileSortKey a) (localTerminalProfileSortKey b))
       (mergeLocalTerminalProfiles collate detected custom hiddenIds)"
proof -
  define m where "m = foldl (add_custom_profile hiddenIds) (detected_profiles detected hiddenIds) (enumerate 0 custom)"
  have ok: "profiles_ok hiddenIds m"
    unfolding m_def by (rule profiles_ok_custom [OF profiles_ok_detected])
  then have keys: "map lp_id (map snd m) = map fst m" by (auto simp: profiles_ok_def)
  then have "distinct (map lp_id (map snd m))" using ok by (simp only: keys profiles_ok_def)
  then show "distinct (map lp_id (mergeLocalTerminalProfiles collate detected custom hiddenIds))"
    "\<forall>p\<in>set (mergeLocalTerminalProfiles collate detected custom hiddenIds). \<not> lp_hidden p \<and> lp_id p \<notin> set hiddenIds"
    using ok by (auto simp: mergeLocalTerminalProfiles_def profiles_ok_def simp flip: m_def)
  show "sorted_wrt (\<lambda>a b. \<not> collate (localTerminalProfileSortKey a) (localTerminalProfileSortKey b))
       (mergeLocalTerminalProfiles collate detected custom hiddenIds)"
    unfolding mergeLocalTerminalProfiles_def by (rule js_comparator.sorted_js_sort [OF assms])
qed

end
