(* ===== verification/Connect_Tabs.thy ===== *)
theory Connect_Tabs
  imports Connect_Step Local_Profiles Connection_Normalize
begin

text \<open>
  The tabs of terminals and the attempts to connect, from \<open>src/features/layout/WorkspaceShell.tsx\<close>, with the
  reconnection of \<open>src/features/terminal/TerminalPanel.tsx\<close>. Every call of \<open>runConnectionStep\<close>,
  \<open>runDirectTerminalTab\<close> and \<open>openRuntimeLocalTerminalSession\<close> is an attempt with the variables its closures
  share; it is cut at its awaits, and the answers of the backend, its output and its reports of progress are
  events. The model keeps two histories the program does not have, the sessions opened and the output sent; no
  operation reads them. Which tab is active, and the preview in a browser, are not modelled.
\<close>

section \<open>Tabs\<close>

datatype tab_type = TabConnecting | TabTerminal

record term_tab =
  tt_connectionStep :: "connection_step option"
  tt_error :: "jsstr option"
  tt_id :: jsstr
  tt_connectionId :: jsstr
  tt_index :: nat
  tt_requestId :: "jsstr option"
  tt_sessionId :: "jsstr option"
  tt_status :: jsstr
  tt_title :: jsstr
  tt_type :: tab_type
  tt_warmupOutput :: "nat list"

record local_tab =
  lt_id :: jsstr
  lt_source :: jsstr
  lt_profileId :: jsstr
  lt_profileKind :: jsstr
  lt_title :: jsstr
  lt_requestId :: jsstr
  lt_sessionId :: "jsstr option"
  lt_status :: jsstr
  lt_error :: "jsstr option"
  lt_warmupOutput :: "nat list"

section \<open>Calls that open a session\<close>

record connect_request =
  cr_auth_kind :: "auth_kind option"
  cr_cols :: nat
  cr_connection_id :: jsstr
  cr_host :: jsstr
  cr_password :: "jsstr option"
  cr_port :: jsnum
  cr_private_key_path :: "jsstr option"
  cr_private_key_passphrase :: "jsstr option"
  cr_request_id :: jsstr
  cr_rows :: nat
  cr_username :: jsstr

datatype open_call =
    OpenSsh connect_request
  | OpenLocal "jsstr option" profile_input jsstr \<comment> \<open>folder, profile and request\<close>
  | OpenTelnet backspace_mode enter_mode jsstr jsnum jsstr
  | OpenSerial backspace_mode jsnum serial_data_bits serial_flow serial_parity jsstr jsstr serial_stop_bits

definition step_request :: "connection_step \<Rightarrow> jsstr \<Rightarrow> connect_request" where
  "step_request step requestId =
     (let c = cs_connection step
      in \<lparr>cr_auth_kind = (if cp_credential_mode c = Some CredPrompt then Some (cs_authKind step) else None), cr_cols = 80,
          cr_connection_id = cp_id c, cr_host = cp_host c, cr_password = opt_truthy (Some (cs_password step)),
          cr_port = cp_port c, cr_private_key_path = opt_truthy (Some (cs_privateKeyPath step)),
          cr_private_key_passphrase = opt_truthy (Some (cs_privateKeyPassphrase step)), cr_request_id = requestId,
          cr_rows = 24, cr_username = cp_username c\<rparr>)"

definition direct_request :: "connection_profile \<Rightarrow> jsstr \<Rightarrow> connect_request" where
  "direct_request c requestId =
     \<lparr>cr_auth_kind = None, cr_cols = 80, cr_connection_id = cp_id c, cr_host = cp_host c, cr_password = None,
      cr_port = cp_port c, cr_private_key_path = None, cr_private_key_passphrase = None, cr_request_id = requestId,
      cr_rows = 24, cr_username = cp_username c\<rparr>"

definition local_request :: "local_profile \<Rightarrow> jsstr \<Rightarrow> open_call" where
  "local_request profile requestId =
     OpenLocal (opt_truthy (lp_cwd profile)) (toLocalTerminalProfileInput profile) requestId"

definition character_request :: "connection_profile \<Rightarrow> jsstr \<Rightarrow> open_call" where
  "character_request c requestId =
     (if connection_protocol c = ProtoTelnet then
        OpenTelnet (or_else (Option.bind (cp_telnet c) tc_backspace_mode) BackDel)
          (or_else (Option.bind (cp_telnet c) tc_enter_mode) EnterCrlf) (cp_host c) (num_or (cp_port c) (Num 23)) requestId
      else
        OpenSerial (or_else (Option.bind (cp_serial c) sc_backspace_mode) BackDel)
              (or_else (num_truthy (Option.bind (cp_serial c) sc_baud_rate)) (Num 9600))
              (or_else (Option.bind (cp_serial c) sc_data_bits) BitsEight)
              (or_else (Option.bind (cp_serial c) sc_flow_control) FlowNone)
              (or_else (Option.bind (cp_serial c) sc_parity) ParityNone)
              (opt_str_or (Option.bind (cp_serial c) sc_port_name) (cp_host c)) requestId
              (or_else (Option.bind (cp_serial c) sc_stop_bits) StopOne))"

section \<open>Attempts\<close>

text \<open>\<open>AttemptStep\<close> holds \<open>runningStep\<close>, which starts from the argument \<open>step\<close> and keeps its mode, connection and
  credentials; \<open>AttemptDirect\<close> the command to type first.\<close>

datatype attempt_kind =
    AttemptStep connection_step
  | AttemptDirect connection_profile "jsstr option"
  | AttemptLocal open_call

datatype attempt_phase = AwaitOutputListener | AwaitProgressListener | AwaitTest | AwaitSession | AttemptEnded

record attempt =
  at_tab :: jsstr
  at_kind :: attempt_kind
  at_phase :: attempt_phase
  at_request :: jsstr
  at_warmup :: "nat list"
  at_capturing :: bool
  at_progress :: bool
  at_finished :: bool
  at_handoff :: bool
  at_since :: nat

text \<open>\<open>pn_pending\<close> holds the previous session while a reconnection is in flight.\<close>

record terminal_panel =
  pn_tab :: jsstr
  pn_mounted :: bool
  pn_session :: "jsstr option"
  pn_pending :: "jsstr option option"

record connect_world =
  cw_tabs :: "term_tab list"
  cw_locals :: "local_tab list"
  cw_attempts :: "attempt list"
  cw_stops :: "jsstr \<Rightarrow> nat option"
  cw_trusts :: "(jsstr \<times> connection_step) list"
  cw_panels :: "terminal_panel list"
  cw_writes :: "(jsstr \<times> jsstr \<times> jsstr) list"
  cw_closed :: "jsstr list"
  cw_refreshed :: "runtime_credentials list"
  cw_opened :: "jsstr list"
  cw_emitted :: "(jsstr \<times> nat list) list"

definition connect_start :: connect_world where
  "connect_start = \<lparr>cw_tabs = [], cw_locals = [], cw_attempts = [], cw_stops = (\<lambda>_. None), cw_trusts = [], cw_panels = [],
     cw_writes = [], cw_closed = [], cw_refreshed = [], cw_opened = [], cw_emitted = []\<rparr>"

definition update_term :: "jsstr \<Rightarrow> (term_tab \<Rightarrow> term_tab) \<Rightarrow> connect_world \<Rightarrow> connect_world" where
  "update_term tabId f w = w\<lparr>cw_tabs := map (\<lambda>tab. if tt_id tab = tabId then f tab else tab) (cw_tabs w)\<rparr>"

definition update_local :: "jsstr \<Rightarrow> (local_tab \<Rightarrow> local_tab) \<Rightarrow> connect_world \<Rightarrow> connect_world" where
  "update_local tabId f w = w\<lparr>cw_locals := map (\<lambda>tab. if lt_id tab = tabId then f tab else tab) (cw_locals w)\<rparr>"

definition update_attempt :: "nat \<Rightarrow> (attempt \<Rightarrow> attempt) \<Rightarrow> connect_world \<Rightarrow> connect_world" where
  "update_attempt k f w =
     (if k < length (cw_attempts w) then w\<lparr>cw_attempts := (cw_attempts w)[k := f (cw_attempts w ! k)]\<rparr> else w)"

definition terminalClose :: "jsstr \<Rightarrow> connect_world \<Rightarrow> connect_world" where
  "terminalClose session w = w\<lparr>cw_closed := cw_closed w @ [session]\<rparr>"

definition connectingTabExists :: "jsstr \<Rightarrow> connect_world \<Rightarrow> bool" where
  "connectingTabExists tabId w \<longleftrightarrow> list_ex (\<lambda>tab. tt_id tab = tabId \<and> tt_type tab = TabConnecting) (cw_tabs w)"

definition terminalTabExists :: "jsstr \<Rightarrow> connect_world \<Rightarrow> bool" where
  "terminalTabExists tabId w \<longleftrightarrow> list_ex (\<lambda>tab. tt_id tab = tabId) (cw_tabs w)"

definition localTerminalTabExists :: "jsstr \<Rightarrow> connect_world \<Rightarrow> bool" where
  "localTerminalTabExists tabId w \<longleftrightarrow> list_ex (\<lambda>tab. lt_id tab = tabId) (cw_locals w)"

section \<open>Building tabs\<close>

definition nextTerminalIndexForConnection :: "term_tab list \<Rightarrow> jsstr \<Rightarrow> nat" where
  "nextTerminalIndexForConnection tabs connectionId =
     foldr (\<lambda>tab n. max (tt_index tab + 1) n) (filter (\<lambda>tab. tt_connectionId tab = connectionId) tabs) 0"

definition terminalTabTitle :: "nat \<Rightarrow> jsstr" where
  "terminalTabTitle index =
     (if index = 0 then [32456, 31471] else [32456, 31471] @ js '' '' @ dec_digits index)" \<comment> \<open>terminal\<close>

definition preparing_title :: "step_mode \<Rightarrow> jsstr" where
  "preparing_title mode = (if mode = ModeTerminal then [36830, 25509, 20934, 22791] else [36830, 25509, 27979, 35797])" \<comment> \<open>preparing, testing\<close>

definition buildConnectingTab :: "term_tab list \<Rightarrow> connection_profile \<Rightarrow> connection_step \<Rightarrow> term_tab" where
  "buildConnectingTab tabs connection step =
     \<lparr>tt_connectionStep = Some step, tt_error = None,
      tt_id = js ''connection-'' @ cp_id connection @ js ''-'' @ dec_digits (cs_id step),
      tt_connectionId = cp_id connection, tt_index = nextTerminalIndexForConnection tabs (cp_id connection),
      tt_requestId = None, tt_sessionId = None, tt_status = connectionStepStatusTitle step,
      tt_title = preparing_title (cs_mode step), tt_type = TabConnecting, tt_warmupOutput = []\<rparr>"

definition buildDirectTerminalTab :: "jsstr \<Rightarrow> term_tab list \<Rightarrow> connection_profile \<Rightarrow> jsstr option \<Rightarrow> term_tab" where
  "buildDirectTerminalTab nonce tabs connection title =
     (let nextIndex = nextTerminalIndexForConnection tabs (cp_id connection);
          ident = js ''terminal-'' @ cp_id connection @ js ''-'' @ nonce
      in \<lparr>tt_connectionStep = None, tt_error = None, tt_id = ident, tt_connectionId = cp_id connection,
          tt_index = nextIndex, tt_requestId = Some ident, tt_sessionId = None,
          tt_status = [27491, 22312, 36830, 25509], \<comment> \<open>connecting\<close>
          tt_title = opt_str_or title (terminalTabTitle nextIndex), tt_type = TabTerminal, tt_warmupOutput = []\<rparr>)"

definition buildLocalTerminalTab :: "jsstr \<Rightarrow> local_tab list \<Rightarrow> local_profile \<Rightarrow> local_tab" where
  "buildLocalTerminalTab nonce tabs profile =
     (let nextIndex = length (filter (\<lambda>tab. lt_profileId tab = lp_id profile) tabs) + 1
      in \<lparr>lt_id = js ''local-terminal-'' @ nonce, lt_source = js ''local'', lt_profileId = lp_id profile,
          lt_profileKind = lp_kind profile, lt_title = localTerminalTitle profile nextIndex,
          lt_requestId = js ''local-terminal-'' @ nonce, lt_sessionId = None,
          lt_status = [27491, 22312, 25171, 24320], \<comment> \<open>opening\<close>
          lt_error = None, lt_warmupOutput = []\<rparr>)"

definition buildCharacterTerminalTab :: "jsstr \<Rightarrow> local_tab list \<Rightarrow> jsstr \<Rightarrow> jsstr \<Rightarrow> jsstr \<Rightarrow> local_tab" where
  "buildCharacterTerminalTab nonce tabs source title profileId =
     (let nextIndex = length (filter (\<lambda>tab. lt_profileId tab = profileId) tabs) + 1
      in \<lparr>lt_id = source @ js ''-terminal-'' @ nonce, lt_source = source, lt_profileId = profileId, lt_profileKind = source,
          lt_title = (if 1 < nextIndex then title @ js '' '' @ dec_digits nextIndex else title),
          lt_requestId = source @ js ''-terminal-'' @ nonce, lt_sessionId = None,
          lt_status = [27491, 22312, 36830, 25509], \<comment> \<open>connecting\<close>
          lt_error = None, lt_warmupOutput = []\<rparr>)"

section \<open>Changing tabs\<close>

definition stepped_tab :: "connection_step \<Rightarrow> term_tab \<Rightarrow> term_tab" where
  "stepped_tab step tab = tab\<lparr>tt_connectionStep := Some step, tt_status := connectionStepStatusTitle step,
     tt_title := (if cs_status step = StepError then [36830, 25509, 22833, 36133] else preparing_title (cs_mode step))\<rparr>" \<comment> \<open>connection failed\<close>

definition updateConnectingTabStep :: "jsstr \<Rightarrow> connection_step \<Rightarrow> connect_world \<Rightarrow> connect_world" where
  "updateConnectingTabStep tabId step = update_term tabId (stepped_tab step)"

definition connected_status :: jsstr where
  "connected_status = [24050, 36830, 25509]" \<comment> \<open>connected\<close>

definition replaceConnectingTabWithTerminal ::
  "jsstr \<Rightarrow> jsstr \<Rightarrow> nat list \<Rightarrow> jsstr \<Rightarrow> connect_world \<Rightarrow> connect_world" where
  "replaceConnectingTabWithTerminal tabId session warmup requestId = update_term tabId (\<lambda>tab.
     tab\<lparr>tt_connectionStep := None, tt_error := None, tt_requestId := Some requestId, tt_sessionId := Some session,
       tt_status := connected_status, tt_title := terminalTabTitle (tt_index tab), tt_type := TabTerminal,
       tt_warmupOutput := warmup\<rparr>)"

definition appendTerminalWarmupOutput :: "jsstr \<Rightarrow> nat list \<Rightarrow> connect_world \<Rightarrow> connect_world" where
  "appendTerminalWarmupOutput tabId data = update_term tabId (\<lambda>tab.
     if tt_type tab \<noteq> TabTerminal then tab else tab\<lparr>tt_warmupOutput := tt_warmupOutput tab @ data\<rparr>)"

definition appendLocalTerminalWarmupOutput :: "jsstr \<Rightarrow> nat list \<Rightarrow> connect_world \<Rightarrow> connect_world" where
  "appendLocalTerminalWarmupOutput tabId data = update_local tabId (\<lambda>tab.
     if opt_truthy (lt_sessionId tab) = None then tab else tab\<lparr>lt_warmupOutput := lt_warmupOutput tab @ data\<rparr>)"

definition updateTerminalRuntimeSession :: "jsstr \<Rightarrow> jsstr \<Rightarrow> jsstr \<Rightarrow> connect_world \<Rightarrow> connect_world" where
  "updateTerminalRuntimeSession tabId session requestId = update_term tabId (\<lambda>tab.
     if tt_type tab \<noteq> TabTerminal then tab
     else tab\<lparr>tt_error := None, tt_requestId := (if requestId = [] then tt_requestId tab else Some requestId),
       tt_sessionId := Some session, tt_status := connected_status, tt_warmupOutput := []\<rparr>)"

section \<open>Captures of early output\<close>

text \<open>The function an attempt registers: it ends the capture of output and the reports of progress. The attempts
  without reports of progress never read \<open>at_finished\<close>.\<close>

definition stop_attempt :: "attempt \<Rightarrow> attempt" where
  "stop_attempt a = a\<lparr>at_finished := True, at_progress := False, at_capturing := False\<rparr>"

definition stopTerminalWarmupCapture :: "jsstr \<Rightarrow> connect_world \<Rightarrow> connect_world" where
  "stopTerminalWarmupCapture tabId w =
     (case cw_stops w tabId of
        None \<Rightarrow> w
      | Some k \<Rightarrow> update_attempt k stop_attempt (w\<lparr>cw_stops := (cw_stops w)(tabId := None)\<rparr>))"

definition setTerminalWarmupCaptureStop :: "jsstr \<Rightarrow> nat \<Rightarrow> connect_world \<Rightarrow> connect_world" where
  "setTerminalWarmupCaptureStop tabId k w =
     (let w1 = stopTerminalWarmupCapture tabId w in w1\<lparr>cw_stops := (cw_stops w1)(tabId := Some k)\<rparr>)"

text \<open>\<open>finally\<close> of \<open>runConnectionStep\<close>, and the end of the other two.\<close>

definition end_attempt :: "nat \<Rightarrow> connect_world \<Rightarrow> connect_world" where
  "end_attempt k = update_attempt k (\<lambda>a. a\<lparr>at_finished := True, at_progress := False, at_phase := AttemptEnded\<rparr>)"

end
