(* ===== verification/Connect_Flow.thy ===== *)
theory Connect_Flow
  imports Connect_Tabs
begin

text \<open>
  How an attempt to connect runs, from \<open>src/features/layout/WorkspaceShell.tsx\<close>: what starts it, what each
  answer of the backend does, how tabs are closed, and the step function over all events. The reconnection of a
  terminal is \<open>reconnectCurrentTerminal\<close> of \<open>src/features/terminal/TerminalPanel.tsx\<close>.
\<close>

record connect_env =
  ce_str :: "json \<Rightarrow> jsstr"
  ce_parse :: "jsstr \<Rightarrow> json option"
  ce_num :: "jsnum \<Rightarrow> jsstr"

section \<open>Starting attempts\<close>

definition new_attempt :: "jsstr \<Rightarrow> attempt_kind \<Rightarrow> attempt_phase \<Rightarrow> jsstr \<Rightarrow> attempt" where
  "new_attempt tabId kind phase requestId =
     \<lparr>at_tab = tabId, at_kind = kind, at_phase = phase, at_request = requestId, at_warmup = [], at_capturing = False,
      at_progress = False, at_finished = False, at_handoff = False, at_since = 0\<rparr>"

definition start_attempt :: "attempt \<Rightarrow> connect_world \<Rightarrow> connect_world" where
  "start_attempt a w = w\<lparr>cw_attempts := cw_attempts w @ [a]\<rparr>"

definition running_step :: "connection_step \<Rightarrow> connection_step" where
  "running_step step = step\<lparr>cs_activeStepIndex := Some (if cs_mode step = ModeTerminal then 0 else 1),
     cs_progressStage := None, cs_errorDetail := None, cs_error := None, cs_hostKey := None, cs_hostKeyDecision := None,
     cs_logs := cs_logs step @ [[35835, 21462, 36830, 25509, 37197, 32622]], \<comment> \<open>reading the configuration\<close>
     cs_oldHostKeyFingerprint := None, cs_sessionId := None, cs_status := StepRunning\<rparr>"

definition runConnectionStep :: "jsstr \<Rightarrow> jsstr \<Rightarrow> connection_step \<Rightarrow> connect_world \<Rightarrow> connect_world" where
  "runConnectionStep uuid tabId step w =
     (let running = running_step step
      in start_attempt (new_attempt tabId (AttemptStep running)
             (if cs_mode step = ModeTerminal then AwaitOutputListener else AwaitTest)
             (js ''prepare-'' @ dec_digits (cs_id step) @ js ''-'' @ uuid))
           (updateConnectingTabStep tabId running w))"

definition initial_step :: "connect_env \<Rightarrow> nat \<Rightarrow> connection_profile \<Rightarrow> step_mode \<Rightarrow> connection_step" where
  "initial_step env now connection mode =
     \<lparr>cs_progressStage = None, cs_activeStepIndex = None,
      cs_authKind = (case cp_prompt_auth_kind connection of Some k \<Rightarrow> k
        | None \<Rightarrow> or_else (cp_inline_auth_kind connection) AuthPassword),
      cs_connection = connection, cs_errorDetail = None, cs_error = None, cs_hostKey = None, cs_hostKeyDecision = None,
      cs_oldHostKeyFingerprint = None, cs_id = now,
      cs_logs = [(if mode = ModeTerminal then [25171, 24320, 32456, 31471] else [27979, 35797, 36830, 25509]) \<comment> \<open>open a terminal, test the connection\<close>
        @ [65306] @ shell_connection_address (ce_num env) connection],
      cs_mode = mode, cs_password = [], cs_privateKeyPassphrase = [], cs_privateKeyPath = [], cs_sessionId = None,
      cs_status = (if cp_credential_mode connection = Some CredPrompt then StepPrompt else StepIdle)\<rparr>"

definition startConnectionStep ::
  "connect_env \<Rightarrow> nat \<Rightarrow> jsstr \<Rightarrow> connection_profile \<Rightarrow> step_mode \<Rightarrow> connect_world \<Rightarrow> connect_world" where
  "startConnectionStep env now uuid connection mode w =
     (if isRdpConnection (Some connection) \<or> isVncConnection (Some connection) then w
      else
        (let step = initial_step env now connection mode;
             tab = buildConnectingTab (cw_tabs w) connection step;
             w1 = w\<lparr>cw_tabs := cw_tabs w @ [tab]\<rparr>
         in if cp_credential_mode connection \<noteq> Some CredPrompt then runConnectionStep uuid (tt_id tab) step w1 else w1))"

definition retryConnectionStep :: "jsstr \<Rightarrow> jsstr \<Rightarrow> connection_step \<Rightarrow> connect_world \<Rightarrow> connect_world" where
  "retryConnectionStep uuid tabId step = runConnectionStep uuid tabId (resetConnectionStepForRetry step)"

definition submitPromptCredential :: "jsstr \<Rightarrow> jsstr \<Rightarrow> connection_step \<Rightarrow> connect_world \<Rightarrow> connect_world" where
  "submitPromptCredential uuid tabId step =
     runConnectionStep uuid tabId (step\<lparr>cs_logs := cs_logs step @ [[24050, 36755, 20837, 26412, 27425, 20973, 25454]]\<rparr>)" \<comment> \<open>credentials entered\<close>

definition trusting_step :: "connection_step \<Rightarrow> connection_step" where
  "trusting_step step = step\<lparr>cs_logs := cs_logs step @
       [if cs_hostKeyDecision step = Some HostKeyChanged
        then [24050, 26356, 26032, 20027, 26426, 23494, 38053, 20449, 20219, 65292, 37325, 26032,
        36830, 25509] \<comment> \<open>trust of the host key updated, connecting again\<close>
        else [24050, 20449, 20219, 20027, 26426, 23494, 38053, 65292, 37325, 26032, 36830, 25509]], \<comment> \<open>host key trusted, connecting again\<close>
     cs_status := StepRunning\<rparr>"

definition trustHostKeyAndRetry :: "jsstr \<Rightarrow> connection_step \<Rightarrow> connect_world \<Rightarrow> connect_world" where
  "trustHostKeyAndRetry tabId step w =
     (if cs_hostKey step = None then w
      else
        (let w1 = updateConnectingTabStep tabId (trusting_step step) w
         in w1\<lparr>cw_trusts := cw_trusts w1 @ [(tabId, trusting_step step)]\<rparr>))"

definition openTerminalInConnection :: "jsstr \<Rightarrow> connection_profile \<Rightarrow> connect_world \<Rightarrow> connect_world" where
  "openTerminalInConnection nonce connection w =
     (let tab = buildDirectTerminalTab nonce (cw_tabs w) connection None
      in start_attempt (new_attempt (tt_id tab) (AttemptDirect connection None) AwaitOutputListener (tt_id tab))
           (w\<lparr>cw_tabs := cw_tabs w @ [tab]\<rparr>))"

definition shortDockerRuntimeId :: "jsstr \<Rightarrow> jsstr" where
  "shortDockerRuntimeId ident =
     str_or (take 12 (if prefix (js ''sha256:'') ident then drop 7 ident else ident)) ident"

definition quotePosixShellForTerminal :: "jsstr \<Rightarrow> jsstr" where
  "quotePosixShellForTerminal value =
     [39] @ concat (map (\<lambda>c. if c = 39 then [39, 34, 39, 34, 39] else [c]) value) @ [39]"

definition docker_exec_command :: "jsstr \<Rightarrow> jsstr" where
  "docker_exec_command containerId = js ''docker exec -it '' @ quotePosixShellForTerminal containerId @ js '' sh'' @ [13]"

definition openDockerContainerTerminal ::
  "jsstr \<Rightarrow> connection_profile \<Rightarrow> jsstr \<Rightarrow> jsstr \<Rightarrow> connect_world \<Rightarrow> connect_world" where
  "openDockerContainerTerminal nonce connection containerName containerId w =
     (let tab = buildDirectTerminalTab nonce (cw_tabs w) connection
            (Some ([23481, 22120, 32] @ str_or containerName (shortDockerRuntimeId containerId))) \<comment> \<open>container\<close>
      in start_attempt (new_attempt (tt_id tab) (AttemptDirect connection (Some (docker_exec_command containerId)))
             AwaitOutputListener (tt_id tab))
           (w\<lparr>cw_tabs := cw_tabs w @ [tab]\<rparr>))"

definition openLocalTerminalByProfile :: "jsstr \<Rightarrow> local_profile option \<Rightarrow> connect_world \<Rightarrow> connect_world" where
  "openLocalTerminalByProfile nonce profile w =
     (case profile of
        None \<Rightarrow> w
      | Some p \<Rightarrow>
          (let tab = buildLocalTerminalTab nonce (cw_locals w) p
           in start_attempt (new_attempt (lt_id tab) (AttemptLocal (local_request p (lt_requestId tab))) AwaitOutputListener
                  (lt_requestId tab))
                (w\<lparr>cw_locals := cw_locals w @ [tab]\<rparr>)))"

definition openCharacterTerminalInConnection ::
  "connect_env \<Rightarrow> jsstr \<Rightarrow> connection_profile \<Rightarrow> connect_world \<Rightarrow> connect_world" where
  "openCharacterTerminalInConnection env nonce connection w =
     (let tab = buildCharacterTerminalTab nonce (cw_locals w)
            (if connection_protocol connection = ProtoTelnet then js ''telnet'' else js ''serial'')
            (str_or (cp_name connection) (shell_connection_address (ce_num env) connection)) (cp_id connection)
      in start_attempt (new_attempt (lt_id tab) (AttemptLocal (character_request connection (lt_requestId tab)))
             AwaitOutputListener (lt_requestId tab))
           (w\<lparr>cw_locals := cw_locals w @ [tab]\<rparr>))"

definition openCharacterConnectionSession ::
  "connect_env \<Rightarrow> jsstr \<Rightarrow> connection_profile \<Rightarrow> connect_world \<Rightarrow> connect_world" where
  "openCharacterConnectionSession env nonce connection w =
     (if list_ex (\<lambda>tab. lt_profileId tab = cp_id connection) (cw_locals w) then w
      else openCharacterTerminalInConnection env nonce connection w)"

section \<open>Answers\<close>

definition is_step_attempt :: "attempt \<Rightarrow> bool" where
  "is_step_attempt a \<longleftrightarrow> (case at_kind a of AttemptStep _ \<Rightarrow> True | _ \<Rightarrow> False)"

text \<open>\<open>listenTerminalOutput\<close> is there: output of the request is captured from now on.\<close>

definition output_listener_ready :: "nat \<Rightarrow> attempt \<Rightarrow> connect_world \<Rightarrow> connect_world" where
  "output_listener_ready k a w =
     (let w1 = update_attempt k (\<lambda>a. a\<lparr>at_capturing := True, at_since := length (cw_emitted w),
                 at_phase := (if is_step_attempt a then AwaitProgressListener else AwaitSession)\<rparr>) w
      in if is_step_attempt a then w1 else setTerminalWarmupCaptureStop (at_tab a) k w1)"

definition progress_listener_ready :: "nat \<Rightarrow> attempt \<Rightarrow> connect_world \<Rightarrow> connect_world" where
  "progress_listener_ready k a w =
     (let w1 = setTerminalWarmupCaptureStop (at_tab a) k (update_attempt k (\<lambda>a. a\<lparr>at_progress := True\<rparr>) w)
      in if connectingTabExists (at_tab a) w1 then update_attempt k (\<lambda>a. a\<lparr>at_phase := AwaitSession\<rparr>) w1
         else end_attempt k (stopTerminalWarmupCapture (at_tab a) w1))"

definition test_passed :: "nat \<Rightarrow> attempt \<Rightarrow> connection_step \<Rightarrow> connect_world \<Rightarrow> connect_world" where
  "test_passed k a running w =
     end_attempt k
       (if \<not> connectingTabExists (at_tab a) w then w
        else updateConnectingTabStep (at_tab a) (running\<lparr>cs_logs := cs_logs running @
               [[35748, 35777, 36890, 36807], [36830, 25509, 27979, 35797, 36890, 36807]], cs_status := StepSuccess\<rparr>) w)" \<comment> \<open>authenticated, test passed\<close>

definition step_session_opened :: "nat \<Rightarrow> attempt \<Rightarrow> connection_step \<Rightarrow> jsstr \<Rightarrow> connect_world \<Rightarrow> connect_world" where
  "step_session_opened k a running session w =
     end_attempt k
       (if \<not> connectingTabExists (at_tab a) w then terminalClose session (stopTerminalWarmupCapture (at_tab a) w)
        else replaceConnectingTabWithTerminal (at_tab a) session (at_warmup a) (at_request a)
          (update_attempt k (\<lambda>a. a\<lparr>at_handoff := True\<rparr>)
            (w\<lparr>cw_refreshed := cw_refreshed w @ [runtimeCredentialRequest running]\<rparr>)))"

definition direct_session_opened ::
  "nat \<Rightarrow> attempt \<Rightarrow> connection_profile \<Rightarrow> jsstr option \<Rightarrow> jsstr \<Rightarrow> connect_world \<Rightarrow> connect_world" where
  "direct_session_opened k a connection initialCommand session w =
     end_attempt k
       (if \<not> terminalTabExists (at_tab a) w then terminalClose session (stopTerminalWarmupCapture (at_tab a) w)
        else
          (let w1 = update_term (at_tab a) (\<lambda>tab. tab\<lparr>tt_error := None, tt_requestId := Some (at_request a),
                 tt_sessionId := Some session, tt_status := connected_status, tt_warmupOutput := at_warmup a\<rparr>)
               (update_attempt k (\<lambda>a. a\<lparr>at_handoff := True\<rparr>) w)
           in w1\<lparr>cw_refreshed := cw_refreshed w1 @ [\<lparr>rc_auth_kind = None, rc_connection_id = cp_id connection,
                   rc_password = None, rc_private_key_passphrase = None, rc_private_key_path = None\<rparr>],
                 cw_writes := cw_writes w1 @ (case opt_truthy initialCommand of
                   Some command \<Rightarrow> [(at_tab a, session, command)] | None \<Rightarrow> [])\<rparr>))"

definition local_session_opened :: "nat \<Rightarrow> attempt \<Rightarrow> jsstr \<Rightarrow> connect_world \<Rightarrow> connect_world" where
  "local_session_opened k a session w =
     end_attempt k
       (if \<not> localTerminalTabExists (at_tab a) w then terminalClose session (stopTerminalWarmupCapture (at_tab a) w)
        else update_local (at_tab a) (\<lambda>tab. tab\<lparr>lt_error := None, lt_sessionId := Some session,
               lt_status := connected_status, lt_warmupOutput := at_warmup a\<rparr>)
             (update_attempt k (\<lambda>a. a\<lparr>at_handoff := True\<rparr>) w))"

text \<open>The value of an answer matters only where it is a session.\<close>

definition attempt_resolved :: "nat \<Rightarrow> attempt \<Rightarrow> jsstr \<Rightarrow> connect_world \<Rightarrow> connect_world" where
  "attempt_resolved k a value w =
     (case at_phase a of
        AwaitOutputListener \<Rightarrow> output_listener_ready k a w
      | AwaitProgressListener \<Rightarrow> progress_listener_ready k a w
      | AwaitTest \<Rightarrow> (case at_kind a of AttemptStep running \<Rightarrow> test_passed k a running w | _ \<Rightarrow> w)
      | AwaitSession \<Rightarrow>
          (let w1 = w\<lparr>cw_opened := cw_opened w @ [value]\<rparr>
           in case at_kind a of
                AttemptStep running \<Rightarrow> step_session_opened k a running value w1
              | AttemptDirect connection command \<Rightarrow> direct_session_opened k a connection command value w1
              | AttemptLocal _ \<Rightarrow> local_session_opened k a value w1)
      | AttemptEnded \<Rightarrow> w)"

definition failed_step :: "connect_env \<Rightarrow> json \<Rightarrow> connection_step \<Rightarrow> connection_step" where
  "failed_step env e step =
     (let detail = describeConnectionStepError (ce_str env) e
      in step\<lparr>cs_error := Some (sd_message detail), cs_errorDetail := Some detail,
           cs_logs := appendUniqueLogs (cs_logs step) [sd_message detail, sd_rawMessage detail],
           cs_status := StepError\<rparr>)"

definition host_key_step :: "connect_env \<Rightarrow> json \<Rightarrow> host_key_error \<Rightarrow> connection_step \<Rightarrow> connection_step" where
  "host_key_step env e key step =
     (let detail = describeConnectionStepError (ce_str env) e
      in step\<lparr>cs_error := Some (sd_message detail), cs_errorDetail := Some detail, cs_hostKey := Some (hk_hostKey key),
           cs_hostKeyDecision := Some (hk_decision key),
           cs_logs := cs_logs step @ [[31561, 24453, 30830, 35748, 20027, 26426, 23494, 38053]], \<comment> \<open>waiting for the host key to be confirmed\<close>
           cs_oldHostKeyFingerprint := hk_oldFingerprint key, cs_status := StepWaitingHostKey\<rparr>)"

definition step_rejected :: "connect_env \<Rightarrow> nat \<Rightarrow> attempt \<Rightarrow> connection_step \<Rightarrow> json \<Rightarrow> connect_world \<Rightarrow> connect_world" where
  "step_rejected env k a running e w =
     end_attempt k
       (let w1 = stopTerminalWarmupCapture (at_tab a) (update_attempt k (\<lambda>a. a\<lparr>at_finished := True, at_capturing := False\<rparr>) w)
        in if \<not> connectingTabExists (at_tab a) w1 then w1
           else case parseHostKeyError (ce_parse env) (ce_str env) e of
                  Some key \<Rightarrow> updateConnectingTabStep (at_tab a) (host_key_step env e key running) w1
                | None \<Rightarrow> updateConnectingTabStep (at_tab a) (failed_step env e running) w1)"

definition connect_failed_status :: jsstr where
  "connect_failed_status = [36830, 25509, 22833, 36133]" \<comment> \<open>connection failed\<close>

definition direct_rejected :: "connect_env \<Rightarrow> nat \<Rightarrow> attempt \<Rightarrow> json \<Rightarrow> connect_world \<Rightarrow> connect_world" where
  "direct_rejected env k a e w =
     end_attempt k
       (update_term (at_tab a) (\<lambda>tab. tab\<lparr>tt_error := Some (formatError (ce_str env) e), tt_sessionId := None,
            tt_status := connect_failed_status, tt_warmupOutput := at_warmup a\<rparr>)
         (stopTerminalWarmupCapture (at_tab a) w))"

definition local_rejected :: "connect_env \<Rightarrow> nat \<Rightarrow> attempt \<Rightarrow> json \<Rightarrow> connect_world \<Rightarrow> connect_world" where
  "local_rejected env k a e w =
     end_attempt k
       (update_local (at_tab a) (\<lambda>tab. tab\<lparr>lt_error := Some (formatDetailedError (ce_str env) e), lt_sessionId := None,
            lt_status := connect_failed_status\<rparr>)
         (stopTerminalWarmupCapture (at_tab a) w))"

definition attempt_rejected :: "connect_env \<Rightarrow> nat \<Rightarrow> attempt \<Rightarrow> json \<Rightarrow> connect_world \<Rightarrow> connect_world" where
  "attempt_rejected env k a e w =
     (if at_phase a = AttemptEnded then w
      else case at_kind a of
             AttemptStep running \<Rightarrow> step_rejected env k a running e w
           | AttemptDirect _ _ \<Rightarrow> direct_rejected env k a e w
           | AttemptLocal _ \<Rightarrow> local_rejected env k a e w)"

text \<open>\<open>knownHostTrust\<close> answers.\<close>

definition trust_answered ::
  "connect_env \<Rightarrow> jsstr \<Rightarrow> jsstr \<Rightarrow> connection_step \<Rightarrow> json option \<Rightarrow> connect_world \<Rightarrow> connect_world" where
  "trust_answered env uuid tabId step err w =
     (case err of
        None \<Rightarrow> runConnectionStep uuid tabId step w
      | Some e \<Rightarrow> if \<not> connectingTabExists tabId w then w else updateConnectingTabStep tabId (failed_step env e step) w)"

text \<open>A report of progress reaches every attempt that listens.\<close>

definition progressed_step :: "jsstr \<Rightarrow> jsstr \<Rightarrow> connection_step \<Rightarrow> connection_step" where
  "progressed_step stage message step = step\<lparr>cs_progressStage := Some stage,
     cs_activeStepIndex := (case connectionProgressIndex stage of Some i \<Rightarrow> Some i | None \<Rightarrow> cs_activeStepIndex step),
     cs_logs := cs_logs step @ [message]\<rparr>"

definition progress_reported :: "nat \<Rightarrow> jsstr \<Rightarrow> jsstr \<Rightarrow> jsstr \<Rightarrow> connect_world \<Rightarrow> connect_world" where
  "progress_reported k requestId stage message w =
     (if length (cw_attempts w) \<le> k then w
      else let a = cw_attempts w ! k in
        (case at_kind a of
           AttemptStep running \<Rightarrow>
             if \<not> at_progress a \<or> at_finished a \<or> at_request a \<noteq> requestId \<or> \<not> connectingTabExists (at_tab a) w then w
             else (let next = progressed_step stage message running
                   in updateConnectingTabStep (at_tab a) next (update_attempt k (\<lambda>a. a\<lparr>at_kind := AttemptStep next\<rparr>) w))
         | _ \<Rightarrow> w))"

definition output_heard :: "jsstr \<Rightarrow> nat list \<Rightarrow> nat \<Rightarrow> connect_world \<Rightarrow> connect_world" where
  "output_heard requestId data k w =
     (if length (cw_attempts w) \<le> k then w
      else let a = cw_attempts w ! k in
        if \<not> at_capturing a \<or> at_request a \<noteq> requestId then w
        else if at_handoff a then
          (case at_kind a of AttemptLocal _ \<Rightarrow> appendLocalTerminalWarmupOutput (at_tab a) data w
           | _ \<Rightarrow> appendTerminalWarmupOutput (at_tab a) data w)
        else update_attempt k (\<lambda>a. a\<lparr>at_warmup := at_warmup a @ data\<rparr>) w)"

definition output_sent :: "jsstr \<Rightarrow> nat list \<Rightarrow> connect_world \<Rightarrow> connect_world" where
  "output_sent requestId data w =
     (let w1 = fold (output_heard requestId data) [0..<length (cw_attempts w)] w
      in w1\<lparr>cw_emitted := cw_emitted w1 @ [(requestId, data)]\<rparr>)"

section \<open>Closing tabs\<close>

definition closeRuntimeTerminalSessions :: "jsstr option list \<Rightarrow> connect_world \<Rightarrow> connect_world" where
  "closeRuntimeTerminalSessions sessions = fold terminalClose (rev (remdups (rev (List.map_filter opt_truthy sessions))))"

definition close_term_tabs :: "(term_tab \<Rightarrow> bool) \<Rightarrow> connect_world \<Rightarrow> connect_world" where
  "close_term_tabs closing w =
     (let w1 = fold stopTerminalWarmupCapture (map tt_id (filter closing (cw_tabs w))) w;
          w2 = closeRuntimeTerminalSessions (map tt_sessionId (filter closing (cw_tabs w))) w1
      in w2\<lparr>cw_tabs := filter (\<lambda>tab. \<not> closing tab) (cw_tabs w2)\<rparr>)"

definition closeTerminalTabs :: "jsstr list \<Rightarrow> connect_world \<Rightarrow> connect_world" where
  "closeTerminalTabs tabIds = close_term_tabs (\<lambda>tab. tt_id tab \<in> set tabIds)"

definition closeOtherTerminalTabs :: "jsstr \<Rightarrow> connect_world \<Rightarrow> connect_world" where
  "closeOtherTerminalTabs tabId w =
     (case List.find (\<lambda>item. tt_id item = tabId) (cw_tabs w) of
        None \<Rightarrow> w
      | Some tab \<Rightarrow> closeTerminalTabs (map tt_id
          (filter (\<lambda>item. tt_connectionId item = tt_connectionId tab \<and> tt_id item \<noteq> tabId) (cw_tabs w))) w)"

definition closeTerminalTabsToRight :: "jsstr \<Rightarrow> connect_world \<Rightarrow> connect_world" where
  "closeTerminalTabsToRight tabId w =
     (case List.find (\<lambda>item. tt_id item = tabId) (cw_tabs w) of
        None \<Rightarrow> w
      | Some tab \<Rightarrow>
          (let behind = dropWhile (\<lambda>item. tt_id item \<noteq> tabId)
                 (filter (\<lambda>item. tt_connectionId item = tt_connectionId tab) (cw_tabs w))
           in if behind = [] then w else closeTerminalTabs (map tt_id (tl behind)) w))"

definition closeAllTerminalTabsForConnection :: "jsstr \<Rightarrow> connect_world \<Rightarrow> connect_world" where
  "closeAllTerminalTabsForConnection connectionId w =
     closeTerminalTabs (map tt_id (filter (\<lambda>tab. tt_connectionId tab = connectionId) (cw_tabs w))) w"

text \<open>What closing the sessions of connections, or deleting a connection, does to the terminals.\<close>

definition close_connection_terminals :: "jsstr list \<Rightarrow> connect_world \<Rightarrow> connect_world" where
  "close_connection_terminals connectionIds = close_term_tabs (\<lambda>tab. tt_connectionId tab \<in> set connectionIds)"

definition closeLocalTerminalTabs :: "jsstr list \<Rightarrow> connect_world \<Rightarrow> connect_world" where
  "closeLocalTerminalTabs tabIds w =
     (let w1 = fold stopTerminalWarmupCapture tabIds w;
          w2 = closeRuntimeTerminalSessions (map lt_sessionId (filter (\<lambda>tab. lt_id tab \<in> set tabIds) (cw_locals w))) w1
      in w2\<lparr>cw_locals := filter (\<lambda>tab. lt_id tab \<notin> set tabIds) (cw_locals w2)\<rparr>)"

definition closeOtherLocalTerminalTabs :: "jsstr \<Rightarrow> connect_world \<Rightarrow> connect_world" where
  "closeOtherLocalTerminalTabs tabId w =
     closeLocalTerminalTabs (map lt_id (filter (\<lambda>tab. lt_id tab \<noteq> tabId) (cw_locals w))) w"

definition closeLocalTerminalTabsToRight :: "jsstr \<Rightarrow> connect_world \<Rightarrow> connect_world" where
  "closeLocalTerminalTabsToRight tabId w =
     (let behind = dropWhile (\<lambda>tab. lt_id tab \<noteq> tabId) (cw_locals w)
      in if behind = [] then w else closeLocalTerminalTabs (map lt_id (tl behind)) w)"

section \<open>Terminals on the page and their reconnection\<close>

text \<open>A terminal is on the page while its tab is a terminal with a session.\<close>

definition panel_shown :: "connect_world \<Rightarrow> terminal_panel \<Rightarrow> bool" where
  "panel_shown w p \<longleftrightarrow> list_ex (\<lambda>tab. tt_id tab = pn_tab p \<and> tt_type tab = TabTerminal
     \<and> opt_truthy (tt_sessionId tab) \<noteq> None) (cw_tabs w)"

definition render_panels :: "connect_world \<Rightarrow> connect_world" where
  "render_panels w = w\<lparr>cw_panels := map (\<lambda>p. p\<lparr>pn_mounted := (pn_mounted p \<and> panel_shown w p)\<rparr>) (cw_panels w)\<rparr>"

definition mount_panel :: "jsstr \<Rightarrow> connect_world \<Rightarrow> connect_world" where
  "mount_panel tabId w =
     (case List.find (\<lambda>tab. tt_id tab = tabId \<and> tt_type tab = TabTerminal \<and> opt_truthy (tt_sessionId tab) \<noteq> None) (cw_tabs w) of
        Some tab \<Rightarrow>
          if list_ex (\<lambda>p. pn_mounted p \<and> pn_tab p = tabId) (cw_panels w) then w
          else w\<lparr>cw_panels := cw_panels w @
                 [\<lparr>pn_tab = tabId, pn_mounted = True, pn_session = tt_sessionId tab, pn_pending = None\<rparr>]\<rparr>
      | None \<Rightarrow> w)"

definition update_panel :: "nat \<Rightarrow> (terminal_panel \<Rightarrow> terminal_panel) \<Rightarrow> connect_world \<Rightarrow> connect_world" where
  "update_panel k f w =
     (if k < length (cw_panels w) then w\<lparr>cw_panels := (cw_panels w)[k := f (cw_panels w ! k)]\<rparr> else w)"

definition reconnectCurrentTerminal :: "nat \<Rightarrow> connect_world \<Rightarrow> connect_world" where
  "reconnectCurrentTerminal k w =
     (if length (cw_panels w) \<le> k then w
      else let p = cw_panels w ! k in
        if \<not> pn_mounted p \<or> pn_pending p \<noteq> None then w
        else update_panel k (\<lambda>p. p\<lparr>pn_pending := Some (pn_session p), pn_session := None\<rparr>) w)"

definition reconnect_settled :: "nat \<Rightarrow> jsstr \<Rightarrow> jsstr option \<Rightarrow> connect_world \<Rightarrow> connect_world" where
  "reconnect_settled k now answer w =
     (if length (cw_panels w) \<le> k then w
      else let p = cw_panels w ! k in
        (case pn_pending p of
           None \<Rightarrow> w
         | Some previous \<Rightarrow>
             (case answer of
                Some session \<Rightarrow>
                  (let w1 = w\<lparr>cw_opened := cw_opened w @ [session]\<rparr>
                   in if \<not> pn_mounted p then terminalClose session (update_panel k (\<lambda>p. p\<lparr>pn_pending := None\<rparr>) w1)
                      else
                        (let w2 = updateTerminalRuntimeSession (pn_tab p) session (pn_tab p @ js ''-reconnect-'' @ now)
                               (update_panel k (\<lambda>p. p\<lparr>pn_pending := None, pn_session := Some session\<rparr>) w1)
                         in case opt_truthy previous of
                              Some old \<Rightarrow> if old \<noteq> session then terminalClose old w2 else w2
                            | None \<Rightarrow> w2))
              | None \<Rightarrow>
                  if \<not> pn_mounted p then update_panel k (\<lambda>p. p\<lparr>pn_pending := None\<rparr>) w
                  else update_panel k (\<lambda>p. p\<lparr>pn_pending := None, pn_session := previous\<rparr>) w)))"

section \<open>Events\<close>

datatype connect_event =
    UserConnect connection_profile step_mode nat jsstr
  | UserRetry jsstr jsstr
  | UserSubmit jsstr jsstr
  | UserTrust jsstr
  | UserAuthKind jsstr auth_kind
  | UserPassword jsstr jsstr
  | UserKeyPath jsstr jsstr
  | UserPassphrase jsstr jsstr
  | UserOpenTerminal connection_profile jsstr
  | UserOpenContainer connection_profile jsstr jsstr jsstr
  | UserOpenLocal "local_profile option" jsstr
  | UserOpenCharacter connection_profile jsstr bool
  | UserCloseTabs "jsstr list"
  | UserCloseOtherTabs jsstr
  | UserCloseTabsToRight jsstr
  | UserCloseConnectionTabs jsstr
  | UserCloseConnections "jsstr list"
  | UserCloseLocals "jsstr list"
  | UserCloseOtherLocals jsstr
  | UserCloseLocalsToRight jsstr
  | UserReconnect nat
  | PanelMounts jsstr
  | PanelReady jsstr
  | BackendResolves nat jsstr
  | BackendRejects nat json
  | BackendTrust nat jsstr "json option"
  | BackendProgress nat jsstr jsstr jsstr
  | BackendOutput jsstr "nat list"
  | BackendReconnect nat jsstr "jsstr option"
  | BackendWriteFailed jsstr json
  | CaptureTimer nat

text \<open>The page of an attempt acts on the step it shows; each button is there only in its state.\<close>

definition shown_step :: "jsstr \<Rightarrow> connect_world \<Rightarrow> connection_step option" where
  "shown_step tabId w =
     (case List.find (\<lambda>tab. tt_id tab = tabId) (cw_tabs w) of
        Some tab \<Rightarrow> if tt_type tab = TabConnecting then tt_connectionStep tab else None
      | None \<Rightarrow> None)"

definition on_step ::
  "step_status \<Rightarrow> jsstr \<Rightarrow> (connection_step \<Rightarrow> connect_world \<Rightarrow> connect_world) \<Rightarrow> connect_world \<Rightarrow> connect_world" where
  "on_step status tabId f w =
     (case shown_step tabId w of
        Some step \<Rightarrow> if cs_status step = status then f step w else w
      | None \<Rightarrow> w)"

definition edit_step :: "jsstr \<Rightarrow> (connection_step \<Rightarrow> connection_step) \<Rightarrow> connect_world \<Rightarrow> connect_world" where
  "edit_step tabId f = on_step StepPrompt tabId (\<lambda>step. updateConnectingTabStep tabId (f step))"

fun connect_event_step :: "connect_env \<Rightarrow> connect_event \<Rightarrow> connect_world \<Rightarrow> connect_world" where
  "connect_event_step env (UserConnect connection mode now uuid) w = startConnectionStep env now uuid connection mode w"
| "connect_event_step env (UserRetry i uuid) w = on_step StepError i (retryConnectionStep uuid i) w"
| "connect_event_step env (UserSubmit i uuid) w = on_step StepPrompt i (submitPromptCredential uuid i) w"
| "connect_event_step env (UserTrust i) w = on_step StepWaitingHostKey i (trustHostKeyAndRetry i) w"
| "connect_event_step env (UserAuthKind i kind) w =
     edit_step i (\<lambda>step. step\<lparr>cs_authKind := kind, cs_password := [], cs_privateKeyPath := []\<rparr>) w"
| "connect_event_step env (UserPassword i s) w = edit_step i (\<lambda>step. step\<lparr>cs_password := s\<rparr>) w"
| "connect_event_step env (UserKeyPath i s) w = edit_step i (\<lambda>step. step\<lparr>cs_privateKeyPath := s\<rparr>) w"
| "connect_event_step env (UserPassphrase i s) w = edit_step i (\<lambda>step. step\<lparr>cs_privateKeyPassphrase := s\<rparr>) w"
| "connect_event_step env (UserOpenTerminal connection nonce) w = openTerminalInConnection nonce connection w"
| "connect_event_step env (UserOpenContainer connection nonce name ident) w =
     openDockerContainerTerminal nonce connection name ident w"
| "connect_event_step env (UserOpenLocal profile nonce) w = openLocalTerminalByProfile nonce profile w"
| "connect_event_step env (UserOpenCharacter connection nonce again) w =
     (if again then openCharacterTerminalInConnection env nonce connection w
      else openCharacterConnectionSession env nonce connection w)"
| "connect_event_step env (UserCloseTabs ids) w = closeTerminalTabs ids w"
| "connect_event_step env (UserCloseOtherTabs i) w = closeOtherTerminalTabs i w"
| "connect_event_step env (UserCloseTabsToRight i) w = closeTerminalTabsToRight i w"
| "connect_event_step env (UserCloseConnectionTabs conn) w = closeAllTerminalTabsForConnection conn w"
| "connect_event_step env (UserCloseConnections conns) w = close_connection_terminals conns w"
| "connect_event_step env (UserCloseLocals ids) w = closeLocalTerminalTabs ids w"
| "connect_event_step env (UserCloseOtherLocals i) w = closeOtherLocalTerminalTabs i w"
| "connect_event_step env (UserCloseLocalsToRight i) w = closeLocalTerminalTabsToRight i w"
| "connect_event_step env (UserReconnect k) w = reconnectCurrentTerminal k w"
| "connect_event_step env (PanelMounts i) w = mount_panel i w"
| "connect_event_step env (PanelReady i) w = stopTerminalWarmupCapture i w"
| "connect_event_step env (BackendResolves k value) w =
     (if k < length (cw_attempts w) then attempt_resolved k (cw_attempts w ! k) value w else w)"
| "connect_event_step env (BackendRejects k e) w =
     (if k < length (cw_attempts w) then attempt_rejected env k (cw_attempts w ! k) e w else w)"
| "connect_event_step env (BackendTrust n uuid err) w =
     (case drop n (cw_trusts w) of
        (i, step) # rest \<Rightarrow> trust_answered env uuid i step err (w\<lparr>cw_trusts := take n (cw_trusts w) @ rest\<rparr>)
      | [] \<Rightarrow> w)"
| "connect_event_step env (BackendProgress k requestId stage message) w = progress_reported k requestId stage message w"
| "connect_event_step env (BackendOutput requestId data) w = output_sent requestId data w"
| "connect_event_step env (BackendReconnect k now answer) w = reconnect_settled k now answer w"
| "connect_event_step env (BackendWriteFailed i e) w =
     (if i \<in> fst ` set (cw_writes w)
      then update_term i (\<lambda>tab. tab\<lparr>tt_error := Some ([21629, 20196, 21457, 36865, 22833, 36133, 65306] @ formatError (ce_str env) e)\<rparr>) w \<comment> \<open>the command could not be sent\<close>
      else w)"
| "connect_event_step env (CaptureTimer k) w =
     (if k < length (cw_attempts w) \<and> at_handoff (cw_attempts w ! k)
      then stopTerminalWarmupCapture (at_tab (cw_attempts w ! k)) w else w)"

definition connect_step :: "connect_env \<Rightarrow> connect_event \<Rightarrow> connect_world \<Rightarrow> connect_world" where
  "connect_step env e w = render_panels (connect_event_step env e w)"

end
