(* ===== verification/Connect_Ledger.thy ===== *)
theory Connect_Ledger
  imports Connect_Flow
begin

text \<open>
  The ledger of sessions: each session the backend opened is held by exactly one tab or has been closed exactly
  once. The proof looks at a world through the part that matters for it, the view, and gives for every operation
  what it does to the view.
\<close>

section \<open>The view\<close>

datatype attempt_tag = TagStep | TagDirect | TagLocal

record session_view =
  sv_tabs :: "(jsstr \<times> tab_type \<times> jsstr option) list"
  sv_locals :: "(jsstr \<times> jsstr option) list"
  sv_attempts :: "(jsstr \<times> attempt_tag \<times> attempt_phase) list"
  sv_panels :: "terminal_panel list"
  sv_opened :: "jsstr list"
  sv_closed :: "jsstr list"

definition attempt_tag :: "attempt \<Rightarrow> attempt_tag" where
  "attempt_tag a = (case at_kind a of AttemptStep _ \<Rightarrow> TagStep | AttemptDirect _ _ \<Rightarrow> TagDirect | AttemptLocal _ \<Rightarrow> TagLocal)"

definition tab_view :: "term_tab \<Rightarrow> jsstr \<times> tab_type \<times> jsstr option" where
  "tab_view tab = (tt_id tab, tt_type tab, tt_sessionId tab)"

definition local_view :: "local_tab \<Rightarrow> jsstr \<times> jsstr option" where
  "local_view tab = (lt_id tab, lt_sessionId tab)"

definition attempt_view :: "attempt \<Rightarrow> jsstr \<times> attempt_tag \<times> attempt_phase" where
  "attempt_view a = (at_tab a, attempt_tag a, at_phase a)"

definition view :: "connect_world \<Rightarrow> session_view" where
  "view w = \<lparr>sv_tabs = map tab_view (cw_tabs w), sv_locals = map local_view (cw_locals w),
     sv_attempts = map attempt_view (cw_attempts w), sv_panels = cw_panels w, sv_opened = cw_opened w, sv_closed = cw_closed w\<rparr>"

lemma view_sel [simp]:
  "sv_tabs (view w) = map tab_view (cw_tabs w)" "sv_locals (view w) = map local_view (cw_locals w)"
  "sv_attempts (view w) = map attempt_view (cw_attempts w)" "sv_panels (view w) = cw_panels w"
  "sv_opened (view w) = cw_opened w" "sv_closed (view w) = cw_closed w"
  by (simp_all add: view_def)

definition held_sessions :: "session_view \<Rightarrow> jsstr list" where
  "held_sessions v = List.map_filter (\<lambda>(i, t, s). s) (sv_tabs v) @ List.map_filter snd (sv_locals v)"

section \<open>Operations that leave the view alone\<close>

lemma tags_simps [simp]:
  "attempt_tag (stop_attempt a) = attempt_tag a" "attempt_view (stop_attempt a) = attempt_view a"
  by (simp_all add: attempt_tag_def stop_attempt_def attempt_view_def)

lemma update_attempt_same:
  assumes "\<And>a. attempt_view (f a) = attempt_view a"
  shows "view (update_attempt k f w) = view w"
  using assms by (simp add: update_attempt_def view_def map_update list_update_same_conv)

lemma update_term_same:
  assumes "\<And>tab. tab_view (f tab) = tab_view tab"
  shows "view (update_term i f w) = view w"
  using assms by (simp add: update_term_def view_def)

lemma update_local_same:
  assumes "\<And>tab. local_view (f tab) = local_view tab"
  shows "view (update_local i f w) = view w"
  using assms by (simp add: update_local_def view_def)

lemma view_fields [simp]:
  "view (w\<lparr>cw_stops := s\<rparr>) = view w" "view (w\<lparr>cw_refreshed := r\<rparr>) = view w" "view (w\<lparr>cw_trusts := t\<rparr>) = view w"
  "view (w\<lparr>cw_emitted := e\<rparr>) = view w" "view (w\<lparr>cw_writes := x\<rparr>) = view w"
  by (simp_all add: view_def)

lemma view_stop [simp]: "view (stopTerminalWarmupCapture i w) = view w"
  by (simp add: stopTerminalWarmupCapture_def update_attempt_same split: option.split)

lemma view_set_stop [simp]: "view (setTerminalWarmupCaptureStop i k w) = view w"
  by (simp add: setTerminalWarmupCaptureStop_def Let_def)

lemma view_stops [simp]: "view (fold stopTerminalWarmupCapture is w) = view w"
  by (induction "is" arbitrary: w) simp_all

lemma view_step [simp]: "view (updateConnectingTabStep i s w) = view w"
  by (simp add: updateConnectingTabStep_def update_term_same stepped_tab_def tab_view_def)

lemma view_warmup [simp]: "view (appendTerminalWarmupOutput i d w) = view w" "view (appendLocalTerminalWarmupOutput i d w) = view w"
  by (simp_all add: appendTerminalWarmupOutput_def update_term_same tab_view_def appendLocalTerminalWarmupOutput_def
      update_local_same local_view_def)

lemma view_heard [simp]: "view (output_heard r d k w) = view w"
  by (auto simp: output_heard_def Let_def update_attempt_same attempt_view_def attempt_tag_def split: attempt_kind.split)

lemma view_sent [simp]: "view (output_sent r d w) = view w"
proof -
  have "view (fold (output_heard r d) ks w) = view w" for ks by (induction ks arbitrary: w) simp_all
  then show ?thesis by (simp add: output_sent_def Let_def)
qed

lemma view_progress [simp]: "view (progress_reported k r stage m w) = view w"
proof (cases "k < length (cw_attempts w)")
  case True
  then have "view (update_attempt k (\<lambda>a. a\<lparr>at_kind := AttemptStep s\<rparr>) w) = view w"
    if "at_kind (cw_attempts w ! k) = AttemptStep t" for s t
    using that by (simp add: update_attempt_def view_def map_update attempt_view_def attempt_tag_def list_update_same_conv)
  then show ?thesis using True by (simp add: progress_reported_def Let_def split: attempt_kind.split)
qed (simp add: progress_reported_def)

lemma view_edit [simp]: "view (edit_step i f w) = view w"
  by (simp add: edit_step_def on_step_def split: option.split)

section \<open>What the other operations do to the view\<close>

definition set_phase :: "nat \<Rightarrow> attempt_phase \<Rightarrow> session_view \<Rightarrow> session_view" where
  "set_phase k ph v = v\<lparr>sv_attempts := (sv_attempts v)[k := (case sv_attempts v ! k of (i, g, _) \<Rightarrow> (i, g, ph))]\<rparr>"

definition set_session :: "jsstr \<Rightarrow> jsstr \<Rightarrow> session_view \<Rightarrow> session_view" where
  "set_session i s v = v\<lparr>sv_tabs := map (\<lambda>(j, t, x). if j = i then (j, TabTerminal, Some s) else (j, t, x)) (sv_tabs v)\<rparr>"

definition set_local_session :: "jsstr \<Rightarrow> jsstr \<Rightarrow> session_view \<Rightarrow> session_view" where
  "set_local_session i s v = v\<lparr>sv_locals := map (\<lambda>(j, x). if j = i then (j, Some s) else (j, x)) (sv_locals v)\<rparr>"

lemma view_phase:
  assumes "k < length (cw_attempts w)"
    "attempt_view (f (cw_attempts w ! k)) = (at_tab (cw_attempts w ! k), attempt_tag (cw_attempts w ! k), ph)"
  shows "view (update_attempt k f w) = set_phase k ph (view w)"
  using assms by (simp add: update_attempt_def view_def map_update set_phase_def attempt_view_def)

lemma view_end: "k < length (cw_attempts w) \<Longrightarrow> view (end_attempt k w) = set_phase k AttemptEnded (view w)"
  unfolding end_attempt_def by (rule view_phase) (simp_all add: attempt_view_def attempt_tag_def)

lemma view_start [simp]: "view (start_attempt a w) = (view w)\<lparr>sv_attempts := sv_attempts (view w) @ [attempt_view a]\<rparr>"
  by (simp add: start_attempt_def view_def)

lemma view_opened [simp]: "view (w\<lparr>cw_opened := s\<rparr>) = (view w)\<lparr>sv_opened := s\<rparr>"
  by (simp add: view_def)

lemma view_close [simp]: "view (terminalClose s w) = (view w)\<lparr>sv_closed := cw_closed w @ [s]\<rparr>"
  by (simp add: terminalClose_def view_def)

lemma view_closes: "view (fold terminalClose ss w) = (view w)\<lparr>sv_closed := cw_closed w @ ss\<rparr>"
proof (induction ss arbitrary: w)
  case (Cons s ss)
  then show ?case by (simp add: terminalClose_def view_def)
qed (simp add: view_def)

end
