(* ===== verification/Connect_Ledger_Laws.thy ===== *)
theory Connect_Ledger_Laws
  imports Connect_Ledger
begin

text \<open>The invariant of the ledger on the view, and that every change of the view an operation makes keeps it.\<close>

section \<open>The invariant\<close>

definition waits_alone :: "session_view \<Rightarrow> jsstr \<times> attempt_tag \<times> attempt_phase \<Rightarrow> bool" where
  "waits_alone v a \<longleftrightarrow> (case a of (i, g, ph) \<Rightarrow> ph = AttemptEnded
     \<or> (g = TagDirect \<longrightarrow> (\<forall>(j, t, s)\<in>set (sv_tabs v). j = i \<longrightarrow> t = TabTerminal \<and> s = None))
       \<and> (g = TagLocal \<longrightarrow> (\<forall>(j, s)\<in>set (sv_locals v). j = i \<longrightarrow> s = None)))"

definition panel_ok :: "session_view \<Rightarrow> terminal_panel \<Rightarrow> bool" where
  "panel_ok v p \<longleftrightarrow> \<not> pn_mounted p
     \<or> (\<exists>s. (pn_tab p, TabTerminal, Some s) \<in> set (sv_tabs v) \<and> (case pn_pending p of None \<Rightarrow> pn_session p | Some x \<Rightarrow> x) = Some s)"

definition own_tabs :: "(jsstr \<times> attempt_tag \<times> attempt_phase) list \<Rightarrow> jsstr list" where
  "own_tabs as = map fst (filter (\<lambda>(i, g, ph). g \<noteq> TagStep) as)"

definition shown_tabs :: "terminal_panel list \<Rightarrow> jsstr list" where
  "shown_tabs ps = map pn_tab (filter pn_mounted ps)"

definition ledger_ok :: "session_view \<Rightarrow> bool" where
  "ledger_ok v \<longleftrightarrow> distinct (map fst (sv_tabs v)) \<and> distinct (map fst (sv_locals v))
     \<and> distinct (sv_opened v) \<and> [] \<notin> set (sv_opened v)
     \<and> mset (sv_opened v) = mset (held_sessions v) + mset (sv_closed v)
     \<and> (\<forall>(i, t, s)\<in>set (sv_tabs v). t = TabConnecting \<longrightarrow> s = None)
     \<and> (\<forall>a\<in>set (sv_attempts v). waits_alone v a) \<and> distinct (own_tabs (sv_attempts v))
     \<and> (\<forall>p\<in>set (sv_panels v). panel_ok v p) \<and> distinct (shown_tabs (sv_panels v))"

lemma own_tabs_simps [simp]:
  "own_tabs [] = []" "own_tabs (as @ bs) = own_tabs as @ own_tabs bs"
  "own_tabs (a # as) = (if fst (snd a) = TagStep then own_tabs as else fst a # own_tabs as)"
  by (simp_all add: own_tabs_def split: prod.splits)

lemma shown_tabs_simps [simp]:
  "shown_tabs [] = []" "shown_tabs (ps @ qs) = shown_tabs ps @ shown_tabs qs"
  "shown_tabs (p # ps) = (if pn_mounted p then pn_tab p # shown_tabs ps else shown_tabs ps)"
  by (simp_all add: shown_tabs_def)

lemma parts_simps [simp]:
  "waits_alone (v\<lparr>sv_attempts := as\<rparr>) = waits_alone v" "waits_alone (v\<lparr>sv_panels := ps\<rparr>) = waits_alone v"
  "waits_alone (v\<lparr>sv_opened := ss\<rparr>) = waits_alone v" "waits_alone (v\<lparr>sv_closed := ss\<rparr>) = waits_alone v"
  "panel_ok (v\<lparr>sv_attempts := as\<rparr>) = panel_ok v" "panel_ok (v\<lparr>sv_panels := ps\<rparr>) = panel_ok v"
  "panel_ok (v\<lparr>sv_opened := ss\<rparr>) = panel_ok v" "panel_ok (v\<lparr>sv_closed := ss\<rparr>) = panel_ok v"
  "panel_ok (v\<lparr>sv_locals := ls\<rparr>) = panel_ok v"
  "held_sessions (v\<lparr>sv_attempts := as\<rparr>) = held_sessions v" "held_sessions (v\<lparr>sv_panels := ps\<rparr>) = held_sessions v"
  "held_sessions (v\<lparr>sv_opened := ss\<rparr>) = held_sessions v" "held_sessions (v\<lparr>sv_closed := ss\<rparr>) = held_sessions v"
  by (auto simp: fun_eq_iff waits_alone_def panel_ok_def held_sessions_def)

lemma own_tabs_update:
  "k < length as \<Longrightarrow> as ! k = (i, g, ph) \<Longrightarrow> own_tabs (as[k := (i, g, ph')]) = own_tabs as"
proof (induction as arbitrary: k)
  case (Cons a as)
  then show ?case by (cases k) auto
qed simp

lemma own_tabs_in: "(i, g, ph) \<in> set as \<Longrightarrow> g \<noteq> TagStep \<Longrightarrow> i \<in> set (own_tabs as)"
  by (force simp: own_tabs_def)

text \<open>The attempts that own a tab are the only ones with it.\<close>

lemma own_tabs_unique:
  assumes "distinct (own_tabs as)" "k < length as" "as ! k = (i, g, ph)" "g \<noteq> TagStep" "(i, g', ph') \<in> set (as[k := b])" "g' \<noteq> TagStep"
  shows "(i, g', ph') = b"
  using assms
proof (induction as arbitrary: k)
  case (Cons a as)
  show ?case
  proof (cases k)
    case 0
    then show ?thesis using Cons.prems own_tabs_in [of i g' ph' as] by auto
  next
    case (Suc n)
    have "a \<noteq> (i, g', ph')"
      using Cons.prems own_tabs_in [of i g ph as] Suc by (auto dest: nth_mem)
    moreover have "distinct (own_tabs as)" using Cons.prems(1) by (auto split: if_splits)
    ultimately show ?thesis using Cons.prems Suc Cons.IH [of n] by simp
  qed
qed simp

lemma held_None:
  "held_sessions (v\<lparr>sv_tabs := sv_tabs v @ [(i, t, None)]\<rparr>) = held_sessions v"
  "held_sessions (v\<lparr>sv_locals := sv_locals v @ [(i, None)]\<rparr>) = held_sessions v"
  by (simp_all add: held_sessions_def List.map_filter_def)

lemma mset_map_filter_set:
  assumes "distinct (map fst T)" "(i, t, None) \<in> set T"
  shows "mset (List.map_filter (\<lambda>(i, t, s). s) (map (\<lambda>(j, t, x). if j = i then (j, t', Some s) else (j, t, x)) T))
    = add_mset s (mset (List.map_filter (\<lambda>(i, t, s). s) T))"
  using assms
proof (induction T)
  case (Cons a T)
  obtain j u x where a: "a = (j, u, x)" by (cases a) auto
  show ?case
  proof (cases "j = i")
    case True
    then have "\<forall>b\<in>set T. fst b \<noteq> i" using Cons.prems(1) a by (auto simp: rev_image_eqI)
    then have eq: "map (\<lambda>(j, t, x). if j = i then (j, t', Some s) else (j, t, x)) T = T"
      by (intro map_idI) auto
    have "x = None" using Cons.prems a True \<open>\<forall>b\<in>set T. fst b \<noteq> i\<close> by auto
    then show ?thesis by (simp only: a list.map eq) (simp add: True List.map_filter_simps)
  next
    case False
    then have "(i, t, None) \<in> set T" using Cons.prems a by auto
    then show ?thesis using Cons.IH Cons.prems(1) a False by (simp add: List.map_filter_simps split: option.split)
  qed
qed simp

lemma mset_map_filter_local:
  assumes "distinct (map fst T)" "(i, None) \<in> set T"
  shows "mset (List.map_filter snd (map (\<lambda>(j, x). if j = i then (j, Some s) else (j, x)) T))
    = add_mset s (mset (List.map_filter snd T))"
  using assms
proof (induction T)
  case (Cons a T)
  obtain j x where a: "a = (j, x)" by (cases a) auto
  show ?case
  proof (cases "j = i")
    case True
    then have "\<forall>b\<in>set T. fst b \<noteq> i" using Cons.prems(1) a by (auto simp: rev_image_eqI)
    then have "map (\<lambda>(j, x). if j = i then (j, Some s) else (j, x)) T = T"
      by (intro map_idI) auto
    moreover have "x = None" using Cons.prems a True \<open>\<forall>b\<in>set T. fst b \<noteq> i\<close> by auto
    ultimately show ?thesis using a True by (simp add: List.map_filter_simps del: map_map)
  next
    case False
    then have "(i, None) \<in> set T" using Cons.prems a by auto
    then show ?thesis using Cons.IH Cons.prems(1) a False by (simp add: List.map_filter_simps split: option.split)
  qed
qed simp

section \<open>Each change of the view keeps the invariant\<close>

lemma ledger_start:
  assumes "ledger_ok v" "waits_alone v (i, g, ph)" "g \<noteq> TagStep \<Longrightarrow> i \<notin> set (own_tabs (sv_attempts v))"
  shows "ledger_ok (v\<lparr>sv_attempts := sv_attempts v @ [(i, g, ph)]\<rparr>)"
  using assms by (simp add: ledger_ok_def held_sessions_def waits_alone_def panel_ok_def)

lemma waits_step [simp]: "waits_alone v (i, TagStep, ph)"
  by (simp add: waits_alone_def)

lemma ledger_new_tab:
  assumes "ledger_ok v" "i \<notin> fst ` set (sv_tabs v)" "i \<notin> fst ` set (sv_attempts v)"
  shows "ledger_ok (v\<lparr>sv_tabs := sv_tabs v @ [(i, t, None)]\<rparr>)"
proof -
  have "waits_alone (v\<lparr>sv_tabs := sv_tabs v @ [(i, t, None)]\<rparr>) a" if "a \<in> set (sv_attempts v)" for a
  proof -
    have "fst a \<noteq> i" "waits_alone v a" using that assms(1,3) by (auto simp: ledger_ok_def rev_image_eqI)
    then show ?thesis by (auto simp: waits_alone_def)
  qed
  then show ?thesis
    using assms(1,2) unfolding ledger_ok_def held_None by (auto simp: panel_ok_def)
qed

lemma ledger_new_local:
  assumes "ledger_ok v" "i \<notin> fst ` set (sv_locals v)"
  shows "ledger_ok (v\<lparr>sv_locals := sv_locals v @ [(i, None)]\<rparr>)"
  using assms unfolding ledger_ok_def held_None by (auto simp: panel_ok_def waits_alone_def)

lemma ledger_phase:
  assumes "ledger_ok v" "k < length (sv_attempts v)" "ph \<noteq> AttemptEnded \<Longrightarrow> snd (snd (sv_attempts v ! k)) \<noteq> AttemptEnded"
  shows "ledger_ok (set_phase k ph v)"
proof -
  obtain i g old where a: "sv_attempts v ! k = (i, g, old)" by (cases "sv_attempts v ! k") auto
  have "waits_alone v (i, g, old)" using assms(1,2) a nth_mem by (fastforce simp: ledger_ok_def)
  then have "waits_alone v (i, g, ph)" using assms(3) a by (auto simp: waits_alone_def)
  moreover have "set ((sv_attempts v)[k := (i, g, ph)]) \<subseteq> insert (i, g, ph) (set (sv_attempts v))"
    by (rule set_update_subset_insert)
  moreover have "own_tabs ((sv_attempts v)[k := (i, g, ph)]) = own_tabs (sv_attempts v)"
    by (rule own_tabs_update [OF assms(2) a])
  ultimately have "\<forall>a\<in>set ((sv_attempts v)[k := (i, g, ph)]). waits_alone v a" "distinct (own_tabs ((sv_attempts v)[k := (i, g, ph)]))"
    using assms(1) unfolding ledger_ok_def by auto
  then show ?thesis using assms(1) by (simp add: ledger_ok_def set_phase_def a)
qed

lemma ledger_open_close:
  assumes "ledger_ok v" "s \<noteq> []" "s \<notin> set (sv_opened v)"
  shows "ledger_ok (v\<lparr>sv_opened := sv_opened v @ [s], sv_closed := sv_closed v @ [s]\<rparr>)"
  using assms by (simp add: ledger_ok_def held_sessions_def waits_alone_def panel_ok_def)


section \<open>A session reaches a tab\<close>

text \<open>What a tab other than the changed one shows.\<close>

lemma set_session_in:
  "(j, t, x) \<in> set (sv_tabs (set_session i s v)) \<Longrightarrow> j \<noteq> i \<Longrightarrow> (j, t, x) \<in> set (sv_tabs v)"
  "(j, t, x) \<in> set (sv_tabs v) \<Longrightarrow> j \<noteq> i \<Longrightarrow> (j, t, x) \<in> set (sv_tabs (set_session i s v))"
  "(i, t, x) \<in> set (sv_tabs (set_session i s v)) \<Longrightarrow> t = TabTerminal \<and> x = Some s"
  by (force simp: set_session_def split: if_splits)+

lemma set_session_keys [simp]: "map fst (sv_tabs (set_session i s v)) = map fst (sv_tabs v)"
  by (auto simp: set_session_def)

lemma set_local_keys [simp]: "map fst (sv_locals (set_local_session i s v)) = map fst (sv_locals v)"
  by (auto simp: set_local_session_def)

lemma set_session_fields [simp]:
  "sv_locals (set_session i s v) = sv_locals v" "sv_attempts (set_session i s v) = sv_attempts v"
  "sv_panels (set_session i s v) = sv_panels v" "sv_opened (set_session i s v) = sv_opened v"
  "sv_closed (set_session i s v) = sv_closed v"
  "sv_tabs (set_local_session i s v) = sv_tabs v" "sv_attempts (set_local_session i s v) = sv_attempts v"
  "sv_panels (set_local_session i s v) = sv_panels v" "sv_opened (set_local_session i s v) = sv_opened v"
  "sv_closed (set_local_session i s v) = sv_closed v"
  by (simp_all add: set_session_def set_local_session_def)

lemma set_phase_fields [simp]:
  "sv_tabs (set_phase k ph v) = sv_tabs v" "sv_locals (set_phase k ph v) = sv_locals v"
  "sv_panels (set_phase k ph v) = sv_panels v" "sv_opened (set_phase k ph v) = sv_opened v"
  "sv_closed (set_phase k ph v) = sv_closed v" "held_sessions (set_phase k ph v) = held_sessions v"
  "waits_alone (set_phase k ph v) = waits_alone v" "panel_ok (set_phase k ph v) = panel_ok v"
  by (simp_all add: set_phase_def)

lemma opened_outside [simp]:
  "set_session i s (v\<lparr>sv_opened := ss\<rparr>) = (set_session i s v)\<lparr>sv_opened := ss\<rparr>"
  "set_local_session i s (v\<lparr>sv_opened := ss\<rparr>) = (set_local_session i s v)\<lparr>sv_opened := ss\<rparr>"
  "set_phase k ph (v\<lparr>sv_opened := ss\<rparr>) = (set_phase k ph v)\<lparr>sv_opened := ss\<rparr>"
  by (simp_all add: set_session_def set_local_session_def set_phase_def)

lemma key_unique: "distinct (map fst T) \<Longrightarrow> (i, a) \<in> set T \<Longrightarrow> (i, b) \<in> set T \<Longrightarrow> a = b"
  by (metis eq_key_imp_eq_value)

lemma panel_set_session:
  assumes "ledger_ok v" "p \<in> set (sv_panels v)" "(i, t, None) \<in> set (sv_tabs v)"
  shows "panel_ok (set_session i s v) p"
proof -
  have "pn_tab p \<noteq> i" if "(pn_tab p, TabTerminal, Some x) \<in> set (sv_tabs v)" for x
    using key_unique [of "sv_tabs v" i "(TabTerminal, Some x)" "(t, None)"] that assms(1,3) by (auto simp: ledger_ok_def)
  then show ?thesis
    using assms(1,2) set_session_in(2) unfolding ledger_ok_def panel_ok_def by blast
qed

lemma ledger_opened_tab:
  assumes v: "ledger_ok v" and tab: "(i, t, None) \<in> set (sv_tabs v)"
    and k: "k < length (sv_attempts v)" "sv_attempts v ! k = (i, g, ph)"
    and g: "g = TagStep \<and> t = TabConnecting \<or> g = TagDirect"
    and s: "s \<noteq> []" "s \<notin> set (sv_opened v)"
  shows "ledger_ok (set_phase k AttemptEnded (set_session i s (v\<lparr>sv_opened := sv_opened v @ [s]\<rparr>)))" (is "ledger_ok ?v")
proof -
  let ?u = "set_session i s v"
  have as: "sv_attempts ?v = (sv_attempts v)[k := (i, g, AttemptEnded)]" using k by (simp add: set_phase_def)
  have "waits_alone ?u a" if a: "a \<in> set (sv_attempts ?v)" for a
  proof -
    obtain j g' ph' where j: "a = (j, g', ph')" by (cases a) auto
    have old: "waits_alone v a" if "ph' \<noteq> AttemptEnded"
    proof -
      have "a \<in> insert (i, g, AttemptEnded) (set (sv_attempts v))"
        using a as set_update_subset_insert by (metis subsetD)
      then show ?thesis using v that j by (auto simp: ledger_ok_def)
    qed
    have "ph' = AttemptEnded" if "j = i" "g' = TagDirect"
    proof (rule ccontr)
      assume "ph' \<noteq> AttemptEnded"
      then have "t = TabTerminal" using old tab that j by (auto simp: waits_alone_def)
      then have "g = TagDirect" using g by auto
      with own_tabs_unique [of "sv_attempts v" k i g ph g' ph' "(i, g, AttemptEnded)"] v k a as j that
      show False using \<open>ph' \<noteq> AttemptEnded\<close> by (auto simp: ledger_ok_def)
    qed
    then show ?thesis
      using old set_session_in(1) [of j _ _ i s v] j unfolding waits_alone_def by fastforce
  qed
  moreover have "distinct (own_tabs (sv_attempts ?v))"
    unfolding as own_tabs_update [OF k] using v by (simp add: ledger_ok_def)
  moreover have "mset (held_sessions ?u) = add_mset s (mset (held_sessions v))"
    using mset_map_filter_set [OF _ tab] v by (simp add: held_sessions_def set_session_def ledger_ok_def)
  moreover have "t = TabConnecting \<longrightarrow> x = None" if "(j, t, x) \<in> set (sv_tabs ?u)" for j t x
    using that set_session_in(1) [of j t x i s v] set_session_in(3) [of i t x s v] v unfolding ledger_ok_def by (cases "j = i") fastforce+
  moreover have "\<forall>p\<in>set (sv_panels v). panel_ok ?u p" using panel_set_session v tab by blast
  ultimately show ?thesis
    using v s unfolding ledger_ok_def by (auto simp: waits_alone_def)
qed

lemma ledger_opened_local:
  assumes v: "ledger_ok v" and tab: "(i, None) \<in> set (sv_locals v)"
    and k: "k < length (sv_attempts v)" "sv_attempts v ! k = (i, TagLocal, ph)"
    and s: "s \<noteq> []" "s \<notin> set (sv_opened v)"
  shows "ledger_ok (set_phase k AttemptEnded (set_local_session i s (v\<lparr>sv_opened := sv_opened v @ [s]\<rparr>)))" (is "ledger_ok ?v")
proof -
  let ?u = "set_local_session i s v"
  have as: "sv_attempts ?v = (sv_attempts v)[k := (i, TagLocal, AttemptEnded)]" using k by (simp add: set_phase_def)
  have "waits_alone ?u a" if a: "a \<in> set (sv_attempts ?v)" for a
  proof -
    obtain j g' ph' where j: "a = (j, g', ph')" by (cases a) auto
    have "a \<in> insert (i, TagLocal, AttemptEnded) (set (sv_attempts v))"
      using a as set_update_subset_insert by (metis subsetD)
    then have "waits_alone v a" if "ph' \<noteq> AttemptEnded" using v that j by (auto simp: ledger_ok_def)
    moreover have "ph' = AttemptEnded" if "j = i" "g' = TagLocal"
      using own_tabs_unique [of "sv_attempts v" k i TagLocal ph g' ph' "(i, TagLocal, AttemptEnded)"] v k a as j that
      by (auto simp: ledger_ok_def)
    ultimately show ?thesis
      using j unfolding waits_alone_def set_local_session_def by (fastforce split: if_splits)
  qed
  moreover have "distinct (own_tabs (sv_attempts ?v))"
    unfolding as own_tabs_update [OF k] using v by (simp add: ledger_ok_def)
  moreover have "mset (held_sessions ?u) = add_mset s (mset (held_sessions v))"
    using mset_map_filter_local [OF _ tab] v by (simp add: held_sessions_def set_local_session_def ledger_ok_def)
  ultimately show ?thesis
    using v s unfolding ledger_ok_def by (auto simp: waits_alone_def panel_ok_def)
qed


section \<open>Panels and their reconnection\<close>

definition panel_session :: "terminal_panel \<Rightarrow> jsstr option" where
  "panel_session p = (case pn_pending p of None \<Rightarrow> pn_session p | Some x \<Rightarrow> x)"

lemma panel_ok_iff: "panel_ok v p \<longleftrightarrow> \<not> pn_mounted p
   \<or> (\<exists>s. (pn_tab p, TabTerminal, Some s) \<in> set (sv_tabs v) \<and> panel_session p = Some s)"
  by (simp add: panel_ok_def panel_session_def)

definition set_panel :: "nat \<Rightarrow> terminal_panel \<Rightarrow> session_view \<Rightarrow> session_view" where
  "set_panel k p v = v\<lparr>sv_panels := (sv_panels v)[k := p]\<rparr>"

lemma shown_tabs_update:
  "k < length ps \<Longrightarrow> pn_tab p = pn_tab (ps ! k) \<Longrightarrow> pn_mounted p = pn_mounted (ps ! k) \<Longrightarrow> shown_tabs (ps[k := p]) = shown_tabs ps"
proof (induction ps arbitrary: k)
  case (Cons a ps)
  then show ?case by (cases k) auto
qed simp

lemma ledger_set_panel:
  assumes "ledger_ok v" "k < length (sv_panels v)" "pn_tab p = pn_tab (sv_panels v ! k)" "pn_mounted p = pn_mounted (sv_panels v ! k)"
    "pn_mounted p \<Longrightarrow> panel_session p = panel_session (sv_panels v ! k)"
  shows "ledger_ok (set_panel k p v)"
proof -
  have "panel_ok v (sv_panels v ! k)" using assms(1,2) by (simp add: ledger_ok_def)
  then have "panel_ok v p" using assms(3-5) by (auto simp: panel_ok_iff)
  then have "\<forall>q\<in>set ((sv_panels v)[k := p]). panel_ok v q"
    using assms(1) set_update_subset_insert [of "sv_panels v" k p] by (auto simp: ledger_ok_def)
  then show ?thesis
    using assms shown_tabs_update [of k "sv_panels v" p] by (simp add: ledger_ok_def set_panel_def)
qed

lemma ledger_mount:
  assumes "ledger_ok v" "(i, TabTerminal, Some s) \<in> set (sv_tabs v)" "i \<notin> set (shown_tabs (sv_panels v))"
  shows "ledger_ok (v\<lparr>sv_panels := sv_panels v @ [\<lparr>pn_tab = i, pn_mounted = True, pn_session = Some s, pn_pending = None\<rparr>]\<rparr>)"
  using assms by (auto simp: ledger_ok_def panel_ok_def)

lemma mset_map_filter_replace:
  assumes "distinct (map fst T)" "(i, t, Some old) \<in> set T"
  shows "add_mset old (mset (List.map_filter (\<lambda>(i, t, s). s) (map (\<lambda>(j, t, x). if j = i then (j, t', Some s) else (j, t, x)) T)))
    = add_mset s (mset (List.map_filter (\<lambda>(i, t, s). s) T))"
  using assms
proof (induction T)
  case (Cons a T)
  obtain j u x where a: "a = (j, u, x)" by (cases a) auto
  show ?case
  proof (cases "j = i")
    case True
    then have "\<forall>b\<in>set T. fst b \<noteq> i" using Cons.prems(1) a by (auto simp: rev_image_eqI)
    then have eq: "map (\<lambda>(j, t, x). if j = i then (j, t', Some s) else (j, t, x)) T = T"
      by (intro map_idI) auto
    have "x = Some old" using Cons.prems a True \<open>\<forall>b\<in>set T. fst b \<noteq> i\<close> by auto
    then show ?thesis by (simp only: a list.map eq) (simp add: True List.map_filter_simps)
  next
    case False
    then have "(i, t, Some old) \<in> set T" using Cons.prems a by auto
    then show ?thesis
      using Cons.IH Cons.prems(1) a False by (auto simp: List.map_filter_simps add_mset_commute split: option.split)
  qed
qed simp

lemma shown_panel_unique:
  assumes "distinct (shown_tabs ps)" "k < length ps" "pn_mounted (ps ! k)" "q \<in> set (ps[k := p])" "pn_mounted q"
    "pn_tab q = pn_tab (ps ! k)"
  shows "q = p"
  using assms
proof (induction ps arbitrary: k)
  case (Cons a ps)
  have in_shown: "pn_tab r \<in> set (shown_tabs ps)" if "r \<in> set ps" "pn_mounted r" for r
    using that by (auto simp: shown_tabs_def)
  show ?case
  proof (cases k)
    case 0
    then have "q \<notin> set ps" using Cons.prems in_shown [of q] by auto
    then show ?thesis using Cons.prems 0 by auto
  next
    case (Suc n)
    then have "q \<noteq> a" using Cons.prems in_shown [of "ps ! n"] by auto
    moreover have "distinct (shown_tabs ps)" using Cons.prems(1) by (auto split: if_splits)
    ultimately show ?thesis using Cons.prems Suc Cons.IH [of n] by simp
  qed
qed simp

lemma ledger_reconnected:
  assumes v: "ledger_ok v" and k: "k < length (sv_panels v)" "sv_panels v ! k = p" "pn_mounted p" "panel_session p = Some old"
    and q: "pn_tab q = pn_tab p" "pn_mounted q" "panel_session q = Some s"
    and s: "s \<noteq> []" "s \<notin> set (sv_opened v)"
  shows "ledger_ok ((set_panel k q (set_session (pn_tab p) s v))\<lparr>sv_opened := sv_opened v @ [s], sv_closed := sv_closed v @ [old]\<rparr>)"
proof -
  let ?i = "pn_tab p" and ?u = "set_session (pn_tab p) s v"
  have "panel_ok v p" using v k by (auto simp: ledger_ok_def)
  then have tab: "(?i, TabTerminal, Some old) \<in> set (sv_tabs v)" using k by (auto simp: panel_ok_iff)
  have unique: "b = (TabTerminal, Some old)" if "(?i, b) \<in> set (sv_tabs v)" for b
    using key_unique that tab v by (fastforce simp: ledger_ok_def)
  have "waits_alone ?u a" if a: "a \<in> set (sv_attempts v)" for a
  proof -
    obtain j g ph where j: "a = (j, g, ph)" by (cases a) auto
    have w: "waits_alone v a" using v a by (auto simp: ledger_ok_def)
    have "ph = AttemptEnded" if "j = ?i" "g = TagDirect" using w tab that j by (auto simp: waits_alone_def)
    then show ?thesis using w set_session_in(1) [of j _ _ ?i s v] j unfolding waits_alone_def by fastforce
  qed
  moreover have "panel_ok ?u r" if r: "r \<in> set ((sv_panels v)[k := q])" for r
  proof (cases "pn_mounted r \<and> pn_tab r = ?i")
    case True
    then have "r = q" using shown_panel_unique [of "sv_panels v" k r q] v k r by (auto simp: ledger_ok_def)
    moreover have "(?i, TabTerminal, Some s) \<in> set (sv_tabs ?u)" using tab by (force simp: set_session_def)
    ultimately show ?thesis using q by (auto simp: panel_ok_iff)
  next
    case False
    then have "r \<in> set (sv_panels v)" using r set_update_subset_insert [of "sv_panels v" k q] q by auto
    then have "panel_ok v r" using v by (simp add: ledger_ok_def)
    then show ?thesis using False set_session_in(2) [of "pn_tab r" TabTerminal _ v ?i s] by (auto simp: panel_ok_iff)
  qed
  moreover have "add_mset old (mset (held_sessions ?u)) = add_mset s (mset (held_sessions v))"
    using mset_map_filter_replace [OF _ tab] v by (simp add: held_sessions_def set_session_def ledger_ok_def)
  moreover have "t = TabConnecting \<longrightarrow> x = None" if "(j, t, x) \<in> set (sv_tabs ?u)" for j t x
    using that set_session_in(1) [of j t x ?i s v] set_session_in(3) [of ?i t x s v] v unfolding ledger_ok_def
    by (cases "j = ?i") fastforce+
  moreover have "distinct (shown_tabs ((sv_panels v)[k := q]))"
    using shown_tabs_update [of k "sv_panels v" q] v k q by (simp add: ledger_ok_def)
  ultimately show ?thesis
    using v s unfolding ledger_ok_def by (auto simp: set_panel_def)
qed

section \<open>Closing tabs, and the page drawn again\<close>

definition draw_panels :: "session_view \<Rightarrow> session_view" where
  "draw_panels v = v\<lparr>sv_panels := map (\<lambda>p. p\<lparr>pn_mounted := (pn_mounted p
     \<and> (\<exists>s. (pn_tab p, TabTerminal, Some s) \<in> set (sv_tabs v) \<and> s \<noteq> []))\<rparr>) (sv_panels v)\<rparr>"

lemma shown_tabs_fewer: "distinct (shown_tabs ps) \<Longrightarrow> distinct (shown_tabs (map (\<lambda>p. p\<lparr>pn_mounted := (pn_mounted p \<and> P p)\<rparr>) ps))
   \<and> set (shown_tabs (map (\<lambda>p. p\<lparr>pn_mounted := (pn_mounted p \<and> P p)\<rparr>) ps)) \<subseteq> set (shown_tabs ps)"
  by (induction ps) auto

lemma draw_simps [simp]:
  "sv_tabs (draw_panels v) = sv_tabs v" "sv_locals (draw_panels v) = sv_locals v" "sv_attempts (draw_panels v) = sv_attempts v"
  "sv_opened (draw_panels v) = sv_opened v" "sv_closed (draw_panels v) = sv_closed v"
  "held_sessions (draw_panels v) = held_sessions v" "waits_alone (draw_panels v) = waits_alone v"
  "panel_ok (draw_panels v) = panel_ok v"
  by (simp_all add: draw_panels_def)

lemma waits_fewer:
  assumes "waits_alone v a" "set (sv_tabs u) \<subseteq> set (sv_tabs v)" "set (sv_locals u) \<subseteq> set (sv_locals v)"
  shows "waits_alone u a"
  using assms unfolding waits_alone_def by (cases a) blast

text \<open>A panel drawn again is on the page only if its tab is, and then it has the session of its tab.\<close>

lemma panel_drawn:
  assumes v: "distinct (map fst (sv_tabs v))" "\<And>q. q \<in> set (sv_panels v) \<Longrightarrow> panel_ok v q"
    and u: "set (sv_tabs u) \<subseteq> set (sv_tabs v)" "sv_panels u = sv_panels v" and p: "p \<in> set (sv_panels (draw_panels u))"
  shows "panel_ok u p"
proof (cases "pn_mounted p")
  case True
  obtain q where q: "q \<in> set (sv_panels v)"
    and p: "p = q\<lparr>pn_mounted := (pn_mounted q \<and> (\<exists>s. (pn_tab q, TabTerminal, Some s) \<in> set (sv_tabs u) \<and> s \<noteq> []))\<rparr>"
    using p u(2) by (auto simp: draw_panels_def)
  obtain s where s: "pn_mounted q" "(pn_tab q, TabTerminal, Some s) \<in> set (sv_tabs u)" using True p by auto
  moreover obtain s' where s': "(pn_tab q, TabTerminal, Some s') \<in> set (sv_tabs v)" "panel_session q = Some s'"
    using v(2) [OF q] s(1) unfolding panel_ok_iff by blast
  moreover have "s' = s" using key_unique [OF v(1) s'(1), of "(TabTerminal, Some s)"] s(2) u(1) by auto
  moreover have "pn_tab p = pn_tab q" "panel_session p = panel_session q" unfolding p by (simp_all add: panel_session_def split: option.split)
  ultimately show ?thesis unfolding panel_ok_iff by metis
qed (simp add: panel_ok_def)

text \<open>A world after its tabs were closed: the panels of closed tabs go when the page is drawn.\<close>

lemma ledger_closed:
  assumes v: "ledger_ok v"
    and tabs: "set T \<subseteq> set (sv_tabs v)" "distinct (map fst T)" and locals: "set L \<subseteq> set (sv_locals v)" "distinct (map fst L)"
    and closed: "mset (held_sessions v) = mset (held_sessions (v\<lparr>sv_tabs := T, sv_locals := L\<rparr>)) + mset C"
  shows "ledger_ok (draw_panels (v\<lparr>sv_tabs := T, sv_locals := L, sv_closed := sv_closed v @ C\<rparr>))" (is "ledger_ok (draw_panels ?v)")
proof -
  have "\<forall>a\<in>set (sv_attempts v). waits_alone ?v a"
    using v waits_fewer [of v _ ?v] tabs(1) locals(1) by (simp add: ledger_ok_def)
  moreover have "\<forall>p\<in>set (sv_panels (draw_panels ?v)). panel_ok ?v p"
    using v panel_drawn [of v ?v] tabs(1) by (simp add: ledger_ok_def)
  moreover have "distinct (shown_tabs (sv_panels (draw_panels ?v)))"
    using shown_tabs_fewer v by (simp add: draw_panels_def ledger_ok_def)
  moreover have "\<forall>(i, t, s)\<in>set T. t = TabConnecting \<longrightarrow> s = None"
    using v tabs(1) unfolding ledger_ok_def by blast
  moreover have "held_sessions ?v = held_sessions (v\<lparr>sv_tabs := T, sv_locals := L\<rparr>)" by (simp add: held_sessions_def)
  ultimately show ?thesis
    using v tabs(2) locals(2) closed unfolding ledger_ok_def by simp
qed

lemma ledger_drawn:
  assumes "ledger_ok v" shows "ledger_ok (draw_panels v)"
  using ledger_closed [OF assms, of "sv_tabs v" "sv_locals v" "[]"] assms by (simp add: ledger_ok_def)

end
