(* ===== verification/Connect_Safety.thy ===== *)
theory Connect_Safety
  imports Connect_Ledger_Laws
begin

text \<open>
  Reachable worlds of the connection flow, and that no session is lost: whatever the user and the backend do, in
  whatever order, every session that was opened is in exactly one tab or was closed exactly once.
\<close>

section \<open>Reachable worlds\<close>

text \<open>What the program relies on: the clock and the random numbers give a tab an identifier that was not used, and the
  backend gives a session one that is not empty and was not used.\<close>

definition fresh_tab :: "jsstr \<Rightarrow> connect_world \<Rightarrow> bool" where
  "fresh_tab i w \<longleftrightarrow> \<not> list_ex (\<lambda>tab. tt_id tab = i) (cw_tabs w) \<and> \<not> list_ex (\<lambda>tab. lt_id tab = i) (cw_locals w)
     \<and> \<not> list_ex (\<lambda>a. at_tab a = i) (cw_attempts w)"

definition fresh_session :: "jsstr \<Rightarrow> connect_world \<Rightarrow> bool" where
  "fresh_session s w \<longleftrightarrow> s \<noteq> [] \<and> \<not> list_ex (\<lambda>x. x = s) (cw_opened w)"

fun event_allowed :: "connect_event \<Rightarrow> connect_world \<Rightarrow> bool" where
  "event_allowed (UserConnect c m now uuid) w = fresh_tab (js ''connection-'' @ cp_id c @ js ''-'' @ dec_digits now) w"
| "event_allowed (UserOpenTerminal c nonce) w = fresh_tab (js ''terminal-'' @ cp_id c @ js ''-'' @ nonce) w"
| "event_allowed (UserOpenContainer c nonce name ident) w = fresh_tab (js ''terminal-'' @ cp_id c @ js ''-'' @ nonce) w"
| "event_allowed (UserOpenLocal p nonce) w = fresh_tab (js ''local-terminal-'' @ nonce) w"
| "event_allowed (UserOpenCharacter c nonce again) w =
     fresh_tab ((if connection_protocol c = ProtoTelnet then js ''telnet'' else js ''serial'') @ js ''-terminal-'' @ nonce) w"
| "event_allowed (BackendResolves k s) w =
     (if k < length (cw_attempts w) \<and> at_phase (cw_attempts w ! k) = AwaitSession then fresh_session s w else True)"
| "event_allowed (BackendReconnect k now answer) w = (case answer of Some s \<Rightarrow> fresh_session s w | None \<Rightarrow> True)"
| "event_allowed _ w = True"

inductive connect_reach :: "connect_env \<Rightarrow> connect_world \<Rightarrow> bool" for env where
  reach_start: "connect_reach env connect_start"
| reach_step: "connect_reach env w \<Longrightarrow> event_allowed e w \<Longrightarrow> connect_reach env (connect_step env e w)"

section \<open>What each event does to the ledger\<close>

lemma fresh_tab_view:
  "fresh_tab i w \<longleftrightarrow> i \<notin> fst ` set (sv_tabs (view w)) \<and> i \<notin> fst ` set (sv_locals (view w)) \<and> i \<notin> fst ` set (sv_attempts (view w))"
  by (auto simp: fresh_tab_def list_ex_iff tab_view_def local_view_def attempt_view_def image_iff)

lemma fresh_session_view: "fresh_session s w \<longleftrightarrow> s \<noteq> [] \<and> s \<notin> set (sv_opened (view w))"
  by (auto simp: fresh_session_def list_ex_iff)

lemma opt_truthy_not_None: "opt_truthy x \<noteq> None \<longleftrightarrow> (\<exists>s. x = Some s \<and> s \<noteq> [])"
  by (cases x) (auto simp: opt_truthy_def)

lemma panel_shown_view:
  "panel_shown w p \<longleftrightarrow> (\<exists>s. (pn_tab p, TabTerminal, Some s) \<in> set (sv_tabs (view w)) \<and> s \<noteq> [])"
  unfolding panel_shown_def list_ex_iff opt_truthy_not_None by (simp add: tab_view_def image_iff) metis

lemma view_render [simp]: "view (render_panels w) = draw_panels (view w)"
  by (simp add: render_panels_def draw_panels_def panel_shown_view view_def)

lemma parts_attempts: "sv_attempts (v\<lparr>sv_opened := a, sv_closed := b\<rparr>) = sv_attempts v"
  by simp

lemma own_tabs_fst: "set (own_tabs as) \<subseteq> fst ` set as"
  by (force simp: own_tabs_def)

lemma view_run_step:
  "view (runConnectionStep uuid i step w)
   = (view w)\<lparr>sv_attempts := sv_attempts (view w) @
       [(i, TagStep, if cs_mode step = ModeTerminal then AwaitOutputListener else AwaitTest)]\<rparr>"
  by (simp add: runConnectionStep_def Let_def attempt_view_def attempt_tag_def new_attempt_def)

lemma ledger_run_step: "ledger_ok (view w) \<Longrightarrow> ledger_ok (view (runConnectionStep uuid i step w))"
  unfolding view_run_step by (rule ledger_start) simp_all

lemma view_new_tab: "view (w\<lparr>cw_tabs := cw_tabs w @ [tab]\<rparr>) = (view w)\<lparr>sv_tabs := sv_tabs (view w) @ [tab_view tab]\<rparr>"
  by (simp add: view_def)

lemma view_new_local: "view (w\<lparr>cw_locals := cw_locals w @ [tab]\<rparr>) = (view w)\<lparr>sv_locals := sv_locals (view w) @ [local_view tab]\<rparr>"
  by (simp add: view_def)

lemma ledger_connect:
  assumes "ledger_ok (view w)" "event_allowed (UserConnect c m now uuid) w"
  shows "ledger_ok (view (startConnectionStep env now uuid c m w))"
proof -
  let ?tab = "buildConnectingTab (cw_tabs w) c (initial_step env now c m)"
  have "ledger_ok (view (w\<lparr>cw_tabs := cw_tabs w @ [?tab]\<rparr>))"
    using ledger_new_tab [of "view w"] assms unfolding view_new_tab event_allowed.simps fresh_tab_view
    by (simp add: tab_view_def buildConnectingTab_def initial_step_def)
  then show ?thesis using assms(1) ledger_run_step by (simp add: startConnectionStep_def Let_def)
qed

lemma ledger_direct:
  assumes "ledger_ok (view w)" "fresh_tab (tt_id tab) w" "tt_sessionId tab = None" "tt_type tab = TabTerminal"
  shows "ledger_ok (view (start_attempt (new_attempt (tt_id tab) (AttemptDirect c command) AwaitOutputListener r)
           (w\<lparr>cw_tabs := cw_tabs w @ [tab]\<rparr>)))"
proof -
  let ?v = "view (w\<lparr>cw_tabs := cw_tabs w @ [tab]\<rparr>)"
  have "ledger_ok ?v"
    using ledger_new_tab [of "view w" "tt_id tab" "tt_type tab"] assms unfolding view_new_tab fresh_tab_view
    by (simp add: tab_view_def)
  moreover have "waits_alone ?v (tt_id tab, TagDirect, AwaitOutputListener)"
    using assms by (auto simp: waits_alone_def tab_view_def fresh_tab_def list_ex_iff)
  moreover have "tt_id tab \<notin> set (own_tabs (sv_attempts ?v))"
    using assms(2) own_tabs_fst [of "map attempt_view (cw_attempts w)"] unfolding fresh_tab_view view_new_tab by auto
  ultimately show ?thesis
    using ledger_start [of ?v "tt_id tab" TagDirect AwaitOutputListener]
    by (simp add: attempt_view_def attempt_tag_def new_attempt_def)
qed

lemma ledger_local:
  assumes "ledger_ok (view w)" "fresh_tab (lt_id tab) w" "lt_sessionId tab = None"
  shows "ledger_ok (view (start_attempt (new_attempt (lt_id tab) (AttemptLocal call) AwaitOutputListener r)
           (w\<lparr>cw_locals := cw_locals w @ [tab]\<rparr>)))"
proof -
  let ?v = "view (w\<lparr>cw_locals := cw_locals w @ [tab]\<rparr>)"
  have "ledger_ok ?v"
    using ledger_new_local [of "view w" "lt_id tab"] assms unfolding view_new_local fresh_tab_view
    by (simp add: local_view_def)
  moreover have "waits_alone ?v (lt_id tab, TagLocal, AwaitOutputListener)"
    using assms by (auto simp: waits_alone_def local_view_def fresh_tab_def list_ex_iff)
  moreover have "lt_id tab \<notin> set (own_tabs (sv_attempts ?v))"
    using assms(2) own_tabs_fst [of "map attempt_view (cw_attempts w)"] unfolding fresh_tab_view view_new_local by auto
  ultimately show ?thesis
    using ledger_start [of ?v "lt_id tab" TagLocal AwaitOutputListener]
    by (simp add: attempt_view_def attempt_tag_def new_attempt_def)
qed

lemma stop_closed: "cw_closed (stopTerminalWarmupCapture i w) = cw_closed w" "cw_opened (stopTerminalWarmupCapture i w) = cw_opened w"
  by (metis view_stop view_sel(6)) (metis view_stop view_sel(5))

lemma attempts_stop [simp]:
  "length (cw_attempts (stopTerminalWarmupCapture i w)) = length (cw_attempts w)"
  "length (cw_attempts (setTerminalWarmupCaptureStop i k w)) = length (cw_attempts w)"
  "length (cw_attempts (update_attempt k f w)) = length (cw_attempts w)"
  "length (cw_attempts (updateConnectingTabStep i s w)) = length (cw_attempts w)"
  "length (cw_attempts (update_term i g w)) = length (cw_attempts w)"
  "length (cw_attempts (update_local i h w)) = length (cw_attempts w)"
  "length (cw_attempts (terminalClose x w)) = length (cw_attempts w)"
  by (simp_all add: stopTerminalWarmupCapture_def setTerminalWarmupCaptureStop_def update_attempt_def Let_def
      updateConnectingTabStep_def update_term_def update_local_def terminalClose_def split: option.split)


lemma view_set_session:
  assumes "\<And>tab. tab \<in> set (cw_tabs w) \<Longrightarrow> tt_id tab = i \<Longrightarrow> tab_view (f tab) = (i, TabTerminal, Some s)"
  shows "view (update_term i f w) = set_session i s (view w)"
  using assms by (auto simp: update_term_def view_def set_session_def tab_view_def)

lemma view_set_local:
  assumes "\<And>tab. tab \<in> set (cw_locals w) \<Longrightarrow> lt_id tab = i \<Longrightarrow> local_view (f tab) = (i, Some s)"
  shows "view (update_local i f w) = set_local_session i s (view w)"
  using assms by (auto simp: update_local_def view_def set_local_session_def local_view_def)

definition attempt_live :: "nat \<Rightarrow> connect_world \<Rightarrow> bool" where
  "attempt_live k w \<longleftrightarrow> k < length (cw_attempts w) \<and> at_phase (cw_attempts w ! k) \<noteq> AttemptEnded"

lemma ledger_live: "ledger_ok (view w) \<Longrightarrow> attempt_live k w \<Longrightarrow> ledger_ok (set_phase k ph (view w))"
  by (rule ledger_phase) (simp_all add: attempt_live_def attempt_view_def)

lemma ledger_ended:
  "ledger_ok (view w) \<Longrightarrow> attempt_live k w \<Longrightarrow> view u = view w \<Longrightarrow> length (cw_attempts u) = length (cw_attempts w)
   \<Longrightarrow> ledger_ok (view (end_attempt k u))"
  using ledger_live by (simp add: view_end attempt_live_def)

lemma ledger_output_listener:
  assumes "ledger_ok (view w)" "attempt_live k w"
  shows "ledger_ok (view (output_listener_ready k (cw_attempts w ! k) w))"
proof -
  have "view (update_attempt k (\<lambda>a. a\<lparr>at_capturing := True, at_since := n, at_phase := (if is_step_attempt a then p else q)\<rparr>) w)
      = set_phase k (if is_step_attempt (cw_attempts w ! k) then p else q) (view w)" for n p q
    by (rule view_phase) (use assms(2) in \<open>simp_all add: attempt_live_def attempt_view_def attempt_tag_def\<close>)
  then show ?thesis
    using ledger_live [OF assms] by (simp add: output_listener_ready_def Let_def)
qed

lemma ledger_progress_listener:
  assumes "ledger_ok (view w)" "attempt_live k w"
  shows "ledger_ok (view (progress_listener_ready k (cw_attempts w ! k) w))"
proof -
  define u where "u = setTerminalWarmupCaptureStop (at_tab (cw_attempts w ! k)) k (update_attempt k (\<lambda>a. a\<lparr>at_progress := True\<rparr>) w)"
  have u: "view u = view w" "length (cw_attempts u) = length (cw_attempts w)"
    by (simp_all add: u_def update_attempt_same attempt_view_def attempt_tag_def)
  have "view (update_attempt k (\<lambda>a. a\<lparr>at_phase := AwaitSession\<rparr>) u) = set_phase k AwaitSession (view u)"
    by (rule view_phase) (use assms(2) u in \<open>simp_all add: attempt_live_def attempt_view_def attempt_tag_def\<close>)
  then show ?thesis
    using ledger_live [OF assms] ledger_ended [OF assms] u by (simp add: progress_listener_ready_def flip: u_def)
qed

lemma ledger_refused:
  assumes "ledger_ok (view w)" "attempt_live k w" "fresh_session s w"
    "view u = (view w)\<lparr>sv_opened := cw_opened w @ [s], sv_closed := cw_closed w @ [s]\<rparr>" "length (cw_attempts u) = length (cw_attempts w)"
  shows "ledger_ok (view (end_attempt k u))"
proof -
  have "ledger_ok (view u)"
    using ledger_open_close [OF assms(1), of s] assms(3,4) by (simp add: fresh_session_view)
  moreover have "map attempt_view (cw_attempts u) = map attempt_view (cw_attempts w)"
    using assms(4) by (metis parts_attempts view_sel(3))
  ultimately show ?thesis using assms(2,5) ledger_phase [of "view u" k AttemptEnded] by (simp add: view_end attempt_live_def)
qed


lemma tab_none:
  assumes "ledger_ok (view w)" "tab \<in> set (cw_tabs w)" "tt_type tab = TabConnecting"
  shows "(tt_id tab, TabConnecting, None) \<in> set (sv_tabs (view w))"
proof -
  have in_view: "(tt_id tab, TabConnecting, tt_sessionId tab) \<in> set (sv_tabs (view w))"
    using assms(2,3) by (force simp: tab_view_def)
  moreover have "tt_sessionId tab = None" using assms(1) in_view by (auto simp: ledger_ok_def)
  ultimately show ?thesis by simp
qed

lemma live_waits:
  assumes "ledger_ok (view w)" "attempt_live k w"
  shows "waits_alone (view w) (attempt_view (cw_attempts w ! k))"
  using assms nth_mem [of k "cw_attempts w"] by (auto simp: ledger_ok_def attempt_live_def)

lemma live_view:
  "attempt_live k w \<Longrightarrow> k < length (sv_attempts (view w)) \<and> sv_attempts (view w) ! k = attempt_view (cw_attempts w ! k)"
  by (simp add: attempt_live_def)

lemma ledger_step_opened:
  assumes w: "ledger_ok (view w)" "attempt_live k w" "fresh_session s w"
    and a: "a = cw_attempts w ! k" "at_kind a = AttemptStep running"
  shows "ledger_ok (view (step_session_opened k a running s (w\<lparr>cw_opened := cw_opened w @ [s]\<rparr>)))"
proof (cases "connectingTabExists (at_tab a) w")
  case False
  then have "\<not> connectingTabExists (at_tab a) (w\<lparr>cw_opened := cw_opened w @ [s]\<rparr>)" by (simp add: connectingTabExists_def)
  then show ?thesis unfolding step_session_opened_def
    by (simp only: if_True simp_thms not_False_eq_True) (rule ledger_refused [OF w], simp_all add: stop_closed)
next
  case True
  then obtain tab where tab: "tab \<in> set (cw_tabs w)" "tt_id tab = at_tab a" "tt_type tab = TabConnecting"
    by (auto simp: connectingTabExists_def list_ex_iff)
  define u where "u = update_attempt k (\<lambda>a. a\<lparr>at_handoff := True\<rparr>)
    (w\<lparr>cw_opened := cw_opened w @ [s], cw_refreshed := cw_refreshed w @ [runtimeCredentialRequest running]\<rparr>)"
  have u: "view u = (view w)\<lparr>sv_opened := cw_opened w @ [s]\<rparr>" "length (cw_attempts u) = length (cw_attempts w)"
    by (simp_all add: u_def update_attempt_same attempt_view_def attempt_tag_def)
  have "view (replaceConnectingTabWithTerminal (at_tab a) s (at_warmup a) (at_request a) u) = set_session (at_tab a) s (view u)"
    unfolding replaceConnectingTabWithTerminal_def by (rule view_set_session) (simp add: tab_view_def)
  moreover have "ledger_ok (set_phase k AttemptEnded (set_session (at_tab a) s ((view w)\<lparr>sv_opened := cw_opened w @ [s]\<rparr>)))"
    using ledger_opened_tab [OF w(1) tab_none [OF w(1) tab(1,3)], of k TagStep "at_phase a" s] live_view [OF w(2)] w(3) a tab(2)
    by (simp add: attempt_view_def attempt_tag_def fresh_session_view)
  ultimately show ?thesis
    using True w(2) u by (simp add: step_session_opened_def view_end attempt_live_def connectingTabExists_def u_def
        replaceConnectingTabWithTerminal_def)
qed


lemma ledger_direct_opened:
  assumes w: "ledger_ok (view w)" "attempt_live k w" "fresh_session s w"
    and a: "a = cw_attempts w ! k" "at_kind a = AttemptDirect c command"
  shows "ledger_ok (view (direct_session_opened k a c command s (w\<lparr>cw_opened := cw_opened w @ [s]\<rparr>)))"
proof (cases "terminalTabExists (at_tab a) w")
  case False
  then have "\<not> terminalTabExists (at_tab a) (w\<lparr>cw_opened := cw_opened w @ [s]\<rparr>)" by (simp add: terminalTabExists_def)
  then show ?thesis unfolding direct_session_opened_def
    by (simp only: if_True simp_thms not_False_eq_True) (rule ledger_refused [OF w], simp_all add: stop_closed)
next
  case True
  then obtain tab where tab: "tab \<in> set (cw_tabs w)" "tt_id tab = at_tab a" by (auto simp: terminalTabExists_def list_ex_iff)
  have waits: "waits_alone (view w) (at_tab a, TagDirect, at_phase a)" "at_phase a \<noteq> AttemptEnded"
    using live_waits [OF w(1,2)] w(2) a by (simp_all add: attempt_view_def attempt_tag_def attempt_live_def)
  have mine: "tt_type t = TabTerminal \<and> tt_sessionId t = None" if "t \<in> set (cw_tabs w)" "tt_id t = at_tab a" for t
    using waits that by (auto simp: waits_alone_def tab_view_def)
  then have entry: "(at_tab a, TabTerminal, None) \<in> set (sv_tabs (view w))" using tab by (force simp: tab_view_def)
  define u where "u = update_attempt k (\<lambda>a. a\<lparr>at_handoff := True\<rparr>) (w\<lparr>cw_opened := cw_opened w @ [s]\<rparr>)"
  have u: "view u = (view w)\<lparr>sv_opened := cw_opened w @ [s]\<rparr>" "length (cw_attempts u) = length (cw_attempts w)" "cw_tabs u = cw_tabs w"
    by (simp_all add: u_def update_attempt_same attempt_view_def attempt_tag_def) (simp add: update_attempt_def)
  let ?f = "\<lambda>tab. tab\<lparr>tt_error := None, tt_requestId := Some (at_request a), tt_sessionId := Some s,
    tt_status := connected_status, tt_warmupOutput := at_warmup a\<rparr>"
  have "view (update_term (at_tab a) ?f u) = set_session (at_tab a) s (view u)"
    by (rule view_set_session) (use mine u(3) in \<open>simp add: tab_view_def\<close>)
  moreover have "ledger_ok (set_phase k AttemptEnded (set_session (at_tab a) s ((view w)\<lparr>sv_opened := cw_opened w @ [s]\<rparr>)))"
    using ledger_opened_tab [OF w(1) entry, of k TagDirect "at_phase a" s] live_view [OF w(2)] w(3) a
    by (simp add: attempt_view_def attempt_tag_def fresh_session_view)
  ultimately show ?thesis
    using True w(2) u unfolding direct_session_opened_def u_def [symmetric]
    by (simp add: view_end attempt_live_def terminalTabExists_def Let_def flip: u_def)
qed

lemma ledger_local_opened:
  assumes w: "ledger_ok (view w)" "attempt_live k w" "fresh_session s w"
    and a: "a = cw_attempts w ! k" "at_kind a = AttemptLocal call"
  shows "ledger_ok (view (local_session_opened k a s (w\<lparr>cw_opened := cw_opened w @ [s]\<rparr>)))"
proof (cases "localTerminalTabExists (at_tab a) w")
  case False
  then have "\<not> localTerminalTabExists (at_tab a) (w\<lparr>cw_opened := cw_opened w @ [s]\<rparr>)" by (simp add: localTerminalTabExists_def)
  then show ?thesis unfolding local_session_opened_def
    by (simp only: if_True simp_thms not_False_eq_True) (rule ledger_refused [OF w], simp_all add: stop_closed)
next
  case True
  then obtain tab where tab: "tab \<in> set (cw_locals w)" "lt_id tab = at_tab a" by (auto simp: localTerminalTabExists_def list_ex_iff)
  have waits: "waits_alone (view w) (at_tab a, TagLocal, at_phase a)" "at_phase a \<noteq> AttemptEnded"
    using live_waits [OF w(1,2)] w(2) a by (simp_all add: attempt_view_def attempt_tag_def attempt_live_def)
  have mine: "lt_sessionId t = None" if "t \<in> set (cw_locals w)" "lt_id t = at_tab a" for t
    using waits that by (auto simp: waits_alone_def local_view_def)
  then have entry: "(at_tab a, None) \<in> set (sv_locals (view w))" using tab by (force simp: local_view_def)
  define u where "u = update_attempt k (\<lambda>a. a\<lparr>at_handoff := True\<rparr>) (w\<lparr>cw_opened := cw_opened w @ [s]\<rparr>)"
  have u: "view u = (view w)\<lparr>sv_opened := cw_opened w @ [s]\<rparr>" "length (cw_attempts u) = length (cw_attempts w)"
    by (simp_all add: u_def update_attempt_same attempt_view_def attempt_tag_def)
  let ?f = "\<lambda>tab. tab\<lparr>lt_error := None, lt_sessionId := Some s, lt_status := connected_status, lt_warmupOutput := at_warmup a\<rparr>"
  have "view (update_local (at_tab a) ?f u) = set_local_session (at_tab a) s (view u)"
    by (rule view_set_local) (simp add: local_view_def)
  moreover have "ledger_ok (set_phase k AttemptEnded (set_local_session (at_tab a) s ((view w)\<lparr>sv_opened := cw_opened w @ [s]\<rparr>)))"
    using ledger_opened_local [OF w(1) entry, of k "at_phase a" s] live_view [OF w(2)] w(3) a
    by (simp add: attempt_view_def attempt_tag_def fresh_session_view)
  ultimately show ?thesis
    using True w(2) u by (simp add: local_session_opened_def view_end attempt_live_def localTerminalTabExists_def flip: u_def)
qed

lemma ledger_resolved:
  assumes "ledger_ok (view w)" "event_allowed (BackendResolves k s) w" "k < length (cw_attempts w)"
  shows "ledger_ok (view (attempt_resolved k (cw_attempts w ! k) s w))"
proof (cases "at_phase (cw_attempts w ! k) = AttemptEnded")
  case False
  then have live: "attempt_live k w" using assms(3) by (simp add: attempt_live_def)
  show ?thesis
  proof (cases "at_phase (cw_attempts w ! k)")
    case AwaitTest
    then show ?thesis
      using assms(1) ledger_ended [OF assms(1) live] unfolding attempt_resolved_def test_passed_def
      by (auto split: attempt_kind.split)
  next
    case AwaitSession
    then have "fresh_session s w" using assms(2,3) by simp
    then show ?thesis
      using AwaitSession ledger_step_opened [OF assms(1) live] ledger_direct_opened [OF assms(1) live]
        ledger_local_opened [OF assms(1) live]
      unfolding attempt_resolved_def by (auto simp: Let_def split: attempt_kind.split)
  qed (use assms(1) live ledger_output_listener ledger_progress_listener False in \<open>simp_all add: attempt_resolved_def\<close>)
qed (use assms(1) in \<open>simp add: attempt_resolved_def\<close>)

lemma ledger_rejected:
  assumes "ledger_ok (view w)" "k < length (cw_attempts w)"
  shows "ledger_ok (view (attempt_rejected env k (cw_attempts w ! k) e w))"
proof (cases "at_phase (cw_attempts w ! k) = AttemptEnded")
  case False
  let ?a = "cw_attempts w ! k"
  have live: "attempt_live k w" using False assms(2) by (simp add: attempt_live_def)
  note ended = ledger_ended [OF assms(1) live]
  have waits: "waits_alone (view w) (attempt_view ?a)" by (rule live_waits [OF assms(1) live])
  show ?thesis
  proof (cases "at_kind ?a")
    case (AttemptStep running)
    have u: "view (update_attempt k (\<lambda>a. a\<lparr>at_finished := True, at_capturing := False\<rparr>) w) = view w"
      by (rule update_attempt_same) (simp add: attempt_view_def attempt_tag_def)
    show ?thesis
      unfolding attempt_rejected_def step_rejected_def Let_def
      using False AttemptStep by (simp split: option.split) (intro conjI impI allI ended, simp_all add: u)
  next
    case (AttemptDirect c command)
    have "view (update_term (at_tab ?a) (\<lambda>tab. tab\<lparr>tt_error := x, tt_sessionId := None, tt_status := y, tt_warmupOutput := z\<rparr>) u) = view u"
      if "view u = view w" for u x y z
    proof -
      have "tt_sessionId tab = None" if "tab \<in> set (cw_tabs u)" "tt_id tab = at_tab ?a" for tab
      proof -
        have "(at_tab ?a, tt_type tab, tt_sessionId tab) \<in> set (sv_tabs (view u))" using that by (force simp: tab_view_def)
        then show ?thesis using waits False AttemptDirect \<open>view u = view w\<close>
          by (auto simp: waits_alone_def attempt_view_def attempt_tag_def simp del: view_sel)
      qed
      then show ?thesis by (auto simp: update_term_def view_def tab_view_def)
    qed
    then show ?thesis
      unfolding attempt_rejected_def direct_rejected_def using False AttemptDirect by (simp) (intro ended, simp_all)
  next
    case (AttemptLocal call)
    have "view (update_local (at_tab ?a) (\<lambda>tab. tab\<lparr>lt_error := x, lt_sessionId := None, lt_status := y\<rparr>) u) = view u"
      if "view u = view w" for u x y
    proof -
      have "lt_sessionId tab = None" if "tab \<in> set (cw_locals u)" "lt_id tab = at_tab ?a" for tab
      proof -
        have "(at_tab ?a, lt_sessionId tab) \<in> set (sv_locals (view u))" using that by (force simp: local_view_def)
        then show ?thesis using waits False AttemptLocal \<open>view u = view w\<close>
          by (auto simp: waits_alone_def attempt_view_def attempt_tag_def simp del: view_sel)
      qed
      then show ?thesis by (auto simp: update_local_def view_def local_view_def)
    qed
    then show ?thesis
      unfolding attempt_rejected_def local_rejected_def using False AttemptLocal by (simp) (intro ended, simp_all)
  qed
qed (use assms(1) in \<open>simp add: attempt_rejected_def\<close>)


section \<open>Closing and reconnecting\<close>

lemma stops_tabs [simp]:
  "cw_tabs (stopTerminalWarmupCapture i w) = cw_tabs w" "cw_locals (stopTerminalWarmupCapture i w) = cw_locals w"
  by (simp_all add: stopTerminalWarmupCapture_def update_attempt_def split: option.split)

lemma fold_stops_tabs [simp]:
  "cw_tabs (fold stopTerminalWarmupCapture is w) = cw_tabs w" "cw_locals (fold stopTerminalWarmupCapture is w) = cw_locals w"
  "cw_closed (fold stopTerminalWarmupCapture is w) = cw_closed w"
  by (induction "is" arbitrary: w) (simp_all add: stop_closed)

lemma fold_close_tabs [simp]:
  "cw_tabs (fold terminalClose ss w) = cw_tabs w" "cw_locals (fold terminalClose ss w) = cw_locals w"
  by (induction ss arbitrary: w) (simp_all add: terminalClose_def)

definition closed_list :: "jsstr option list \<Rightarrow> jsstr list" where
  "closed_list sessions = rev (remdups (rev (List.map_filter opt_truthy sessions)))"

lemma closeRuntime_fold: "closeRuntimeTerminalSessions sessions = fold terminalClose (closed_list sessions)"
  by (simp add: closeRuntimeTerminalSessions_def closed_list_def)

lemma mset_closed_list:
  assumes "distinct (List.map_filter (\<lambda>x. x) sessions)" "[] \<notin> set (List.map_filter (\<lambda>x. x) sessions)"
  shows "mset (closed_list sessions) = mset (List.map_filter (\<lambda>x. x) sessions)"
proof -
  have "List.map_filter opt_truthy sessions = List.map_filter (\<lambda>x. x) sessions"
    using assms(2) by (induction sessions) (auto simp: List.map_filter_simps opt_truthy_def split: option.splits)
  then show ?thesis using assms(1) by (simp add: closed_list_def distinct_remdups_id)
qed

lemma mset_filter_split:
  "mset (List.map_filter f T) = mset (List.map_filter f (filter P T)) + mset (List.map_filter f (filter (\<lambda>x. \<not> P x) T))"
  by (induction T) (simp_all add: List.map_filter_simps split: option.split)

lemma held_distinct: "ledger_ok v \<Longrightarrow> distinct (held_sessions v) \<and> [] \<notin> set (held_sessions v)"
  unfolding ledger_ok_def
  by (metis distinct_append mset_append set_mset_mset set_append UnCI mset_eq_imp_distinct_iff)

lemma map_filter_part:
  assumes "distinct (List.map_filter f T @ us)" "[] \<notin> set (List.map_filter f T @ us)"
  shows "distinct (List.map_filter f (filter P T))" "[] \<notin> set (List.map_filter f (filter P T))"
proof -
  have "set (List.map_filter f (filter P T)) \<subseteq> set (List.map_filter f T)"
    by (induction T) (auto simp: List.map_filter_simps split: option.split)
  then show "[] \<notin> set (List.map_filter f (filter P T))" using assms(2) by auto
  show "distinct (List.map_filter f (filter P T))"
  proof -
    have "distinct (List.map_filter f T) \<Longrightarrow> distinct (List.map_filter f (filter P T))
      \<and> set (List.map_filter f (filter P T)) \<subseteq> set (List.map_filter f T)"
      by (induction T) (auto simp: List.map_filter_simps split: option.splits)
    then show ?thesis using assms(1) by simp
  qed
qed

lemma distinct_filter_view: "distinct (map fst (map g T)) \<Longrightarrow> distinct (map fst (map g (filter P T)))"
  by (induction T) auto

lemma map_filter_comp: "List.map_filter f (map g T) = List.map_filter (\<lambda>x. f (g x)) T"
  by (induction T) (auto simp: List.map_filter_simps split: option.split)

lemma view_field_updates [simp]:
  "view (w\<lparr>cw_tabs := T\<rparr>) = (view w)\<lparr>sv_tabs := map tab_view T\<rparr>"
  "view (w\<lparr>cw_locals := L\<rparr>) = (view w)\<lparr>sv_locals := map local_view L\<rparr>"
  "view (w\<lparr>cw_panels := ps\<rparr>) = (view w)\<lparr>sv_panels := ps\<rparr>"
  by (simp_all add: view_def)

lemma ledger_close_tabs:
  assumes w: "ledger_ok (view w)"
  shows "ledger_ok (draw_panels (view (close_term_tabs P w)))"
proof -
  let ?C = "closed_list (map tt_sessionId (filter P (cw_tabs w)))"
  have v: "view (close_term_tabs P w) = (view w)\<lparr>sv_tabs := map tab_view (filter (\<lambda>t. \<not> P t) (cw_tabs w)), sv_locals := sv_locals (view w),
      sv_closed := sv_closed (view w) @ ?C\<rparr>"
    by (rule session_view.equality) (simp_all add: close_term_tabs_def Let_def closeRuntime_fold view_closes)
  have held: "held_sessions (view w) = List.map_filter tt_sessionId (cw_tabs w) @ List.map_filter snd (sv_locals (view w))"
    by (simp add: held_sessions_def map_filter_comp tab_view_def)
  note part = map_filter_part [of tt_sessionId "cw_tabs w" _ P, OF held_distinct [OF w, unfolded held, THEN conjunct1]
      held_distinct [OF w, unfolded held, THEN conjunct2]]
  have "mset ?C = mset (List.map_filter tt_sessionId (filter P (cw_tabs w)))"
    using mset_closed_list [of "map tt_sessionId (filter P (cw_tabs w))"] part by (simp add: map_filter_comp)
  then have "mset (held_sessions (view w))
      = mset (held_sessions ((view w)\<lparr>sv_tabs := map tab_view (filter (\<lambda>t. \<not> P t) (cw_tabs w)), sv_locals := sv_locals (view w)\<rparr>)) + mset ?C"
    using mset_filter_split [of tt_sessionId "cw_tabs w" P] unfolding held
    by (simp add: held_sessions_def map_filter_comp tab_view_def)
  moreover have "set (map tab_view (filter (\<lambda>t. \<not> P t) (cw_tabs w))) \<subseteq> set (sv_tabs (view w))" by auto
  moreover have "distinct (map fst (map tab_view (filter (\<lambda>t. \<not> P t) (cw_tabs w))))"
    using w by (intro distinct_filter_view) (simp add: ledger_ok_def)
  moreover have "distinct (map fst (sv_locals (view w)))" using w by (simp add: ledger_ok_def)
  ultimately show ?thesis unfolding v by (intro ledger_closed w) auto
qed

lemma ledger_close_locals:
  assumes w: "ledger_ok (view w)"
  shows "ledger_ok (draw_panels (view (closeLocalTerminalTabs ids w)))"
proof -
  let ?P = "\<lambda>t. lt_id t \<in> set ids"
  let ?C = "closed_list (map lt_sessionId (filter ?P (cw_locals w)))"
  have v: "view (closeLocalTerminalTabs ids w) = (view w)\<lparr>sv_tabs := sv_tabs (view w), sv_locals := map local_view (filter (\<lambda>t. \<not> ?P t) (cw_locals w)),
      sv_closed := sv_closed (view w) @ ?C\<rparr>"
    by (rule session_view.equality) (simp_all add: closeLocalTerminalTabs_def Let_def closeRuntime_fold view_closes)
  have held: "mset (held_sessions (view w)) = mset (List.map_filter lt_sessionId (cw_locals w) @ List.map_filter (\<lambda>(i, t, s). s) (sv_tabs (view w)))"
    by (simp add: held_sessions_def map_filter_comp local_view_def)
  have "distinct (List.map_filter lt_sessionId (cw_locals w) @ List.map_filter (\<lambda>(i, t, s). s) (sv_tabs (view w)))"
    "[] \<notin> set (List.map_filter lt_sessionId (cw_locals w) @ List.map_filter (\<lambda>(i, t, s). s) (sv_tabs (view w)))"
    using held_distinct [OF w] mset_eq_imp_distinct_iff [OF held] mset_eq_setD [OF held] by simp_all
  note part = map_filter_part [OF this, of ?P]
  have "mset ?C = mset (List.map_filter lt_sessionId (filter ?P (cw_locals w)))"
    using mset_closed_list [of "map lt_sessionId (filter ?P (cw_locals w))"] part by (simp add: map_filter_comp)
  then have "mset (held_sessions (view w))
      = mset (held_sessions ((view w)\<lparr>sv_tabs := sv_tabs (view w), sv_locals := map local_view (filter (\<lambda>t. \<not> ?P t) (cw_locals w))\<rparr>)) + mset ?C"
    using mset_filter_split [of lt_sessionId "cw_locals w" ?P]
    by (simp add: held_sessions_def map_filter_comp local_view_def)
  moreover have "set (map local_view (filter (\<lambda>t. \<not> ?P t) (cw_locals w))) \<subseteq> set (sv_locals (view w))" by auto
  moreover have "distinct (map fst (map local_view (filter (\<lambda>t. \<not> ?P t) (cw_locals w))))"
    using w by (intro distinct_filter_view) (simp add: ledger_ok_def)
  moreover have "distinct (map fst (sv_tabs (view w)))" using w by (simp add: ledger_ok_def)
  ultimately show ?thesis unfolding v by (intro ledger_closed w) auto
qed

lemma view_panel: "k < length (cw_panels w) \<Longrightarrow> view (update_panel k f w) = set_panel k (f (cw_panels w ! k)) (view w)"
  by (simp add: update_panel_def set_panel_def view_def)

lemma ledger_mount_panel:
  assumes w: "ledger_ok (view w)"
  shows "ledger_ok (view (mount_panel i w))"
proof (cases "List.find (\<lambda>tab. tt_id tab = i \<and> tt_type tab = TabTerminal \<and> opt_truthy (tt_sessionId tab) \<noteq> None) (cw_tabs w)")
  case (Some tab)
  then have tab: "tab \<in> set (cw_tabs w)" "tt_id tab = i" "tt_type tab = TabTerminal" "opt_truthy (tt_sessionId tab) \<noteq> None"
    by (auto simp: find_Some_iff)
  then obtain s where s: "tt_sessionId tab = Some s" unfolding opt_truthy_not_None by blast
  have "(i, TabTerminal, Some s) \<in> set (sv_tabs (view w))" using tab s by (force simp: tab_view_def)
  then show ?thesis
    using Some s w ledger_mount [OF w, of i s]
    by (auto simp: mount_panel_def list_ex_iff shown_tabs_def)
qed (use w in \<open>simp add: mount_panel_def\<close>)

lemma ledger_reconnect:
  assumes w: "ledger_ok (view w)"
  shows "ledger_ok (view (reconnectCurrentTerminal k w))"
proof (cases "k < length (cw_panels w) \<and> pn_pending (cw_panels w ! k) = None")
  case True
  then have "ledger_ok (set_panel k ((cw_panels w ! k)\<lparr>pn_pending := Some (pn_session (cw_panels w ! k)), pn_session := None\<rparr>) (view w))"
    by (intro ledger_set_panel w) (simp_all add: panel_session_def)
  then show ?thesis using True w by (simp add: reconnectCurrentTerminal_def Let_def view_panel)
qed (use w in \<open>auto simp: reconnectCurrentTerminal_def Let_def\<close>)


lemma map_filter_in: "x \<in> set T \<Longrightarrow> f x = Some y \<Longrightarrow> y \<in> set (List.map_filter f T)"
  by (induction T) (auto simp: List.map_filter_simps split: option.split)

lemma held_in: "(i, t, Some s) \<in> set (sv_tabs v) \<Longrightarrow> s \<in> set (held_sessions v)"
  using map_filter_in [of "(i, t, Some s)" "sv_tabs v" "\<lambda>(i, t, s). s" s] by (simp add: held_sessions_def)

lemma held_opened:
  assumes "ledger_ok v" shows "set (held_sessions v) \<subseteq> set (sv_opened v)"
proof -
  have "set_mset (mset (sv_opened v)) = set_mset (mset (held_sessions v) + mset (sv_closed v))"
    using assms by (simp add: ledger_ok_def)
  then show ?thesis by auto
qed

lemma ledger_reconnected_panel:
  assumes w: "ledger_ok (view w)" and k: "k < length (cw_panels w)" "cw_panels w ! k = p" "pn_mounted p" "pn_pending p = Some previous"
    and s: "fresh_session s w"
  shows "ledger_ok (view (reconnect_settled k now (Some s) w))"
proof -
  let ?i = "pn_tab p" and ?q = "p\<lparr>pn_pending := None, pn_session := Some s\<rparr>"
  have "panel_ok (view w) p" using w k by (auto simp: ledger_ok_def)
  then obtain old where old: "(?i, TabTerminal, Some old) \<in> set (sv_tabs (view w))" "previous = Some old"
    using k by (auto simp: panel_ok_iff panel_session_def)
  have differ: "old \<in> set (cw_opened w)" using held_in [OF old(1)] held_opened [OF w] by auto
  then have truthy: "old \<noteq> []" "old \<noteq> s" using w s by (auto simp: ledger_ok_def fresh_session_view)
  define u where "u = update_panel k (\<lambda>p. p\<lparr>pn_pending := None, pn_session := Some s\<rparr>) (w\<lparr>cw_opened := cw_opened w @ [s]\<rparr>)"
  have u: "view u = set_panel k ?q ((view w)\<lparr>sv_opened := cw_opened w @ [s]\<rparr>)" "cw_tabs u = cw_tabs w" "cw_closed u = cw_closed w"
    unfolding u_def using k by (simp_all add: view_panel) (simp_all add: update_panel_def)
  have "tt_type t = TabTerminal" if t: "t \<in> set (cw_tabs w)" "tt_id t = ?i" for t
  proof -
    have "(?i, tt_type t, tt_sessionId t) \<in> set (sv_tabs (view w))" using t by (force simp: tab_view_def)
    then show ?thesis using key_unique [of "sv_tabs (view w)", OF _ _ old(1)] w by (auto simp: ledger_ok_def)
  qed
  then have "view (updateTerminalRuntimeSession ?i s r u) = set_session ?i s (view u)" for r
    unfolding updateTerminalRuntimeSession_def by (intro view_set_session) (simp add: tab_view_def u(2))
  moreover have "cw_closed (updateTerminalRuntimeSession ?i s r u) = cw_closed w" for r
    by (simp add: updateTerminalRuntimeSession_def update_term_def u(3))
  ultimately have "view (reconnect_settled k now (Some s) w)
      = (set_session ?i s (set_panel k ?q ((view w)\<lparr>sv_opened := cw_opened w @ [s]\<rparr>)))\<lparr>sv_closed := cw_closed w @ [old]\<rparr>"
    using k old(2) truthy by (simp add: reconnect_settled_def Let_def u(1) opt_truthy_def flip: u_def)
  also have "\<dots> = (set_panel k ?q (set_session ?i s (view w)))\<lparr>sv_opened := sv_opened (view w) @ [s], sv_closed := sv_closed (view w) @ [old]\<rparr>"
    by (rule session_view.equality) (simp_all add: set_panel_def set_session_def)
  also have "ledger_ok \<dots>"
    by (rule ledger_reconnected [OF w])
      (use k old s in \<open>simp_all add: panel_session_def fresh_session_view\<close>)
  finally show ?thesis .
qed

lemma ledger_reconnect_settled:
  assumes w: "ledger_ok (view w)" "event_allowed (BackendReconnect k now answer) w"
  shows "ledger_ok (view (reconnect_settled k now answer w))"
proof (cases "k < length (cw_panels w) \<and> pn_pending (cw_panels w ! k) \<noteq> None")
  case True
  let ?p = "cw_panels w ! k"
  obtain previous where p: "k < length (cw_panels w)" "pn_pending ?p = Some previous" using True by auto
  show ?thesis
  proof (cases answer)
    case None
    have "ledger_ok (set_panel k q (view w))" if "pn_tab q = pn_tab ?p" "pn_mounted q = pn_mounted ?p"
      "pn_mounted q \<Longrightarrow> panel_session q = panel_session ?p" for q
      using that p by (intro ledger_set_panel w(1)) simp_all
    then show ?thesis using None p by (auto simp: reconnect_settled_def Let_def view_panel panel_session_def)
  next
    case (Some s)
    then have s: "fresh_session s w" using w(2) by simp
    show ?thesis
    proof (cases "pn_mounted ?p")
      case True
      then show ?thesis using ledger_reconnected_panel [OF w(1) p(1) refl True p(2) s] Some by simp
    next
      case False
      have "ledger_ok (set_panel k (?p\<lparr>pn_pending := None\<rparr>) ((view w)\<lparr>sv_opened := sv_opened (view w) @ [s], sv_closed := sv_closed (view w) @ [s]\<rparr>))"
        using s False p(1) by (intro ledger_set_panel ledger_open_close w(1)) (simp_all add: fresh_session_view)
      moreover have "view (reconnect_settled k now answer w)
          = set_panel k (?p\<lparr>pn_pending := None\<rparr>) ((view w)\<lparr>sv_opened := sv_opened (view w) @ [s], sv_closed := sv_closed (view w) @ [s]\<rparr>)"
        using False p Some
        by (simp add: reconnect_settled_def Let_def view_panel) (simp add: set_panel_def update_panel_def)
      ultimately show ?thesis by simp
    qed
  qed
qed (use w in \<open>auto simp: reconnect_settled_def Let_def\<close>)

section \<open>The invariant of every reachable world\<close>

lemma ledger_on_step:
  assumes "ledger_ok (view w)" "\<And>step. ledger_ok (view (f step w))"
  shows "ledger_ok (view (on_step status i f w))"
  using assms by (simp add: on_step_def split: option.split)

lemma ledger_trust: "ledger_ok (view w) \<Longrightarrow> ledger_ok (view (trust_answered env uuid i step err (w\<lparr>cw_trusts := ts\<rparr>)))"
  by (auto simp: trust_answered_def ledger_run_step split: option.split)

lemma built_tabs:
  "tt_id (buildDirectTerminalTab n ts c t) = js ''terminal-'' @ cp_id c @ js ''-'' @ n"
  "tt_sessionId (buildDirectTerminalTab n ts c t) = None" "tt_type (buildDirectTerminalTab n ts c t) = TabTerminal"
  "lt_id (buildLocalTerminalTab n ls p) = js ''local-terminal-'' @ n" "lt_sessionId (buildLocalTerminalTab n ls p) = None"
  "lt_id (buildCharacterTerminalTab n ls source title i) = source @ js ''-terminal-'' @ n"
  "lt_sessionId (buildCharacterTerminalTab n ls source title i) = None"
  by (simp_all add: buildDirectTerminalTab_def buildLocalTerminalTab_def buildCharacterTerminalTab_def Let_def)

lemma ledger_user_tabs:
  assumes "ledger_ok (view w)"
  shows "event_allowed (UserOpenTerminal c nonce) w \<Longrightarrow> ledger_ok (view (openTerminalInConnection nonce c w))"
    "event_allowed (UserOpenContainer c nonce name ident) w \<Longrightarrow> ledger_ok (view (openDockerContainerTerminal nonce c name ident w))"
    "event_allowed (UserOpenLocal profile nonce) w \<Longrightarrow> ledger_ok (view (openLocalTerminalByProfile nonce profile w))"
    "event_allowed (UserOpenCharacter c nonce again) w \<Longrightarrow> ledger_ok (view (openCharacterTerminalInConnection env nonce c w))"
proof -
  show "ledger_ok (view (openTerminalInConnection nonce c w))" if "event_allowed (UserOpenTerminal c nonce) w"
    unfolding openTerminalInConnection_def Let_def by (rule ledger_direct [OF assms]) (use that in \<open>simp_all add: built_tabs\<close>)
  show "ledger_ok (view (openDockerContainerTerminal nonce c name ident w))" if "event_allowed (UserOpenContainer c nonce name ident) w"
    unfolding openDockerContainerTerminal_def Let_def by (rule ledger_direct [OF assms]) (use that in \<open>simp_all add: built_tabs\<close>)
  show "ledger_ok (view (openLocalTerminalByProfile nonce profile w))" if "event_allowed (UserOpenLocal profile nonce) w"
  proof (cases profile)
    case (Some p)
    show ?thesis unfolding openLocalTerminalByProfile_def Let_def Some option.case
      by (rule ledger_local [OF assms]) (use that in \<open>simp_all add: built_tabs\<close>)
  qed (simp add: openLocalTerminalByProfile_def assms)
  show "ledger_ok (view (openCharacterTerminalInConnection env nonce c w))" if "event_allowed (UserOpenCharacter c nonce again) w"
    unfolding openCharacterTerminalInConnection_def Let_def by (rule ledger_local [OF assms]) (use that in \<open>simp_all add: built_tabs\<close>)
qed

lemma ledger_event:
  assumes w: "ledger_ok (view w)" "event_allowed e w"
  shows "ledger_ok (draw_panels (view (connect_event_step env e w)))"
proof (cases e)
  case (UserConnect c m now uuid)
  then show ?thesis using ledger_connect [OF w(1)] w(2) by (auto intro: ledger_drawn)
next
  case (BackendTrust n uuid err)
  then show ?thesis using w ledger_trust by (auto intro!: ledger_drawn split: list.split)
next
  case (BackendWriteFailed i e)
  have "view (update_term i (\<lambda>tab. tab\<lparr>tt_error := x\<rparr>) w) = view w" for x by (rule update_term_same) (simp add: tab_view_def)
  then show ?thesis using BackendWriteFailed w by (auto intro: ledger_drawn)
next
  case (UserReconnect k)
  then show ?thesis using w ledger_reconnect by (auto intro: ledger_drawn)
next
  case (BackendReconnect k now answer)
  then show ?thesis using w ledger_reconnect_settled by (auto intro: ledger_drawn)
next
  case (UserOpenTerminal c nonce)
  then show ?thesis using ledger_user_tabs(1) [OF w(1)] w(2) by (auto intro!: ledger_drawn simp del: event_allowed.simps)
next
  case (UserOpenContainer c nonce name ident)
  then show ?thesis using ledger_user_tabs(2) [OF w(1)] w(2) by (auto intro!: ledger_drawn simp del: event_allowed.simps)
next
  case (UserOpenLocal profile nonce)
  then show ?thesis using ledger_user_tabs(3) [OF w(1)] w(2) by (auto intro!: ledger_drawn simp del: event_allowed.simps)
next
  case (UserOpenCharacter c nonce again)
  then show ?thesis using ledger_user_tabs(4) [OF w(1)] w by (auto intro!: ledger_drawn simp: openCharacterConnectionSession_def simp del: event_allowed.simps)
qed (use w in \<open>auto intro!: ledger_drawn ledger_close_tabs ledger_close_locals ledger_resolved ledger_rejected ledger_mount_panel
    ledger_on_step ledger_run_step simp: retryConnectionStep_def submitPromptCredential_def trustHostKeyAndRetry_def Let_def
    closeTerminalTabs_def closeOtherTerminalTabs_def closeTerminalTabsToRight_def closeAllTerminalTabsForConnection_def
    close_connection_terminals_def closeOtherLocalTerminalTabs_def closeLocalTerminalTabsToRight_def split: option.split\<close>)

lemma reach_ledger: "connect_reach env w \<Longrightarrow> ledger_ok (view w)"
proof (induction rule: connect_reach.induct)
  case reach_start
  show ?case by (simp add: connect_start_def ledger_ok_def held_sessions_def List.map_filter_simps)
next
  case (reach_step w e)
  then show ?case using ledger_event by (simp add: connect_step_def)
qed


section \<open>No session is lost\<close>

text \<open>C1. No session is lost and none is closed twice: whatever the user does, and in whatever order the backend answers,
  refuses, reports or sends output, the sessions the backend has opened are, each exactly once, the sessions the tabs hold
  now and the sessions that were closed.\<close>

theorem no_session_lost:
  assumes "connect_reach env w"
  shows "distinct (cw_opened w)
    \<and> mset (cw_opened w) = mset (List.map_filter tt_sessionId (cw_tabs w)) + mset (List.map_filter lt_sessionId (cw_locals w))
        + mset (cw_closed w)"
  using reach_ledger [OF assms] unfolding ledger_ok_def
  by (simp add: held_sessions_def map_filter_comp tab_view_def local_view_def)

definition sample_connect_env :: connect_env where
  "sample_connect_env = \<lparr>ce_str = (\<lambda>_. []), ce_parse = (\<lambda>_. None), ce_num = (\<lambda>_. [])\<rparr>"

definition sample_local_events :: "connect_event list" where
  "sample_local_events = [UserOpenLocal (Some (buildPreviewLocalTerminalProfile [] (js ''zsh'') [] (js ''zsh'') (js ''zsh'') (js ''zsh'') []))
     (js ''a''), BackendResolves 0 [], BackendResolves 0 (js ''s''), UserCloseLocals [js ''local-terminal-a'']]"

lemma reach_run:
  "connect_reach env w \<Longrightarrow> (\<And>n. n < length es \<Longrightarrow> event_allowed (es ! n) (fold (connect_step env) (take n es) w))
   \<Longrightarrow> connect_reach env (fold (connect_step env) es w)"
proof (induction es arbitrary: w)
  case (Cons e es)
  have "event_allowed e w" using Cons.prems(2) [of 0] by simp
  moreover have "event_allowed (es ! n) (fold (connect_step env) (take n es) (connect_step env e w))" if "n < length es" for n
    using Cons.prems(2) [of "Suc n"] that by simp
  ultimately show ?case using Cons.IH [of "connect_step env e w"] Cons.prems(1) reach_step by simp
qed simp

theorem no_session_lost_witness:
  "\<exists>w. connect_reach sample_connect_env w \<and> cw_opened w = [js ''s''] \<and> cw_closed w = [js ''s''] \<and> distinct (cw_opened w)"
proof -
  let ?w = "fold (connect_step sample_connect_env) sample_local_events connect_start"
  note defs = sample_local_events_def connect_step_def connect_start_def openLocalTerminalByProfile_def start_attempt_def
    new_attempt_def buildLocalTerminalTab_def buildPreviewLocalTerminalProfile_def local_request_def Let_def fresh_tab_def
    fresh_session_def render_panels_def attempt_resolved_def output_listener_ready_def update_attempt_def is_step_attempt_def
    setTerminalWarmupCaptureStop_def stopTerminalWarmupCapture_def local_session_opened_def localTerminalTabExists_def
    update_local_def end_attempt_def closeLocalTerminalTabs_def closeRuntimeTerminalSessions_def opt_truthy_def
    terminalClose_def List.map_filter_simps js_def stop_attempt_def
  have "event_allowed (sample_local_events ! n) (fold (connect_step sample_connect_env) (take n sample_local_events) connect_start)"
    if "n < length sample_local_events" for n
  proof -
    have "n = 0 \<or> n = 1 \<or> n = 2 \<or> n = 3" using that by (auto simp: sample_local_events_def)
    then show ?thesis by (elim disjE) (simp_all add: defs numeral_3_eq_3 numeral_2_eq_2)
  qed
  then have "connect_reach sample_connect_env ?w" by (intro reach_run reach_start)
  moreover have "cw_opened ?w = [js ''s'']" "cw_closed ?w = [js ''s'']" by (simp_all add: defs)
  ultimately show ?thesis using no_session_lost [of sample_connect_env ?w] by metis
qed

end
