(* ===== verification/Connect_Progress.thy ===== *)
theory Connect_Progress
  imports Connect_Safety
begin

text \<open>
  The page of an attempt is never a dead end: in every reachable world a tab that is connecting shows a step that
  either waits for an answer that is still to come or offers the user the next action.
\<close>

section \<open>The invariant\<close>

definition answer_due :: "connect_world \<Rightarrow> jsstr \<Rightarrow> bool" where
  "answer_due w i \<longleftrightarrow> (\<exists>a\<in>set (cw_attempts w). at_tab a = i \<and> is_step_attempt a \<and> at_phase a \<noteq> AttemptEnded)
     \<or> i \<in> fst ` set (cw_trusts w)"

definition step_settled :: "connection_step \<Rightarrow> bool" where
  "step_settled step \<longleftrightarrow> (case cs_status step of
      StepIdle \<Rightarrow> False | StepRunning \<Rightarrow> False | StepPrompt \<Rightarrow> True | StepError \<Rightarrow> True
    | StepWaitingHostKey \<Rightarrow> cs_hostKey step \<noteq> None | StepSuccess \<Rightarrow> cs_mode step = ModeTest)"

definition tab_moves :: "connect_world \<Rightarrow> term_tab \<Rightarrow> bool" where
  "tab_moves w tab \<longleftrightarrow> tt_type tab = TabTerminal
     \<or> (\<exists>step. tt_connectionStep tab = Some step \<and> (step_settled step \<or> cs_status step = StepRunning \<and> answer_due w (tt_id tab)))"

definition attempt_ok :: "attempt \<Rightarrow> bool" where
  "attempt_ok a \<longleftrightarrow> (at_phase a = AttemptEnded \<longrightarrow> at_finished a)
     \<and> (case at_kind a of
          AttemptStep step \<Rightarrow> cs_status step = StepRunning \<and> (at_phase a = AwaitTest \<longrightarrow> cs_mode step = ModeTest)
        | _ \<Rightarrow> True)"

definition flow_ok :: "connect_world \<Rightarrow> bool" where
  "flow_ok w \<longleftrightarrow> (\<forall>tab\<in>set (cw_tabs w). tab_moves w tab) \<and> (\<forall>a\<in>set (cw_attempts w). attempt_ok a)
     \<and> (\<forall>(i, step)\<in>set (cw_trusts w). cs_status step = StepRunning)"

text \<open>An operation that ends no attempt and changes no step keeps the invariant.\<close>

definition attempts_kept :: "connect_world \<Rightarrow> connect_world \<Rightarrow> bool" where
  "attempts_kept w u \<longleftrightarrow> length (cw_attempts u) = length (cw_attempts w) \<and> cw_trusts u = cw_trusts w
     \<and> (\<forall>k < length (cw_attempts w). at_tab (cw_attempts u ! k) = at_tab (cw_attempts w ! k)
          \<and> is_step_attempt (cw_attempts u ! k) = is_step_attempt (cw_attempts w ! k)
          \<and> (at_phase (cw_attempts u ! k) = AttemptEnded \<longleftrightarrow> at_phase (cw_attempts w ! k) = AttemptEnded)
          \<and> (attempt_ok (cw_attempts w ! k) \<longrightarrow> attempt_ok (cw_attempts u ! k)))"

lemma attempts_kept_refl [simp]: "attempts_kept w w"
  by (simp add: attempts_kept_def)

lemma attempts_kept_trans: "attempts_kept w u \<Longrightarrow> attempts_kept u x \<Longrightarrow> attempts_kept w x"
  by (simp add: attempts_kept_def)

lemma kept_due: "attempts_kept w u \<Longrightarrow> answer_due u i = answer_due w i"
  unfolding attempts_kept_def answer_due_def by (metis in_set_conv_nth)

lemma kept_ok:
  assumes "flow_ok w" "attempts_kept w u" "\<forall>tab\<in>set (cw_tabs u). tab_moves w tab"
  shows "flow_ok u"
proof -
  have "tab_moves u = tab_moves w" using kept_due [OF assms(2)] by (simp add: fun_eq_iff tab_moves_def)
  moreover have "\<forall>a\<in>set (cw_attempts u). attempt_ok a"
    using assms(1,2) unfolding attempts_kept_def flow_ok_def by (metis in_set_conv_nth)
  ultimately show ?thesis using assms unfolding flow_ok_def attempts_kept_def by simp
qed

lemma kept_phase:
  assumes "k < length (cw_attempts w) \<Longrightarrow> (let a = cw_attempts w ! k in at_tab (f a) = at_tab a \<and> is_step_attempt (f a) = is_step_attempt a
      \<and> (at_phase (f a) = AttemptEnded \<longleftrightarrow> at_phase a = AttemptEnded) \<and> (attempt_ok a \<longrightarrow> attempt_ok (f a)))"
  shows "attempts_kept w (update_attempt k f w)"
  using assms by (auto simp: attempts_kept_def update_attempt_def nth_list_update Let_def)

lemma kept_update:
  assumes "\<And>a. at_tab (f a) = at_tab a \<and> is_step_attempt (f a) = is_step_attempt a \<and> at_phase (f a) = at_phase a
      \<and> (attempt_ok a \<longrightarrow> attempt_ok (f a))"
  shows "attempts_kept w (update_attempt k f w)"
  using assms by (auto simp: attempts_kept_def update_attempt_def nth_list_update)

lemma kept_fields [simp]:
  "attempts_kept w (u\<lparr>cw_stops := s\<rparr>) = attempts_kept w u" "attempts_kept w (u\<lparr>cw_tabs := T\<rparr>) = attempts_kept w u"
  "attempts_kept w (u\<lparr>cw_locals := L\<rparr>) = attempts_kept w u" "attempts_kept w (u\<lparr>cw_panels := ps\<rparr>) = attempts_kept w u"
  "attempts_kept w (u\<lparr>cw_writes := x\<rparr>) = attempts_kept w u" "attempts_kept w (u\<lparr>cw_closed := c\<rparr>) = attempts_kept w u"
  "attempts_kept w (u\<lparr>cw_refreshed := r\<rparr>) = attempts_kept w u" "attempts_kept w (u\<lparr>cw_opened := p\<rparr>) = attempts_kept w u"
  "attempts_kept w (u\<lparr>cw_emitted := e\<rparr>) = attempts_kept w u"
  "attempts_kept w (terminalClose y u) = attempts_kept w u" "attempts_kept w (update_term i f u) = attempts_kept w u"
  "attempts_kept w (update_local i g u) = attempts_kept w u" "attempts_kept w (update_panel n h u) = attempts_kept w u"
  "attempts_kept w (updateConnectingTabStep i st u) = attempts_kept w u"
  by (simp_all add: attempts_kept_def terminalClose_def update_term_def update_local_def update_panel_def updateConnectingTabStep_def)

lemma kept_stop [simp]: "attempts_kept w (stopTerminalWarmupCapture i w)"
proof -
  have "attempts_kept u (update_attempt k stop_attempt u)" for k u
    by (rule kept_update) (auto simp: stop_attempt_def is_step_attempt_def attempt_ok_def split: attempt_kind.split)
  then have "attempts_kept w (update_attempt k stop_attempt (w\<lparr>cw_stops := s\<rparr>))" for k s
    using attempts_kept_trans [of w "w\<lparr>cw_stops := s\<rparr>"] by simp
  then show ?thesis by (simp add: stopTerminalWarmupCapture_def split: option.split)
qed

lemma kept_set_stop [simp]: "attempts_kept w (setTerminalWarmupCaptureStop i k w)"
  by (simp add: setTerminalWarmupCaptureStop_def Let_def)

lemma kept_stops [simp]: "attempts_kept w (fold stopTerminalWarmupCapture is w)"
proof (induction "is" arbitrary: w)
  case (Cons i "is")
  show ?case using attempts_kept_trans [OF kept_stop Cons.IH] by simp
qed simp

lemma kept_closes [simp]: "attempts_kept w (fold terminalClose ss u) = attempts_kept w u"
  by (induction ss arbitrary: u) simp_all

lemma tabs_kept [simp]:
  "cw_tabs (update_attempt k f w) = cw_tabs w" "cw_tabs (setTerminalWarmupCaptureStop i k w) = cw_tabs w"
  "cw_tabs (terminalClose y w) = cw_tabs w" "cw_tabs (update_panel n h w) = cw_tabs w" "cw_tabs (update_local i g w) = cw_tabs w"
  "cw_tabs (end_attempt k w) = cw_tabs w"
  by (simp_all add: update_attempt_def setTerminalWarmupCaptureStop_def Let_def terminalClose_def update_panel_def update_local_def
      end_attempt_def)

lemma in_update_term: "tab \<in> set (cw_tabs (update_term i f w)) \<Longrightarrow> \<exists>t\<in>set (cw_tabs w). tab = (if tt_id t = i then f t else t)"
  by (auto simp: update_term_def simp del: if_image_distrib)

text \<open>What a change of tabs may do: the tabs that are left, terminals, or tabs with the same step.\<close>

lemma moves_fields [simp]:
  "tab_moves (w\<lparr>cw_tabs := T\<rparr>) = tab_moves w" "tab_moves (w\<lparr>cw_locals := L\<rparr>) = tab_moves w"
  by (simp_all add: fun_eq_iff tab_moves_def answer_due_def)

lemma ok_update_term:
  assumes "flow_ok w" "attempts_kept w u" "cw_tabs u = cw_tabs w" "\<And>tab. tab_moves w tab \<Longrightarrow> tab_moves w (f tab)"
  shows "flow_ok (update_term i f u)"
proof (rule kept_ok [OF assms(1)])
  show "\<forall>tab\<in>set (cw_tabs (update_term i f u)). tab_moves w tab"
    using assms(1,3,4) by (auto simp: flow_ok_def update_term_def)
qed (use assms(2) in simp)

lemma ok_kept_tabs: "flow_ok w \<Longrightarrow> attempts_kept w u \<Longrightarrow> cw_tabs u = cw_tabs w \<Longrightarrow> flow_ok u"
  by (rule kept_ok) (auto simp: flow_ok_def)


section \<open>Steps of an attempt\<close>

lemma stepped_moves [simp]: "tab_moves w (stepped_tab s tab) \<longleftrightarrow> tt_type tab = TabTerminal
   \<or> step_settled s \<or> cs_status s = StepRunning \<and> answer_due w (tt_id tab)"
  by (auto simp: tab_moves_def stepped_tab_def)

lemma ok_settle:
  assumes "flow_ok w" "attempts_kept w u" "cw_tabs u = cw_tabs w" "step_settled s"
  shows "flow_ok (updateConnectingTabStep i s u)"
  unfolding updateConnectingTabStep_def by (rule ok_update_term [OF assms(1-3)]) (simp add: assms(4))

definition flow_but :: "jsstr \<Rightarrow> connect_world \<Rightarrow> bool" where
  "flow_but i w \<longleftrightarrow> (\<forall>tab\<in>set (cw_tabs w). tt_id tab \<noteq> i \<longrightarrow> tab_moves w tab) \<and> (\<forall>a\<in>set (cw_attempts w). attempt_ok a)
     \<and> (\<forall>(i, step)\<in>set (cw_trusts w). cs_status step = StepRunning)"

lemma flow_but: "flow_ok w \<Longrightarrow> flow_but i w"
  by (simp add: flow_ok_def flow_but_def)

lemma due_start: "answer_due (start_attempt a w) i \<longleftrightarrow> answer_due w i \<or> at_tab a = i \<and> is_step_attempt a \<and> at_phase a \<noteq> AttemptEnded"
  by (auto simp: answer_due_def start_attempt_def)

lemma ok_run_step:
  assumes "flow_but i w"
  shows "flow_ok (runConnectionStep uuid i step w)"
proof -
  let ?a = "new_attempt i (AttemptStep (running_step step)) (if cs_mode step = ModeTerminal then AwaitOutputListener else AwaitTest)
    (js ''prepare-'' @ dec_digits (cs_id step) @ js ''-'' @ uuid)"
  let ?u = "start_attempt ?a (updateConnectingTabStep i (running_step step) w)"
  have a: "attempt_ok ?a" "is_step_attempt ?a" "at_tab ?a = i" "at_phase ?a \<noteq> AttemptEnded"
    by (cases "cs_mode step", simp_all add: attempt_ok_def new_attempt_def running_step_def is_step_attempt_def)
  have due: "answer_due ?u j \<longleftrightarrow> answer_due w j \<or> j = i" for j
    using a kept_due [of w "updateConnectingTabStep i (running_step step) w" j] by (auto simp: due_start)
  have "tab_moves ?u tab" if tab: "tab \<in> set (cw_tabs ?u)" for tab
  proof -
    obtain t where t: "t \<in> set (cw_tabs w)" "tab = (if tt_id t = i then stepped_tab (running_step step) t else t)"
    proof -
      have "tab \<in> set (cw_tabs (update_term i (stepped_tab (running_step step)) w))"
        using tab by (simp add: start_attempt_def updateConnectingTabStep_def)
      from in_update_term [OF this] show thesis using that by blast
    qed
    show ?thesis
    proof (cases "tt_id t = i")
      case True
      then show ?thesis using t(2) due by (simp add: running_step_def)
    next
      case False
      then have "tab_moves w t" using assms t(1) by (simp add: flow_but_def)
      then show ?thesis using t(2) False due by (auto simp: tab_moves_def)
    qed
  qed
  moreover have "cw_attempts ?u = cw_attempts w @ [?a]" "cw_trusts ?u = cw_trusts w"
    by (simp_all add: start_attempt_def updateConnectingTabStep_def update_term_def)
  ultimately show ?thesis using assms a(1) by (auto simp: runConnectionStep_def Let_def flow_ok_def flow_but_def)
qed

text \<open>An attempt may end when its tab no longer waits for it.\<close>

definition tab_rests :: "jsstr \<Rightarrow> connect_world \<Rightarrow> bool" where
  "tab_rests i w \<longleftrightarrow> (\<forall>tab\<in>set (cw_tabs w). tt_id tab = i \<longrightarrow> tt_type tab = TabTerminal
     \<or> (\<exists>s. tt_connectionStep tab = Some s \<and> step_settled s))"

lemma rests_gone: "\<not> connectingTabExists i w \<Longrightarrow> cw_tabs u = cw_tabs w \<Longrightarrow> tab_rests i u"
  unfolding tab_rests_def connectingTabExists_def list_ex_iff by (metis tab_type.exhaust)

lemma rests_settled:
  assumes "step_settled s" shows "tab_rests i (updateConnectingTabStep i s u)"
  unfolding tab_rests_def
proof (intro ballI impI disjI2)
  fix tab assume tab: "tab \<in> set (cw_tabs (updateConnectingTabStep i s u))" "tt_id tab = i"
  then obtain t where "tab = (if tt_id t = i then stepped_tab s t else t)"
    using in_update_term unfolding updateConnectingTabStep_def by blast
  then have "tt_connectionStep tab = Some s" using tab(2) by (auto simp: stepped_tab_def split: if_splits)
  then show "\<exists>s. tt_connectionStep tab = Some s \<and> step_settled s" using assms by blast
qed

lemma nth_kept: "n < length as \<Longrightarrow> n \<noteq> k \<Longrightarrow> as ! n \<in> set (as[k := x])"
  using nth_mem [of n "as[k := x]"] by simp

lemma due_end:
  assumes "k < length (cw_attempts w)" "is_step_attempt (cw_attempts w ! k) \<Longrightarrow> at_tab (cw_attempts w ! k) \<noteq> j" "answer_due w j"
  shows "answer_due (end_attempt k w) j"
proof (cases "j \<in> fst ` set (cw_trusts w)")
  case False
  then obtain a where a: "a \<in> set (cw_attempts w)" "at_tab a = j" "is_step_attempt a" "at_phase a \<noteq> AttemptEnded"
    using assms(3) unfolding answer_due_def by blast
  then obtain n where n: "n < length (cw_attempts w)" "cw_attempts w ! n = a" by (meson in_set_conv_nth)
  then have "n \<noteq> k" using assms(2) a(2,3) by metis
  then have "a \<in> set (cw_attempts (end_attempt k w))"
    using n nth_kept [of n "cw_attempts w" k] nth_mem [of n "cw_attempts w"] by (simp add: end_attempt_def update_attempt_def)
  then show ?thesis using a unfolding answer_due_def by blast
qed (simp add: answer_due_def end_attempt_def update_attempt_def)

lemma ok_end:
  assumes "flow_ok w" "k < length (cw_attempts w)" "is_step_attempt (cw_attempts w ! k) \<Longrightarrow> tab_rests (at_tab (cw_attempts w ! k)) w"
  shows "flow_ok (end_attempt k w)"
proof -
  let ?f = "\<lambda>a. a\<lparr>at_finished := True, at_progress := False, at_phase := AttemptEnded\<rparr>"
  have parts: "cw_tabs (end_attempt k w) = cw_tabs w" "cw_trusts (end_attempt k w) = cw_trusts w"
    "cw_attempts (end_attempt k w) = (cw_attempts w)[k := ?f (cw_attempts w ! k)]"
    using assms(2) by (simp_all add: end_attempt_def update_attempt_def)
  have "tab_moves (end_attempt k w) tab" if tab: "tab \<in> set (cw_tabs w)" for tab
  proof (cases "is_step_attempt (cw_attempts w ! k) \<and> at_tab (cw_attempts w ! k) = tt_id tab")
    case True
    then show ?thesis using assms(3) tab by (auto simp: tab_rests_def tab_moves_def)
  next
    case False
    have "tab_moves w tab" using assms(1) tab by (simp add: flow_ok_def)
    then show ?thesis using due_end [OF assms(2), of "tt_id tab"] False by (auto simp: tab_moves_def)
  qed
  moreover have "attempt_ok (?f (cw_attempts w ! k))"
  proof -
    have "attempt_ok (cw_attempts w ! k)" using assms(1,2) by (simp add: flow_ok_def)
    then show ?thesis by (auto simp: attempt_ok_def split: attempt_kind.split)
  qed
  then have "\<forall>a\<in>set (cw_attempts (end_attempt k w)). attempt_ok a"
    using assms(1) set_update_subset_insert [of "cw_attempts w" k] unfolding parts flow_ok_def by blast
  ultimately show ?thesis using assms(1) parts by (simp add: flow_ok_def)
qed


lemma ok_settle_but:
  assumes "flow_but i w" "step_settled s"
  shows "flow_ok (updateConnectingTabStep i s w)"
proof -
  have kept: "answer_due (updateConnectingTabStep i s w) = answer_due w"
    using kept_due [of w "updateConnectingTabStep i s w"] by (simp add: fun_eq_iff)
  have "tab_moves (updateConnectingTabStep i s w) tab" if tab: "tab \<in> set (cw_tabs (updateConnectingTabStep i s w))" for tab
  proof -
    obtain t where "t \<in> set (cw_tabs w)" "tab = (if tt_id t = i then stepped_tab s t else t)"
      using in_update_term tab unfolding updateConnectingTabStep_def by blast
    then show ?thesis using assms kept by (auto simp: flow_but_def tab_moves_def stepped_tab_def)
  qed
  then show ?thesis using assms(1) by (simp add: flow_ok_def flow_but_def updateConnectingTabStep_def update_term_def)
qed

lemma ok_but_gone: "flow_but i w \<Longrightarrow> \<not> connectingTabExists i w \<Longrightarrow> flow_ok w"
  using tab_type.exhaust by (auto simp: flow_but_def flow_ok_def connectingTabExists_def list_ex_iff tab_moves_def)

lemma trust_taken:
  assumes "flow_ok w" "cw_trusts w = ts @ (i, step) # us"
  shows "flow_but i (w\<lparr>cw_trusts := ts @ us\<rparr>)"
proof -
  have "answer_due (w\<lparr>cw_trusts := ts @ us\<rparr>) j \<longleftrightarrow> answer_due w j" if "j \<noteq> i" for j
    using that assms(2) by (auto simp: answer_due_def)
  then show ?thesis using assms by (auto simp: flow_ok_def flow_but_def tab_moves_def)
qed

lemma settled_steps [simp]: "step_settled (failed_step env e s)" "step_settled (host_key_step env e key s)"
  by (simp_all add: step_settled_def failed_step_def host_key_step_def Let_def)

lemma ok_trust:
  assumes "flow_ok w" "cw_trusts w = ts @ (i, step) # us"
  shows "flow_ok (trust_answered env uuid i step err (w\<lparr>cw_trusts := ts @ us\<rparr>))"
proof (cases err)
  case None
  then show ?thesis using ok_run_step [OF trust_taken [OF assms]] by (simp add: trust_answered_def)
next
  case (Some e)
  then show ?thesis using ok_settle_but [OF trust_taken [OF assms]] ok_but_gone [OF trust_taken [OF assms]]
    by (simp add: trust_answered_def del: kept_fields)
qed

lemma ok_trusting:
  assumes "flow_ok w" shows "flow_ok (trustHostKeyAndRetry i step w)"
proof (cases "cs_hostKey step = None")
  case False
  let ?s = "trusting_step step" and ?u = "trustHostKeyAndRetry i step w"
  have u: "?u = (updateConnectingTabStep i ?s w)\<lparr>cw_trusts := cw_trusts w @ [(i, ?s)]\<rparr>"
    unfolding trustHostKeyAndRetry_def Let_def if_not_P [OF False] by (simp add: updateConnectingTabStep_def update_term_def)
  have due: "answer_due ?u j \<longleftrightarrow> answer_due w j \<or> j = i" for j
    unfolding u by (auto simp: answer_due_def updateConnectingTabStep_def update_term_def)
  have running: "cs_status ?s = StepRunning" by (simp add: trusting_step_def)
  have "tab_moves ?u tab" if tab: "tab \<in> set (cw_tabs ?u)" for tab
  proof -
    obtain t where "t \<in> set (cw_tabs w)" "tab = (if tt_id t = i then stepped_tab ?s t else t)"
      using tab in_update_term [of tab i "stepped_tab ?s" w] unfolding u updateConnectingTabStep_def by auto
    then show ?thesis using assms due running by (auto simp: flow_ok_def tab_moves_def stepped_tab_def)
  qed
  then show ?thesis using assms running
    unfolding flow_ok_def by (simp add: u) (auto simp: updateConnectingTabStep_def update_term_def)
qed (simp add: trustHostKeyAndRetry_def assms)

section \<open>Answers\<close>

lemma ok_output_listener:
  assumes "flow_ok w" "attempt_live k w"
  shows "flow_ok (output_listener_ready k (cw_attempts w ! k) w)"
proof -
  have "attempts_kept w (update_attempt k (\<lambda>a. a\<lparr>at_capturing := True, at_since := n,
      at_phase := (if is_step_attempt a then AwaitProgressListener else AwaitSession)\<rparr>) w)" for n
    using assms(2) by (intro kept_phase) (auto simp: Let_def attempt_live_def attempt_ok_def is_step_attempt_def split: attempt_kind.split)
  note kept = this
  have "attempts_kept w (output_listener_ready k (cw_attempts w ! k) w)"
    unfolding output_listener_ready_def Let_def using kept attempts_kept_trans [OF kept kept_set_stop] by presburger
  moreover have "cw_tabs (output_listener_ready k (cw_attempts w ! k) w) = cw_tabs w"
    by (simp add: output_listener_ready_def Let_def)
  ultimately show ?thesis using assms(1) ok_kept_tabs by blast
qed

lemma attempts_kept_at:
  assumes "attempts_kept w u" "k < length (cw_attempts w)"
  shows "at_tab (cw_attempts u ! k) = at_tab (cw_attempts w ! k)"
    "is_step_attempt (cw_attempts u ! k) = is_step_attempt (cw_attempts w ! k)" "k < length (cw_attempts u)"
  using assms by (auto simp: attempts_kept_def)

text \<open>An attempt may end after a change that ended no other and left its own tab without need of it.\<close>

lemma ok_end_after:
  assumes "flow_ok u" "attempts_kept w u" "k < length (cw_attempts w)"
    "is_step_attempt (cw_attempts w ! k) \<Longrightarrow> tab_rests (at_tab (cw_attempts w ! k)) u"
  shows "flow_ok (end_attempt k u)"
  by (rule ok_end [OF assms(1) attempts_kept_at(3) [OF assms(2,3)]]) (use attempts_kept_at [OF assms(2,3)] assms(4) in simp)

lemma ok_end_kept:
  assumes "flow_ok w" "attempts_kept w u" "cw_tabs u = cw_tabs w" "k < length (cw_attempts w)"
    "is_step_attempt (cw_attempts w ! k) \<Longrightarrow> \<not> connectingTabExists (at_tab (cw_attempts w ! k)) w"
  shows "flow_ok (end_attempt k u)"
  by (rule ok_end_after [OF ok_kept_tabs [OF assms(1-3)] assms(2,4)]) (rule rests_gone [OF assms(5,3)])

lemma ok_end_settled:
  assumes "flow_ok w" "attempts_kept w u" "cw_tabs u = cw_tabs w" "k < length (cw_attempts w)" "step_settled s"
  shows "flow_ok (end_attempt k (updateConnectingTabStep (at_tab (cw_attempts w ! k)) s u))"
  by (rule ok_end_after [OF ok_settle [OF assms(1-3,5)] _ assms(4)])
    (use assms(2) rests_settled [OF assms(5)] in simp_all)

lemma exists_kept: "cw_tabs u = cw_tabs w \<Longrightarrow> connectingTabExists i u = connectingTabExists i w"
  by (simp add: connectingTabExists_def)

lemma ok_progress_listener:
  assumes "flow_ok w" "attempt_live k w"
  shows "flow_ok (progress_listener_ready k (cw_attempts w ! k) w)"
proof -
  let ?i = "at_tab (cw_attempts w ! k)"
  define u where "u = setTerminalWarmupCaptureStop ?i k (update_attempt k (\<lambda>a. a\<lparr>at_progress := True\<rparr>) w)"
  have "attempts_kept w (update_attempt k (\<lambda>a. a\<lparr>at_progress := True\<rparr>) w)"
    by (rule kept_update) (auto simp: is_step_attempt_def attempt_ok_def split: attempt_kind.split)
  then have u: "attempts_kept w u" "cw_tabs u = cw_tabs w"
    unfolding u_def by (rule attempts_kept_trans [OF _ kept_set_stop]) simp
  have k: "k < length (cw_attempts w)" "k < length (cw_attempts u)" "at_phase (cw_attempts u ! k) \<noteq> AttemptEnded"
    using assms(2) u(1) by (auto simp: attempt_live_def attempts_kept_def)
  show ?thesis
  proof (cases "connectingTabExists ?i w")
    case True
    have "attempts_kept u (update_attempt k (\<lambda>a. a\<lparr>at_phase := AwaitSession\<rparr>) u)"
      using k by (intro kept_phase) (auto simp: Let_def is_step_attempt_def attempt_ok_def split: attempt_kind.split)
    then have "flow_ok (update_attempt k (\<lambda>a. a\<lparr>at_phase := AwaitSession\<rparr>) u)"
      by (intro ok_kept_tabs [OF assms(1) attempts_kept_trans [OF u(1)]]) (simp_all add: u(2))
    then show ?thesis using True exists_kept [OF u(2)] by (simp add: progress_listener_ready_def flip: u_def)
  next
    case False
    then have "flow_ok (end_attempt k (stopTerminalWarmupCapture ?i u))"
      by (intro ok_end_kept [OF assms(1) attempts_kept_trans [OF u(1) kept_stop]]) (simp_all add: u(2) k)
    then show ?thesis using False exists_kept [OF u(2)] by (simp add: progress_listener_ready_def flip: u_def)
  qed
qed

lemma ok_test_passed:
  assumes "flow_ok w" "k < length (cw_attempts w)" "at_kind (cw_attempts w ! k) = AttemptStep running"
    "at_phase (cw_attempts w ! k) = AwaitTest"
  shows "flow_ok (test_passed k (cw_attempts w ! k) running w)"
proof -
  have "attempt_ok (cw_attempts w ! k)" using assms(1,2) by (simp add: flow_ok_def)
  then have "step_settled (running\<lparr>cs_logs := l, cs_status := StepSuccess\<rparr>)" for l
    using assms(3,4) by (simp add: attempt_ok_def step_settled_def)
  then show ?thesis
    using ok_end_settled [OF assms(1) attempts_kept_refl refl assms(2)] ok_end_kept [OF assms(1) attempts_kept_refl refl assms(2)]
    by (simp add: test_passed_def)
qed

lemma terminal_moves: "tt_type tab = TabTerminal \<Longrightarrow> tab_moves w tab"
  by (simp add: tab_moves_def)

lemma kept_handoff [simp]: "attempts_kept w (update_attempt k (\<lambda>a. a\<lparr>at_handoff := True\<rparr>) w)"
  by (rule kept_update) (auto simp: is_step_attempt_def attempt_ok_def split: attempt_kind.split)

lemma ok_step_opened:
  assumes "flow_ok w" "k < length (cw_attempts w)"
  shows "flow_ok (step_session_opened k (cw_attempts w ! k) running s (w\<lparr>cw_opened := ss\<rparr>))"
proof (cases "connectingTabExists (at_tab (cw_attempts w ! k)) w")
  case False
  have "attempts_kept w (stopTerminalWarmupCapture i (w\<lparr>cw_opened := ss\<rparr>))" for i
    using attempts_kept_trans [of w "w\<lparr>cw_opened := ss\<rparr>"] by simp
  then show ?thesis using False ok_end_kept [OF assms(1) _ _ assms(2)]
    by (simp add: step_session_opened_def connectingTabExists_def)
next
  case True
  let ?i = "at_tab (cw_attempts w ! k)" and ?f = "\<lambda>a. a\<lparr>at_handoff := True\<rparr>"
  define u where "u = update_attempt k ?f (w\<lparr>cw_opened := ss, cw_refreshed := cw_refreshed w @ [runtimeCredentialRequest running]\<rparr>)"
  define x where "x = replaceConnectingTabWithTerminal ?i s (at_warmup (cw_attempts w ! k)) (at_request (cw_attempts w ! k)) u"
  have u: "attempts_kept w u" "cw_tabs u = cw_tabs w"
    unfolding u_def by (rule attempts_kept_trans [OF _ kept_handoff]) simp_all
  have "flow_ok x"
    unfolding x_def replaceConnectingTabWithTerminal_def by (rule ok_update_term [OF assms(1) u]) (simp add: terminal_moves)
  moreover have "tab_rests ?i x"
    unfolding tab_rests_def x_def replaceConnectingTabWithTerminal_def by (auto simp: update_term_def)
  moreover have "attempts_kept w x"
    unfolding x_def replaceConnectingTabWithTerminal_def using u(1) by simp
  ultimately have "flow_ok (end_attempt k x)" using assms(2) by (intro ok_end_after)
  then show ?thesis using True by (simp add: step_session_opened_def connectingTabExists_def u_def x_def)
qed

text \<open>The attempts that have no page leave every page as it is.\<close>

lemma ok_direct_opened:
  assumes "flow_ok w" "k < length (cw_attempts w)" "at_kind (cw_attempts w ! k) = AttemptDirect c command"
  shows "flow_ok (direct_session_opened k (cw_attempts w ! k) c command s (w\<lparr>cw_opened := ss\<rparr>))"
proof -
  let ?i = "at_tab (cw_attempts w ! k)"
  have no_page: "\<not> is_step_attempt (cw_attempts w ! k)" using assms(3) by (simp add: is_step_attempt_def)
  have stopped: "attempts_kept w (stopTerminalWarmupCapture i (w\<lparr>cw_opened := ss\<rparr>))" for i
    by (rule attempts_kept_trans [OF _ kept_stop]) simp
  have kept: "attempts_kept w (update_attempt k (\<lambda>a. a\<lparr>at_handoff := True\<rparr>) (w\<lparr>cw_opened := ss\<rparr>))"
    by (rule attempts_kept_trans [OF _ kept_handoff]) simp
  define f :: "term_tab \<Rightarrow> term_tab" where "f = (\<lambda>tab. tab\<lparr>tt_error := None, tt_requestId := Some (at_request (cw_attempts w ! k)), tt_sessionId := Some s,
    tt_status := connected_status, tt_warmupOutput := at_warmup (cw_attempts w ! k)\<rparr>)"
  have f: "tab_moves w (f tab) = tab_moves w tab" for tab by (simp add: f_def tab_moves_def)
  have "flow_ok (end_attempt k (u\<lparr>cw_refreshed := r, cw_writes := x\<rparr>))"
    if "u = update_term ?i f (update_attempt k (\<lambda>a. a\<lparr>at_handoff := True\<rparr>) (w\<lparr>cw_opened := ss\<rparr>))" for u r x
  proof (rule ok_end_after [OF _ _ assms(2)])
    have "flow_ok u" unfolding that by (rule ok_update_term [OF assms(1) kept]) (simp_all add: f)
    then show "flow_ok (u\<lparr>cw_refreshed := r, cw_writes := x\<rparr>)" by (rule ok_kept_tabs) simp_all
  qed (use kept no_page that in simp_all)
  then show ?thesis
    using no_page ok_end_kept [OF assms(1) _ _ assms(2)] stopped
    by (simp add: direct_session_opened_def Let_def flip: f_def)
qed

lemma ok_local_opened:
  assumes "flow_ok w" "k < length (cw_attempts w)" "at_kind (cw_attempts w ! k) = AttemptLocal call"
  shows "flow_ok (local_session_opened k (cw_attempts w ! k) s (w\<lparr>cw_opened := ss\<rparr>))"
proof -
  have no_page: "\<not> is_step_attempt (cw_attempts w ! k)" using assms(3) by (simp add: is_step_attempt_def)
  have stopped: "attempts_kept w (stopTerminalWarmupCapture i (w\<lparr>cw_opened := ss\<rparr>))" for i
    by (rule attempts_kept_trans [OF _ kept_stop]) simp
  have kept: "attempts_kept w (update_attempt k (\<lambda>a. a\<lparr>at_handoff := True\<rparr>) (w\<lparr>cw_opened := ss\<rparr>))"
    by (rule attempts_kept_trans [OF _ kept_handoff]) simp
  show ?thesis
    unfolding local_session_opened_def
    by (rule ok_end_kept [OF assms(1) _ _ assms(2)]) (use no_page stopped kept in simp_all)
qed

lemma ok_resolved:
  assumes "flow_ok w" "k < length (cw_attempts w)"
  shows "flow_ok (attempt_resolved k (cw_attempts w ! k) value w)"
proof (cases "at_phase (cw_attempts w ! k)")
  case AwaitSession
  then show ?thesis
    using assms ok_step_opened ok_direct_opened ok_local_opened
    by (simp add: attempt_resolved_def Let_def split: attempt_kind.split)
qed (use assms ok_output_listener ok_progress_listener ok_test_passed in
    \<open>simp_all add: attempt_resolved_def attempt_live_def split: attempt_kind.split\<close>)

lemma kept_finished [simp]:
  "attempt_live k w \<Longrightarrow> attempts_kept w (update_attempt k (\<lambda>a. a\<lparr>at_finished := True, at_capturing := False\<rparr>) w)"
  by (rule kept_phase) (auto simp: Let_def is_step_attempt_def attempt_ok_def split: attempt_kind.split)

lemma ok_step_rejected:
  assumes "flow_ok w" "attempt_live k w"
  shows "flow_ok (step_rejected env k (cw_attempts w ! k) running e w)"
proof -
  let ?i = "at_tab (cw_attempts w ! k)"
  define u where "u = stopTerminalWarmupCapture ?i (update_attempt k (\<lambda>a. a\<lparr>at_finished := True, at_capturing := False\<rparr>) w)"
  have u: "attempts_kept w u" "cw_tabs u = cw_tabs w"
    unfolding u_def by (rule attempts_kept_trans [OF kept_finished [OF assms(2)] kept_stop]) simp
  have k: "k < length (cw_attempts w)" using assms(2) by (simp add: attempt_live_def)
  show ?thesis
    using ok_end_kept [OF assms(1) u k] ok_end_settled [OF assms(1) u k] exists_kept [OF u(2)]
    by (simp add: step_rejected_def Let_def split: option.split flip: u_def)
qed

lemma ok_direct_rejected:
  assumes "flow_ok w" "k < length (cw_attempts w)" "at_kind (cw_attempts w ! k) = AttemptDirect c command"
  shows "flow_ok (direct_rejected env k (cw_attempts w ! k) e w)"
  unfolding direct_rejected_def
proof (rule ok_end_after [OF _ _ assms(2)])
  show "flow_ok (update_term (at_tab (cw_attempts w ! k)) (\<lambda>tab. tab\<lparr>tt_error := Some (formatError (ce_str env) e),
      tt_sessionId := None, tt_status := connect_failed_status, tt_warmupOutput := at_warmup (cw_attempts w ! k)\<rparr>)
      (stopTerminalWarmupCapture (at_tab (cw_attempts w ! k)) w))"
    by (rule ok_update_term [OF assms(1)]) (simp_all add: tab_moves_def)
qed (use assms(3) in \<open>simp_all add: is_step_attempt_def\<close>)

lemma ok_local_rejected:
  assumes "flow_ok w" "k < length (cw_attempts w)" "at_kind (cw_attempts w ! k) = AttemptLocal call"
  shows "flow_ok (local_rejected env k (cw_attempts w ! k) e w)"
  unfolding local_rejected_def
  by (rule ok_end_kept [OF assms(1) _ _ assms(2)]) (use assms(3) in \<open>simp_all add: is_step_attempt_def\<close>)

lemma ok_rejected:
  assumes "flow_ok w" "k < length (cw_attempts w)"
  shows "flow_ok (attempt_rejected env k (cw_attempts w ! k) e w)"
  using assms ok_step_rejected ok_direct_rejected ok_local_rejected
  by (simp add: attempt_rejected_def attempt_live_def split: attempt_kind.split)

lemma ok_progress:
  assumes "flow_ok w" shows "flow_ok (progress_reported k r stage m w)"
proof (cases "k < length (cw_attempts w) \<and> (\<exists>s. at_kind (cw_attempts w ! k) = AttemptStep s) \<and> at_progress (cw_attempts w ! k)
    \<and> \<not> at_finished (cw_attempts w ! k)")
  case True
  then obtain running where k: "k < length (cw_attempts w)" "at_kind (cw_attempts w ! k) = AttemptStep running" by auto
  let ?i = "at_tab (cw_attempts w ! k)" and ?s = "progressed_step stage m running"
  have ok: "attempt_ok (cw_attempts w ! k)" using assms k(1) by (simp add: flow_ok_def)
  then have s: "cs_status ?s = StepRunning" "cs_mode ?s = cs_mode running"
    using k(2) by (simp_all add: attempt_ok_def progressed_step_def)
  have "at_phase (cw_attempts w ! k) \<noteq> AttemptEnded" using ok True by (auto simp: attempt_ok_def)
  then have due: "answer_due w ?i"
    using k by (auto simp: answer_due_def is_step_attempt_def intro!: bexI [of _ "cw_attempts w ! k"])
  define u where "u = update_attempt k (\<lambda>a. a\<lparr>at_kind := AttemptStep ?s\<rparr>) w"
  have u: "attempts_kept w u"
    unfolding u_def by (rule kept_phase) (use k(2) s in \<open>auto simp: Let_def is_step_attempt_def attempt_ok_def\<close>)
  have moved: "flow_ok (updateConnectingTabStep ?i ?s u)"
  proof (rule kept_ok [OF assms])
    show "\<forall>tab\<in>set (cw_tabs (updateConnectingTabStep ?i ?s u)). tab_moves w tab"
      using assms due s(1) by (auto simp: u_def flow_ok_def updateConnectingTabStep_def update_term_def)
  qed (use u in simp)
  then show ?thesis using k assms by (simp add: progress_reported_def Let_def flip: u_def)
next
  case False
  then have "progress_reported k r stage m w = w" by (auto simp: progress_reported_def Let_def split: attempt_kind.split)
  then show ?thesis using assms by simp
qed

section \<open>The other events\<close>

lemma ok_update:
  assumes "flow_ok w" "\<And>tab. tab_moves w tab \<Longrightarrow> tab_moves w (f tab)"
  shows "flow_ok (update_term i f w)"
  by (rule ok_update_term [OF assms(1) attempts_kept_refl refl assms(2)])

lemma moves_warmup: "tab_moves w tab \<Longrightarrow> tab_moves w (tab\<lparr>tt_warmupOutput := d\<rparr>)"
  by (simp add: tab_moves_def)

lemma kept_buffer [simp]: "attempts_kept w (update_attempt k (\<lambda>a. a\<lparr>at_warmup := at_warmup a @ d\<rparr>) w)"
  by (rule kept_update) (auto simp: is_step_attempt_def attempt_ok_def split: attempt_kind.split)

lemma ok_heard:
  assumes "flow_ok w" shows "flow_ok (output_heard r d k w)"
proof -
  have "flow_ok (appendTerminalWarmupOutput i d w)" "flow_ok (appendLocalTerminalWarmupOutput i d w)" for i
    unfolding appendTerminalWarmupOutput_def appendLocalTerminalWarmupOutput_def
    by (rule ok_update [OF assms], simp add: moves_warmup) (rule ok_kept_tabs [OF assms], simp_all)
  moreover have "flow_ok (update_attempt k (\<lambda>a. a\<lparr>at_warmup := at_warmup a @ d\<rparr>) w)"
    by (rule ok_kept_tabs [OF assms]) simp_all
  ultimately show ?thesis using assms by (simp add: output_heard_def Let_def split: attempt_kind.split)
qed

lemma ok_sent:
  assumes "flow_ok w" shows "flow_ok (output_sent r d w)"
proof -
  have "flow_ok (fold (output_heard r d) ks w)" for ks
    using assms by (induction ks arbitrary: w) (simp_all add: ok_heard)
  then show ?thesis unfolding output_sent_def Let_def by (rule ok_kept_tabs) simp_all
qed

lemma flow_but_tabs:
  assumes "flow_ok w" "\<forall>tab\<in>set T. tt_id tab \<noteq> i \<longrightarrow> tab \<in> set (cw_tabs w)"
  shows "flow_but i (w\<lparr>cw_tabs := T\<rparr>)"
  using assms by (auto simp: flow_ok_def flow_but_def)

lemma ok_more_tabs:
  assumes "flow_ok w" "\<forall>tab\<in>set T. tab \<in> set (cw_tabs w) \<or> tab_moves w tab"
  shows "flow_ok (w\<lparr>cw_tabs := T\<rparr>)"
  by (rule kept_ok [OF assms(1)]) (use assms in \<open>auto simp: flow_ok_def\<close>)

lemma ok_connect:
  assumes "flow_ok w" shows "flow_ok (startConnectionStep env now uuid c m w)"
proof (cases "isRdpConnection (Some c) \<or> isVncConnection (Some c)")
  case False
  let ?step = "initial_step env now c m"
  let ?tab = "buildConnectingTab (cw_tabs w) c ?step"
  let ?w = "w\<lparr>cw_tabs := cw_tabs w @ [?tab]\<rparr>"
  have "flow_ok (runConnectionStep uuid (tt_id ?tab) ?step ?w)"
    by (intro ok_run_step flow_but_tabs assms) simp
  moreover have "flow_ok ?w" if "cp_credential_mode c = Some CredPrompt"
    using that by (intro ok_more_tabs assms)
      (auto simp: tab_moves_def buildConnectingTab_def step_settled_def initial_step_def)
  ultimately show ?thesis using False by (simp add: startConnectionStep_def Let_def)
qed (simp add: startConnectionStep_def assms)

lemma ok_start:
  assumes "flow_ok w" "attempt_ok a" shows "flow_ok (start_attempt a w)"
proof -
  have "tab_moves (start_attempt a w) tab" if "tab_moves w tab" for tab
    using that due_start by (auto simp: tab_moves_def)
  then show ?thesis using assms by (auto simp: flow_ok_def start_attempt_def)
qed

lemma built_direct: "tab_moves w (buildDirectTerminalTab n ts c t)"
  by (simp add: tab_moves_def buildDirectTerminalTab_def Let_def)

lemma new_ok: "attempt_ok (new_attempt i (AttemptDirect c x) AwaitOutputListener r)"
    "attempt_ok (new_attempt i (AttemptLocal l) AwaitOutputListener r)"
  by (simp_all add: attempt_ok_def new_attempt_def)

lemma ok_locals: "flow_ok w \<Longrightarrow> flow_ok (w\<lparr>cw_locals := L\<rparr>)"
  by (rule ok_kept_tabs) simp_all

lemma ok_open:
  assumes "flow_ok w"
  shows "flow_ok (openTerminalInConnection nonce c w)" "flow_ok (openDockerContainerTerminal nonce c name ident w)"
    "flow_ok (openLocalTerminalByProfile nonce profile w)" "flow_ok (openCharacterConnectionSession env nonce c w)"
    "flow_ok (openCharacterTerminalInConnection env nonce c w)"
proof -
  show "flow_ok (openTerminalInConnection nonce c w)" "flow_ok (openDockerContainerTerminal nonce c name ident w)"
    unfolding openTerminalInConnection_def openDockerContainerTerminal_def Let_def
    by (intro ok_start ok_more_tabs assms new_ok, auto simp: built_direct)+
  show "flow_ok (openLocalTerminalByProfile nonce profile w)"
    by (auto simp: openLocalTerminalByProfile_def Let_def assms intro!: ok_start ok_locals new_ok split: option.split)
  show last: "flow_ok (openCharacterTerminalInConnection env nonce c w)"
    unfolding openCharacterTerminalInConnection_def Let_def by (intro ok_start ok_locals assms new_ok)
  show "flow_ok (openCharacterConnectionSession env nonce c w)"
    using last assms by (simp add: openCharacterConnectionSession_def)
qed

lemma ok_close_tabs:
  assumes "flow_ok w" shows "flow_ok (close_term_tabs closing w)"
  by (rule kept_ok [OF assms])
    (use assms in \<open>auto simp: close_term_tabs_def Let_def closeRuntime_fold flow_ok_def\<close>)

lemma ok_close_locals:
  assumes "flow_ok w" shows "flow_ok (closeLocalTerminalTabs is w)"
  by (rule ok_kept_tabs [OF assms]) (simp_all add: closeLocalTerminalTabs_def Let_def closeRuntime_fold)

lemma ok_reconnect:
  assumes "flow_ok w"
  shows "flow_ok (mount_panel i w)" "flow_ok (reconnectCurrentTerminal k w)" "flow_ok (render_panels w)"
proof -
  show "flow_ok (mount_panel i w)"
    by (rule ok_kept_tabs [OF assms]) (simp_all add: mount_panel_def split: option.split)
  show "flow_ok (reconnectCurrentTerminal k w)"
    by (rule ok_kept_tabs [OF assms]) (simp_all add: reconnectCurrentTerminal_def Let_def)
  show "flow_ok (render_panels w)"
    by (rule ok_kept_tabs [OF assms]) (simp_all add: render_panels_def)
qed

lemma ok_reconnect_settled:
  assumes "flow_ok w" shows "flow_ok (reconnect_settled k now answer w)"
proof (cases "k < length (cw_panels w) \<and> pn_pending (cw_panels w ! k) \<noteq> None")
  case True
  have kept: "flow_ok (update_panel n h w)" for n h by (rule ok_kept_tabs [OF assms]) simp_all
  have closed: "flow_ok (terminalClose x u)" if "flow_ok u" for x u by (rule ok_kept_tabs [OF that]) simp_all
  have opened: "flow_ok (update_panel n h (w\<lparr>cw_opened := ss\<rparr>))" for n h ss by (rule ok_kept_tabs [OF assms]) simp_all
  have set_session: "flow_ok (updateTerminalRuntimeSession i s r u)" if "flow_ok u" for i s r u
    unfolding updateTerminalRuntimeSession_def by (rule ok_update [OF that]) (simp add: terminal_moves)
  show ?thesis
    using True kept closed opened set_session assms by (auto simp: reconnect_settled_def Let_def split: option.split)
qed (use assms in \<open>auto simp: reconnect_settled_def Let_def\<close>)

lemma ok_on_step:
  assumes "flow_ok w" "\<And>step. cs_status step = status \<Longrightarrow> flow_ok (f step w)" shows "flow_ok (on_step status i f w)"
  using assms by (simp add: on_step_def split: option.split)

lemma ok_edit:
  assumes "flow_ok w" "\<And>step. cs_status (f step) = cs_status step" shows "flow_ok (edit_step i f w)"
  unfolding edit_step_def
  by (intro ok_on_step ok_settle [OF assms(1) attempts_kept_refl refl] assms(1)) (simp add: step_settled_def assms(2))

lemma ok_event:
  assumes w: "flow_ok w" shows "flow_ok (connect_event_step env e w)"
proof (cases e)
  case (BackendTrust n uuid err)
  show ?thesis
  proof (cases "drop n (cw_trusts w)")
    case (Cons t rest)
    then have "cw_trusts w = take n (cw_trusts w) @ t # rest" by (metis append_take_drop_id)
    then show ?thesis using ok_trust [OF w] BackendTrust Cons by (cases t) simp
  qed (simp add: BackendTrust w)
next
  case (BackendWriteFailed i x)
  have "flow_ok (update_term i (\<lambda>tab. tab\<lparr>tt_error := y\<rparr>) w)" for y
    by (rule ok_update [OF w]) (simp add: tab_moves_def)
  then show ?thesis using BackendWriteFailed w by simp
next
  case (PanelReady i)
  then show ?thesis using ok_kept_tabs [OF w] by simp
next
  case (CaptureTimer k)
  then show ?thesis using ok_kept_tabs [OF w] w by simp
qed (use w in \<open>auto intro!: ok_connect ok_on_step ok_edit ok_run_step flow_but ok_trusting ok_open ok_close_tabs ok_close_locals
    ok_reconnect ok_reconnect_settled ok_resolved ok_rejected ok_progress ok_sent
    simp: retryConnectionStep_def submitPromptCredential_def Let_def
    closeTerminalTabs_def closeOtherTerminalTabs_def closeTerminalTabsToRight_def closeAllTerminalTabsForConnection_def
    close_connection_terminals_def closeOtherLocalTerminalTabs_def closeLocalTerminalTabsToRight_def split: option.split\<close>)

lemma reach_flow: "connect_reach env w \<Longrightarrow> flow_ok w"
proof (induction rule: connect_reach.induct)
  case reach_start
  show ?case by (simp add: connect_start_def flow_ok_def)
next
  case (reach_step w e)
  then show ?case unfolding connect_step_def by (intro ok_reconnect ok_event)
qed

section \<open>No page is a dead end\<close>

text \<open>C2. The page of an attempt is never a dead end: in every reachable world, whatever was answered, refused, closed or
  retried, a tab that is connecting shows a step; one that runs has a call to the backend whose answer is still to come,
  one that waits for the host key has the key to show, a finished one was only a test, and none is idle.\<close>

theorem attempt_never_stuck:
  assumes "connect_reach env w" "tab \<in> set (cw_tabs w)" "tt_type tab = TabConnecting"
  shows "\<exists>step. tt_connectionStep tab = Some step \<and> (case cs_status step of
      StepIdle \<Rightarrow> False | StepPrompt \<Rightarrow> True | StepError \<Rightarrow> True | StepRunning \<Rightarrow> answer_due w (tt_id tab)
    | StepWaitingHostKey \<Rightarrow> cs_hostKey step \<noteq> None | StepSuccess \<Rightarrow> cs_mode step = ModeTest)"
proof -
  have "tab_moves w tab" using reach_flow [OF assms(1)] assms(2) by (simp add: flow_ok_def)
  then show ?thesis using assms(3) by (auto simp: tab_moves_def step_settled_def split: step_status.splits)
qed

definition sample_connection :: connection_profile where
  "sample_connection = \<lparr>cp_id = js ''c'', cp_name = js ''host'', cp_protocol = None, cp_group = None, cp_host = js ''h'', cp_port = Num 22,
     cp_username = js ''u'', cp_credential_mode = Some CredPrompt, cp_credential_id = None, cp_inline_auth_kind = None,
     cp_inline_password = None, cp_inline_private_key_path = None, cp_inline_private_key_passphrase = None,
     cp_prompt_auth_kind = None, cp_proxy = None, cp_jump = None, cp_advanced = None, cp_rdp = None, cp_vnc = None,
     cp_telnet = None, cp_serial = None, cp_notes = None, cp_is_favorite = False, cp_last_connected_at = None,
     cp_remote_os_id = None, cp_remote_os_name = None, cp_remote_os_version = None, cp_created_at = [], cp_updated_at = [],
     cp_auth_kind = None, cp_password = None, cp_private_key_path = None, cp_private_key_passphrase = None\<rparr>"

definition sample_step_events :: "connect_event list" where
  "sample_step_events = [UserConnect sample_connection ModeTest 7 [], UserSubmit (js ''connection-c-7'') []]"

theorem attempt_never_stuck_witness:
  "\<exists>w tab. connect_reach sample_connect_env w \<and> tab \<in> set (cw_tabs w) \<and> tt_type tab = TabConnecting \<and> answer_due w (tt_id tab)"
proof -
  let ?w = "fold (connect_step sample_connect_env) sample_step_events connect_start"
  note defs = sample_step_events_def connect_step_def connect_start_def startConnectionStep_def start_attempt_def
    new_attempt_def buildConnectingTab_def initial_step_def sample_connection_def Let_def fresh_tab_def
    render_panels_def on_step_def shown_step_def submitPromptCredential_def runConnectionStep_def updateConnectingTabStep_def
    update_term_def stepped_tab_def running_step_def js_def isRdpConnection_def isVncConnection_def connection_protocol_def
  have "event_allowed (sample_step_events ! n) (fold (connect_step sample_connect_env) (take n sample_step_events) connect_start)"
    if "n < length sample_step_events" for n
  proof -
    have "n = 0 \<or> n = 1" using that by (auto simp: sample_step_events_def)
    then show ?thesis by (elim disjE) (simp_all add: sample_step_events_def connect_start_def fresh_tab_def)
  qed
  then have reach: "connect_reach sample_connect_env ?w" by (intro reach_run reach_start)
  have "\<exists>tab. cw_tabs ?w = [tab] \<and> tt_type tab = TabConnecting \<and> map_option cs_status (tt_connectionStep tab) = Some StepRunning"
    by (simp add: defs dec_digits.simps [of 7])
  then obtain tab where tab: "tab \<in> set (cw_tabs ?w)" "tt_type tab = TabConnecting"
      "map_option cs_status (tt_connectionStep tab) = Some StepRunning" by auto
  then have "answer_due ?w (tt_id tab)" using attempt_never_stuck [OF reach tab(1,2)] by auto
  then show ?thesis using reach tab by blast
qed

end
