(* ===== verification/Shortcut_Keys.thy ===== *)
theory Shortcut_Keys
  imports Js_Base
begin

text \<open>
  Keyboard shortcuts as text: \<open>src/features/shortcuts/shortcutKeys.ts\<close>. A binding is written
  \<open>Ctrl+Shift+K\<close>. The modifier and key tables are plain objects, so that the names
  \<open>constructor\<close> and \<open>__proto__\<close>, the only all-lower-case properties of \<open>Object.prototype\<close> whose
  value is truthy, count as a modifier that sets none of the four flags.
\<close>

section \<open>Bindings\<close>

record shortcut_binding =
  sb_ctrl :: bool
  sb_shift :: bool
  sb_alt :: bool
  sb_meta :: bool
  sb_key :: jsstr

datatype modifier = ModCtrl | ModShift | ModAlt | ModMeta

definition modifierAliases :: "(jsstr \<times> modifier) list" where
  "modifierAliases =
     [(js ''alt'', ModAlt), (js ''control'', ModCtrl), (js ''ctrl'', ModCtrl), (js ''cmd'', ModMeta),
      (js ''command'', ModMeta), (js ''meta'', ModMeta), (js ''option'', ModAlt), (js ''shift'', ModShift),
      (js ''super'', ModMeta), (js ''win'', ModMeta)]"

definition keyAliases :: "(jsstr \<times> jsstr) list" where
  "keyAliases =
     [(js ''arrowdown'', js ''ArrowDown''), (js ''arrowleft'', js ''ArrowLeft''), (js ''arrowright'', js ''ArrowRight''),
      (js ''arrowup'', js ''ArrowUp''), (js ''backspace'', js ''Backspace''), (js ''comma'', js '',''),
      (js ''delete'', js ''Delete''), (js ''del'', js ''Delete''), (js ''down'', js ''ArrowDown''), (js ''enter'', js ''Enter''),
      (js ''esc'', js ''Escape''), (js ''escape'', js ''Escape''), (js ''left'', js ''ArrowLeft''), (js ''minus'', js ''-''),
      (js ''period'', js ''.''), (js ''plus'', js ''+''), (js ''right'', js ''ArrowRight''), (js ''space'', js ''Space''),
      (js ''tab'', js ''Tab''), (js ''up'', js ''ArrowUp'')]"

definition inherited_names :: "jsstr list" where
  "inherited_names = [js ''constructor'', js ''__proto__'']"

definition keyboardModifierKeys :: "jsstr list" where
  "keyboardModifierKeys = [js ''Alt'', js ''AltGraph'', js ''Control'', js ''Meta'', js ''Shift'']"

definition is_ascii_letter :: "nat \<Rightarrow> bool" where
  "is_ascii_letter c \<longleftrightarrow> (65 \<le> c \<and> c \<le> 90) \<or> (97 \<le> c \<and> c \<le> 122)"

text \<open>\<open>/^f([1-9]|1[0-9]|2[0-4])$/i\<close>.\<close>

definition is_function_key :: "jsstr \<Rightarrow> bool" where
  "is_function_key s \<longleftrightarrow>
     (case s of
        [f, d] \<Rightarrow> (f = 70 \<or> f = 102) \<and> 49 \<le> d \<and> d \<le> 57
      | [f, d, e] \<Rightarrow> (f = 70 \<or> f = 102) \<and> ((d = 49 \<and> 48 \<le> e \<and> e \<le> 57) \<or> (d = 50 \<and> 48 \<le> e \<and> e \<le> 52))
      | _ \<Rightarrow> False)"

definition normalizeShortcutKey :: "jsstr \<Rightarrow> jsstr" where
  "normalizeShortcutKey key =
     (let trimmed = js_trim key
      in if trimmed = [] then []
         else (case map_of keyAliases (js_lower trimmed) of
                 Some k \<Rightarrow> k
               | None \<Rightarrow>
                   if is_function_key trimmed then js_upper trimmed
                   else if length trimmed = 1
                     then (if is_ascii_letter (hd trimmed) then js_upper trimmed else trimmed)
                   else trimmed))"

fun set_modifier :: "modifier \<Rightarrow> shortcut_binding \<Rightarrow> shortcut_binding" where
  "set_modifier ModCtrl b = b\<lparr>sb_ctrl := True\<rparr>"
| "set_modifier ModShift b = b\<lparr>sb_shift := True\<rparr>"
| "set_modifier ModAlt b = b\<lparr>sb_alt := True\<rparr>"
| "set_modifier ModMeta b = b\<lparr>sb_meta := True\<rparr>"

text \<open>The loop over the parts of a binding.\<close>

fun parse_parts :: "jsstr list \<Rightarrow> shortcut_binding \<Rightarrow> shortcut_binding option" where
  "parse_parts [] b = (if sb_key b = [] then None else Some b)"
| "parse_parts (part # parts) b =
     (let normalizedPart = js_lower part
      in case map_of modifierAliases normalizedPart of
           Some m \<Rightarrow> parse_parts parts (set_modifier m b)
         | None \<Rightarrow>
             if normalizedPart \<in> set inherited_names then parse_parts parts b
             else if sb_key b \<noteq> [] then None
             else parse_parts parts (b\<lparr>sb_key := normalizeShortcutKey part\<rparr>))"

definition no_binding :: shortcut_binding where
  "no_binding = \<lparr>sb_ctrl = False, sb_shift = False, sb_alt = False, sb_meta = False, sb_key = []\<rparr>"

definition binding_parts :: "jsstr \<Rightarrow> jsstr list" where
  "binding_parts value = filter (\<lambda>p. p \<noteq> []) (map js_trim (js_split 43 value))"

definition parseShortcutBinding :: "jsstr option \<Rightarrow> shortcut_binding option" where
  "parseShortcutBinding value =
     (case value of
        None \<Rightarrow> None
      | Some v \<Rightarrow> if binding_parts v = [] then None else parse_parts (binding_parts v) no_binding)"

definition modifier_labels :: "shortcut_binding \<Rightarrow> jsstr list" where
  "modifier_labels b =
     (if sb_ctrl b then [js ''Ctrl''] else []) @ (if sb_shift b then [js ''Shift''] else [])
     @ (if sb_alt b then [js ''Alt''] else []) @ (if sb_meta b then [js ''Meta''] else [])"

definition serializeShortcutBinding :: "shortcut_binding \<Rightarrow> jsstr" where
  "serializeShortcutBinding b = js_join [43] (modifier_labels b @ [sb_key b])"

definition normalizeShortcutBinding :: "jsstr option \<Rightarrow> jsstr option" where
  "normalizeShortcutBinding value = map_option serializeShortcutBinding (parseShortcutBinding value)"

definition formatShortcutBinding :: "jsstr option \<Rightarrow> jsstr" where
  "formatShortcutBinding value =
     (case opt_truthy (normalizeShortcutBinding value) of
        Some n \<Rightarrow> js_join (js '' + '') (js_split 43 n)
      | None \<Rightarrow> [26410, 35774, 32622])"

section \<open>Keyboard events\<close>

record key_event =
  ke_key :: jsstr
  ke_alt :: bool
  ke_ctrl :: bool
  ke_meta :: bool
  ke_shift :: bool

definition event_binding :: "key_event \<Rightarrow> shortcut_binding" where
  "event_binding e = \<lparr>sb_ctrl = ke_ctrl e, sb_shift = ke_shift e, sb_alt = ke_alt e, sb_meta = ke_meta e,
     sb_key = normalizeShortcutKey (ke_key e)\<rparr>"

definition shortcutBindingFromKeyboardEvent :: "key_event \<Rightarrow> jsstr option" where
  "shortcutBindingFromKeyboardEvent e =
     (if ke_key e \<in> set keyboardModifierKeys then None else Some (serializeShortcutBinding (event_binding e)))"

definition keyboardEventMatchesShortcut :: "key_event \<Rightarrow> jsstr option \<Rightarrow> bool" where
  "keyboardEventMatchesShortcut e value =
     (case parseShortcutBinding value of
        None \<Rightarrow> False
      | Some b \<Rightarrow>
          ke_key e \<notin> set keyboardModifierKeys
          \<and> ke_alt e = sb_alt b \<and> ke_ctrl e = sb_ctrl b \<and> ke_meta e = sb_meta b \<and> ke_shift e = sb_shift b
          \<and> normalizeShortcutKey (ke_key e) = sb_key b)"

definition isPlainPrintableShortcut :: "jsstr option \<Rightarrow> bool" where
  "isPlainPrintableShortcut value =
     (case parseShortcutBinding value of
        None \<Rightarrow> False
      | Some b \<Rightarrow> \<not> sb_alt b \<and> \<not> sb_ctrl b \<and> \<not> sb_meta b \<and> \<not> sb_shift b \<and> length (sb_key b) = 1)"

section \<open>Keys that survive printing\<close>

lemma lower_js_label:
  "js_lower (js ''Ctrl'') = js ''ctrl''" "js_lower (js ''Shift'') = js ''shift''"
  "js_lower (js ''Alt'') = js ''alt''" "js_lower (js ''Meta'') = js ''meta''"
  by (simp_all add: js_lower_def js_def lower_unit_def)

lemma modifier_lookup:
  "map_of modifierAliases (js ''ctrl'') = Some ModCtrl" "map_of modifierAliases (js ''shift'') = Some ModShift"
  "map_of modifierAliases (js ''alt'') = Some ModAlt" "map_of modifierAliases (js ''meta'') = Some ModMeta"
  by (simp_all add: modifierAliases_def)

definition is_modifier_name :: "jsstr \<Rightarrow> bool" where
  "is_modifier_name p \<longleftrightarrow> map_of modifierAliases (js_lower p) \<noteq> None \<or> js_lower p \<in> set inherited_names"

definition good_key :: "jsstr \<Rightarrow> bool" where
  "good_key k \<longleftrightarrow> k \<noteq> [] \<and> js_trim k = k \<and> 43 \<notin> set k \<and> \<not> is_modifier_name k \<and> normalizeShortcutKey k = k"

lemma labels_clean: "l \<in> set (modifier_labels b) \<Longrightarrow> l \<noteq> [] \<and> js_trim l = l \<and> 43 \<notin> set l"
proof -
  assume "l \<in> set (modifier_labels b)"
  then have "l \<in> set [js ''Ctrl'', js ''Shift'', js ''Alt'', js ''Meta'']"
    by (auto simp: modifier_labels_def split: if_splits)
  moreover have "\<forall>l\<in>set [js ''Ctrl'', js ''Shift'', js ''Alt'', js ''Meta'']. l \<noteq> [] \<and> js_trim l = l \<and> 43 \<notin> set l"
    by (simp add: js_def js_trim_def js_trim_start_def js_trim_end_def is_ws_def)
  ultimately show ?thesis by blast
qed

lemma binding_parts_serialize:
  assumes "good_key (sb_key b)"
  shows "binding_parts (serializeShortcutBinding b) = modifier_labels b @ [sb_key b]"
proof -
  have w: "\<forall>w\<in>set (modifier_labels b @ [sb_key b]). w \<noteq> [] \<and> js_trim w = w \<and> 43 \<notin> set w"
    using labels_clean assms by (auto simp: good_key_def)
  then have "js_split 43 (js_join [43] (modifier_labels b @ [sb_key b])) = modifier_labels b @ [sb_key b]"
    by (intro js_split_join) auto
  moreover have "map js_trim (modifier_labels b @ [sb_key b]) = modifier_labels b @ [sb_key b]"
    using w by (intro map_idI) blast
  ultimately show ?thesis
    using w unfolding binding_parts_def serializeShortcutBinding_def by (simp add: filter_id_conv)
qed

lemma parse_serialize:
  assumes "good_key (sb_key b)"
  shows "parseShortcutBinding (Some (serializeShortcutBinding b)) = Some b"
proof -
  have "parse_parts (modifier_labels b @ [sb_key b]) no_binding = Some b"
    using assms
    by (cases b; cases "sb_ctrl b"; cases "sb_shift b"; cases "sb_alt b"; cases "sb_meta b")
      (simp_all add: modifier_labels_def lower_js_label modifier_lookup no_binding_def good_key_def is_modifier_name_def)
  then show ?thesis
    using binding_parts_serialize [OF assms] by (simp add: parseShortcutBinding_def)
qed

definition alias_values :: "jsstr list" where "alias_values = [js ''ArrowDown'', js ''ArrowLeft'', js ''ArrowRight'', js ''ArrowUp'', js ''Backspace'', js '','', js ''Delete'', js ''Enter'',
  js ''Escape'', js ''-'', js ''.'', js ''Space'', js ''Tab'']"
lemma alias_values: "map_of keyAliases p = Some k \<Longrightarrow> k = js ''+'' \<or> k \<in> set alias_values"
  by (auto simp: keyAliases_def alias_values_def split: if_splits)

lemma alias_good1: "k \<in> set alias_values \<Longrightarrow> k \<noteq> [] \<and> js_trim k = k \<and> 43 \<notin> set k"
  by (auto simp: alias_values_def js_trim_def js_trim_start_def js_trim_end_def js_def is_ws_def)

lemma alias_lower: "map js_lower alias_values = [js ''arrowdown'', js ''arrowleft'', js ''arrowright'', js ''arrowup'', js ''backspace'', js '','', js ''delete'', js ''enter'',
  js ''escape'', js ''-'', js ''.'', js ''space'', js ''tab'']"
  by (simp add: alias_values_def js_lower_def js_def lower_unit_def)

lemma alias_good2: "k \<in> set alias_values \<Longrightarrow> \<not> is_modifier_name k"
proof -
  assume "k \<in> set alias_values"
  then have "js_lower k \<in> set (map js_lower alias_values)" by simp
  then show ?thesis unfolding alias_lower is_modifier_name_def
    by (auto simp: modifierAliases_def inherited_names_def)
qed

lemma alias_lower_each: "js_lower (js ''ArrowDown'') = js ''arrowdown''" "js_lower (js ''ArrowLeft'') = js ''arrowleft''"
  "js_lower (js ''ArrowRight'') = js ''arrowright''" "js_lower (js ''ArrowUp'') = js ''arrowup''"
  "js_lower (js ''Backspace'') = js ''backspace''" "js_lower (js '','') = js '',''"
  "js_lower (js ''Delete'') = js ''delete''" "js_lower (js ''Enter'') = js ''enter''"
  "js_lower (js ''Escape'') = js ''escape''" "js_lower (js ''-'') = js ''-''" "js_lower (js ''.'') = js ''.''"
  "js_lower (js ''Space'') = js ''space''" "js_lower (js ''Tab'') = js ''tab''"
  using alias_lower by (simp_all add: alias_values_def)

lemma punctuation:
  "\<not> is_function_key (js '','')" "\<not> is_function_key (js ''-'')" "\<not> is_function_key (js ''.'')"
  "\<not> is_ascii_letter (hd (js '',''))" "\<not> is_ascii_letter (hd (js ''-''))" "\<not> is_ascii_letter (hd (js ''.''))"
  by (simp_all add: is_function_key_def is_ascii_letter_def js_def)

lemma alias_fixed:
  "normalizeShortcutKey (js ''ArrowDown'') = js ''ArrowDown''" "normalizeShortcutKey (js ''ArrowLeft'') = js ''ArrowLeft''"
  "normalizeShortcutKey (js ''ArrowRight'') = js ''ArrowRight''" "normalizeShortcutKey (js ''ArrowUp'') = js ''ArrowUp''"
  "normalizeShortcutKey (js ''Backspace'') = js ''Backspace''" "normalizeShortcutKey (js '','') = js '',''"
  "normalizeShortcutKey (js ''Delete'') = js ''Delete''" "normalizeShortcutKey (js ''Enter'') = js ''Enter''"
  "normalizeShortcutKey (js ''Escape'') = js ''Escape''" "normalizeShortcutKey (js ''-'') = js ''-''"
  "normalizeShortcutKey (js ''.'') = js ''.''" "normalizeShortcutKey (js ''Space'') = js ''Space''"
  "normalizeShortcutKey (js ''Tab'') = js ''Tab''"
  using alias_good1
  by (simp_all add: alias_values_def normalizeShortcutKey_def alias_lower_each punctuation keyAliases_def)

lemma alias_good3: "k \<in> set alias_values \<Longrightarrow> normalizeShortcutKey k = k"
  unfolding alias_values_def by (simp only: list.set insert_iff empty_iff simp_thms, elim disjE) (simp_all only: alias_fixed)

lemma alias_good: "k \<in> set alias_values \<Longrightarrow> good_key k"
  using alias_good1 alias_good2 alias_good3 by (auto simp: good_key_def)

lemma unit_cases:
  "upper_unit 70 = [70]" "upper_unit 102 = [70]" "lower_unit 70 = 102" "lower_unit 102 = 102"
  "48 \<le> d \<Longrightarrow> d \<le> 57 \<Longrightarrow> upper_unit d = [d]" "48 \<le> d \<Longrightarrow> d \<le> 57 \<Longrightarrow> lower_unit d = d"
  "48 \<le> d \<Longrightarrow> d \<le> 57 \<Longrightarrow> \<not> is_ws d" "\<not> is_ws 70"
  by (simp_all add: upper_unit_def lower_unit_def is_ws_def)

lemma fkey_cases:
  assumes "is_function_key s"
  obtains (two) f d where "s = [f, d]" "f = 70 \<or> f = 102" "49 \<le> d" "d \<le> 57"
    | (three) f d e where "s = [f, d, e]" "f = 70 \<or> f = 102" "48 \<le> d" "d \<le> 57" "48 \<le> e" "e \<le> 57"
        "(d = 49 \<and> 48 \<le> e \<and> e \<le> 57) \<or> (d = 50 \<and> 48 \<le> e \<and> e \<le> 52)"
proof -
  obtain f d es where s: "s = f # d # es" "es = [] \<or> (\<exists>e. es = [e])"
    using assms by (auto simp: is_function_key_def split: list.splits)
  show ?thesis
  proof (cases es)
    case Nil
    then show ?thesis using assms s two [of f d] by (simp add: is_function_key_def)
  next
    case (Cons e r)
    with s have "es = [e]" by auto
    then show ?thesis using assms s three [of f d e] by (auto simp: is_function_key_def)
  qed
qed

lemma fkey:
  assumes "is_function_key s"
  shows "js_upper s \<noteq> []" "js_trim (js_upper s) = js_upper s" "43 \<notin> set (js_upper s)"
    "js_lower (js_upper s) = js_lower s" "is_function_key (js_upper s)" "js_upper (js_upper s) = js_upper s"
proof -
  have "js_upper s \<noteq> [] \<and> js_trim (js_upper s) = js_upper s \<and> 43 \<notin> set (js_upper s)
    \<and> js_lower (js_upper s) = js_lower s \<and> is_function_key (js_upper s) \<and> js_upper (js_upper s) = js_upper s"
    using assms
  proof (cases rule: fkey_cases)
    case (two f d)
    then have "js_upper s = [70, d]" "js_lower s = [102, d]"
      by (auto simp: js_upper_def js_lower_def unit_cases)
    then show ?thesis using two
      by (simp add: js_trim_id unit_cases js_lower_def is_function_key_def js_upper_def)
  next
    case (three f d e)
    then have "js_upper s = [70, d, e]" "js_lower s = [102, d, e]"
      by (auto simp: js_upper_def js_lower_def unit_cases)
    then show ?thesis using three(3-7)
      by (simp add: js_trim_id unit_cases js_lower_def is_function_key_def js_upper_def)
  qed
  then show "js_upper s \<noteq> []" "js_trim (js_upper s) = js_upper s" "43 \<notin> set (js_upper s)"
    "js_lower (js_upper s) = js_lower s" "is_function_key (js_upper s)" "js_upper (js_upper s) = js_upper s"
    by blast+
qed

lemma letter:
  assumes "is_ascii_letter c"
  shows "\<exists>d. js_upper [c] = [d] \<and> 65 \<le> d \<and> d \<le> 90 \<and> js_lower [d] = js_lower [c] \<and> js_upper [d] = [d]"
proof (cases "c \<le> 90")
  case True
  with assms have "65 \<le> c" "c \<le> 90" by (auto simp: is_ascii_letter_def)
  then have "js_upper [c] = [c]" by (simp add: js_upper_def upper_unit_def)
  with \<open>65 \<le> c\<close> \<open>c \<le> 90\<close> show ?thesis by blast
next
  case False
  with assms have c: "97 \<le> c" "c \<le> 122" by (auto simp: is_ascii_letter_def)
  define d where "d = c - 32"
  have d: "c = d + 32" "65 \<le> d" "d \<le> 90" using c by (simp_all add: d_def)
  then have "js_upper [c] = [d]" "js_upper [d] = [d]" "js_lower [d] = js_lower [c]"
    by (simp_all add: js_upper_def upper_unit_def js_lower_def lower_unit_def)
  with d show ?thesis by blast
qed

lemma normalize_key_good:
  assumes "p \<noteq> []" "js_trim p = p" "43 \<notin> set p" "\<not> is_modifier_name p"
  shows "normalizeShortcutKey p = js ''+'' \<or> good_key (normalizeShortcutKey p)"
proof (cases "map_of keyAliases (js_lower p)")
  case (Some k)
  then have "normalizeShortcutKey p = k" using assms by (simp add: normalizeShortcutKey_def)
  then show ?thesis using alias_values [OF Some] alias_good by auto
next
  case None
  show ?thesis
  proof (cases "is_function_key p")
    case True
    then have n: "normalizeShortcutKey p = js_upper p" using None assms by (simp add: normalizeShortcutKey_def)
    have "normalizeShortcutKey (js_upper p) = js_upper p"
      using None fkey [OF True] by (simp add: normalizeShortcutKey_def)
    then show ?thesis using n fkey [OF True] assms by (simp add: good_key_def is_modifier_name_def)
  next
    case F: False
    show ?thesis
    proof (cases "length p = 1 \<and> is_ascii_letter (hd p)")
      case True
      then obtain c where c: "p = [c]" "is_ascii_letter c" by (cases p) auto
      from letter [OF c(2)] obtain d where d: "js_upper [c] = [d]" "65 \<le> d" "d \<le> 90" "js_lower [d] = js_lower [c]" "js_upper [d] = [d]"
        by blast
      have t: "js_trim [d] = [d]" using d by (simp add: js_trim_id is_ws_def)
      have f: "\<not> is_function_key [d]" "is_ascii_letter d" using d by (auto simp: is_function_key_def is_ascii_letter_def)
      have "normalizeShortcutKey p = [d]" using None F c d assms by (simp add: normalizeShortcutKey_def)
      moreover have "normalizeShortcutKey [d] = [d]" using None c d t f by (simp add: normalizeShortcutKey_def)
      ultimately show ?thesis using assms c d t by (simp add: good_key_def is_modifier_name_def)
    next
      case False
      then have "normalizeShortcutKey p = p" using None F assms by (auto simp: normalizeShortcutKey_def Let_def)
      then show ?thesis using assms by (simp add: good_key_def)
    qed
  qed
qed

lemma parse_parts_key:
  "parse_parts parts b = Some r \<Longrightarrow> \<forall>p\<in>set parts. p \<noteq> [] \<and> js_trim p = p \<and> 43 \<notin> set p \<Longrightarrow>
   sb_key b = [] \<or> sb_key b = js ''+'' \<or> good_key (sb_key b) \<Longrightarrow> sb_key r = js ''+'' \<or> good_key (sb_key r)"
proof (induction parts b rule: parse_parts.induct)
  case (1 b)
  then show ?case by (auto split: if_splits)
next
  case (2 part parts b)
  have k: "sb_key (set_modifier m b) = sb_key b" for m by (cases m) auto
  show ?case
  proof (cases "map_of modifierAliases (js_lower part)")
    case (Some m)
    then show ?thesis using 2 k by simp
  next
    case None
    then show ?thesis
      using 2 normalize_key_good [of part] by (auto simp: is_modifier_name_def split: if_splits)
  qed
qed

lemma parse_key:
  assumes "parseShortcutBinding v = Some b"
  shows "sb_key b = js ''+'' \<or> good_key (sb_key b)"
proof -
  obtain s where s: "v = Some s" "parse_parts (binding_parts s) no_binding = Some b"
    using assms by (auto simp: parseShortcutBinding_def split: option.splits if_splits)
  have "p \<noteq> [] \<and> js_trim p = p \<and> 43 \<notin> set p" if "p \<in> set (binding_parts s)" for p
    using that js_split_no_sep [of _ 43 s] set_js_trim by (fastforce simp: binding_parts_def)
  then show ?thesis
    using parse_parts_key [OF s(2)] by (simp add: no_binding_def)
qed

lemma js_join_sep_last: "js_join [c] (ws @ [[c]]) = js_join [c] (ws @ [[], []])"
proof (induction ws)
  case (Cons w ws)
  then show ?case by (cases ws) (auto simp: js_join_Cons)
qed simp

lemma plus_unreadable:
  assumes "sb_key b = js ''+''"
  shows "parseShortcutBinding (Some (serializeShortcutBinding b)) = None"
proof -
  have plus: "js ''+'' = [43]" by (simp add: js_def)
  have "js_split 43 (serializeShortcutBinding b) = modifier_labels b @ [[], []]"
    unfolding serializeShortcutBinding_def assms plus js_join_sep_last
    using labels_clean by (intro js_split_join) auto
  moreover have "map js_trim (modifier_labels b) = modifier_labels b"
    using labels_clean by (intro map_idI) blast
  moreover have "filter (\<lambda>p. p \<noteq> []) (modifier_labels b) = modifier_labels b"
    using labels_clean by (simp add: filter_id_conv)
  ultimately have "binding_parts (serializeShortcutBinding b) = modifier_labels b"
    by (simp add: binding_parts_def)
  moreover have "parse_parts (modifier_labels b) no_binding = None"
    by (simp add: modifier_labels_def lower_js_label modifier_lookup no_binding_def)
  ultimately show ?thesis by (simp add: parseShortcutBinding_def)
qed

section \<open>Round trips\<close>

text \<open>C16. Reading back the text of a binding gives the binding, for every binding that parsing any text can give except those on the plus key; so normalising is idempotent on them. On the plus key the text cannot be read back at all. And a key press whose key can be recorded matches the shortcut recorded from it.\<close>

theorem shortcut_round_trip:
  "(parseShortcutBinding v = Some b \<and> sb_key b \<noteq> js ''+'' \<longrightarrow>
       parseShortcutBinding (Some (serializeShortcutBinding b)) = Some b
       \<and> normalizeShortcutBinding (normalizeShortcutBinding v) = normalizeShortcutBinding v)
    \<and> (sb_key b = js ''+'' \<longrightarrow> parseShortcutBinding (Some (serializeShortcutBinding b)) = None)
    \<and> (good_key (normalizeShortcutKey (ke_key e)) \<and> ke_key e \<notin> set keyboardModifierKeys \<longrightarrow>
       keyboardEventMatchesShortcut e (shortcutBindingFromKeyboardEvent e))"
proof (intro conjI impI)
  assume "parseShortcutBinding v = Some b \<and> sb_key b \<noteq> js ''+''"
  then show "parseShortcutBinding (Some (serializeShortcutBinding b)) = Some b"
      "normalizeShortcutBinding (normalizeShortcutBinding v) = normalizeShortcutBinding v"
    using parse_key parse_serialize by (auto simp: normalizeShortcutBinding_def)
next
  assume "good_key (normalizeShortcutKey (ke_key e)) \<and> ke_key e \<notin> set keyboardModifierKeys"
  then show "keyboardEventMatchesShortcut e (shortcutBindingFromKeyboardEvent e)"
    using parse_serialize [of "event_binding e"]
    by (simp add: keyboardEventMatchesShortcut_def shortcutBindingFromKeyboardEvent_def event_binding_def)
qed (rule plus_unreadable)

lemma shortcut_round_trip_witness:
  "keyboardEventMatchesShortcut \<lparr>ke_key = js ''Enter'', ke_alt = False, ke_ctrl = True, ke_meta = False, ke_shift = False\<rparr>
     (shortcutBindingFromKeyboardEvent
        \<lparr>ke_key = js ''Enter'', ke_alt = False, ke_ctrl = True, ke_meta = False, ke_shift = False\<rparr>)"
proof -
  have "good_key (normalizeShortcutKey (js ''Enter''))"
    using alias_good [of "js ''Enter''"] by (simp add: alias_fixed alias_values_def)
  then show ?thesis
    using shortcut_round_trip [of None no_binding
        "\<lparr>ke_key = js ''Enter'', ke_alt = False, ke_ctrl = True, ke_meta = False, ke_shift = False\<rparr>"]
    by (simp add: keyboardModifierKeys_def)
qed

text \<open>The space bar: its key is trimmed away, so no shortcut ever matches it.\<close>

lemma parse_parts_nonempty: "parse_parts parts b = Some r \<Longrightarrow> sb_key r \<noteq> []"
  by (induction parts b rule: parse_parts.induct)
    (auto simp: Let_def split: if_splits option.splits)

lemma space_bar_never_matches:
  assumes "ke_key e = [32]"
  shows "\<not> keyboardEventMatchesShortcut e v"
proof -
  have "normalizeShortcutKey (ke_key e) = []"
    unfolding assms by (simp add: normalizeShortcutKey_def js_trim_def js_trim_start_def js_trim_end_def is_ws_def)
  moreover have "sb_key b \<noteq> []" if "parseShortcutBinding v = Some b" for b
    using that parse_parts_nonempty by (auto simp: parseShortcutBinding_def split: option.splits if_splits)
  ultimately show ?thesis
    by (fastforce simp: keyboardEventMatchesShortcut_def split: option.splits)
qed
end
