(* ===== verification/Shortcut_Registry.thy ===== *)
theory Shortcut_Registry
  imports Shortcut_Keys Js_Value
begin

text \<open>
  The actions that have shortcuts and the rules for their bindings:
  \<open>src/features/shortcuts/shortcutRegistry.ts\<close>, \<open>shortcutValidation.ts\<close> and \<open>shortcutTypes.ts\<close>.
  A record of bindings is the association list of its own properties.
\<close>

section \<open>Actions\<close>

datatype shortcut_category = CatGeneral | CatTerminal | CatSearch | CatTools

datatype shortcut_scope = ScopeGlobal | ScopeWorkspace | ScopeTerminal | ScopeTerminalSearch

record shortcut_action =
  sa_id :: jsstr
  sa_category :: shortcut_category
  sa_label :: jsstr
  sa_description :: jsstr
  sa_defaultBinding :: "jsstr option"
  sa_scope :: shortcut_scope
  sa_allowInTerminal :: bool

definition shortcutCategories :: "(shortcut_category \<times> jsstr) list" where
  "shortcutCategories =
     [(CatGeneral, [36890, 29992]), (CatTerminal, [32456, 31471]), (CatSearch, [25628, 32034]), (CatTools, [24037, 20855])]"

definition shortcutActions :: "shortcut_action list" where
  "shortcutActions =
     [\<lparr>sa_id = js ''connection.quickOpen'', sa_category = CatGeneral,
        sa_label = [24555, 36895, 25171, 24320, 36830, 25509],
        sa_description = [25171, 24320, 36830, 25509, 25628, 32034, 38754, 26495, 12290],
        sa_defaultBinding = Some (js ''Ctrl+Shift+O''), sa_scope = ScopeGlobal, sa_allowInTerminal = True\<rparr>,
      \<lparr>sa_id = js ''settings.open'', sa_category = CatGeneral,
        sa_label = [25171, 24320, 35774, 32622],
        sa_description = [36827, 20837, 35774, 32622, 39029, 38754, 12290],
        sa_defaultBinding = Some (js ''Ctrl+,''), sa_scope = ScopeGlobal, sa_allowInTerminal = True\<rparr>,
      \<lparr>sa_id = js ''terminal.newTab'', sa_category = CatTerminal,
        sa_label = [26032, 24314, 32456, 31471, 32, 84, 97, 98],
        sa_description = [22522, 20110, 24403, 21069, 19978, 19979, 25991, 26032, 24314, 32, 83, 83, 72, 32,
        25110, 26412, 22320, 32456, 31471, 32, 84, 97, 98, 12290],
        sa_defaultBinding = Some (js ''Ctrl+Shift+T''), sa_scope = ScopeTerminal, sa_allowInTerminal = True\<rparr>,
      \<lparr>sa_id = js ''terminal.closeTab'', sa_category = CatTerminal,
        sa_label = [20851, 38381, 24403, 21069, 32456, 31471, 32, 84, 97, 98],
        sa_description = [20851, 38381, 24403, 21069, 27963, 21160, 30340, 32, 83, 83, 72, 32, 25110, 26412,
        22320, 32456, 31471, 32, 84, 97, 98, 12290],
        sa_defaultBinding = Some (js ''Ctrl+Shift+W''), sa_scope = ScopeTerminal, sa_allowInTerminal = True\<rparr>,
      \<lparr>sa_id = js ''terminal.search.toggle'', sa_category = CatSearch,
        sa_label = [25171, 24320, 25110, 20851, 38381, 32456, 31471, 25628, 32034],
        sa_description = [20999, 25442, 24403, 21069, 32456, 31471, 30340, 25628, 32034, 26465, 12290],
        sa_defaultBinding = Some (js ''Ctrl+Shift+F''), sa_scope = ScopeTerminal, sa_allowInTerminal = True\<rparr>,
      \<lparr>sa_id = js ''terminal.search.next'', sa_category = CatSearch,
        sa_label = [25628, 32034, 19979, 19968, 20010],
        sa_description = [36339, 36716, 21040, 24403, 21069, 32456, 31471, 25628, 32034, 30340, 19979, 19968,
        20010, 32467, 26524, 12290],
        sa_defaultBinding = Some (js ''F3''), sa_scope = ScopeTerminalSearch, sa_allowInTerminal = True\<rparr>,
      \<lparr>sa_id = js ''terminal.search.previous'', sa_category = CatSearch,
        sa_label = [25628, 32034, 19978, 19968, 20010],
        sa_description = [36339, 36716, 21040, 24403, 21069, 32456, 31471, 25628, 32034, 30340, 19978, 19968,
        20010, 32467, 26524, 12290],
        sa_defaultBinding = Some (js ''Shift+F3''), sa_scope = ScopeTerminalSearch, sa_allowInTerminal = True\<rparr>,
      \<lparr>sa_id = js ''ai.sendMessage'', sa_category = CatTools,
        sa_label = [21457, 36865, 32, 65, 73, 32, 28040, 24687],
        sa_description = [22312, 32, 65, 73, 32, 23545, 35805, 36755, 20837, 26694, 20013, 21457, 36865,
        24403, 21069, 38382, 39064, 12290],
        sa_defaultBinding = Some (js ''Enter''), sa_scope = ScopeWorkspace, sa_allowInTerminal = False\<rparr>,
      \<lparr>sa_id = js ''commandSender.toggle'', sa_category = CatTools,
        sa_label = [25171, 24320, 25110, 20851, 38381, 32, 67, 111, 109, 109, 97, 110, 100, 32, 83,
        101, 110, 100, 101, 114],
        sa_description = [20999, 25442, 21629, 20196, 21457, 36865, 38754, 26495, 12290],
        sa_defaultBinding = Some (js ''Ctrl+Shift+K''), sa_scope = ScopeWorkspace, sa_allowInTerminal = True\<rparr>]"

type_synonym bindings = "(jsstr \<times> jsstr option) list"

definition defaultShortcutBindings :: bindings where
  "defaultShortcutBindings = map (\<lambda>a. (sa_id a, sa_defaultBinding a)) shortcutActions"

definition getShortcutAction :: "jsstr \<Rightarrow> shortcut_action option" where
  "getShortcutAction actionId = List.find (\<lambda>a. sa_id a = actionId) shortcutActions"

definition resolveShortcutBinding :: "bindings \<Rightarrow> shortcut_action \<Rightarrow> jsstr option" where
  "resolveShortcutBinding bindings action =
     (case map_of bindings (sa_id action) of Some b \<Rightarrow> b | None \<Rightarrow> sa_defaultBinding action)"

definition resolveShortcutBindingById :: "bindings \<Rightarrow> jsstr \<Rightarrow> jsstr option" where
  "resolveShortcutBindingById bindings actionId =
     (case getShortcutAction actionId of Some a \<Rightarrow> resolveShortcutBinding bindings a | None \<Rightarrow> None)"

section \<open>Validation\<close>

datatype shortcut_code = CodeInvalid | CodePlainPrintable | CodeReserved

text \<open>A validation result: valid, or the code and the message.\<close>

datatype shortcut_validation = ShortcutValid | ShortcutRejected shortcut_code jsstr

definition reservedBindings :: "jsstr list" where
  "reservedBindings =
     [js ''Ctrl+A'', js ''Ctrl+C'', js ''Ctrl+E'', js ''Ctrl+L'', js ''Ctrl+R'', js ''Ctrl+V'', js ''Ctrl+W'', js ''Ctrl+X'']"

definition validateShortcutBinding :: "jsstr option \<Rightarrow> shortcut_validation" where
  "validateShortcutBinding value =
     (if value = None \<or> value = Some [] then ShortcutValid
      else (let normalized = opt_truthy (normalizeShortcutBinding value)
        in if normalized = None \<or> parseShortcutBinding normalized = None then
             ShortcutRejected CodeInvalid
               [24555, 25463, 38190, 26684, 24335, 26080, 25928, 12290]
           else if isPlainPrintableShortcut normalized then
             ShortcutRejected CodePlainPrintable
               [26222, 36890, 23383, 31526, 20250, 24433, 21709, 36755, 20837, 65292, 19981, 33021,
        20316, 20026, 24212, 29992, 24555, 25463, 38190, 12290]
           else if normalized \<in> Some ` set reservedBindings then
             ShortcutRejected CodeReserved
               [35813, 32452, 21512, 38190, 36890, 24120, 30001, 32456, 31471, 25110, 32534, 36753,
        22120, 20351, 29992, 65292, 19981, 33021, 20316, 20026, 24212, 29992, 24555, 25463,
        38190, 12290]
           else ShortcutValid))"

record shortcut_conflict =
  sk_actionIds :: "jsstr list"
  sk_binding :: jsstr

text \<open>One turn of the loop of \<open>findShortcutConflicts\<close>; the map keeps the order of insertion.\<close>

definition collect_binding ::
  "jsstr list \<Rightarrow> jsstr \<times> jsstr option \<Rightarrow> (jsstr \<times> jsstr list) list \<Rightarrow> (jsstr \<times> jsstr list) list" where
  "collect_binding actionIds entry byBinding =
     (if fst entry \<notin> set actionIds then byBinding
      else case opt_truthy (normalizeShortcutBinding (snd entry)) of
             None \<Rightarrow> byBinding
           | Some normalized \<Rightarrow>
               AList.update normalized
                 ((case map_of byBinding normalized of Some ids \<Rightarrow> ids | None \<Rightarrow> []) @ [fst entry]) byBinding)"

definition findShortcutConflicts :: "bindings \<Rightarrow> shortcut_action list \<Rightarrow> shortcut_conflict list" where
  "findShortcutConflicts bindings actions =
     (let byBinding = fold (collect_binding (map sa_id actions)) bindings []
      in map (\<lambda>(b, ids). \<lparr>sk_actionIds = ids, sk_binding = b\<rparr>)
           (filter (\<lambda>(b, ids). 1 < length ids) byBinding))"

text \<open>The binding of one action in \<open>normalizeShortcutBindings\<close>.\<close>

definition normalized_entry :: "json \<Rightarrow> bindings \<Rightarrow> shortcut_action \<Rightarrow> jsstr option" where
  "normalized_entry rec fallback action =
     (let raw = js_get rec (sa_id action)
      in if raw = JNull then None
         else (let normalized = (case raw of JString t \<Rightarrow> opt_truthy (normalizeShortcutBinding (Some t)) | _ \<Rightarrow> None)
           in if normalized \<noteq> None \<and> validateShortcutBinding normalized = ShortcutValid then normalized
              else (case map_of fallback (sa_id action) of
                      Some (Some b) \<Rightarrow> Some b
                    | _ \<Rightarrow> sa_defaultBinding action)))"

definition normalizeShortcutBindings :: "json \<Rightarrow> bindings \<Rightarrow> bindings" where
  "normalizeShortcutBindings value fallback =
     (let rec = (if is_record value then value else JObject [])
      in map (\<lambda>action. (sa_id action, normalized_entry rec fallback action)) shortcutActions)"

section \<open>The default bindings\<close>

lemma short_not_named:
  assumes "length p \<le> 1"
  shows "map_of keyAliases p = None" "map_of modifierAliases p = None" "p \<notin> set inherited_names"
proof -
  have "\<forall>n\<in>set (map fst keyAliases). 2 \<le> length n" "\<forall>n\<in>set (map fst modifierAliases). 2 \<le> length n"
    "\<forall>n\<in>set inherited_names. 2 \<le> length n"
    by (simp_all add: keyAliases_def modifierAliases_def inherited_names_def)
  with assms show "map_of keyAliases p = None" "map_of modifierAliases p = None" "p \<notin> set inherited_names"
    unfolding map_of_eq_None_iff by force+
qed

lemma good_capital: "65 \<le> c \<Longrightarrow> c \<le> 90 \<Longrightarrow> good_key [c]"
  using short_not_named [of "js_lower [c]"]
  by (simp add: good_key_def is_modifier_name_def normalizeShortcutKey_def js_trim_id is_ws_def
    is_function_key_def is_ascii_letter_def js_upper_def upper_unit_def)

lemma good_f3: "good_key [70, 51]"
proof -
  have l: "js_lower [70, 51] = js ''f3''" by (simp add: js_lower_def lower_unit_def js_def)
  have "js_upper [70, 51] = [70, 51]" by (simp add: js_upper_def upper_unit_def)
  then show ?thesis
    by (simp add: good_key_def is_modifier_name_def normalizeShortcutKey_def js_trim_id is_ws_def l
      is_function_key_def keyAliases_def modifierAliases_def inherited_names_def)
qed

definition default_parsed :: "(jsstr \<times> shortcut_binding) list" where
  "default_parsed =
     (let cs = (\<lambda>k. \<lparr>sb_ctrl = True, sb_shift = True, sb_alt = False, sb_meta = False, sb_key = k\<rparr>);
          none = (\<lambda>k. \<lparr>sb_ctrl = False, sb_shift = False, sb_alt = False, sb_meta = False, sb_key = k\<rparr>)
      in [(js ''Ctrl+Shift+O'', cs [79]),
          (js ''Ctrl+,'', (none (js '',''))\<lparr>sb_ctrl := True\<rparr>),
          (js ''Ctrl+Shift+T'', cs [84]), (js ''Ctrl+Shift+W'', cs [87]), (js ''Ctrl+Shift+F'', cs [70]),
          (js ''F3'', none [70, 51]), (js ''Shift+F3'', (none [70, 51])\<lparr>sb_shift := True\<rparr>),
          (js ''Enter'', none (js ''Enter'')), (js ''Ctrl+Shift+K'', cs [75])])"

lemma default_parsed_keys: "(t, b) \<in> set default_parsed \<Longrightarrow> good_key (sb_key b)"
  using alias_good [of "js '',''"] alias_good [of "js ''Enter''"]
  by (auto simp: default_parsed_def Let_def alias_values_def good_capital good_f3)

lemma default_parsed_text: "list_all (\<lambda>(t, b). serializeShortcutBinding b = t) default_parsed"
  by (simp add: default_parsed_def serializeShortcutBinding_def modifier_labels_def js_def)

lemma default_parse: "(t, b) \<in> set default_parsed \<Longrightarrow> parseShortcutBinding (Some t) = Some b \<and> serializeShortcutBinding b = t"
  using default_parsed_text default_parsed_keys parse_serialize unfolding list_all_iff by fastforce

lemma defaults: "map (map_option id \<circ> sa_defaultBinding) shortcutActions = map (Some \<circ> fst) default_parsed"
  by (simp add: shortcutActions_def default_parsed_def Let_def)

lemma default_binding:
  assumes "a \<in> set shortcutActions"
  obtains t b where "sa_defaultBinding a = Some t" "(t, b) \<in> set default_parsed"
proof -
  have "sa_defaultBinding a \<in> set (map (Some \<circ> fst) default_parsed)"
    unfolding defaults [symmetric] using assms by (force simp: option.map_id)
  then show thesis using that by auto
qed

lemma default_normal: "(t, b) \<in> set default_parsed \<Longrightarrow> normalizeShortcutBinding (Some t) = Some t"
  using default_parse by (simp add: normalizeShortcutBinding_def)

lemma default_valid: "(t, b) \<in> set default_parsed \<Longrightarrow> validateShortcutBinding (Some t) = ShortcutValid"
proof -
  assume t: "(t, b) \<in> set default_parsed"
  have "\<not> (\<not> sb_alt b \<and> \<not> sb_ctrl b \<and> \<not> sb_meta b \<and> \<not> sb_shift b \<and> length (sb_key b) = 1)" "t \<notin> set reservedBindings" "t \<noteq> []"
    using t by (auto simp: default_parsed_def Let_def reservedBindings_def)
  then show ?thesis
    using default_parse [OF t] default_normal [OF t]
    by (auto simp: validateShortcutBinding_def Let_def isPlainPrintableShortcut_def)
qed

lemma action_ids: "distinct (map sa_id shortcutActions)"
  by (simp add: shortcutActions_def)

section \<open>Normalised bindings\<close>

lemma serialize_not_Nil: "sb_key b \<noteq> [] \<Longrightarrow> serializeShortcutBinding b \<noteq> []"
  unfolding serializeShortcutBinding_def by (cases "modifier_labels b") (auto simp: js_join_Cons)

lemma parsed_key_not_Nil: "parseShortcutBinding v = Some b \<Longrightarrow> sb_key b \<noteq> []"
  using parse_parts_nonempty by (auto simp: parseShortcutBinding_def split: option.splits if_splits)

lemma normalize_truthy [simp]: "opt_truthy (normalizeShortcutBinding v) = normalizeShortcutBinding v"
  using parsed_key_not_Nil [of v] serialize_not_Nil
  by (cases "parseShortcutBinding v") (auto simp: normalizeShortcutBinding_def)

text \<open>A binding that is kept: unbound, or in normal form and valid.\<close>

definition kept_binding :: "jsstr option \<Rightarrow> bool" where
  "kept_binding b \<longleftrightarrow> b = None \<or> (normalizeShortcutBinding b = b \<and> validateShortcutBinding b = ShortcutValid)"

lemma valid_normal:
  assumes "normalizeShortcutBinding v = Some n" "validateShortcutBinding (Some n) = ShortcutValid"
  shows "normalizeShortcutBinding (Some n) = Some n"
proof -
  from assms(1) obtain b where b: "parseShortcutBinding v = Some b" "n = serializeShortcutBinding b"
    by (auto simp: normalizeShortcutBinding_def)
  have "n \<noteq> []" using serialize_not_Nil [OF parsed_key_not_Nil [OF b(1)]] b(2) by simp
  have "parseShortcutBinding (Some n) \<noteq> None"
  proof
    assume "parseShortcutBinding (Some n) = None"
    then have "normalizeShortcutBinding (Some n) = None" by (simp add: normalizeShortcutBinding_def)
    with \<open>n \<noteq> []\<close> assms(2) show False by (simp add: validateShortcutBinding_def)
  qed
  then have "sb_key b \<noteq> js ''+''" using b plus_unreadable by auto
  then show ?thesis
    using b parse_key [OF b(1)] parse_serialize by (auto simp: normalizeShortcutBinding_def)
qed

lemma normalized_entry_kept:
  assumes "a \<in> set shortcutActions"
  shows "kept_binding (normalized_entry r defaultShortcutBindings a)"
proof -
  obtain t b where t: "sa_defaultBinding a = Some t" "(t, b) \<in> set default_parsed"
    using default_binding [OF assms] .
  have "(sa_id a, Some t) \<in> set defaultShortcutBindings" "distinct (map fst defaultShortcutBindings)"
    using assms t action_ids by (force simp: defaultShortcutBindings_def comp_def)+
  then have f: "map_of defaultShortcutBindings (sa_id a) = Some (Some t)" by simp
  have d: "kept_binding (Some t)" using default_normal [OF t(2)] default_valid [OF t(2)] by (simp add: kept_binding_def)
  show ?thesis
  proof (cases "js_get r (sa_id a)")
    case (JString s)
    show ?thesis
    proof (cases "normalizeShortcutBinding (Some s)")
      case (Some n)
      have "opt_truthy (Some n) = Some n" using normalize_truthy [of "Some s"] Some by simp
      note Some = Some this
      show ?thesis
      proof (cases "validateShortcutBinding (Some n) = ShortcutValid")
        case True
        with valid_normal [OF Some(1) True] JString Some show ?thesis
          by (simp add: normalized_entry_def Let_def kept_binding_def)
      qed (use JString Some d f in \<open>simp add: normalized_entry_def\<close>)
    qed (use JString d f in \<open>simp add: normalized_entry_def\<close>)
  qed (use d f in \<open>simp_all add: normalized_entry_def kept_binding_def [of None]\<close>)
qed

definition bindings_value :: "bindings \<Rightarrow> json" where
  "bindings_value bs = JObject (map (\<lambda>(k, b). (k, case b of None \<Rightarrow> JNull | Some t \<Rightarrow> JString t)) bs)"

lemma get_bindings_value:
  "js_get (bindings_value bs) k = (case map_of bs k of None \<Rightarrow> JUndefined | Some None \<Rightarrow> JNull | Some (Some t) \<Rightarrow> JString t)"
  unfolding bindings_value_def js_get_def json.case
  by (induction bs) (auto split: option.splits)

text \<open>Bindings that name every action once and hold only what is kept are normal.\<close>

definition bindings_ok :: "bindings \<Rightarrow> bool" where
  "bindings_ok bs \<longleftrightarrow> map fst bs = map sa_id shortcutActions \<and> (\<forall>(k, b)\<in>set bs. kept_binding b)"

lemma bindings_in: "bindings_ok (normalizeShortcutBindings v defaultShortcutBindings)"
  using normalized_entry_kept by (auto simp: bindings_ok_def normalizeShortcutBindings_def Let_def)

lemma entry_kept:
  assumes "map_of bs (sa_id a) = Some b" "kept_binding b"
  shows "normalized_entry (bindings_value bs) defaultShortcutBindings a = b"
proof (cases b)
  case None
  then show ?thesis using assms(1) by (simp add: normalized_entry_def get_bindings_value)
next
  case (Some t)
  then have "js_get (bindings_value bs) (sa_id a) = JString t" using assms(1) by (simp add: get_bindings_value)
  moreover have "normalizeShortcutBinding (Some t) = Some t" "validateShortcutBinding (Some t) = ShortcutValid"
    using assms(2) Some by (simp_all add: kept_binding_def)
  ultimately show ?thesis
    using Some normalize_truthy [of "Some t"] by (simp add: normalized_entry_def)
qed

lemma bindings_kept:
  assumes "bindings_ok bs" shows "normalizeShortcutBindings (bindings_value bs) defaultShortcutBindings = bs"
proof -
  have ids: "map fst bs = map sa_id shortcutActions" using assms by (simp add: bindings_ok_def)
  have "distinct (map fst bs)" using ids action_ids by simp
  then have entry: "map_of bs k = Some b \<and> kept_binding b" if "(k, b) \<in> set bs" for k b
    using assms that by (auto simp: bindings_ok_def)
  have len: "length bs = length shortcutActions" using ids by (metis length_map)
  have "normalized_entry (bindings_value bs) defaultShortcutBindings (shortcutActions ! n) = snd (bs ! n)
      \<and> sa_id (shortcutActions ! n) = fst (bs ! n)" if n: "n < length bs" for n
  proof -
    have i: "sa_id (shortcutActions ! n) = fst (bs ! n)" using ids n len by (metis nth_map)
    moreover have "(fst (bs ! n), snd (bs ! n)) \<in> set bs" using n by simp
    ultimately show ?thesis using entry entry_kept [of bs "shortcutActions ! n"] by metis
  qed
  then have "map (\<lambda>a. (sa_id a, normalized_entry (bindings_value bs) defaultShortcutBindings a)) shortcutActions = bs"
    using len by (intro nth_equalityI) simp_all
  moreover have "is_record (bindings_value bs)" by (simp add: is_record_def bindings_value_def)
  ultimately show ?thesis by (simp add: normalizeShortcutBindings_def)
qed

text \<open>C39. Whatever the stored settings hold, the bindings that are used name every action once, in order, and each is either unbound, as the user left it, or in normal form and valid; storing and normalising them again changes nothing.\<close>

theorem stored_bindings_normal:
  "(let bs = normalizeShortcutBindings v defaultShortcutBindings
    in map fst bs = map sa_id shortcutActions
       \<and> (\<forall>a\<in>set shortcutActions. kept_binding (resolveShortcutBinding bs a))
       \<and> (\<forall>a\<in>set shortcutActions. is_record v \<and> js_get v (sa_id a) = JNull \<longrightarrow> resolveShortcutBinding bs a = None)
       \<and> normalizeShortcutBindings (bindings_value bs) defaultShortcutBindings = bs)"
proof -
  define rec where "rec = (if is_record v then v else JObject [])"
  define bs where "bs = normalizeShortcutBindings v defaultShortcutBindings"
  have bs: "bs = map (\<lambda>a. (sa_id a, normalized_entry rec defaultShortcutBindings a)) shortcutActions"
    by (simp add: bs_def rec_def normalizeShortcutBindings_def)
  have look: "map_of bs (sa_id a) = Some (normalized_entry rec defaultShortcutBindings a)"
    if "a \<in> set shortcutActions" for a
    using that action_ids unfolding bs by (intro map_of_is_SomeI) (auto simp: comp_def)
  have res: "resolveShortcutBinding bs a = normalized_entry rec defaultShortcutBindings a"
    if "a \<in> set shortcutActions" for a
    using look [OF that] by (simp add: resolveShortcutBinding_def)
  have "map fst bs = map sa_id shortcutActions" by (simp add: bs)
  moreover have "normalizeShortcutBindings (bindings_value bs) defaultShortcutBindings = bs"
    unfolding bs_def by (rule bindings_kept [OF bindings_in])
  moreover have "\<forall>a\<in>set shortcutActions. kept_binding (resolveShortcutBinding bs a)"
    using res normalized_entry_kept by simp
  moreover have "\<forall>a\<in>set shortcutActions. is_record v \<and> js_get v (sa_id a) = JNull \<longrightarrow> resolveShortcutBinding bs a = None"
    using res by (simp add: normalized_entry_def rec_def)
  ultimately show ?thesis unfolding bs_def [symmetric] Let_def by blast
qed

text \<open>With the shortcut of the search removed and nonsense for another.\<close>

lemma stored_bindings_normal_witness:
  "resolveShortcutBinding (normalizeShortcutBindings (JObject [(js ''terminal.search.next'', JNull)]) defaultShortcutBindings)
     (shortcutActions ! 5) = None"
proof -
  have "shortcutActions ! 5 \<in> set shortcutActions" "sa_id (shortcutActions ! 5) = js ''terminal.search.next''"
    by (simp_all add: shortcutActions_def)
  then show ?thesis
    using stored_bindings_normal [of "JObject [(js ''terminal.search.next'', JNull)]"]
    by (auto simp: Let_def is_record_def js_get_def)
qed

section \<open>Conflicts\<close>

definition bound_ids :: "jsstr list \<Rightarrow> jsstr \<Rightarrow> bindings \<Rightarrow> jsstr list" where
  "bound_ids actionIds n bs =
     map fst (filter (\<lambda>e. fst e \<in> set actionIds \<and> normalizeShortcutBinding (snd e) = Some n) bs)"

lemma collect_lookup:
  "map_of (fold (collect_binding ids) bs m) n =
     (if bound_ids ids n bs = [] then map_of m n
      else Some ((case map_of m n of Some i \<Rightarrow> i | None \<Rightarrow> []) @ bound_ids ids n bs))"
proof (induction bs arbitrary: m)
  case (Cons e bs)
  have "map_of (collect_binding ids e m) n =
     (if fst e \<in> set ids \<and> normalizeShortcutBinding (snd e) = Some n
      then Some ((case map_of m n of Some i \<Rightarrow> i | None \<Rightarrow> []) @ [fst e]) else map_of m n)"
    unfolding collect_binding_def normalize_truthy by (auto simp: update_conv' split: option.splits)
  then show ?case using Cons.IH [of "collect_binding ids e m"] by (auto simp: bound_ids_def)
qed (simp add: bound_ids_def)

lemma collect_distinct: "distinct (map fst m) \<Longrightarrow> distinct (map fst (fold (collect_binding ids) bs m))"
  by (induction bs arbitrary: m) (auto simp: collect_binding_def distinct_update split: option.splits)

lemma distinct_key_filter: "distinct (map f xs) \<Longrightarrow> length (filter (\<lambda>x. f x = y) xs) \<le> 1"
proof (induction xs)
  case (Cons x xs)
  moreover have "filter (\<lambda>x. f x = y) xs = []" if "f x = y"
    using that Cons.prems by (auto simp: filter_empty_conv) (metis image_eqI)
  ultimately show ?case by auto
qed simp

lemma default_no_conflicts: "findShortcutConflicts defaultShortcutBindings shortcutActions = []"
proof -
  define ids where "ids = map sa_id shortcutActions"
  define m where "m = fold (collect_binding ids) defaultShortcutBindings []"
  have n: "normalizeShortcutBinding (snd e) = snd e" if "e \<in> set defaultShortcutBindings" for e
  proof -
    from that obtain a where a: "a \<in> set shortcutActions" "snd e = sa_defaultBinding a"
      by (auto simp: defaultShortcutBindings_def)
    from default_binding [OF a(1)] show ?thesis using a(2) default_normal by metis
  qed
  have d: "distinct (map snd defaultShortcutBindings)"
    by (simp add: defaultShortcutBindings_def shortcutActions_def)
  have "length (bound_ids ids k defaultShortcutBindings) \<le> 1" for k
  proof -
    have f: "filter (\<lambda>e. fst e \<in> set ids \<and> normalizeShortcutBinding (snd e) = Some k) defaultShortcutBindings
        = filter (\<lambda>e. fst e \<in> set ids) (filter (\<lambda>e. snd e = Some k) defaultShortcutBindings)"
      unfolding filter_filter by (rule filter_cong) (simp_all add: n conj_commute)
    show ?thesis
      unfolding bound_ids_def length_map f
      by (rule order_trans [OF length_filter_le distinct_key_filter [OF d]])
  qed
  moreover have "distinct (map fst m)" unfolding m_def by (rule collect_distinct) simp
  moreover have "map_of m b = (if bound_ids ids b defaultShortcutBindings = [] then None
      else Some (bound_ids ids b defaultShortcutBindings))" for b
    using collect_lookup [of ids defaultShortcutBindings "[]" b] unfolding m_def by simp
  ultimately have "length is \<le> 1" if "(b, is) \<in> set m" for b "is"
    using that by (metis map_of_is_SomeI option.discI option.inject)
  then have "filter (\<lambda>(b, is). 1 < length is) m = []"
    by (fastforce simp: filter_empty_conv)
  then show ?thesis
    by (simp add: findShortcutConflicts_def ids_def [symmetric] m_def [symmetric])
qed

text \<open>The conflicts found are exactly the bindings to which two or more known actions are bound after normalising, each once, with all those actions in the order of the record; and the default bindings have none.\<close>

theorem conflicts_exact:
  "(c \<in> set (findShortcutConflicts bindings actions) \<longleftrightarrow>
      sk_actionIds c = bound_ids (map sa_id actions) (sk_binding c) bindings \<and> 2 \<le> length (sk_actionIds c))
   \<and> distinct (map sk_binding (findShortcutConflicts bindings actions))
   \<and> findShortcutConflicts defaultShortcutBindings shortcutActions = []"
proof -
  define ids where "ids = map sa_id actions"
  define m where "m = fold (collect_binding ids) bindings []"
  have d: "distinct (map fst m)" unfolding m_def by (rule collect_distinct) simp
  have look: "map_of m n = (if bound_ids ids n bindings = [] then None else Some (bound_ids ids n bindings))" for n
    unfolding m_def using collect_lookup [of ids bindings "[]" n] by auto
  have conf: "findShortcutConflicts bindings actions
      = map (\<lambda>(b, is). \<lparr>sk_actionIds = is, sk_binding = b\<rparr>) (filter (\<lambda>(b, is). 1 < length is) m)"
    by (simp add: findShortcutConflicts_def m_def ids_def)
  have "c \<in> set (findShortcutConflicts bindings actions) \<longleftrightarrow>
      (sk_binding c, sk_actionIds c) \<in> set m \<and> 1 < length (sk_actionIds c)"
    unfolding conf by (cases c) force
  also have "(sk_binding c, sk_actionIds c) \<in> set m \<longleftrightarrow> map_of m (sk_binding c) = Some (sk_actionIds c)"
    using d by simp
  finally have 1: "c \<in> set (findShortcutConflicts bindings actions) \<longleftrightarrow>
      sk_actionIds c = bound_ids ids (sk_binding c) bindings \<and> 2 \<le> length (sk_actionIds c)"
    using look by auto
  have 2: "distinct (map sk_binding (findShortcutConflicts bindings actions))"
  proof -
    have "map sk_binding (findShortcutConflicts bindings actions) = map fst (filter (\<lambda>(b, is). 1 < length is) m)"
      unfolding conf by (simp add: comp_def case_prod_beta)
    then show ?thesis using d by (simp add: distinct_map_filter)
  qed
  show ?thesis using 1 2 default_no_conflicts unfolding ids_def by blast
qed

end
