(* ===== verification/Settings_Types.thy ===== *)
theory Settings_Types
  imports Shortcut_Registry Local_Profiles
begin

text \<open>
  The settings of the program and how stored ones are made valid: \<open>src/features/settings/settingsTypes.ts\<close>. A
  choice is the text the program stores for it; \<open>normalizeOneOf\<close> lists what is allowed. Labels for the user
  and the colours of the terminal are not modelled.
\<close>

section \<open>The settings\<close>

record ai_settings =
  ai_runningSendBehavior :: jsstr

record basic_settings =
  ba_autoCheckAppUpdate :: bool
  ba_closeWindowToTray :: bool
  ba_filePanelFollowsActiveConnection :: bool
  ba_keepFailedTerminalTabs :: bool
  ba_reopenLastTerminal :: bool
  ba_remoteFileOpenMode :: jsstr
  ba_restoreWorkspaceOnLaunch :: bool
  ba_recentConnectionLimit :: nat

record appearance_settings =
  ap_accentColor :: jsstr
  ap_accentColorCustom :: jsstr
  ap_cursorBlink :: bool
  ap_cursorStyle :: jsstr
  ap_density :: jsstr
  ap_iconSize :: jsstr
  ap_rememberPaneWidths :: bool
  ap_terminalFontCustom :: jsstr
  ap_terminalFontMode :: jsstr
  ap_terminalFontPreset :: jsstr
  ap_terminalFontSize :: nat
  ap_themeMode :: jsstr
  ap_uiFontCustom :: jsstr
  ap_uiFontMode :: jsstr
  ap_uiFontPreset :: jsstr
  ap_uiFontSize :: nat
  ap_windowMaterial :: jsstr

record security_settings =
  se_masterPasswordEnabled :: bool
  se_allowPasswordReveal :: bool
  se_autoLockMinutes :: nat

record file_transfer_settings =
  fs_compressDirectories :: bool
  fs_concurrentTransfers :: nat
  fs_conflictPolicyDefault :: jsstr
  fs_downloadRoot :: jsstr
  fs_groupBySession :: bool
  fs_keepArchives :: bool
  fs_timestampDirectory :: bool
  fs_timestampFormat :: jsstr

record local_terminal_settings =
  ls_ctrlVPaste :: bool
  ls_defaultProfileId :: "jsstr option"
  ls_hiddenProfileIds :: "jsstr list"
  ls_customProfiles :: "profile_input list"
  ls_reopenLastLocalWorkspace :: bool

record mxterm_settings =
  st_ai :: ai_settings
  st_appearance :: appearance_settings
  st_basic :: basic_settings
  st_recordTerminalInputHistory :: bool
  st_fileTransfer :: file_transfer_settings
  st_localTerminal :: local_terminal_settings
  st_security :: security_settings
  st_bindings :: bindings
  st_scheme :: jsstr

definition defaultTerminalColorSchemeId :: jsstr where
  "defaultTerminalColorSchemeId = js ''mxterm-default''"

definition default_terminal_font :: jsstr where
  "default_terminal_font = js ''\"Cascadia Code\", \"Cascadia Mono\", Consolas, monospace''"

definition default_ui_font :: jsstr where
  "default_ui_font = js ''\"Segoe UI Variable Text\", \"Segoe UI\", \"Microsoft YaHei UI\", system-ui, sans-serif''"

definition default_accent :: jsstr where
  "default_accent = js ''#2374C6''"

definition defaultSettings :: mxterm_settings where
  "defaultSettings =
     \<lparr>st_ai = \<lparr>ai_runningSendBehavior = js ''queue''\<rparr>,
      st_appearance = \<lparr>ap_accentColor = js ''blue'', ap_accentColorCustom = default_accent, ap_cursorBlink = True,
        ap_cursorStyle = js ''block'', ap_density = js ''comfortable'', ap_iconSize = js ''medium'',
        ap_rememberPaneWidths = True, ap_terminalFontCustom = default_terminal_font, ap_terminalFontMode = js ''preset'',
        ap_terminalFontPreset = js ''cascadia-code'', ap_terminalFontSize = 13, ap_themeMode = js ''system'',
        ap_uiFontCustom = default_ui_font, ap_uiFontMode = js ''preset'', ap_uiFontPreset = js ''segoe-ui'',
        ap_uiFontSize = 14, ap_windowMaterial = js ''auto''\<rparr>,
      st_basic = \<lparr>ba_autoCheckAppUpdate = True, ba_closeWindowToTray = True, ba_filePanelFollowsActiveConnection = True,
        ba_keepFailedTerminalTabs = True, ba_reopenLastTerminal = False, ba_remoteFileOpenMode = js ''split'',
        ba_restoreWorkspaceOnLaunch = True, ba_recentConnectionLimit = 5\<rparr>,
      st_recordTerminalInputHistory = False,
      st_fileTransfer = \<lparr>fs_compressDirectories = True, fs_concurrentTransfers = 3, fs_conflictPolicyDefault = js ''ask'',
        fs_downloadRoot = [], fs_groupBySession = True, fs_keepArchives = False, fs_timestampDirectory = True,
        fs_timestampFormat = js ''yyyyMMddHHmm''\<rparr>,
      st_localTerminal = \<lparr>ls_ctrlVPaste = True, ls_defaultProfileId = None, ls_hiddenProfileIds = [],
        ls_customProfiles = [], ls_reopenLastLocalWorkspace = True\<rparr>,
      st_security = \<lparr>se_masterPasswordEnabled = False, se_allowPasswordReveal = True, se_autoLockMinutes = 15\<rparr>,
      st_bindings = defaultShortcutBindings,
      st_scheme = defaultTerminalColorSchemeId\<rparr>"

section \<open>Making one value valid\<close>

definition normalizeBoolean :: "json \<Rightarrow> bool \<Rightarrow> bool" where
  "normalizeBoolean value fallback = (case value of JBool b \<Rightarrow> b | _ \<Rightarrow> fallback)"

definition normalizeNumber :: "json \<Rightarrow> nat list \<Rightarrow> nat \<Rightarrow> nat" where
  "normalizeNumber value allowed fallback =
     (case value of
        JNumber (Num x) \<Rightarrow> (case List.find (\<lambda>n. of_nat n = x) allowed of Some n \<Rightarrow> n | None \<Rightarrow> fallback)
      | _ \<Rightarrow> fallback)"

definition normalizeOneOf :: "json \<Rightarrow> jsstr list \<Rightarrow> jsstr \<Rightarrow> jsstr" where
  "normalizeOneOf value allowed fallback = (case value of JString s \<Rightarrow> if s \<in> set allowed then s else fallback | _ \<Rightarrow> fallback)"

definition is_hex_unit :: "nat \<Rightarrow> bool" where
  "is_hex_unit c \<longleftrightarrow> 48 \<le> c \<and> c \<le> 57 \<or> 65 \<le> c \<and> c \<le> 70 \<or> 97 \<le> c \<and> c \<le> 102"

definition hex_colour :: "nat \<Rightarrow> jsstr \<Rightarrow> bool" where
  "hex_colour n s \<longleftrightarrow> (case s of [] \<Rightarrow> False | c # ds \<Rightarrow> c = 35 \<and> length ds = n \<and> list_all is_hex_unit ds)"

definition normalizeHexColor :: "json \<Rightarrow> jsstr \<Rightarrow> jsstr" where
  "normalizeHexColor value fallback =
     (case value of
        JString s \<Rightarrow>
          (let trimmed = js_trim s
           in if hex_colour 3 trimmed then js_upper (35 # concat (map (\<lambda>c. [c, c]) (tl trimmed)))
              else if hex_colour 6 trimmed then 35 # js_upper (tl trimmed) else fallback)
      | _ \<Rightarrow> fallback)"

definition normalizeFontFamilyInput :: "json \<Rightarrow> jsstr \<Rightarrow> jsstr" where
  "normalizeFontFamilyInput value fallback =
     (case value of
        JString s \<Rightarrow>
          (let trimmed = map (\<lambda>c. if c \<in> set [59, 123, 125, 10, 13, 9] then 32 else c) (js_trim s)
           in if 0 < length trimmed \<and> length trimmed \<le> 180 then trimmed else fallback)
      | _ \<Rightarrow> fallback)"

definition normalizePathInput :: "json \<Rightarrow> jsstr \<Rightarrow> jsstr" where
  "normalizePathInput value fallback =
     (case value of
        JString s \<Rightarrow>
          (let trimmed = filter (\<lambda>c. c \<notin> set [60, 62, 34, 124, 63, 42, 10, 13, 9]) (js_trim s)
           in if length trimmed \<le> 260 then trimmed else fallback)
      | _ \<Rightarrow> fallback)"

definition normalizeOptionalString :: "json \<Rightarrow> jsstr option \<Rightarrow> jsstr option" where
  "normalizeOptionalString value fallback =
     (case value of JString s \<Rightarrow> if 0 < length (js_trim s) then Some (js_trim s) else fallback | _ \<Rightarrow> fallback)"

definition string_items :: "json list \<Rightarrow> jsstr list" where
  "string_items vs = List.map_filter (\<lambda>v. case v of JString s \<Rightarrow> Some s | _ \<Rightarrow> None) vs"

definition normalizeStringArray :: "json \<Rightarrow> jsstr list" where
  "normalizeStringArray value =
     (case value of JArray vs \<Rightarrow> filter (\<lambda>item. 0 < length item) (map js_trim (string_items vs)) | _ \<Rightarrow> [])"

definition trimmed_string :: "json \<Rightarrow> jsstr" where
  "trimmed_string v = (case v of JString s \<Rightarrow> js_trim s | _ \<Rightarrow> [])"

text \<open>The own properties of an object have distinct names, so \<open>Object.fromEntries\<close> keeps them all, in order.\<close>

definition trimmed_env :: "json \<Rightarrow> (jsstr \<times> jsstr) list" where
  "trimmed_env v = (case v of
     JObject kvs \<Rightarrow> List.map_filter (\<lambda>(k, x). case x of JString s \<Rightarrow> Some (k, js_trim s) | _ \<Rightarrow> None) kvs | _ \<Rightarrow> [])"

definition normalizeLocalTerminalProfile :: "json \<Rightarrow> profile_input option" where
  "normalizeLocalTerminalProfile value =
     (if \<not> is_record value then None
      else
        (let name = trimmed_string (js_get value (js ''name'')); kind = trimmed_string (js_get value (js ''kind''));
             command = trimmed_string (js_get value (js ''command''))
         in if name = [] \<or> kind = [] \<or> command = [] then None
            else Some \<lparr>pi_id = opt_truthy (Some (trimmed_string (js_get value (js ''id'')))), pi_name = name, pi_kind = kind,
              pi_platform = str_or (trimmed_string (js_get value (js ''platform''))) (js ''all''),
              pi_source = str_or (trimmed_string (js_get value (js ''source''))) (js ''custom''), pi_command = command,
              pi_args = (case js_get value (js ''args'') of JArray vs \<Rightarrow> string_items vs | _ \<Rightarrow> []),
              pi_cwd = opt_truthy (Some (trimmed_string (js_get value (js ''cwd'')))),
              pi_env = trimmed_env (js_get value (js ''env'')),
              pi_icon = str_or (trimmed_string (js_get value (js ''icon''))) (js ''terminal-shell''),
              pi_hidden = normalizeBoolean (js_get value (js ''hidden'')) False,
              pi_detected = normalizeBoolean (js_get value (js ''detected'')) False\<rparr>))"

definition normalizeLocalTerminalProfiles :: "json \<Rightarrow> profile_input list" where
  "normalizeLocalTerminalProfiles value =
     (case value of JArray vs \<Rightarrow> List.map_filter normalizeLocalTerminalProfile vs | _ \<Rightarrow> [])"

section \<open>Making the settings valid\<close>

definition record_or_empty :: "json \<Rightarrow> json" where
  "record_or_empty v = (if is_record v then v else JObject [])"

definition normalize_ai :: "json \<Rightarrow> ai_settings" where
  "normalize_ai ai = \<lparr>ai_runningSendBehavior = normalizeOneOf (js_get ai (js ''runningSendBehavior''))
     [js ''queue'', js ''immediate''] (js ''queue'')\<rparr>"

definition normalize_basic :: "json \<Rightarrow> basic_settings" where
  "normalize_basic basic =
     \<lparr>ba_autoCheckAppUpdate = normalizeBoolean (js_get basic (js ''autoCheckAppUpdate'')) True,
      ba_closeWindowToTray = normalizeBoolean (js_get basic (js ''closeWindowToTray'')) True,
      ba_filePanelFollowsActiveConnection = normalizeBoolean (js_get basic (js ''filePanelFollowsActiveConnection'')) True,
      ba_keepFailedTerminalTabs = normalizeBoolean (js_get basic (js ''keepFailedTerminalTabs'')) True,
      ba_reopenLastTerminal = normalizeBoolean (js_get basic (js ''reopenLastTerminal'')) False,
      ba_remoteFileOpenMode = normalizeOneOf (js_get basic (js ''remoteFileOpenMode'')) [js ''split'', js ''unified''] (js ''split''),
      ba_restoreWorkspaceOnLaunch = normalizeBoolean (js_get basic (js ''restoreWorkspaceOnLaunch'')) True,
      ba_recentConnectionLimit = normalizeNumber (js_get basic (js ''recentConnectionLimit'')) [5, 10, 15, 20, 30, 50] 5\<rparr>"

definition normalize_file_transfer :: "json \<Rightarrow> file_transfer_settings" where
  "normalize_file_transfer fileTransfer =
     \<lparr>fs_compressDirectories = normalizeBoolean (js_get fileTransfer (js ''compressDirectories'')) True,
      fs_concurrentTransfers = normalizeNumber (js_get fileTransfer (js ''concurrentTransfers'')) [1, 2, 3, 4, 5, 6, 7, 8, 9, 10] 3,
      fs_conflictPolicyDefault = normalizeOneOf (js_get fileTransfer (js ''conflictPolicyDefault''))
        [js ''ask'', js ''overwrite'', js ''skip'', js ''rename''] (js ''ask''),
      fs_downloadRoot = normalizePathInput (js_get fileTransfer (js ''downloadRoot'')) [],
      fs_groupBySession = normalizeBoolean (js_get fileTransfer (js ''groupBySession'')) True,
      fs_keepArchives = normalizeBoolean (js_get fileTransfer (js ''keepArchives'')) False,
      fs_timestampDirectory = normalizeBoolean (js_get fileTransfer (js ''timestampDirectory'')) True,
      fs_timestampFormat = normalizeOneOf (js_get fileTransfer (js ''timestampFormat''))
        [js ''yyyyMMddHHmm'', js ''yyyyMMdd-HHmm'', js ''yyyy-MM-dd-HHmm''] (js ''yyyyMMddHHmm'')\<rparr>"

definition normalize_local_terminal :: "json \<Rightarrow> local_terminal_settings" where
  "normalize_local_terminal localTerminal =
     \<lparr>ls_ctrlVPaste = normalizeBoolean (js_get localTerminal (js ''ctrlVPaste'')) True,
      ls_defaultProfileId = normalizeOptionalString (js_get localTerminal (js ''defaultProfileId'')) None,
      ls_hiddenProfileIds = normalizeStringArray (js_get localTerminal (js ''hiddenProfileIds'')),
      ls_customProfiles = normalizeLocalTerminalProfiles (js_get localTerminal (js ''customProfiles'')),
      ls_reopenLastLocalWorkspace = normalizeBoolean (js_get localTerminal (js ''reopenLastLocalWorkspace'')) True\<rparr>"

definition normalize_security :: "json \<Rightarrow> security_settings" where
  "normalize_security security =
     \<lparr>se_masterPasswordEnabled = normalizeBoolean (js_get security (js ''masterPasswordEnabled'')) False,
      se_allowPasswordReveal = normalizeBoolean (js_get security (js ''allowPasswordReveal'')) True,
      se_autoLockMinutes = normalizeNumber (js_get security (js ''autoLockMinutes'')) [0, 5, 15, 30, 60] 15\<rparr>"

definition terminalFontPresets :: "(jsstr \<times> jsstr) list" where
  "terminalFontPresets =
     [(js ''cascadia-code'', js ''\"Cascadia Code\", \"Cascadia Mono\", Consolas, monospace''),
      (js ''jetbrains-mono'', js ''\"JetBrains Mono\", \"Cascadia Mono\", Consolas, monospace''),
      (js ''fira-code'', js ''\"Fira Code\", \"Cascadia Mono\", Consolas, monospace''),
      (js ''source-code-pro'', js ''\"Source Code Pro\", \"Cascadia Mono\", Consolas, monospace''),
      (js ''iosevka'', js ''Iosevka, \"Cascadia Mono\", Consolas, monospace''),
      (js ''hack'', js ''Hack, \"Cascadia Mono\", Consolas, monospace''),
      (js ''noto-sans-mono'', js ''\"Noto Sans Mono\", \"Cascadia Mono\", Consolas, monospace'')]"

definition uiFontPresets :: "(jsstr \<times> jsstr) list" where
  "uiFontPresets =
     [(js ''system'', js ''system-ui, -apple-system, BlinkMacSystemFont, \"Segoe UI\", sans-serif''),
      (js ''segoe-ui'', js ''\"Segoe UI Variable Text\", \"Segoe UI\", \"Microsoft YaHei UI\", system-ui, sans-serif''),
      (js ''microsoft-yahei'', js ''\"Microsoft YaHei UI\", \"Microsoft YaHei\", \"Segoe UI\", sans-serif''),
      (js ''noto-sans-sc'', js ''\"Noto Sans SC\", \"Source Han Sans SC\", \"Microsoft YaHei UI\", sans-serif'')]"

definition normalize_appearance :: "json \<Rightarrow> appearance_settings" where
  "normalize_appearance appearance =
     \<lparr>ap_accentColor = normalizeOneOf (js_get appearance (js ''accentColor''))
        [js ''blue'', js ''slate'', js ''emerald'', js ''amber'', js ''rose'', js ''violet'', js ''custom''] (js ''blue''),
      ap_accentColorCustom = normalizeHexColor (js_get appearance (js ''accentColorCustom'')) default_accent,
      ap_cursorBlink = normalizeBoolean (js_get appearance (js ''cursorBlink'')) True,
      ap_cursorStyle = normalizeOneOf (js_get appearance (js ''cursorStyle'')) [js ''block'', js ''bar'', js ''underline''] (js ''block''),
      ap_density = normalizeOneOf (js_get appearance (js ''density'')) [js ''comfortable'', js ''compact''] (js ''comfortable''),
      ap_iconSize = normalizeOneOf (js_get appearance (js ''iconSize'')) [js ''small'', js ''medium'', js ''large''] (js ''medium''),
      ap_rememberPaneWidths = normalizeBoolean (js_get appearance (js ''rememberPaneWidths'')) True,
      ap_terminalFontCustom = normalizeFontFamilyInput (js_get appearance (js ''terminalFontCustom'')) default_terminal_font,
      ap_terminalFontMode = normalizeOneOf (js_get appearance (js ''terminalFontMode'')) [js ''preset'', js ''custom''] (js ''preset''),
      ap_terminalFontPreset = normalizeOneOf (js_get appearance (js ''terminalFontPreset''))
        (map fst terminalFontPresets) (js ''cascadia-code''),
      ap_terminalFontSize = normalizeNumber (js_get appearance (js ''terminalFontSize'')) [12, 13, 14, 15, 16] 13,
      ap_themeMode = normalizeOneOf (js_get appearance (js ''themeMode'')) [js ''system'', js ''light'', js ''dark''] (js ''system''),
      ap_uiFontCustom = normalizeFontFamilyInput (js_get appearance (js ''uiFontCustom'')) default_ui_font,
      ap_uiFontMode = normalizeOneOf (js_get appearance (js ''uiFontMode'')) [js ''preset'', js ''custom''] (js ''preset''),
      ap_uiFontPreset = normalizeOneOf (js_get appearance (js ''uiFontPreset'')) (map fst uiFontPresets) (js ''segoe-ui''),
      ap_uiFontSize = normalizeNumber (js_get appearance (js ''uiFontSize'')) [12, 13, 14, 15] 14,
      ap_windowMaterial = normalizeOneOf (js_get appearance (js ''windowMaterial''))
        [js ''auto'', js ''mica'', js ''acrylic'', js ''micaAlt'', js ''macosGlass''] (js ''auto'')\<rparr>"

definition normalize_scheme :: "json \<Rightarrow> jsstr" where
  "normalize_scheme value =
     (case value of JString s \<Rightarrow> if 0 < length (js_trim s) then s else defaultTerminalColorSchemeId | _ \<Rightarrow> defaultTerminalColorSchemeId)"

definition normalizeSettings :: "json \<Rightarrow> mxterm_settings" where
  "normalizeSettings value =
     (let settings = record_or_empty value; part = (\<lambda>k. record_or_empty (js_get settings (js k)))
      in \<lparr>st_ai = normalize_ai (part ''ai''), st_appearance = normalize_appearance (part ''appearance''),
          st_basic = normalize_basic (part ''basic''),
          st_recordTerminalInputHistory =
            normalizeBoolean (js_get (part ''command'') (js ''recordTerminalInputHistory'')) False,
          st_fileTransfer = normalize_file_transfer (part ''fileTransfer''),
          st_localTerminal = normalize_local_terminal (part ''localTerminal''),
          st_security = normalize_security (part ''security''),
          st_bindings = normalizeShortcutBindings (js_get (part ''shortcuts'') (js ''bindings'')) defaultShortcutBindings,
          st_scheme = normalize_scheme (js_get (part ''terminalTheme'') (js ''scheme''))\<rparr>)"

end
