(* ===== verification/Settings_Store.thy ===== *)
theory Settings_Store
  imports Settings_Types
begin

text \<open>
  The settings while the program runs: what they look like in store, how they are read at the start and changed
  (\<open>startupSettings.ts\<close>, \<open>useSettings.ts\<close>), and the fonts and colours they stand for (\<open>settingsTypes.ts\<close>), all
  under \<open>src/features/settings\<close>.
\<close>

section \<open>The settings as a value\<close>

text \<open>The object the program holds and stores. A property that is \<open>undefined\<close> is left out: it reads the same.\<close>

definition opt_value :: "jsstr option \<Rightarrow> json" where
  "opt_value v = (case v of None \<Rightarrow> JNull | Some s \<Rightarrow> JString s)"

definition nat_value :: "nat \<Rightarrow> json" where
  "nat_value n = JNumber (Num (of_nat n))"

definition profile_value :: "profile_input \<Rightarrow> json" where
  "profile_value p =
     JObject ((case pi_id p of None \<Rightarrow> [] | Some i \<Rightarrow> [(js ''id'', JString i)]) @
       [(js ''name'', JString (pi_name p)), (js ''kind'', JString (pi_kind p)), (js ''platform'', JString (pi_platform p)),
        (js ''source'', JString (pi_source p)), (js ''command'', JString (pi_command p)),
        (js ''args'', JArray (map JString (pi_args p))), (js ''cwd'', opt_value (pi_cwd p)),
        (js ''env'', JObject (map (\<lambda>(k, v). (k, JString v)) (pi_env p))), (js ''icon'', JString (pi_icon p)),
        (js ''hidden'', JBool (pi_hidden p)), (js ''detected'', JBool (pi_detected p))])"

definition ai_value :: "ai_settings \<Rightarrow> json" where
  "ai_value a = JObject [(js ''runningSendBehavior'', JString (ai_runningSendBehavior a))]"

definition basic_value :: "basic_settings \<Rightarrow> json" where
  "basic_value b = JObject
     [(js ''autoCheckAppUpdate'', JBool (ba_autoCheckAppUpdate b)), (js ''closeWindowToTray'', JBool (ba_closeWindowToTray b)),
      (js ''filePanelFollowsActiveConnection'', JBool (ba_filePanelFollowsActiveConnection b)),
      (js ''keepFailedTerminalTabs'', JBool (ba_keepFailedTerminalTabs b)),
      (js ''reopenLastTerminal'', JBool (ba_reopenLastTerminal b)),
      (js ''remoteFileOpenMode'', JString (ba_remoteFileOpenMode b)),
      (js ''restoreWorkspaceOnLaunch'', JBool (ba_restoreWorkspaceOnLaunch b)),
      (js ''recentConnectionLimit'', nat_value (ba_recentConnectionLimit b))]"

definition file_transfer_value :: "file_transfer_settings \<Rightarrow> json" where
  "file_transfer_value f = JObject
     [(js ''conflictPolicyDefault'', JString (fs_conflictPolicyDefault f)),
      (js ''concurrentTransfers'', nat_value (fs_concurrentTransfers f)), (js ''downloadRoot'', JString (fs_downloadRoot f)),
      (js ''groupBySession'', JBool (fs_groupBySession f)), (js ''compressDirectories'', JBool (fs_compressDirectories f)),
      (js ''keepArchives'', JBool (fs_keepArchives f)), (js ''timestampDirectory'', JBool (fs_timestampDirectory f)),
      (js ''timestampFormat'', JString (fs_timestampFormat f))]"

definition local_terminal_value :: "local_terminal_settings \<Rightarrow> json" where
  "local_terminal_value l = JObject
     [(js ''ctrlVPaste'', JBool (ls_ctrlVPaste l)), (js ''defaultProfileId'', opt_value (ls_defaultProfileId l)),
      (js ''hiddenProfileIds'', JArray (map JString (ls_hiddenProfileIds l))),
      (js ''customProfiles'', JArray (map profile_value (ls_customProfiles l))),
      (js ''reopenLastLocalWorkspace'', JBool (ls_reopenLastLocalWorkspace l))]"

definition security_value :: "security_settings \<Rightarrow> json" where
  "security_value s = JObject
     [(js ''masterPasswordEnabled'', JBool (se_masterPasswordEnabled s)),
      (js ''allowPasswordReveal'', JBool (se_allowPasswordReveal s)), (js ''autoLockMinutes'', nat_value (se_autoLockMinutes s))]"

definition appearance_value :: "appearance_settings \<Rightarrow> json" where
  "appearance_value a = JObject
     [(js ''accentColor'', JString (ap_accentColor a)), (js ''accentColorCustom'', JString (ap_accentColorCustom a)),
      (js ''cursorBlink'', JBool (ap_cursorBlink a)), (js ''cursorStyle'', JString (ap_cursorStyle a)),
      (js ''density'', JString (ap_density a)), (js ''iconSize'', JString (ap_iconSize a)),
      (js ''rememberPaneWidths'', JBool (ap_rememberPaneWidths a)),
      (js ''terminalFontCustom'', JString (ap_terminalFontCustom a)), (js ''terminalFontMode'', JString (ap_terminalFontMode a)),
      (js ''terminalFontPreset'', JString (ap_terminalFontPreset a)), (js ''terminalFontSize'', nat_value (ap_terminalFontSize a)),
      (js ''themeMode'', JString (ap_themeMode a)), (js ''uiFontCustom'', JString (ap_uiFontCustom a)),
      (js ''uiFontMode'', JString (ap_uiFontMode a)), (js ''uiFontPreset'', JString (ap_uiFontPreset a)),
      (js ''uiFontSize'', nat_value (ap_uiFontSize a)), (js ''windowMaterial'', JString (ap_windowMaterial a))]"

definition settings_value :: "mxterm_settings \<Rightarrow> json" where
  "settings_value s = JObject
     [(js ''ai'', ai_value (st_ai s)), (js ''basic'', basic_value (st_basic s)),
      (js ''fileTransfer'', file_transfer_value (st_fileTransfer s)),
      (js ''localTerminal'', local_terminal_value (st_localTerminal s)),
      (js ''command'', JObject [(js ''recordTerminalInputHistory'', JBool (st_recordTerminalInputHistory s))]),
      (js ''security'', security_value (st_security s)),
      (js ''shortcuts'', JObject [(js ''bindings'', bindings_value (st_bindings s))]),
      (js ''appearance'', appearance_value (st_appearance s)),
      (js ''terminalTheme'', JObject [(js ''scheme'', JString (st_scheme s))])]"

section \<open>Reading and changing\<close>

text \<open>\<open>JSON.parse\<close> is a parameter: \<open>None\<close> where it throws. \<open>stored\<close> is what \<open>getItem\<close> returns.\<close>

definition readStartupSettings :: "(jsstr \<Rightarrow> json option) \<Rightarrow> jsstr option \<Rightarrow> mxterm_settings" where
  "readStartupSettings parse stored =
     (case parse (opt_str_or stored (js ''null'')) of Some v \<Rightarrow> normalizeSettings v | None \<Rightarrow> defaultSettings)"

definition js_spread :: "json \<Rightarrow> (jsstr \<times> json) list \<Rightarrow> json" where
  "js_spread v update =
     JObject (foldl (\<lambda>m kv. AList.update (fst kv) (snd kv) m) (case v of JObject kvs \<Rightarrow> kvs | _ \<Rightarrow> []) update)"

definition update_section :: "jsstr \<Rightarrow> (jsstr \<times> json) list \<Rightarrow> mxterm_settings \<Rightarrow> mxterm_settings" where
  "update_section name update current =
     normalizeSettings (js_spread (settings_value current) [(name, js_spread (js_get (settings_value current) name) update)])"

definition updateAi where "updateAi = update_section (js ''ai'')"
definition updateBasic where "updateBasic = update_section (js ''basic'')"
definition updateAppearance where "updateAppearance = update_section (js ''appearance'')"
definition updateSecurity where "updateSecurity = update_section (js ''security'')"
definition updateShortcuts where "updateShortcuts = update_section (js ''shortcuts'')"
definition updateTerminalTheme where "updateTerminalTheme = update_section (js ''terminalTheme'')"
definition updateFileTransfer where "updateFileTransfer = update_section (js ''fileTransfer'')"
definition updateCommand where "updateCommand = update_section (js ''command'')"
definition updateLocalTerminal where "updateLocalTerminal = update_section (js ''localTerminal'')"

section \<open>Fonts and colours\<close>

definition resolveUiFontFamily :: "appearance_settings \<Rightarrow> jsstr" where
  "resolveUiFontFamily a =
     (if ap_uiFontMode a = js ''custom'' then normalizeFontFamilyInput (JString (ap_uiFontCustom a)) default_ui_font
      else opt_str_or (map_of uiFontPresets (ap_uiFontPreset a)) default_ui_font)"

definition resolveTerminalFontFamily :: "appearance_settings \<Rightarrow> jsstr" where
  "resolveTerminalFontFamily a =
     (if ap_terminalFontMode a = js ''custom'' then normalizeFontFamilyInput (JString (ap_terminalFontCustom a)) default_terminal_font
      else opt_str_or (map_of terminalFontPresets (ap_terminalFontPreset a)) default_terminal_font)"

definition hex_unit_value :: "nat \<Rightarrow> nat" where
  "hex_unit_value c = (if c \<le> 57 then c - 48 else if c \<le> 70 then c - 55 else c - 87)"

definition hex_value :: "jsstr \<Rightarrow> nat" where
  "hex_value ds = foldl (\<lambda>n c. 16 * n + hex_unit_value c) 0 ds"

definition hex_unit :: "nat \<Rightarrow> nat" where
  "hex_unit d = (if d < 10 then 48 + d else 87 + d)"

fun hex_digits :: "nat \<Rightarrow> jsstr" where
  "hex_digits n = (if n < 16 then [hex_unit n] else hex_digits (n div 16) @ [hex_unit (n mod 16)])"

declare hex_digits.simps [simp del]

definition mix_channel :: "nat \<Rightarrow> nat" where
  "mix_channel channel = nat \<lfloor>of_nat channel + (255 - of_nat channel) * (24 / 100) + (1 / 2 :: rat)\<rfloor>"

definition createDarkAccentColor :: "jsstr \<Rightarrow> jsstr" where
  "createDarkAccentColor lightHex =
     (let normalized = normalizeHexColor (JString lightHex) default_accent;
          red = hex_value (js_slice normalized 1 3); green = hex_value (js_slice normalized 3 5);
          blue = hex_value (js_slice normalized 5 7)
      in 35 # concat (map (\<lambda>channel. js_upper (pad_start 2 48 (hex_digits channel)))
           [mix_channel red, mix_channel green, mix_channel blue]))"

record accent_pair =
  ac_light :: jsstr
  ac_dark :: jsstr

definition accentColorPresets :: "(jsstr \<times> accent_pair) list" where
  "accentColorPresets =
     [(js ''blue'', \<lparr>ac_light = js ''#2374C6'', ac_dark = js ''#73B7FF''\<rparr>),
      (js ''emerald'', \<lparr>ac_light = js ''#168264'', ac_dark = js ''#57D8AE''\<rparr>),
      (js ''amber'', \<lparr>ac_light = js ''#C97A19'', ac_dark = js ''#FFBF66''\<rparr>),
      (js ''rose'', \<lparr>ac_light = js ''#C85F82'', ac_dark = js ''#FF9DB8''\<rparr>),
      (js ''violet'', \<lparr>ac_light = js ''#7460DE'', ac_dark = js ''#AC9CFF''\<rparr>)]"

definition legacyAccentColors :: "(jsstr \<times> accent_pair) list" where
  "legacyAccentColors = [(js ''slate'', \<lparr>ac_light = js ''#64748B'', ac_dark = js ''#94A3B8''\<rparr>)]"

definition resolveAccentColors :: "appearance_settings \<Rightarrow> accent_pair" where
  "resolveAccentColors a =
     (if ap_accentColor a = js ''custom'' then
        (let light = normalizeHexColor (JString (ap_accentColorCustom a)) default_accent
         in \<lparr>ac_light = light, ac_dark = createDarkAccentColor light\<rparr>)
      else (case map_of accentColorPresets (ap_accentColor a) of
              Some p \<Rightarrow> p
            | None \<Rightarrow> (case map_of legacyAccentColors (ap_accentColor a) of
                Some p \<Rightarrow> p
              | None \<Rightarrow> \<lparr>ac_light = default_accent, ac_dark = createDarkAccentColor default_accent\<rparr>)))"

definition resolveAccentColor :: "appearance_settings \<Rightarrow> jsstr" where
  "resolveAccentColor a = ac_light (resolveAccentColors a)"

definition iconSizeToPixels :: "jsstr \<Rightarrow> jsstr" where
  "iconSizeToPixels icon =
     (if icon = js ''small'' then js ''14px'' else if icon = js ''large'' then js ''18px'' else js ''16px'')"

text \<open>The background of the terminal comes from the colour scheme, which is not modelled.\<close>

definition resolveSettingsStyle :: "(jsstr \<Rightarrow> jsstr) \<Rightarrow> mxterm_settings \<Rightarrow> (jsstr \<times> jsstr) list" where
  "resolveSettingsStyle background s =
     (let accent = resolveAccentColors (st_appearance s)
      in [(js ''--font-mono'', resolveTerminalFontFamily (st_appearance s)), (js ''--font-ui'', resolveUiFontFamily (st_appearance s)),
          (js ''--mx-primary-light'', ac_light accent), (js ''--mx-primary-dark'', ac_dark accent),
          (js ''--mx-settings-ui-font-size'', dec_digits (ap_uiFontSize (st_appearance s)) @ js ''px''),
          (js ''--mx-terminal'', background (st_scheme s)),
          (js ''--mx-terminal-font-size'', dec_digits (ap_terminalFontSize (st_appearance s)) @ js ''px''),
          (js ''--mx-ui-icon-size'', iconSizeToPixels (ap_iconSize (st_appearance s)))])"

end
