(* ===== verification/Settings_Laws.thy ===== *)
theory Settings_Laws
  imports Settings_Store
begin

text \<open>
  What the settings always satisfy, what storing and reading them again does, and what a change of one part does to
  the others. Normalising twice is not the same as once: a font or a folder from which forbidden characters were
  taken may be left with blanks at its ends, and those go the next time.
\<close>

section \<open>Single values\<close>

lemma boolean_kept [simp]: "normalizeBoolean (JBool b) d = b"
  by (simp add: normalizeBoolean_def)

lemma one_of_kept [simp]: "s \<in> set allowed \<Longrightarrow> normalizeOneOf (JString s) allowed d = s"
  by (simp add: normalizeOneOf_def)

lemma one_of_in: "d \<in> set allowed \<Longrightarrow> normalizeOneOf v allowed d \<in> set allowed"
  by (simp add: normalizeOneOf_def split: json.split)

lemma find_same: "n \<in> set ns \<Longrightarrow> List.find (\<lambda>m. m = n) ns = Some n"
  by (induction ns) auto

lemma number_kept [simp]: "n \<in> set allowed \<Longrightarrow> normalizeNumber (nat_value n) allowed d = n"
  by (simp add: normalizeNumber_def nat_value_def find_same)

lemma number_in: "d \<in> set allowed \<Longrightarrow> normalizeNumber v allowed d \<in> set allowed"
  by (auto simp: normalizeNumber_def dest: find_SomeD split: json.split jsnum.split option.split)

definition full_colour :: "jsstr \<Rightarrow> bool" where
  "full_colour s \<longleftrightarrow> hex_colour 6 s \<and> list_all (\<lambda>c. c < 97) s"

lemma upper_hex: "is_hex_unit c \<Longrightarrow> \<exists>u. upper_unit c = [u] \<and> is_hex_unit u \<and> u < 97"
proof (cases "c < 97")
  case True
  moreover assume "is_hex_unit c"
  ultimately show ?thesis by (simp add: upper_unit_def)
next
  case False
  moreover assume "is_hex_unit c"
  ultimately have "97 \<le> c" "c \<le> 102" by (auto simp: is_hex_unit_def)
  then show ?thesis by (simp add: upper_unit_def is_hex_unit_def) arith
qed

lemma upper_hexes: "list_all is_hex_unit ds \<Longrightarrow>
    length (js_upper ds) = length ds \<and> list_all is_hex_unit (js_upper ds) \<and> list_all (\<lambda>c. c < 97) (js_upper ds)"
proof (induction ds)
  case (Cons c ds)
  obtain u where "upper_unit c = [u]" "is_hex_unit u" "u < 97" using upper_hex Cons.prems by auto
  then show ?case using Cons by (simp add: js_upper_def)
qed (simp add: js_upper_def)

lemma upper_same: "list_all is_hex_unit ds \<Longrightarrow> list_all (\<lambda>c. c < 97) ds \<Longrightarrow> js_upper ds = ds"
proof (induction ds)
  case (Cons c ds)
  have "upper_unit c = [c]" using Cons.prems by (simp add: upper_unit_def)
  then show ?case using Cons by (simp add: js_upper_def)
qed (simp add: js_upper_def)

lemma hex_not_ws: "is_hex_unit c \<Longrightarrow> \<not> is_ws c"
  by (auto simp: is_hex_unit_def is_ws_def)

lemma colour_trim: "hex_colour n s \<Longrightarrow> js_trim s = s"
proof (rule js_trim_id)
  assume "hex_colour n s" "s \<noteq> []"
  then obtain ds where s: "s = 35 # ds" "list_all is_hex_unit ds" by (auto simp: hex_colour_def split: list.splits)
  have "last ds \<in> set ds" if "ds \<noteq> []" using that by simp
  then show "\<not> is_ws (hd s) \<and> \<not> is_ws (last s)"
    using s hex_not_ws by (auto simp: is_ws_def list_all_iff)
qed

lemma colour_in: "full_colour d \<Longrightarrow> full_colour (normalizeHexColor v d)"
proof (cases v)
  case (JString s)
  assume d: "full_colour d"
  show ?thesis
  proof (cases "hex_colour 3 (js_trim s)")
    case True
    then obtain ds where t: "js_trim s = 35 # ds" "list_all is_hex_unit ds" "length ds = 3"
      by (auto simp: hex_colour_def split: list.splits)
    let ?ds = "concat (map (\<lambda>c. [c, c]) ds)"
    have len: "length ?ds = 6" using t(3) by (simp add: length_concat comp_def sum_list_triv)
    have "list_all is_hex_unit ?ds" using t(2) by (auto simp: list_all_iff)
    note upper_hexes [OF this]
    moreover have "js_upper (35 # ?ds) = 35 # js_upper ?ds" by (simp add: js_upper_def upper_unit_def)
    ultimately show ?thesis using JString True t len
      by (simp add: normalizeHexColor_def Let_def full_colour_def hex_colour_def)
  next
    case False
    show ?thesis
    proof (cases "hex_colour 6 (js_trim s)")
      case True
      then obtain ds where t: "js_trim s = 35 # ds" "list_all is_hex_unit ds" "length ds = 6"
        by (auto simp: hex_colour_def split: list.splits)
      show ?thesis using upper_hexes [OF t(2)] JString True False t
        by (simp add: normalizeHexColor_def Let_def full_colour_def hex_colour_def)
    qed (use JString False d in \<open>simp add: normalizeHexColor_def Let_def\<close>)
  qed
qed (simp_all add: normalizeHexColor_def)

lemma colour_kept [simp]: "full_colour s \<Longrightarrow> normalizeHexColor (JString s) d = s"
proof -
  assume s: "full_colour s"
  then obtain ds where t: "s = 35 # ds" "list_all is_hex_unit ds" "length ds = 6" "list_all (\<lambda>c. c < 97) ds"
    by (auto simp: full_colour_def hex_colour_def split: list.splits)
  moreover have "js_trim s = s" using s colour_trim [of 6] by (simp add: full_colour_def)
  ultimately show ?thesis using upper_same [OF t(2,4)] by (simp add: normalizeHexColor_def hex_colour_def)
qed

lemma default_colour [simp]: "full_colour default_accent"
  by (simp add: full_colour_def hex_colour_def default_accent_def js_def is_hex_unit_def)

definition font_ok :: "jsstr \<Rightarrow> bool" where
  "font_ok s \<longleftrightarrow> 0 < length s \<and> length s \<le> 180 \<and> set s \<inter> set [59, 123, 125, 10, 13, 9] = {}"

definition path_ok :: "jsstr \<Rightarrow> bool" where
  "path_ok s \<longleftrightarrow> length s \<le> 260 \<and> set s \<inter> set [60, 62, 34, 124, 63, 42, 10, 13, 9] = {}"

definition tidy_font :: "jsstr \<Rightarrow> jsstr \<Rightarrow> jsstr" where
  "tidy_font d s = (if js_trim s = [] then d else js_trim s)"

lemma font_in: "font_ok d \<Longrightarrow> font_ok (normalizeFontFamilyInput v d)"
  by (auto simp: normalizeFontFamilyInput_def font_ok_def Let_def split: json.split)

lemma font_kept: 
  assumes "font_ok s" shows "normalizeFontFamilyInput (JString s) d = tidy_font d s"
proof -
  have "map (\<lambda>c. if c \<in> set [59, 123, 125, 10, 13, 9] then 32 else c) (js_trim s) = js_trim s"
    by (rule map_idI) (use assms set_js_trim in \<open>auto simp: font_ok_def\<close>)
  then show ?thesis
    using assms length_js_trim [of s] by (simp add: normalizeFontFamilyInput_def tidy_font_def font_ok_def)
qed

lemma path_in: "path_ok d \<Longrightarrow> path_ok (normalizePathInput v d)"
  by (auto simp: normalizePathInput_def path_ok_def Let_def split: json.split)

lemma path_kept:
  assumes "path_ok s" shows "normalizePathInput (JString s) d = js_trim s"
proof -
  have "filter (\<lambda>c. c \<notin> set [60, 62, 34, 124, 63, 42, 10, 13, 9]) (js_trim s) = js_trim s"
    by (rule filter_True) (use assms set_js_trim in \<open>auto simp: path_ok_def\<close>)
  then show ?thesis
    using assms length_js_trim [of s] by (simp add: normalizePathInput_def path_ok_def)
qed

section \<open>Profiles\<close>

definition trimmed :: "jsstr \<Rightarrow> bool" where
  "trimmed s \<longleftrightarrow> js_trim s = s"

lemma trimmed_trim [simp]: "trimmed (js_trim s)" "trimmed (trimmed_string v)" "trimmed []"
  by (simp_all add: trimmed_def trimmed_string_def split: json.split)

lemma trimmed_kept [simp]: "trimmed s \<Longrightarrow> trimmed_string (JString s) = s"
  by (simp add: trimmed_def trimmed_string_def)

lemma trimmed_none [simp]: "trimmed_string JUndefined = []" "trimmed_string JNull = []"
  by (simp_all add: trimmed_string_def)

lemma trimmed_or: "trimmed s \<Longrightarrow> trimmed d \<Longrightarrow> trimmed (str_or s d)"
  by (simp add: str_or_def)

definition option_ok :: "jsstr option \<Rightarrow> bool" where
  "option_ok v \<longleftrightarrow> (case v of None \<Rightarrow> True | Some s \<Rightarrow> s \<noteq> [] \<and> trimmed s)"

lemma option_in: "option_ok (opt_truthy (Some (trimmed_string v)))" "option_ok (normalizeOptionalString v None)"
  by (simp_all add: option_ok_def opt_truthy_def normalizeOptionalString_def split: json.split)

lemma option_kept: "option_ok v \<Longrightarrow> opt_truthy (Some (trimmed_string (opt_value v))) = v"
  "option_ok v \<Longrightarrow> normalizeOptionalString (opt_value v) None = v"
  by (auto simp: option_ok_def opt_value_def normalizeOptionalString_def trimmed_def split: option.split)

lemma string_items_kept [simp]: "string_items (map JString ss) = ss"
  by (induction ss) (simp_all add: string_items_def List.map_filter_simps)

definition ids_ok :: "jsstr list \<Rightarrow> bool" where
  "ids_ok ids \<longleftrightarrow> (\<forall>i\<in>set ids. i \<noteq> [] \<and> trimmed i)"

lemma ids_in: "ids_ok (normalizeStringArray v)"
  by (auto simp: ids_ok_def normalizeStringArray_def split: json.splits)

lemma ids_kept: "ids_ok ids \<Longrightarrow> normalizeStringArray (JArray (map JString ids)) = ids"
  by (simp add: normalizeStringArray_def ids_ok_def trimmed_def map_idI)

definition profile_ok :: "profile_input \<Rightarrow> bool" where
  "profile_ok p \<longleftrightarrow> pi_name p \<noteq> [] \<and> pi_kind p \<noteq> [] \<and> pi_command p \<noteq> [] \<and> pi_platform p \<noteq> [] \<and> pi_source p \<noteq> [] \<and> pi_icon p \<noteq> []
     \<and> list_all trimmed [pi_name p, pi_kind p, pi_command p, pi_platform p, pi_source p, pi_icon p]
     \<and> option_ok (pi_id p) \<and> option_ok (pi_cwd p) \<and> (\<forall>(k, v)\<in>set (pi_env p). trimmed v)"

lemma env_in: "\<forall>(k, v)\<in>set (trimmed_env e). trimmed v"
proof -
  have "\<forall>(k, v)\<in>set (List.map_filter (\<lambda>(k, x). case x of JString s \<Rightarrow> Some (k, js_trim s) | _ \<Rightarrow> None) kvs). trimmed v" for kvs
    by (induction kvs) (auto simp: List.map_filter_simps split: option.splits json.splits)
  then show ?thesis by (cases e) (simp_all only: trimmed_env_def json.case list.set ball_empty)
qed

lemma env_kept:
  assumes "\<forall>(k, v)\<in>set env. trimmed v" shows "trimmed_env (JObject (map (\<lambda>(k, v). (k, JString v)) env)) = env"
  using assms by (induction env) (auto simp: trimmed_env_def List.map_filter_simps trimmed_def)

lemma literal_trimmed: "trimmed (js ''all'')" "trimmed (js ''custom'')" "trimmed (js ''terminal-shell'')"
  unfolding trimmed_def by (rule js_trim_id, simp add: js_def is_ws_def)+

lemma or_not_Nil: "d \<noteq> [] \<Longrightarrow> str_or s d \<noteq> []"
  by (simp add: str_or_def)

lemma profile_in:
  assumes "normalizeLocalTerminalProfile v = Some p" shows "profile_ok p"
proof -
  have "trimmed (str_or (trimmed_string x) d)" if "trimmed d" for x d by (simp add: that trimmed_or)
  then show ?thesis
    using assms unfolding normalizeLocalTerminalProfile_def Let_def
    by (simp split: if_split_asm) (drule sym, simp add: profile_ok_def option_in env_in literal_trimmed or_not_Nil)
qed

lemma get_fields [simp]:
  "js_get (JObject []) k = JUndefined"
  "js_get (JObject ((k', v) # kvs)) k = (if k = k' then v else js_get (JObject kvs) k)"
  by (simp_all add: js_get_def)

lemma profile_kept: 
  assumes "profile_ok p" shows "normalizeLocalTerminalProfile (profile_value p) = Some p"
proof -
  have "js_get (profile_value p) (js ''id'') = (case pi_id p of None \<Rightarrow> JUndefined | Some i \<Rightarrow> JString i)"
    by (simp add: profile_value_def split: option.split)
  then have "opt_truthy (Some (trimmed_string (js_get (profile_value p) (js ''id'')))) = pi_id p"
    using assms by (auto simp: profile_ok_def option_ok_def split: option.splits)
  moreover have "js_get (profile_value p) (js k) = js_get (profile_value (p\<lparr>pi_id := None\<rparr>)) (js k)" if "k \<noteq> ''id''" for k
    using that by (simp add: profile_value_def split: option.split)
  moreover have "is_record (profile_value p)" by (simp add: is_record_def profile_value_def)
  ultimately show ?thesis
    using assms
    by (simp add: normalizeLocalTerminalProfile_def profile_ok_def) (simp add: profile_value_def option_kept env_kept str_or_def)
qed

lemma profiles_in: "list_all profile_ok (normalizeLocalTerminalProfiles v)"
proof -
  have "list_all profile_ok (List.map_filter normalizeLocalTerminalProfile vs)" for vs
    by (induction vs) (auto simp: List.map_filter_simps profile_in split: option.split)
  then show ?thesis by (simp add: normalizeLocalTerminalProfiles_def split: json.split)
qed

lemma profiles_kept: "list_all profile_ok ps \<Longrightarrow> normalizeLocalTerminalProfiles (JArray (map profile_value ps)) = ps"
  by (induction ps) (auto simp: normalizeLocalTerminalProfiles_def List.map_filter_simps profile_kept)

section \<open>The whole settings\<close>

definition ai_ok :: "ai_settings \<Rightarrow> bool" where
  "ai_ok a \<longleftrightarrow> ai_runningSendBehavior a \<in> set [js ''queue'', js ''immediate'']"

definition basic_ok :: "basic_settings \<Rightarrow> bool" where
  "basic_ok b \<longleftrightarrow> ba_remoteFileOpenMode b \<in> set [js ''split'', js ''unified'']
     \<and> ba_recentConnectionLimit b \<in> set [5, 10, 15, 20, 30, 50]"

definition file_transfer_ok :: "file_transfer_settings \<Rightarrow> bool" where
  "file_transfer_ok f \<longleftrightarrow> fs_conflictPolicyDefault f \<in> set [js ''ask'', js ''overwrite'', js ''skip'', js ''rename'']
     \<and> fs_concurrentTransfers f \<in> set [1, 2, 3, 4, 5, 6, 7, 8, 9, 10] \<and> path_ok (fs_downloadRoot f)
     \<and> fs_timestampFormat f \<in> set [js ''yyyyMMddHHmm'', js ''yyyyMMdd-HHmm'', js ''yyyy-MM-dd-HHmm'']"

definition local_terminal_ok :: "local_terminal_settings \<Rightarrow> bool" where
  "local_terminal_ok l \<longleftrightarrow> option_ok (ls_defaultProfileId l) \<and> ids_ok (ls_hiddenProfileIds l)
     \<and> list_all profile_ok (ls_customProfiles l)"

definition appearance_ok :: "appearance_settings \<Rightarrow> bool" where
  "appearance_ok a \<longleftrightarrow>
     ap_accentColor a \<in> set [js ''blue'', js ''slate'', js ''emerald'', js ''amber'', js ''rose'', js ''violet'', js ''custom'']
     \<and> full_colour (ap_accentColorCustom a)
     \<and> ap_cursorStyle a \<in> set [js ''block'', js ''bar'', js ''underline'']
     \<and> ap_density a \<in> set [js ''comfortable'', js ''compact''] \<and> ap_iconSize a \<in> set [js ''small'', js ''medium'', js ''large'']
     \<and> font_ok (ap_terminalFontCustom a) \<and> font_ok (ap_uiFontCustom a)
     \<and> ap_terminalFontMode a \<in> set [js ''preset'', js ''custom''] \<and> ap_terminalFontPreset a \<in> set (map fst terminalFontPresets)
     \<and> ap_terminalFontSize a \<in> set [12, 13, 14, 15, 16] \<and> ap_themeMode a \<in> set [js ''system'', js ''light'', js ''dark'']
     \<and> ap_uiFontMode a \<in> set [js ''preset'', js ''custom''] \<and> ap_uiFontPreset a \<in> set (map fst uiFontPresets)
     \<and> ap_uiFontSize a \<in> set [12, 13, 14, 15]
     \<and> ap_windowMaterial a \<in> set [js ''auto'', js ''mica'', js ''acrylic'', js ''micaAlt'', js ''macosGlass'']"

definition settings_ok :: "mxterm_settings \<Rightarrow> bool" where
  "settings_ok s \<longleftrightarrow> ai_ok (st_ai s) \<and> basic_ok (st_basic s) \<and> file_transfer_ok (st_fileTransfer s)
     \<and> local_terminal_ok (st_localTerminal s) \<and> se_autoLockMinutes (st_security s) \<in> set [0, 5, 15, 30, 60]
     \<and> bindings_ok (st_bindings s) \<and> js_trim (st_scheme s) \<noteq> [] \<and> appearance_ok (st_appearance s)"

lemma default_fonts [simp]: "font_ok default_terminal_font" "font_ok default_ui_font"
  by (simp_all add: font_ok_def default_terminal_font_def default_ui_font_def js_def)

lemma scheme_in: "js_trim (normalize_scheme v) \<noteq> []"
proof -
  have "js_trim defaultTerminalColorSchemeId = defaultTerminalColorSchemeId"
    by (rule js_trim_id) (simp add: defaultTerminalColorSchemeId_def js_def is_ws_def)
  then have "js_trim defaultTerminalColorSchemeId \<noteq> []" by (simp add: defaultTerminalColorSchemeId_def)
  then show ?thesis by (simp add: normalize_scheme_def split: json.split)
qed

lemma parts_in:
  "ai_ok (normalize_ai v)" "basic_ok (normalize_basic v)" "file_transfer_ok (normalize_file_transfer v)"
  "local_terminal_ok (normalize_local_terminal v)" "se_autoLockMinutes (normalize_security v) \<in> set [0, 5, 15, 30, 60]"
  "appearance_ok (normalize_appearance v)"
  unfolding ai_ok_def basic_ok_def file_transfer_ok_def local_terminal_ok_def appearance_ok_def
    normalize_ai_def normalize_basic_def normalize_file_transfer_def
    normalize_local_terminal_def normalize_security_def normalize_appearance_def
    ai_settings.select_convs basic_settings.select_convs file_transfer_settings.select_convs
    local_terminal_settings.select_convs security_settings.select_convs appearance_settings.select_convs
  by ((intro conjI one_of_in number_in path_in option_in ids_in profiles_in colour_in font_in default_fonts default_colour;
      simp add: path_ok_def terminalFontPresets_def uiFontPresets_def)+)

lemma settings_in: "settings_ok (normalizeSettings v)"
  unfolding settings_ok_def normalizeSettings_def Let_def mxterm_settings.select_convs
  by (intro conjI parts_in bindings_in scheme_in)

text \<open>What normalising does to settings that are in use.\<close>

definition tidy_appearance :: "appearance_settings \<Rightarrow> appearance_settings" where
  "tidy_appearance a = a\<lparr>ap_terminalFontCustom := tidy_font default_terminal_font (ap_terminalFontCustom a),
     ap_uiFontCustom := tidy_font default_ui_font (ap_uiFontCustom a)\<rparr>"

definition tidy_file_transfer :: "file_transfer_settings \<Rightarrow> file_transfer_settings" where
  "tidy_file_transfer f = f\<lparr>fs_downloadRoot := js_trim (fs_downloadRoot f)\<rparr>"

definition tidy_settings :: "mxterm_settings \<Rightarrow> mxterm_settings" where
  "tidy_settings s = s\<lparr>st_appearance := tidy_appearance (st_appearance s), st_fileTransfer := tidy_file_transfer (st_fileTransfer s)\<rparr>"

lemma part_kept:
  "ai_ok a \<Longrightarrow> normalize_ai (ai_value a) = a" "basic_ok b \<Longrightarrow> normalize_basic (basic_value b) = b"
  "se_autoLockMinutes c \<in> set [0, 5, 15, 30, 60] \<Longrightarrow> normalize_security (security_value c) = c"
  "local_terminal_ok l \<Longrightarrow> normalize_local_terminal (local_terminal_value l) = l"
  unfolding normalize_ai_def ai_value_def ai_ok_def normalize_basic_def basic_value_def basic_ok_def normalize_security_def
    security_value_def normalize_local_terminal_def local_terminal_value_def local_terminal_ok_def
  by (intro ai_settings.equality basic_settings.equality security_settings.equality local_terminal_settings.equality;
      simp add: option_kept ids_kept profiles_kept del: list.set)+

lemma file_transfer_kept: "file_transfer_ok f \<Longrightarrow> normalize_file_transfer (file_transfer_value f) = tidy_file_transfer f"
  unfolding normalize_file_transfer_def file_transfer_value_def tidy_file_transfer_def file_transfer_ok_def
  by (intro file_transfer_settings.equality) (simp_all add: path_kept del: list.set)

lemma appearance_gets:
  "js_get (appearance_value a) (js ''accentColor'') = JString (ap_accentColor a)"
  "js_get (appearance_value a) (js ''accentColorCustom'') = JString (ap_accentColorCustom a)"
  "js_get (appearance_value a) (js ''cursorBlink'') = JBool (ap_cursorBlink a)"
  "js_get (appearance_value a) (js ''cursorStyle'') = JString (ap_cursorStyle a)"
  "js_get (appearance_value a) (js ''density'') = JString (ap_density a)"
  "js_get (appearance_value a) (js ''iconSize'') = JString (ap_iconSize a)"
  "js_get (appearance_value a) (js ''rememberPaneWidths'') = JBool (ap_rememberPaneWidths a)"
  "js_get (appearance_value a) (js ''terminalFontCustom'') = JString (ap_terminalFontCustom a)"
  "js_get (appearance_value a) (js ''terminalFontMode'') = JString (ap_terminalFontMode a)"
  "js_get (appearance_value a) (js ''terminalFontPreset'') = JString (ap_terminalFontPreset a)"
  "js_get (appearance_value a) (js ''terminalFontSize'') = nat_value (ap_terminalFontSize a)"
  "js_get (appearance_value a) (js ''themeMode'') = JString (ap_themeMode a)"
  "js_get (appearance_value a) (js ''uiFontCustom'') = JString (ap_uiFontCustom a)"
  "js_get (appearance_value a) (js ''uiFontMode'') = JString (ap_uiFontMode a)"
  "js_get (appearance_value a) (js ''uiFontPreset'') = JString (ap_uiFontPreset a)"
  "js_get (appearance_value a) (js ''uiFontSize'') = nat_value (ap_uiFontSize a)"
  "js_get (appearance_value a) (js ''windowMaterial'') = JString (ap_windowMaterial a)"
  by (simp_all add: appearance_value_def)

lemma appearance_kept:
  assumes "appearance_ok a" shows "normalize_appearance (appearance_value a) = tidy_appearance a"
proof -
  note ok = assms [unfolded appearance_ok_def]
  show ?thesis
    unfolding normalize_appearance_def appearance_gets tidy_appearance_def
    by (rule appearance_settings.equality;
      simp only: appearance_settings.simps boolean_kept colour_kept one_of_kept number_kept font_kept ok; simp)
qed

lemma parts_kept:
  assumes "settings_ok s"
  shows "normalize_ai (ai_value (st_ai s)) = st_ai s" "normalize_basic (basic_value (st_basic s)) = st_basic s"
    "normalize_security (security_value (st_security s)) = st_security s"
    "normalize_local_terminal (local_terminal_value (st_localTerminal s)) = st_localTerminal s"
    "normalize_file_transfer (file_transfer_value (st_fileTransfer s)) = tidy_file_transfer (st_fileTransfer s)"
    "normalize_appearance (appearance_value (st_appearance s)) = tidy_appearance (st_appearance s)"
    "normalize_scheme (JString (st_scheme s)) = st_scheme s"
    "normalizeShortcutBindings (bindings_value (st_bindings s)) defaultShortcutBindings = st_bindings s"
  using assms part_kept file_transfer_kept appearance_kept bindings_kept
  unfolding settings_ok_def by (auto simp: normalize_scheme_def simp del: list.set)

lemma record_empty [simp]: "record_or_empty (JObject kvs) = JObject kvs"
  by (simp add: record_or_empty_def is_record_def)

lemma part_values [simp]:
  "record_or_empty (ai_value a) = ai_value a" "record_or_empty (basic_value b) = basic_value b"
  "record_or_empty (file_transfer_value f) = file_transfer_value f" "record_or_empty (security_value c) = security_value c"
  "record_or_empty (local_terminal_value l) = local_terminal_value l" "record_or_empty (appearance_value p) = appearance_value p"
  "record_or_empty (js_spread v u) = js_spread v u"
  by (simp_all add: ai_value_def basic_value_def file_transfer_value_def security_value_def local_terminal_value_def
      appearance_value_def js_spread_def)

lemma normalize_again:
  assumes "settings_ok s" shows "normalizeSettings (settings_value s) = tidy_settings s"
  using parts_kept [OF assms]
  by (simp add: normalizeSettings_def settings_value_def tidy_settings_def Let_def)

lemma get_spread: "js_get (js_spread v [(name, x)]) k = (if k = name then x else js_get v k)"
  by (cases v) (simp_all add: js_spread_def js_get_def update_conv')

lemma get_parts [simp]:
  "js_get (settings_value s) (js ''ai'') = ai_value (st_ai s)" "js_get (settings_value s) (js ''basic'') = basic_value (st_basic s)"
  "js_get (settings_value s) (js ''fileTransfer'') = file_transfer_value (st_fileTransfer s)"
  "js_get (settings_value s) (js ''localTerminal'') = local_terminal_value (st_localTerminal s)"
  "js_get (settings_value s) (js ''command'') = JObject [(js ''recordTerminalInputHistory'', JBool (st_recordTerminalInputHistory s))]"
  "js_get (settings_value s) (js ''security'') = security_value (st_security s)"
  "js_get (settings_value s) (js ''shortcuts'') = JObject [(js ''bindings'', bindings_value (st_bindings s))]"
  "js_get (settings_value s) (js ''appearance'') = appearance_value (st_appearance s)"
  "js_get (settings_value s) (js ''terminalTheme'') = JObject [(js ''scheme'', JString (st_scheme s))]"
  by (simp_all add: settings_value_def)

lemma spread_record: "record_or_empty (js_spread v u) = js_spread v u"
  by simp

text \<open>A change of one part: that part is normalised with the change in it, the others are tidied.\<close>

lemma update_parts:
  assumes "settings_ok s"
  shows "updateAi u s = (tidy_settings s)\<lparr>st_ai := normalize_ai (js_spread (ai_value (st_ai s)) u)\<rparr>"
    "updateBasic u s = (tidy_settings s)\<lparr>st_basic := normalize_basic (js_spread (basic_value (st_basic s)) u)\<rparr>"
    "updateAppearance u s = (tidy_settings s)\<lparr>st_appearance := normalize_appearance (js_spread (appearance_value (st_appearance s)) u)\<rparr>"
    "updateSecurity u s = (tidy_settings s)\<lparr>st_security := normalize_security (js_spread (security_value (st_security s)) u)\<rparr>"
    "updateFileTransfer u s = (tidy_settings s)\<lparr>st_fileTransfer := normalize_file_transfer (js_spread (file_transfer_value (st_fileTransfer s)) u)\<rparr>"
    "updateLocalTerminal u s = (tidy_settings s)\<lparr>st_localTerminal := normalize_local_terminal (js_spread (local_terminal_value (st_localTerminal s)) u)\<rparr>"
    "updateCommand u s = (tidy_settings s)\<lparr>st_recordTerminalInputHistory := normalizeBoolean (js_get (js_spread (JObject
        [(js ''recordTerminalInputHistory'', JBool (st_recordTerminalInputHistory s))]) u) (js ''recordTerminalInputHistory'')) False\<rparr>"
    "updateShortcuts u s = (tidy_settings s)\<lparr>st_bindings := normalizeShortcutBindings (js_get (js_spread (JObject
        [(js ''bindings'', bindings_value (st_bindings s))]) u) (js ''bindings'')) defaultShortcutBindings\<rparr>"
    "updateTerminalTheme u s = (tidy_settings s)\<lparr>st_scheme := normalize_scheme (js_get (js_spread (JObject
        [(js ''scheme'', JString (st_scheme s))]) u) (js ''scheme''))\<rparr>"
  using parts_kept [OF assms]
  by (simp_all add: updateAi_def updateBasic_def updateAppearance_def updateSecurity_def updateFileTransfer_def updateLocalTerminal_def
      updateCommand_def updateShortcuts_def updateTerminalTheme_def update_section_def normalizeSettings_def Let_def get_spread
      spread_record tidy_settings_def)

section \<open>The settings of a session\<close>

text \<open>The program reads what is stored, whatever it holds, changes parts, whatever the changes hold, and may go back to the
  defaults.\<close>

inductive settings_reach :: "(jsstr \<Rightarrow> json option) \<Rightarrow> mxterm_settings \<Rightarrow> bool" for parse where
  reach_read: "settings_reach parse (readStartupSettings parse stored)"
| reach_update: "settings_reach parse s \<Longrightarrow> update \<in> {updateAi, updateBasic, updateAppearance, updateSecurity, updateShortcuts,
    updateTerminalTheme, updateFileTransfer, updateCommand, updateLocalTerminal} \<Longrightarrow> settings_reach parse (update u s)"
| reach_reset: "settings_reach parse s \<Longrightarrow> settings_reach parse defaultSettings"

lemma normalize_none: "normalizeSettings JNull = defaultSettings"
proof -
  have "normalizeShortcutBindings JUndefined defaultShortcutBindings = defaultShortcutBindings"
  proof -
    have "map_of defaultShortcutBindings (sa_id a) = Some (sa_defaultBinding a)" if "a \<in> set shortcutActions" for a
      using that action_ids unfolding defaultShortcutBindings_def by (intro map_of_is_SomeI) (auto simp: comp_def)
    then show ?thesis
      by (auto simp: normalizeShortcutBindings_def is_record_def normalized_entry_def defaultShortcutBindings_def [symmetric]
          split: option.split) (auto simp: defaultShortcutBindings_def split: option.split)
  qed
  then show ?thesis
    by (simp add: normalizeSettings_def record_or_empty_def is_record_def js_get_def normalize_ai_def normalize_basic_def
        normalize_file_transfer_def normalize_local_terminal_def normalize_security_def normalize_appearance_def
        normalizeBoolean_def normalizeOneOf_def normalizeNumber_def normalizePathInput_def normalizeOptionalString_def
        normalizeStringArray_def normalizeLocalTerminalProfiles_def normalizeHexColor_def normalizeFontFamilyInput_def
        normalize_scheme_def defaultSettings_def)
qed

lemma default_ok: "settings_ok defaultSettings"
  using settings_in [of JNull] by (simp add: normalize_none)

lemma updated_ok: "settings_ok (update_section name u s)"
  by (simp add: update_section_def settings_in)

lemma reach_ok: "settings_reach parse s \<Longrightarrow> settings_ok s"
proof (induction rule: settings_reach.induct)
  case (reach_read stored)
  show ?case by (simp add: readStartupSettings_def settings_in default_ok split: option.split)
next
  case (reach_update s update u)
  then show ?case
    by (auto simp: updateAi_def updateBasic_def updateAppearance_def updateSecurity_def updateFileTransfer_def
        updateLocalTerminal_def updateCommand_def updateShortcuts_def updateTerminalTheme_def updated_ok)
qed (rule default_ok)

lemma default_trimmed: "trimmed default_terminal_font" "trimmed default_ui_font"
  unfolding trimmed_def by (rule js_trim_id, simp add: default_terminal_font_def default_ui_font_def js_def is_ws_def)+

lemma tidy_font_again [simp]: "tidy_font default_terminal_font (tidy_font default_terminal_font s) = tidy_font default_terminal_font s"
  "tidy_font default_ui_font (tidy_font default_ui_font s) = tidy_font default_ui_font s"
proof -
  note default_trimmed [unfolded trimmed_def]
  then show "tidy_font default_terminal_font (tidy_font default_terminal_font s) = tidy_font default_terminal_font s"
    "tidy_font default_ui_font (tidy_font default_ui_font s) = tidy_font default_ui_font s"
    by (simp_all add: tidy_font_def)
qed

lemma tidy_font_same: "font_ok s \<Longrightarrow> d \<noteq> [] \<Longrightarrow> trimmed d \<Longrightarrow> tidy_font d s = s \<longleftrightarrow> trimmed s"
  by (auto simp: tidy_font_def trimmed_def font_ok_def)

lemma tidy_font_trimmed: "trimmed d \<Longrightarrow> trimmed (tidy_font d s)"
  by (simp add: tidy_font_def trimmed_def)

lemma tidy_again [simp]: "tidy_settings (tidy_settings s) = tidy_settings s"
  by (simp add: tidy_settings_def tidy_appearance_def tidy_file_transfer_def)

lemma tidy_same:
  assumes "settings_ok s"
  shows "tidy_settings s = s \<longleftrightarrow> trimmed (ap_terminalFontCustom (st_appearance s)) \<and> trimmed (ap_uiFontCustom (st_appearance s))
     \<and> trimmed (fs_downloadRoot (st_fileTransfer s))"
proof -
  let ?a = "st_appearance s" and ?f = "st_fileTransfer s"
  have "tidy_settings s = s \<longleftrightarrow> tidy_appearance ?a = ?a \<and> tidy_file_transfer ?f = ?f"
    by (cases s) (simp add: tidy_settings_def)
  moreover have "tidy_appearance ?a = ?a \<longleftrightarrow> tidy_font default_terminal_font (ap_terminalFontCustom ?a) = ap_terminalFontCustom ?a
      \<and> tidy_font default_ui_font (ap_uiFontCustom ?a) = ap_uiFontCustom ?a"
    by (cases ?a) (simp add: tidy_appearance_def)
  moreover have "tidy_file_transfer ?f = ?f \<longleftrightarrow> trimmed (fs_downloadRoot ?f)"
    by (cases ?f) (simp add: tidy_file_transfer_def trimmed_def)
  moreover have "tidy_font d x = x \<longleftrightarrow> trimmed x" if "font_ok x" "d = default_terminal_font \<or> d = default_ui_font" for d x
  proof (rule tidy_font_same [OF that(1)])
    show "d \<noteq> []" using that(2) by (auto simp: default_terminal_font_def default_ui_font_def)
    show "trimmed d" using that(2) default_trimmed by auto
  qed
  ultimately show ?thesis using assms by (simp add: settings_ok_def appearance_ok_def)
qed

text \<open>The tidied settings written out, and what a change without any member does.\<close>

lemma tidy_written:
  "tidy_settings s = s\<lparr>st_appearance := (st_appearance s)\<lparr>
      ap_terminalFontCustom := tidy_font default_terminal_font (ap_terminalFontCustom (st_appearance s)),
      ap_uiFontCustom := tidy_font default_ui_font (ap_uiFontCustom (st_appearance s))\<rparr>,
    st_fileTransfer := (st_fileTransfer s)\<lparr>fs_downloadRoot := js_trim (fs_downloadRoot (st_fileTransfer s))\<rparr>\<rparr>"
  by (simp add: tidy_settings_def tidy_appearance_def tidy_file_transfer_def)

lemma spread_none [simp]: "js_spread (JObject kvs) [] = JObject kvs"
  by (simp add: js_spread_def)

lemma empty_changes:
  assumes "settings_ok s"
  shows "\<forall>update\<in>{updateAi, updateBasic, updateAppearance, updateSecurity, updateShortcuts,
    updateTerminalTheme, updateFileTransfer, updateCommand, updateLocalTerminal}. update [] s = tidy_settings s"
proof -
  have "js_spread (ai_value a) [] = ai_value a" "js_spread (basic_value b) [] = basic_value b"
    "js_spread (file_transfer_value f) [] = file_transfer_value f" "js_spread (security_value c) [] = security_value c"
    "js_spread (local_terminal_value l) [] = local_terminal_value l" "js_spread (appearance_value p) [] = appearance_value p"
    for a b c f l p
    by (simp_all add: ai_value_def basic_value_def file_transfer_value_def security_value_def local_terminal_value_def
        appearance_value_def)
  then show ?thesis
    using update_parts [OF assms, of "[]"] parts_kept [OF assms] by (simp add: tidy_settings_def)
qed

section \<open>The colours of the accent\<close>

definition upper_digit :: "nat \<Rightarrow> nat" where
  "upper_digit d = (if d < 10 then 48 + d else 55 + d)"

lemma upper_digit_hex: "d < 16 \<Longrightarrow> upper_unit (hex_unit d) = [upper_digit d]"
  by (auto simp: upper_unit_def hex_unit_def upper_digit_def)

lemma upper_digit_value: "d < 16 \<Longrightarrow> hex_unit_value (upper_digit d) = d"
  by (simp add: hex_unit_value_def upper_digit_def)

lemma upper_digit_ok: "d < 16 \<Longrightarrow> is_hex_unit (upper_digit d) \<and> upper_digit d < 97"
  by (simp add: is_hex_unit_def upper_digit_def)

lemma channel_text:
  assumes "n < 256" shows "js_upper (pad_start 2 48 (hex_digits n)) = [upper_digit (n div 16), upper_digit (n mod 16)]"
proof -
  have "n div 16 < 16" using assms by simp
  moreover have "hex_digits m = [hex_unit m]" if "m < 16" for m using that by (subst hex_digits.simps) simp
  moreover have "hex_digits n = (if n < 16 then [hex_unit n] else [hex_unit (n div 16), hex_unit (n mod 16)])"
    using calculation by (subst hex_digits.simps) simp
  moreover have "upper_unit 48 = [upper_digit 0]" by (simp add: upper_unit_def upper_digit_def)
  ultimately show ?thesis
    by (auto simp: js_upper_def pad_start_def upper_digit_hex)
qed

lemma mix_bounds:
  assumes "c \<le> 255" shows "c \<le> mix_channel c \<and> mix_channel c \<le> 255"
proof -
  let ?x = "of_nat c + (255 - of_nat c) * (24 / 100) + (1 / 2 :: rat)"
  have c: "(of_nat c :: rat) \<le> 255" using assms by (metis of_nat_le_iff of_nat_numeral)
  have "?x = of_nat c * (19 / 25) + 617 / 10" by (simp add: field_simps)
  with c have "of_nat c \<le> ?x" "?x < 256" by linarith+
  then have "int c \<le> \<lfloor>?x\<rfloor>" "\<lfloor>?x\<rfloor> < 256" by (simp_all only: le_floor_iff floor_less_iff of_int_of_nat_eq of_int_numeral)
  then have "int c \<le> int (mix_channel c)" "int (mix_channel c) < 256" unfolding mix_channel_def by linarith+
  then show ?thesis by simp
qed

definition colour_channels :: "jsstr \<Rightarrow> nat list" where
  "colour_channels s = map (\<lambda>(a, b). hex_value (js_slice s a b)) [(1, 3), (3, 5), (5, 7)]"

lemma channels_of: "colour_channels [p, a, b, c, d, e, f] = [hex_value [a, b], hex_value [c, d], hex_value [e, f]]"
  by (simp add: colour_channels_def js_slice_def numeral_eq_Suc)

lemma full_digits:
  assumes "full_colour s"
  obtains a b c d e f where "s = [35, a, b, c, d, e, f]" "list_all (\<lambda>u. is_hex_unit u \<and> u < 97) [a, b, c, d, e, f]"
proof -
  obtain ds where ds: "s = 35 # ds" "length ds = 6" "list_all (\<lambda>u. is_hex_unit u \<and> u < 97) ds"
    using assms by (auto simp: full_colour_def hex_colour_def list_all_iff split: list.splits)
  then obtain a b c d e f where "ds = [a, b, c, d, e, f]" by (auto simp: length_Suc_conv numeral_eq_Suc)
  then show thesis using that ds by blast
qed

lemma two_digits: "is_hex_unit a \<Longrightarrow> a < 97 \<Longrightarrow> is_hex_unit b \<Longrightarrow> b < 97 \<Longrightarrow> hex_value [a, b] \<le> 255"
  by (auto simp: hex_value_def hex_unit_value_def is_hex_unit_def)

lemma channels_low:
  assumes "full_colour s" shows "\<forall>c\<in>set (colour_channels s). c \<le> 255" "length (colour_channels s) = 3"
proof -
  obtain a b c d e f where s: "s = [35, a, b, c, d, e, f]" "list_all (\<lambda>u. is_hex_unit u \<and> u < 97) [a, b, c, d, e, f]"
    using full_digits [OF assms] .
  then show "\<forall>c\<in>set (colour_channels s). c \<le> 255" by (simp add: channels_of two_digits)
qed (simp add: colour_channels_def)

lemma pair_value: "n < 256 \<Longrightarrow> hex_value [upper_digit (n div 16), upper_digit (n mod 16)] = n"
proof -
  assume "n < 256"
  then have "n div 16 < 16" by simp
  then show ?thesis by (simp add: hex_value_def upper_digit_value)
qed

lemma mixed_text:
  assumes "list_all (\<lambda>n. n < 256) [r, g, b]"
  shows "full_colour (35 # concat (map (\<lambda>n. js_upper (pad_start 2 48 (hex_digits n))) [r, g, b]))"
    "colour_channels (35 # concat (map (\<lambda>n. js_upper (pad_start 2 48 (hex_digits n))) [r, g, b])) = [r, g, b]"
proof -
  have t: "concat (map (\<lambda>n. js_upper (pad_start 2 48 (hex_digits n))) [r, g, b])
      = [upper_digit (r div 16), upper_digit (r mod 16), upper_digit (g div 16), upper_digit (g mod 16),
         upper_digit (b div 16), upper_digit (b mod 16)]"
    using assms by (simp add: channel_text)
  have d: "r div 16 < 16" "g div 16 < 16" "b div 16 < 16" using assms by auto
  show "full_colour (35 # concat (map (\<lambda>n. js_upper (pad_start 2 48 (hex_digits n))) [r, g, b]))"
    unfolding t using d upper_digit_ok by (simp add: full_colour_def hex_colour_def)
  show "colour_channels (35 # concat (map (\<lambda>n. js_upper (pad_start 2 48 (hex_digits n))) [r, g, b])) = [r, g, b]"
    unfolding t channels_of using assms by (simp add: pair_value)
qed

lemma dark_accent:
  assumes "full_colour light"
  shows "full_colour (createDarkAccentColor light)"
    "colour_channels (createDarkAccentColor light) = map mix_channel (colour_channels light)"
proof -
  have dark: "createDarkAccentColor light = 35 # concat (map (\<lambda>n. js_upper (pad_start 2 48 (hex_digits n)))
      [mix_channel (hex_value (js_slice light 1 3)), mix_channel (hex_value (js_slice light 3 5)),
       mix_channel (hex_value (js_slice light 5 7))])"
    using assms by (simp add: createDarkAccentColor_def Let_def)
  have low: "list_all (\<lambda>n. n < 256) [mix_channel (hex_value (js_slice light 1 3)), mix_channel (hex_value (js_slice light 3 5)),
       mix_channel (hex_value (js_slice light 5 7))]"
  proof -
    have "mix_channel c < 256" if "c \<in> set (colour_channels light)" for c
      using mix_bounds [of c] channels_low(1) [OF assms] that by fastforce
    then show ?thesis by (simp add: colour_channels_def)
  qed
  show "full_colour (createDarkAccentColor light)" unfolding dark by (rule mixed_text(1) [OF low])
  show "colour_channels (createDarkAccentColor light) = map mix_channel (colour_channels light)"
    unfolding dark mixed_text(2) [OF low] by (simp add: colour_channels_def)
qed

section \<open>Properties\<close>

text \<open>C17. The settings in use are always valid, whatever was stored and whatever a change held. Stored and read at the next
  start they are the same, unless a font family or the folder for downloads has blanks at its ends, left where
  forbidden characters were taken out: then these are trimmed, an empty font becomes the default one, and from the second
  start on nothing changes.\<close>

theorem settings_survive_restart:
  assumes "settings_reach parse s" "stringify (settings_value s) \<noteq> []" "stringify (settings_value (tidy_settings s)) \<noteq> []"
    "parse (stringify (settings_value s)) = Some (settings_value s)"
    "parse (stringify (settings_value (tidy_settings s))) = Some (settings_value (tidy_settings s))"
  shows "settings_ok s \<and>
    (let next = readStartupSettings parse (Some (stringify (settings_value s)))
     in settings_ok next
        \<and> (next = s \<longleftrightarrow> trimmed (ap_terminalFontCustom (st_appearance s)) \<and> trimmed (ap_uiFontCustom (st_appearance s))
             \<and> trimmed (fs_downloadRoot (st_fileTransfer s)))
        \<and> next = s\<lparr>st_appearance := (st_appearance s)\<lparr>
              ap_terminalFontCustom := tidy_font default_terminal_font (ap_terminalFontCustom (st_appearance s)),
              ap_uiFontCustom := tidy_font default_ui_font (ap_uiFontCustom (st_appearance s))\<rparr>,
            st_fileTransfer := (st_fileTransfer s)\<lparr>fs_downloadRoot := js_trim (fs_downloadRoot (st_fileTransfer s))\<rparr>\<rparr>
        \<and> readStartupSettings parse (Some (stringify (settings_value next))) = next)"
proof -
  have ok: "settings_ok s" using reach_ok [OF assms(1)] .
  have next_settings: "readStartupSettings parse (Some (stringify (settings_value s))) = tidy_settings s"
    using assms(2,4) by (simp add: readStartupSettings_def opt_str_or_def str_or_def normalize_again [OF ok])
  have "settings_ok (tidy_settings s)" using settings_in normalize_again [OF ok] by metis
  moreover from normalize_again [OF this]
  have "readStartupSettings parse (Some (stringify (settings_value (tidy_settings s)))) = tidy_settings s"
    using assms(3,5) by (simp add: readStartupSettings_def opt_str_or_def str_or_def)
  ultimately show ?thesis
    using ok tidy_same [OF ok]
    by (simp add: next_settings Let_def) (simp add: tidy_settings_def tidy_appearance_def tidy_file_transfer_def)
qed

lemma settings_survive_restart_witness:
  "readStartupSettings (\<lambda>t. if t = [1] then Some (settings_value defaultSettings) else None) (Some [1]) = defaultSettings"
proof -
  let ?parse = "\<lambda>t. if t = [1 :: nat] then Some (settings_value defaultSettings) else None"
  have reach: "settings_reach ?parse defaultSettings" using reach_reset [OF reach_read] .
  have "trimmed (ap_terminalFontCustom (st_appearance defaultSettings)) \<and> trimmed (ap_uiFontCustom (st_appearance defaultSettings))
      \<and> trimmed (fs_downloadRoot (st_fileTransfer defaultSettings))"
    by (simp add: defaultSettings_def default_trimmed)
  moreover from this have "tidy_settings defaultSettings = defaultSettings" using tidy_same [OF default_ok] by blast
  ultimately show ?thesis
    using settings_survive_restart [OF reach, of "\<lambda>_. [1]"] by (simp add: Let_def)
qed

text \<open>C28. A change of one part of the settings replaces that part by what the change makes of it, normalised, and leaves every
  other part as it is but for one thing, which every change does: blanks at the ends of the two typed font families and of
  the folder for downloads are taken off, and a font family that is empty without them becomes the default one. So the
  other parts are exactly as before if, and only if, there are no such blanks. A change that holds nothing does only this.\<close>

theorem settings_update_isolated:
  assumes "settings_reach parse s"
  shows "(let t = s\<lparr>st_appearance := (st_appearance s)\<lparr>
              ap_terminalFontCustom := tidy_font default_terminal_font (ap_terminalFontCustom (st_appearance s)),
              ap_uiFontCustom := tidy_font default_ui_font (ap_uiFontCustom (st_appearance s))\<rparr>,
            st_fileTransfer := (st_fileTransfer s)\<lparr>fs_downloadRoot := js_trim (fs_downloadRoot (st_fileTransfer s))\<rparr>\<rparr>
    in updateAi u s = t\<lparr>st_ai := normalize_ai (js_spread (ai_value (st_ai s)) u)\<rparr>
    \<and> updateBasic u s = t\<lparr>st_basic := normalize_basic (js_spread (basic_value (st_basic s)) u)\<rparr>
    \<and> updateAppearance u s = t\<lparr>st_appearance := normalize_appearance (js_spread (appearance_value (st_appearance s)) u)\<rparr>
    \<and> updateSecurity u s = t\<lparr>st_security := normalize_security (js_spread (security_value (st_security s)) u)\<rparr>
    \<and> updateFileTransfer u s = t\<lparr>st_fileTransfer := normalize_file_transfer (js_spread (file_transfer_value (st_fileTransfer s)) u)\<rparr>
    \<and> updateLocalTerminal u s = t\<lparr>st_localTerminal := normalize_local_terminal (js_spread (local_terminal_value (st_localTerminal s)) u)\<rparr>
    \<and> updateCommand u s = t\<lparr>st_recordTerminalInputHistory := normalizeBoolean (js_get (js_spread (JObject
        [(js ''recordTerminalInputHistory'', JBool (st_recordTerminalInputHistory s))]) u) (js ''recordTerminalInputHistory'')) False\<rparr>
    \<and> updateShortcuts u s = t\<lparr>st_bindings := normalizeShortcutBindings (js_get (js_spread (JObject
        [(js ''bindings'', bindings_value (st_bindings s))]) u) (js ''bindings'')) defaultShortcutBindings\<rparr>
    \<and> updateTerminalTheme u s = t\<lparr>st_scheme := normalize_scheme (js_get (js_spread (JObject
        [(js ''scheme'', JString (st_scheme s))]) u) (js ''scheme''))\<rparr>
    \<and> (t = s \<longleftrightarrow> trimmed (ap_terminalFontCustom (st_appearance s)) \<and> trimmed (ap_uiFontCustom (st_appearance s))
         \<and> trimmed (fs_downloadRoot (st_fileTransfer s)))
    \<and> (\<forall>update\<in>{updateAi, updateBasic, updateAppearance, updateSecurity, updateShortcuts,
         updateTerminalTheme, updateFileTransfer, updateCommand, updateLocalTerminal}. update [] s = t))"
proof -
  have ok: "settings_ok s" using reach_ok [OF assms] .
  show ?thesis
    unfolding tidy_written [symmetric] Let_def
    using update_parts [OF ok, of u] tidy_same [OF ok] empty_changes [OF ok] by (intro conjI) assumption+
qed

lemma settings_update_isolated_witness:
  "updateAi [(js ''runningSendBehavior'', JString (js ''immediate''))] defaultSettings
     = defaultSettings\<lparr>st_ai := \<lparr>ai_runningSendBehavior = js ''immediate''\<rparr>\<rparr>"
proof -
  have reach: "settings_reach (\<lambda>_. None) defaultSettings" by (rule reach_reset [OF reach_read])
  have "trimmed (ap_terminalFontCustom (st_appearance defaultSettings)) \<and> trimmed (ap_uiFontCustom (st_appearance defaultSettings))
      \<and> trimmed (fs_downloadRoot (st_fileTransfer defaultSettings))"
    by (simp add: defaultSettings_def default_trimmed)
  then have "tidy_settings defaultSettings = defaultSettings" using tidy_same [OF default_ok] by blast
  with settings_update_isolated [OF reach, folded tidy_written]
  have "updateAi u defaultSettings = defaultSettings\<lparr>st_ai := normalize_ai (js_spread (ai_value (st_ai defaultSettings)) u)\<rparr>" for u
    unfolding Let_def by metis
  then show ?thesis by (simp add: js_spread_def ai_value_def normalize_ai_def normalizeOneOf_def)
qed

definition accent_ok :: "accent_pair \<Rightarrow> bool" where
  "accent_ok accent \<longleftrightarrow> full_colour (ac_light accent) \<and> full_colour (ac_dark accent)
     \<and> list_all2 (\<le>) (colour_channels (ac_light accent)) (colour_channels (ac_dark accent))"

lemma mixed_accent: "full_colour light \<Longrightarrow> accent_ok \<lparr>ac_light = light, ac_dark = createDarkAccentColor light\<rparr>"
  using dark_accent [of light] channels_low(1) [of light] mix_bounds
  by (simp add: accent_ok_def list_all2_map2 list.rel_refl_strong)

lemma preset_accents: "list_all (\<lambda>(name, accent). accent_ok accent) (accentColorPresets @ legacyAccentColors)"
  by (simp add: accentColorPresets_def legacyAccentColors_def accent_ok_def full_colour_def hex_colour_def js_def channels_of
      is_hex_unit_def hex_value_def hex_unit_value_def)

lemma resolved_accent: "full_colour (ap_accentColorCustom a) \<Longrightarrow> accent_ok (resolveAccentColors a)"
  using preset_accents mixed_accent default_colour
  by (auto simp: resolveAccentColors_def Let_def list_all_iff dest: map_of_SomeD split: option.split)

text \<open>C40. The colours of the accent are always six upper case hexadecimal digits after a number sign, and the one for the
  dark theme is in no channel darker than the one for the light theme.\<close>

theorem accent_lighter_in_the_dark:
  assumes "settings_reach parse s"
  shows "(let accent = resolveAccentColors (st_appearance s)
    in full_colour (ac_light accent) \<and> full_colour (ac_dark accent)
       \<and> list_all2 (\<le>) (colour_channels (ac_light accent)) (colour_channels (ac_dark accent)))"
proof -
  have "accent_ok (resolveAccentColors (st_appearance s))"
    using reach_ok [OF assms] by (intro resolved_accent) (simp add: settings_ok_def appearance_ok_def)
  then show ?thesis by (simp add: accent_ok_def Let_def)
qed

lemma accent_lighter_in_the_dark_witness:
  "full_colour (ac_dark (resolveAccentColors (st_appearance (updateAppearance
     [(js ''accentColor'', JString (js ''custom'')), (js ''accentColorCustom'', JString (js '' #abc''))] defaultSettings))))"
proof -
  let ?u = "[(js ''accentColor'', JString (js ''custom'')), (js ''accentColorCustom'', JString (js '' #abc''))]"
  have "settings_reach (\<lambda>_. None) defaultSettings" by (rule reach_reset [OF reach_read])
  then have "settings_reach (\<lambda>_. None) (updateAppearance ?u defaultSettings)" by (rule reach_update) simp
  from accent_lighter_in_the_dark [OF this] show ?thesis by (simp add: Let_def)
qed

end
