(* ===== verification/Window_Material.thy ===== *)
theory Window_Material
  imports Settings_Laws Js_Pattern
begin

text \<open>
  The material of the window, from what the platform supports: \<open>src/shared/tauri/windowMaterial.ts\<close> and
  \<open>platformCapabilities.ts\<close>, and what \<open>applyStartupTheme\<close> of \<open>src/features/settings/startupSettings.ts\<close> writes
  to the page.
\<close>

datatype desktop_platform = PlatformMacos | PlatformWindows | PlatformLinux | PlatformUnknown

text \<open>The texts are the platform and the user agent the browser reports; where there is no browser the platform is unknown.\<close>

definition resolveDesktopPlatform :: "jsstr option list \<Rightarrow> desktop_platform" where
  "resolveDesktopPlatform texts =
     (let platformText = ascii_lower (js_join (js '' '') (List.map_filter opt_truthy texts))
      in if sublist (js ''mac'') platformText then PlatformMacos
         else if sublist (js ''win'') platformText then PlatformWindows
         else if sublist (js ''linux'') platformText \<or> sublist (js ''x11'') platformText then PlatformLinux
         else PlatformUnknown)"

definition getPlatformWindowMaterials :: "desktop_platform \<Rightarrow> jsstr list" where
  "getPlatformWindowMaterials platform =
     (if platform = PlatformWindows then [js ''auto'', js ''mica'', js ''acrylic'', js ''micaAlt'']
      else if platform = PlatformMacos then [js ''auto'', js ''macosGlass'']
      else [js ''auto''])"

record platform_capabilities =
  pc_platform :: desktop_platform
  pc_supportsExternalRdp :: bool
  pc_supportsEmbeddedRdp :: bool
  pc_supportsMacosGlass :: bool
  pc_supportsWindowMaterials :: bool
  pc_supportsWindowsPty :: bool
  pc_windowMaterials :: "jsstr list"

definition getPlatformCapabilities :: "desktop_platform \<Rightarrow> platform_capabilities" where
  "getPlatformCapabilities platform =
     \<lparr>pc_platform = platform, pc_supportsExternalRdp = (platform \<in> {PlatformWindows, PlatformMacos, PlatformLinux}),
      pc_supportsEmbeddedRdp = (platform = PlatformWindows), pc_supportsMacosGlass = (platform = PlatformMacos),
      pc_supportsWindowMaterials = (1 < length (getPlatformWindowMaterials platform)),
      pc_supportsWindowsPty = (platform = PlatformWindows), pc_windowMaterials = getPlatformWindowMaterials platform\<rparr>"

definition normalizeWindowMaterial :: "jsstr \<Rightarrow> jsstr list \<Rightarrow> jsstr" where
  "normalizeWindowMaterial material supported =
     (if material \<in> set supported then material else case supported of m # _ \<Rightarrow> m | [] \<Rightarrow> js ''auto'')"

definition windowMaterialById :: "(nat \<times> jsstr) list" where
  "windowMaterialById = [(0, js ''auto''), (2, js ''mica''), (3, js ''acrylic''), (4, js ''micaAlt''), (10, js ''macosGlass'')]"

definition normalizeNativeWindowMaterials :: "nat list \<Rightarrow> jsstr list" where
  "normalizeNativeWindowMaterials ids = List.map_filter (map_of windowMaterialById) ids"

text \<open>\<open>answer\<close> is the list of the backend: \<open>None\<close> without a backend or where its call fails.\<close>

definition getSupportedWindowMaterials :: "desktop_platform \<Rightarrow> nat list option \<Rightarrow> jsstr list" where
  "getSupportedWindowMaterials platform answer =
     (let fallback = pc_windowMaterials (getPlatformCapabilities platform)
      in case answer of
           None \<Rightarrow> fallback
         | Some ids \<Rightarrow>
             (let normalized = filter (\<lambda>m. m \<in> set fallback) (normalizeNativeWindowMaterials ids)
              in if 0 < length normalized then normalized else fallback))"

record startup_theme =
  su_themeMode :: jsstr
  su_windowMaterial :: jsstr
  su_density :: jsstr
  su_platform :: desktop_platform
  su_style :: "(jsstr \<times> jsstr) list"

definition applyStartupTheme :: "(jsstr \<Rightarrow> jsstr) \<Rightarrow> desktop_platform \<Rightarrow> mxterm_settings \<Rightarrow> startup_theme" where
  "applyStartupTheme background platform s =
     \<lparr>su_themeMode = ap_themeMode (st_appearance s),
      su_windowMaterial = normalizeWindowMaterial (ap_windowMaterial (st_appearance s)) (getPlatformWindowMaterials platform),
      su_density = ap_density (st_appearance s), su_platform = platform, su_style = resolveSettingsStyle background s\<rparr>"

lemma supported_materials:
  "set (getSupportedWindowMaterials platform answer) \<subseteq> set (getPlatformWindowMaterials platform)"
  "getSupportedWindowMaterials platform answer \<noteq> []"
  by (auto simp: getSupportedWindowMaterials_def Let_def getPlatformCapabilities_def getPlatformWindowMaterials_def split: option.split)

lemma material_supported: "supported \<noteq> [] \<Longrightarrow> normalizeWindowMaterial material supported \<in> set supported"
  by (simp add: normalizeWindowMaterial_def split: list.split)

text \<open>The window never asks for a material its platform does not have.\<close>

lemma window_material_supported:
  "normalizeWindowMaterial material (getSupportedWindowMaterials platform answer) \<in> set (getPlatformWindowMaterials platform)"
  "su_windowMaterial (applyStartupTheme background platform s) \<in> set (getPlatformWindowMaterials platform)"
  using material_supported [OF supported_materials(2)] supported_materials(1)
  by (blast, simp add: applyStartupTheme_def material_supported getPlatformWindowMaterials_def)

end
