(* ===== verification/Terminal_Osc7.thy ===== *)
theory Terminal_Osc7
  imports Js_Base
begin

text \<open>
  Directories a shell announces with the escape sequence OSC 7: \<open>src/features/terminal/osc7.ts\<close>.
  The loop over the input is a recursion on the text after the cursor, since \<open>indexOf\<close> does not
  look back; -1 is \<^term>\<open>None\<close>. \<open>decodeURIComponent\<close> is that of the language.
\<close>

section \<open>decodeURIComponent\<close>

definition hex_digit :: "nat \<Rightarrow> nat option" where
  "hex_digit c =
     (if 48 \<le> c \<and> c \<le> 57 then Some (c - 48)
      else if 65 \<le> c \<and> c \<le> 70 then Some (c - 55)
      else if 97 \<le> c \<and> c \<le> 102 then Some (c - 87)
      else None)"

text \<open>The bytes of the escapes \<open>%XX\<close> the text begins with, at most \<open>n\<close> of them, and the rest.\<close>

fun escaped_bytes :: "nat \<Rightarrow> jsstr \<Rightarrow> (nat list \<times> jsstr) option" where
  "escaped_bytes 0 s = Some ([], s)"
| "escaped_bytes (Suc n) (p # a # b # s) =
     (if p \<noteq> 37 then None
      else case (hex_digit a, hex_digit b) of
             (Some x, Some y) \<Rightarrow> map_option (\<lambda>(bs, r). ((16 * x + y) # bs, r)) (escaped_bytes n s)
           | _ \<Rightarrow> None)"
| "escaped_bytes (Suc n) _ = None"

text \<open>The number of bytes a UTF-8 sequence has after its first byte.\<close>

definition utf8_extra :: "nat \<Rightarrow> nat option" where
  "utf8_extra b =
     (if b < 128 then Some 0 else if 192 \<le> b \<and> b < 224 then Some 1
      else if 224 \<le> b \<and> b < 240 then Some 2 else if 240 \<le> b \<and> b < 248 then Some 3 else None)"

definition utf8_value :: "nat \<Rightarrow> nat list \<Rightarrow> nat option" where
  "utf8_value b extra =
     (let lead = (case length extra of 0 \<Rightarrow> b | Suc 0 \<Rightarrow> b - 192 | Suc (Suc 0) \<Rightarrow> b - 224 | _ \<Rightarrow> b - 240);
          least = (case length extra of 0 \<Rightarrow> 0 | Suc 0 \<Rightarrow> 128 | Suc (Suc 0) \<Rightarrow> 2048 | _ \<Rightarrow> 65536);
          v = foldl (\<lambda>n c. 64 * n + (c - 128)) lead extra
      in if list_all (\<lambda>c. 128 \<le> c \<and> c < 192) extra \<and> least \<le> v \<and> v \<le> 1114111
            \<and> \<not> (55296 \<le> v \<and> v \<le> 57343)
         then Some v else None)"

definition utf16_units :: "nat \<Rightarrow> jsstr" where
  "utf16_units v =
     (if v < 65536 then [v] else [55296 + (v - 65536) div 1024, 56320 + (v - 65536) mod 1024])"

lemma escaped_bytes_length: "escaped_bytes n s = Some (bs, r) \<Longrightarrow> length r \<le> length s"
  by (induction n s arbitrary: bs rule: escaped_bytes.induct)
    (fastforce split: if_splits option.splits)+

text \<open>The code units of the escaped character the text begins with, and the rest.\<close>

definition decode_escape :: "jsstr \<Rightarrow> (jsstr \<times> jsstr) option" where
  "decode_escape s =
     (case escaped_bytes 1 s of
        None \<Rightarrow> None
      | Some (bs, r) \<Rightarrow>
          (case utf8_extra (hd bs) of
             None \<Rightarrow> None
           | Some n \<Rightarrow>
               (case escaped_bytes n r of
                  None \<Rightarrow> None
                | Some (extra, r') \<Rightarrow>
                    map_option (\<lambda>v. (utf16_units v, r')) (utf8_value (hd bs) extra))))"

lemma escaped_one: "escaped_bytes 1 s = Some (bs, r) \<Longrightarrow> length r < length s"
  by (cases "(1 :: nat, s)" rule: escaped_bytes.cases) (auto split: if_splits option.splits)

lemma decode_escape_length: "decode_escape s = Some (u, r) \<Longrightarrow> length r < length s"
  unfolding decode_escape_def
  by (auto split: option.splits prod.splits) (metis One_nat_def escaped_one escaped_bytes_length le_less_trans)

function decodeURIComponent :: "jsstr \<Rightarrow> jsstr option" where
  "decodeURIComponent [] = Some []"
| "decodeURIComponent (c # s) =
     (if c \<noteq> 37 then map_option ((#) c) (decodeURIComponent s)
      else case decode_escape (c # s) of
             None \<Rightarrow> None
           | Some (u, r) \<Rightarrow> map_option ((@) u) (decodeURIComponent r))"
  by pat_completeness auto

termination
  by (relation "measure length") (use decode_escape_length in fastforce)+

section \<open>Parsing\<close>

definition osc7Prefix :: jsstr where
  "osc7Prefix = [27, 93, 55, 59]"

definition stTerminator :: jsstr where
  "stTerminator = [27, 92]"

definition maxOscBufferLength :: nat where
  "maxOscBufferLength = 2048"

definition chooseOscEnd :: "nat option \<Rightarrow> nat option \<Rightarrow> nat option" where
  "chooseOscEnd bellEnd stEnd =
     (case (bellEnd, stEnd) of
        (None, e) \<Rightarrow> e
      | (e, None) \<Rightarrow> e
      | (Some b, Some s) \<Rightarrow> Some (min b s))"

definition osc7PayloadToPath :: "jsstr \<Rightarrow> jsstr option" where
  "osc7PayloadToPath payload =
     (let value = js_trim payload
      in if value = [] then None
         else (let path = (if prefix (js ''file://'') value then dropWhile (\<lambda>c. c \<noteq> 47) (drop 7 value) else value)
           in case decodeURIComponent path of Some p \<Rightarrow> Some p | None \<Rightarrow> Some path))"

text \<open>The paths, and the text from an unfinished sequence on.\<close>

function osc7_loop :: "jsstr \<Rightarrow> jsstr list \<times> jsstr" where
  "osc7_loop s =
     (case js_index_of s osc7Prefix 0 of
        None \<Rightarrow> ([], [])
      | Some start \<Rightarrow>
          (let p = drop (start + length osc7Prefix) s;
               bellEnd = js_index_of p [7] 0;
               stEnd = js_index_of p stTerminator 0
           in case chooseOscEnd bellEnd stEnd of
                None \<Rightarrow> ([], drop start s)
              | Some fin \<Rightarrow>
                  (let (paths, buffer) = osc7_loop (drop (fin + (if stEnd = Some fin then length stTerminator else 1)) p)
                   in ((case opt_truthy (osc7PayloadToPath (take fin p)) of Some d \<Rightarrow> [d] | None \<Rightarrow> []) @ paths, buffer))))"
  by pat_completeness auto

termination
proof (relation "measure length")
  fix s :: jsstr and start fin p bellEnd stEnd
  assume i: "js_index_of s osc7Prefix 0 = Some start" and p: "p = drop (start + length osc7Prefix) s"
  from js_index_of_bounds [OF i] have "start + 4 \<le> length s" by (simp add: osc7Prefix_def)
  with p show "(drop (fin + (if stEnd = Some fin then length stTerminator else 1)) p, s) \<in> measure length"
    by (simp add: osc7Prefix_def)
qed simp

declare osc7_loop.simps [simp del]

definition extractOsc7Directories :: "jsstr \<Rightarrow> jsstr list \<times> jsstr" where
  "extractOsc7Directories input =
     (let (paths, buffer) = osc7_loop input
      in (paths, if maxOscBufferLength < length buffer then js_last_n maxOscBufferLength buffer else buffer))"


section \<open>First occurrences\<close>

lemma index_aux_Some_iff:
  "P \<noteq> [] \<Longrightarrow> index_of_aux i P s = Some k \<longleftrightarrow>
     i \<le> k \<and> prefix P (drop (k - i) s) \<and> (\<forall>j<k - i. \<not> prefix P (drop j s))"
proof (induction s arbitrary: i)
  case (Cons c s)
  show ?case
  proof (cases "prefix P (c # s)")
    case True
    then show ?thesis by (cases "k - i") auto
  next
    case False
    consider "k < Suc i" | "k - i = Suc (k - Suc i)" "Suc i \<le> k" by linarith
    then show ?thesis
    proof cases
      case 1
      then show ?thesis using False Cons.IH [OF Cons.prems, of "Suc i"] by (cases "k = i") auto
    next
      case 2
      have "(\<forall>j<Suc (k - Suc i). \<not> prefix P (drop j (c # s))) \<longleftrightarrow> (\<forall>j<k - Suc i. \<not> prefix P (drop j s))"
        using False by (simp add: All_less_Suc2)
      then show ?thesis using 2 False Cons.IH [OF Cons.prems, of "Suc i"] by simp
    qed
  qed
qed auto

lemma index_Some_iff:
  "P \<noteq> [] \<Longrightarrow> js_index_of s P 0 = Some k \<longleftrightarrow> prefix P (drop k s) \<and> (\<forall>j<k. \<not> prefix P (drop j s))"
  by (simp add: js_index_of_def index_aux_Some_iff)

lemma index_None_iff: "P \<noteq> [] \<Longrightarrow> js_index_of s P 0 = None \<longleftrightarrow> (\<forall>j. \<not> prefix P (drop j s))"
proof
  assume P: "P \<noteq> []" and n: "\<forall>j. \<not> prefix P (drop j s)"
  then show "js_index_of s P 0 = None"
    using index_Some_iff [OF P, of s] by (cases "js_index_of s P 0") auto
next
  assume P: "P \<noteq> []" and n: "js_index_of s P 0 = None"
  show "\<forall>j. \<not> prefix P (drop j s)"
  proof (rule ccontr)
    assume "\<not> ?thesis"
    then obtain j where j: "prefix P (drop j s)" by blast
    then have "prefix P (drop (LEAST j. prefix P (drop j s)) s)" by (rule LeastI)
    moreover have "\<forall>i<(LEAST j. prefix P (drop j s)). \<not> prefix P (drop i s)" using not_less_Least by blast
    ultimately have "js_index_of s P 0 = Some (LEAST j. prefix P (drop j s))"
      using index_Some_iff [OF P] by blast
    with n show False by simp
  qed
qed

lemma index_drop:
  assumes "P \<noteq> []" "\<forall>j<k. \<not> prefix P (drop j s)"
  shows "js_index_of s P 0 = map_option ((+) k) (js_index_of (drop k s) P 0)"
proof (cases "js_index_of (drop k s) P 0")
  case None
  have "\<not> prefix P (drop j s)" for j
  proof (cases "j < k")
    case False
    then have "drop j s = drop (j - k) (drop k s)" by simp
    then show ?thesis using None index_None_iff [OF assms(1)] by metis
  qed (use assms in blast)
  then have "js_index_of s P 0 = None" using index_None_iff [OF assms(1), of s] by blast
  then show ?thesis using None by simp
next
  case (Some i)
  then have i: "prefix P (drop (k + i) s)" "\<forall>j<i. \<not> prefix P (drop (k + j) s)"
    using index_Some_iff [OF assms(1)] by (auto simp: add.commute)
  have "\<not> prefix P (drop j s)" if "j < k + i" for j
  proof (cases "j < k")
    case False
    with that have "j - k < i" "k + (j - k) = j" by auto
    then show ?thesis using i(2) by metis
  qed (use assms(2) in blast)
  then show ?thesis using i(1) Some index_Some_iff [OF assms(1), of s "k + i"] by simp
qed

lemma prefix_short: "prefix P (a @ b) \<Longrightarrow> length P \<le> length a \<Longrightarrow> prefix P a"
  by (metis prefix_append prefix_length_le prefix_length_prefix prefixI)

section \<open>Input in pieces\<close>

lemma loop_drop:
  assumes "\<forall>j<k. \<not> prefix osc7Prefix (drop j s)"
  shows "osc7_loop s = osc7_loop (drop k s)"
proof -
  have P: "osc7Prefix \<noteq> []" by (simp add: osc7Prefix_def)
  show ?thesis
  proof (cases "js_index_of (drop k s) osc7Prefix 0")
    case None
    then have "js_index_of s osc7Prefix 0 = None" using index_drop [OF P assms] by simp
    then show ?thesis using None by (simp add: osc7_loop.simps [of s] osc7_loop.simps [of "drop k s"])
  next
    case (Some i)
    then have "js_index_of s osc7Prefix 0 = Some (k + i)" using index_drop [OF P assms] by simp
    then show ?thesis
      using Some by (simp add: osc7_loop.simps [of s] osc7_loop.simps [of "drop k s"] ac_simps cong: option.case_cong)
  qed
qed

text \<open>A terminator stands at the head of the text.\<close>

definition at_end :: "jsstr \<Rightarrow> bool" where
  "at_end s \<longleftrightarrow> prefix [7] s \<or> prefix stTerminator s"

lemma choose_Some_iff:
  "chooseOscEnd (js_index_of p [7] 0) (js_index_of p stTerminator 0) = Some e \<longleftrightarrow>
     at_end (drop e p) \<and> (\<forall>j<e. \<not> at_end (drop j p))"
proof -
  define B where "B = js_index_of p [7] 0"
  define S where "S = js_index_of p stTerminator 0"
  have st: "stTerminator \<noteq> []" by (simp add: stTerminator_def)
  have b: "B = Some k \<longleftrightarrow> prefix [7] (drop k p) \<and> (\<forall>j<k. \<not> prefix [7] (drop j p))" for k
    unfolding B_def by (rule index_Some_iff) simp
  have t: "S = Some k \<longleftrightarrow> prefix stTerminator (drop k p) \<and> (\<forall>j<k. \<not> prefix stTerminator (drop j p))" for k
    unfolding S_def by (rule index_Some_iff [OF st])
  have bn: "B = None \<longleftrightarrow> (\<forall>j. \<not> prefix [7] (drop j p))" unfolding B_def by (rule index_None_iff) simp
  have tn: "S = None \<longleftrightarrow> (\<forall>j. \<not> prefix stTerminator (drop j p))" unfolding S_def by (rule index_None_iff [OF st])
  have "chooseOscEnd B S = Some e \<longleftrightarrow> at_end (drop e p) \<and> (\<forall>j<e. \<not> at_end (drop j p))"
  proof
    assume c: "chooseOscEnd B S = Some e"
    consider "B = None" "S = Some e" | "S = None" "B = Some e"
      | x y where "B = Some x" "S = Some y" "e = min x y"
      using c by (cases B; cases S) (auto simp: chooseOscEnd_def)
    then show "at_end (drop e p) \<and> (\<forall>j<e. \<not> at_end (drop j p))"
    proof cases
      case 1
      then show ?thesis using bn t [of e] by (auto simp: at_end_def)
    next
      case 2
      then show ?thesis using tn b [of e] by (auto simp: at_end_def)
    next
      case (3 x y)
      then show ?thesis using b [of x] t [of y] by (auto simp: at_end_def min_def)
    qed
  next
    assume a: "at_end (drop e p) \<and> (\<forall>j<e. \<not> at_end (drop j p))"
    show "chooseOscEnd B S = Some e"
    proof (cases "prefix [7] (drop e p)")
      case True
      then have B: "B = Some e" using a b [of e] by (auto simp: at_end_def)
      have "e \<le> y" if "S = Some y" for y
        using that a t [of y] by (meson at_end_def not_le)
      then show ?thesis using B by (cases S) (auto simp: chooseOscEnd_def)
    next
      case False
      then have S: "S = Some e" using a t [of e] by (auto simp: at_end_def)
      have "e \<le> y" if "B = Some y" for y
        using that a b [of y] by (meson at_end_def not_le)
      then show ?thesis using S by (cases B) (auto simp: chooseOscEnd_def min_def)
    qed
  qed
  then show ?thesis by (simp add: B_def S_def)
qed

lemma st_at_end:
  assumes "chooseOscEnd (js_index_of p [7] 0) (js_index_of p stTerminator 0) = Some e"
  shows "js_index_of p stTerminator 0 = Some e \<longleftrightarrow> prefix stTerminator (drop e p)"
  using assms index_Some_iff [of stTerminator p e] unfolding choose_Some_iff
  by (auto simp: at_end_def stTerminator_def)

lemma at_end_append: "at_end s \<Longrightarrow> at_end (s @ t)"
  by (auto simp: at_end_def prefix_def)

lemma at_end_long: "2 \<le> length s \<Longrightarrow> at_end (s @ t) \<Longrightarrow> at_end s"
  by (auto simp: at_end_def stTerminator_def dest: prefix_short)

lemma choose_append:
  assumes "chooseOscEnd (js_index_of p [7] 0) (js_index_of p stTerminator 0) = Some e"
  shows "chooseOscEnd (js_index_of (p @ t) [7] 0) (js_index_of (p @ t) stTerminator 0) = Some e"
    and "js_index_of (p @ t) stTerminator 0 = Some e \<longleftrightarrow> js_index_of p stTerminator 0 = Some e"
proof -
  have a: "at_end (drop e p)" "\<forall>j<e. \<not> at_end (drop j p)" using assms unfolding choose_Some_iff by auto
  then have e: "e < length p" by (cases "e < length p") (auto simp: at_end_def stTerminator_def)
  have "\<not> at_end (drop j (p @ t))" if "j < e" for j
  proof -
    have "2 \<le> length (drop j p)" "drop j (p @ t) = drop j p @ t" using that e by auto
    then show ?thesis using a(2) that at_end_long by metis
  qed
  then show c: "chooseOscEnd (js_index_of (p @ t) [7] 0) (js_index_of (p @ t) stTerminator 0) = Some e"
    using a(1) at_end_append e unfolding choose_Some_iff by auto
  have "prefix stTerminator (drop e (p @ t)) \<longleftrightarrow> prefix stTerminator (drop e p)"
  proof (cases "2 \<le> length (drop e p)")
    case True
    then show ?thesis using e by (auto simp: stTerminator_def dest: prefix_short)
  next
    case False
    with a(1) have "prefix [7] (drop e p)"
      by (auto simp: at_end_def stTerminator_def dest: prefix_length_le)
    then show ?thesis using e by (auto simp: stTerminator_def prefix_def)
  qed
  then show "js_index_of (p @ t) stTerminator 0 = Some e \<longleftrightarrow> js_index_of p stTerminator 0 = Some e"
    using st_at_end [OF assms] st_at_end [OF c] by simp
qed

lemma choose_bound:
  assumes "chooseOscEnd (js_index_of p [7] 0) (js_index_of p stTerminator 0) = Some e"
  shows "e + (if js_index_of p stTerminator 0 = Some e then length stTerminator else 1) \<le> length p"
proof -
  have "at_end (drop e p)" using assms unfolding choose_Some_iff by auto
  then have e: "e < length p" by (cases "e < length p") (auto simp: at_end_def stTerminator_def)
  show ?thesis
    using e st_at_end [OF assms] by (auto simp: stTerminator_def dest!: prefix_length_le)
qed

text \<open>The text does not end in an opening that is cut.\<close>

definition no_cut_prefix :: "jsstr \<Rightarrow> bool" where
  "no_cut_prefix s \<longleftrightarrow> (\<forall>j<length s. \<not> strict_prefix (drop j s) osc7Prefix)"

lemma no_prefix_append:
  assumes "\<not> prefix osc7Prefix (drop j s)" "j < length s" "\<not> strict_prefix (drop j s) osc7Prefix"
  shows "\<not> prefix osc7Prefix (drop j (s @ t))"
proof
  assume p: "prefix osc7Prefix (drop j (s @ t))"
  then have p: "prefix osc7Prefix (drop j s @ t)" using assms(2) by simp
  show False
  proof (cases "length osc7Prefix \<le> length (drop j s)")
    case True
    with prefix_short [OF p] assms(1) show False by blast
  next
    case False
    then have "prefix (drop j s) osc7Prefix"
      using prefix_length_prefix [of "drop j s" "drop j s @ t" osc7Prefix] p by auto
    with assms(3) False show False by (auto simp: strict_prefix_def)
  qed
qed

lemma loop_step:
  assumes "js_index_of s osc7Prefix 0 = Some start" "drop (start + length osc7Prefix) s = p"
    "chooseOscEnd (js_index_of p [7] 0) (js_index_of p stTerminator 0) = Some e"
    "n = (if js_index_of p stTerminator 0 = Some e then length stTerminator else 1)"
  shows "osc7_loop s =
    ((case opt_truthy (osc7PayloadToPath (take e p)) of Some d \<Rightarrow> [d] | None \<Rightarrow> []) @ fst (osc7_loop (drop (e + n) p)),
     snd (osc7_loop (drop (e + n) p)))"
  unfolding osc7_loop.simps [of s] Let_def
  by (simp only: assms option.case) (simp add: case_prod_beta)

lemma loop_append:
  assumes "snd (osc7_loop s) \<noteq> [] \<or> no_cut_prefix s"
  shows "osc7_loop (s @ t) = (fst (osc7_loop s) @ fst (osc7_loop (snd (osc7_loop s) @ t)),
    snd (osc7_loop (snd (osc7_loop s) @ t)))"
  using assms
proof (induction "length s" arbitrary: s rule: less_induct)
  case (less s)
  have P: "osc7Prefix \<noteq> []" by (simp add: osc7Prefix_def)
  show ?case
  proof (cases "js_index_of s osc7Prefix 0")
    case None
    then have l: "osc7_loop s = ([], [])" by (simp add: osc7_loop.simps [of s])
    with less.prems have c: "no_cut_prefix s" by simp
    have "\<forall>j<length s. \<not> prefix osc7Prefix (drop j (s @ t))"
      using no_prefix_append c None index_None_iff [OF P] by (auto simp: no_cut_prefix_def simp del: drop_append)
    from loop_drop [OF this] show ?thesis by (simp add: l)
  next
    case (Some start)
    then have s: "prefix osc7Prefix (drop start s)" "\<forall>j<start. \<not> prefix osc7Prefix (drop j s)"
      using index_Some_iff [OF P] by auto
    have st: "start + 4 \<le> length s"
      using js_index_of_bounds [OF Some] by (simp add: osc7Prefix_def)
    have "\<forall>j<start. \<not> prefix osc7Prefix (drop j (s @ t))"
    proof (intro allI impI)
      fix j assume j: "j < start"
      have "\<not> strict_prefix (drop j s) osc7Prefix"
        using prefix_length_less [of "drop j s" osc7Prefix] j st by (auto simp: osc7Prefix_def)
      then show "\<not> prefix osc7Prefix (drop j (s @ t))" using no_prefix_append s(2) j st by auto
    qed
    then have idx: "js_index_of (s @ t) osc7Prefix 0 = Some start"
      using index_Some_iff [OF P] s(1) st by (auto simp: prefix_def)
    define p where "p = drop (start + length osc7Prefix) s"
    have pt: "drop (start + length osc7Prefix) (s @ t) = p @ t" using st by (simp add: p_def osc7Prefix_def)
    show ?thesis
    proof (cases "chooseOscEnd (js_index_of p [7] 0) (js_index_of p stTerminator 0)")
      case None
      then have "osc7_loop s = ([], drop start s)"
        using Some by (simp add: osc7_loop.simps [of s] flip: p_def)
      then show ?thesis using loop_drop [of start "s @ t"] st
          \<open>\<forall>j<start. \<not> prefix osc7Prefix (drop j (s @ t))\<close> by simp
    next
      case e: (Some e)
      define n where "n = (if js_index_of p stTerminator 0 = Some e then length stTerminator else 1)"
      define r where "r = drop (e + n) p"
      define d where "d = (case opt_truthy (osc7PayloadToPath (take e p)) of Some d \<Rightarrow> [d] | None \<Rightarrow> [])"
      note ca = choose_append [OF e, of t]
      have ls: "osc7_loop s = (d @ fst (osc7_loop r), snd (osc7_loop r))"
        unfolding d_def r_def by (rule loop_step [OF Some p_def [symmetric] e n_def])
      have "e + n \<le> length p" using choose_bound [OF e] by (simp add: n_def)
      then have tk: "take e (p @ t) = take e p" "drop (e + n) (p @ t) = r @ t" by (simp_all add: r_def)
      have lst: "osc7_loop (s @ t) = (d @ fst (osc7_loop (r @ t)), snd (osc7_loop (r @ t)))"
      proof -
        have "n = (if js_index_of (p @ t) stTerminator 0 = Some e then length stTerminator else 1)"
          using ca(2) by (simp add: n_def)
        from loop_step [OF idx pt ca(1) this] show ?thesis unfolding tk d_def .
      qed
      have "snd (osc7_loop r) \<noteq> [] \<or> no_cut_prefix r"
        using less.prems ls by (auto simp: no_cut_prefix_def r_def p_def)
      then have "osc7_loop (r @ t) = (fst (osc7_loop r) @ fst (osc7_loop (snd (osc7_loop r) @ t)),
          snd (osc7_loop (snd (osc7_loop r) @ t)))"
        using less.hyps [of r] st by (simp add: r_def p_def osc7Prefix_def)
      then show ?thesis by (simp add: lst ls)
    qed
  qed
qed

text \<open>C20. Terminal output may arrive in pieces: parsing one piece and then the kept text followed by the next piece finds the same directories, in order, and keeps the same text as parsing both at once, provided the kept text fits the limit and the first piece does not end inside the four characters that open a sequence.\<close>

theorem osc7_pieces:
  assumes "snd (osc7_loop s) \<noteq> [] \<or> no_cut_prefix s" "length (snd (osc7_loop s)) \<le> maxOscBufferLength"
  shows "extractOsc7Directories (s @ t) =
     (let (paths, buffer) = extractOsc7Directories s; (paths', buffer') = extractOsc7Directories (buffer @ t)
      in (paths @ paths', buffer'))"
  using loop_append [OF assms(1), of t] assms(2)
  by (simp add: extractOsc7Directories_def case_prod_beta)

text \<open>Output cut inside the opening: the directory is lost.\<close>

lemma osc7_cut_prefix_lost:
  "fst (extractOsc7Directories ([27, 93, 55, 59, 47, 97, 7])) = [[47, 97]]
   \<and> extractOsc7Directories [27, 93] = ([], [])
   \<and> fst (extractOsc7Directories [55, 59, 47, 97, 7]) = []"
  by (simp add: extractOsc7Directories_def osc7_loop.simps js_index_of_def osc7Prefix_def stTerminator_def
    chooseOscEnd_def osc7PayloadToPath_def js_trim_id is_ws_def js_def)

lemma osc7_pieces_witness:
  "extractOsc7Directories ([27, 93, 55, 59, 47, 97] @ [98, 7]) =
     (let (paths, buffer) = extractOsc7Directories [27, 93, 55, 59, 47, 97];
          (paths', buffer') = extractOsc7Directories (buffer @ [98, 7])
      in (paths @ paths', buffer'))"
proof (rule osc7_pieces)
  have l: "osc7_loop [27, 93, 55, 59, 47, 97] = ([], [27, 93, 55, 59, 47, 97])"
    by (simp add: osc7_loop.simps js_index_of_def osc7Prefix_def stTerminator_def chooseOscEnd_def)
  show "snd (osc7_loop [27, 93, 55, 59, 47, 97]) \<noteq> [] \<or> no_cut_prefix [27, 93, 55, 59, 47, 97]"
    by (simp add: l)
  show "length (snd (osc7_loop [27, 93, 55, 59, 47, 97])) \<le> maxOscBufferLength"
    by (simp add: l maxOscBufferLength_def)
qed

end
