(* ===== verification/Terminal_Directory.thy ===== *)
theory Terminal_Directory
  imports Js_Pattern
begin

text \<open>
  Following the working directory of a terminal from what is typed:
  \<open>src/features/terminal/terminalInputDirectory.ts\<close>, with the functions on escape sequences and
  paths that \<open>terminalPromptDirectory.ts\<close> repeats. A loop that advances an index is a recursion
  on the rest of the string.
\<close>

section \<open>Escape sequences\<close>

text \<open>The functions take the text after the opening and return what they consume and the rest.\<close>

fun skipControlSequence :: "jsstr \<Rightarrow> jsstr \<times> jsstr" where
  "skipControlSequence [] = ([], [])"
| "skipControlSequence (c # s) =
     (if 64 \<le> c \<and> c \<le> 126 then ([c], s)
      else (let (used, rest) = skipControlSequence s in (c # used, rest)))"

fun skipOperatingSystemCommand :: "jsstr \<Rightarrow> jsstr \<times> jsstr" where
  "skipOperatingSystemCommand [] = ([], [])"
| "skipOperatingSystemCommand (c # s) =
     (if c = 7 then ([c], s)
      else if c = 27 \<and> s \<noteq> [] \<and> hd s = 92 then ([c, hd s], tl s)
      else (let (used, rest) = skipOperatingSystemCommand s in (c # used, rest)))"

definition skipEscapeSequence :: "jsstr \<Rightarrow> jsstr \<times> jsstr" where
  "skipEscapeSequence s =
     (case s of
        [] \<Rightarrow> ([], [])
      | marker # t \<Rightarrow>
          if marker = 91 then (let (used, rest) = skipControlSequence t in (marker # used, rest))
          else if marker = 93 then (let (used, rest) = skipOperatingSystemCommand t in (marker # used, rest))
          else skipControlSequence s)"

lemma skip_csi_append: "fst (skipControlSequence s) @ snd (skipControlSequence s) = s"
  by (induction s) (auto simp: case_prod_beta)

lemma skip_osc_append: "fst (skipOperatingSystemCommand s) @ snd (skipOperatingSystemCommand s) = s"
proof (induction s rule: skipOperatingSystemCommand.induct)
  case (2 c s)
  then show ?case by (cases s) (auto simp: case_prod_beta)
qed simp

lemma skip_escape_append: "fst (skipEscapeSequence s) @ snd (skipEscapeSequence s) = s"
  by (cases s) (auto simp: skipEscapeSequence_def case_prod_beta skip_csi_append skip_osc_append)

lemma skip_escape_length: "length (snd (skipEscapeSequence s)) \<le> length s"
  by (metis skip_escape_append length_append le_add2)

definition isBracketedPasteBoundary :: "jsstr \<Rightarrow> bool" where
  "isBracketedPasteBoundary used \<longleftrightarrow>
     used = 27 # js ''[200~'' \<or> used = 27 # js ''[201~''"

section \<open>Paths\<close>

text \<open>One part of a path applied to the parts so far; \<open>pop\<close> of an empty array does nothing.\<close>

definition path_part :: "jsstr \<Rightarrow> jsstr list \<Rightarrow> jsstr list" where
  "path_part p parts =
     (if p = [] \<or> p = js ''.'' then parts
      else if p = js ''..'' then butlast parts
      else parts @ [p])"

definition path_parts :: "jsstr \<Rightarrow> jsstr list" where
  "path_parts path = fold path_part (js_split 47 (replace_unit 92 47 path)) []"

definition normalizeAbsolutePath :: "jsstr \<Rightarrow> jsstr" where
  "normalizeAbsolutePath path = 47 # js_join [47] (path_parts path)"

section \<open>Commands\<close>

text \<open>The loop of \<open>tokenizeCommand\<close>: the open quote, the token so far, the tokens, the rest.\<close>

function tokens_from :: "nat option \<Rightarrow> jsstr \<Rightarrow> jsstr list \<Rightarrow> jsstr \<Rightarrow> jsstr list option" where
  "tokens_from quote token toks [] =
     (if quote \<noteq> None then None
      else (let all = toks @ (if token = [] then [] else [token]) in if all = [] then None else Some all))"
| "tokens_from (Some q) token toks (c # s) =
     (if c = q then tokens_from None token toks s
      else if c = 92 \<and> q = 34 \<and> s \<noteq> [] then tokens_from (Some q) (token @ [hd s]) toks (tl s)
      else tokens_from (Some q) (token @ [c]) toks s)"
| "tokens_from None token toks (c # s) =
     (if c = 39 \<or> c = 34 then tokens_from (Some c) token toks s
      else if c = 92 \<and> s \<noteq> [] then tokens_from None (token @ [hd s]) toks (tl s)
      else if is_ws c then tokens_from None [] (if token = [] then toks else toks @ [token]) s
      else tokens_from None (token @ [c]) toks s)"
  by pat_completeness auto

termination
  by (relation "measure (\<lambda>(q, t, ts, s). length s)") auto

definition tokenizeCommand :: "jsstr \<Rightarrow> jsstr list option" where
  "tokenizeCommand command = (if command = [] then None else tokens_from None [] [] command)"

definition resolveDirectoryToken :: "jsstr \<Rightarrow> jsstr option \<Rightarrow> jsstr option \<Rightarrow> jsstr option" where
  "resolveDirectoryToken token currentDirectory homeDirectory =
     (if token = js ''-'' then None
      else if token = js ''~'' then homeDirectory
      else if prefix (js ''~/'') token then
        (case opt_truthy homeDirectory of
           Some home \<Rightarrow> Some (normalizeAbsolutePath (home @ drop 1 token))
         | None \<Rightarrow> None)
      else if prefix (js ''~'') token then None
      else if prefix (js ''/'') token then Some (normalizeAbsolutePath token)
      else (case opt_truthy currentDirectory of
              None \<Rightarrow> None
            | Some cur \<Rightarrow> Some (normalizeAbsolutePath (cur @ [47] @ token))))"

definition resolveCdCommand :: "jsstr \<Rightarrow> jsstr option \<Rightarrow> jsstr option \<Rightarrow> jsstr option" where
  "resolveCdCommand line currentDirectory homeDirectory =
     (case tokenizeCommand (js_trim line) of
        None \<Rightarrow> None
      | Some toks \<Rightarrow>
          if hd toks \<noteq> js ''cd'' then None
          else (let dashes = (1 < length toks \<and> toks ! 1 = js ''--'');
                    pathIndex = (if dashes then 2 else 1)
            in if length toks = 1 \<or> (length toks = 2 \<and> dashes) then homeDirectory
               else if length toks \<noteq> pathIndex + 1 then None
               else resolveDirectoryToken (toks ! pathIndex) currentDirectory homeDirectory))"

definition resolveTerminalInputDirectoryLine :: "jsstr \<Rightarrow> jsstr option \<Rightarrow> jsstr option \<Rightarrow> jsstr option" where
  "resolveTerminalInputDirectoryLine line currentDirectory homeDirectory =
     resolveCdCommand (js_trim line) currentDirectory homeDirectory"

definition inferRemoteHomeDirectory :: "jsstr option \<Rightarrow> jsstr option" where
  "inferRemoteHomeDirectory username =
     (case opt_truthy (map_option js_trim username) of
        None \<Rightarrow> None
      | Some u \<Rightarrow> if \<not> list_all is_name_unit u then None
                   else if u = js ''root'' then Some (js ''/root'')
                   else Some (js ''/home/'' @ u))"

section \<open>The tracker\<close>

record input_directory =
  id_dirty :: bool
  id_directory :: "jsstr option"
  id_homeDirectory :: "jsstr option"
  id_line :: jsstr

definition maxTrackedLineLength :: nat where
  "maxTrackedLineLength = 4096"

definition createTerminalInputDirectoryState :: "jsstr option \<Rightarrow> jsstr option \<Rightarrow> input_directory" where
  "createTerminalInputDirectoryState currentDirectory homeDirectory =
     \<lparr>id_dirty = False, id_directory = currentDirectory, id_homeDirectory = homeDirectory, id_line = []\<rparr>"

text \<open>One character that does not open an escape sequence: the directory it announces and the state.\<close>

definition input_char :: "nat \<Rightarrow> jsstr option \<times> input_directory \<Rightarrow> jsstr option \<times> input_directory" where
  "input_char c ds =
     (let (directory, s) = ds
      in if c = 13 \<or> c = 10 then
           (let next = (if id_dirty s then None
                        else resolveCdCommand (id_line s) (id_directory s) (id_homeDirectory s));
                s1 = s\<lparr>id_dirty := False, id_line := []\<rparr>
            in case opt_truthy next of
                 Some d \<Rightarrow> (Some d, s1\<lparr>id_directory := Some d\<rparr>)
               | None \<Rightarrow> (directory, s1))
         else if c = 127 \<or> c = 8 then (directory, s\<lparr>id_line := butlast (id_line s)\<rparr>)
         else if c = 9 then (directory, s\<lparr>id_dirty := True\<rparr>)
         else if c < 32 then (directory, s\<lparr>id_dirty := True\<rparr>)
         else (directory, s\<lparr>id_line := js_last_n maxTrackedLineLength (id_line s @ [c])\<rparr>))"

function input_data :: "jsstr \<Rightarrow> jsstr option \<times> input_directory \<Rightarrow> jsstr option \<times> input_directory" where
  "input_data [] ds = ds"
| "input_data (c # data) ds =
     (if c = 27 then
        (let (used, rest) = skipEscapeSequence data
         in input_data rest
              (if isBracketedPasteBoundary (c # used) then ds
               else (fst ds, (snd ds)\<lparr>id_dirty := True\<rparr>)))
      else input_data data (input_char c ds))"
  by pat_completeness auto

termination
proof (relation "measure (length \<circ> fst)")
  fix c :: nat and data :: jsstr and ds :: "jsstr option \<times> input_directory" and x used rest
  assume "c = 27" "x = skipEscapeSequence data" "(used, rest) = x"
  then have "length rest \<le> length data" by (metis skip_escape_length snd_conv)
  then show "((rest, if isBracketedPasteBoundary (c # used) then ds else (fst ds, snd ds\<lparr>id_dirty := True\<rparr>)), c # data, ds)
      \<in> measure (length \<circ> fst)" by simp
qed auto

definition applyTerminalInputDirectoryData :: "input_directory \<Rightarrow> jsstr \<Rightarrow> jsstr option \<times> input_directory" where
  "applyTerminalInputDirectoryData s data = input_data data (None, s)"

section \<open>Canonical directories\<close>

definition plain_part :: "jsstr \<Rightarrow> bool" where
  "plain_part p \<longleftrightarrow> p \<noteq> [] \<and> p \<noteq> js ''.'' \<and> p \<noteq> js ''..'' \<and> 47 \<notin> set p \<and> 92 \<notin> set p"

definition canonical_dir :: "jsstr \<Rightarrow> bool" where
  "canonical_dir d \<longleftrightarrow> (\<exists>parts. d = 47 # js_join [47] parts \<and> (\<forall>p\<in>set parts. plain_part p))"

lemma fold_path_part_plain:
  "\<forall>p\<in>set ps. 47 \<notin> set p \<and> 92 \<notin> set p \<Longrightarrow> \<forall>p\<in>set qs. plain_part p \<Longrightarrow>
   \<forall>p\<in>set (fold path_part ps qs). plain_part p"
proof (induction ps arbitrary: qs)
  case (Cons a ps)
  have "\<forall>p\<in>set (path_part a qs). plain_part p"
    using Cons.prems by (auto simp: path_part_def plain_part_def dest: in_set_butlastD)
  then show ?case using Cons by simp
qed simp

lemma path_parts_plain: "p \<in> set (path_parts path) \<Longrightarrow> plain_part p"
proof -
  have "\<forall>p\<in>set (js_split 47 (replace_unit 92 47 path)). 47 \<notin> set p \<and> 92 \<notin> set p"
  proof
    fix p assume p: "p \<in> set (js_split 47 (replace_unit 92 47 path))"
    have "92 \<notin> set (replace_unit 92 47 path)" by (auto simp: replace_unit_def)
    then show "47 \<notin> set p \<and> 92 \<notin> set p" using js_split_no_sep [OF p] set_js_split [OF p] by auto
  qed
  then show "p \<in> set (path_parts path) \<Longrightarrow> plain_part p"
    unfolding path_parts_def using fold_path_part_plain [of _ "[]"] by simp
qed

lemma normalize_canonical: "canonical_dir (normalizeAbsolutePath path)"
  using path_parts_plain by (auto simp: canonical_dir_def normalizeAbsolutePath_def)

lemma fold_plain: "\<forall>p\<in>set ps. plain_part p \<Longrightarrow> fold path_part ps qs = qs @ ps"
  by (induction ps arbitrary: qs) (auto simp: path_part_def plain_part_def)

lemma no_backslash_join: "\<forall>p\<in>set ps. plain_part p \<Longrightarrow> 92 \<notin> set (js_join [47] ps)"
proof (induction ps)
  case (Cons p ps)
  then show ?case by (cases ps) (auto simp: plain_part_def)
qed simp

lemma path_parts_canonical:
  assumes "\<forall>p\<in>set ps. plain_part p"
  shows "path_parts (47 # js_join [47] ps) = ps"
proof (cases "ps = []")
  case True
  then show ?thesis by (simp add: path_parts_def replace_unit_def path_part_def)
next
  case False
  have r: "replace_unit 92 47 (47 # js_join [47] ps) = 47 # js_join [47] ps"
    using no_backslash_join [OF assms] by (simp add: replace_unit_id)
  have "js_split 47 (js_join [47] ps) = ps"
    using assms False by (intro js_split_join) (auto simp: plain_part_def)
  then show ?thesis using fold_plain [OF assms]
    by (simp add: path_parts_def r path_part_def)
qed

lemma normalize_canonical_id: "canonical_dir d \<Longrightarrow> normalizeAbsolutePath d = d"
  by (auto simp: canonical_dir_def normalizeAbsolutePath_def path_parts_canonical)

lemma canonical_not_Nil: "canonical_dir d \<Longrightarrow> d \<noteq> []"
  by (auto simp: canonical_dir_def)

text \<open>A relative path is resolved on the stack of the current directory.\<close>

lemma normalize_relative:
  assumes "canonical_dir d"
  shows "normalizeAbsolutePath (d @ [47] @ r) = 47 # js_join [47] (fold path_part (js_split 47 (replace_unit 92 47 r)) (path_parts d))"
proof -
  have "replace_unit 92 47 (d @ [47] @ r) = replace_unit 92 47 d @ 47 # replace_unit 92 47 r"
    by (simp add: replace_unit_def)
  then show ?thesis
    by (simp add: normalizeAbsolutePath_def path_parts_def js_split_append_sep)
qed

lemma resolveDirectoryToken_canonical:
  "resolveDirectoryToken t cur home = Some d \<Longrightarrow> canonical_dir d \<or> home = Some d"
  by (auto simp: resolveDirectoryToken_def normalize_canonical split: if_splits option.splits)

lemma resolveCd_canonical:
  assumes "resolveCdCommand line cur home = Some d"
  shows "canonical_dir d \<or> home = Some d"
proof -
  obtain toks where t: "tokenizeCommand (js_trim line) = Some toks"
    using assms by (cases "tokenizeCommand (js_trim line)") (simp_all add: resolveCdCommand_def)
  define dashes where "dashes = (1 < length toks \<and> toks ! 1 = js ''--'')"
  define i where "i = (if dashes then 2 else 1 :: nat)"
  have "resolveCdCommand line cur home =
    (if hd toks \<noteq> js ''cd'' then None
     else if length toks = 1 \<or> (length toks = 2 \<and> dashes) then home
     else if length toks \<noteq> i + 1 then None
     else resolveDirectoryToken (toks ! i) cur home)"
    unfolding resolveCdCommand_def t option.case Let_def dashes_def [symmetric] i_def [symmetric] ..
  with assms show ?thesis
    using resolveDirectoryToken_canonical [of "toks ! i" cur home d] by (simp split: if_split_asm)
qed

section \<open>The tracker\<close>

text \<open>What a step on \<open>(directory, state)\<close> keeps.\<close>

definition tracker_step_ok :: "jsstr option \<times> input_directory \<Rightarrow> jsstr option \<times> input_directory \<Rightarrow> bool" where
  "tracker_step_ok ds es \<longleftrightarrow>
     id_homeDirectory (snd es) = id_homeDirectory (snd ds)
     \<and> (length (id_line (snd ds)) \<le> maxTrackedLineLength \<longrightarrow> length (id_line (snd es)) \<le> maxTrackedLineLength)
     \<and> (fst es = fst ds \<and> id_directory (snd es) = id_directory (snd ds)
        \<or> (\<exists>d. d \<noteq> [] \<and> fst es = Some d \<and> id_directory (snd es) = Some d
              \<and> (canonical_dir d \<or> id_homeDirectory (snd ds) = Some d)))"

lemma tracker_step_refl: "tracker_step_ok ds (fst ds, (snd ds)\<lparr>id_dirty := b\<rparr>)" "tracker_step_ok ds ds"
  by (auto simp: tracker_step_ok_def)

lemma tracker_step_trans:
  assumes "tracker_step_ok a b" "tracker_step_ok b c"
  shows "tracker_step_ok a c"
  using assms unfolding tracker_step_ok_def
  by (elim conjE) (intro conjI; (elim disjE)?; simp)

lemma input_char_ok: "tracker_step_ok ds (input_char c ds)"
proof -
  obtain dir s where ds: "ds = (dir, s)" by (cases ds)
  consider "c = 13 \<or> c = 10" | "c = 127 \<or> c = 8" | "c \<noteq> 13 \<and> c \<noteq> 10 \<and> c \<noteq> 127 \<and> c \<noteq> 8" by blast
  then show ?thesis
  proof cases
    case 1
    define nxt where "nxt = (if id_dirty s then None else resolveCdCommand (id_line s) (id_directory s) (id_homeDirectory s))"
    have c: "input_char c ds = (case opt_truthy nxt of
        Some d \<Rightarrow> (Some d, s\<lparr>id_dirty := False, id_line := [], id_directory := Some d\<rparr>)
      | None \<Rightarrow> (dir, s\<lparr>id_dirty := False, id_line := []\<rparr>))"
      using 1 by (simp add: ds input_char_def Let_def nxt_def)
    show ?thesis
    proof (cases "opt_truthy nxt")
      case None
      then show ?thesis unfolding c by (simp add: ds tracker_step_ok_def)
    next
      case (Some d)
      then have "nxt = Some d" "d \<noteq> []" by (simp_all add: opt_truthy_Some_iff)
      moreover from this have "canonical_dir d \<or> id_homeDirectory s = Some d"
        using resolveCd_canonical [of "id_line s" "id_directory s" "id_homeDirectory s"]
        by (auto simp: nxt_def split: if_splits)
      ultimately show ?thesis using Some unfolding c by (simp add: ds tracker_step_ok_def)
    qed
  next
    case 2
    then show ?thesis by (auto simp: ds input_char_def tracker_step_ok_def)
  next
    case 3
    then show ?thesis by (auto simp: ds input_char_def tracker_step_ok_def maxTrackedLineLength_def)
  qed
qed

lemma input_data_ok: "tracker_step_ok ds (input_data data ds)"
proof (induction data ds rule: input_data.induct)
  case (1 ds)
  show ?case by (simp add: tracker_step_refl)
next
  case (2 c data ds)
  show ?case
  proof (cases "c = 27")
    case True
    define es where "es = (if isBracketedPasteBoundary (c # fst (skipEscapeSequence data)) then ds
      else (fst ds, (snd ds)\<lparr>id_dirty := True\<rparr>))"
    have "tracker_step_ok ds es" by (simp add: es_def tracker_step_refl)
    moreover have "tracker_step_ok es (input_data (snd (skipEscapeSequence data)) es)"
      using 2(1) [OF True refl, of "fst (skipEscapeSequence data)" "snd (skipEscapeSequence data)"]
      by (simp add: es_def)
    ultimately have "tracker_step_ok ds (input_data (snd (skipEscapeSequence data)) es)"
      by (rule tracker_step_trans)
    moreover have "input_data (c # data) ds = input_data (snd (skipEscapeSequence data)) es"
      using True by (simp add: case_prod_beta es_def)
    ultimately show ?thesis by simp
  next
    case False
    have "tracker_step_ok ds (input_data data (input_char c ds))"
      by (rule tracker_step_trans [OF input_char_ok 2(2) [OF False]])
    then show ?thesis using False by simp
  qed
qed

text \<open>What stands behind the escape character in a complete sequence: a control sequence up to its final character, an
  operating system command up to a bell or an escape and a backslash, or anything else up to a final character.
  Input is whole when no such sequence is cut at its end.\<close>

definition final_unit :: "nat \<Rightarrow> bool" where
  "final_unit c \<longleftrightarrow> 64 \<le> c \<and> c \<le> 126"

definition complete_sequence :: "jsstr \<Rightarrow> bool" where
  "complete_sequence e \<longleftrightarrow>
     (\<exists>body f. list_all (\<lambda>c. \<not> final_unit c) body \<and> final_unit f
        \<and> (e = 91 # body @ [f] \<or> e = body @ [f] \<and> hd e \<noteq> 91 \<and> hd e \<noteq> 93))
     \<or> (\<exists>body. 7 \<notin> set body \<and> \<not> sublist [27, 92] body \<and> (e = 93 # body @ [7] \<or> e = 93 # body @ [27, 92]))"

inductive whole_input :: "jsstr \<Rightarrow> bool" where
  whole_end: "whole_input []"
| whole_char: "c \<noteq> 27 \<Longrightarrow> whole_input s \<Longrightarrow> whole_input (c # s)"
| whole_sequence: "complete_sequence e \<Longrightarrow> whole_input s \<Longrightarrow> whole_input (27 # e @ s)"

lemma skip_csi_complete:
  "list_all (\<lambda>c. \<not> final_unit c) body \<Longrightarrow> final_unit f \<Longrightarrow> skipControlSequence (body @ f # s) = (body @ [f], s)"
  by (induction body) (auto simp: final_unit_def)

lemma skip_osc_complete:
  "7 \<notin> set body \<Longrightarrow> \<not> sublist [27, 92] body \<Longrightarrow> e = [7] \<or> e = [27, 92] \<Longrightarrow>
   skipOperatingSystemCommand (body @ e @ s) = (body @ e, s)"
proof (induction body)
  case (Cons c body)
  have "\<not> (c = 27 \<and> body @ e @ s \<noteq> [] \<and> hd (body @ e @ s) = 92)"
  proof
    assume c: "c = 27 \<and> body @ e @ s \<noteq> [] \<and> hd (body @ e @ s) = 92"
    then obtain body' where "body = 92 # body'" using Cons.prems(3) by (cases body) auto
    with c have "prefix [27, 92] (c # body)" by simp
    then show False using Cons.prems(2) by (simp add: sublist_Cons_right)
  qed
  then show ?case using Cons by (auto simp: sublist_Cons_right)
qed auto

lemma skip_complete: "complete_sequence e \<Longrightarrow> skipEscapeSequence (e @ s) = (e, s)"
proof -
  assume "complete_sequence e"
  then consider body f where "list_all (\<lambda>c. \<not> final_unit c) body" "final_unit f" "e = 91 # body @ [f]"
    | body f where "list_all (\<lambda>c. \<not> final_unit c) body" "final_unit f" "e = body @ [f]" "hd e \<noteq> 91" "hd e \<noteq> 93"
    | body t where "7 \<notin> set body" "\<not> sublist [27, 92] body" "t = [7] \<or> t = [27, 92]" "e = 93 # body @ t"
    unfolding complete_sequence_def by blast
  then show ?thesis
  proof cases
    case 1
    then show ?thesis using skip_csi_complete [OF 1(1,2), of s] by (simp add: skipEscapeSequence_def)
  next
    case 2
    have "e \<noteq> []" using 2(3) by simp
    then obtain c e' where e: "e = c # e'" by (cases e) simp_all
    then have "skipEscapeSequence (e @ s) = skipControlSequence (e @ s)"
      using 2(4,5) by (simp add: skipEscapeSequence_def)
    moreover have "e @ s = body @ f # s" using 2(3) by simp
    ultimately show ?thesis using skip_csi_complete [OF 2(1,2), of s] 2(3) by simp
  next
    case 3
    then show ?thesis using skip_osc_complete [OF 3(1-3), of s] by (simp add: skipEscapeSequence_def)
  qed
qed

lemma input_data_append: "whole_input d1 \<Longrightarrow> input_data (d1 @ d2) ds = input_data d2 (input_data d1 ds)"
  by (induction d1 arbitrary: ds rule: whole_input.induct) (simp_all add: skip_complete skip_complete [of _ "[]", simplified])

lemma plain_whole: "27 \<notin> set d \<Longrightarrow> whole_input d"
  by (induction d) (auto intro: whole_input.intros)

lemma input_char_directory:
  "input_char c (x, s) = (case fst (input_char c (None, s)) of None \<Rightarrow> x | Some y \<Rightarrow> Some y, snd (input_char c (None, s)))"
  by (simp add: input_char_def Let_def split: option.split)

lemma input_data_directory:
  "input_data d (x, s) = (case fst (input_data d (None, s)) of None \<Rightarrow> x | Some y \<Rightarrow> Some y, snd (input_data d (None, s)))"
proof (induction "length d" arbitrary: d x s rule: less_induct)
  case less
  show ?case
  proof (cases d)
    case (Cons c t)
    show ?thesis
    proof (cases "c = 27")
      case True
      have l: "length (snd (skipEscapeSequence t)) < length d" using Cons skip_escape_length [of t] by simp
      define s' where "s' = (if isBracketedPasteBoundary (c # fst (skipEscapeSequence t)) then s else s\<lparr>id_dirty := True\<rparr>)"
      have e: "input_data d (y, s) = input_data (snd (skipEscapeSequence t)) (y, s')" for y
        using True Cons by (simp add: case_prod_beta s'_def)
      show ?thesis unfolding e by (rule less [OF l])
    next
      case False
      obtain y s' where y: "input_char c (None, s) = (y, s')" by fastforce
      have x: "input_char c (x, s) = (case y of None \<Rightarrow> x | Some y \<Rightarrow> Some y, s')"
        using input_char_directory [of c x s] y by simp
      have l: "length t < length d" using Cons by simp
      show ?thesis
        using less [OF l, of "case y of None \<Rightarrow> x | Some y \<Rightarrow> Some y" s'] less [OF l, of y s'] False Cons x y
        by (auto split: option.splits)
    qed
  qed simp
qed

section \<open>Typed commands\<close>

definition typed_unit :: "nat \<Rightarrow> bool" where
  "typed_unit c \<longleftrightarrow> 32 \<le> c \<and> c \<noteq> 127"

lemma input_data_typed:
  "list_all typed_unit w \<Longrightarrow> length (id_line s) + length w \<le> maxTrackedLineLength \<Longrightarrow>
   input_data w (x, s) = (x, s\<lparr>id_line := id_line s @ w\<rparr>)"
proof (induction w arbitrary: s)
  case (Cons c w)
  then have "input_char c (x, s) = (x, s\<lparr>id_line := id_line s @ [c]\<rparr>)" "c \<noteq> 27"
    by (auto simp: input_char_def typed_unit_def js_last_n_id)
  with Cons show ?case by simp
qed simp

lemma tokens_quoted: "q \<notin> set p \<Longrightarrow> q \<noteq> 34 \<Longrightarrow> tokens_from (Some q) t toks (p @ q # s) = tokens_from None (t @ p) toks s"
  by (induction p arbitrary: t) auto

lemma tokens_cd_quoted:
  assumes "39 \<notin> set p" "p \<noteq> []"
  shows "tokens_from None [] [] (js ''cd '' @ 39 # p @ [39]) = Some [js ''cd'', p]"
  using tokens_quoted [OF assms(1), of "[]" "[[99, 100]]" "[]"] assms(2)
  by (simp add: js_def is_ws_def)

lemma resolveCd_quoted:
  assumes "39 \<notin> set p" "prefix [47] p"
  shows "resolveCdCommand (js ''cd '' @ 39 # p @ [39]) cur home = Some (normalizeAbsolutePath p)"
proof -
  have t: "js_trim (js ''cd '' @ 39 # p @ [39]) = js ''cd '' @ 39 # p @ [39]"
    by (rule js_trim_id) (simp add: js_def is_ws_def)
  have p: "p \<noteq> []" "p \<noteq> js ''--''" "p \<noteq> js ''-''" "p \<noteq> js ''~''" "\<not> prefix (js ''~/'') p" "\<not> prefix (js ''~'') p"
    "prefix (js ''/'') p"
    using assms(2) by (auto simp: js_def prefix_def)
  then show ?thesis
    using tokens_cd_quoted [OF assms(1) p(1)]
    by (simp add: resolveCdCommand_def t tokenizeCommand_def resolveDirectoryToken_def)
qed

lemma typed_quoted_cd:
  assumes "id_line s = []" "\<not> id_dirty s" "39 \<notin> set p" "prefix [47] p" "list_all typed_unit p" "length p \<le> 4000"
  shows "input_data (js ''cd '' @ 39 # p @ [39, 13]) (x, s)
    = (Some (normalizeAbsolutePath p), s\<lparr>id_directory := Some (normalizeAbsolutePath p)\<rparr>)"
proof -
  let ?w = "js ''cd '' @ 39 # p @ [39]"
  have w: "list_all typed_unit ?w" using assms(5) by (simp add: typed_unit_def js_def)
  have l: "length (id_line s) + length ?w \<le> maxTrackedLineLength"
    using assms by (simp add: maxTrackedLineLength_def)
  have i: "input_data ?w (x, s) = (x, s\<lparr>id_line := ?w\<rparr>)"
    using input_data_typed [OF w l, of x] assms(1) by simp
  have "27 \<notin> set ?w" using w unfolding list_all_iff typed_unit_def by fastforce
  then have "input_data (?w @ [13]) (x, s) = input_char 13 (x, s\<lparr>id_line := ?w\<rparr>)"
    using input_data_append [OF plain_whole, of ?w "[13]" "(x, s)"] i by simp
  also have "\<dots> = (Some (normalizeAbsolutePath p), s\<lparr>id_directory := Some (normalizeAbsolutePath p), id_line := []\<rparr>)"
    using resolveCd_quoted [OF assms(3,4)] assms(2) canonical_not_Nil [OF normalize_canonical]
    by (simp add: input_char_def)
  finally show ?thesis using assms(1) by simp
qed



text \<open>A command line with a shell operator written without spaces is taken for one path.\<close>

lemma shell_operator_taken_for_path:
  "resolveCdCommand (js ''cd a&&ls'') (Some (js ''/w'')) None = Some (js ''/w/a&&ls'')"
  by (simp add: resolveCdCommand_def tokenizeCommand_def resolveDirectoryToken_def normalizeAbsolutePath_def
    path_parts_def path_part_def replace_unit_def js_def is_ws_def js_trim_id)

end
