(* ===== verification/Prompt_Directory.thy ===== *)
theory Prompt_Directory
  imports Terminal_Directory
begin

text \<open>
  Reading the working directory from shell prompts on the screen:
  \<open>src/features/terminal/terminalPromptDirectory.ts\<close>. The regular expressions are written as
  scanners: in each of them a repetition is delimited by characters it cannot match, so that
  backtracking has at most the one alternative named at its scanner. The functions on escape
  sequences and paths the file repeats are those of \<open>Terminal_Directory\<close>.
\<close>

section \<open>Lines\<close>

function stripAnsiSequences :: "jsstr \<Rightarrow> jsstr" where
  "stripAnsiSequences [] = []"
| "stripAnsiSequences (c # s) =
     (if c \<noteq> 27 then c # stripAnsiSequences s else stripAnsiSequences (snd (skipEscapeSequence s)))"
  by pat_completeness auto

termination
  by (relation "measure length") (auto simp: le_imp_less_Suc skip_escape_length)

definition promptLineKey :: "jsstr \<Rightarrow> jsstr" where
  "promptLineKey line = js_trim_end (stripAnsiSequences line)"

record prompt_line =
  pl_command :: "jsstr option"
  pl_label :: jsstr

definition normalizePromptCommand :: "jsstr option \<Rightarrow> jsstr option" where
  "normalizePromptCommand command = opt_truthy (map_option js_trim command)"

text \<open>\<open>(?:\s*(.*))?$\<close>: what is left after white space has no line terminator; the group.\<close>

definition command_tail :: "jsstr \<Rightarrow> jsstr option" where
  "command_tail s =
     (let r = js_trim_start s in if \<exists>c\<in>set r. is_line_terminator c then None else Some r)"

definition is_label_end :: "nat \<Rightarrow> bool" where
  "is_label_end c \<longleftrightarrow> c = 58 \<or> c = 35 \<or> c = 36"

text \<open>\<open>^\s*user@host:([^:#$]+)([#\$])...\<close>\<close>

definition colon_prompt :: "jsstr \<Rightarrow> prompt_line option" where
  "colon_prompt line =
     (case user_at_host (js_trim_start line) of
        Some (c # r) \<Rightarrow>
          (let label = takeWhile (\<lambda>c. \<not> is_label_end c) r; t = dropWhile (\<lambda>c. \<not> is_label_end c) r
           in if c \<noteq> 58 \<or> label = [] \<or> t = [] \<or> hd t = 58 then None
              else map_option (\<lambda>command. \<lparr>pl_command = normalizePromptCommand (Some command), pl_label = js_trim label\<rparr>)
                     (command_tail (tl t)))
      | _ \<Rightarrow> None)"

definition is_bracket_end :: "nat \<Rightarrow> bool" where
  "is_bracket_end c \<longleftrightarrow> c = 93 \<or> c = 13 \<or> c = 10"

text \<open>
  \<open>^\s*\[user@host\s+([^\]\r\n]+)\](?:[#\$])...\<close>: if the bracket closes right after the white space,
  the last white-space character, unless it ends a line or is the only one, becomes the label.
\<close>

definition bracket_prompt :: "jsstr \<Rightarrow> prompt_line option" where
  "bracket_prompt line =
     (case js_trim_start line of
        [] \<Rightarrow> None
      | b # s \<Rightarrow>
          if b \<noteq> 91 then None
          else (case user_at_host s of
                  None \<Rightarrow> None
                | Some r \<Rightarrow>
                    (let space = takeWhile is_ws r; inner = dropWhile is_ws r;
                         label = (if takeWhile (\<lambda>c. \<not> is_bracket_end c) inner = [] \<and> 2 \<le> length space
                                    \<and> \<not> is_bracket_end (last space)
                                  then [last space] else takeWhile (\<lambda>c. \<not> is_bracket_end c) inner);
                         t = dropWhile (\<lambda>c. \<not> is_bracket_end c) inner
                     in if space = [] \<or> label = [] \<or> length t < 2 \<or> hd t \<noteq> 93 \<or> (t ! 1 \<noteq> 35 \<and> t ! 1 \<noteq> 36) then None
                        else map_option (\<lambda>command. \<lparr>pl_command = normalizePromptCommand (Some command), pl_label = js_trim label\<rparr>)
                               (command_tail (drop 2 t)))))"

definition parsePromptLine :: "jsstr \<Rightarrow> prompt_line option" where
  "parsePromptLine line = (case colon_prompt line of Some p \<Rightarrow> Some p | None \<Rightarrow> bracket_prompt line)"

section \<open>Directories\<close>

definition promptPathToDirectory :: "jsstr \<Rightarrow> jsstr option \<Rightarrow> jsstr option" where
  "promptPathToDirectory promptPath homeDirectory =
     (if promptPath = js ''~'' then homeDirectory
      else if prefix (js ''~/'') promptPath then
        (case opt_truthy homeDirectory of
           Some home \<Rightarrow> Some (normalizeAbsolutePath (home @ drop 1 promptPath))
         | None \<Rightarrow> None)
      else if \<not> prefix (js ''/'') promptPath then None
      else Some (normalizeAbsolutePath promptPath))"

definition promptLineToDirectory :: "jsstr \<Rightarrow> jsstr option \<Rightarrow> jsstr option" where
  "promptLineToDirectory line homeDirectory =
     (case parsePromptLine (promptLineKey line) of
        None \<Rightarrow> None
      | Some prompt \<Rightarrow>
          if pl_command prompt \<noteq> None then None else promptPathToDirectory (pl_label prompt) homeDirectory)"

definition directoryMatchesPromptLabel :: "jsstr \<Rightarrow> jsstr \<Rightarrow> jsstr option \<Rightarrow> bool" where
  "directoryMatchesPromptLabel directory promptLabel homeDirectory =
     (case opt_truthy (promptPathToDirectory promptLabel homeDirectory) of
        Some d \<Rightarrow> normalizeAbsolutePath directory = d
      | None \<Rightarrow>
          (let segments = filter (\<lambda>p. p \<noteq> []) (js_split 47 (normalizeAbsolutePath directory))
           in (if segments = [] then js ''/'' else last segments) = promptLabel))"

definition cd_failures :: "jsstr list" where
  "cd_failures =
     [js ''no such file or directory'', js ''not a directory'', js ''permission denied'',
      [27809, 26377, 37027, 20010, 25991, 20214, 25110, 30446, 24405], [19981, 26159, 30446, 24405], [26435, 38480, 19981, 22815], [26435, 38480, 34987, 25298, 32477]]"

fun cd_failure_in :: "jsstr \<Rightarrow> bool" where
  "cd_failure_in [] = False"
| "cd_failure_in (c # s) \<longleftrightarrow>
     (prefix (js ''cd:'') (c # s)
      \<and> list_ex (\<lambda>p. sublist p (takeWhile (\<lambda>c. \<not> is_line_terminator c) (drop 3 (c # s)))) cd_failures)
     \<or> cd_failure_in s"

definition isCdFailureLine :: "jsstr \<Rightarrow> bool" where
  "isCdFailureLine line = cd_failure_in (ascii_lower line)"

fun commandOutputHasCdFailure :: "jsstr list \<Rightarrow> bool" where
  "commandOutputHasCdFailure [] = False"
| "commandOutputHasCdFailure (l # ls) =
     (if parsePromptLine l \<noteq> None then False else if isCdFailureLine l then True else commandOutputHasCdFailure ls)"

text \<open>The loop over the lines, oldest first; the lines after the present one are the tail.\<close>

fun replay_lines :: "jsstr option \<Rightarrow> jsstr option \<Rightarrow> jsstr list \<Rightarrow> jsstr option" where
  "replay_lines homeDirectory currentDirectory [] = currentDirectory"
| "replay_lines homeDirectory currentDirectory (l # ls) =
     (case parsePromptLine l of
        None \<Rightarrow> replay_lines homeDirectory currentDirectory ls
      | Some prompt \<Rightarrow>
          (let current1 = (case opt_truthy (promptPathToDirectory (pl_label prompt) homeDirectory) of
                             Some d \<Rightarrow> Some d | None \<Rightarrow> currentDirectory)
           in case pl_command prompt of
                None \<Rightarrow> replay_lines homeDirectory current1 ls
              | Some command \<Rightarrow>
                  (case opt_truthy (resolveTerminalInputDirectoryLine command current1 homeDirectory) of
                     None \<Rightarrow> replay_lines homeDirectory current1 ls
                   | Some d \<Rightarrow>
                       if commandOutputHasCdFailure ls then replay_lines homeDirectory current1 ls
                       else replay_lines homeDirectory (Some d) ls)))"

definition replayPromptSnapshotDirectory :: "jsstr list \<Rightarrow> jsstr option \<Rightarrow> jsstr option" where
  "replayPromptSnapshotDirectory cleanLinesNewestFirst homeDirectory =
     replay_lines homeDirectory None (rev cleanLinesNewestFirst)"

definition promptSnapshotLinesToDirectory :: "jsstr list \<Rightarrow> jsstr option \<Rightarrow> jsstr option \<Rightarrow> jsstr option" where
  "promptSnapshotLinesToDirectory lines homeDirectory currentDirectory =
     (let cleanLines = map promptLineKey lines
      in case List.find (\<lambda>p. p \<noteq> None) (map parsePromptLine cleanLines) of
           Some (Some latest) \<Rightarrow>
             (case opt_truthy (promptPathToDirectory (pl_label latest) homeDirectory) of
                Some d \<Rightarrow> Some d
              | None \<Rightarrow>
                  (case opt_truthy currentDirectory of
                     Some cur \<Rightarrow>
                       if directoryMatchesPromptLabel cur (pl_label latest) homeDirectory
                       then Some (normalizeAbsolutePath cur)
                       else (case opt_truthy (replayPromptSnapshotDirectory cleanLines homeDirectory) of
                               Some r \<Rightarrow> if directoryMatchesPromptLabel r (pl_label latest) homeDirectory then Some r else None
                             | None \<Rightarrow> None)
                   | None \<Rightarrow>
                       (case opt_truthy (replayPromptSnapshotDirectory cleanLines homeDirectory) of
                          Some r \<Rightarrow> if directoryMatchesPromptLabel r (pl_label latest) homeDirectory then Some r else None
                        | None \<Rightarrow> None)))
         | _ \<Rightarrow> None)"

section \<open>Lemmas\<close>

lemma promptPath_canonical:
  "promptPathToDirectory p home = Some d \<Longrightarrow> canonical_dir d \<or> home = Some d"
  by (auto simp: promptPathToDirectory_def normalize_canonical split: if_splits option.splits)

definition good_dir :: "jsstr option \<Rightarrow> jsstr option \<Rightarrow> bool" where
  "good_dir home cur \<longleftrightarrow> (\<forall>c. cur = Some c \<longrightarrow> canonical_dir c \<or> home = Some c)"

lemma replay_Cons:
  assumes "good_dir home cur"
  obtains cur' where "replay_lines home cur (l # ls) = replay_lines home cur' ls" "good_dir home cur'"
proof (cases "parsePromptLine l")
  case None
  then show ?thesis using that [of cur] assms by simp
next
  case (Some prompt)
  define c1 where "c1 = (case opt_truthy (promptPathToDirectory (pl_label prompt) home) of
    Some d \<Rightarrow> Some d | None \<Rightarrow> cur)"
  have c1: "good_dir home c1"
    using assms promptPath_canonical [of "pl_label prompt" home]
    by (auto simp: good_dir_def c1_def opt_truthy_Some_iff split: option.splits)
  have step: "replay_lines home cur (l # ls) =
    (case pl_command prompt of None \<Rightarrow> replay_lines home c1 ls
     | Some command \<Rightarrow>
         (case opt_truthy (resolveTerminalInputDirectoryLine command c1 home) of
            None \<Rightarrow> replay_lines home c1 ls
          | Some d \<Rightarrow> if commandOutputHasCdFailure ls then replay_lines home c1 ls else replay_lines home (Some d) ls))"
    unfolding replay_lines.simps Some option.case c1_def Let_def ..
  show ?thesis
  proof (cases "pl_command prompt")
    case None
    then show ?thesis using that [OF _ c1] step by simp
  next
    case c: (Some command)
    show ?thesis
    proof (cases "opt_truthy (resolveTerminalInputDirectoryLine command c1 home)")
      case None
      then show ?thesis using that [OF _ c1] step c by simp
    next
      case d: (Some d)
      then have "good_dir home (Some d)"
        using resolveCd_canonical [of "js_trim command" c1 home d]
        by (auto simp: good_dir_def resolveTerminalInputDirectoryLine_def opt_truthy_Some_iff)
      then show ?thesis
        using that [OF _ c1] that [of "Some d"] step c d by (cases "commandOutputHasCdFailure ls") auto
    qed
  qed
qed

lemma replay_good: "good_dir home cur \<Longrightarrow> good_dir home (replay_lines home cur ls)"
proof (induction ls arbitrary: cur)
  case (Cons l ls)
  from replay_Cons [OF Cons.prems, of l ls] Cons.IH show ?case by metis
qed simp

lemma replay_canonical: "replayPromptSnapshotDirectory ls home = Some d \<Longrightarrow> canonical_dir d \<or> home = Some d"
  using replay_good [of home None "rev ls"] by (auto simp: replayPromptSnapshotDirectory_def good_dir_def)

lemma snapshot_canonical:
  assumes "promptSnapshotLinesToDirectory ls home cur = Some d"
  shows "canonical_dir d \<or> home = Some d"
proof -
  obtain latest where l: "List.find (\<lambda>p. p \<noteq> None) (map parsePromptLine (map promptLineKey ls)) = Some (Some latest)"
    using assms unfolding promptSnapshotLinesToDirectory_def Let_def
    by (cases "List.find (\<lambda>p. p \<noteq> None) (map parsePromptLine (map promptLineKey ls))") (auto split: option.splits)
  consider "promptPathToDirectory (pl_label latest) home = Some d" | c where "d = normalizeAbsolutePath c"
    | "replayPromptSnapshotDirectory (map promptLineKey ls) home = Some d"
    using assms unfolding promptSnapshotLinesToDirectory_def Let_def l option.case
    by (auto simp: opt_truthy_Some_iff split: option.splits if_splits)
  then show ?thesis
    using promptPath_canonical replay_canonical normalize_canonical by cases auto
qed

lemma trim_end_idem [simp]: "js_trim_end (js_trim_end s) = js_trim_end s"
  by (simp add: js_trim_end_def)

lemma trim_start_idem [simp]: "js_trim_start (js_trim_start s) = js_trim_start s"
  by (simp add: js_trim_start_def)

lemma trim_commute: "js_trim_start (js_trim_end s) = js_trim_end (js_trim_start s)"
proof (induction s)
  case Nil
  show ?case by (simp add: js_trim_end_def)
next
  case (Cons x s)
  show ?case
  proof (cases "is_ws x")
    case True
    then have "js_trim_start (x # s) = js_trim_start s" by (simp add: js_trim_start_def)
    moreover have "js_trim_start (js_trim_end (x # s)) = js_trim_start (js_trim_end s)"
      using True by (simp add: js_trim_end_Cons js_trim_start_def)
    ultimately show ?thesis using Cons.IH by simp
  next
    case False
    then show ?thesis by (simp add: js_trim_end_Cons js_trim_start_def)
  qed
qed

lemma strip_plain: "27 \<notin> set s \<Longrightarrow> stripAnsiSequences s = s"
  by (induction s) auto

lemma name_not_ws: "is_name_unit c \<Longrightarrow> \<not> is_ws c \<and> c \<noteq> 64 \<and> c \<noteq> 58 \<and> c \<noteq> 27"
  by (auto simp: is_name_unit_def is_ws_def)

lemma takeWhile_names:
  assumes "list_all P u" "\<not> P c"
  shows "takeWhile P (u @ c # r) = u" "dropWhile P (u @ c # r) = c # r"
  using assms by (simp_all add: takeWhile_append dropWhile_append list_all_iff)

lemma user_at_host_parse:
  assumes "u \<noteq> []" "h \<noteq> []" "list_all is_name_unit u" "list_all is_name_unit h" "\<not> is_name_unit c"
  shows "user_at_host (u @ 64 # h @ c # r) = Some (c # r)"
proof -
  have n: "\<not> is_name_unit 64" by (simp add: is_name_unit_def)
  show ?thesis
    using takeWhile_names [OF assms(3) n, of "h @ c # r"] takeWhile_names [OF assms(4,5), of r] assms(1,2)
    by (simp add: user_at_host_def)
qed

text \<open>The text a line shows: its characters without the complete escape sequences, which set colours and titles.\<close>

inductive line_shows :: "jsstr \<Rightarrow> jsstr \<Rightarrow> bool" where
  shows_end: "line_shows [] []"
| shows_char: "c \<noteq> 27 \<Longrightarrow> line_shows s t \<Longrightarrow> line_shows (c # s) (c # t)"
| shows_sequence: "complete_sequence e \<Longrightarrow> line_shows s t \<Longrightarrow> line_shows (27 # e @ s) t"

lemma strip_shown: "line_shows s t \<Longrightarrow> stripAnsiSequences s = t"
  by (induction rule: line_shows.induct) (simp_all add: skip_complete)

lemma shows_plain: "27 \<notin> set s \<Longrightarrow> line_shows s s"
  by (induction s) (auto intro: line_shows.intros)

text \<open>A prompt that shows a label and is followed by a command, perhaps an empty one: \<open>user@host:label$\<close> or
  \<open>[user@host label]$\<close>, with a dollar or a number sign, perhaps behind blanks.\<close>

definition name_text :: "jsstr \<Rightarrow> bool" where
  "name_text u \<longleftrightarrow> u \<noteq> [] \<and> list_all is_name_unit u"

definition label_text :: "jsstr \<Rightarrow> bool" where
  "label_text d \<longleftrightarrow> d \<noteq> [] \<and> js_trim d = d"

definition colon_line :: "jsstr \<Rightarrow> jsstr \<Rightarrow> jsstr \<Rightarrow> nat \<Rightarrow> jsstr \<Rightarrow> jsstr" where
  "colon_line u h d m command = u @ 64 # h @ 58 # d @ m # command"

definition bracket_line :: "jsstr \<Rightarrow> jsstr \<Rightarrow> jsstr \<Rightarrow> jsstr \<Rightarrow> nat \<Rightarrow> jsstr \<Rightarrow> jsstr" where
  "bracket_line u h blanks d m command = 91 # u @ 64 # h @ blanks @ d @ 93 # m # command"

definition prompt_shows :: "jsstr \<Rightarrow> jsstr \<Rightarrow> jsstr \<Rightarrow> bool" where
  "prompt_shows text d command \<longleftrightarrow>
     (\<exists>indent u h m blanks. list_all is_ws indent \<and> name_text u \<and> name_text h \<and> label_text d \<and> (m = 35 \<or> m = 36)
        \<and> (\<forall>c\<in>set command. \<not> is_line_terminator c)
        \<and> (text = indent @ colon_line u h d m command \<and> set d \<inter> {35, 36, 58} = {}
           \<or> text = indent @ bracket_line u h blanks d m command \<and> set d \<inter> {93, 13, 10} = {}
             \<and> blanks \<noteq> [] \<and> list_all is_ws blanks))"

lemma tail_parsed:
  assumes "\<forall>c\<in>set command. \<not> is_line_terminator c"
  shows "map_option (\<lambda>command. \<lparr>pl_command = normalizePromptCommand (Some command), pl_label = d\<rparr>) (command_tail (js_trim_end command))
    = Some \<lparr>pl_command = opt_truthy (Some (js_trim command)), pl_label = d\<rparr>"
proof -
  have "\<not> (\<exists>c\<in>set (js_trim_start (js_trim_end command)). is_line_terminator c)"
    using assms by (auto simp: js_trim_start_def js_trim_end_def dest!: set_dropWhileD)
  moreover have "js_trim (js_trim_start (js_trim_end command)) = js_trim command"
    by (simp add: js_trim_def trim_commute)
  ultimately show ?thesis by (simp add: command_tail_def normalizePromptCommand_def)
qed

lemma trim_end_mark: "m = 35 \<or> m = 36 \<Longrightarrow> js_trim_end (x @ m # command) = x @ m # js_trim_end command"
  by (induction x) (auto simp: js_trim_end_Cons is_ws_def)

lemma trim_start_indent: "list_all is_ws indent \<Longrightarrow> \<not> is_ws c \<Longrightarrow> js_trim_start (indent @ c # s) = c # s"
  by (induction indent) (simp_all add: js_trim_start_def)

lemma name_head: "name_text u \<Longrightarrow> \<exists>c u'. u = c # u' \<and> \<not> is_ws c"
  using name_not_ws by (cases u) (auto simp: name_text_def)

lemma trim_start_line:
  assumes "list_all is_ws indent" "name_text u"
  shows "js_trim_start (indent @ u @ s) = u @ s"
  using name_head [OF assms(2)] trim_start_indent [OF assms(1)] by auto

lemma colon_parsed:
  assumes "list_all is_ws indent" "name_text u" "name_text h" "label_text d" "m = 35 \<or> m = 36"
    "\<forall>c\<in>set command. \<not> is_line_terminator c" "set d \<inter> {35, 36, 58} = {}"
  shows "colon_prompt (indent @ colon_line u h d m (js_trim_end command))
    = Some \<lparr>pl_command = opt_truthy (Some (js_trim command)), pl_label = d\<rparr>"
proof -
  have "list_all (\<lambda>c. \<not> is_label_end c) d" using assms(7) by (auto simp: list_all_iff is_label_end_def)
  moreover have m: "\<not> \<not> is_label_end m" using assms(5) by (auto simp: is_label_end_def)
  ultimately have lab: "takeWhile (\<lambda>c. \<not> is_label_end c) (d @ m # js_trim_end command) = d"
    "dropWhile (\<lambda>c. \<not> is_label_end c) (d @ m # js_trim_end command) = m # js_trim_end command"
    by (auto intro: takeWhile_names)
  have "user_at_host (u @ 64 # h @ 58 # d @ m # js_trim_end command) = Some (58 # d @ m # js_trim_end command)"
    using assms(2,3) by (intro user_at_host_parse) (auto simp: name_text_def is_name_unit_def)
  moreover have "m \<noteq> 58" "d \<noteq> []" "js_trim d = d" using assms(4,5) by (auto simp: label_text_def)
  ultimately show ?thesis
    using trim_start_line [OF assms(1,2)] lab m tail_parsed [OF assms(6), of d]
    by (simp add: colon_prompt_def colon_line_def Let_def)
qed

lemma bracket_parsed:
  assumes "list_all is_ws indent" "name_text u" "name_text h" "label_text d" "m = 35 \<or> m = 36"
    "\<forall>c\<in>set command. \<not> is_line_terminator c" "set d \<inter> {93, 13, 10} = {}" "blanks \<noteq> []" "list_all is_ws blanks"
  shows "colon_prompt (indent @ bracket_line u h blanks d m (js_trim_end command)) = None"
    "bracket_prompt (indent @ bracket_line u h blanks d m (js_trim_end command))
    = Some \<lparr>pl_command = opt_truthy (Some (js_trim command)), pl_label = d\<rparr>"
proof -
  let ?r = "d @ 93 # m # js_trim_end command"
  have start: "js_trim_start (indent @ bracket_line u h blanks d m (js_trim_end command)) = 91 # u @ 64 # h @ blanks @ ?r"
    using trim_start_indent [OF assms(1), of 91] by (simp add: bracket_line_def is_ws_def)
  have "\<not> is_name_unit 91" by (simp add: is_name_unit_def)
  then have "user_at_host (91 # x) = None" for x by (simp add: user_at_host_def)
  then show "colon_prompt (indent @ bracket_line u h blanks d m (js_trim_end command)) = None"
    by (simp add: colon_prompt_def start)
  obtain b blanks' where b: "blanks = b # blanks'" "is_ws b" using assms(8,9) by (cases blanks) auto
  have "\<not> is_name_unit b" using b(2) name_not_ws by blast
  then have uh: "user_at_host (u @ 64 # h @ blanks @ ?r) = Some (blanks @ ?r)"
    using assms(2,3) user_at_host_parse [of u h b "blanks' @ ?r"] b(1) by (simp add: name_text_def)
  obtain c d' where d: "d = c # d'" using assms(4) by (cases d) (auto simp: label_text_def)
  have c: "\<not> is_ws c"
  proof
    assume "is_ws c"
    then have "js_trim d = js_trim d'" by (simp add: d js_trim_def js_trim_start_def)
    moreover have "length (js_trim d') \<le> length d'" by (rule length_js_trim)
    ultimately show False using assms(4) by (simp add: label_text_def d)
  qed
  have space: "takeWhile is_ws (blanks @ ?r) = blanks" "dropWhile is_ws (blanks @ ?r) = ?r"
    using takeWhile_names [OF assms(9) c, of "d' @ 93 # m # js_trim_end command"] by (simp_all add: d)
  have "list_all (\<lambda>c. \<not> is_bracket_end c) d" using assms(7) by (auto simp: list_all_iff is_bracket_end_def)
  moreover have "\<not> \<not> is_bracket_end 93" by (simp add: is_bracket_end_def)
  ultimately have lab: "takeWhile (\<lambda>c. \<not> is_bracket_end c) ?r = d" "dropWhile (\<lambda>c. \<not> is_bracket_end c) ?r = 93 # m # js_trim_end command"
    by (auto intro: takeWhile_names)
  have "d \<noteq> []" "js_trim d = d" using assms(4) by (simp_all add: label_text_def)
  then show "bracket_prompt (indent @ bracket_line u h blanks d m (js_trim_end command))
    = Some \<lparr>pl_command = opt_truthy (Some (js_trim command)), pl_label = d\<rparr>"
    using assms(5,8) tail_parsed [OF assms(6), of d]
    by (auto simp: bracket_prompt_def start uh space lab)
qed

lemma prompt_parsed:
  assumes "line_shows line text" "prompt_shows text d command"
  shows "parsePromptLine (promptLineKey line) = Some \<lparr>pl_command = opt_truthy (Some (js_trim command)), pl_label = d\<rparr>"
proof -
  have key: "promptLineKey line = js_trim_end text" using strip_shown [OF assms(1)] by (simp add: promptLineKey_def)
  from assms(2) obtain indent u h m blanks where p: "list_all is_ws indent" "name_text u" "name_text h" "label_text d" "m = 35 \<or> m = 36"
      "\<forall>c\<in>set command. \<not> is_line_terminator c"
    and form: "text = indent @ colon_line u h d m command \<and> set d \<inter> {35, 36, 58} = {}
       \<or> text = indent @ bracket_line u h blanks d m command \<and> set d \<inter> {93, 13, 10} = {} \<and> blanks \<noteq> [] \<and> list_all is_ws blanks"
    unfolding prompt_shows_def by (elim exE conjE) (rule that; assumption)
  from form show ?thesis
  proof (elim disjE conjE)
    assume f: "text = indent @ colon_line u h d m command" "set d \<inter> {35, 36, 58} = {}"
    have "js_trim_end text = indent @ colon_line u h d m (js_trim_end command)"
      using trim_end_mark [OF p(5), of "indent @ u @ 64 # h @ 58 # d" command] unfolding f(1) by (simp add: colon_line_def)
    then show ?thesis unfolding key parsePromptLine_def by (simp only: colon_parsed [OF p f(2)] option.case)
  next
    assume f: "text = indent @ bracket_line u h blanks d m command" "set d \<inter> {93, 13, 10} = {}" "blanks \<noteq> []" "list_all is_ws blanks"
    have "js_trim_end text = indent @ bracket_line u h blanks d m (js_trim_end command)"
      using trim_end_mark [OF p(5), of "indent @ 91 # u @ 64 # h @ blanks @ d @ [93]" command] unfolding f(1)
      by (simp add: bracket_line_def)
    then show ?thesis unfolding key parsePromptLine_def by (simp only: bracket_parsed [OF p f(2-4)] option.case)
  qed
qed

text \<open>A label that is only a name stands for the present directory if that is its last part.\<close>

lemma name_matches:
  assumes "\<forall>p\<in>set (parts @ [d]). plain_part p" "d \<noteq> js ''~''"
  shows "promptPathToDirectory d home = None"
    "directoryMatchesPromptLabel (47 # js_join [47] (parts @ [d])) d home"
    "normalizeAbsolutePath (47 # js_join [47] (parts @ [d])) = 47 # js_join [47] (parts @ [d])"
proof -
  have "47 \<notin> set d" "d \<noteq> []" using assms(1) by (simp_all add: plain_part_def)
  then show none: "promptPathToDirectory d home = None"
    using assms(2) by (auto simp: promptPathToDirectory_def js_def prefix_def)
  show same: "normalizeAbsolutePath (47 # js_join [47] (parts @ [d])) = 47 # js_join [47] (parts @ [d])"
    by (rule normalize_canonical_id) (use assms(1) in \<open>auto simp: canonical_dir_def intro!: exI [of _ "parts @ [d]"]\<close>)
  have "js_split 47 (js_join [47] (parts @ [d])) = parts @ [d]"
    by (rule js_split_join) (use assms(1) in \<open>auto simp: plain_part_def\<close>)
  then have "filter (\<lambda>p. p \<noteq> []) (js_split 47 (47 # js_join [47] (parts @ [d]))) = parts @ [d]"
    using assms(1) by (auto simp: plain_part_def intro: filter_True)
  then show "directoryMatchesPromptLabel (47 # js_join [47] (parts @ [d])) d home"
    unfolding directoryMatchesPromptLabel_def none same by simp
qed

text \<open>C38. The prompt reader announces only canonical absolute directories or the home directory. It reads the prompts
  \<open>user@host:label$\<close> and \<open>[user@host label]$\<close>, with a dollar or a number sign, behind any blanks and with any colours, if the label of the
  first form holds no colon, number sign and dollar and that of the second no closing bracket or line end. A canonical
  absolute path in the label is read back to exactly that path when nothing follows, and to nothing when a command follows;
  and on a screen whose newest line is such a prompt the path shown decides, whatever the older lines and the directory so far.
  A tilde is read as the home directory in the same way, alone or before a slash and more of a
  canonical path. A label that is only the last part of the present directory keeps that directory.\<close>

theorem prompt_directory_read:
  "(promptSnapshotLinesToDirectory ls home cur = Some e \<longrightarrow> canonical_dir e \<or> home = Some e)
   \<and> (line_shows line text \<and> prompt_shows text d command \<longrightarrow>
        (canonical_dir d \<longrightarrow>
           promptLineToDirectory line home = (if js_trim command = [] then Some d else None)
           \<and> promptSnapshotLinesToDirectory (line # ls) home cur = Some d)
        \<and> ((d = js ''~'' \<or> prefix (js ''~/'') d \<and> canonical_dir (dir @ tl d)) \<and> home = Some dir \<and> dir \<noteq> [] \<longrightarrow>
           promptLineToDirectory line home = (if js_trim command = [] then Some (dir @ tl d) else None)
           \<and> promptSnapshotLinesToDirectory (line # ls) home cur = Some (dir @ tl d))
        \<and> (d \<noteq> js ''~'' \<and> (\<forall>p\<in>set (parts @ [d]). plain_part p) \<and> cur = Some (47 # js_join [47] (parts @ [d])) \<longrightarrow>
           promptSnapshotLinesToDirectory (line # ls) home cur = cur))"
proof (intro conjI impI)
  show "canonical_dir e \<or> home = Some e" if "promptSnapshotLinesToDirectory ls home cur = Some e"
    using that by (rule snapshot_canonical)
next
  assume p: "line_shows line text \<and> prompt_shows text d command"
  have parsed: "parsePromptLine (promptLineKey line) = Some \<lparr>pl_command = opt_truthy (Some (js_trim command)), pl_label = d\<rparr>"
    using p by (intro prompt_parsed) auto
  have read: "promptLineToDirectory line home = (if js_trim command = [] then Some x else None)"
    "promptSnapshotLinesToDirectory (line # ls) home cur = Some x" if "promptPathToDirectory d home = Some x" "x \<noteq> []" for x
    using that by (simp_all add: promptLineToDirectory_def promptSnapshotLinesToDirectory_def parsed)
  have shown: "promptPathToDirectory d home = Some d \<and> d \<noteq> []" if "canonical_dir d"
  proof -
    have "\<exists>r. d = 47 # r" using that by (auto simp: canonical_dir_def)
    then show ?thesis using normalize_canonical_id [OF that] by (auto simp: promptPathToDirectory_def js_def)
  qed
  show "promptLineToDirectory line home = (if js_trim command = [] then Some d else None)"
    "promptSnapshotLinesToDirectory (line # ls) home cur = Some d" if "canonical_dir d"
    using read [of d] shown [OF that] by blast+
  show "promptLineToDirectory line home = (if js_trim command = [] then Some (dir @ tl d) else None)"
    "promptSnapshotLinesToDirectory (line # ls) home cur = Some (dir @ tl d)"
    if h: "(d = js ''~'' \<or> prefix (js ''~/'') d \<and> canonical_dir (dir @ tl d)) \<and> home = Some dir \<and> dir \<noteq> []"
  proof -
    have "promptPathToDirectory d home = Some (dir @ tl d)"
      using h normalize_canonical_id [of "dir @ tl d"]
      by (auto simp: promptPathToDirectory_def js_def prefix_def drop_Suc)
    then show "promptLineToDirectory line home = (if js_trim command = [] then Some (dir @ tl d) else None)"
      "promptSnapshotLinesToDirectory (line # ls) home cur = Some (dir @ tl d)"
      using read [of "dir @ tl d"] h by simp_all
  qed
  show "promptSnapshotLinesToDirectory (line # ls) home cur = cur"
    if "d \<noteq> js ''~'' \<and> (\<forall>p\<in>set (parts @ [d]). plain_part p) \<and> cur = Some (47 # js_join [47] (parts @ [d]))"
    using that name_matches [of parts d]
    by (simp add: promptSnapshotLinesToDirectory_def parsed opt_truthy_def)
qed

text \<open>A path that holds a number sign is read as what stands before the sign.\<close>

lemma number_sign_cuts_path:
  "promptSnapshotLinesToDirectory [js ''me@box:/a#b$''] None None = Some (js ''/a'')"
proof -
  have "prompt_shows (js ''me@box:/a#b$'') (js ''/a'') (js ''b$'')"
    unfolding prompt_shows_def
    by (intro exI [of _ "[]"] exI [of _ "js ''me''"] exI [of _ "js ''box''"] exI [of _ 35])
      (simp add: js_def name_text_def label_text_def colon_line_def is_name_unit_def js_trim_id is_ws_def
        is_line_terminator_def is_label_end_def)
  moreover have "line_shows (js ''me@box:/a#b$'') (js ''me@box:/a#b$'')" by (rule shows_plain) (simp add: js_def)
  ultimately have "parsePromptLine (promptLineKey (js ''me@box:/a#b$''))
      = Some \<lparr>pl_command = opt_truthy (Some (js_trim (js ''b$''))), pl_label = js ''/a''\<rparr>"
    by (rule prompt_parsed [rotated])
  moreover have "canonical_dir (js ''/a'')"
    unfolding canonical_dir_def by (intro exI [of _ "[js ''a'']"]) (simp add: plain_part_def js_def)
  ultimately show ?thesis
    using normalize_canonical_id [of "js ''/a''"]
    by (simp add: promptSnapshotLinesToDirectory_def promptPathToDirectory_def)
qed

text \<open>A root prompt in colour.\<close>

lemma prompt_directory_read_witness:
  "promptLineToDirectory (27 # js ''[1m'' @ js ''[root@box /a]# '') None = Some (js ''/a'')"
proof -
  have "complete_sequence (91 # js ''1'' @ [109])"
    unfolding complete_sequence_def by (intro disjI1 exI [of _ "js ''1''"] exI [of _ 109]) (simp add: js_def final_unit_def)
  moreover have "line_shows (js ''[root@box /a]# '') (js ''[root@box /a]# '')" by (rule shows_plain) (simp add: js_def)
  ultimately have shown: "line_shows (27 # js ''[1m'' @ js ''[root@box /a]# '') (js ''[root@box /a]# '')"
    using shows_sequence [of "91 # js ''1'' @ [109]"] by (simp add: js_def)
  have "prompt_shows (js ''[root@box /a]# '') (js ''/a'') (js '' '')"
    unfolding prompt_shows_def
    by (intro exI [of _ "[]"] exI [of _ "js ''root''"] exI [of _ "js ''box''"] exI [of _ 35] exI [of _ "js '' ''"])
      (simp add: js_def name_text_def label_text_def bracket_line_def is_name_unit_def js_trim_id is_ws_def is_line_terminator_def)
  moreover have "canonical_dir (js ''/a'')"
    unfolding canonical_dir_def by (intro exI [of _ "[js ''a'']"]) (simp add: plain_part_def js_def)
  moreover have "js_trim (js '' '') = []" by (simp add: js_def js_trim_def js_trim_start_def js_trim_end_def is_ws_def)
  ultimately show ?thesis
    using prompt_directory_read [THEN conjunct2, THEN mp, OF conjI [OF shown], THEN conjunct1, THEN mp, THEN conjunct1,
        of "js ''/a''" "js '' ''" None] by simp
qed

end
