(* ===== verification/Ai_Types.thy ===== *)
theory Ai_Types
  imports Js_Value
begin

text \<open>
  The data of the AI assistant: the types of \<open>src/features/ai/aiTypes.ts\<close> and the state one scope of
  the assistant keeps, from \<open>aiAssistantScopeStore.ts\<close>. Offsets, counts and times reach the program as
  integers of the backend's JSON and are integers here. Statuses the sources type as \<open>string\<close> are
  strings; the closed unions are datatypes.
\<close>

section \<open>Contexts, tool calls and messages\<close>

record ai_context =
  ax_id :: jsstr
  ax_kind :: jsstr
  ax_title :: jsstr
  ax_content :: jsstr
  ax_source :: jsstr
  ax_line_count :: nat
  ax_char_count :: nat
  ax_artifact_id :: "jsstr option"
  ax_storage_kind :: "jsstr option"
  ax_mime_type :: "jsstr option"
  ax_size_bytes :: "int option"
  ax_data_url :: "jsstr option"

datatype ai_risk = RiskSafe | RiskDangerous

record ai_command_suggestion =
  cs_command :: jsstr
  cs_risk :: ai_risk
  cs_reasons :: "jsstr list"

record ai_file_activity =
  fa_path :: jsstr
  fa_operation :: jsstr
  fa_destination :: "jsstr option"
  fa_added_lines :: "int option"
  fa_removed_lines :: "int option"

record ai_user_option =
  uo_id :: jsstr
  uo_label :: jsstr
  uo_description :: "jsstr option"

record ai_user_answer =
  ua_option_id :: "jsstr option"
  ua_text :: "jsstr option"
  ua_cancelled :: "bool option"

record ai_tool_call =
  tl_id :: jsstr
  tl_name :: jsstr
  tl_arguments :: "jsstr option"
  tl_file_activity :: "ai_file_activity option"
  tl_command :: "jsstr option"
  tl_status :: jsstr
  tl_risk :: "ai_risk option"
  tl_reasons :: "jsstr list"
  tl_exit_status :: "int option"
  tl_output :: jsstr
  tl_output_truncated :: bool
  tl_output_artifact_id :: "jsstr option"
  tl_duration_ms :: "int option"
  tl_error :: "jsstr option"
  tl_text_offset :: int
  tl_created_at_ms :: "int option"
  tl_started_at_ms :: "int option"
  tl_finished_at_ms :: "int option"
  tl_approval_required :: "bool option"
  tl_approval_decision :: "jsstr option"
  tl_connection_id :: "jsstr option"
  tl_workspace :: "jsstr option"
  tl_question :: "jsstr option"
  tl_options :: "ai_user_option list option"
  tl_allow_free_text :: "bool option"
  tl_answer :: "ai_user_answer option"

datatype ai_change_status = ChangeApplied | ChangePartial | ChangeReverted

record ai_file_change_entry =
  fe_path :: jsstr
  fe_target :: jsstr
  fe_added_lines :: int
  fe_removed_lines :: int

record ai_file_change_summary =
  fs_checkpoint_id :: jsstr
  fs_message_id :: jsstr
  fs_status :: ai_change_status
  fs_files :: "ai_file_change_entry list"
  fs_added_lines :: int
  fs_removed_lines :: int
  fs_remaining_changes :: int

record ai_thinking_update =
  tu_id :: jsstr
  tu_text_offset :: int
  tu_tool_offset :: int
  tu_started_at_ms :: int
  tu_finished_at_ms :: "int option"

record ai_thinking_block = ai_thinking_update +
  tb_content :: jsstr

record ai_message =
  am_id :: jsstr
  am_session_id :: jsstr
  am_role :: jsstr
  am_content :: jsstr
  am_thinking :: jsstr
  am_thinking_blocks :: "ai_thinking_block list option"
  am_contexts :: "ai_context list"
  am_commands :: "ai_command_suggestion list"
  am_tool_calls :: "ai_tool_call list"
  am_file_changes :: "ai_file_change_summary list option"
  am_status :: jsstr
  am_created_at :: jsstr
  am_updated_at :: jsstr

section \<open>Requests\<close>

datatype ai_workspace_type = WorkspaceRemote | WorkspaceLocal

datatype ai_agent_mode = AgentExecute | AgentFull

record ai_agent_request =
  ag_connection_id :: "jsstr option"
  ag_workspace_type :: "ai_workspace_type option"
  ag_workspace_path :: "jsstr option"
  ag_local_workspace_path :: "jsstr option"
  ag_mode :: "ai_agent_mode option"
  ag_working_directory :: "jsstr option"
  ag_terminal_output :: "jsstr option"
  ag_terminal_session_id :: "jsstr option"

record ai_client_ids =
  ids_stream_id :: jsstr
  ids_session_id :: jsstr
  ids_user_message_id :: jsstr
  ids_assistant_message_id :: jsstr

record ai_request =
  ar_provider_config_id :: jsstr
  ar_session_id :: "jsstr option"
  ar_content :: jsstr
  ar_contexts :: "ai_context list option"
  ar_agent :: "ai_agent_request option"
  ar_reasoning_level :: "jsstr option"
  ar_model :: "jsstr option"
  ar_host_scope :: "jsstr option"
  ar_connection_id :: "jsstr option"
  ar_client_ids :: "ai_client_ids option"

section \<open>Events of the stream\<close>

datatype ai_event_kind = KindChunk | KindThinking | KindToolCall | KindToolOutput | KindBackgroundTask
  | KindFileChanges | KindMessageInjected | KindFinished | KindError | KindStopped

record ai_tool_output =
  to_tool_call_id :: jsstr
  to_delta :: jsstr
  to_stream :: jsstr

record ai_background_task =
  bt_task_id :: jsstr
  bt_tool_call_id :: jsstr
  bt_status :: jsstr
  bt_exit_status :: "int option"
  bt_output_artifact_id :: "jsstr option"
  bt_output_preview :: jsstr

record ai_injection =
  ij_queue_ids :: "jsstr list"
  ij_previous_message :: ai_message
  ij_user_messages :: "ai_message list"
  ij_assistant_message :: ai_message

record ai_stream_event =
  ae_kind :: ai_event_kind
  ae_stream_id :: jsstr
  ae_session_id :: jsstr
  ae_message_id :: jsstr
  ae_delta :: "jsstr option"
  ae_thinking_delta :: "jsstr option"
  ae_thinking_update :: "ai_thinking_update option"
  ae_content :: "jsstr option"
  ae_error :: "jsstr option"
  ae_tool_call :: "ai_tool_call option"
  ae_tool_output :: "ai_tool_output option"
  ae_background_task :: "ai_background_task option"
  ae_file_changes :: "ai_file_change_summary list option"
  ae_injection :: "ai_injection option"

section \<open>The state of a scope\<close>

record ai_stream_state =
  as_assistantMessageId :: jsstr
  as_sessionId :: jsstr
  as_streamId :: jsstr
  as_ready :: "bool option"
  as_request :: "ai_request option"
  as_stopRequested :: "bool option"

datatype ai_queue_status = QueueQueued | QueueSending | QueueAccepted | QueueFailed

record ai_queued_message =
  aq_id :: jsstr
  aq_sessionId :: jsstr
  aq_content :: jsstr
  aq_contexts :: "ai_context list"
  aq_request :: ai_request
  aq_immediate :: bool
  aq_insertionStreamId :: "jsstr option"
  aq_status :: ai_queue_status
  aq_error :: "jsstr option"

record ai_scope =
  sc_activeSessionId :: "jsstr option"
  sc_messages :: "ai_message list"
  sc_streamState :: "ai_stream_state option"
  sc_queuedMessages :: "ai_queued_message list"
  sc_queueAutoRun :: bool
  sc_contextBlocks :: "ai_context list"
  sc_input :: jsstr
  sc_remoteWorkspacePath :: "jsstr option"
  sc_historyScopeChoice :: jsstr
  sc_selectedUserOptionIds :: "(jsstr \<times> jsstr) list"
  sc_userInputDrafts :: "(jsstr \<times> jsstr) list"
  sc_expandedToolCallIds :: "(jsstr \<times> bool) list"

datatype ai_end_status = EndFinished | EndStopped | EndError

datatype ai_effect = StreamEnded ai_end_status "jsstr option" | BackgroundTask jsstr

definition AI_HISTORY_SCOPE_CURRENT :: jsstr where
  "AI_HISTORY_SCOPE_CURRENT = js ''__current__''"

definition createDefaultScopeState :: ai_scope where
  "createDefaultScopeState =
     \<lparr>sc_activeSessionId = None, sc_messages = [], sc_streamState = None, sc_queuedMessages = [],
      sc_queueAutoRun = False, sc_contextBlocks = [], sc_input = [], sc_remoteWorkspacePath = None,
      sc_historyScopeChoice = AI_HISTORY_SCOPE_CURRENT, sc_selectedUserOptionIds = [],
      sc_userInputDrafts = [], sc_expandedToolCallIds = []\<rparr>"

end
