(* ===== verification/Ai_Flow.thy ===== *)
theory Ai_Flow
  imports Ai_Types Js_Sort
begin

text \<open>
  How the assistant's messages grow and are laid out: \<open>aiMessageFlow.ts\<close> (thinking blocks, and the
  interleaving of text, thoughts and tool calls), \<open>aiFileChanges.ts\<close> and \<open>aiFileActivity.ts\<close>. A
  function that may return the very array it was given, which its callers test with \<open>===\<close>, returns
  \<^term>\<open>None\<close> for it.
\<close>

section \<open>Thinking blocks\<close>

definition thinking_block :: "ai_thinking_update \<Rightarrow> jsstr \<Rightarrow> ai_thinking_block" where
  "thinking_block u content = ai_thinking_update.extend u (ai_thinking_block.fields content)"

definition last_block :: "ai_thinking_block list \<Rightarrow> ai_thinking_block option" where
  "last_block blocks = (if blocks = [] then None else Some (last blocks))"

definition new_thinking_update :: "int \<Rightarrow> ai_message \<Rightarrow> ai_thinking_block list \<Rightarrow> ai_thinking_update" where
  "new_thinking_update now message blocks =
     \<lparr>tu_id = am_id message @ js ''-thinking-'' @ dec_digits (length blocks + 1),
      tu_text_offset = int (length (code_points (am_content message))),
      tu_tool_offset = int (length (am_tool_calls message)),
      tu_started_at_ms = now, tu_finished_at_ms = None\<rparr>"

definition appendThinkingDelta ::
  "int \<Rightarrow> ai_message \<Rightarrow> jsstr \<Rightarrow> ai_thinking_update option \<Rightarrow> ai_message" where
  "appendThinkingDelta now message delta update =
     (if delta = [] \<and> update = None then message
      else
        (let blocks = or_else (am_thinking_blocks message) [];
             previous =
               (case update of
                  Some u \<Rightarrow> List.find (\<lambda>block. tu_id block = tu_id u) blocks
                | None \<Rightarrow>
                    (case last_block blocks of
                       Some block \<Rightarrow> if tu_finished_at_ms block = None then Some block else None
                     | None \<Rightarrow> None))
         in if delta = [] \<and> previous = None then message
            else
              (let nextUpdate = (case update of Some u \<Rightarrow> u | None \<Rightarrow> new_thinking_update now message blocks);
                   next = thinking_block nextUpdate
                     ((case previous of Some block \<Rightarrow> tb_content block | None \<Rightarrow> []) @ delta)
               in message\<lparr>am_thinking := am_thinking message @ delta,
                    am_thinking_blocks := Some
                      (case previous of
                         Some p \<Rightarrow> map (\<lambda>block. if tu_id block = tu_id p then next\<lparr>tu_id := tu_id p\<rparr> else block) blocks
                       | None \<Rightarrow> blocks @ [next])\<rparr>)))"

definition finishThinkingBlock :: "int \<Rightarrow> ai_message \<Rightarrow> ai_message" where
  "finishThinkingBlock now message =
     (let blocks = or_else (am_thinking_blocks message) []
      in case last_block blocks of
           None \<Rightarrow> message
         | Some active \<Rightarrow>
             if tu_finished_at_ms active \<noteq> None then message
             else message\<lparr>am_thinking_blocks := Some
               (map (\<lambda>block. if tu_id block = tu_id active then block\<lparr>tu_finished_at_ms := Some now\<rparr> else block)
                  blocks)\<rparr>)"

section \<open>The flow of a message\<close>

datatype ai_flow_item = FlowText (flow_id: jsstr) (flow_text: jsstr)
  | FlowThinking (flow_id: jsstr) (flow_block: ai_thinking_block)
  | FlowTool (flow_id: jsstr) (flow_call: ai_tool_call)

record flow_boundary =
  fb_offset :: int
  fb_order :: int
  fb_item :: ai_flow_item

definition tool_boundary :: "nat \<Rightarrow> ai_tool_call \<Rightarrow> flow_boundary" where
  "tool_boundary index call =
     \<lparr>fb_offset = tl_text_offset call, fb_order = int index * 2 + 1, fb_item = FlowTool (tl_id call) call\<rparr>"

definition thinking_boundary :: "ai_thinking_block \<Rightarrow> flow_boundary" where
  "thinking_boundary block =
     \<lparr>fb_offset = tu_text_offset block, fb_order = tu_tool_offset block * 2,
      fb_item = FlowThinking (tu_id block) block\<rparr>"

definition boundary_gt :: "flow_boundary \<Rightarrow> flow_boundary \<Rightarrow> bool" where
  "boundary_gt a b =
     (if fb_offset a - fb_offset b \<noteq> 0 then 0 < fb_offset a - fb_offset b else 0 < fb_order a - fb_order b)"

definition legacy_thinking :: "ai_message \<Rightarrow> bool \<Rightarrow> ai_thinking_block" where
  "legacy_thinking message streaming =
     \<lparr>tu_id = am_id message @ js ''-legacy-thinking'', tu_text_offset = 0, tu_tool_offset = 0,
      tu_started_at_ms = 0, tu_finished_at_ms = (if streaming then None else Some 0),
      tb_content = am_thinking message\<rparr>"

definition flow_blocks :: "ai_message \<Rightarrow> bool option \<Rightarrow> ai_thinking_block list" where
  "flow_blocks message streamingOverride =
     (let streaming = or_else streamingOverride (am_status message = js ''streaming'')
      in case am_thinking_blocks message of
           Some (block # blocks) \<Rightarrow> block # blocks
         | _ \<Rightarrow> if am_thinking message \<noteq> [] then [legacy_thinking message streaming] else [])"

definition text_piece :: "nat \<Rightarrow> jsstr \<Rightarrow> ai_flow_item list" where
  "text_piece cursor s = (if js_trim s \<noteq> [] then [FlowText (js ''text-'' @ dec_digits cursor) s] else [])"

text \<open>The loop over the boundaries, from the code point \<open>cursor\<close>, with the text after the last one.\<close>

fun flow_loop :: "jsstr list \<Rightarrow> nat \<Rightarrow> flow_boundary list \<Rightarrow> ai_flow_item list" where
  "flow_loop chars cursor [] = text_piece cursor (concat (drop cursor chars))"
| "flow_loop chars cursor (b # bs) =
     (let offset = nat (min (max (fb_offset b) (int cursor)) (int (length chars)))
      in text_piece cursor (concat (take (offset - cursor) (drop cursor chars)))
           @ fb_item b # flow_loop chars offset bs)"

definition flow_boundaries :: "ai_message \<Rightarrow> bool option \<Rightarrow> flow_boundary list" where
  "flow_boundaries message streamingOverride =
     js_sort boundary_gt
       (map (\<lambda>(index, call). tool_boundary index call) (enumerate 0 (am_tool_calls message))
          @ map thinking_boundary (flow_blocks message streamingOverride))"

definition buildAiMessageFlow :: "ai_message \<Rightarrow> bool option \<Rightarrow> ai_flow_item list" where
  "buildAiMessageFlow message streamingOverride =
     flow_loop (code_points (am_content message)) 0 (flow_boundaries message streamingOverride)"

section \<open>File changes and activity\<close>

definition change_message :: "ai_file_change_summary list \<Rightarrow> ai_message \<Rightarrow> ai_message" where
  "change_message updates message =
     (let checkpoints = alist_of_updates
            (map (\<lambda>summary. (fs_checkpoint_id summary, summary))
               (or_else (am_file_changes message) [] @ updates))
      in message\<lparr>am_file_changes := Some (map snd checkpoints)\<rparr>)"

definition applyFileChangeSummaries ::
  "ai_message list \<Rightarrow> jsstr \<Rightarrow> ai_file_change_summary list \<Rightarrow> ai_message list option" where
  "applyFileChangeSummaries messages sessionId summaries =
     (let updates = (\<lambda>message. filter (\<lambda>summary. fs_message_id summary = am_id message) summaries);
          touched = (\<lambda>message. am_session_id message = sessionId \<and> updates message \<noteq> [])
      in if \<exists>message\<in>set messages. touched message
         then Some (map (\<lambda>message. if touched message then change_message (updates message) message else message)
                      messages)
         else None)"

definition fileTools :: "jsstr list" where
  "fileTools = [js ''read_file'', js ''preview_patch'', js ''apply_patch'', js ''preview_file_change'',
     js ''apply_file_change'', js ''rollback_patch'']"

definition isFileActivity :: "ai_tool_call \<Rightarrow> bool" where
  "isFileActivity call \<longleftrightarrow> tl_name call \<in> set fileTools"

text \<open>\<open>parse\<close> is \<open>JSON.parse\<close>, \<^term>\<open>None\<close> when it throws. Its result has no inherited property named here.\<close>

definition getFileActivity :: "(jsstr \<Rightarrow> json option) \<Rightarrow> ai_tool_call \<Rightarrow> ai_file_activity option" where
  "getFileActivity parse call =
     (if \<not> isFileActivity call then None
      else
        (case tl_file_activity call of
           Some activity \<Rightarrow> Some activity
         | None \<Rightarrow>
             (case parse (opt_str_or (tl_arguments call) (js ''{}'')) of
                None \<Rightarrow> None
              | Some args \<Rightarrow>
                  (case js_get args (js ''path'') of
                     JString path \<Rightarrow>
                       if path = [] then None
                       else Some
                         \<lparr>fa_path = path,
                          fa_operation =
                            (if tl_name call = js ''read_file'' then js ''read''
                             else (case js_get args (js ''operation'') of JString s \<Rightarrow> s | _ \<Rightarrow> js ''patch'')),
                          fa_destination =
                            (case js_get args (js ''destination'') of JString s \<Rightarrow> Some s | _ \<Rightarrow> None),
                          fa_added_lines = None, fa_removed_lines = None\<rparr>
                   | _ \<Rightarrow> None))))"

definition fileActivityLabel :: "ai_tool_call \<Rightarrow> ai_file_activity option \<Rightarrow> jsstr" where
  "fileActivityLabel call activity =
     (if prefix (js ''preview_'') (tl_name call) then [39044, 35272] \<comment> \<open>preview\<close>
      else if tl_name call = js ''read_file'' then [35835, 21462] \<comment> \<open>read\<close>
      else if tl_name call = js ''rollback_patch'' then [22238, 28378] \<comment> \<open>roll back\<close>
      else
        (let operation = map_option fa_operation activity
         in if operation = Some (js ''create'') then [26032, 24314] \<comment> \<open>create\<close>
            else if operation = Some (js ''delete'') then [21024, 38500] \<comment> \<open>delete\<close>
            else if operation = Some (js ''rename'') then [37325, 21629, 21517] \<comment> \<open>rename\<close>
            else [32534, 36753] \<comment> \<open>edit\<close>))"

text \<open>The file name and the directory. \<open>lastIndexOf\<close> is -1 where \<^const>\<open>last_index_unit\<close> is \<^term>\<open>None\<close>.\<close>

definition splitActivityPath :: "jsstr \<Rightarrow> jsstr \<times> jsstr" where
  "splitActivityPath path =
     (let last_at = (\<lambda>c. case last_index_unit c path of None \<Rightarrow> -1 | Some i \<Rightarrow> int i);
          index = max (last_at 47) (last_at 92)
      in (str_or (drop (nat (index + 1)) path) path,
          if index < 0 then [] else take (nat (index + 1)) path))"

section \<open>The flow keeps the message\<close>

definition visible :: "jsstr \<Rightarrow> jsstr" where
  "visible s = filter (\<lambda>c. \<not> is_ws c) s"

fun flow_content :: "ai_flow_item \<Rightarrow> jsstr" where
  "flow_content (FlowText i s) = s"
| "flow_content _ = []"

definition is_text :: "ai_flow_item \<Rightarrow> bool" where
  "is_text item = (case item of FlowText _ _ \<Rightarrow> True | _ \<Rightarrow> False)"

definition flow_texts :: "ai_flow_item list \<Rightarrow> jsstr" where
  "flow_texts items = concat (map flow_content items)"

fun item_offset :: "ai_flow_item \<Rightarrow> int" where
  "item_offset (FlowText i s) = 0"
| "item_offset (FlowThinking i block) = tu_text_offset block"
| "item_offset (FlowTool i call) = tl_text_offset call"

lemma is_text_FlowText: "is_text (FlowText i s)"
  by (simp add: is_text_def)

lemma visible_append [simp]: "visible (s @ t) = visible s @ visible t"
  by (simp add: visible_def)

lemma flow_texts_simps [simp]:
  "flow_texts [] = []"
  "flow_texts (x # xs) = flow_content x @ flow_texts xs"
  "flow_texts (xs @ ys) = flow_texts xs @ flow_texts ys"
  by (simp_all add: flow_texts_def)

lemma filter_dropWhile: "filter (\<lambda>c. \<not> P c) (dropWhile P s) = filter (\<lambda>c. \<not> P c) s"
  by (induction s) auto

lemma visible_trim: "visible (js_trim s) = visible s"
  by (simp add: visible_def js_trim_def js_trim_start_def js_trim_end_def filter_dropWhile rev_filter [symmetric])

lemma trim_Nil_visible: "js_trim s = [] \<Longrightarrow> visible s = []"
  using visible_trim [of s] by (simp add: visible_def)

lemma visible_piece [simp]: "visible (flow_texts (text_piece cursor s)) = visible s"
proof (cases "js_trim s = []")
  case True
  then show ?thesis using trim_Nil_visible [OF True] by (simp add: text_piece_def visible_def)
qed (simp add: text_piece_def)

definition marks :: "flow_boundary list \<Rightarrow> bool" where
  "marks bs \<longleftrightarrow> (\<forall>b\<in>set bs. \<not> is_text (fb_item b) \<and> item_offset (fb_item b) = fb_offset b)"

lemma non_text_content: "\<not> is_text item \<Longrightarrow> flow_content item = []"
  by (cases item) (simp_all add: is_text_def)

lemma piece_text: "item \<in> set (text_piece cursor s) \<Longrightarrow> is_text item"
  by (simp add: text_piece_def is_text_def split: if_splits)

lemma flow_loop_text:
  "marks bs \<Longrightarrow> visible (flow_texts (flow_loop chars cursor bs)) = visible (concat (drop cursor chars))"
proof (induction bs arbitrary: cursor)
  case (Cons b bs)
  let ?o = "nat (min (max (fb_offset b) (int cursor)) (int (length chars)))"
  have "concat (drop cursor chars) = concat (take (?o - cursor) (drop cursor chars)) @ concat (drop ?o chars)"
  proof -
    have "cursor \<le> ?o \<or> length chars \<le> cursor" by auto
    then have "drop ?o chars = drop (?o - cursor) (drop cursor chars)" by auto
    then show ?thesis by (metis append_take_drop_id concat_append)
  qed
  moreover have "visible (flow_texts (flow_loop chars ?o bs)) = visible (concat (drop ?o chars))"
    using Cons by (simp add: marks_def)
  moreover have "flow_content (fb_item b) = []" using Cons.prems by (simp add: marks_def non_text_content)
  ultimately show ?case by (simp add: Let_def)
qed (simp add: visible_def [symmetric])

lemma flow_loop_marks: "marks bs \<Longrightarrow> filter (\<lambda>i. \<not> is_text i) (flow_loop chars cursor bs) = map fb_item bs"
  by (induction bs arbitrary: cursor) (auto simp: Let_def marks_def filter_empty_conv dest: piece_text)

lemma take_between: "take (min n (length xs) - k) (drop k xs) = drop k (take n xs)"
  by (simp add: drop_take min_def)

lemma split_after_texts:
  assumes "piece @ x # rest = before @ item # after" "\<And>i. i \<in> set piece \<Longrightarrow> is_text i" "\<not> is_text item"
  shows "(before = piece \<and> item = x) \<or> (\<exists>bf. before = piece @ x # bf \<and> rest = bf @ item # after)"
  using assms
proof (induction piece arbitrary: before)
  case Nil
  then show ?case by (cases before) auto
next
  case (Cons p piece)
  from Cons.prems show ?case
  proof (cases before)
    case (Cons q bs)
    with Cons.prems Cons.IH [of bs] show ?thesis by auto
  qed auto
qed

text \<open>Where an item stands: the visible text before it is the visible text of the code points before its offset.\<close>

lemma flow_loop_place:
  assumes "marks bs" "sorted_wrt (\<lambda>a b. fb_offset a \<le> fb_offset b) bs" "cursor \<le> length chars"
    "\<forall>b\<in>set bs. int cursor \<le> max 0 (fb_offset b)"
    "flow_loop chars cursor bs = before @ item # after" "\<not> is_text item"
  shows "visible (flow_texts before)
    = visible (concat (drop cursor (take (nat (item_offset item)) chars)))"
  using assms
proof (induction bs arbitrary: cursor before)
  case Nil
  then have "item \<in> set (text_piece cursor (concat (drop cursor chars)))" by simp
  with Nil.prems(6) show ?case using piece_text by blast
next
  case (Cons b bs)
  let ?o = "nat (min (max (fb_offset b) (int cursor)) (int (length chars)))"
  let ?piece = "text_piece cursor (concat (take (?o - cursor) (drop cursor chars)))"
  have len: "cursor \<le> ?o" "?o \<le> length chars" using Cons.prems(3) by auto
  have marked: "\<not> is_text (fb_item b)" "item_offset (fb_item b) = fb_offset b" "marks bs"
    using Cons.prems(1) by (simp_all add: marks_def)
  have b: "int cursor \<le> max 0 (fb_offset b)" using Cons.prems(4) by simp
  have o: "?o = min (nat (fb_offset b)) (length chars)" using b Cons.prems(3) by auto
  have "?piece @ fb_item b # flow_loop chars ?o bs = before @ item # after"
    using Cons.prems(5) by (simp add: Let_def)
  then consider "before = ?piece" "item = fb_item b"
    | bf where "before = ?piece @ fb_item b # bf" "flow_loop chars ?o bs = bf @ item # after"
    using split_after_texts [OF _ _ Cons.prems(6)] piece_text by blast
  then show ?case
  proof cases
    case 1
    have "take (?o - cursor) (drop cursor chars) = drop cursor (take (nat (fb_offset b)) chars)"
      by (simp only: o take_between)
    with 1 marked show ?thesis by simp
  next
    case 2
    have later: "item \<in> set (flow_loop chars ?o bs)" using 2 by simp
    then have "item \<in> set (filter (\<lambda>i. \<not> is_text i) (flow_loop chars ?o bs))" using Cons.prems(6) by simp
    then have "item \<in> fb_item ` set bs" by (simp only: flow_loop_marks [OF marked(3)] list.set_map)
    then obtain c where c: "c \<in> set bs" "item = fb_item c" by blast
    then have off: "item_offset item = fb_offset c" "fb_offset b \<le> fb_offset c"
      using Cons.prems(1,2) by (simp_all add: marks_def)
    have ih: "visible (flow_texts bf) = visible (concat (drop ?o (take (nat (item_offset item)) chars)))"
    proof (rule Cons.IH)
      show "\<forall>b'\<in>set bs. int ?o \<le> max 0 (fb_offset b')"
      proof
        fix b' assume "b' \<in> set bs"
        then have "fb_offset b \<le> fb_offset b'" using Cons.prems(2) by simp
        then show "int ?o \<le> max 0 (fb_offset b')" using o by auto
      qed
    qed (use Cons.prems 2 marked len in simp_all)
    have "drop cursor (take (nat (item_offset item)) chars)
      = take (?o - cursor) (drop cursor chars) @ drop ?o (take (nat (item_offset item)) chars)"
    proof -
      have "?o \<le> nat (fb_offset c)" using off(2) by (simp only: o)
      then have "take ?o (take (nat (item_offset item)) chars) = take ?o chars"
        by (simp only: off(1) take_take min.absorb1)
      then have "take (nat (item_offset item)) chars = take ?o chars @ drop ?o (take (nat (item_offset item)) chars)"
        by (metis append_take_drop_id)
      moreover have "drop cursor (take m chars @ r) = take (m - cursor) (drop cursor chars) @ r"
        if "cursor \<le> m" "m \<le> length chars" for m r
        using that by (simp add: drop_take)
      ultimately show ?thesis using len by metis
    qed
    then show ?thesis using 2 ih marked by (simp add: non_text_content)
  qed
qed

text \<open>The keys of the text pieces, which the view uses to tell them apart.\<close>

lemma flow_loop_keys:
  "\<lbrakk>marks bs; cursor \<le> length chars\<rbrakk> \<Longrightarrow>
   \<exists>ks. map flow_id (filter is_text (flow_loop chars cursor bs)) = map (\<lambda>k. js ''text-'' @ dec_digits k) ks
     \<and> sorted_wrt (<) ks \<and> (\<forall>k\<in>set ks. cursor \<le> k)"
proof (induction bs arbitrary: cursor)
  case Nil
  show ?case by (rule exI [of _ "if js_trim (concat (drop cursor chars)) \<noteq> [] then [cursor] else []"])
      (simp add: text_piece_def is_text_def)
next
  case (Cons b bs)
  let ?o = "nat (min (max (fb_offset b) (int cursor)) (int (length chars)))"
  let ?s = "concat (take (?o - cursor) (drop cursor chars))"
  have o: "cursor \<le> ?o" "?o \<le> length chars" using Cons.prems(2) by auto
  have "marks bs" using Cons.prems(1) by (simp add: marks_def)
  from Cons.IH [OF this o(2)] obtain ks
    where ks: "map flow_id (filter is_text (flow_loop chars ?o bs)) = map (\<lambda>k. js ''text-'' @ dec_digits k) ks"
      "sorted_wrt (<) ks" "\<forall>k\<in>set ks. ?o \<le> k" by blast
  have b: "\<not> is_text (fb_item b)" using Cons.prems(1) by (simp add: marks_def)
  have eq: "flow_loop chars cursor (b # bs) = text_piece cursor ?s @ fb_item b # flow_loop chars ?o bs"
    by (simp add: Let_def)
  show ?case
  proof (cases "js_trim ?s = []")
    case True
    then have "text_piece cursor ?s = []" by (simp add: text_piece_def)
    then show ?thesis using ks b o(1) by (intro exI [of _ ks]) (auto simp only: eq append_Nil filter.simps if_False dest: order_trans)
  next
    case False
    then have "cursor < ?o" by (cases "?o - cursor = 0") auto
    moreover have "text_piece cursor ?s = [FlowText (js ''text-'' @ dec_digits cursor) ?s]"
      using False by (simp only: text_piece_def if_True not_False_eq_True)
    ultimately show ?thesis using ks b
      by (intro exI [of _ "cursor # ks"]) (auto simp only: eq is_text_FlowText append_Cons append_Nil filter.simps list.map
            sorted_wrt.simps list.set ai_flow_item.case ai_flow_item.sel if_True if_False dest: order_less_le_trans)
  qed
qed

interpretation boundary_order: js_comparator boundary_gt
proof -
  have "boundary_gt = lex_gt (key_gt fb_offset) (key_gt fb_order)"
    by (auto simp: fun_eq_iff boundary_gt_def lex_gt_def key_gt_def)
  moreover have "js_comparator (lex_gt (key_gt fb_offset) (key_gt fb_order))"
    by (intro js_comparator_lex js_comparator_key)
  ultimately show "js_comparator boundary_gt" by metis
qed

lemma boundaries_sorted: "sorted_wrt (\<lambda>a b. fb_offset a \<le> fb_offset b) (flow_boundaries message override)"
  unfolding flow_boundaries_def
  by (rule sorted_wrt_mono_rel [OF _ boundary_order.sorted_js_sort]) (auto simp: boundary_gt_def split: if_splits)

lemma boundaries_marks: "marks (flow_boundaries message override)"
  by (auto simp: marks_def flow_boundaries_def tool_boundary_def thinking_boundary_def is_text_def)

lemma boundaries_items:
  "mset (map fb_item (flow_boundaries message override))
   = mset (map (\<lambda>call. FlowTool (tl_id call) call) (am_tool_calls message)
       @ map (\<lambda>block. FlowThinking (tu_id block) block) (flow_blocks message override))"
proof -
  let ?raw = "map (\<lambda>(index, call). tool_boundary index call) (enumerate 0 (am_tool_calls message))
    @ map thinking_boundary (flow_blocks message override)"
  have "map (\<lambda>x. fb_item (case x of (index, call) \<Rightarrow> tool_boundary index call)) (enumerate k calls)
      = map (\<lambda>call. FlowTool (tl_id call) call) calls" for k calls
    by (induction calls arbitrary: k) (simp_all add: tool_boundary_def)
  then have "map fb_item ?raw = map (\<lambda>call. FlowTool (tl_id call) call) (am_tool_calls message)
       @ map (\<lambda>block. FlowThinking (tu_id block) block) (flow_blocks message override)"
    by (simp add: thinking_boundary_def comp_def)
  moreover have "mset (map fb_item (js_sort boundary_gt ?raw)) = mset (map fb_item ?raw)"
    by (simp only: mset_map mset_js_sort)
  ultimately show ?thesis by (simp only: flow_boundaries_def)
qed

text \<open>C25. The assistant's timeline shows the whole message: its text pieces, in order, are the message's
  text up to white space; every tool call and every thinking block appears once; each stands after exactly the
  text before its offset, counted in code points and clamped to the text; and the keys of the text
  pieces are pairwise distinct.\<close>

theorem message_flow_complete:
  "let items = buildAiMessageFlow message override; chars = code_points (am_content message)
   in visible (flow_texts items) = visible (am_content message)
      \<and> mset (filter (\<lambda>i. \<not> is_text i) items)
          = mset (map (\<lambda>call. FlowTool (tl_id call) call) (am_tool_calls message)
              @ map (\<lambda>block. FlowThinking (tu_id block) block) (flow_blocks message override))
      \<and> (\<forall>before item after. items = before @ item # after \<longrightarrow> \<not> is_text item \<longrightarrow>
            visible (flow_texts before) = visible (concat (take (nat (item_offset item)) chars)))
      \<and> distinct (map flow_id (filter is_text items))"
proof -
  let ?chars = "code_points (am_content message)" and ?bs = "flow_boundaries message override"
  note marks = boundaries_marks [of message override]
  obtain ks where ks: "map flow_id (filter is_text (flow_loop ?chars 0 ?bs)) = map (\<lambda>k. js ''text-'' @ dec_digits k) ks"
    "sorted_wrt (<) ks" using flow_loop_keys [OF marks, of 0 ?chars] by auto
  have "distinct ks" using ks(2) by (simp add: strict_sorted_iff)
  then have "distinct (map flow_id (filter is_text (flow_loop ?chars 0 ?bs)))"
    by (simp add: ks(1) distinct_map inj_on_def)
  moreover have "visible (flow_texts before) = visible (concat (take (nat (item_offset item)) ?chars))"
    if "flow_loop ?chars 0 ?bs = before @ item # after" "\<not> is_text item" for before item after
    using flow_loop_place [OF marks boundaries_sorted _ _ that] by simp
  ultimately show ?thesis
    using flow_loop_text [OF marks, of ?chars 0]
    unfolding buildAiMessageFlow_def Let_def flow_loop_marks [OF marks] boundaries_items by simp
qed

definition sample_message :: ai_message where
  "sample_message =
     \<lparr>am_id = js ''m'', am_session_id = js ''s'', am_role = js ''assistant'', am_content = js ''ab'',
      am_thinking = js ''hm'', am_thinking_blocks = None, am_contexts = [], am_commands = [], am_tool_calls = [],
      am_file_changes = None, am_status = js ''complete'', am_created_at = [], am_updated_at = []\<rparr>"

theorem message_flow_complete_witness:
  "visible (flow_texts (buildAiMessageFlow sample_message None)) = js ''ab''"
  using message_flow_complete [of sample_message None]
  by (simp add: Let_def sample_message_def) (simp add: visible_def js_def is_ws_def)

end
