(* ===== verification/Ai_Commands.thy ===== *)
theory Ai_Commands
  imports Ai_Types Js_Pattern
begin

text \<open>
  Commands in the assistant's answers, from \<open>src/features/ai/AiAssistantPanel.tsx\<close>: which line is a
  command, which is a prompt, output or prose, and how dangerous a command looks.
\<close>

section \<open>Prompts and noise\<close>

definition knownShellCommands :: "jsstr list" where
  "knownShellCommands = [
     js ''apt'', js ''apt-cache'', js ''apt-get'', js ''awk'', js ''bash'', js ''brew'',
     js ''cargo'', js ''cat'', js ''cd'', js ''chmod'', js ''chown'', js ''clear'',
     js ''cmake'', js ''composer'', js ''cp'', js ''curl'', js ''cut'', js ''dd'', js ''df'',
     js ''dig'', js ''dmesg'', js ''docker'', js ''du'', js ''echo'', js ''env'',
     js ''export'', js ''fdisk'', js ''find'', js ''firewall-cmd'', js ''free'', js ''git'',
     js ''go'', js ''grep'', js ''halt'', js ''head'', js ''history'', js ''hostname'',
     js ''hostnamectl'', js ''htop'', js ''ifconfig'', js ''ip'', js ''iptables'', js ''java'',
     js ''journalctl'', js ''jq'', js ''kill'', js ''killall'', js ''kubectl'', js ''last'',
     js ''less'', js ''ln'', js ''ls'', js ''lsof'', js ''make'', js ''mkdir'', js ''mkfs'',
     js ''mount'', js ''mv'', js ''mysql'', js ''nc'', js ''netstat'', js ''nmap'',
     js ''node'', js ''npm'', js ''openssl'', js ''parted'', js ''passwd'', js ''ping'',
     js ''pip'', js ''pip3'', js ''pnpm'', js ''poweroff'', js ''ps'', js ''psql'',
     js ''python'', js ''python3'', js ''reboot'', js ''rm'', js ''route'', js ''rsync'',
     js ''scp'', js ''sed'', js ''sensors'', js ''service'', js ''sh'', js ''shutdown'',
     js ''sort'', js ''source'', js ''ssh'', js ''ssh-keygen'', js ''sshpass'', js ''ss'',
     js ''sudo'', js ''systemctl'', js ''tail'', js ''tar'', js ''tee'', js ''top'',
     js ''touch'', js ''traceroute'', js ''ufw'', js ''umount'', js ''uname'', js ''unzip'',
     js ''uptime'', js ''useradd'', js ''userdel'', js ''vim'', js ''w'', js ''watch'',
     js ''wc'', js ''wget'', js ''who'', js ''wipefs'', js ''xargs'', js ''yarn'', js ''zsh'']"

definition shellFenceLanguages :: "jsstr list" where
  "shellFenceLanguages = [
     js ''sh'', js ''shell'', js ''bash'', js ''zsh'', js ''fish'', js ''powershell'',
     js ''ps1'', js ''cmd'', js ''bat'']"

text \<open>\<open>replace(/^`|`$/g, "")\<close>, and the same for the three quotation marks.\<close>

definition strip_ends :: "(nat \<Rightarrow> bool) \<Rightarrow> jsstr \<Rightarrow> jsstr" where
  "strip_ends q s =
     (let r = (if s \<noteq> [] \<and> q (hd s) then tl s else s)
      in if r \<noteq> [] \<and> q (last r) then butlast r else r)"

definition is_backtick :: "nat \<Rightarrow> bool" where
  "is_backtick c \<longleftrightarrow> c = 96"

definition is_quote :: "nat \<Rightarrow> bool" where
  "is_quote c \<longleftrightarrow> c = 96 \<or> c = 34 \<or> c = 39"

text \<open>The prompts, up to and with their last sign; \<^term>\<open>None\<close> where there is none.\<close>

definition sign_prompt :: "jsstr \<Rightarrow> jsstr option" where \<comment> \<open>\<open>^(?:\$|#|>)\s+\<close>, before the white space\<close>
  "sign_prompt s =
     (case s of c # r \<Rightarrow> if (c = 36 \<or> c = 35 \<or> c = 62) \<and> r \<noteq> [] \<and> is_ws (hd r) then Some r else None
      | [] \<Rightarrow> None)"

definition powershell_prompt :: "jsstr \<Rightarrow> jsstr option" where \<comment> \<open>\<open>^PS [^>]+>\<close> with the flag \<open>i\<close>\<close>
  "powershell_prompt s =
     (if \<not> prefix (js ''ps '') (ascii_lower s) then None
      else
        (let path = takeWhile (\<lambda>c. c \<noteq> 62) (drop 3 s); r = dropWhile (\<lambda>c. c \<noteq> 62) (drop 3 s)
         in if path = [] \<or> r = [] then None else Some (tl r)))"

definition box_prompt :: "jsstr \<Rightarrow> jsstr option" where \<comment> \<open>\<open>^\[[^\]]+\][#$]\<close>\<close>
  "box_prompt s =
     (if s = [] \<or> hd s \<noteq> 91 then None
      else
        (let label = takeWhile (\<lambda>c. c \<noteq> 93) (tl s); r = dropWhile (\<lambda>c. c \<noteq> 93) (tl s)
         in if label = [] \<or> length r < 2 then None
            else if r ! 1 = 35 \<or> r ! 1 = 36 then Some (drop 2 r) else None))"

definition is_prompt_sign :: "nat \<Rightarrow> bool" where
  "is_prompt_sign c \<longleftrightarrow> c = 35 \<or> c = 36 \<or> c = 62"

definition host_prompt :: "jsstr \<Rightarrow> jsstr option" where
  \<comment> \<open>\<open>^[A-Za-z0-9_.-]+@[A-Za-z0-9_.-]+(?::[^\s#$>]+)?[#$>]\<close>\<close>
  "host_prompt s =
     (case user_at_host s of
        None \<Rightarrow> None
      | Some r \<Rightarrow>
          (let path = (\<lambda>c. \<not> is_ws c \<and> \<not> is_prompt_sign c);
               r1 = (if r \<noteq> [] \<and> hd r = 58 \<and> takeWhile path (tl r) \<noteq> [] then dropWhile path (tl r) else r)
           in if r1 \<noteq> [] \<and> is_prompt_sign (hd r1) then Some (tl r1) else None))"

text \<open>\<open>replace\<close> of a prompt and the white space after it.\<close>

definition cut_prompt :: "(jsstr \<Rightarrow> jsstr option) \<Rightarrow> jsstr \<Rightarrow> jsstr" where
  "cut_prompt prompt s = (case prompt s of None \<Rightarrow> s | Some r \<Rightarrow> js_trim_start r)"

definition strip_prompts :: "jsstr \<Rightarrow> jsstr" where
  "strip_prompts s =
     js_trim (cut_prompt host_prompt (cut_prompt box_prompt (cut_prompt powershell_prompt (cut_prompt sign_prompt s))))"

lemma sublist_parts:
  "sublist r s \<Longrightarrow> sublist (tl r) s"
  "sublist r s \<Longrightarrow> sublist (drop n r) s"
  "sublist r s \<Longrightarrow> sublist (dropWhile P r) s"
  "sublist r s \<Longrightarrow> sublist (js_trim_start r) s"
  "sublist r s \<Longrightarrow> sublist (js_trim r) s"
proof -
  have "sublist (tl r) r" "sublist (drop n r) r" "sublist (dropWhile P r) r" for P and r :: jsstr
    by (simp_all add: suffix_imp_sublist suffix_dropWhile suffix_drop)
  moreover have "sublist (js_trim_end r) r" for r
    using suffix_dropWhile [of is_ws "rev r"]
    by (simp add: js_trim_end_def suffix_to_prefix prefix_imp_sublist)
  ultimately have parts: "sublist (tl r) r" "sublist (drop n r) r" "sublist (dropWhile P r) r"
    "sublist (js_trim_start r) r" "sublist (js_trim r) r" for P and r :: jsstr
    unfolding js_trim_def js_trim_start_def by (blast intro: sublist_order.order_trans)+
  assume "sublist r s"
  then show "sublist (tl r) s" "sublist (drop n r) s" "sublist (dropWhile P r) s"
    "sublist (js_trim_start r) s" "sublist (js_trim r) s"
    using parts sublist_order.order_trans by blast+
qed

lemma prompt_sublist:
  "sign_prompt s = Some r \<Longrightarrow> sublist r s"
  "powershell_prompt s = Some r \<Longrightarrow> sublist r s"
  "box_prompt s = Some r \<Longrightarrow> sublist r s"
proof -
  show "sign_prompt s = Some r \<Longrightarrow> sublist r s"
    by (auto simp: sign_prompt_def suffix_imp_sublist suffix_ConsI split: list.splits if_splits)
  show "powershell_prompt s = Some r \<Longrightarrow> sublist r s"
    by (auto simp: powershell_prompt_def Let_def split: if_splits intro!: sublist_parts(1-3))
  show "box_prompt s = Some r \<Longrightarrow> sublist r s"
    by (auto simp: box_prompt_def Let_def split: if_splits intro!: sublist_parts(1-3))
qed

lemma host_prompt_sublist: "host_prompt s = Some r \<Longrightarrow> sublist r s"
proof -
  assume r: "host_prompt s = Some r"
  then obtain a where a: "user_at_host s = Some a" by (auto simp: host_prompt_def split: option.splits)
  then have "sublist a s"
    by (auto simp: user_at_host_def Let_def split: if_splits intro!: sublist_parts(1-3))
  then show ?thesis using r a
    by (auto simp: host_prompt_def Let_def split: if_splits intro!: sublist_parts(1-3))
qed

lemma cut_prompt_sublist: "(\<And>r. p s = Some r \<Longrightarrow> sublist r s) \<Longrightarrow> sublist (cut_prompt p s) s"
  by (auto simp: cut_prompt_def intro: sublist_parts(4) split: option.splits)

lemma strip_prompts_sublist: "sublist (strip_prompts s) s"
proof -
  have "sublist (cut_prompt sign_prompt s) s" "sublist (cut_prompt powershell_prompt s) s"
    "sublist (cut_prompt box_prompt s) s" "sublist (cut_prompt host_prompt s) s" for s
    by (rule cut_prompt_sublist, erule prompt_sublist host_prompt_sublist)+
  then show ?thesis unfolding strip_prompts_def
    by (intro sublist_parts(5)) (metis sublist_order.order_trans)
qed

lemma strip_prompts_shorter: "strip_prompts s \<noteq> s \<Longrightarrow> length (strip_prompts s) < length s"
proof -
  assume ne: "strip_prompts s \<noteq> s"
  obtain p q where s: "s = p @ strip_prompts s @ q" using strip_prompts_sublist unfolding sublist_def by blast
  then have "p \<noteq> [] \<or> q \<noteq> []" using ne by (metis append_Nil append_Nil2)
  then have "length (strip_prompts s) < length (p @ strip_prompts s @ q)" by auto
  then show ?thesis using s by metis
qed

text \<open>The loop: the prompts are taken off until there is none, or nothing, left.\<close>

function prompts_loop :: "jsstr \<Rightarrow> jsstr" where
  "prompts_loop s = (if s = [] \<or> strip_prompts s = s then s else prompts_loop (strip_prompts s))"
  by pat_completeness auto

termination
  by (relation "measure length") (auto simp: strip_prompts_shorter)

declare prompts_loop.simps [simp del]

definition normalizePotentialCommandLine :: "jsstr \<Rightarrow> jsstr" where
  "normalizePotentialCommandLine line = prompts_loop (strip_ends is_backtick (js_trim line))"

section \<open>Which line is a command\<close>

definition shellLikeCommand :: "jsstr \<Rightarrow> jsstr option" where
  "shellLikeCommand line =
     (let normalized = normalizePotentialCommandLine line;
          first = js_lower (strip_ends is_quote (takeWhile (\<lambda>c. \<not> is_ws c) normalized))
      in if first \<in> set knownShellCommands \<or> prefix (js ''mkfs.'') first
         then Some (strip_ends is_backtick normalized) else None)"

definition only_ws :: "jsstr \<Rightarrow> bool" where
  "only_ws s \<longleftrightarrow> list_all is_ws s"

definition isPromptOnlyLine :: "jsstr \<Rightarrow> bool" where
  "isPromptOnlyLine line \<longleftrightarrow>
     (case powershell_prompt line of Some r \<Rightarrow> only_ws r | None \<Rightarrow> False)
     \<or> (case host_prompt line of Some r \<Rightarrow> only_ws r | None \<Rightarrow> False)
     \<or> (case box_prompt line of Some r \<Rightarrow> only_ws r | None \<Rightarrow> False)
     \<or> (line \<noteq> [] \<and> (hd line = 36 \<or> hd line = 35) \<and> only_ws (tl line))"

definition is_rule_unit :: "nat \<Rightarrow> bool" where \<comment> \<open>\<open>[\\/_|()[\]{}<>+=*-]\<close>\<close>
  "is_rule_unit c \<longleftrightarrow> c \<in> {92, 47, 95, 124, 40, 41, 91, 93, 123, 125, 60, 62, 43, 61, 42, 45}"

definition banner_unit :: "nat \<Rightarrow> bool" where \<comment> \<open>\<open>[_/\\|]\<close>\<close>
  "banner_unit c \<longleftrightarrow> c \<in> {95, 47, 92, 124}"

text \<open>\<open>^\[inner\]$\<close> with no \<open>]\<close> inside; the inner text in lower case.\<close>

definition boxed :: "jsstr \<Rightarrow> jsstr option" where
  "boxed s =
     (if 2 \<le> length s \<and> hd s = 91 \<and> last s = 93 \<and> 93 \<notin> set (butlast (tl s))
      then Some (ascii_lower (butlast (tl s))) else None)"

definition noise_line :: "jsstr \<Rightarrow> bool" where
  "noise_line s \<longleftrightarrow>
     (let l = ascii_lower s
      in (prefix (js ''welcome to'') l \<and> \<not> starts_word (drop 10 s))
         \<or> prefix (js ''last login:'') l
         \<or> prefix (js ''last check:'') l
         \<or> prefix (js ''system load:'') l
         \<or> prefix (js ''memory usage:'') l
         \<or> prefix (js ''swap usage:'') l
         \<or> prefix (js ''usage of /'') l
         \<or> prefix (js ''ipv4 address for '') l
         \<or> (case boxed s of
              Some inner \<Rightarrow>
                (let r = js_trim_start inner
                 in r \<noteq> [] \<and> is_digit_unit (hd r) \<and> sublist (js ''update'') r)
                \<or> sublist (js ''configuration'') inner
                \<or> sublist (js ''beta'') inner
            | None \<Rightarrow> False)
         \<or> (let r = js_trim_start s in 3 \<le> length r \<and> list_all banner_unit (take 3 r)))"

definition looksLikeTerminalNoise :: "jsstr \<Rightarrow> bool" where
  "looksLikeTerminalNoise line \<longleftrightarrow>
     (let normalized = js_trim line; compact = filter (\<lambda>c. \<not> is_ws c) normalized
      in normalized \<noteq> []
         \<and> ((6 \<le> length compact \<and> list_all is_rule_unit compact) \<or> noise_line normalized))"

definition hasCjkCharacters :: "jsstr \<Rightarrow> bool" where
  "hasCjkCharacters s \<longleftrightarrow> list_ex (\<lambda>c. 0x3400 \<le> c \<and> c \<le> 0x9fff) s"

text \<open>\<open>[-*+]\s+\<close> or \<open>\d+\.\s+\<close>, what is left after it.\<close>

definition is_bullet :: "nat \<Rightarrow> bool" where
  "is_bullet c \<longleftrightarrow> c = 45 \<or> c = 42 \<or> c = 43"

definition after_ws :: "jsstr \<Rightarrow> jsstr option" where
  "after_ws s = (if s \<noteq> [] \<and> is_ws (hd s) then Some (js_trim_start s) else None)"

definition after_bullet :: "jsstr \<Rightarrow> jsstr option" where
  "after_bullet s = (if s \<noteq> [] \<and> is_bullet (hd s) then after_ws (tl s) else None)"

definition after_number :: "jsstr \<Rightarrow> jsstr option" where
  "after_number s =
     (let r = dropWhile is_digit_unit s
      in if s \<noteq> [] \<and> is_digit_unit (hd s) \<and> r \<noteq> [] \<and> hd r = 46 then after_ws (tl r) else None)"

definition list_marker :: "jsstr \<Rightarrow> jsstr option" where
  "list_marker s = (case after_bullet s of Some r \<Rightarrow> Some r | None \<Rightarrow> after_number s)"

text \<open>\<open>#{1,6}\s+\<close>: how many signs, and what is left.\<close>

definition after_hashes :: "jsstr \<Rightarrow> (nat \<times> jsstr) option" where
  "after_hashes s =
     (let n = length (takeWhile (\<lambda>c. c = 35) s)
      in if 1 \<le> n \<and> n \<le> 6 then map_option (Pair n) (after_ws (drop n s)) else None)"

definition no_terminator :: "jsstr \<Rightarrow> bool" where
  "no_terminator s \<longleftrightarrow> list_all (\<lambda>c. \<not> is_line_terminator c) s"

definition isMarkdownStructuralLine :: "jsstr \<Rightarrow> bool" where
  "isMarkdownStructuralLine line \<longleftrightarrow>
     after_hashes line \<noteq> None
     \<or> (line \<noteq> [] \<and> hd line = 62 \<and> after_ws (tl line) \<noteq> None)
     \<or> list_marker line \<noteq> None
     \<or> (3 \<le> length line \<and> list_all (\<lambda>c. c = 45 \<or> c = 42 \<or> c = 95) line)
     \<or> (2 \<le> length line \<and> hd line = 124 \<and> last line = 124 \<and> no_terminator (butlast (tl line)))"

definition extractStandaloneInlineCodeCommand :: "jsstr \<Rightarrow> jsstr option" where
  "extractStandaloneInlineCodeCommand line =
     (let s = or_else (list_marker line) line;
          code = takeWhile (\<lambda>c. c \<noteq> 96) (tl s); r = dropWhile (\<lambda>c. c \<noteq> 96) (tl s)
      in if s \<noteq> [] \<and> hd s = 96 \<and> code \<noteq> [] \<and> r \<noteq> [] \<and> only_ws (tl r)
         then shellLikeCommand (js_trim code) else None)"

text \<open>Where nothing is left after the white space, the pattern fails or its group is white space; both
  ways there is no command.\<close>

definition extractMarkdownListCommand :: "jsstr \<Rightarrow> jsstr option" where
  "extractMarkdownListCommand line =
     (case list_marker line of
        Some r \<Rightarrow> if r \<noteq> [] \<and> no_terminator r then shellLikeCommand (js_trim r) else None
      | None \<Rightarrow> None)"

text \<open>\<open>^\S.*:\s*$\<close>.\<close>

definition ends_with_colon :: "jsstr \<Rightarrow> bool" where
  "ends_with_colon s \<longleftrightarrow>
     s \<noteq> [] \<and> \<not> is_ws (hd s)
     \<and> (let core = js_trim_end (tl s) in core \<noteq> [] \<and> last core = 58 \<and> no_terminator (butlast core))"

definition extractCommandFromPlainLine :: "jsstr \<Rightarrow> jsstr option" where
  "extractCommandFromPlainLine line =
     (let trimmed = js_trim line
      in if trimmed = [] then None
         else if opt_truthy (extractStandaloneInlineCodeCommand trimmed) \<noteq> None
         then extractStandaloneInlineCodeCommand trimmed
         else if opt_truthy (extractMarkdownListCommand trimmed) \<noteq> None then extractMarkdownListCommand trimmed
         else if isMarkdownStructuralLine trimmed \<or> looksLikeTerminalNoise trimmed then None
         else
           (let normalized = normalizePotentialCommandLine trimmed
            in if normalized = [] \<or> isPromptOnlyLine trimmed \<or> isPromptOnlyLine normalized then None
               else if hasCjkCharacters normalized \<and> opt_truthy (shellLikeCommand normalized) = None then None
               else if 0xff1a \<in> set normalized \<or> ends_with_colon normalized then None
               else if looksLikeTerminalNoise normalized then None
               else shellLikeCommand normalized))"

datatype fence_line = FenceCommand jsstr | FenceSkip | FenceOutput

definition classifyShellFenceLine :: "jsstr \<Rightarrow> fence_line" where
  "classifyShellFenceLine line =
     (let trimmed = js_trim line
      in if trimmed = [] \<or> trimmed = [92] \<or> hd trimmed = 35 then FenceSkip
         else if isPromptOnlyLine trimmed then FenceOutput
         else
           (let normalized = normalizePotentialCommandLine trimmed
            in if normalized = [] then FenceSkip
               else if looksLikeTerminalNoise trimmed \<or> looksLikeTerminalNoise normalized then FenceOutput
               else (case opt_truthy (shellLikeCommand normalized) of
                       None \<Rightarrow> FenceOutput | Some command \<Rightarrow> FenceCommand command)))"

definition isShellFence :: "jsstr \<Rightarrow> bool" where
  "isShellFence lang \<longleftrightarrow> lang \<in> set shellFenceLanguages"

definition fence_commands :: "jsstr list \<Rightarrow> jsstr list" where
  "fence_commands lines =
     List.map_filter (\<lambda>l. case classifyShellFenceLine l of FenceCommand c \<Rightarrow> Some c | _ \<Rightarrow> None) lines"

definition extractCommandsFromShellFence :: "jsstr list \<Rightarrow> jsstr list" where
  "extractCommandsFromShellFence lines =
     (let commands = fence_commands lines;
          sawOutputLikeLine = list_ex (\<lambda>l. classifyShellFenceLine l = FenceOutput) lines
      in if commands = [] then [] else if sawOutputLikeLine then commands else [js_join [10] commands])"

section \<open>How dangerous a command looks\<close>

type_synonym ai_command_assessment = ai_command_suggestion

definition containsSensitiveCommandText :: "jsstr \<Rightarrow> bool" where
  "containsSensitiveCommandText lowerCommand \<longleftrightarrow>
     list_ex (\<lambda>pattern. sublist pattern lowerCommand)
       [js ''authorization: bearer'', js ''api_key='', js ''apikey='', js ''access_token='', js ''auth_token='',
        js ''secret_access_key'', js ''client_secret'', js ''private_key'', js ''--password'', js ''password='',
        js ''passwd='', js ''sshpass -p'', js ''-----begin'']"

definition not_newline :: "nat \<Rightarrow> bool" where
  "not_newline c \<longleftrightarrow> c \<noteq> 10 \<and> c \<noteq> 13"

text \<open>\<open>[^\n\r]*r[^\n\r]*f\<close>: on this line an \<open>r\<close> with an \<open>f\<close> after it.\<close>

definition r_then_f :: "jsstr \<Rightarrow> bool" where
  "r_then_f s \<longleftrightarrow> 102 \<in> set (dropWhile (\<lambda>c. c \<noteq> 114) (takeWhile not_newline (ascii_lower s)))"

definition after_dash :: "(jsstr \<Rightarrow> bool) \<Rightarrow> jsstr \<Rightarrow> bool" where \<comment> \<open>\<open>\s+-\<close>\<close>
  "after_dash Q s \<longleftrightarrow>
     s \<noteq> [] \<and> is_ws (hd s) \<and> (case js_trim_start s of c # r \<Rightarrow> c = 45 \<and> Q r | [] \<Rightarrow> False)"

definition force_remove :: "bool \<Rightarrow> jsstr \<Rightarrow> bool" where
  "force_remove = after_word (js ''rm'') (after_dash r_then_f)"

definition whole_word :: "jsstr \<Rightarrow> bool \<Rightarrow> jsstr \<Rightarrow> bool" where
  "whole_word word = after_word word (\<lambda>r. \<not> starts_word r)"

definition disk_or_power :: "bool \<Rightarrow> jsstr \<Rightarrow> bool" where
  "disk_or_power w s \<longleftrightarrow>
     list_ex (\<lambda>word. whole_word word w s)
       [js ''mkfs'', js ''fdisk'', js ''parted'', js ''wipefs'', js ''shutdown'', js ''reboot'', js ''halt'',
        js ''poweroff'']"

text \<open>This pattern has no flag \<open>i\<close>.\<close>

definition of_argument :: "bool \<Rightarrow> jsstr \<Rightarrow> bool" where
  "of_argument w s \<longleftrightarrow> \<not> w \<and> prefix (js ''of='') s"

definition same_pipe :: "nat \<Rightarrow> bool" where \<comment> \<open>\<open>[^\n\r|]\<close>\<close>
  "same_pipe c \<longleftrightarrow> not_newline c \<and> c \<noteq> 124"

definition into_shell :: "jsstr \<Rightarrow> bool" where \<comment> \<open>\<open>\s*(?:sh|bash)\b\<close>\<close>
  "into_shell s \<longleftrightarrow>
     (let r = js_trim_start s
      in (prefix (js ''sh'') (ascii_lower r) \<and> \<not> starts_word (drop 2 r))
         \<or> (prefix (js ''bash'') (ascii_lower r) \<and> \<not> starts_word (drop 4 r)))"

definition piped_to_shell :: "jsstr \<Rightarrow> bool" where
  "piped_to_shell s \<longleftrightarrow>
     \<not> starts_word s \<and> (case dropWhile same_pipe s of c # r \<Rightarrow> c = 124 \<and> into_shell r | [] \<Rightarrow> False)"

definition download_and_run :: "bool \<Rightarrow> jsstr \<Rightarrow> bool" where
  "download_and_run w s \<longleftrightarrow>
     after_word (js ''curl'') piped_to_shell w s \<or> after_word (js ''wget'') piped_to_shell w s"

definition touches_network :: "jsstr \<Rightarrow> bool" where
  "touches_network lower \<longleftrightarrow>
     sublist (js ''iptables'') lower \<or> sublist (js ''ufw'') lower \<or> sublist (js ''firewall-cmd'') lower
     \<or> sublist (js ''ip route'') lower \<or> sublist (js ''route '') lower
     \<or> sublist (js ''systemctl restart'') lower \<or> sublist (js ''systemctl stop'') lower
     \<or> (sublist (js ''service '') lower \<and> sublist (js '' stop'') lower)"

definition changes_access :: "jsstr \<Rightarrow> bool" where
  "changes_access lower \<longleftrightarrow>
     sublist (js ''chmod -r 777'') lower \<or> sublist (js ''chown -r'') lower \<or> sublist (js ''userdel '') lower
     \<or> sublist (js ''passwd '') lower
     \<or> (sublist (js ''/etc/ssh'') lower \<and> (sublist (js ''>'') lower \<or> sublist (js ''tee '') lower))"

definition danger_checks :: "(jsstr \<times> (jsstr \<Rightarrow> bool)) list" where
  "danger_checks =
     [([21253, 21547, 36882, 24402, 24378, 21046, 21024, 38500, 12290],
         \<comment> \<open>recursive forced deletion\<close>
         regex_test force_remove),
      ([21487, 33021, 20462, 25913, 30913, 30424, 25110, 37325, 21551, 20027, 26426, 12290],
         \<comment> \<open>may change the disk or restart the host\<close>
         regex_test disk_or_power),
      ([21253, 21547, 32, 100, 100, 32, 20889, 20837, 30446, 26631, 12290],
         \<comment> \<open>writes with dd\<close>
         \<lambda>c. regex_test (whole_word (js ''dd'')) c \<and> regex_test of_argument c),
      ([21253, 21547, 19979, 36733, 33050, 26412, 21518, 30452, 25509, 25191, 34892, 12290],
         \<comment> \<open>runs a downloaded script\<close>
         regex_test download_and_run),
      ([21487, 33021, 24433, 21709, 32593, 32476, 25110, 26381, 21153, 29366, 24577, 12290],
         \<comment> \<open>may affect the network or services\<close>
         \<lambda>c. touches_network (js_lower c)),
      ([21487, 33021, 25913, 21464, 26435, 38480, 12289, 29992, 25143, 12289, 35748, 35777,
        25110, 32, 83, 83, 72, 32, 37197, 32622, 12290],
         \<comment> \<open>may change permissions, users, authentication or SSH\<close>
         \<lambda>c. changes_access (js_lower c)),
      ([21253, 21547, 20973, 25454, 12289, 23494, 38053, 25110, 32, 116, 111, 107, 101,
        110, 32, 26126, 25991, 12290],
         \<comment> \<open>has credentials, keys or tokens in clear\<close>
         \<lambda>c. containsSensitiveCommandText (js_lower c))]"

definition assessCommandLocally :: "jsstr \<Rightarrow> ai_command_assessment" where
  "assessCommandLocally command =
     (let reasons = map fst (filter (\<lambda>(reason, check). check command) danger_checks)
      in \<lparr>cs_command = command, cs_risk = (if reasons = [] then RiskSafe else RiskDangerous),
          cs_reasons = reasons\<rparr>)"

section \<open>Contexts that look secret\<close>

definition secret_names :: "jsstr list" where
  "secret_names =
     [js ''password'', js ''passwd'', js ''token'', js ''secret'', js ''access_key'', js ''access-key'',
      js ''accesskey'', js ''api_key'', js ''api-key'', js ''apikey'', js ''authorization'', js ''x-api-key'']"

text \<open>\<open>\b\s*[:=]\s*\S+\<close>.\<close>

definition assigned :: "jsstr \<Rightarrow> bool" where
  "assigned s \<longleftrightarrow>
     \<not> starts_word s
     \<and> (case js_trim_start s of c # r \<Rightarrow> (c = 58 \<or> c = 61) \<and> js_trim_start r \<noteq> [] | [] \<Rightarrow> False)"

definition key_block :: "bool \<Rightarrow> jsstr \<Rightarrow> bool" where
  \<comment> \<open>\<open>-----begin [a-z0-9 ]*private key-----\<close>\<close>
  "key_block w s \<longleftrightarrow>
     prefix (js ''-----begin '') (ascii_lower s)
     \<and> star_then (\<lambda>c. is_word_unit c \<and> c \<noteq> 95 \<or> c = 32) (prefix (js ''private key-----''))
         (ascii_lower (drop 11 s))"

definition secret_key :: "jsstr \<Rightarrow> bool" where
  "secret_key s \<longleftrightarrow> 12 \<le> length (takeWhile (\<lambda>c. is_word_unit c \<or> c = 45) s)"

definition contextLooksSensitive :: "jsstr \<Rightarrow> bool" where
  "contextLooksSensitive content \<longleftrightarrow>
     containsSensitiveCommandText (js_lower content)
     \<or> list_ex (\<lambda>name. regex_test (after_word name assigned) content) secret_names
     \<or> regex_test key_block content
     \<or> regex_test (after_word (js ''sk-'') secret_key) content"

section \<open>A longer command is no less dangerous\<close>

text \<open>The texts that may stand before and after a command without joining its words.\<close>

definition apart :: "jsstr \<Rightarrow> jsstr \<Rightarrow> bool" where
  "apart before after \<longleftrightarrow> (before = [] \<or> \<not> is_word_unit (last before)) \<and> \<not> starts_word after"

definition bears :: "(jsstr \<Rightarrow> bool) \<Rightarrow> bool" where
  "bears Q \<longleftrightarrow> (\<forall>s t. Q s \<longrightarrow> \<not> starts_word t \<longrightarrow> Q (s @ t))"

lemma starts_word_append: "starts_word (s @ t) \<longleftrightarrow> (if s = [] then starts_word t else starts_word s)"
  by (simp add: starts_word_def)

lemma dropWhile_grows: "dropWhile P s \<noteq> [] \<Longrightarrow> dropWhile P (s @ t) = dropWhile P s @ t"
  by (induction s) auto

lemma takeWhile_grows: "\<exists>u. takeWhile P (s @ t) = takeWhile P s @ u"
  by (induction s) auto

lemma trim_start_append: "js_trim_start s \<noteq> [] \<Longrightarrow> js_trim_start (s @ t) = js_trim_start s @ t"
  unfolding js_trim_start_def by (rule dropWhile_grows)

lemma word_append:
  assumes "prefix p (ascii_lower r)" "\<not> starts_word (drop (length p) r)" "\<not> starts_word t"
  shows "prefix p (ascii_lower (r @ t)) \<and> \<not> starts_word (drop (length p) (r @ t))"
proof -
  have "length p \<le> length r" using prefix_length_le [OF assms(1)] by simp
  then show ?thesis using assms by (simp add: starts_word_append prefix_prefix)
qed

lemma after_word_append:
  assumes "after_word word Q w s" "bears Q" "\<not> starts_word t"
  shows "after_word word Q w (s @ t)"
proof -
  have "length word \<le> length s"
    using assms(1) prefix_length_le [of word "ascii_lower s"] by (simp add: after_word_def)
  then show ?thesis using assms
    by (auto simp: after_word_def bears_def prefix_def)
qed

lemma regex_test_embed:
  assumes "regex_test P s" "apart b a" "\<And>w s. P w s \<Longrightarrow> P w (s @ a)"
  shows "regex_test P (b @ s @ a)"
  using assms unfolding regex_test_def apart_def by (simp add: somewhere_append somewhere_prepend)

lemma bears_r_then_f: "bears (after_dash r_then_f)"
proof -
  have r: "r_then_f (s @ t)" if "r_then_f s" for s t
  proof -
    obtain u where "takeWhile not_newline (ascii_lower s @ ascii_lower t) = takeWhile not_newline (ascii_lower s) @ u"
      using takeWhile_grows by blast
    moreover have "102 \<in> set (dropWhile (\<lambda>c. c \<noteq> 114) v) \<Longrightarrow> 102 \<in> set (dropWhile (\<lambda>c. c \<noteq> 114) (v @ u))" for v
      using dropWhile_grows [of "\<lambda>c. c \<noteq> 114" v u] by (cases "dropWhile (\<lambda>c. c \<noteq> 114) v = []") auto
    ultimately show ?thesis using that by (simp add: r_then_f_def)
  qed
  show ?thesis unfolding bears_def after_dash_def
    by (auto simp: trim_start_append r split: list.splits)
qed

lemma bears_boundary: "bears (\<lambda>r. \<not> starts_word r)"
  by (simp add: bears_def starts_word_append)

lemma bears_piped: "bears piped_to_shell"
proof -
  have shell: "into_shell (s @ t)" if into: "into_shell s" and t: "\<not> starts_word t" for s t
  proof -
    have "js_trim_start s \<noteq> []" using into by (auto simp: into_shell_def Let_def ascii_lower_def)
    then have "js_trim_start (s @ t) = js_trim_start s @ t" by (rule trim_start_append)
    moreover have "length (js ''sh'') = 2" "length (js ''bash'') = 4" by simp_all
    ultimately show ?thesis using into t word_append [of "js ''sh''" "js_trim_start s" t]
        word_append [of "js ''bash''" "js_trim_start s" t]
      unfolding into_shell_def Let_def by metis
  qed
  show ?thesis unfolding bears_def
  proof (intro allI impI)
    fix s t assume p: "piped_to_shell s" and t: "\<not> starts_word t"
    then obtain c r where r: "dropWhile same_pipe s = c # r" "c = 124" "into_shell r" "\<not> starts_word s"
      by (auto simp: piped_to_shell_def split: list.splits)
    then have "dropWhile same_pipe (s @ t) = c # r @ t" using dropWhile_grows [of same_pipe s t] by simp
    then show "piped_to_shell (s @ t)" using r t shell by (simp add: piped_to_shell_def starts_word_append)
  qed
qed

lemma whole_word_append: "whole_word word w s \<Longrightarrow> \<not> starts_word t \<Longrightarrow> whole_word word w (s @ t)"
  unfolding whole_word_def using after_word_append [OF _ bears_boundary] by blast

lemma disk_or_power_append: "disk_or_power w s \<Longrightarrow> \<not> starts_word t \<Longrightarrow> disk_or_power w (s @ t)"
  unfolding disk_or_power_def by (auto simp: whole_word_append)

lemma sublist_lower_embed: "sublist p (js_lower s) \<Longrightarrow> sublist p (js_lower (b @ s @ a))"
  by (auto simp: sublist_def) (metis append.assoc)

lemma danger_check_embed:
  assumes "(reason, check) \<in> set danger_checks" "check c" "apart b a"
  shows "check (b @ c @ a)"
proof -
  have a: "\<not> starts_word a" using assms(3) by (simp add: apart_def)
  have "regex_test force_remove c \<Longrightarrow> regex_test force_remove (b @ c @ a)"
    using regex_test_embed [OF _ assms(3)] after_word_append [OF _ bears_r_then_f a]
    by (simp add: force_remove_def)
  moreover have "regex_test disk_or_power c \<Longrightarrow> regex_test disk_or_power (b @ c @ a)"
    using regex_test_embed [OF _ assms(3)] disk_or_power_append [OF _ a] by blast
  moreover have "regex_test (whole_word w) c \<Longrightarrow> regex_test (whole_word w) (b @ c @ a)" for w
    using regex_test_embed [OF _ assms(3)] whole_word_append [OF _ a] by blast
  moreover have "regex_test of_argument c \<Longrightarrow> regex_test of_argument (b @ c @ a)"
    by (rule regex_test_embed [OF _ assms(3)]) (auto simp: of_argument_def prefix_def)
  moreover have "regex_test download_and_run c \<Longrightarrow> regex_test download_and_run (b @ c @ a)"
    by (rule regex_test_embed [OF _ assms(3)])
       (auto simp: download_and_run_def dest: after_word_append [OF _ bears_piped a])
  moreover have "touches_network (js_lower c) \<Longrightarrow> touches_network (js_lower (b @ c @ a))"
    unfolding touches_network_def using sublist_lower_embed by blast
  moreover have "changes_access (js_lower c) \<Longrightarrow> changes_access (js_lower (b @ c @ a))"
    unfolding changes_access_def using sublist_lower_embed by blast
  moreover have "containsSensitiveCommandText (js_lower c) \<Longrightarrow> containsSensitiveCommandText (js_lower (b @ c @ a))"
    unfolding containsSensitiveCommandText_def list_ex_iff using sublist_lower_embed by blast
  ultimately show ?thesis using assms(1,2) unfolding danger_checks_def by auto
qed

lemma subseq_filter_mono: "(\<And>x. x \<in> set xs \<Longrightarrow> P x \<Longrightarrow> Q x) \<Longrightarrow> subseq (filter P xs) (filter Q xs)"
  by (induction xs) (auto intro: list_emb.intros)

text \<open>C19. Putting a command into a longer one cannot make it look safe: whatever stands before and after it
  (without joining its first or last word), every reason the assessment gives for the command it also
  gives for the whole, in the same order, and a command assessed as dangerous stays dangerous.\<close>

theorem dangerous_command_stays_dangerous:
  assumes "apart before after"
  shows "subseq (cs_reasons (assessCommandLocally command))
      (cs_reasons (assessCommandLocally (before @ command @ after)))
    \<and> (cs_risk (assessCommandLocally command) = RiskDangerous \<longrightarrow>
        cs_risk (assessCommandLocally (before @ command @ after)) = RiskDangerous)"
proof -
  let ?reasons = "\<lambda>c. map fst (filter (\<lambda>(reason, check). check c) danger_checks)"
  have "subseq (?reasons command) (?reasons (before @ command @ after))"
    by (intro subseq_map subseq_filter_mono) (auto intro: danger_check_embed [OF _ _ assms])
  then show ?thesis unfolding assessCommandLocally_def Let_def by (auto simp del: map_is_Nil_conv)
qed

theorem dangerous_command_stays_dangerous_witness:
  "cs_risk (assessCommandLocally (js ''echo hi;'' @ js ''reboot'' @ js '' now'')) = RiskDangerous"
proof -
  have "regex_test disk_or_power (js ''reboot'')"
    by (simp add: regex_test_def disk_or_power_def whole_word_def after_word_def starts_word_def js_def ascii_lower_def)
  then have "cs_risk (assessCommandLocally (js ''reboot'')) = RiskDangerous"
    by (simp add: assessCommandLocally_def danger_checks_def)
  then show ?thesis using dangerous_command_stays_dangerous [of "js ''echo hi;''" "js '' now''" "js ''reboot''"]
    by (simp add: apart_def starts_word_def is_word_unit_def js_def)
qed

text \<open>
  The pattern for recursive forced deletion wants the letter \<open>r\<close> before the letter \<open>f\<close>: the same
  deletion with the flags in the other order is not recognised and is assessed as safe.
\<close>

lemmas regex_eval = regex_test_def after_word_def whole_word_def starts_word_def ascii_lower_def is_word_unit_def
  js_trim_start_def is_ws_def not_newline_def js_def

lemma force_recursive_unrecognised:
  "cs_risk (assessCommandLocally (js ''rm -rf /srv'')) = RiskDangerous
   \<and> cs_risk (assessCommandLocally (js ''rm -fr /srv'')) = RiskSafe"
proof -
  let ?c = "js ''rm -fr /srv''"
  have l: "js_lower ?c = ?c" by (simp add: js_lower_def js_def lower_unit_def)
  have "regex_test force_remove (js ''rm -rf /srv'')"
    by (simp add: regex_eval force_remove_def after_dash_def r_then_f_def)
  then have "cs_risk (assessCommandLocally (js ''rm -rf /srv'')) = RiskDangerous"
    by (simp add: assessCommandLocally_def danger_checks_def)
  moreover have "\<not> regex_test force_remove ?c"
    by (simp add: regex_eval force_remove_def after_dash_def r_then_f_def)
  moreover have "\<not> regex_test disk_or_power ?c" by (simp add: regex_eval disk_or_power_def)
  moreover have "\<not> regex_test (whole_word (js ''dd'')) ?c" by (simp add: regex_eval)
  moreover have "\<not> regex_test download_and_run ?c" by (simp add: regex_eval download_and_run_def)
  moreover have "\<not> touches_network (js_lower ?c)"
    unfolding l touches_network_def by (simp add: sublist_Cons_right)
  moreover have "\<not> changes_access (js_lower ?c)" unfolding l changes_access_def by (simp add: sublist_Cons_right)
  moreover have "\<not> containsSensitiveCommandText (js_lower ?c)"
    unfolding l containsSensitiveCommandText_def by (simp add: sublist_Cons_right)
  ultimately show ?thesis by (simp add: assessCommandLocally_def danger_checks_def)
qed

end
