(* ===== verification/Ai_Markdown.thy ===== *)
theory Ai_Markdown
  imports Ai_Commands
begin

text \<open>
  The assistant's answers as Markdown, from \<open>src/features/ai/AiAssistantPanel.tsx\<close>:
  \<open>parseMarkdownBlocks\<close> and the suggestion of the commands an answer contains. The local variables
  of the parser are a record; its loop, which skips the rows of a table, is a recursion on the lines.
\<close>

section \<open>Tables\<close>

datatype md_align = AlignLeft | AlignCenter | AlignRight

fun row_cells :: "jsstr \<Rightarrow> bool \<Rightarrow> jsstr \<Rightarrow> jsstr list" where
  "row_cells current inCode [] = [js_trim current]"
| "row_cells current inCode (c # s) =
     (if c = 92 \<and> s \<noteq> [] \<and> hd s = 124 then row_cells (current @ [124]) inCode (tl s)
      else
        (let inCode' = (if c = 96 then \<not> inCode else inCode)
         in if c = 124 \<and> \<not> inCode' then js_trim current # row_cells [] inCode' s
            else row_cells (current @ [c]) inCode' s))"

definition splitMarkdownTableRow :: "jsstr \<Rightarrow> jsstr list" where
  "splitMarkdownTableRow line =
     (let row = js_trim line;
          row1 = (if row \<noteq> [] \<and> hd row = 124 then tl row else row);
          row2 = (if suffix [124] row1 \<and> \<not> suffix [92, 124] row1 then butlast row1 else row1)
      in row_cells [] False row2)"

definition separator_cell :: "jsstr \<Rightarrow> bool" where \<comment> \<open>\<open>^:?-+:?$\<close>\<close>
  "separator_cell cell \<longleftrightarrow>
     (let s = (if cell \<noteq> [] \<and> hd cell = 58 then tl cell else cell);
          t = (if s \<noteq> [] \<and> last s = 58 then butlast s else s)
      in t \<noteq> [] \<and> list_all (\<lambda>c. c = 45) t)"

definition isMarkdownTableSeparator :: "jsstr \<Rightarrow> bool" where
  "isMarkdownTableSeparator line \<longleftrightarrow>
     (let cells = splitMarkdownTableRow line in cells \<noteq> [] \<and> list_all separator_cell cells)"

definition markdownTableAlign :: "jsstr \<Rightarrow> md_align option" where
  "markdownTableAlign cell =
     (let left = prefix [58] cell; right = suffix [58] cell
      in if left \<and> right then Some AlignCenter
         else if right then Some AlignRight
         else if left then Some AlignLeft else None)"

section \<open>Blocks\<close>

datatype md_list_kind = UnorderedList | OrderedList

datatype md_block = MdHeading nat jsstr | MdParagraph "jsstr list" | MdList md_list_kind "jsstr list"
  | MdCode jsstr "jsstr list" | MdTable "md_align option list" "jsstr list" "jsstr list list"

record md_state =
  md_blocks :: "md_block list"
  md_fence :: "(jsstr \<times> jsstr list) option"
  md_paragraph :: "jsstr list"
  md_listType :: "md_list_kind option"
  md_items :: "jsstr list"

definition md_start :: md_state where
  "md_start = \<lparr>md_blocks = [], md_fence = None, md_paragraph = [], md_listType = None, md_items = []\<rparr>"

definition push_block :: "md_block \<Rightarrow> md_state \<Rightarrow> md_state" where
  "push_block b st = st\<lparr>md_blocks := md_blocks st @ [b]\<rparr>"

definition flushParagraph :: "md_state \<Rightarrow> md_state" where
  "flushParagraph st =
     (if md_paragraph st = [] then st
      else (push_block (MdParagraph (md_paragraph st)) st)\<lparr>md_paragraph := []\<rparr>)"

definition flushList :: "md_state \<Rightarrow> md_state" where
  "flushList st =
     (case md_listType st of
        Some kind \<Rightarrow>
          if md_items st = [] then st\<lparr>md_listType := None, md_items := []\<rparr>
          else (push_block (MdList kind (md_items st)) st)\<lparr>md_listType := None, md_items := []\<rparr>
      | None \<Rightarrow> st\<lparr>md_listType := None, md_items := []\<rparr>)"

definition flush_all :: "md_state \<Rightarrow> md_state" where
  "flush_all st = flushList (flushParagraph st)"

definition add_item :: "md_list_kind \<Rightarrow> jsstr \<Rightarrow> md_state \<Rightarrow> md_state" where
  "add_item kind item st =
     (let st1 = flushParagraph st;
          st2 = (if md_listType st1 \<noteq> None \<and> md_listType st1 \<noteq> Some kind then flushList st1 else st1)
      in st2\<lparr>md_listType := Some kind, md_items := md_items st2 @ [js_trim item]\<rparr>)"

definition fence_sign :: jsstr where
  "fence_sign = [96, 96, 96]"

text \<open>A pattern ends in \<open>(.*)$\<close>: what follows its white space has no line terminator.\<close>

definition rest_of_line :: "jsstr option \<Rightarrow> jsstr option" where
  "rest_of_line r = (case r of Some s \<Rightarrow> if no_terminator s then Some s else None | None \<Rightarrow> None)"

definition heading_of :: "jsstr \<Rightarrow> (nat \<times> jsstr) option" where
  "heading_of s = (case after_hashes s of Some (n, r) \<Rightarrow> if no_terminator r then Some (n, r) else None | None \<Rightarrow> None)"

definition continues_item :: "jsstr \<Rightarrow> bool" where \<comment> \<open>\<open>^\s{2,}\S\<close>\<close>
  "continues_item raw \<longleftrightarrow> 2 \<le> length (takeWhile is_ws raw) \<and> js_trim_start raw \<noteq> []"

text \<open>A line that is neither inside a fence nor a table.\<close>

definition md_line :: "jsstr \<Rightarrow> md_state \<Rightarrow> md_state" where
  "md_line raw st =
     (let trimmed = js_trim raw
      in case heading_of trimmed of
           Some (level, text) \<Rightarrow> push_block (MdHeading level (js_trim text)) (flush_all st)
         | None \<Rightarrow>
             (case rest_of_line (after_bullet trimmed) of
                Some item \<Rightarrow> add_item UnorderedList item st
              | None \<Rightarrow>
                  (case rest_of_line (after_number trimmed) of
                     Some item \<Rightarrow> add_item OrderedList item st
                   | None \<Rightarrow>
                       if md_listType st \<noteq> None \<and> continues_item raw \<and> md_items st \<noteq> []
                       then st\<lparr>md_items := butlast (md_items st) @ [last (md_items st) @ [32] @ trimmed]\<rparr>
                       else (let st1 = flushList st
                             in st1\<lparr>md_paragraph := md_paragraph st1 @ [trimmed]\<rparr>))))"

definition table_line :: "jsstr \<Rightarrow> bool" where
  "table_line raw \<longleftrightarrow> 124 \<in> set (js_trim raw)"

definition table_block :: "jsstr \<Rightarrow> jsstr \<Rightarrow> jsstr list \<Rightarrow> md_block" where
  "table_block head separator rows =
     (let header = splitMarkdownTableRow head
      in MdTable (map markdownTableAlign (splitMarkdownTableRow separator)) header
           (map (\<lambda>row. let cells = splitMarkdownTableRow row
                       in map (\<lambda>i. if i < length cells then cells ! i else []) [0..<length header]) rows))"

function md_lines :: "jsstr list \<Rightarrow> md_state \<Rightarrow> md_state" where
  "md_lines [] st = st"
| "md_lines (raw # rest) st =
     (let trimmed = js_trim raw
      in case md_fence st of
           Some (lang, code) \<Rightarrow>
             if prefix fence_sign trimmed
             then md_lines rest ((push_block (MdCode lang code) st)\<lparr>md_fence := None\<rparr>)
             else md_lines rest (st\<lparr>md_fence := Some (lang, code @ [raw])\<rparr>)
         | None \<Rightarrow>
             if prefix fence_sign trimmed
             then md_lines rest ((flush_all st)\<lparr>md_fence := Some (js_lower (js_trim (drop 3 trimmed)), [])\<rparr>)
             else if trimmed = [] then md_lines rest (flush_all st)
             else if 124 \<in> set trimmed \<and> rest \<noteq> [] \<and> isMarkdownTableSeparator (hd rest)
             then md_lines (dropWhile table_line (tl rest))
                    (push_block (table_block trimmed (hd rest) (takeWhile table_line (tl rest))) (flush_all st))
             else md_lines rest (md_line raw st))"
  by pat_completeness auto

termination
proof (relation "measure (\<lambda>(lines, st). length lines)")
  have "length (dropWhile table_line (tl rest)) < Suc (length rest)" for rest
    using length_dropWhile_le [of table_line "tl rest"] by simp
  then show "((dropWhile table_line (tl rest), st'), (raw # rest, st)) \<in> measure (\<lambda>(lines, st). length lines)"
    for raw rest st st' by simp
qed simp_all

declare md_lines.simps [simp del]

definition parseMarkdownBlocks :: "jsstr \<Rightarrow> md_block list" where
  "parseMarkdownBlocks content =
     (let st = flush_all (md_lines (js_split 10 (filter (\<lambda>c. c \<noteq> 13) content)) md_start)
      in md_blocks st @ (case md_fence st of Some (lang, code) \<Rightarrow> [MdCode lang code] | None \<Rightarrow> []))"

section \<open>Suggestions\<close>

definition pushSuggestion ::
  "ai_command_suggestion list \<times> jsstr list \<Rightarrow> jsstr \<Rightarrow> ai_command_suggestion list \<times> jsstr list" where
  "pushSuggestion acc command =
     (let (suggestions, seen) = acc; normalized = js_trim command
      in if normalized = [] \<or> normalized \<in> set seen \<or> 4000 < length normalized then acc
         else
           (let assessment = assessCommandLocally normalized
            in (suggestions @ [\<lparr>cs_command = normalized, cs_risk = cs_risk assessment,
                  cs_reasons = cs_reasons assessment\<rparr>],
                seen @ [normalized])))"

definition block_commands :: "md_block \<Rightarrow> jsstr list" where
  "block_commands block =
     (case block of
        MdCode lang code \<Rightarrow> if isShellFence lang then extractCommandsFromShellFence code else []
      | MdTable align header rows \<Rightarrow> []
      | MdParagraph lines \<Rightarrow> List.map_filter (\<lambda>l. opt_truthy (extractCommandFromPlainLine l)) lines
      | MdHeading level text \<Rightarrow> List.map_filter (\<lambda>l. opt_truthy (extractCommandFromPlainLine l)) [text]
      | MdList kind items \<Rightarrow> List.map_filter (\<lambda>l. opt_truthy (extractCommandFromPlainLine l)) items)"

definition extractCommandSuggestions :: "jsstr \<Rightarrow> ai_command_suggestion list" where
  "extractCommandSuggestions content =
     fst (foldl pushSuggestion ([], []) (concat (map block_commands (parseMarkdownBlocks content))))"

section \<open>What is suggested\<close>

definition suggestion_ok :: "ai_command_suggestion \<Rightarrow> bool" where
  "suggestion_ok s \<longleftrightarrow> s = assessCommandLocally (cs_command s)"

definition suggestions_ok :: "ai_command_suggestion list \<times> jsstr list \<Rightarrow> bool" where
  "suggestions_ok acc \<longleftrightarrow>
     map cs_command (fst acc) = snd acc \<and> distinct (snd acc) \<and> list_all suggestion_ok (fst acc)"

lemma assess_fields: "cs_command (assessCommandLocally c) = c"
  by (simp add: assessCommandLocally_def Let_def)

lemma push_suggestion_ok: "suggestions_ok acc \<Longrightarrow> suggestions_ok (pushSuggestion acc command)"
proof -
  let ?c = "js_trim command"
  have same: "\<lparr>cs_command = ?c, cs_risk = cs_risk (assessCommandLocally ?c),
      cs_reasons = cs_reasons (assessCommandLocally ?c)\<rparr> = assessCommandLocally ?c"
    by (cases "assessCommandLocally ?c") (use assess_fields [of ?c] in simp)
  have "suggestion_ok (assessCommandLocally ?c)" by (simp add: suggestion_ok_def assess_fields)
  moreover assume "suggestions_ok acc"
  ultimately show ?thesis
    by (cases acc) (simp add: pushSuggestion_def suggestions_ok_def same assess_fields Let_def)
qed

lemma push_suggestions_seen:
  "set (snd (foldl pushSuggestion acc commands))
   = set (snd acc) \<union> {c \<in> js_trim ` set commands. c \<noteq> [] \<and> length c \<le> 4000}"
proof (induction commands arbitrary: acc)
  case (Cons c cs)
  show ?case unfolding foldl_Cons Cons
    by (cases acc) (auto simp: pushSuggestion_def Let_def)
qed simp

text \<open>The commands suggested for an answer are those its blocks contain, trimmed and at most 4000 units
  long; none is empty or suggested twice; and each carries the risk and the reasons of its own
  assessment.\<close>

theorem suggestions_sound_and_complete:
  "let suggestions = extractCommandSuggestions content;
       commands = concat (map block_commands (parseMarkdownBlocks content))
   in distinct (map cs_command suggestions)
      \<and> set (map cs_command suggestions) = {c \<in> js_trim ` set commands. c \<noteq> [] \<and> length c \<le> 4000}
      \<and> suggestions = map (\<lambda>s. assessCommandLocally (cs_command s)) suggestions
      \<and> {s \<in> set suggestions. cs_risk s = RiskDangerous} = {s \<in> set suggestions. cs_reasons s \<noteq> []}"
proof -
  let ?commands = "concat (map block_commands (parseMarkdownBlocks content))"
  let ?acc = "foldl pushSuggestion ([], []) ?commands"
  have "suggestions_ok (foldl pushSuggestion acc cs)" if "suggestions_ok acc" for acc cs
    using that by (induction cs arbitrary: acc) (simp_all add: push_suggestion_ok)
  then have ok: "suggestions_ok ?acc" by (simp add: suggestions_ok_def)
  have risk: "cs_risk s = RiskDangerous \<longleftrightarrow> cs_reasons s \<noteq> []" if "suggestion_ok s" for s
  proof -
    have "s = assessCommandLocally (cs_command s)" using that by (simp add: suggestion_ok_def)
    then obtain c where "s = assessCommandLocally c" by blast
    then show ?thesis by (simp add: assessCommandLocally_def Let_def)
  qed
  have "fst ?acc = map (\<lambda>s. assessCommandLocally (cs_command s)) (fst ?acc)"
    "{s \<in> set (fst ?acc). cs_risk s = RiskDangerous} = {s \<in> set (fst ?acc). cs_reasons s \<noteq> []}"
    using ok risk by (auto simp: suggestions_ok_def list_all_iff suggestion_ok_def intro!: map_idI [symmetric])
  then show ?thesis using ok push_suggestions_seen [of "([], [])" ?commands]
    unfolding extractCommandSuggestions_def Let_def suggestions_ok_def by simp
qed

section \<open>Blocks written and read\<close>

text \<open>Markdown text of a block, as lines, and the blocks for which it is unambiguous: no table among them,
  no line that would read as another block.\<close>

fun block_lines :: "md_block \<Rightarrow> jsstr list" where
  "block_lines (MdHeading n text) = [replicate n 35 @ [32] @ text]"
| "block_lines (MdParagraph lines) = lines"
| "block_lines (MdList UnorderedList items) = map (\<lambda>i. [45, 32] @ i) items"
| "block_lines (MdList OrderedList items) = map (\<lambda>i. [49, 46, 32] @ i) items"
| "block_lines (MdCode lang code) = (fence_sign @ lang) # code @ [fence_sign]"
| "block_lines (MdTable align header rows) = []"

definition clean_text :: "jsstr \<Rightarrow> bool" where
  "clean_text s \<longleftrightarrow> s \<noteq> [] \<and> js_trim s = s \<and> 124 \<notin> set s \<and> no_terminator s"

definition plain_line :: "jsstr \<Rightarrow> bool" where
  "plain_line s \<longleftrightarrow> clean_text s \<and> \<not> prefix fence_sign s
     \<and> after_hashes s = None \<and> after_bullet s = None \<and> after_number s = None"

fun plain_block :: "md_block \<Rightarrow> bool" where
  "plain_block (MdHeading n text) \<longleftrightarrow> 1 \<le> n \<and> n \<le> 6 \<and> clean_text text"
| "plain_block (MdParagraph lines) \<longleftrightarrow> lines \<noteq> [] \<and> list_all plain_line lines"
| "plain_block (MdList kind items) \<longleftrightarrow> items \<noteq> [] \<and> list_all clean_text items"
| "plain_block (MdCode lang code) \<longleftrightarrow> js_trim lang = lang \<and> js_lower lang = lang \<and> no_terminator lang
     \<and> list_all (\<lambda>l. \<not> prefix fence_sign (js_trim l) \<and> no_terminator l) code"
| "plain_block (MdTable align header rows) \<longleftrightarrow> False"

definition markdown_of :: "md_block list \<Rightarrow> jsstr" where
  "markdown_of bs = js_join [10] (concat (map (\<lambda>b. block_lines b @ [[]]) bs))"

text \<open>A state between blocks.\<close>

definition at_rest :: "md_state \<Rightarrow> bool" where
  "at_rest st \<longleftrightarrow> md_fence st = None \<and> md_paragraph st = [] \<and> md_listType st = None \<and> md_items st = []"

lemma flush_at_rest: "at_rest st \<Longrightarrow> flush_all st = st"
  by (cases st) (simp add: at_rest_def flush_all_def flushParagraph_def flushList_def)

lemma md_lines_blank: "md_fence st = None \<Longrightarrow> md_lines ([] # rest) st = md_lines rest (flush_all st)"
  by (simp add: fence_sign_def md_lines.simps)

lemma md_lines_line:
  assumes "md_fence st = None" "js_trim raw = raw" "raw \<noteq> []" "\<not> prefix fence_sign raw" "124 \<notin> set raw"
  shows "md_lines (raw # rest) st = md_lines rest (md_line raw st)"
  using assms by (simp add: md_lines.simps Let_def)

lemma clean_not_ws: "clean_text s \<Longrightarrow> \<not> is_ws (hd s) \<and> \<not> is_ws (last s)"
  using js_trim_ends [of s] by (simp add: clean_text_def)

lemma after_ws_clean: "clean_text s \<Longrightarrow> after_ws (32 # s) = Some s"
  using clean_not_ws [of s] by (cases s) (auto simp: after_ws_def is_ws_def js_trim_start_def clean_text_def)

lemma trim_marked: "clean_text s \<Longrightarrow> p \<noteq> [] \<Longrightarrow> \<not> is_ws (hd p) \<Longrightarrow> js_trim (p @ s) = p @ s"
  by (rule js_trim_id) (use clean_not_ws [of s] in \<open>simp add: clean_text_def\<close>)

lemma read_paragraph:
  "\<lbrakk>list_all plain_line lines; md_fence st = None; md_listType st = None; md_items st = []\<rbrakk> \<Longrightarrow>
   md_lines (lines @ rest) st = md_lines rest (st\<lparr>md_paragraph := md_paragraph st @ lines\<rparr>)"
proof (induction lines arbitrary: st)
  case (Cons l ls)
  have "md_line l st = st\<lparr>md_paragraph := md_paragraph st @ [l]\<rparr>"
    using Cons.prems
    by (cases st) (simp add: md_line_def heading_of_def rest_of_line_def plain_line_def clean_text_def flushList_def)
  then show ?case using Cons
    by (simp add: md_lines_line plain_line_def clean_text_def)
qed simp

lemma read_items:
  "\<lbrakk>list_all clean_text items; md_fence st = None; md_paragraph st = [];
    md_listType st = None \<and> md_items st = [] \<or> md_listType st = Some kind; items \<noteq> []\<rbrakk> \<Longrightarrow>
   md_lines (block_lines (MdList kind items) @ rest) st
     = md_lines rest (st\<lparr>md_listType := Some kind, md_items := md_items st @ items\<rparr>)"
proof (induction items arbitrary: st)
  case (Cons i js)
  define mark where "mark = (case kind of UnorderedList \<Rightarrow> [45, 32] | OrderedList \<Rightarrow> [49, 46, 32 :: nat])"
  have clean: "clean_text i" using Cons.prems(1) by simp
  have lines: "block_lines (MdList kind xs) = map (\<lambda>i. mark @ i) xs" for xs
    by (cases kind) (simp_all add: mark_def)
  have item: "heading_of (mark @ i) = None"
    "rest_of_line (after_bullet (mark @ i)) = (if kind = UnorderedList then Some i else None)"
    "kind = OrderedList \<Longrightarrow> rest_of_line (after_number (mark @ i)) = Some i"
    using after_ws_clean [OF clean] clean
    by (cases kind; simp add: mark_def heading_of_def after_hashes_def rest_of_line_def after_bullet_def
        after_number_def is_bullet_def is_digit_unit_def clean_text_def)+
  have m: "mark \<noteq> []" "\<not> is_ws (hd mark)" "\<not> prefix fence_sign (mark @ i)" "124 \<notin> set (mark @ i)"
    using clean by (cases kind; simp add: mark_def is_ws_def fence_sign_def clean_text_def)+
  note trim = trim_marked [OF clean m(1,2)]
  let ?st = "st\<lparr>md_listType := Some kind, md_items := md_items st @ [i]\<rparr>"
  have "md_line (mark @ i) st = add_item kind i st"
    using item by (cases kind) (simp_all add: md_line_def trim)
  also have "\<dots> = ?st" using Cons.prems clean
    by (cases st) (auto simp: add_item_def flushParagraph_def clean_text_def)
  finally have "md_lines ((mark @ i) # xs) st = md_lines xs ?st" for xs
    using md_lines_line [OF Cons.prems(2) trim _ m(3,4)] m(1) by simp
  moreover have "md_lines (map (\<lambda>i. mark @ i) js @ rest) ?st
      = md_lines rest (st\<lparr>md_listType := Some kind, md_items := md_items st @ i # js\<rparr>)"
    using Cons.IH [of ?st] Cons.prems by (cases js) (simp_all add: lines)
  ultimately show ?case by (simp add: lines)
qed simp

lemma read_code:
  "\<lbrakk>list_all (\<lambda>l. \<not> prefix fence_sign (js_trim l) \<and> no_terminator l) code; md_fence st = Some (lang, done)\<rbrakk> \<Longrightarrow>
   md_lines (code @ fence_sign # rest) st = md_lines rest ((push_block (MdCode lang (done @ code)) st)\<lparr>md_fence := None\<rparr>)"
proof (induction code arbitrary: st "done")
  case Nil
  have "js_trim fence_sign = fence_sign" by (rule js_trim_id) (simp add: fence_sign_def is_ws_def)
  with Nil show ?case by (simp add: md_lines.simps)
next
  case (Cons l ls)
  then show ?case by (simp add: push_block_def md_lines.simps)
qed

lemma read_heading:
  assumes "plain_block (MdHeading n text)" "at_rest st"
  shows "md_lines (block_lines (MdHeading n text) @ [] # rest) st = md_lines rest (push_block (MdHeading n text) st)"
proof -
  let ?raw = "replicate n 35 @ 32 # text"
  have n: "1 \<le> n" "n \<le> 6" and clean: "clean_text text" using assms(1) by simp_all
  have p: "replicate n 35 @ [32] \<noteq> []" "\<not> is_ws (hd (replicate n 35 @ [32]))"
    using n by (cases n; simp add: is_ws_def)+
  have "takeWhile (\<lambda>c. c = 35) ?raw = replicate n 35" by (simp add: takeWhile_append)
  then have "after_hashes ?raw = Some (n, text)"
    using n after_ws_clean [OF clean] by (simp add: after_hashes_def Let_def)
  then have "heading_of ?raw = Some (n, text)" using clean by (simp add: heading_of_def clean_text_def)
  moreover have trim: "js_trim ?raw = ?raw" using trim_marked [OF clean p] by simp
  ultimately have "md_line ?raw st = push_block (MdHeading n text) st"
    using clean by (simp add: md_line_def flush_at_rest [OF assms(2)] clean_text_def)
  moreover have "\<not> prefix fence_sign ?raw" "124 \<notin> set ?raw"
    using n clean by (cases n; simp add: fence_sign_def clean_text_def)+
  ultimately have "md_lines (?raw # xs) st = md_lines xs (push_block (MdHeading n text) st)" for xs
    using md_lines_line [OF _ trim] assms(2) by (simp add: at_rest_def)
  moreover have "at_rest (push_block b st)" for b using assms(2) by (simp add: at_rest_def push_block_def)
  ultimately show ?thesis by (simp add: md_lines_blank at_rest_def flush_at_rest)
qed

lemma read_block:
  assumes "plain_block b" "at_rest st"
  shows "md_lines (block_lines b @ [] # rest) st = md_lines rest (push_block b st)"
proof (cases b)
  case (MdHeading n title)
  with assms read_heading show ?thesis by blast
next
  case (MdParagraph lines)
  with assms show ?thesis
    by (cases st) (simp add: read_paragraph at_rest_def md_lines_blank flush_all_def flushParagraph_def
        flushList_def push_block_def)
next
  case (MdList kind items)
  have "md_lines (block_lines b @ [] # rest) st
    = md_lines ([] # rest) (st\<lparr>md_listType := Some kind, md_items := md_items st @ items\<rparr>)"
    unfolding MdList by (rule read_items) (use assms MdList in \<open>simp_all add: at_rest_def\<close>)
  with assms MdList show ?thesis
    by (cases st) (simp add: at_rest_def md_lines_blank flush_all_def flushParagraph_def flushList_def push_block_def)
next
  case (MdCode lang code)
  let ?open = "fence_sign @ lang"
  have "js_trim ?open = ?open"
  proof (rule js_trim_id)
    assume "?open \<noteq> []"
    show "\<not> is_ws (hd ?open) \<and> \<not> is_ws (last ?open)"
      using js_trim_ends [of lang] assms(1) MdCode by (cases "lang = []") (simp_all add: fence_sign_def is_ws_def)
  qed
  then have "md_lines (?open # xs) st = md_lines xs (st\<lparr>md_fence := Some (lang, [])\<rparr>)" for xs
    using assms MdCode flush_at_rest [OF assms(2)]
    by (simp add: at_rest_def md_lines.simps) (simp add: fence_sign_def)
  then have "md_lines (block_lines b @ [] # rest) st
      = md_lines ([] # rest) ((push_block b (st\<lparr>md_fence := Some (lang, [])\<rparr>))\<lparr>md_fence := None\<rparr>)"
    using MdCode assms(1) read_code [of code "st\<lparr>md_fence := Some (lang, [])\<rparr>" lang "[]" "[] # rest"] by simp
  moreover have "(push_block b (st\<lparr>md_fence := Some (lang, [])\<rparr>))\<lparr>md_fence := None\<rparr> = push_block b st"
    using assms(2) by (cases st) (simp add: push_block_def at_rest_def)
  moreover have "at_rest (push_block b st)" using assms(2) by (simp add: at_rest_def push_block_def)
  ultimately show ?thesis by (simp add: md_lines_blank at_rest_def flush_at_rest)
qed (use assms in simp)

lemma read_blocks:
  "\<lbrakk>list_all plain_block bs; at_rest st\<rbrakk> \<Longrightarrow>
   md_lines (concat (map (\<lambda>b. block_lines b @ [[]]) bs)) st = st\<lparr>md_blocks := md_blocks st @ bs\<rparr>"
proof (induction bs arbitrary: st)
  case Nil
  then show ?case by (simp add: md_lines.simps)
next
  case (Cons b bs)
  have "at_rest (push_block b st)" using Cons.prems(2) by (simp add: at_rest_def push_block_def)
  with Cons show ?case by (simp add: read_block push_block_def)
qed

lemma plain_no_newline:
  assumes "plain_block b" "l \<in> set (block_lines b)"
  shows "10 \<notin> set l \<and> 13 \<notin> set l"
proof -
  have "no_terminator s \<Longrightarrow> 10 \<notin> set s \<and> 13 \<notin> set s" for s
    by (auto simp: no_terminator_def list_all_iff is_line_terminator_def)
  then show ?thesis using assms
    by (cases b rule: block_lines.cases)
       (auto simp: list_all_iff plain_line_def clean_text_def fence_sign_def)
qed

text \<open>C18. Markdown is read back: the headings, paragraphs, lists and code blocks of a document, written as
  Markdown with an empty line after each block, are what the parser finds in it, in order, with the code
  of a fence verbatim.\<close>

theorem markdown_round_trip:
  assumes "list_all plain_block blocks"
  shows "parseMarkdownBlocks (markdown_of blocks) = blocks"
proof -
  let ?lines = "concat (map (\<lambda>b. block_lines b @ [[]]) blocks)"
  have no: "10 \<notin> set l \<and> 13 \<notin> set l" if "l \<in> set ?lines" for l
  proof -
    have "l = [] \<or> (\<exists>b\<in>set blocks. l \<in> set (block_lines b))" using that by (auto split: if_splits)
    then show ?thesis using assms plain_no_newline by (auto simp: list_all_iff)
  qed
  have "filter (\<lambda>c. c \<noteq> 13) (js_join [10] ls) = js_join [10] ls" if "\<forall>l\<in>set ls. 13 \<notin> set l" for ls
    using that by (induction "[10 :: nat]" ls rule: js_join.induct) (auto simp: filter_id_conv)
  then have clean: "filter (\<lambda>c. c \<noteq> 13) (markdown_of blocks) = markdown_of blocks"
    using no by (simp add: markdown_of_def)
  show ?thesis
  proof (cases "blocks = []")
    case True
    then show ?thesis by (simp add: parseMarkdownBlocks_def markdown_of_def md_start_def flush_all_def
          flushParagraph_def flushList_def fence_sign_def md_lines.simps)
  next
    case False
    then have "?lines \<noteq> []" by (cases blocks) auto
    then have "js_split 10 (markdown_of blocks) = ?lines"
      unfolding markdown_of_def using no by (intro js_split_join) auto
    moreover have "at_rest md_start" by (simp add: at_rest_def md_start_def)
    moreover have "at_rest (md_start\<lparr>md_blocks := blocks\<rparr>)" by (simp add: at_rest_def md_start_def)
    ultimately show ?thesis
      using read_blocks [OF assms, of md_start] flush_at_rest [of "md_start\<lparr>md_blocks := blocks\<rparr>"]
      unfolding parseMarkdownBlocks_def Let_def clean by (simp add: md_start_def)
  qed
qed

theorem markdown_round_trip_witness:
  "parseMarkdownBlocks (markdown_of [MdHeading 2 (js ''Steps''), MdList UnorderedList [js ''ls''],
      MdCode (js ''bash'') [js ''cd /'']])
   = [MdHeading 2 (js ''Steps''), MdList UnorderedList [js ''ls''], MdCode (js ''bash'') [js ''cd /'']]"
proof (rule markdown_round_trip)
  have "js_trim (js ''Steps'') = js ''Steps''" "js_trim (js ''ls'') = js ''ls''" "js_trim (js ''bash'') = js ''bash''"
    "js_trim (js ''cd /'') = js ''cd /''"
    by (rule js_trim_id; simp add: js_def is_ws_def)+
  then show "list_all plain_block [MdHeading 2 (js ''Steps''), MdList UnorderedList [js ''ls''],
      MdCode (js ''bash'') [js ''cd /'']]"
    by (simp add: clean_text_def fence_sign_def)
       (simp add: js_def no_terminator_def is_line_terminator_def js_lower_def lower_unit_def)
qed

end
