(* ===== verification/Ai_Scope.thy ===== *)
theory Ai_Scope
  imports Ai_Flow Ai_Markdown
begin

text \<open>
  The scopes of the assistant, \<open>src/features/ai/aiAssistantScopeStore.ts\<close>: one state per terminal or
  host, its listeners and its effect handler; and what an event of the backend makes of a scope,
  \<open>applyAiStreamEventToScope\<close> of \<open>AiAssistantPanel.tsx\<close>. An updater returns \<^term>\<open>None\<close> where the
  code returns the state it was given. Listeners and handlers are named by numbers.
\<close>

section \<open>The store\<close>

record ai_store =
  st_scopeStates :: "(jsstr \<times> ai_scope) list"
  st_scopeListeners :: "(jsstr \<times> nat list) list"
  st_effectHandlers :: "(jsstr \<times> nat) list"

definition normalizeAiScopeKey :: "jsstr option \<Rightarrow> jsstr" where
  "normalizeAiScopeKey key = opt_str_or (map_option js_trim key) (js ''__default__'')"

definition readAiScopeState :: "jsstr \<Rightarrow> ai_store \<Rightarrow> ai_scope \<times> ai_store" where
  "readAiScopeState key store =
     (case map_of (st_scopeStates store) key of
        Some state \<Rightarrow> (state, store)
      | None \<Rightarrow> (createDefaultScopeState,
                 store\<lparr>st_scopeStates := AList.update key createDefaultScopeState (st_scopeStates store)\<rparr>))"

text \<open>The listeners notified, in order.\<close>

definition notifyAiScope :: "jsstr \<Rightarrow> ai_store \<Rightarrow> nat list" where
  "notifyAiScope key store = or_else (map_of (st_scopeListeners store) key) []"

definition updateAiScopeState ::
  "jsstr \<Rightarrow> (ai_scope \<Rightarrow> ai_scope option) \<Rightarrow> ai_store \<Rightarrow> nat list \<times> ai_store" where
  "updateAiScopeState key updater store =
     (let (current, store1) = readAiScopeState key store
      in case updater current of
           None \<Rightarrow> ([], store1)
         | Some next \<Rightarrow>
             (let store2 = store1\<lparr>st_scopeStates := AList.update key next (st_scopeStates store1)\<rparr>
              in (notifyAiScope key store2, store2)))"

fun update_keys ::
  "jsstr list \<Rightarrow> (jsstr \<Rightarrow> ai_scope \<Rightarrow> ai_scope option) \<Rightarrow> ai_store \<Rightarrow> nat list \<times> ai_store" where
  "update_keys [] updater store = ([], store)"
| "update_keys (key # ks) updater store =
     (let (notified, store1) = updateAiScopeState key (updater key) store;
          (later, store2) = update_keys ks updater store1
      in (notified @ later, store2))"

definition updateEveryAiScopeState ::
  "(jsstr \<Rightarrow> ai_scope \<Rightarrow> ai_scope option) \<Rightarrow> ai_store \<Rightarrow> nat list \<times> ai_store" where
  "updateEveryAiScopeState updater store = update_keys (map fst (st_scopeStates store)) updater store"

definition subscribeAiScope :: "jsstr \<Rightarrow> nat \<Rightarrow> ai_store \<Rightarrow> ai_store" where
  "subscribeAiScope key listener store =
     (let ls = or_else (map_of (st_scopeListeners store) key) []
      in store\<lparr>st_scopeListeners :=
           AList.update key (if listener \<in> set ls then ls else ls @ [listener]) (st_scopeListeners store)\<rparr>)"

definition unsubscribeAiScope :: "jsstr \<Rightarrow> nat \<Rightarrow> ai_store \<Rightarrow> ai_store" where
  "unsubscribeAiScope key listener store =
     (case map_of (st_scopeListeners store) key of
        None \<Rightarrow> store
      | Some ls \<Rightarrow>
          (let rest = filter (\<lambda>l. l \<noteq> listener) ls
           in store\<lparr>st_scopeListeners :=
                (if rest = [] then AList.delete key (st_scopeListeners store)
                 else AList.update key rest (st_scopeListeners store))\<rparr>))"

definition setAiScopeEffectHandler :: "jsstr \<Rightarrow> nat \<Rightarrow> ai_store \<Rightarrow> ai_store" where
  "setAiScopeEffectHandler key handler store =
     store\<lparr>st_effectHandlers := AList.update key handler (st_effectHandlers store)\<rparr>"

definition removeAiScopeEffectHandler :: "jsstr \<Rightarrow> nat \<Rightarrow> ai_store \<Rightarrow> ai_store" where
  "removeAiScopeEffectHandler key handler store =
     (if map_of (st_effectHandlers store) key = Some handler
      then store\<lparr>st_effectHandlers := AList.delete key (st_effectHandlers store)\<rparr> else store)"

definition emitAiScopeEffect :: "jsstr \<Rightarrow> ai_effect \<Rightarrow> ai_store \<Rightarrow> (nat \<times> ai_effect) list" where
  "emitAiScopeEffect key effect store =
     (case map_of (st_effectHandlers store) key of Some handler \<Rightarrow> [(handler, effect)] | None \<Rightarrow> [])"

section \<open>Events of the backend\<close>

definition tailByChars :: "jsstr \<Rightarrow> nat \<Rightarrow> jsstr" where
  "tailByChars content maxChars =
     (let chars = code_points content
      in if length chars \<le> maxChars then content else concat (drop (length chars - maxChars) chars))"

definition upsertToolCall :: "ai_tool_call list \<Rightarrow> ai_tool_call \<Rightarrow> ai_tool_call list" where
  "upsertToolCall calls record' =
     (if list_ex (\<lambda>call. tl_id call = tl_id record') calls
      then map (\<lambda>call. if tl_id call = tl_id record' then record' else call) calls
      else calls @ [record'])"

definition mapMessageById ::
  "ai_message list \<Rightarrow> jsstr \<Rightarrow> (ai_message \<Rightarrow> ai_message) \<Rightarrow> ai_message list option" where
  "mapMessageById messages messageId update =
     (if list_ex (\<lambda>message. am_id message = messageId) messages
      then Some (map (\<lambda>message. if am_id message \<noteq> messageId then message else update message) messages)
      else None)"

definition withMessages ::
  "ai_scope \<Rightarrow> ai_message list option \<Rightarrow> ai_effect option \<Rightarrow> ai_scope \<times> ai_effect option" where
  "withMessages state messages effect =
     (case messages of None \<Rightarrow> (state, None) | Some ms \<Rightarrow> (state\<lparr>sc_messages := ms\<rparr>, effect))"

definition tool_output_call :: "ai_tool_output \<Rightarrow> ai_tool_call \<Rightarrow> ai_tool_call" where
  "tool_output_call output call =
     (if tl_id call = to_tool_call_id output
      then call\<lparr>tl_output := tailByChars
                  ((if tl_status call = js ''completed'' then [] else tl_output call) @ to_delta output) 12000,
                tl_status := (if tl_status call = js ''pending_approval'' then tl_status call else js ''running'')\<rparr>
      else call)"

definition background_status :: "jsstr \<Rightarrow> jsstr" where
  "background_status s =
     (if s = js ''succeeded'' then js ''completed''
      else if s = js ''cancelled'' then js ''cancelled''
      else if s = js ''running'' then js ''running'' else js ''failed'')"

definition background_call :: "ai_background_task \<Rightarrow> ai_tool_call \<Rightarrow> ai_tool_call" where
  "background_call update call =
     (if tl_id call = bt_tool_call_id update
      then call\<lparr>tl_status := background_status (bt_status update),
                tl_output := str_or (bt_output_preview update) (tl_output call),
                tl_output_artifact_id :=
                  (case opt_truthy (bt_output_artifact_id update) of
                     Some a \<Rightarrow> Some a | None \<Rightarrow> tl_output_artifact_id call),
                tl_exit_status :=
                  (case bt_exit_status update of Some x \<Rightarrow> Some x | None \<Rightarrow> tl_exit_status call)\<rparr>
      else call)"

definition map_tool_calls :: "(ai_tool_call \<Rightarrow> ai_tool_call) \<Rightarrow> ai_message \<Rightarrow> ai_message" where
  "map_tool_calls f message = message\<lparr>am_tool_calls := map f (am_tool_calls message)\<rparr>"

definition record_tool_call :: "int \<Rightarrow> ai_tool_call \<Rightarrow> ai_message \<Rightarrow> ai_message" where
  "record_tool_call now record' message =
     (if list_ex (\<lambda>item. tl_id item = tl_id record') (am_tool_calls message)
      then message else finishThinkingBlock now message)
     \<lparr>am_tool_calls := upsertToolCall (am_tool_calls message) record'\<rparr>"

text \<open>\<open>{...message, ...previous_message, thinking_blocks}\<close>: an absent \<open>file_changes\<close> is not spread.\<close>

definition injected_message :: "int \<Rightarrow> ai_message \<Rightarrow> ai_message \<Rightarrow> ai_message" where
  "injected_message now previous message =
     previous\<lparr>am_thinking_blocks := am_thinking_blocks (finishThinkingBlock now message),
       am_file_changes :=
         (case am_file_changes previous of Some c \<Rightarrow> Some c | None \<Rightarrow> am_file_changes message)\<rparr>"

definition chunk_message :: "int \<Rightarrow> jsstr \<Rightarrow> ai_message \<Rightarrow> ai_message" where
  "chunk_message now delta message =
     (finishThinkingBlock now message)\<lparr>am_content := am_content message @ delta, am_status := js ''streaming''\<rparr>"

definition end_status :: "ai_event_kind \<Rightarrow> ai_end_status option" where
  "end_status kind =
     (case kind of KindFinished \<Rightarrow> Some EndFinished | KindStopped \<Rightarrow> Some EndStopped
      | KindError \<Rightarrow> Some EndError | _ \<Rightarrow> None)"

definition ended_message :: "int \<Rightarrow> ai_stream_event \<Rightarrow> ai_end_status \<Rightarrow> ai_message \<Rightarrow> ai_message" where
  "ended_message now event status message =
     (finishThinkingBlock now message)
       \<lparr>am_commands := extractCommandSuggestions (opt_str_or (ae_content event) (am_content message)),
        am_content := or_else (ae_content event) (am_content message),
        am_status := (case status of EndFinished \<Rightarrow> js ''complete'' | EndStopped \<Rightarrow> js ''stopped''
                      | EndError \<Rightarrow> js ''error'')\<rparr>"

text \<open>The events of the live stream: the scope has a stream and the event is its own.\<close>

definition live_event :: "int \<Rightarrow> ai_scope \<Rightarrow> ai_stream_state \<Rightarrow> ai_stream_event \<Rightarrow> ai_scope \<times> ai_effect option" where
  "live_event now state stream event =
     (case (ae_kind event, ae_injection event) of
        (KindMessageInjected, Some injection) \<Rightarrow>
          (let queue = filter (\<lambda>item. aq_id item \<notin> set (ij_queue_ids injection)) (sc_queuedMessages state)
           in if list_ex (\<lambda>message. am_id message = am_id (ij_assistant_message injection)) (sc_messages state)
              then (state\<lparr>sc_queuedMessages := queue\<rparr>, None)
              else (state\<lparr>
                sc_messages := or_else (mapMessageById (sc_messages state) (ae_message_id event)
                    (injected_message now (ij_previous_message injection))) (sc_messages state)
                  @ ij_user_messages injection @ [ij_assistant_message injection],
                sc_streamState := Some (stream\<lparr>as_assistantMessageId := am_id (ij_assistant_message injection)\<rparr>),
                sc_queuedMessages := queue\<rparr>, None))
      | (KindChunk, _) \<Rightarrow>
          withMessages state (mapMessageById (sc_messages state) (ae_message_id event)
            (chunk_message now (or_else (ae_delta event) []))) None
      | (KindThinking, _) \<Rightarrow>
          withMessages state (mapMessageById (sc_messages state) (ae_message_id event)
            (\<lambda>message. (appendThinkingDelta now message (or_else (ae_thinking_delta event) [])
               (ae_thinking_update event))\<lparr>am_status := js ''streaming''\<rparr>)) None
      | (kind, _) \<Rightarrow>
          (case end_status kind of
             None \<Rightarrow> (state, None)
           | Some status \<Rightarrow>
               (state\<lparr>sc_messages := or_else (mapMessageById (sc_messages state) (ae_message_id event)
                    (ended_message now event status)) (sc_messages state),
                  sc_streamState := None\<rparr>,
                Some (StreamEnded
                  (if as_stopRequested stream = Some True \<and> kind = KindFinished then EndStopped else status)
                  (ae_error event)))))"

definition applyAiStreamEventToScope ::
  "int \<Rightarrow> ai_scope \<Rightarrow> ai_stream_event \<Rightarrow> ai_scope \<times> ai_effect option" where
  "applyAiStreamEventToScope now state event =
     (let onMessage = (\<lambda>f. withMessages state (mapMessageById (sc_messages state) (ae_message_id event) f))
      in if ae_kind event = KindFileChanges \<and> ae_file_changes event \<noteq> None
            \<and> sc_activeSessionId state = Some (ae_session_id event)
         then withMessages state
                (applyFileChangeSummaries (sc_messages state) (ae_session_id event) (the (ae_file_changes event))) None
         else if ae_kind event = KindToolOutput
         then (case ae_tool_output event of
                 None \<Rightarrow> (state, None)
               | Some output \<Rightarrow>
                   if to_delta output = [] then (state, None)
                   else onMessage (map_tool_calls (tool_output_call output)) None)
         else if ae_kind event = KindBackgroundTask
         then (case ae_background_task event of
                 None \<Rightarrow> (state, None)
               | Some update \<Rightarrow>
                   onMessage (map_tool_calls (background_call update))
                     (if bt_status update \<noteq> js ''running'' then Some (BackgroundTask (bt_status update)) else None))
         else if ae_kind event = KindToolCall
         then (case ae_tool_call event of
                 None \<Rightarrow> (state, None)
               | Some record' \<Rightarrow> onMessage (record_tool_call now record') None)
         else
           (case sc_streamState state of
              None \<Rightarrow> (state, None)
            | Some stream \<Rightarrow>
                if ae_stream_id event \<noteq> as_streamId stream then (state, None)
                else live_event now state stream event))"

end
