(* ===== verification/Ai_Stream.thy ===== *)
theory Ai_Stream
  imports Ai_Scope
begin

text \<open>
  What a run of stream events leaves in a scope: the text of the answer is the text that arrived for it,
  whatever other events come in between, and the end of the stream is announced once.
\<close>

definition text_event :: "ai_stream_event \<Rightarrow> bool" where
  "text_event event \<longleftrightarrow> ae_kind event \<notin> {KindMessageInjected, KindFinished, KindError, KindStopped}"

text \<open>What an event adds to the text and to the thoughts of the message \<open>x\<close> of the stream \<open>s\<close>.\<close>

definition content_delta :: "jsstr \<Rightarrow> jsstr \<Rightarrow> ai_stream_event \<Rightarrow> jsstr" where
  "content_delta s x event =
     (if ae_kind event = KindChunk \<and> ae_stream_id event = s \<and> ae_message_id event = x
      then or_else (ae_delta event) [] else [])"

definition thinking_delta :: "jsstr \<Rightarrow> jsstr \<Rightarrow> ai_stream_event \<Rightarrow> jsstr" where
  "thinking_delta s x event =
     (if ae_kind event = KindThinking \<and> ae_stream_id event = s \<and> ae_message_id event = x
      then or_else (ae_thinking_delta event) [] else [])"

text \<open>A scope through a list of events, each with its time; and the effects, in order.\<close>

fun stream_run :: "(int \<times> ai_stream_event) list \<Rightarrow> ai_scope \<Rightarrow> ai_scope \<times> ai_effect list" where
  "stream_run [] state = (state, [])"
| "stream_run ((now, event) # events) state =
     (let (state1, effect) = applyAiStreamEventToScope now state event;
          (state2, effects) = stream_run events state1
      in (state2, (case effect of Some e \<Rightarrow> e # effects | None \<Rightarrow> effects)))"

definition message_at :: "jsstr \<Rightarrow> ai_scope \<Rightarrow> ai_message option" where
  "message_at x state = List.find (\<lambda>m. am_id m = x) (sc_messages state)"

fun is_end :: "ai_effect \<Rightarrow> bool" where
  "is_end (StreamEnded status error) = True"
| "is_end (BackgroundTask status) = False"

section \<open>One event\<close>

lemma finish_fields [simp]:
  "am_id (finishThinkingBlock now m) = am_id m"
  "am_content (finishThinkingBlock now m) = am_content m"
  "am_thinking (finishThinkingBlock now m) = am_thinking m"
  by (simp_all add: finishThinkingBlock_def Let_def split: option.splits)

lemma append_thinking_fields:
  "am_id (appendThinkingDelta now m d u) = am_id m"
  "am_content (appendThinkingDelta now m d u) = am_content m"
  "am_thinking (appendThinkingDelta now m d u) = am_thinking m @ d"
  by (simp_all add: appendThinkingDelta_def Let_def)

lemma change_fields [simp]:
  "am_id (change_message us m) = am_id m"
  "am_content (change_message us m) = am_content m"
  "am_thinking (change_message us m) = am_thinking m"
  by (simp_all add: change_message_def Let_def)

lemma call_fields [simp]:
  "am_id (map_tool_calls f m) = am_id m" "am_content (map_tool_calls f m) = am_content m"
  "am_thinking (map_tool_calls f m) = am_thinking m"
  "am_id (record_tool_call now c m) = am_id m" "am_content (record_tool_call now c m) = am_content m"
  "am_thinking (record_tool_call now c m) = am_thinking m"
  by (simp_all add: map_tool_calls_def record_tool_call_def)

text \<open>What the message \<open>x\<close> becomes when the messages with the identifier \<open>y\<close> are updated.\<close>

lemma find_mapped:
  assumes "\<And>m. am_id (f m) = am_id m"
  shows "List.find (\<lambda>m. am_id m = x) (map f ms) = map_option f (List.find (\<lambda>m. am_id m = x) ms)"
  by (induction ms) (simp_all add: assms)

lemma message_at_update:
  assumes "message_at x state = Some m" "\<And>m. am_id (f m) = am_id m"
  shows "message_at x (fst (withMessages state (mapMessageById (sc_messages state) y f) e))
    = Some (if y = x then f m else m)"
proof -
  have "am_id m = x" "m \<in> set (sc_messages state)"
    using assms(1) find_SomeD [of "\<lambda>m. am_id m = x"] by (auto simp: message_at_def)
  moreover have "List.find (\<lambda>m. am_id m = x) (map (\<lambda>m. if am_id m \<noteq> y then m else f m) (sc_messages state))
      = map_option (\<lambda>m. if am_id m \<noteq> y then m else f m) (message_at x state)"
    unfolding message_at_def by (rule find_mapped) (simp add: assms(2))
  ultimately show ?thesis using assms(1)
    by (auto simp: withMessages_def mapMessageById_def message_at_def list_ex_iff)
qed

lemma withMessages_stream: "sc_streamState (fst (withMessages state ms e)) = sc_streamState state"
  by (simp add: withMessages_def split: option.splits)

lemma withMessages_effect: "snd (withMessages state ms e) = Some eff \<Longrightarrow> e = Some eff"
  by (simp add: withMessages_def split: option.splits)

lemma message_at_changes:
  assumes "message_at x state = Some m"
  shows "\<exists>m'. message_at x (fst (withMessages state (applyFileChangeSummaries (sc_messages state) s us) e)) = Some m'
      \<and> am_content m' = am_content m \<and> am_thinking m' = am_thinking m"
proof (cases "applyFileChangeSummaries (sc_messages state) s us")
  case None
  with assms show ?thesis by (simp add: withMessages_def)
next
  case (Some ms)
  let ?us = "\<lambda>m. filter (\<lambda>summary. fs_message_id summary = am_id m) us"
  let ?f = "\<lambda>m. if am_session_id m = s \<and> ?us m \<noteq> [] then change_message (?us m) m else m"
  from Some have ms: "ms = map ?f (sc_messages state)"
    by (simp add: applyFileChangeSummaries_def Let_def split: if_splits)
  have "message_at x (fst (withMessages state (Some ms) e)) = map_option ?f (message_at x state)"
    unfolding message_at_def withMessages_def ms by simp (rule find_mapped, simp)
  with assms Some show ?thesis by auto
qed

lemmas apply_defs = applyAiStreamEventToScope_def live_event_def Let_def

lemma text_event_step:
  assumes "text_event event" "sc_streamState state = Some stream" "message_at x state = Some m"
  shows "\<exists>m'. message_at x (fst (applyAiStreamEventToScope now state event)) = Some m'
      \<and> am_content m' = am_content m @ content_delta (as_streamId stream) x event
      \<and> am_thinking m' = am_thinking m @ thinking_delta (as_streamId stream) x event"
proof -
  have at: "message_at x (fst (withMessages state (mapMessageById (sc_messages state) y f) e))
      = Some (if y = x then f m else m)" if "\<And>m. am_id (f m) = am_id m" for y f e
    by (rule message_at_update [OF assms(3) that])
  have same: "\<exists>m'. message_at x state = Some m' \<and> am_content m' = am_content m \<and> am_thinking m' = am_thinking m"
    using assms(3) by simp
  show ?thesis
  proof (cases "ae_kind event")
    case KindChunk
    then show ?thesis using same assms(2)
      by (auto simp: apply_defs content_delta_def thinking_delta_def chunk_message_def at)
  next
    case KindThinking
    then show ?thesis using same assms(2)
      by (auto simp: apply_defs content_delta_def thinking_delta_def append_thinking_fields at)
  next
    case KindFileChanges
    then show ?thesis using same assms(2) message_at_changes [OF assms(3)]
      by (auto simp: apply_defs content_delta_def thinking_delta_def end_status_def)
  qed (use assms same in \<open>auto simp: apply_defs content_delta_def thinking_delta_def at text_event_def
         split: option.splits\<close>)
qed

lemma text_event_stream:
  assumes "text_event event" "sc_streamState state = Some stream"
  shows "sc_streamState (fst (applyAiStreamEventToScope now state event)) = Some stream"
    and "\<And>eff. snd (applyAiStreamEventToScope now state event) = Some eff \<Longrightarrow> \<not> is_end eff"
proof -
  show "sc_streamState (fst (applyAiStreamEventToScope now state event)) = Some stream"
    using assms by (cases "ae_kind event")
      (auto simp: apply_defs withMessages_stream text_event_def end_status_def split: option.splits)
  show "\<not> is_end eff" if "snd (applyAiStreamEventToScope now state event) = Some eff" for eff
    using assms that by (cases "ae_kind event")
      (auto simp: apply_defs text_event_def end_status_def dest!: withMessages_effect split: option.splits if_splits)
qed

section \<open>Runs\<close>

lemma text_run:
  assumes "list_all (\<lambda>(now, event). text_event event) events" "sc_streamState state = Some stream"
    "message_at x state = Some m"
  shows "\<exists>m'. message_at x (fst (stream_run events state)) = Some m'
      \<and> am_content m' = am_content m @ concat (map (content_delta (as_streamId stream) x \<circ> snd) events)
      \<and> am_thinking m' = am_thinking m @ concat (map (thinking_delta (as_streamId stream) x \<circ> snd) events)
      \<and> sc_streamState (fst (stream_run events state)) = Some stream
      \<and> list_all (\<lambda>e. \<not> is_end e) (snd (stream_run events state))"
  using assms
proof (induction events arbitrary: state m)
  case (Cons p events)
  obtain now event where p: "p = (now, event)" by (cases p)
  let ?s = "fst (applyAiStreamEventToScope now state event)"
  have ev: "text_event event" using Cons.prems(1) p by simp
  obtain m1 where m1: "message_at x ?s = Some m1"
    "am_content m1 = am_content m @ content_delta (as_streamId stream) x event"
    "am_thinking m1 = am_thinking m @ thinking_delta (as_streamId stream) x event"
    using text_event_step [OF ev Cons.prems(2,3)] by blast
  note st = text_event_stream [OF ev Cons.prems(2), of now]
  have "list_all (\<lambda>(now, event). text_event event) events" using Cons.prems(1) by simp
  from Cons.IH [OF this st(1) m1(1)] m1 st(2) show ?case
    by (auto simp: p split_beta split: option.splits)
qed simp

lemma ended_step:
  assumes "sc_streamState state = Some stream" "ae_stream_id event = as_streamId stream"
    "end_status (ae_kind event) = Some status" "message_at (ae_message_id event) state = Some m"
  shows "message_at (ae_message_id event) (fst (applyAiStreamEventToScope now state event))
      = Some (ended_message now event status m)"
    and "sc_streamState (fst (applyAiStreamEventToScope now state event)) = None"
    and "\<exists>st. snd (applyAiStreamEventToScope now state event) = Some (StreamEnded st (ae_error event))"
proof -
  let ?x = "ae_message_id event" and ?f = "ended_message now event status"
  have kind: "ae_kind event \<in> {KindFinished, KindStopped, KindError}"
    using assms(3) by (cases "ae_kind event") (simp_all add: end_status_def)
  have keeps: "am_id (?f m) = am_id m" for m by (simp add: ended_message_def)
  have "mapMessageById (sc_messages state) ?x ?f
      = Some (map (\<lambda>m. if am_id m \<noteq> ?x then m else ?f m) (sc_messages state))"
    using assms(4) find_SomeD [of "\<lambda>m. am_id m = ?x"]
    by (auto simp: mapMessageById_def message_at_def list_ex_iff)
  moreover have "message_at ?x (fst (withMessages state (mapMessageById (sc_messages state) ?x ?f) None)) = Some (?f m)"
    using message_at_update [OF assms(4) keeps] by simp
  ultimately show "message_at ?x (fst (applyAiStreamEventToScope now state event)) = Some (?f m)"
    using kind assms by (auto simp: apply_defs message_at_def withMessages_def or_else_def)
  show "sc_streamState (fst (applyAiStreamEventToScope now state event)) = None"
    "\<exists>st. snd (applyAiStreamEventToScope now state event) = Some (StreamEnded st (ae_error event))"
    using kind assms by (auto simp: apply_defs)
qed

lemma no_stream_step:
  assumes "sc_streamState state = None"
  shows "sc_streamState (fst (applyAiStreamEventToScope now state event)) = None"
    and "\<And>eff. snd (applyAiStreamEventToScope now state event) = Some eff \<Longrightarrow> \<not> is_end eff"
proof -
  show "sc_streamState (fst (applyAiStreamEventToScope now state event)) = None"
    using assms by (auto simp: apply_defs withMessages_stream split: option.splits)
  show "\<not> is_end eff" if "snd (applyAiStreamEventToScope now state event) = Some eff" for eff
    using assms that by (auto simp: apply_defs dest!: withMessages_effect split: option.splits if_splits)
qed

lemma no_stream_run:
  "sc_streamState state = None \<Longrightarrow>
   sc_streamState (fst (stream_run events state)) = None \<and> list_all (\<lambda>e. \<not> is_end e) (snd (stream_run events state))"
proof (induction events arbitrary: state)
  case (Cons p events)
  obtain now event where p: "p = (now, event)" by (cases p)
  from Cons.IH [OF no_stream_step(1) [OF Cons.prems]] no_stream_step(2) [OF Cons.prems]
  show ?case by (auto simp: p split_beta split: option.splits)
qed simp

lemma stream_run_append:
  "stream_run (xs @ ys) state =
     (fst (stream_run ys (fst (stream_run xs state))),
      snd (stream_run xs state) @ snd (stream_run ys (fst (stream_run xs state))))"
  by (induction xs arbitrary: state) (auto simp: split_beta split: option.splits)

text \<open>C13. The streamed answer is exact: while a stream is live, whatever text, thinking, tool and task
  events of any stream arrive, the text and the thoughts of its message grow by the deltas sent for that
  message on that stream, in order, and the stream stays live; its closing event, of whichever kind,
  closes the stream, fixes the text (its own, or the text that had arrived) and the status, and announces
  the end; and whatever arrives afterwards, no second end is announced.\<close>

theorem streamed_answer_exact:
  assumes "sc_streamState state = Some stream" "message_at x state = Some m"
    "list_all (\<lambda>(now, event). text_event event) events"
    "end_status (ae_kind closing) = Some status" "ae_stream_id closing = as_streamId stream"
    "ae_message_id closing = x"
  shows "\<exists>m1. message_at x (fst (stream_run events state)) = Some m1
      \<and> am_content m1 = am_content m @ concat (map (content_delta (as_streamId stream) x \<circ> snd) events)
      \<and> am_thinking m1 = am_thinking m @ concat (map (thinking_delta (as_streamId stream) x \<circ> snd) events)
      \<and> sc_streamState (fst (stream_run events state)) = Some stream
      \<and> (\<exists>m2. message_at x (fst (stream_run (events @ [(now, closing)]) state)) = Some m2
            \<and> am_content m2 = or_else (ae_content closing) (am_content m1)
            \<and> am_thinking m2 = am_thinking m1
            \<and> am_commands m2 = extractCommandSuggestions (opt_str_or (ae_content closing) (am_content m1)))
      \<and> length (filter is_end (snd (stream_run (events @ [(now, closing)] @ later) state))) = 1
      \<and> sc_streamState (fst (stream_run (events @ [(now, closing)] @ later) state)) = None"
proof -
  let ?s1 = "fst (stream_run events state)" and ?s2 = "fst (stream_run (events @ [(now, closing)]) state)"
  from text_run [OF assms(3,1,2)] obtain m1 where
    m1: "message_at x ?s1 = Some m1"
      "am_content m1 = am_content m @ concat (map (content_delta (as_streamId stream) x \<circ> snd) events)"
      "am_thinking m1 = am_thinking m @ concat (map (thinking_delta (as_streamId stream) x \<circ> snd) events)"
    and s1: "sc_streamState ?s1 = Some stream" "list_all (\<lambda>e. \<not> is_end e) (snd (stream_run events state))"
    by blast
  have at1: "message_at (ae_message_id closing) ?s1 = Some m1" using m1(1) assms(6) by simp
  note closed = ended_step [OF s1(1) assms(5,4) at1, of now]
  have s2: "?s2 = fst (applyAiStreamEventToScope now ?s1 closing)" by (simp add: stream_run_append split_beta)
  have m2: "message_at x ?s2 = Some (ended_message now closing status m1)"
    using closed(1) assms(6) by (simp add: s2)
  have silent: "list_all (\<lambda>e. \<not> is_end e) (snd (stream_run later ?s2))" "sc_streamState (fst (stream_run later ?s2)) = None"
    using no_stream_run [of ?s2 later] closed(2) by (simp_all add: s2)
  obtain st where "snd (stream_run [(now, closing)] ?s1) = [StreamEnded st (ae_error closing)]"
    using closed(3) by (auto simp: split_beta)
  moreover have "filter is_end es = []" if "list_all (\<lambda>e. \<not> is_end e) es" for es
    using that by (simp add: list_all_iff filter_empty_conv)
  moreover have "snd (stream_run (events @ [(now, closing)] @ later) state)
      = snd (stream_run events state) @ snd (stream_run [(now, closing)] ?s1) @ snd (stream_run later ?s2)"
    by (simp only: stream_run_append fst_conv snd_conv append_assoc)
  ultimately have "length (filter is_end (snd (stream_run (events @ [(now, closing)] @ later) state))) = 1"
    using s1(2) silent(1) by simp
  moreover have "fst (stream_run (events @ [(now, closing)] @ later) state) = fst (stream_run later ?s2)"
    by (simp only: stream_run_append fst_conv append_assoc)
  ultimately show ?thesis using m1 s1(1) m2 silent(2) by (simp add: ended_message_def)
qed

definition sample_stream_event :: "ai_event_kind \<Rightarrow> jsstr option \<Rightarrow> ai_stream_event" where
  "sample_stream_event kind delta =
     \<lparr>ae_kind = kind, ae_stream_id = js ''st'', ae_session_id = js ''s'', ae_message_id = js ''m'', ae_delta = delta,
      ae_thinking_delta = None, ae_thinking_update = None, ae_content = None, ae_error = None,
      ae_tool_call = None, ae_tool_output = None, ae_background_task = None, ae_file_changes = None,
      ae_injection = None\<rparr>"

definition sample_stream :: ai_stream_state where
  "sample_stream = \<lparr>as_assistantMessageId = js ''m'', as_sessionId = js ''s'', as_streamId = js ''st'',
     as_ready = Some True, as_request = None, as_stopRequested = None\<rparr>"

definition sample_scope :: ai_scope where
  "sample_scope = createDefaultScopeState\<lparr>sc_messages := [sample_message], sc_streamState := Some sample_stream\<rparr>"

theorem streamed_answer_exact_witness:
  "\<exists>m1. message_at (js ''m'') (fst (stream_run [(0, sample_stream_event KindChunk (Some (js ''c'')))] sample_scope)) = Some m1
      \<and> am_content m1 = js ''abc''"
proof -
  have "sc_streamState sample_scope = Some sample_stream" "message_at (js ''m'') sample_scope = Some sample_message"
    by (simp_all add: sample_scope_def message_at_def sample_message_def)
  from streamed_answer_exact [OF this, of "[(0, sample_stream_event KindChunk (Some (js ''c'')))]"
      "sample_stream_event KindFinished None" EndFinished]
  show ?thesis
    by (auto simp: sample_stream_event_def text_event_def end_status_def sample_stream_def content_delta_def
        sample_message_def or_else_def js_append [symmetric])
qed

end
