(* ===== verification/Ai_Queue.thy ===== *)
theory Ai_Queue
  imports Ai_Scope
begin

text \<open>
  The message queue of the assistant, \<open>src/features/ai/aiMessageQueue.ts\<close>, for one scope: every
  function takes the key of a scope and touches nothing else, so the module's sets \<open>startingScopes\<close> and
  \<open>insertingScopes\<close> and its map \<open>reconcilingScopes\<close> are flags of the scope. A function runs up to its
  \<open>await\<close>; the command it waits for is added to the calls in flight, and the rest of the function is the
  step that takes the call's answer. Waiting for the listener and for the start command is one call: either
  fails into the same handler. What waits for a reconciliation (\<open>then\<close>, or an \<open>await\<close> of its
  promise) is kept with it, in order of registration, and runs with its answer: such continuations are
  microtasks, which run before the next event.

  \<open>crypto.randomUUID\<close> is a sequence of identifiers and \<open>String\<close> of an error value is a parameter; both
  are the fields of an environment.
\<close>

section \<open>State\<close>

record ai_env =
  ev_uuid :: "nat \<Rightarrow> jsstr"
  ev_string :: "json \<Rightarrow> jsstr"

datatype ai_call = CallStart ai_request ai_client_ids "jsstr option"
  | CallStopStarted ai_client_ids
  | CallEnqueue jsstr jsstr jsstr "ai_context list"
  | CallSession jsstr
  | CallStop jsstr

datatype ai_waiter = AfterFinish jsstr ai_end_status | AfterSendNow jsstr "jsstr option"

record ai_world =
  aw_state :: ai_scope
  aw_starting :: bool
  aw_inserting :: bool
  aw_reconciling :: "(jsstr \<times> (jsstr \<times> ai_waiter) list) option"
  aw_calls :: "ai_call list"
  aw_effects :: "ai_effect list"
  aw_uuids :: nat
  aw_now :: int

definition ai_world_init :: ai_world where
  "ai_world_init =
     \<lparr>aw_state = createDefaultScopeState, aw_starting = False, aw_inserting = False, aw_reconciling = None,
      aw_calls = [], aw_effects = [], aw_uuids = 0, aw_now = 0\<rparr>"

definition upd :: "(ai_scope \<Rightarrow> ai_scope) \<Rightarrow> ai_world \<Rightarrow> ai_world" where
  "upd f w = w\<lparr>aw_state := f (aw_state w)\<rparr>"

definition map_queue :: "(ai_queued_message \<Rightarrow> ai_queued_message) \<Rightarrow> ai_scope \<Rightarrow> ai_scope" where
  "map_queue f state = state\<lparr>sc_queuedMessages := map f (sc_queuedMessages state)\<rparr>"

definition call :: "ai_call \<Rightarrow> ai_world \<Rightarrow> ai_world" where
  "call c w = w\<lparr>aw_calls := aw_calls w @ [c]\<rparr>"

definition answered :: "ai_call \<Rightarrow> ai_world \<Rightarrow> ai_world" where
  "answered c w = w\<lparr>aw_calls := remove1 c (aw_calls w)\<rparr>"

definition emit :: "ai_effect \<Rightarrow> ai_world \<Rightarrow> ai_world" where
  "emit e w = w\<lparr>aw_effects := aw_effects w @ [e]\<rparr>"

definition canEditAiQueuedMessage :: "ai_queued_message \<Rightarrow> bool" where
  "canEditAiQueuedMessage item \<longleftrightarrow>
     aq_status item \<noteq> QueueSending \<and> aq_status item \<noteq> QueueAccepted \<and> \<not> aq_immediate item
     \<and> opt_truthy (aq_insertionStreamId item) = None"

text \<open>\<open>instanceof Error\<close> objects have a message, so their case is the first one.\<close>

definition messageError :: "ai_env \<Rightarrow> json \<Rightarrow> jsstr" where
  "messageError env e =
     (if js_has e (js ''message'') then ev_string env (js_get e (js ''message'')) else ev_string env e)"

definition emptyMessage :: "int \<Rightarrow> jsstr \<Rightarrow> jsstr \<Rightarrow> bool \<Rightarrow> ai_message" where
  "emptyMessage now i sessionId assistant =
     \<lparr>am_id = i, am_session_id = sessionId, am_role = (if assistant then js ''assistant'' else js ''user''),
      am_content = [], am_thinking = [], am_thinking_blocks = None, am_contexts = [], am_commands = [],
      am_tool_calls = [], am_file_changes = None,
      am_status = (if assistant then js ''streaming'' else js ''complete''),
      am_created_at = js_of_int now, am_updated_at = js_of_int now\<rparr>"

section \<open>Queueing and starting\<close>

definition queueAiMessage :: "ai_env \<Rightarrow> ai_request \<Rightarrow> ai_world \<Rightarrow> ai_world" where
  "queueAiMessage env request w =
     (let state = aw_state w;
          sessionId = (case opt_truthy (map_option as_sessionId (sc_streamState state)) of
                         Some s \<Rightarrow> Some s | None \<Rightarrow> sc_activeSessionId state);
          item = \<lparr>aq_id = ev_uuid env (aw_uuids w), aq_sessionId = opt_str_or sessionId [],
                  aq_content = ar_content request, aq_contexts = or_else (ar_contexts request) [],
                  aq_request = request\<lparr>ar_session_id := sessionId\<rparr>, aq_immediate = False,
                  aq_insertionStreamId = None, aq_status = QueueQueued, aq_error = None\<rparr>
      in upd (\<lambda>s. s\<lparr>sc_queuedMessages := sc_queuedMessages s @ [item]\<rparr>) (w\<lparr>aw_uuids := aw_uuids w + 1\<rparr>))"

definition new_client_ids :: "ai_env \<Rightarrow> ai_request \<Rightarrow> nat \<Rightarrow> ai_client_ids \<times> nat" where
  "new_client_ids env request n =
     (let (sessionId, k) = (case opt_truthy (ar_session_id request) of
                              Some s \<Rightarrow> (s, n) | None \<Rightarrow> (ev_uuid env n, n + 1))
      in (\<lparr>ids_stream_id = ev_uuid env k, ids_session_id = sessionId,
           ids_user_message_id = ev_uuid env (k + 1), ids_assistant_message_id = ev_uuid env (k + 2)\<rparr>, k + 3))"

text \<open>A queued message of a conversation without identifier gets the new one; the message sent is marked.\<close>

definition mark_sending :: "ai_request \<Rightarrow> jsstr \<Rightarrow> jsstr option \<Rightarrow> ai_queued_message \<Rightarrow> ai_queued_message" where
  "mark_sending request sessionId queuedId item =
     (let scoped = (if opt_truthy (ar_session_id request) = None \<and> aq_sessionId item = []
                    then item\<lparr>aq_sessionId := sessionId,
                              aq_request := (aq_request item)\<lparr>ar_session_id := Some sessionId\<rparr>\<rparr>
                    else item)
      in if Some (aq_id scoped) = queuedId then scoped\<lparr>aq_status := QueueSending\<rparr> else scoped)"

definition begin_start :: "ai_env \<Rightarrow> ai_request \<Rightarrow> jsstr option \<Rightarrow> ai_world \<Rightarrow> ai_world" where
  "begin_start env request queuedId w =
     (let (ids, n) = new_client_ids env request (aw_uuids w);
          sessionId = ids_session_id ids;
          user = (emptyMessage (aw_now w) (ids_user_message_id ids) sessionId False)
                   \<lparr>am_content := ar_content request, am_contexts := or_else (ar_contexts request) []\<rparr>;
          assistant = emptyMessage (aw_now w) (ids_assistant_message_id ids) sessionId True;
          stream = \<lparr>as_assistantMessageId = am_id assistant, as_sessionId = sessionId,
                    as_streamId = ids_stream_id ids, as_ready = Some False, as_request = Some request,
                    as_stopRequested = None\<rparr>
      in call (CallStart request ids queuedId)
           (upd (\<lambda>state. (map_queue (mark_sending request sessionId queuedId) state)
                   \<lparr>sc_activeSessionId := Some sessionId,
                    sc_messages := sc_messages state @ [user, assistant],
                    sc_queueAutoRun := (if opt_truthy queuedId \<noteq> None then sc_queueAutoRun state else False),
                    sc_streamState := Some stream\<rparr>)
              (w\<lparr>aw_starting := True, aw_uuids := n\<rparr>)))"

definition startAiMessage :: "ai_env \<Rightarrow> ai_request \<Rightarrow> jsstr option \<Rightarrow> ai_world \<Rightarrow> ai_world" where
  "startAiMessage env request queuedId w =
     (if sc_streamState (aw_state w) \<noteq> None \<or> aw_starting w
      then (if opt_truthy queuedId = None then queueAiMessage env request w else w)
      else if aw_reconciling w \<noteq> None
      then (if opt_truthy queuedId = None then queueAiMessage env request w else w)
      else begin_start env request queuedId w)"

section \<open>Draining\<close>

definition item_request :: "ai_queued_message \<Rightarrow> ai_request" where
  "item_request item =
     (aq_request item)\<lparr>ar_content := aq_content item, ar_contexts := Some (aq_contexts item)\<rparr>"

definition update_item ::
  "jsstr \<Rightarrow> (ai_queued_message \<Rightarrow> ai_queued_message) \<Rightarrow> ai_scope \<Rightarrow> ai_scope" where
  "update_item i f = map_queue (\<lambda>queued. if aq_id queued = i then f queued else queued)"

definition begin_insert :: "ai_stream_state \<Rightarrow> ai_queued_message \<Rightarrow> ai_world \<Rightarrow> ai_world" where
  "begin_insert stream item w =
     call (CallEnqueue (as_streamId stream) (aq_id item) (aq_content item) (aq_contexts item))
       (upd (update_item (aq_id item)
          (\<lambda>queued. queued\<lparr>aq_status := QueueSending, aq_insertionStreamId := Some (as_streamId stream)\<rparr>))
          (w\<lparr>aw_inserting := True\<rparr>))"

definition drainAiMessageQueue :: "ai_env \<Rightarrow> ai_world \<Rightarrow> ai_world" where
  "drainAiMessageQueue env w =
     (if aw_starting w \<or> aw_inserting w \<or> aw_reconciling w \<noteq> None then w
      else
        (let state = aw_state w
         in case sc_streamState state of
              None \<Rightarrow>
                if \<not> sc_queueAutoRun state then w
                else
                  (case List.find (\<lambda>item. Some (aq_sessionId item) = sc_activeSessionId state)
                          (sc_queuedMessages state) of
                     None \<Rightarrow> w
                   | Some item \<Rightarrow>
                       if aq_status item \<noteq> QueueQueued then w
                       else startAiMessage env (item_request item) (Some (aq_id item)) w)
            | Some stream \<Rightarrow>
                if as_ready stream \<noteq> Some True \<or> as_stopRequested stream = Some True then w
                else
                  (case List.find (\<lambda>item. aq_sessionId item = as_sessionId stream \<and> aq_immediate item
                                     \<and> aq_status item = QueueQueued) (sc_queuedMessages state) of
                     None \<Rightarrow> w
                   | Some item \<Rightarrow> begin_insert stream item w)))"

section \<open>Answers of the start command\<close>

definition set_stream :: "jsstr \<Rightarrow> (ai_stream_state \<Rightarrow> ai_stream_state) \<Rightarrow> ai_scope \<Rightarrow> ai_scope" where
  "set_stream streamId f state =
     state\<lparr>sc_streamState :=
       (case sc_streamState state of
          Some stream \<Rightarrow> if as_streamId stream = streamId then Some (f stream) else Some stream
        | None \<Rightarrow> None)\<rparr>"

text \<open>The \<open>finally\<close> block.\<close>

definition start_settled :: "ai_env \<Rightarrow> ai_world \<Rightarrow> ai_world" where
  "start_settled env w = drainAiMessageQueue env (w\<lparr>aw_starting := False\<rparr>)"

definition stop_requested :: "ai_scope \<Rightarrow> bool" where
  "stop_requested state =
     (case sc_streamState state of Some stream \<Rightarrow> as_stopRequested stream = Some True | None \<Rightarrow> False)"

definition accept_start ::
  "ai_request \<Rightarrow> ai_client_ids \<Rightarrow> jsstr option \<Rightarrow> ai_message \<Rightarrow> ai_scope \<Rightarrow> ai_scope" where
  "accept_start request ids queuedId user_message state =
     (set_stream (ids_stream_id ids)
        (\<lambda>stream. stream\<lparr>as_ready := Some True,
           as_request := Some (request\<lparr>ar_content := [], ar_contexts := Some []\<rparr>)\<rparr>) state)
     \<lparr>sc_messages := map (\<lambda>m. if am_id m = ids_user_message_id ids then user_message else m) (sc_messages state),
      sc_queuedMessages := filter (\<lambda>item. Some (aq_id item) \<noteq> queuedId) (sc_queuedMessages state)\<rparr>"

definition start_accepted ::
  "ai_env \<Rightarrow> ai_request \<Rightarrow> ai_client_ids \<Rightarrow> jsstr option \<Rightarrow> ai_message \<Rightarrow> ai_world \<Rightarrow> ai_world" where
  "start_accepted env request ids queuedId user_message w =
     (let w1 = upd (accept_start request ids queuedId user_message) (answered (CallStart request ids queuedId) w)
      in if stop_requested (aw_state w1) then call (CallStopStarted ids) w1 else start_settled env w1)"

definition start_stop_accepted :: "ai_env \<Rightarrow> ai_client_ids \<Rightarrow> ai_world \<Rightarrow> ai_world" where
  "start_stop_accepted env ids w = start_settled env (answered (CallStopStarted ids) w)"

definition start_stop_rejected :: "ai_env \<Rightarrow> ai_client_ids \<Rightarrow> json \<Rightarrow> ai_world \<Rightarrow> ai_world" where
  "start_stop_rejected env ids error w =
     start_settled env
       (emit (StreamEnded EndError (Some (messageError env error)))
         (upd (set_stream (ids_stream_id ids) (\<lambda>stream. stream\<lparr>as_stopRequested := Some False\<rparr>))
           (answered (CallStopStarted ids) w)))"

definition mark_failed :: "ai_request \<Rightarrow> jsstr \<Rightarrow> jsstr option \<Rightarrow> jsstr \<Rightarrow> ai_queued_message \<Rightarrow> ai_queued_message" where
  "mark_failed request sessionId queuedId error item =
     (let scoped = (if opt_truthy (ar_session_id request) = None \<and> aq_sessionId item = sessionId
                    then item\<lparr>aq_sessionId := [], aq_request := (aq_request item)\<lparr>ar_session_id := None\<rparr>\<rparr>
                    else item)
      in if Some (aq_id scoped) = queuedId
         then scoped\<lparr>aq_status := QueueFailed, aq_immediate := False, aq_error := Some error\<rparr> else scoped)"

text \<open>The state after a rejected start whose stream is still the current one. An identifier is drawn whether
  or not a message is retained.\<close>

definition restore_start ::
  "jsstr \<Rightarrow> ai_request \<Rightarrow> ai_client_ids \<Rightarrow> jsstr option \<Rightarrow> jsstr \<Rightarrow> ai_scope \<Rightarrow> ai_scope" where
  "restore_start newId request ids queuedId error state =
     (let restoreDraft = (opt_truthy queuedId = None \<and> sc_input state = [] \<and> sc_contextBlocks state = []);
          retained = (if opt_truthy queuedId = None \<and> \<not> restoreDraft
            then [\<lparr>aq_id = newId, aq_sessionId = opt_str_or (ar_session_id request) [],
                   aq_content = ar_content request, aq_contexts = or_else (ar_contexts request) [],
                   aq_request = request, aq_immediate = False, aq_insertionStreamId = None,
                   aq_status = QueueFailed, aq_error = Some error\<rparr>]
            else [])
      in state\<lparr>sc_activeSessionId := opt_truthy (ar_session_id request), sc_streamState := None,
           sc_queueAutoRun := False,
           sc_messages := filter (\<lambda>m. am_id m \<noteq> ids_user_message_id ids \<and> am_id m \<noteq> ids_assistant_message_id ids)
             (sc_messages state),
           sc_input := (if restoreDraft then ar_content request else sc_input state),
           sc_contextBlocks := (if restoreDraft then or_else (ar_contexts request) [] else sc_contextBlocks state),
           sc_queuedMessages := retained
             @ map (mark_failed request (ids_session_id ids) queuedId error) (sc_queuedMessages state)\<rparr>)"

definition start_rejected ::
  "ai_env \<Rightarrow> ai_request \<Rightarrow> ai_client_ids \<Rightarrow> jsstr option \<Rightarrow> json \<Rightarrow> ai_world \<Rightarrow> ai_world" where
  "start_rejected env request ids queuedId error w =
     (let text = messageError env error;
          current = (case sc_streamState (aw_state w) of
                       Some stream \<Rightarrow> as_streamId stream = ids_stream_id ids | None \<Rightarrow> False);
          w1 = (if current
                then upd (restore_start (ev_uuid env (aw_uuids w)) request ids queuedId text)
                       (w\<lparr>aw_uuids := aw_uuids w + 1\<rparr>)
                else w)
      in start_settled env (emit (StreamEnded EndError (Some text)) (answered (CallStart request ids queuedId) w1)))"

section \<open>Answers of the insertion\<close>

text \<open>Only while the stream the message was inserted into is the current one.\<close>

definition on_stream :: "jsstr \<Rightarrow> (ai_scope \<Rightarrow> ai_scope) \<Rightarrow> ai_scope \<Rightarrow> ai_scope" where
  "on_stream streamId f state =
     (case sc_streamState state of
        Some stream \<Rightarrow> if as_streamId stream = streamId then f state else state
      | None \<Rightarrow> state)"

definition insert_settled :: "ai_env \<Rightarrow> ai_world \<Rightarrow> ai_world" where
  "insert_settled env w = drainAiMessageQueue env (w\<lparr>aw_inserting := False\<rparr>)"

definition insert_accepted :: "ai_env \<Rightarrow> jsstr \<Rightarrow> jsstr \<Rightarrow> ai_world \<Rightarrow> ai_world" where
  "insert_accepted env streamId i w =
     insert_settled env
       (upd (on_stream streamId (update_item i (\<lambda>queued. queued\<lparr>aq_status := QueueAccepted\<rparr>))) w)"

definition insert_rejected :: "ai_env \<Rightarrow> jsstr \<Rightarrow> jsstr \<Rightarrow> json \<Rightarrow> ai_world \<Rightarrow> ai_world" where
  "insert_rejected env streamId i error w =
     (let closed = (js_get error (js ''code'') = JString (js ''ai_injection_closed''))
      in insert_settled env
           (upd (on_stream streamId (update_item i (\<lambda>queued. queued
              \<lparr>aq_status := (if closed then QueueQueued else QueueFailed), aq_immediate := False,
               aq_error := (if closed then None else Some (messageError env error))\<rparr>))) w))"

section \<open>Reconciliation\<close>

text \<open>The messages whose insertion is in doubt.\<close>

definition doubtful :: "jsstr \<Rightarrow> ai_queued_message \<Rightarrow> bool" where
  "doubtful sessionId item \<longleftrightarrow> aq_sessionId item = sessionId \<and> opt_truthy (aq_insertionStreamId item) \<noteq> None"

text \<open>\<open>waiter\<close> is what the caller does with the promise.\<close>

definition reconcileAiMessageQueue :: "jsstr \<Rightarrow> ai_waiter \<Rightarrow> ai_world \<Rightarrow> ai_world" where
  "reconcileAiMessageQueue sessionId waiter w =
     (case aw_reconciling w of
        Some (pending, waiters) \<Rightarrow> w\<lparr>aw_reconciling := Some (pending, waiters @ [(sessionId, waiter)])\<rparr>
      | None \<Rightarrow>
          call (CallSession sessionId)
            (upd (map_queue (\<lambda>item. if doubtful sessionId item then item\<lparr>aq_status := QueueSending\<rparr> else item))
               (w\<lparr>aw_reconciling := Some (sessionId, [(sessionId, waiter)])\<rparr>)))"

definition after_finish :: "ai_env \<Rightarrow> jsstr \<Rightarrow> ai_end_status \<Rightarrow> bool \<Rightarrow> ai_world \<Rightarrow> ai_world" where
  "after_finish env sessionId status success w =
     (if \<not> success then w
      else drainAiMessageQueue env
        (upd (\<lambda>state. if sc_activeSessionId state = Some sessionId \<and> sc_streamState state = None
               then state\<lparr>sc_queueAutoRun := (status = EndFinished)\<rparr> else state) w))"

definition send_item :: "ai_env \<Rightarrow> jsstr \<Rightarrow> ai_world \<Rightarrow> ai_world" where
  "send_item env queueId w =
     (case List.find (\<lambda>queued. aq_id queued = queueId) (sc_queuedMessages (aw_state w)) of
        None \<Rightarrow> w
      | Some item \<Rightarrow> startAiMessage env (item_request item) (Some (aq_id item)) w)"

definition after_send_now :: "ai_env \<Rightarrow> jsstr \<Rightarrow> jsstr option \<Rightarrow> bool \<Rightarrow> ai_world \<Rightarrow> ai_world" where
  "after_send_now env queueId active success w =
     (if \<not> success then w
      else if \<not> list_ex (\<lambda>queued. aq_id queued = queueId) (sc_queuedMessages (aw_state w)) then w
      else if sc_activeSessionId (aw_state w) \<noteq> active then w
      else send_item env queueId w)"

fun run_waiter :: "ai_env \<Rightarrow> bool \<Rightarrow> ai_waiter \<Rightarrow> ai_world \<Rightarrow> ai_world" where
  "run_waiter env success (AfterFinish sessionId status) w = after_finish env sessionId status success w"
| "run_waiter env success (AfterSendNow queueId active) w = after_send_now env queueId active success w"

text \<open>
  The promise of the reconciliation of \<open>settled\<close> is settled: a waiter for this session gets its answer, one
  for another session asks for its own reconciliation, and waits for the pending one if there is one again.
\<close>

definition wake :: "ai_env \<Rightarrow> jsstr \<Rightarrow> bool \<Rightarrow> jsstr \<times> ai_waiter \<Rightarrow> ai_world \<Rightarrow> ai_world" where
  "wake env settled success entry w =
     (if fst entry = settled then run_waiter env success (snd entry) w
      else reconcileAiMessageQueue (fst entry) (snd entry) w)"

definition reconcile_settled :: "ai_env \<Rightarrow> jsstr \<Rightarrow> bool \<Rightarrow> ai_world \<Rightarrow> ai_world" where
  "reconcile_settled env sessionId success w =
     (let waiters = (case aw_reconciling w of Some (pending, waiters) \<Rightarrow> waiters | None \<Rightarrow> [])
      in fold (wake env sessionId success) waiters (w\<lparr>aw_reconciling := None\<rparr>))"

definition user_ids :: "ai_message list \<Rightarrow> jsstr list" where
  "user_ids messages = map am_id (filter (\<lambda>m. am_role m = js ''user'') messages)"

definition keep_thoughts :: "ai_message list \<Rightarrow> ai_message \<Rightarrow> ai_message" where
  "keep_thoughts known message =
     message\<lparr>am_thinking_blocks :=
       (case List.find (\<lambda>item. am_id item = am_id message) known of
          Some item \<Rightarrow> am_thinking_blocks item | None \<Rightarrow> None)\<rparr>"

definition apply_session :: "jsstr \<Rightarrow> ai_message list \<Rightarrow> ai_scope \<Rightarrow> ai_scope" where
  "apply_session sessionId messages state =
     state\<lparr>sc_messages := (if sc_activeSessionId state = Some sessionId \<and> sc_streamState state = None
              then map (keep_thoughts (sc_messages state)) messages else sc_messages state),
       sc_queuedMessages :=
         map (\<lambda>item. if doubtful sessionId item
                then item\<lparr>aq_insertionStreamId := None, aq_immediate := False, aq_status := QueueQueued,
                          aq_error := None\<rparr> else item)
           (filter (\<lambda>item. aq_sessionId item \<noteq> sessionId \<or> aq_id item \<notin> set (user_ids messages))
              (sc_queuedMessages state))\<rparr>"

definition session_received :: "ai_env \<Rightarrow> jsstr \<Rightarrow> ai_message list \<Rightarrow> ai_world \<Rightarrow> ai_world" where
  "session_received env sessionId messages w =
     reconcile_settled env sessionId True (upd (apply_session sessionId messages) w)"

definition unconfirmed :: jsstr where \<comment> \<open>the insertion cannot be confirmed, please retry:\<close>
  "unconfirmed = [26080, 27861, 30830, 35748, 25554, 20837, 32467, 26524, 65292, 35831, 37325, 35797,
        65306]"

definition reconcile_failed :: "jsstr \<Rightarrow> jsstr \<Rightarrow> ai_scope \<Rightarrow> ai_scope" where
  "reconcile_failed sessionId error state =
     (map_queue (\<lambda>item. if doubtful sessionId item
          then item\<lparr>aq_status := QueueFailed, aq_immediate := False, aq_error := Some (unconfirmed @ error)\<rparr>
          else item) state)
     \<lparr>sc_queueAutoRun := (if sc_activeSessionId state = Some sessionId then False else sc_queueAutoRun state)\<rparr>"

definition session_failed :: "ai_env \<Rightarrow> jsstr \<Rightarrow> json \<Rightarrow> ai_world \<Rightarrow> ai_world" where
  "session_failed env sessionId error w =
     reconcile_settled env sessionId False (upd (reconcile_failed sessionId (messageError env error)) w)"

section \<open>Sending now, stopping and the end of a stream\<close>

definition sendQueuedAiMessageNow :: "ai_env \<Rightarrow> jsstr \<Rightarrow> ai_world \<Rightarrow> ai_world" where
  "sendQueuedAiMessageNow env queueId w =
     (let state = aw_state w
      in case List.find (\<lambda>item. aq_id item = queueId
                 \<and> aq_sessionId item = opt_str_or (sc_activeSessionId state) []) (sc_queuedMessages state) of
           None \<Rightarrow> w
         | Some item \<Rightarrow>
             if aq_status item = QueueSending \<or> aq_status item = QueueAccepted then w
             else
               (case sc_streamState state of
                  None \<Rightarrow>
                    if opt_truthy (aq_insertionStreamId item) \<noteq> None \<or> aw_reconciling w \<noteq> None
                    then reconcileAiMessageQueue (aq_sessionId item)
                           (AfterSendNow queueId (sc_activeSessionId state)) w
                    else send_item env queueId w
                | Some stream \<Rightarrow>
                    if Option.bind (as_request stream) ar_agent = None \<or> as_stopRequested stream = Some True then w
                    else drainAiMessageQueue env
                      (upd (update_item queueId
                        (\<lambda>queued. queued\<lparr>aq_immediate := True, aq_status := QueueQueued, aq_error := None\<rparr>)) w)))"

definition stopAiMessage :: "ai_world \<Rightarrow> ai_world" where
  "stopAiMessage w =
     (case sc_streamState (aw_state w) of
        None \<Rightarrow> w
      | Some stream \<Rightarrow>
          if as_stopRequested stream = Some True then w
          else
            (let w1 = upd (\<lambda>state. state\<lparr>sc_queueAutoRun := False,
                  sc_streamState := Some (stream\<lparr>as_stopRequested := Some True\<rparr>)\<rparr>) w
             in if as_ready stream \<noteq> Some True then w1 else call (CallStop (as_streamId stream)) w1))"

definition stop_rejected :: "jsstr \<Rightarrow> ai_world \<Rightarrow> ai_world" where
  "stop_rejected streamId w = upd (set_stream streamId (\<lambda>stream. stream\<lparr>as_stopRequested := Some False\<rparr>)) w"

definition requeue :: "ai_scope \<Rightarrow> ai_queued_message \<Rightarrow> ai_queued_message" where
  "requeue state item =
     (if Some (aq_sessionId item) = sc_activeSessionId state \<and> aq_status item \<noteq> QueueFailed
      then item\<lparr>aq_status := QueueQueued, aq_immediate := False\<rparr> else item)"

definition finishAiMessageQueue :: "ai_env \<Rightarrow> ai_end_status \<Rightarrow> ai_world \<Rightarrow> ai_world" where
  "finishAiMessageQueue env status w =
     (let state = aw_state w;
          sessionId = sc_activeSessionId state;
          unresolved = list_ex (\<lambda>item. Some (aq_sessionId item) = sessionId
                          \<and> opt_truthy (aq_insertionStreamId item) \<noteq> None) (sc_queuedMessages state);
          w1 = upd (\<lambda>s. (map_queue (requeue s) s)\<lparr>sc_queueAutoRun := (\<not> unresolved \<and> status = EndFinished)\<rparr>) w
      in case (unresolved, opt_truthy sessionId) of
           (True, Some s) \<Rightarrow> reconcileAiMessageQueue s (AfterFinish s status) w1
         | _ \<Rightarrow> drainAiMessageQueue env w1)"

text \<open>What \<open>handleAiScopeStreamEvent\<close> does for the scope.\<close>

definition stream_event :: "ai_env \<Rightarrow> ai_stream_event \<Rightarrow> ai_world \<Rightarrow> ai_world" where
  "stream_event env event w =
     (let (state, effect) = applyAiStreamEventToScope (aw_now w) (aw_state w) event;
          w1 = w\<lparr>aw_state := state\<rparr>
      in case effect of
           None \<Rightarrow> w1
         | Some (BackgroundTask status) \<Rightarrow> emit (BackgroundTask status) w1
         | Some (StreamEnded status error) \<Rightarrow> finishAiMessageQueue env status (emit (StreamEnded status error) w1))"

end
