(* ===== verification/Ai_Session.thy ===== *)
theory Ai_Session
  imports Ai_Queue
begin

text \<open>
  The conversations of a scope as runs: what the panel does to the store, from
  \<open>src/features/ai/AiAssistantPanel.tsx\<close>, the answers of the commands in flight and the events of the
  backend, one after the other in any order. An answer to a command that is not in flight changes nothing. The laws: the flags
  agree with what is in flight, a queued message leaves only by what takes it out, and an insertion in doubt is settled by the
  stored conversation, which nothing that is sent can overtake.
\<close>

section \<open>The panel\<close>

text \<open>
  \<open>sendMessage\<close> after its checks of the panel's own state: \<open>request\<close> is the one it builds, with the active
  session, the trimmed text and the contexts; \<open>immediate\<close> is the setting for a running answer.
\<close>

definition sendMessage ::
  "ai_env \<Rightarrow> ai_request \<Rightarrow> jsstr \<Rightarrow> ai_context list \<Rightarrow> bool \<Rightarrow> ai_world \<Rightarrow> ai_world" where
  "sendMessage env request0 content contexts immediate w =
     (let normalized = js_trim content
      in if normalized = [] \<and> contexts = [] then w
         else
           (let current = aw_state w;
                request = request0\<lparr>ar_session_id := sc_activeSessionId current, ar_content := normalized,
                  ar_contexts := Some contexts\<rparr>;
                w1 = upd (\<lambda>s. s\<lparr>sc_input := [], sc_contextBlocks := []\<rparr>) w
            in case sc_streamState current of
                 None \<Rightarrow> startAiMessage env request None w1
               | Some stream \<Rightarrow>
                   (let queueId = ev_uuid env (aw_uuids w1);
                        w2 = queueAiMessage env ((or_else (as_request stream) request)
                          \<lparr>ar_content := normalized, ar_contexts := Some contexts\<rparr>) w1
                    in if immediate \<and> Option.bind (as_request stream) ar_agent \<noteq> None
                          \<and> as_stopRequested stream \<noteq> Some True
                       then sendQueuedAiMessageNow env queueId w2 else w2)))"

definition delete_queued :: "jsstr \<Rightarrow> ai_scope \<Rightarrow> ai_scope" where
  "delete_queued i state =
     state\<lparr>sc_queuedMessages :=
       filter (\<lambda>item. aq_id item \<noteq> i \<or> \<not> canEditAiQueuedMessage item) (sc_queuedMessages state)\<rparr>"

definition edit_queued :: "jsstr \<Rightarrow> jsstr \<Rightarrow> ai_scope \<Rightarrow> ai_scope" where
  "edit_queued i content = map_queue (\<lambda>item.
     if aq_id item = i \<and> canEditAiQueuedMessage item
     then item\<lparr>aq_content := content, aq_status := QueueQueued, aq_error := None\<rparr> else item)"

text \<open>\<open>openSession\<close> after its \<open>await\<close>; whether there is a stream was looked at before it.\<close>

definition open_session :: "jsstr \<Rightarrow> ai_message list \<Rightarrow> ai_scope \<Rightarrow> ai_scope" where
  "open_session sessionId messages state =
     state\<lparr>sc_activeSessionId := Some sessionId, sc_messages := messages, sc_contextBlocks := []\<rparr>"

definition startNewSession :: "ai_scope \<Rightarrow> ai_scope" where
  "startNewSession state =
     (if sc_streamState state \<noteq> None then state
      else state\<lparr>sc_activeSessionId := None, sc_messages := [], sc_contextBlocks := [], sc_input := []\<rparr>)"

definition drop_session_queue :: "jsstr \<Rightarrow> ai_scope \<Rightarrow> ai_scope" where
  "drop_session_queue sessionId state =
     state\<lparr>sc_queuedMessages := filter (\<lambda>item. aq_sessionId item \<noteq> sessionId) (sc_queuedMessages state)\<rparr>"

text \<open>\<open>confirmDeleteSession\<close>: the stream of the session is dropped once it was told to stop; the rest after the
  session has been deleted. \<open>wasActive\<close> compares with the active session of the last rendering.\<close>

definition drop_session_stream :: "ai_scope \<Rightarrow> ai_scope" where
  "drop_session_stream state = state\<lparr>sc_streamState := None\<rparr>"

definition forget_session :: "jsstr \<Rightarrow> bool \<Rightarrow> ai_scope \<Rightarrow> ai_scope" where
  "forget_session sessionId wasActive state =
     (let s = drop_session_queue sessionId state
      in if wasActive then s\<lparr>sc_activeSessionId := None, sc_messages := [], sc_contextBlocks := []\<rparr> else s)"

text \<open>\<open>clearCurrentSession\<close> after the session has been cleared.\<close>

definition clear_session :: "jsstr \<Rightarrow> ai_message list \<Rightarrow> ai_scope \<Rightarrow> ai_scope" where
  "clear_session sessionId messages state =
     (drop_session_queue sessionId (state\<lparr>sc_messages := messages\<rparr>))\<lparr>sc_contextBlocks := []\<rparr>"

section \<open>Events\<close>

datatype ai_event = EvClock int
  | EvSend ai_request jsstr "ai_context list" bool
  | EvSendNow jsstr
  | EvStop
  | EvDelete jsstr
  | EvEdit jsstr jsstr
  | EvOpened jsstr "ai_message list"
  | EvNewSession
  | EvDropStream
  | EvForget jsstr bool
  | EvCleared jsstr "ai_message list"
  | EvInput jsstr "ai_context list"
  | EvStream ai_stream_event
  | EvStartAccepted ai_message
  | EvStartRejected json
  | EvStartStopped
  | EvStartStopFailed json
  | EvInserted
  | EvInsertFailed json
  | EvSession "ai_message list"
  | EvSessionFailed json
  | EvStopped jsstr
  | EvStopFailed jsstr

text \<open>The first call in flight of each kind.\<close>

fun first :: "'a list \<Rightarrow> 'a option" where
  "first [] = None"
| "first (x # xs) = Some x"

definition start_call :: "ai_world \<Rightarrow> (ai_request \<times> ai_client_ids \<times> jsstr option) option" where
  "start_call w = first
     (List.map_filter (\<lambda>c. case c of CallStart r ids q \<Rightarrow> Some (r, ids, q) | _ \<Rightarrow> None) (aw_calls w))"

definition stop_started_call :: "ai_world \<Rightarrow> ai_client_ids option" where
  "stop_started_call w = first
     (List.map_filter (\<lambda>c. case c of CallStopStarted ids \<Rightarrow> Some ids | _ \<Rightarrow> None) (aw_calls w))"

definition enqueue_call :: "ai_world \<Rightarrow> (jsstr \<times> jsstr \<times> jsstr \<times> ai_context list) option" where
  "enqueue_call w = first
     (List.map_filter (\<lambda>c. case c of CallEnqueue s i t cs \<Rightarrow> Some (s, i, t, cs) | _ \<Rightarrow> None) (aw_calls w))"

definition session_call :: "ai_world \<Rightarrow> jsstr option" where
  "session_call w = first
     (List.map_filter (\<lambda>c. case c of CallSession s \<Rightarrow> Some s | _ \<Rightarrow> None) (aw_calls w))"

fun ai_step :: "ai_env \<Rightarrow> ai_event \<Rightarrow> ai_world \<Rightarrow> ai_world" where
  "ai_step env (EvClock now) w = w\<lparr>aw_now := now\<rparr>"
| "ai_step env (EvSend request content contexts immediate) w = sendMessage env request content contexts immediate w"
| "ai_step env (EvSendNow i) w = sendQueuedAiMessageNow env i w"
| "ai_step env EvStop w = stopAiMessage w"
| "ai_step env (EvDelete i) w = upd (delete_queued i) w"
| "ai_step env (EvEdit i content) w = upd (edit_queued i content) w"
| "ai_step env (EvOpened s messages) w = upd (open_session s messages) w"
| "ai_step env EvNewSession w = upd startNewSession w"
| "ai_step env EvDropStream w = upd drop_session_stream w"
| "ai_step env (EvForget s wasActive) w = upd (forget_session s wasActive) w"
| "ai_step env (EvCleared s messages) w = upd (clear_session s messages) w"
| "ai_step env (EvInput t cs) w = upd (\<lambda>s. s\<lparr>sc_input := t, sc_contextBlocks := cs\<rparr>) w"
| "ai_step env (EvStream event) w = stream_event env event w"
| "ai_step env (EvStartAccepted m) w =
     (case start_call w of Some (r, ids, q) \<Rightarrow> start_accepted env r ids q m w | None \<Rightarrow> w)"
| "ai_step env (EvStartRejected e) w =
     (case start_call w of Some (r, ids, q) \<Rightarrow> start_rejected env r ids q e w | None \<Rightarrow> w)"
| "ai_step env EvStartStopped w =
     (case stop_started_call w of Some ids \<Rightarrow> start_stop_accepted env ids w | None \<Rightarrow> w)"
| "ai_step env (EvStartStopFailed e) w =
     (case stop_started_call w of Some ids \<Rightarrow> start_stop_rejected env ids e w | None \<Rightarrow> w)"
| "ai_step env EvInserted w =
     (case enqueue_call w of
        Some (s, i, t, cs) \<Rightarrow> insert_accepted env s i (answered (CallEnqueue s i t cs) w) | None \<Rightarrow> w)"
| "ai_step env (EvInsertFailed e) w =
     (case enqueue_call w of
        Some (s, i, t, cs) \<Rightarrow> insert_rejected env s i e (answered (CallEnqueue s i t cs) w) | None \<Rightarrow> w)"
| "ai_step env (EvSession messages) w =
     (case session_call w of Some s \<Rightarrow> session_received env s messages (answered (CallSession s) w) | None \<Rightarrow> w)"
| "ai_step env (EvSessionFailed e) w =
     (case session_call w of Some s \<Rightarrow> session_failed env s e (answered (CallSession s) w) | None \<Rightarrow> w)"
| "ai_step env (EvStopped s) w =
     (if CallStop s \<in> set (aw_calls w) then answered (CallStop s) w else w)"
| "ai_step env (EvStopFailed s) w =
     (if CallStop s \<in> set (aw_calls w) then stop_rejected s (answered (CallStop s) w) else w)"

fun ai_run :: "ai_env \<Rightarrow> ai_event list \<Rightarrow> ai_world \<Rightarrow> ai_world" where
  "ai_run env [] w = w"
| "ai_run env (e # es) w = ai_run env es (ai_step env e w)"

section \<open>The flags and the calls in flight\<close>

fun is_start :: "ai_call \<Rightarrow> bool" where
  "is_start (CallStart r ids q) = True"
| "is_start (CallStopStarted ids) = True"
| "is_start _ = False"

fun is_enqueue :: "ai_call \<Rightarrow> bool" where
  "is_enqueue (CallEnqueue s i t cs) = True"
| "is_enqueue _ = False"

fun is_session :: "ai_call \<Rightarrow> bool" where
  "is_session (CallSession s) = True"
| "is_session _ = False"

definition flags_ok :: "ai_world \<Rightarrow> bool" where
  "flags_ok w \<longleftrightarrow>
     length (filter is_start (aw_calls w)) = (if aw_starting w then 1 else 0)
     \<and> length (filter is_enqueue (aw_calls w)) = (if aw_inserting w then 1 else 0)
     \<and> filter is_session (aw_calls w)
         = (case aw_reconciling w of Some (s, waiters) \<Rightarrow> [CallSession s] | None \<Rightarrow> [])"

definition queue :: "ai_world \<Rightarrow> ai_queued_message list" where
  "queue w = sc_queuedMessages (aw_state w)"

definition ids_ok :: "ai_env \<Rightarrow> ai_world \<Rightarrow> bool" where
  "ids_ok env w \<longleftrightarrow> distinct (map aq_id (queue w)) \<and> set (map aq_id (queue w)) \<subseteq> ev_uuid env ` {..<aw_uuids w}"

definition world_ok :: "ai_env \<Rightarrow> ai_world \<Rightarrow> bool" where
  "world_ok env w \<longleftrightarrow> flags_ok w \<and> ids_ok env w"

lemma upd_fields [simp]:
  "aw_calls (upd f w) = aw_calls w" "aw_starting (upd f w) = aw_starting w" "aw_inserting (upd f w) = aw_inserting w"
  "aw_reconciling (upd f w) = aw_reconciling w" "aw_uuids (upd f w) = aw_uuids w" "aw_state (upd f w) = f (aw_state w)"
  by (simp_all add: upd_def)

lemma session_call_fields [simp]:
  "aw_calls (call c w) = aw_calls w @ [c]" "aw_starting (call c w) = aw_starting w"
  "aw_inserting (call c w) = aw_inserting w" "aw_reconciling (call c w) = aw_reconciling w"
  "aw_uuids (call c w) = aw_uuids w" "aw_state (call c w) = aw_state w"
  by (simp_all add: call_def)

lemma answered_fields [simp]:
  "aw_calls (answered c w) = remove1 c (aw_calls w)" "aw_starting (answered c w) = aw_starting w"
  "aw_inserting (answered c w) = aw_inserting w" "aw_reconciling (answered c w) = aw_reconciling w"
  "aw_uuids (answered c w) = aw_uuids w" "aw_state (answered c w) = aw_state w"
  by (simp_all add: answered_def)

lemma emit_fields [simp]:
  "aw_calls (emit e w) = aw_calls w" "aw_starting (emit e w) = aw_starting w" "aw_inserting (emit e w) = aw_inserting w"
  "aw_reconciling (emit e w) = aw_reconciling w" "aw_uuids (emit e w) = aw_uuids w" "aw_state (emit e w) = aw_state w"
  by (simp_all add: emit_def)

lemma flags_upd [simp]: "flags_ok (upd f w) \<longleftrightarrow> flags_ok w"
  by (simp add: flags_ok_def)

lemma flags_emit [simp]: "flags_ok (emit e w) \<longleftrightarrow> flags_ok w"
  by (simp add: flags_ok_def)

text \<open>Every identifier of the queue is kept or a new one: what an update of the queue must show.\<close>

definition ids_from :: "ai_env \<Rightarrow> ai_world \<Rightarrow> ai_world \<Rightarrow> bool" where
  "ids_from env w w' \<longleftrightarrow> (ids_ok env w \<longrightarrow> ids_ok env w')"

lemma ids_from_refl: "ids_from env w w"
  by (simp add: ids_from_def)

lemma ids_from_trans: "ids_from env w w' \<Longrightarrow> ids_from env w' w'' \<Longrightarrow> ids_from env w w''"
  by (simp add: ids_from_def)

lemma ids_from_subseq:
  "subseq (map aq_id (queue w')) (map aq_id (queue w)) \<Longrightarrow> aw_uuids w \<le> aw_uuids w' \<Longrightarrow> ids_from env w w'"
  unfolding ids_from_def ids_ok_def
  by (meson distinct_subseq image_mono lessThan_subset_iff order_trans subseq_set)

lemma ids_from_same: "map aq_id (queue w') = map aq_id (queue w) \<Longrightarrow> aw_uuids w \<le> aw_uuids w' \<Longrightarrow> ids_from env w w'"
  by (rule ids_from_subseq) simp_all

lemma ids_from_new:
  assumes "inj (ev_uuid env)" "map aq_id (queue w') = ev_uuid env (aw_uuids w) # map aq_id (queue w)
      \<or> map aq_id (queue w') = map aq_id (queue w) @ [ev_uuid env (aw_uuids w)]"
    "aw_uuids w' = aw_uuids w + 1"
  shows "ids_from env w w'"
proof -
  define old new where "old = map aq_id (queue w)" and "new = map aq_id (queue w')"
  have "ev_uuid env (aw_uuids w) \<notin> ev_uuid env ` {..<aw_uuids w}" using assms(1) by (auto simp: inj_eq)
  moreover have "{..<aw_uuids w'} = insert (aw_uuids w) {..<aw_uuids w}" using assms(3) by auto
  moreover have "new = ev_uuid env (aw_uuids w) # old \<or> new = old @ [ev_uuid env (aw_uuids w)]"
    using assms(2) by (simp add: old_def new_def)
  ultimately have "distinct old \<and> set old \<subseteq> ev_uuid env ` {..<aw_uuids w} \<longrightarrow>
      distinct new \<and> set new \<subseteq> ev_uuid env ` {..<aw_uuids w'}" by auto
  then show ?thesis unfolding ids_from_def ids_ok_def old_def new_def .
qed

text \<open>Messages stay: under their identifier, with their text and contexts.\<close>

definition kept :: "ai_queued_message list \<Rightarrow> ai_queued_message list \<Rightarrow> bool" where
  "kept q q' \<longleftrightarrow>
     (\<forall>item\<in>set q. \<exists>item'\<in>set q'. aq_id item' = aq_id item \<and> aq_content item' = aq_content item
        \<and> aq_contexts item' = aq_contexts item)"

lemma kept_refl: "kept q q"
  by (auto simp: kept_def)

lemma kept_trans: "kept q q' \<Longrightarrow> kept q' q'' \<Longrightarrow> kept q q''"
  unfolding kept_def by metis

lemma kept_map:
  "(\<And>item. aq_id (f item) = aq_id item \<and> aq_content (f item) = aq_content item \<and> aq_contexts (f item) = aq_contexts item)
   \<Longrightarrow> kept q (map f q)"
  by (auto simp: kept_def)

lemma kept_append: "kept q (q @ r)" "kept q q' \<Longrightarrow> kept q (r @ q')"
  by (auto simp: kept_def)

text \<open>An operation that keeps the flags right, the identifiers unique and every message.\<close>

definition gentle :: "ai_env \<Rightarrow> ai_world \<Rightarrow> ai_world \<Rightarrow> bool" where
  "gentle env w w' \<longleftrightarrow> (flags_ok w \<longrightarrow> flags_ok w') \<and> ids_from env w w' \<and> kept (queue w) (queue w')"

lemma gentle_refl [simp]: "gentle env w w"
  by (simp add: gentle_def ids_from_refl kept_refl)

lemma gentle_trans: "gentle env w w' \<Longrightarrow> gentle env w' w'' \<Longrightarrow> gentle env w w''"
  unfolding gentle_def using ids_from_trans kept_trans by blast

text \<open>An update of the scope that maps the queue.\<close>

lemma gentle_map:
  assumes "sc_queuedMessages (g (aw_state w)) = map f (sc_queuedMessages (aw_state w))"
    "\<And>item. aq_id (f item) = aq_id item \<and> aq_content (f item) = aq_content item \<and> aq_contexts (f item) = aq_contexts item"
  shows "gentle env w (upd g w)"
  unfolding gentle_def using assms kept_map [of f] ids_from_same [of "upd g w" w]
  by (simp add: queue_def comp_def)

lemma gentle_same: "sc_queuedMessages (g (aw_state w)) = sc_queuedMessages (aw_state w) \<Longrightarrow> gentle env w (upd g w)"
  by (rule gentle_map [of _ _ "\<lambda>item. item"]) simp_all

lemma gentle_upd:
  assumes "gentle env w w'" "sc_queuedMessages (g (aw_state w')) = sc_queuedMessages (aw_state w')"
  shows "gentle env w (upd g w')"
  by (rule gentle_trans [OF assms(1)], rule gentle_same) (fact assms(2))

lemma gentle_emit: "gentle env w (emit e w)"
  unfolding gentle_def by (simp add: ids_from_same kept_refl queue_def)

lemma gentle_queueAiMessage: "inj (ev_uuid env) \<Longrightarrow> gentle env w (queueAiMessage env request w)"
  unfolding gentle_def
  by (intro conjI impI ids_from_new) (simp_all add: queueAiMessage_def flags_ok_def queue_def kept_append(1) Let_def)

lemma mark_sending_fields:
  "aq_id (mark_sending r s q item) = aq_id item" "aq_content (mark_sending r s q item) = aq_content item"
  "aq_contexts (mark_sending r s q item) = aq_contexts item"
  by (simp_all add: mark_sending_def Let_def)

lemma gentle_begin_start:
  assumes "\<not> aw_starting w"
  shows "gentle env w (begin_start env request q w)"
proof -
  obtain ids n where ids: "new_client_ids env request (aw_uuids w) = (ids, n)" by force
  then have n: "aw_uuids w \<le> n"
    by (auto simp: new_client_ids_def Let_def split: option.splits prod.splits)
  let ?w' = "begin_start env request q w"
  have "sc_queuedMessages (aw_state ?w') = map (mark_sending request (ids_session_id ids) q) (sc_queuedMessages (aw_state w))"
    "aw_calls ?w' = aw_calls w @ [CallStart request ids q]" "aw_starting ?w'" "aw_inserting ?w' = aw_inserting w"
    "aw_reconciling ?w' = aw_reconciling w" "aw_uuids ?w' = n"
    by (simp_all add: begin_start_def ids Let_def map_queue_def)
  then show ?thesis unfolding gentle_def using assms n
    by (intro conjI ids_from_same)
       (auto simp: flags_ok_def queue_def comp_def mark_sending_fields intro!: kept_map)
qed

lemma gentle_startAiMessage: "inj (ev_uuid env) \<Longrightarrow> gentle env w (startAiMessage env request q w)"
  unfolding startAiMessage_def by (auto intro: gentle_queueAiMessage gentle_begin_start)

lemma gentle_begin_insert:
  assumes "\<not> aw_inserting w"
  shows "gentle env w (begin_insert stream item w)"
proof -
  let ?w' = "begin_insert stream item w"
  obtain f where f: "sc_queuedMessages (aw_state ?w') = map f (sc_queuedMessages (aw_state w))"
    and keeps: "\<And>item. aq_id (f item) = aq_id item \<and> aq_content (f item) = aq_content item \<and> aq_contexts (f item) = aq_contexts item"
    by (rule that [of "\<lambda>queued. if aq_id queued = aq_id item then queued\<lparr>aq_status := QueueSending,
          aq_insertionStreamId := Some (as_streamId stream)\<rparr> else queued"])
       (simp_all add: begin_insert_def update_item_def map_queue_def)
  have "aw_calls ?w' = aw_calls w @ [CallEnqueue (as_streamId stream) (aq_id item) (aq_content item) (aq_contexts item)]"
    "aw_starting ?w' = aw_starting w" "aw_inserting ?w'" "aw_reconciling ?w' = aw_reconciling w"
    "aw_uuids ?w' = aw_uuids w"
    by (simp_all add: begin_insert_def)
  then show ?thesis unfolding gentle_def using assms
    by (intro conjI ids_from_same) (simp_all add: flags_ok_def queue_def f comp_def keeps kept_map)
qed

lemma gentle_drain: "inj (ev_uuid env) \<Longrightarrow> gentle env w (drainAiMessageQueue env w)"
  unfolding drainAiMessageQueue_def Let_def
  by (auto intro: gentle_startAiMessage gentle_begin_insert split: option.splits)

lemma gentle_reconcile: "gentle env w (reconcileAiMessageQueue s waiter w)"
proof (cases "aw_reconciling w")
  case None
  let ?w' = "reconcileAiMessageQueue s waiter w"
  have q: "sc_queuedMessages (aw_state ?w')
      = map (\<lambda>item. if doubtful s item then item\<lparr>aq_status := QueueSending\<rparr> else item) (sc_queuedMessages (aw_state w))"
    and "aw_calls ?w' = aw_calls w @ [CallSession s]" "aw_starting ?w' = aw_starting w"
    "aw_inserting ?w' = aw_inserting w" "aw_reconciling ?w' = Some (s, [(s, waiter)])" "aw_uuids ?w' = aw_uuids w"
    by (simp_all add: reconcileAiMessageQueue_def None map_queue_def)
  then show ?thesis unfolding gentle_def using None
    by (intro conjI ids_from_same) (simp_all add: flags_ok_def queue_def comp_def if_distrib kept_map cong: if_cong)
next
  case (Some p)
  then show ?thesis unfolding gentle_def
    by (cases p) (simp add: reconcileAiMessageQueue_def flags_ok_def ids_from_same queue_def kept_refl)
qed

lemma gentle_send_item: "inj (ev_uuid env) \<Longrightarrow> gentle env w (send_item env i w)"
  unfolding send_item_def by (auto intro: gentle_startAiMessage split: option.splits)

lemma gentle_wake:
  assumes "inj (ev_uuid env)"
  shows "gentle env w (wake env settled success entry w)"
proof -
  have "gentle env w (after_finish env s st success w)" for s st w
    unfolding after_finish_def
    by (auto intro!: gentle_trans [OF _ gentle_drain [OF assms]] gentle_same)
  moreover have "gentle env w (after_send_now env i a success w)" for i a w
    unfolding after_send_now_def by (simp add: gentle_send_item [OF assms])
  ultimately show ?thesis unfolding wake_def
    by (cases "snd entry") (simp_all add: gentle_reconcile)
qed

lemma gentle_wake_all:
  "inj (ev_uuid env) \<Longrightarrow> gentle env w (fold (wake env settled success) entries w)"
  by (induction entries arbitrary: w) (auto intro: gentle_trans gentle_wake)

section \<open>Steps\<close>

definition sound_step :: "ai_env \<Rightarrow> ai_world \<Rightarrow> ai_world \<Rightarrow> bool" where
  "sound_step env w w' \<longleftrightarrow> (flags_ok w \<longrightarrow> flags_ok w') \<and> ids_from env w w'"

lemma gentle_sound: "gentle env w w' \<Longrightarrow> sound_step env w w'"
  by (simp add: gentle_def sound_step_def)

lemma sound_trans: "sound_step env w w' \<Longrightarrow> gentle env w' w'' \<Longrightarrow> sound_step env w w''"
  unfolding sound_step_def gentle_def using ids_from_trans by blast

lemma first_filter:
  assumes "first (List.map_filter g xs) = Some y"
  obtains c where "c \<in> set xs" "g c = Some y"
  using assms by (induction xs) (auto simp: List.map_filter_simps split: option.splits)

lemma call_in_flight:
  "start_call w = Some (r, ids, q) \<Longrightarrow> CallStart r ids q \<in> set (aw_calls w)"
  "stop_started_call w = Some ids \<Longrightarrow> CallStopStarted ids \<in> set (aw_calls w)"
  "enqueue_call w = Some (s, i, t, cs) \<Longrightarrow> CallEnqueue s i t cs \<in> set (aw_calls w)"
  "session_call w = Some s \<Longrightarrow> CallSession s \<in> set (aw_calls w)"
  unfolding start_call_def stop_started_call_def enqueue_call_def session_call_def
  by (auto elim!: first_filter split: ai_call.splits)

lemma filter_remove1_other: "\<not> P c \<Longrightarrow> filter P (remove1 c xs) = filter P xs"
  by (induction xs) auto

lemma filter_remove1_one: "c \<in> set xs \<Longrightarrow> P c \<Longrightarrow> length (filter P xs) = Suc (length (filter P (remove1 c xs)))"
  by (induction xs) auto

text \<open>The answer of the start, the insertion or the reconciliation in flight clears its flag.\<close>

lemma flags_start:
  assumes "c \<in> set (aw_calls w)" "is_start c" "flags_ok w"
  shows "aw_starting w" "filter is_start (remove1 c (aw_calls w)) = []"
    "filter is_enqueue (remove1 c (aw_calls w)) = filter is_enqueue (aw_calls w)"
    "filter is_session (remove1 c (aw_calls w)) = filter is_session (aw_calls w)"
proof -
  have other: "\<not> is_enqueue c" "\<not> is_session c" using assms(2) by (cases c; simp)+
  have "length (filter is_start (aw_calls w)) = (if aw_starting w then 1 else 0)"
    using assms(3) by (simp add: flags_ok_def)
  then show "aw_starting w" "filter is_start (remove1 c (aw_calls w)) = []"
    using filter_remove1_one [of c "aw_calls w" is_start, OF assms(1,2)] by (auto split: if_splits)
  show "filter is_enqueue (remove1 c (aw_calls w)) = filter is_enqueue (aw_calls w)"
    "filter is_session (remove1 c (aw_calls w)) = filter is_session (aw_calls w)"
    using other by (simp_all only: filter_remove1_other not_False_eq_True)
qed

lemma flags_start_settled:
  assumes "c \<in> set (aw_calls w)" "is_start c" "aw_calls w' = remove1 c (aw_calls w)"
    "aw_inserting w' = aw_inserting w" "aw_reconciling w' = aw_reconciling w" "flags_ok w"
  shows "flags_ok (w'\<lparr>aw_starting := False\<rparr>)"
  using flags_start [OF assms(1,2,6)] assms(6) unfolding flags_ok_def by (simp add: assms(3-5))

lemma flags_insert_settled:
  assumes "c \<in> set (aw_calls w)" "is_enqueue c" "aw_calls w' = remove1 c (aw_calls w)"
    "aw_starting w' = aw_starting w" "aw_reconciling w' = aw_reconciling w" "flags_ok w"
  shows "flags_ok (w'\<lparr>aw_inserting := False\<rparr>)"
proof -
  have other: "\<not> is_start c" "\<not> is_session c" using assms(2) by (cases c; simp)+
  have "length (filter is_enqueue (aw_calls w)) = (if aw_inserting w then 1 else 0)"
    using assms(6) by (simp add: flags_ok_def)
  then have "filter is_enqueue (remove1 c (aw_calls w)) = []"
    using filter_remove1_one [of c "aw_calls w" is_enqueue, OF assms(1,2)] by (auto split: if_splits)
  then show ?thesis using assms(6) unfolding flags_ok_def
    by (simp add: assms(3-5) other filter_remove1_other)
qed

lemma flags_session:
  assumes "CallSession s \<in> set (aw_calls w)" "flags_ok w"
  shows "\<exists>waiters. aw_reconciling w = Some (s, waiters)" "filter is_session (aw_calls w) = [CallSession s]"
proof -
  have "CallSession s \<in> set (filter is_session (aw_calls w))" using assms(1) by simp
  moreover have "filter is_session (aw_calls w)
      = (case aw_reconciling w of Some (p, waiters) \<Rightarrow> [CallSession p] | None \<Rightarrow> [])"
    using assms(2) by (simp add: flags_ok_def)
  ultimately show "\<exists>waiters. aw_reconciling w = Some (s, waiters)" "filter is_session (aw_calls w) = [CallSession s]"
    by (auto split: option.splits)
qed

lemma flags_session_settled:
  assumes "CallSession s \<in> set (aw_calls w)" "aw_calls w' = remove1 (CallSession s) (aw_calls w)"
    "aw_starting w' = aw_starting w" "aw_inserting w' = aw_inserting w" "flags_ok w"
  shows "flags_ok (w'\<lparr>aw_reconciling := None\<rparr>)"
proof -
  have "length (filter is_session (remove1 (CallSession s) (aw_calls w))) = 0"
    using filter_remove1_one [of _ _ is_session, OF assms(1)] flags_session(2) [OF assms(1,5)] by simp
  then show ?thesis using assms(5) unfolding flags_ok_def by (simp add: assms(2-4) filter_remove1_other)
qed

lemma sound_start_accepted:
  assumes "inj (ev_uuid env)" "CallStart r ids q \<in> set (aw_calls w)"
  shows "sound_step env w (start_accepted env r ids q m w)"
proof -
  define w1 where "w1 = upd (accept_start r ids q m) (answered (CallStart r ids q) w)"
  have w1: "aw_calls w1 = remove1 (CallStart r ids q) (aw_calls w)" "aw_starting w1 = aw_starting w"
    "aw_inserting w1 = aw_inserting w" "aw_reconciling w1 = aw_reconciling w" "aw_uuids w1 = aw_uuids w"
    "queue w1 = filter (\<lambda>item. Some (aq_id item) \<noteq> q) (queue w)"
    by (simp_all add: w1_def queue_def accept_start_def)
  have ids: "ids_from env w w'" if "queue w' = queue w1" "aw_uuids w' = aw_uuids w1" for w'
    using that w1 by (intro ids_from_subseq) (simp_all add: subseq_map)
  have "sound_step env w (start_settled env w1)"
  proof -
    have "flags_ok w \<longrightarrow> flags_ok (w1\<lparr>aw_starting := False\<rparr>)"
      using flags_start_settled [OF assms(2) _ w1(1) w1(3) w1(4)] by simp
    then have "sound_step env w (w1\<lparr>aw_starting := False\<rparr>)"
      using ids [of "w1\<lparr>aw_starting := False\<rparr>"] by (simp add: sound_step_def queue_def)
    then show ?thesis unfolding start_settled_def by (rule sound_trans) (rule gentle_drain [OF assms(1)])
  qed
  moreover have "sound_step env w (call (CallStopStarted ids) w1)"
  proof -
    have "flags_ok (call (CallStopStarted ids) w1)" if ok: "flags_ok w"
      using flags_start [OF assms(2) _ ok] ok unfolding flags_ok_def by (simp add: w1)
    then show ?thesis using ids [of "call (CallStopStarted ids) w1"] by (simp add: sound_step_def queue_def)
  qed
  ultimately show ?thesis unfolding start_accepted_def Let_def w1_def [symmetric] by simp
qed

lemma queue_upd: "queue (upd g w) = sc_queuedMessages (g (aw_state w))"
  by (simp add: queue_def)

lemma sound_start_settled:
  assumes "inj (ev_uuid env)" "c \<in> set (aw_calls w)" "is_start c" "aw_calls w' = remove1 c (aw_calls w)"
    "aw_inserting w' = aw_inserting w" "aw_reconciling w' = aw_reconciling w" "ids_from env w w'"
  shows "sound_step env w (start_settled env w')"
proof -
  have "sound_step env w (w'\<lparr>aw_starting := False\<rparr>)"
    using flags_start_settled [OF assms(2-6)] assms(7)
    by (simp add: sound_step_def ids_from_def ids_ok_def queue_def)
  then show ?thesis unfolding start_settled_def by (rule sound_trans) (rule gentle_drain [OF assms(1)])
qed

lemma mark_failed_id: "aq_id (mark_failed r s q e item) = aq_id item"
  by (simp add: mark_failed_def Let_def)

lemma sound_start_rejected:
  assumes "inj (ev_uuid env)" "CallStart r ids q \<in> set (aw_calls w)"
  shows "sound_step env w (start_rejected env r ids q e w)"
proof -
  let ?text = "messageError env e"
  let ?w1 = "upd (restore_start (ev_uuid env (aw_uuids w)) r ids q ?text) (w\<lparr>aw_uuids := aw_uuids w + 1\<rparr>)"
  have restored: "ids_from env w ?w1"
  proof -
    have "map aq_id (queue ?w1) = map aq_id (queue w) \<or> map aq_id (queue ?w1) = ev_uuid env (aw_uuids w) # map aq_id (queue w)"
      by (simp add: queue_def restore_start_def Let_def comp_def mark_failed_id)
    then show ?thesis using ids_from_new [OF assms(1), of ?w1 w] ids_from_same [of ?w1 w env] by auto
  qed
  have settled: "sound_step env w (start_settled env (emit eff (answered (CallStart r ids q) w1)))"
    if "ids_from env w w1" "aw_calls w1 = aw_calls w" "aw_inserting w1 = aw_inserting w"
      "aw_reconciling w1 = aw_reconciling w" for w1 eff
    by (rule sound_start_settled [OF assms])
       (use that in \<open>simp_all add: ids_from_def ids_ok_def queue_def\<close>)
  show ?thesis unfolding start_rejected_def Let_def
    by (rule settled) (use restored in \<open>simp_all add: ids_from_refl\<close>)
qed

lemma sound_insert_settled:
  assumes "inj (ev_uuid env)" "CallEnqueue s i t cs \<in> set (aw_calls w)"
    "\<And>st. map aq_id (sc_queuedMessages (g st)) = map aq_id (sc_queuedMessages st)"
  shows "sound_step env w (insert_settled env (upd g (answered (CallEnqueue s i t cs) w)))"
proof -
  let ?w1 = "upd g (answered (CallEnqueue s i t cs) w)"
  have "flags_ok w \<longrightarrow> flags_ok (?w1\<lparr>aw_inserting := False\<rparr>)"
    using flags_insert_settled [OF assms(2)] by simp
  moreover have "ids_from env w (?w1\<lparr>aw_inserting := False\<rparr>)"
    by (rule ids_from_same) (simp_all add: queue_def assms(3))
  ultimately have "sound_step env w (?w1\<lparr>aw_inserting := False\<rparr>)" by (simp add: sound_step_def)
  then show ?thesis unfolding insert_settled_def by (rule sound_trans) (rule gentle_drain [OF assms(1)])
qed

lemma update_item_ids:
  "(\<And>x. aq_id (f x) = aq_id x) \<Longrightarrow>
   map aq_id (sc_queuedMessages (on_stream s (update_item i f) st)) = map aq_id (sc_queuedMessages st)"
  by (simp add: on_stream_def update_item_def map_queue_def comp_def split: option.splits)

lemma sound_session_settled:
  assumes "inj (ev_uuid env)" "CallSession s \<in> set (aw_calls w)"
    "subseq (map aq_id (sc_queuedMessages (g (aw_state w)))) (map aq_id (queue w))"
  shows "sound_step env w (reconcile_settled env s success (upd g (answered (CallSession s) w)))"
proof -
  let ?w1 = "upd g (answered (CallSession s) w)"
  have "flags_ok w \<longrightarrow> flags_ok (?w1\<lparr>aw_reconciling := None\<rparr>)"
    using flags_session_settled [OF assms(2)] by simp
  moreover have "ids_from env w (?w1\<lparr>aw_reconciling := None\<rparr>)"
    by (rule ids_from_subseq) (use assms(3) in \<open>simp_all add: queue_def\<close>)
  ultimately have "sound_step env w (?w1\<lparr>aw_reconciling := None\<rparr>)" by (simp add: sound_step_def)
  then show ?thesis unfolding reconcile_settled_def Let_def
    by (rule sound_trans) (rule gentle_wake_all [OF assms(1)])
qed

lemma apply_event_queue:
  "\<exists>P. sc_queuedMessages (fst (applyAiStreamEventToScope now st ev)) = filter P (sc_queuedMessages st)
     \<and> (\<forall>item. \<not> P item \<longrightarrow> ae_kind ev = KindMessageInjected
          \<and> (\<exists>inj. ae_injection ev = Some inj \<and> aq_id item \<in> set (ij_queue_ids inj)))"
proof -
  have keep: "\<exists>P. q = filter P q \<and> (\<forall>item. \<not> P item \<longrightarrow> X item)" for q :: "ai_queued_message list" and X
    by (rule exI [of _ "\<lambda>_. True"]) simp
  have w: "sc_queuedMessages (fst (withMessages st ms e)) = sc_queuedMessages st" for ms e
    by (simp add: withMessages_def split: option.splits)
  show ?thesis
  proof (cases "ae_kind ev = KindMessageInjected")
    case True
    show ?thesis
    proof (cases "ae_injection ev")
      case None
      with True have "sc_queuedMessages (fst (applyAiStreamEventToScope now st ev)) = sc_queuedMessages st"
        by (simp add: applyAiStreamEventToScope_def live_event_def end_status_def split: option.splits)
      then show ?thesis by (simp only:) (rule keep)
    next
      case (Some inj)
      let ?P = "\<lambda>item. aq_id item \<notin> set (ij_queue_ids inj)"
      have "sc_queuedMessages (fst (applyAiStreamEventToScope now st ev)) \<in> {sc_queuedMessages st, filter ?P (sc_queuedMessages st)}"
        using True Some by (auto simp: applyAiStreamEventToScope_def live_event_def Let_def split: option.splits)
      then consider "sc_queuedMessages (fst (applyAiStreamEventToScope now st ev)) = sc_queuedMessages st"
        | "sc_queuedMessages (fst (applyAiStreamEventToScope now st ev)) = filter ?P (sc_queuedMessages st)" by blast
      then show ?thesis using True Some keep by cases (auto intro!: exI [of _ ?P])
    qed
  next
    case False
    then have "sc_queuedMessages (fst (applyAiStreamEventToScope now st ev)) = sc_queuedMessages st"
      by (cases "ae_kind ev")
         (auto simp: applyAiStreamEventToScope_def live_event_def Let_def w end_status_def split: option.splits)
    then show ?thesis by (simp only:) (rule keep)
  qed
qed

lemma gentle_finish:
  assumes "inj (ev_uuid env)"
  shows "gentle env w (finishAiMessageQueue env status w)"
proof -
  let ?g = "\<lambda>b s. (map_queue (requeue s) s)\<lparr>sc_queueAutoRun := b\<rparr>"
  have "gentle env w (upd (?g b) w)" for b
    by (rule gentle_map [of _ _ "requeue (aw_state w)"]) (simp_all add: map_queue_def requeue_def)
  then have "gentle env w (reconcileAiMessageQueue s k (upd (?g b) w))" "gentle env w (drainAiMessageQueue env (upd (?g b) w))"
    for s k b
    using gentle_trans gentle_reconcile gentle_drain [OF assms] by blast+
  then show ?thesis unfolding finishAiMessageQueue_def Let_def
    by (auto split: prod.splits bool.splits option.splits)
qed

lemma gentle_send_now:
  assumes "inj (ev_uuid env)"
  shows "gentle env w (sendQueuedAiMessageNow env i w)"
proof -
  let ?f = "\<lambda>queued. queued\<lparr>aq_immediate := True, aq_status := QueueQueued, aq_error := None\<rparr>"
  have "gentle env w (upd (update_item i ?f) w)"
    by (rule gentle_map [of _ _ "\<lambda>queued. if aq_id queued = i then ?f queued else queued"])
       (simp_all add: update_item_def map_queue_def)
  then have "gentle env w (drainAiMessageQueue env (upd (update_item i ?f) w))"
    using gentle_trans gentle_drain [OF assms] by blast
  then show ?thesis unfolding sendQueuedAiMessageNow_def Let_def
    by (auto intro: gentle_reconcile gentle_send_item [OF assms] split: option.splits)
qed

lemma gentle_sendMessage:
  assumes "inj (ev_uuid env)"
  shows "gentle env w (sendMessage env request content contexts immediate w)"
proof -
  have "gentle env w (upd (\<lambda>s. s\<lparr>sc_input := [], sc_contextBlocks := []\<rparr>) w)" by (rule gentle_same) simp
  then show ?thesis unfolding sendMessage_def Let_def
    using gentle_trans gentle_startAiMessage [OF assms] gentle_queueAiMessage [OF assms] gentle_send_now [OF assms]
    by (auto split: option.splits) blast+
qed

lemma gentle_stop: "gentle env w (stopAiMessage w)"
proof -
  have "gentle env w (upd g w)" "gentle env w (call (CallStop s) (upd g w))"
    if "\<And>st. sc_queuedMessages (g st) = sc_queuedMessages st" for g s
    using that by (simp_all add: gentle_def flags_ok_def ids_from_same kept_refl queue_def)
  then show ?thesis unfolding stopAiMessage_def Let_def by (auto split: option.splits)
qed

lemma sound_stream_event:
  assumes "inj (ev_uuid env)"
  shows "sound_step env w (stream_event env ev w)"
proof -
  obtain st eff where st: "applyAiStreamEventToScope (aw_now w) (aw_state w) ev = (st, eff)" by force
  obtain P where "sc_queuedMessages st = filter P (sc_queuedMessages (aw_state w))"
    using apply_event_queue [of "aw_now w" "aw_state w" ev] st by auto
  then have "sound_step env w (w\<lparr>aw_state := st\<rparr>)"
    by (auto simp: sound_step_def flags_ok_def queue_def intro!: ids_from_subseq subseq_map)
  then have "sound_step env w (w\<lparr>aw_state := st\<rparr>)" "sound_step env w (emit e (w\<lparr>aw_state := st\<rparr>))"
    "sound_step env w (finishAiMessageQueue env s (emit e (w\<lparr>aw_state := st\<rparr>)))" for e s
    using sound_trans gentle_emit gentle_finish [OF assms] by blast+
  then show ?thesis unfolding stream_event_def st Let_def by (simp split: option.splits ai_effect.splits)
qed

lemma sound_queue_subseq:
  "subseq (map aq_id (sc_queuedMessages (g (aw_state w)))) (map aq_id (queue w)) \<Longrightarrow> sound_step env w (upd g w)"
  by (simp add: sound_step_def ids_from_subseq queue_def)

lemma ai_step_sound:
  assumes "inj (ev_uuid env)"
  shows "sound_step env w (ai_step env e w)"
proof (cases e)
  case (EvStartAccepted m)
  then show ?thesis using sound_start_accepted [OF assms call_in_flight(1)]
    by (auto simp: gentle_sound split: option.splits)
next
  case (EvStartRejected err)
  then show ?thesis using sound_start_rejected [OF assms call_in_flight(1)]
    by (auto simp: gentle_sound split: option.splits)
next
  case EvStartStopped
  have "sound_step env w (start_stop_accepted env ids w)" if "CallStopStarted ids \<in> set (aw_calls w)" for ids
    unfolding start_stop_accepted_def
    by (rule sound_start_settled [OF assms that]) (simp_all add: ids_from_same queue_def)
  with EvStartStopped call_in_flight(2) show ?thesis by (auto simp: gentle_sound split: option.splits)
next
  case (EvStartStopFailed err)
  have "sound_step env w (start_stop_rejected env ids err w)" if "CallStopStarted ids \<in> set (aw_calls w)" for ids
    unfolding start_stop_rejected_def
    by (rule sound_start_settled [OF assms that]) (simp_all add: ids_from_same queue_def set_stream_def)
  with EvStartStopFailed call_in_flight(2) show ?thesis by (auto simp: gentle_sound split: option.splits)
next
  case EvInserted
  have "sound_step env w (insert_accepted env s i (answered (CallEnqueue s i t cs) w))"
    if "CallEnqueue s i t cs \<in> set (aw_calls w)" for s i t cs
    unfolding insert_accepted_def by (rule sound_insert_settled [OF assms that]) (simp add: update_item_ids)
  with EvInserted call_in_flight(3) show ?thesis by (auto simp: gentle_sound split: option.splits)
next
  case (EvInsertFailed err)
  have "sound_step env w (insert_rejected env s i err (answered (CallEnqueue s i t cs) w))"
    if "CallEnqueue s i t cs \<in> set (aw_calls w)" for s i t cs
    unfolding insert_rejected_def Let_def by (rule sound_insert_settled [OF assms that]) (simp add: update_item_ids)
  with EvInsertFailed call_in_flight(3) show ?thesis by (auto simp: gentle_sound split: option.splits)
next
  case (EvSession ms)
  have "sound_step env w (session_received env s ms (answered (CallSession s) w))" if "CallSession s \<in> set (aw_calls w)" for s
    unfolding session_received_def
    by (rule sound_session_settled [OF assms that])
       (simp add: apply_session_def queue_def comp_def if_distrib subseq_map cong: if_cong)
  with EvSession call_in_flight(4) show ?thesis by (auto simp: gentle_sound split: option.splits)
next
  case (EvSessionFailed err)
  have "sound_step env w (session_failed env s err (answered (CallSession s) w))" if "CallSession s \<in> set (aw_calls w)" for s
    unfolding session_failed_def
    by (rule sound_session_settled [OF assms that])
       (simp add: reconcile_failed_def map_queue_def queue_def comp_def if_distrib cong: if_cong)
  with EvSessionFailed call_in_flight(4) show ?thesis by (auto simp: gentle_sound split: option.splits)
next
  case (EvStopFailed s)
  have "sound_step env w (stop_rejected s (answered (CallStop s) w))"
    by (simp add: sound_step_def stop_rejected_def flags_ok_def filter_remove1_other ids_from_same queue_def set_stream_def)
  then show ?thesis using EvStopFailed by (simp add: gentle_sound)
next
  case (EvStopped s)
  have "sound_step env w (answered (CallStop s) w)"
    by (simp add: sound_step_def flags_ok_def filter_remove1_other ids_from_same queue_def)
  then show ?thesis using EvStopped by (simp add: gentle_sound)
next
  case (EvEdit i content)
  have "sound_step env w (upd (edit_queued i content) w)"
  proof (rule sound_queue_subseq)
    have "map aq_id (sc_queuedMessages (edit_queued i content (aw_state w))) = map aq_id (queue w)"
      by (auto simp: edit_queued_def map_queue_def queue_def)
    then show "subseq (map aq_id (sc_queuedMessages (edit_queued i content (aw_state w)))) (map aq_id (queue w))"
      by simp
  qed
  then show ?thesis using EvEdit by simp
next
  case (EvClock now)
  then show ?thesis by (simp add: sound_step_def flags_ok_def ids_from_same queue_def)
qed (simp_all add: gentle_sound gentle_sendMessage [OF assms] gentle_send_now [OF assms] gentle_stop
      sound_stream_event [OF assms] sound_queue_subseq queue_def delete_queued_def open_session_def startNewSession_def
      drop_session_stream_def forget_session_def clear_session_def drop_session_queue_def Let_def subseq_map)

lemma run_consistent:
  assumes "inj (ev_uuid env)" "w = ai_run env events ai_world_init"
  shows "flags_ok w" "ids_ok env w"
proof -
  have "flags_ok (ai_run env es v) \<and> ids_ok env (ai_run env es v)" if "flags_ok v" "ids_ok env v" for es v
    using that
  proof (induction es arbitrary: v)
    case (Cons e es)
    then show ?case using ai_step_sound [OF assms(1), of v e] by (simp add: sound_step_def ids_from_def)
  qed simp
  moreover have "flags_ok ai_world_init" "ids_ok env ai_world_init"
    by (simp_all add: flags_ok_def ids_ok_def queue_def ai_world_init_def createDefaultScopeState_def)
  ultimately show "flags_ok w" "ids_ok env w" unfolding assms(2) by blast+
qed

text \<open>C8. A scope is never stuck and never sends twice at once: whatever the user does and in whatever order
  the commands in flight are answered and the backend's events arrive, at most one start (or the stop
  sent right after it), one insertion and one reconciliation are in flight, exactly while the flag of
  each is set, so that with nothing in flight every flag is clear; the reconciliation in flight is the one
  its waiters are registered for; and no two queued messages share an identifier.\<close>

theorem ai_scope_consistent:
  assumes "inj (ev_uuid env)" "w = ai_run env events ai_world_init"
  shows "length (filter is_start (aw_calls w)) = (if aw_starting w then 1 else 0)
    \<and> length (filter is_enqueue (aw_calls w)) = (if aw_inserting w then 1 else 0)
    \<and> filter is_session (aw_calls w) = (case aw_reconciling w of Some (s, waiters) \<Rightarrow> [CallSession s] | None \<Rightarrow> [])
    \<and> distinct (map aq_id (queue w))"
  using run_consistent [OF assms] unfolding flags_ok_def ids_ok_def by blast

definition sample_env :: ai_env where
  "sample_env = \<lparr>ev_uuid = dec_digits, ev_string = (\<lambda>_. [])\<rparr>"

definition sample_request :: ai_request where
  "sample_request = \<lparr>ar_provider_config_id = [], ar_session_id = None, ar_content = [], ar_contexts = None,
     ar_agent = None, ar_reasoning_level = None, ar_model = None, ar_host_scope = None, ar_connection_id = None,
     ar_client_ids = None\<rparr>"

lemma sample_env_inj: "inj (ev_uuid sample_env)"
  by (simp add: sample_env_def inj_def)

theorem ai_scope_consistent_witness:
  "distinct (map aq_id (queue (ai_run sample_env
     [EvSend sample_request (js ''a'') [] False, EvSend sample_request (js ''b'') [] False] ai_world_init)))"
  using ai_scope_consistent [OF sample_env_inj refl, of "[EvSend sample_request (js ''a'') [] False,
    EvSend sample_request (js ''b'') [] False]"] by blast

section \<open>No message is lost\<close>

text \<open>The events that take a message out of the queue, and the one that changes its text.\<close>

definition takes_out :: "ai_event \<Rightarrow> ai_world \<Rightarrow> ai_queued_message \<Rightarrow> bool" where
  "takes_out e w item \<longleftrightarrow>
     (case e of
        EvStartAccepted m \<Rightarrow> (\<exists>r ids. start_call w = Some (r, ids, Some (aq_id item)))
      | EvStream ev \<Rightarrow> ae_kind ev = KindMessageInjected
          \<and> (\<exists>inj. ae_injection ev = Some inj \<and> aq_id item \<in> set (ij_queue_ids inj))
      | EvSession messages \<Rightarrow> session_call w = Some (aq_sessionId item) \<and> aq_id item \<in> set (user_ids messages)
      | EvDelete i \<Rightarrow> i = aq_id item \<and> canEditAiQueuedMessage item
      | EvEdit i content \<Rightarrow> i = aq_id item \<and> canEditAiQueuedMessage item
      | EvForget s wasActive \<Rightarrow> s = aq_sessionId item
      | EvCleared s messages \<Rightarrow> s = aq_sessionId item
      | _ \<Rightarrow> False)"

lemma kept_settled:
  assumes "inj (ev_uuid env)"
  shows "kept (queue w) (queue (start_settled env w))" "kept (queue w) (queue (insert_settled env w))"
    "kept (queue w) (queue (reconcile_settled env s b w))"
proof -
  have "kept (queue v) (queue (drainAiMessageQueue env v))" "kept (queue v) (queue (fold (wake env s b) ws v))" for v ws
    using gentle_drain [OF assms, of v] gentle_wake_all [OF assms, of v s b ws] by (simp_all add: gentle_def)
  note this(1) [of "w\<lparr>aw_starting := False\<rparr>"] this(1) [of "w\<lparr>aw_inserting := False\<rparr>"]
    this(2) [of "w\<lparr>aw_reconciling := None\<rparr>"]
  then show "kept (queue w) (queue (start_settled env w))" "kept (queue w) (queue (insert_settled env w))"
    "kept (queue w) (queue (reconcile_settled env s b w))"
    by (simp_all add: start_settled_def insert_settled_def reconcile_settled_def queue_def)
qed

lemma mark_failed_fields:
  "aq_content (mark_failed r s q e item) = aq_content item" "aq_contexts (mark_failed r s q e item) = aq_contexts item"
  by (simp_all add: mark_failed_def Let_def)

lemma kept_start_rejected:
  assumes "inj (ev_uuid env)"
  shows "kept (queue w) (queue (start_rejected env r ids q e w))"
proof -
  have restored: "kept (queue w) (sc_queuedMessages (restore_start i r ids q t (aw_state w)))" for i t
    by (simp add: restore_start_def Let_def queue_def kept_append(2) kept_map mark_failed_id mark_failed_fields)
  have "kept (queue w) (queue (start_settled env (emit eff (answered c w1))))" if "kept (queue w) (queue w1)" for eff c w1
    by (rule kept_trans [OF that]) (use kept_settled(1) [OF assms, of "emit eff (answered c w1)"] in \<open>simp add: queue_def\<close>)
  note settled = this
  show ?thesis unfolding start_rejected_def Let_def
    by (rule settled) (use restored in \<open>auto simp: queue_upd kept_refl queue_def\<close>)
qed

lemma kept_filtered:
  "item \<in> set q \<Longrightarrow> P item \<Longrightarrow> kept (filter P q) q' \<Longrightarrow>
   \<exists>item'\<in>set q'. aq_id item' = aq_id item \<and> aq_content item' = aq_content item \<and> aq_contexts item' = aq_contexts item"
  by (auto simp: kept_def)

lemma kept_start_accepted:
  assumes "inj (ev_uuid env)"
  shows "kept (filter (\<lambda>item. Some (aq_id item) \<noteq> q) (queue w)) (queue (start_accepted env r ids q m w))"
proof -
  let ?w1 = "upd (accept_start r ids q m) (answered (CallStart r ids q) w)"
  have "queue ?w1 = filter (\<lambda>item. Some (aq_id item) \<noteq> q) (queue w)" by (simp add: queue_def accept_start_def)
  moreover have "kept (queue ?w1) (queue (start_settled env ?w1))" by (rule kept_settled [OF assms])
  moreover have "queue (call (CallStopStarted ids) ?w1) = queue ?w1" by (simp add: queue_def)
  ultimately show ?thesis unfolding start_accepted_def Let_def by (simp add: kept_refl)
qed

lemma kept_stream_event:
  assumes "inj (ev_uuid env)"
  shows "\<exists>P. kept (filter P (queue w)) (queue (stream_event env ev w))
     \<and> (\<forall>item. \<not> P item \<longrightarrow> ae_kind ev = KindMessageInjected
          \<and> (\<exists>inj. ae_injection ev = Some inj \<and> aq_id item \<in> set (ij_queue_ids inj)))"
proof -
  obtain st eff where st: "applyAiStreamEventToScope (aw_now w) (aw_state w) ev = (st, eff)" by force
  from apply_event_queue [of "aw_now w" "aw_state w" ev] obtain P where
    P: "sc_queuedMessages st = filter P (queue w)"
    and taken: "\<forall>item. \<not> P item \<longrightarrow> ae_kind ev = KindMessageInjected
          \<and> (\<exists>inj. ae_injection ev = Some inj \<and> aq_id item \<in> set (ij_queue_ids inj))"
    unfolding st fst_conv queue_def by blast
  have "gentle env (w\<lparr>aw_state := st\<rparr>) (stream_event env ev w)"
    unfolding stream_event_def st Let_def
    by (auto intro: gentle_emit gentle_trans [OF gentle_emit gentle_finish [OF assms]] split: option.splits ai_effect.splits)
  then have "kept (filter P (queue w)) (queue (stream_event env ev w))" using P by (simp add: gentle_def queue_def)
  with taken show ?thesis by blast
qed

lemma kept_session:
  assumes "inj (ev_uuid env)"
  shows "kept (filter (\<lambda>item. aq_sessionId item \<noteq> s \<or> aq_id item \<notin> set (user_ids ms)) (queue w))
      (queue (session_received env s ms w))"
    and "kept (queue w) (queue (session_failed env s err w))"
proof -
  let ?f = "\<lambda>item. if doubtful s item then item\<lparr>aq_insertionStreamId := None, aq_immediate := False,
    aq_status := QueueQueued, aq_error := None\<rparr> else item"
  have "queue (upd (apply_session s ms) w)
      = map ?f (filter (\<lambda>item. aq_sessionId item \<noteq> s \<or> aq_id item \<notin> set (user_ids ms)) (queue w))"
    by (simp add: queue_def apply_session_def)
  then have "kept (filter (\<lambda>item. aq_sessionId item \<noteq> s \<or> aq_id item \<notin> set (user_ids ms)) (queue w))
      (queue (upd (apply_session s ms) w))" by (simp add: kept_map)
  then show "kept (filter (\<lambda>item. aq_sessionId item \<noteq> s \<or> aq_id item \<notin> set (user_ids ms)) (queue w))
      (queue (session_received env s ms w))"
    unfolding session_received_def using kept_trans kept_settled(3) [OF assms] by blast
  have "kept (queue w) (queue (upd (reconcile_failed s t) w))" for t
    by (simp add: queue_def reconcile_failed_def map_queue_def kept_map)
  then show "kept (queue w) (queue (session_failed env s err w))"
    unfolding session_failed_def using kept_trans kept_settled(3) [OF assms] by blast
qed

lemma kept_inserted:
  assumes "inj (ev_uuid env)"
  shows "kept (queue w) (queue (insert_accepted env s i w))" "kept (queue w) (queue (insert_rejected env s i e w))"
proof -
  have "kept (queue w) (queue (upd (on_stream s (update_item i f)) w))"
    if "\<And>x. aq_id (f x) = aq_id x \<and> aq_content (f x) = aq_content x \<and> aq_contexts (f x) = aq_contexts x" for f
    using that by (auto simp: queue_def on_stream_def update_item_def map_queue_def kept_refl intro!: kept_map split: option.splits)
  then show "kept (queue w) (queue (insert_accepted env s i w))" "kept (queue w) (queue (insert_rejected env s i e w))"
    unfolding insert_accepted_def insert_rejected_def Let_def
    by (auto intro!: kept_trans [OF _ kept_settled(2) [OF assms]])
qed

lemma queue_answered [simp]: "queue (answered c w) = queue w"
  by (simp add: queue_def)

text \<open>C9. No queued message is lost or altered: whatever happens, a message stays in the queue with its text and
  contexts, except that the acknowledgement of its own start, a report of its insertion by the backend or
  a stored conversation that contains it takes it out, as do deleting it while it may be edited and
  dropping its conversation; and its text changes only by an edit of a message that may be edited.\<close>

theorem queued_message_kept:
  assumes "inj (ev_uuid env)" "item \<in> set (queue w)" "\<not> takes_out e w item"
  shows "\<exists>item'\<in>set (queue (ai_step env e w)).
    aq_id item' = aq_id item \<and> aq_content item' = aq_content item \<and> aq_contexts item' = aq_contexts item"
proof -
  let ?goal = "\<lambda>w'. \<exists>item'\<in>set (queue w'). aq_id item' = aq_id item \<and> aq_content item' = aq_content item
    \<and> aq_contexts item' = aq_contexts item"
  have kept: "?goal w'" if "kept (queue w) (queue w')" for w' using that assms(2) by (auto simp: kept_def)
  have gentle: "?goal w'" if "gentle env w w'" for w' using that by (intro kept) (simp add: gentle_def)
  have part: "?goal w'" if "P item" "kept (filter P (queue w)) (queue w')" for P w'
    using kept_filtered [OF assms(2) that] .
  have same: "?goal w" by (rule gentle) simp
  show ?thesis
  proof (cases e)
    case (EvStartAccepted m)
    then show ?thesis using assms(3) same
      by (auto simp: takes_out_def intro!: part [OF _ kept_start_accepted [OF assms(1)]] split: option.splits)
  next
    case (EvStartRejected err)
    then show ?thesis using same by (auto intro!: kept kept_start_rejected [OF assms(1)] split: option.splits)
  next
    case EvStartStopped
    have "kept (queue w) (queue (start_stop_accepted env ids w))" for ids
      using kept_settled(1) [OF assms(1), of "answered (CallStopStarted ids) w"] by (simp add: start_stop_accepted_def)
    with EvStartStopped same show ?thesis by (auto intro!: kept split: option.splits)
  next
    case (EvStartStopFailed err)
    have "kept (queue w) (queue (start_settled env (emit eff (upd (set_stream s f) (answered c w)))))" for eff s f c
      using kept_settled(1) [OF assms(1), of "emit eff (upd (set_stream s f) (answered c w))"]
      by (simp add: queue_def set_stream_def)
    with EvStartStopFailed same show ?thesis
      by (auto simp: start_stop_rejected_def intro!: kept split: option.splits)
  next
    case (EvStream ev)
    obtain P where "kept (filter P (queue w)) (queue (stream_event env ev w))" "P item"
      using kept_stream_event [OF assms(1), of w ev] assms(3) EvStream by (auto simp: takes_out_def)
    with EvStream part show ?thesis by simp
  next
    case EvInserted
    then show ?thesis using same kept_inserted(1) [OF assms(1)] by (auto intro!: kept split: option.splits)
        (metis queue_answered)
  next
    case (EvInsertFailed err)
    then show ?thesis using same kept_inserted(2) [OF assms(1)] by (auto intro!: kept split: option.splits)
        (metis queue_answered)
  next
    case (EvSession messages)
    have "?goal (session_received env s messages (answered c w))" if "session_call w = Some s" for s c
      by (rule part [OF _ kept_session(1) [OF assms(1), of s messages "answered c w", unfolded queue_answered]])
         (use assms(3) EvSession that in \<open>simp add: takes_out_def\<close>)
    with EvSession same show ?thesis by (auto split: option.splits)
  next
    case (EvSessionFailed err)
    have "kept (queue w) (queue (session_failed env s err (answered c w)))" for s c
      using kept_session(2) [OF assms(1), of "answered c w"] by simp
    with EvSessionFailed same show ?thesis by (auto intro!: kept split: option.splits)
  next
    case (EvDelete i)
    then show ?thesis using assms(2,3) by (auto simp: takes_out_def queue_upd queue_def delete_queued_def)
  next
    case (EvEdit i content)
    then show ?thesis using assms(2,3)
      by (auto simp: takes_out_def queue_upd queue_def edit_queued_def map_queue_def intro!: bexI [of _ item])
  next
    case (EvForget s wasActive)
    then show ?thesis using assms(2,3)
      by (auto simp: takes_out_def queue_upd queue_def forget_session_def drop_session_queue_def Let_def)
  next
    case (EvCleared s messages)
    then show ?thesis using assms(2,3)
      by (auto simp: takes_out_def queue_upd queue_def clear_session_def drop_session_queue_def)
  qed (use same assms(2) in \<open>auto simp: queue_upd queue_def open_session_def startNewSession_def drop_session_stream_def
      stop_rejected_def set_stream_def intro!: gentle [unfolded queue_def] gentle_sendMessage [OF assms(1)] gentle_send_now [OF assms(1)] gentle_stop\<close>)
qed

theorem queued_message_kept_witness:
  "\<exists>item'\<in>set (queue (ai_step sample_env EvStop
       (upd (\<lambda>s. s\<lparr>sc_queuedMessages := [\<lparr>aq_id = js ''0'', aq_sessionId = [], aq_content = js ''a'', aq_contexts = [],
          aq_request = sample_request, aq_immediate = False, aq_insertionStreamId = None, aq_status = QueueQueued,
          aq_error = None\<rparr>]\<rparr>) ai_world_init))).
     aq_content item' = js ''a''"
proof -
  let ?item = "\<lparr>aq_id = js ''0'', aq_sessionId = [], aq_content = js ''a'', aq_contexts = [],
          aq_request = sample_request, aq_immediate = False, aq_insertionStreamId = None, aq_status = QueueQueued,
          aq_error = None\<rparr>"
  let ?w = "upd (\<lambda>s. s\<lparr>sc_queuedMessages := [?item]\<rparr>) ai_world_init"
  have "?item \<in> set (queue ?w)" "\<not> takes_out EvStop ?w ?item" by (simp_all add: queue_def takes_out_def)
  from queued_message_kept [OF sample_env_inj this] show ?thesis by auto
qed

section \<open>An insertion in doubt\<close>

text \<open>The calls that send a message, and the message of the queue they send.\<close>

fun is_send :: "ai_call \<Rightarrow> bool" where
  "is_send (CallStart r ids q) = True"
| "is_send (CallEnqueue s i t cs) = True"
| "is_send _ = False"

fun sent_id :: "ai_call \<Rightarrow> jsstr option" where
  "sent_id (CallStart r ids q) = q"
| "sent_id (CallEnqueue s i t cs) = Some i"
| "sent_id _ = None"

definition sends :: "ai_world \<Rightarrow> ai_call list" where
  "sends w = filter is_send (aw_calls w)"

lemma subseq_remove1: "subseq (filter P (remove1 c xs)) (filter P xs)"
  by (induction xs) auto

text \<open>While the reconciliation of a conversation is in flight, a step keeps it so and sends nothing.\<close>

definition held :: "jsstr \<Rightarrow> ai_world \<Rightarrow> ai_world \<Rightarrow> bool" where
  "held s w w' \<longleftrightarrow> (\<exists>waiters. aw_reconciling w' = Some (s, waiters)) \<and> subseq (sends w') (sends w)"

definition pending :: "jsstr \<Rightarrow> ai_world \<Rightarrow> bool" where
  "pending s w \<longleftrightarrow> (\<exists>waiters. aw_reconciling w = Some (s, waiters))"

lemma held_refl: "pending s w \<Longrightarrow> held s w w"
  by (simp add: held_def pending_def)

lemma held_same: "pending s w \<Longrightarrow> aw_reconciling w' = aw_reconciling w \<Longrightarrow> aw_calls w' = aw_calls w \<Longrightarrow> held s w w'"
  by (simp add: held_def pending_def sends_def)

lemma held_trans: "held s w w' \<Longrightarrow> held s w' w'' \<Longrightarrow> held s w w''"
  unfolding held_def using subseq_order.trans by blast

lemma held_pending: "held s w w' \<Longrightarrow> pending s w'"
  by (simp add: held_def pending_def)

lemma drain_pending: "pending s w \<Longrightarrow> drainAiMessageQueue env w = w"
  by (auto simp: drainAiMessageQueue_def pending_def)

lemma held_then:
  assumes "pending s w" "aw_reconciling w' = aw_reconciling w" "subseq (sends w') (sends w)"
  shows "held s w w'" "held s w (drainAiMessageQueue env w')"
proof -
  have "pending s w'" using assms(1,2) by (simp add: pending_def)
  then show "held s w w'" "held s w (drainAiMessageQueue env w')"
    using assms by (simp_all add: drain_pending held_def pending_def)
qed

lemma held_start: "pending s w \<Longrightarrow> held s w (startAiMessage env r q w)"
  by (rule held_same) (auto simp: startAiMessage_def queueAiMessage_def pending_def Let_def)

lemma held_reconcile: "pending s w \<Longrightarrow> held s w (reconcileAiMessageQueue t waiter w)"
  by (auto simp: reconcileAiMessageQueue_def pending_def held_def sends_def)

lemma held_send_item: "pending s w \<Longrightarrow> held s w (send_item env i w)"
  by (auto simp: send_item_def held_refl held_start split: option.split)

lemma held_finish: "pending s w \<Longrightarrow> held s w (finishAiMessageQueue env status w)"
proof -
  assume w: "pending s w"
  have upd: "pending s (upd g w)" "held s w (upd g w)" for g using w held_same [OF w, of "upd g w"] by (simp_all add: pending_def)
  then have "held s w (reconcileAiMessageQueue t k (upd g w))" "held s w (drainAiMessageQueue env (upd g w))" for t k g
    using held_trans held_reconcile drain_pending by metis+
  then show ?thesis unfolding finishAiMessageQueue_def Let_def by (auto split: bool.splits option.splits)
qed

lemma held_send_now: "pending s w \<Longrightarrow> held s w (sendQueuedAiMessageNow env i w)"
proof -
  assume w: "pending s w"
  have "held s w (drainAiMessageQueue env (upd g w))" for g
    by (rule held_then(2) [OF w]) (simp_all add: sends_def)
  then show ?thesis unfolding sendQueuedAiMessageNow_def Let_def
    using held_refl [OF w] held_reconcile [OF w] held_send_item [OF w] by (auto split: option.split)
qed

lemma held_sendMessage: "pending s w \<Longrightarrow> held s w (sendMessage env request content contexts immediate w)"
proof -
  assume w: "pending s w"
  let ?w1 = "upd (\<lambda>s. s\<lparr>sc_input := [], sc_contextBlocks := []\<rparr>) w"
  have w1: "pending s ?w1" "held s w ?w1" using w held_same [OF w, of ?w1] by (simp_all add: pending_def)
  have q: "held s ?w1 (queueAiMessage env r ?w1)" for r
    by (rule held_same [OF w1(1)]) (simp_all add: queueAiMessage_def Let_def)
  have "held s w (startAiMessage env r None ?w1)" for r using held_trans [OF w1(2) held_start [OF w1(1)]] .
  moreover have "held s w (queueAiMessage env r ?w1)" for r using held_trans [OF w1(2) q] .
  moreover from this have "held s w (sendQueuedAiMessageNow env i (queueAiMessage env r ?w1))" for i r
    using held_trans held_send_now held_pending by blast
  ultimately show ?thesis unfolding sendMessage_def Let_def using held_refl [OF w] by (auto split: option.split)
qed

definition session_answer :: "ai_event \<Rightarrow> bool" where
  "session_answer e \<longleftrightarrow> (case e of EvSession _ \<Rightarrow> True | EvSessionFailed _ \<Rightarrow> True | _ \<Rightarrow> False)"

lemma sends_fields [simp]:
  "sends (upd f w) = sends w" "sends (emit e w) = sends w" "subseq (sends (answered c w)) (sends w)"
  "sends (w\<lparr>aw_starting := b\<rparr>) = sends w" "sends (w\<lparr>aw_inserting := b\<rparr>) = sends w" "sends (w\<lparr>aw_reconciling := r\<rparr>) = sends w"
  "sends (w\<lparr>aw_uuids := n\<rparr>) = sends w" "sends (w\<lparr>aw_state := st\<rparr>) = sends w" "sends (w\<lparr>aw_now := t\<rparr>) = sends w"
  by (simp_all add: sends_def subseq_remove1)

lemma held_step:
  assumes w: "pending s w" and e: "\<not> session_answer e"
  shows "held s w (ai_step env e w)"
proof (cases e)
  case (EvStartAccepted m)
  have "held s w (start_accepted env r ids q m w)" for r ids q
  proof -
    define w1 where "w1 = upd (accept_start r ids q m) (answered (CallStart r ids q) w)"
    have "held s w (call (CallStopStarted ids) w1)" by (rule held_then(1) [OF w]) (simp_all add: w1_def sends_def subseq_remove1)
    moreover have "held s w (start_settled env w1)"
      unfolding start_settled_def by (rule held_then(2) [OF w]) (simp_all add: w1_def)
    ultimately show ?thesis unfolding start_accepted_def Let_def w1_def [symmetric] by simp
  qed
  then show ?thesis using EvStartAccepted held_refl [OF w] by (simp split: option.split)
next
  case (EvStartRejected err)
  have "held s w (start_rejected env r ids q err w)" for r ids q
    unfolding start_rejected_def start_settled_def Let_def by (rule held_then(2) [OF w]) (simp_all add: sends_def subseq_remove1)
  then show ?thesis using EvStartRejected held_refl [OF w] by (simp split: option.split)
next
  case EvStartStopped
  have "held s w (start_stop_accepted env ids w)" for ids
    unfolding start_stop_accepted_def start_settled_def by (rule held_then(2) [OF w]) simp_all
  then show ?thesis using EvStartStopped held_refl [OF w] by (simp split: option.split)
next
  case (EvStartStopFailed err)
  have "held s w (start_stop_rejected env ids err w)" for ids
    unfolding start_stop_rejected_def start_settled_def by (rule held_then(2) [OF w]) simp_all
  then show ?thesis using EvStartStopFailed held_refl [OF w] by (simp split: option.split)
next
  case EvInserted
  have "held s w (insert_accepted env st i (answered c w))" for st i c
    unfolding insert_accepted_def insert_settled_def by (rule held_then(2) [OF w]) simp_all
  then show ?thesis using EvInserted held_refl [OF w] by (simp split: option.split)
next
  case (EvInsertFailed err)
  have "held s w (insert_rejected env st i err (answered c w))" for st i c
    unfolding insert_rejected_def insert_settled_def Let_def by (rule held_then(2) [OF w]) simp_all
  then show ?thesis using EvInsertFailed held_refl [OF w] by (simp split: option.split)
next
  case (EvStream ev)
  have emitted: "pending s (emit eff (w\<lparr>aw_state := st\<rparr>))" "held s w (emit eff (w\<lparr>aw_state := st\<rparr>))" "held s w (w\<lparr>aw_state := st\<rparr>)" for eff st
    using w held_then(1) [OF w] by (simp_all add: pending_def)
  then have "held s w (finishAiMessageQueue env status (emit eff (w\<lparr>aw_state := st\<rparr>)))" for eff st status
    using held_trans held_finish by blast
  then show ?thesis using EvStream emitted
    by (auto simp: stream_event_def Let_def split: prod.split option.split ai_effect.split)
next
  case EvStop
  have "held s w (stopAiMessage w)"
    by (rule held_then(1) [OF w]) (auto simp: stopAiMessage_def sends_def Let_def split: option.split)
  then show ?thesis using EvStop by simp
next
  case (EvStopped t)
  then show ?thesis using held_refl [OF w] held_then(1) [OF w, of "answered (CallStop t) w"] by simp
next
  case (EvStopFailed t)
  then show ?thesis using held_refl [OF w] held_then(1) [OF w, of "stop_rejected t (answered (CallStop t) w)"]
    by (simp add: stop_rejected_def)
qed (use w e held_sendMessage [OF w] held_send_now [OF w] held_then(1) [OF w] in \<open>simp_all add: session_answer_def\<close>)

lemma held_run: "pending s w \<Longrightarrow> \<forall>e\<in>set es. \<not> session_answer e \<Longrightarrow> held s w (ai_run env es w)"
proof (induction es arbitrary: w)
  case (Cons e es)
  then have "held s w (ai_step env e w)" by (simp add: held_step)
  then show ?case using Cons held_trans held_pending by fastforce
qed (simp add: held_refl)

definition settled_for :: "jsstr \<Rightarrow> ai_message list \<Rightarrow> ai_queued_message list \<Rightarrow> bool" where
  "settled_for s messages q \<longleftrightarrow>
     (\<forall>item\<in>set q. aq_sessionId item = s \<longrightarrow> \<not> doubtful s item \<and> aq_id item \<notin> set (user_ids messages))"

lemma settled_apply_session: "settled_for s messages (sc_queuedMessages (apply_session s messages st))"
  unfolding settled_for_def
proof
  let ?g = "\<lambda>x. if doubtful s x then x\<lparr>aq_insertionStreamId := None, aq_immediate := False,
    aq_status := QueueQueued, aq_error := None\<rparr> else x"
  let ?q = "filter (\<lambda>x. aq_sessionId x \<noteq> s \<or> aq_id x \<notin> set (user_ids messages)) (sc_queuedMessages st)"
  fix y assume "y \<in> set (sc_queuedMessages (apply_session s messages st))"
  then have "y \<in> ?g ` set ?q" by (simp add: apply_session_def)
  then obtain x where x: "x \<in> set ?q" "y = ?g x" by (rule imageE)
  then show "aq_sessionId y = s \<longrightarrow> \<not> doubtful s y \<and> aq_id y \<notin> set (user_ids messages)"
    by (cases "doubtful s x") (simp_all add: doubtful_def)
qed

lemma failed_marks:
  assumes "y \<in> set (sc_queuedMessages (reconcile_failed s e st))" "doubtful s y"
  shows "aq_status y = QueueFailed"
proof -
  let ?g = "\<lambda>x. if doubtful s x then x\<lparr>aq_status := QueueFailed, aq_immediate := False,
    aq_error := Some (unconfirmed @ e)\<rparr> else x"
  have "y \<in> ?g ` set (sc_queuedMessages st)" using assms(1) by (simp add: reconcile_failed_def map_queue_def)
  then obtain x where "y = ?g x" by blast
  with assms(2) show ?thesis by (cases "doubtful s x") simp_all
qed

text \<open>A failed reconciliation wakes what waits for it without sending anything.\<close>

lemma failed_wake:
  "sends (fold (wake env s False) ws w) = sends w"
  "sc_queueAutoRun (aw_state (fold (wake env s False) ws w)) = sc_queueAutoRun (aw_state w)"
  "\<forall>x\<in>set (queue w). doubtful s x \<longrightarrow> aq_status x = QueueFailed \<Longrightarrow>
   \<forall>x\<in>set (queue (fold (wake env s False) ws w)). doubtful s x \<longrightarrow> aq_status x = QueueFailed"
proof (induction ws arbitrary: w)
  case (Cons entry ws)
  have one: "sends (wake env s False entry w) = sends w"
    "sc_queueAutoRun (aw_state (wake env s False entry w)) = sc_queueAutoRun (aw_state w)"
    "\<forall>x\<in>set (queue w). doubtful s x \<longrightarrow> aq_status x = QueueFailed \<Longrightarrow>
     \<forall>x\<in>set (queue (wake env s False entry w)). doubtful s x \<longrightarrow> aq_status x = QueueFailed" for w
    by (cases "snd entry"; auto simp: wake_def after_finish_def after_send_now_def reconcileAiMessageQueue_def sends_def map_queue_def
        queue_def doubtful_def split: option.split)+
  { case 1 show ?case using Cons.IH(1) one(1) by simp }
  { case 2 show ?case using Cons.IH(2) one(2) by simp }
  { case 3 show ?case unfolding fold.simps comp_def by (rule Cons.IH(3)) (rule one(3) [OF 3]) }
qed simp_all

text \<open>What is sent once the conversation has been read is nothing that it contains: the identifier \<open>i\<close> is not in the queue,
  no new one equals it, and no call for it is added.\<close>

definition unsent :: "ai_env \<Rightarrow> jsstr \<Rightarrow> ai_call set \<Rightarrow> ai_world \<Rightarrow> bool" where
  "unsent env i old w \<longleftrightarrow> i \<notin> aq_id ` set (queue w) \<and> (\<forall>n\<ge>aw_uuids w. ev_uuid env n \<noteq> i)
     \<and> (\<forall>c\<in>set (aw_calls w). sent_id c = Some i \<longrightarrow> c \<in> old)"

lemma unsent_queueAiMessage: "unsent env i old w \<Longrightarrow> unsent env i old (queueAiMessage env r w)"
  by (auto simp: unsent_def queueAiMessage_def queue_def Let_def)

lemma unsent_begin_start:
  assumes "unsent env i old w" "q \<noteq> Some i" shows "unsent env i old (begin_start env r q w)"
proof -
  obtain ids n where ids: "new_client_ids env r (aw_uuids w) = (ids, n)" by force
  then have "aw_uuids w \<le> n" by (auto simp: new_client_ids_def Let_def split: option.splits prod.splits)
  moreover have "aq_id ` set (queue (begin_start env r q w)) = aq_id ` set (queue w)"
    "aw_calls (begin_start env r q w) = aw_calls w @ [CallStart r ids q]" "aw_uuids (begin_start env r q w) = n"
    by (simp_all add: begin_start_def ids Let_def map_queue_def queue_def image_image mark_sending_fields)
  ultimately show ?thesis using assms by (auto simp: unsent_def)
qed

lemma unsent_start: "unsent env i old w \<Longrightarrow> q \<noteq> Some i \<Longrightarrow> unsent env i old (startAiMessage env r q w)"
  by (simp add: startAiMessage_def unsent_queueAiMessage unsent_begin_start)

lemma unsent_found:
  "unsent env i old w \<Longrightarrow> List.find P (sc_queuedMessages (aw_state w)) = Some item \<Longrightarrow> aq_id item \<noteq> i"
  by (auto simp: unsent_def queue_def dest!: find_SomeD)

lemma unsent_insert: "unsent env i old w \<Longrightarrow> aq_id item \<noteq> i \<Longrightarrow> unsent env i old (begin_insert stream item w)"
  by (auto simp: unsent_def begin_insert_def update_item_def map_queue_def queue_def)

lemma unsent_upd: "unsent env i old w \<Longrightarrow> sc_queuedMessages (g (aw_state w)) = sc_queuedMessages (aw_state w) \<Longrightarrow> unsent env i old (upd g w)"
  by (simp add: unsent_def queue_def)

lemma unsent_drain: "unsent env i old w \<Longrightarrow> unsent env i old (drainAiMessageQueue env w)"
  by (auto simp: drainAiMessageQueue_def Let_def dest: unsent_found intro!: unsent_start unsent_insert split: option.split)

lemma unsent_reconcile: "unsent env i old w \<Longrightarrow> unsent env i old (reconcileAiMessageQueue t waiter w)"
  by (auto simp: unsent_def reconcileAiMessageQueue_def map_queue_def queue_def split: option.split)

lemma unsent_wake: "unsent env i old w \<Longrightarrow> unsent env i old (wake env s b entry w)"
proof (cases "snd entry")
  case (AfterFinish t status)
  assume w: "unsent env i old w"
  have "unsent env i old (after_finish env t status b w)"
    using w by (auto simp: after_finish_def intro!: unsent_drain unsent_upd)
  then show ?thesis using w AfterFinish by (simp add: wake_def unsent_reconcile)
next
  case (AfterSendNow j active)
  assume w: "unsent env i old w"
  have "unsent env i old (after_send_now env j active b w)"
    using w unsent_found [OF w] by (auto simp: after_send_now_def send_item_def intro!: unsent_start split: option.split)
  then show ?thesis using w AfterSendNow by (simp add: wake_def unsent_reconcile)
qed

lemma unsent_wake_all: "unsent env i old w \<Longrightarrow> unsent env i old (fold (wake env s b) ws w)"
  by (induction ws arbitrary: w) (simp_all add: unsent_wake)

lemma pending_call:
  assumes "flags_ok w" "aw_reconciling w = Some (s, waiters)" shows "session_call w = Some s"
proof -
  have "filter is_session (aw_calls w) = [CallSession s]" using assms by (simp add: flags_ok_def)
  moreover have "List.map_filter (\<lambda>c. case c of CallSession s \<Rightarrow> Some s | _ \<Rightarrow> None) cs
      = List.map_filter (\<lambda>c. case c of CallSession s \<Rightarrow> Some s | _ \<Rightarrow> None) (filter is_session cs)" for cs
    by (induction cs) (auto simp: List.map_filter_simps split: ai_call.split)
  ultimately show ?thesis unfolding session_call_def by (metis (no_types, lifting) List.map_filter_simps ai_call.case(4) first.simps(2) option.case(2))
qed


text \<open>A run that leaves an insertion in doubt: the second message is to be inserted into the running answer to the first,
  and the answer ends before the backend has confirmed it.\<close>

definition agent_request :: ai_request where
  "agent_request = sample_request\<lparr>ar_agent := Some \<lparr>ag_connection_id = None, ag_workspace_type = None,
     ag_workspace_path = None, ag_local_workspace_path = None, ag_mode = None, ag_working_directory = None,
     ag_terminal_output = None, ag_terminal_session_id = None\<rparr>\<rparr>"

definition ended_event :: "jsstr \<Rightarrow> ai_stream_event" where
  "ended_event stream =
     \<lparr>ae_kind = KindFinished, ae_stream_id = stream, ae_session_id = [], ae_message_id = [], ae_delta = None,
      ae_thinking_delta = None, ae_thinking_update = None, ae_content = None, ae_error = None, ae_tool_call = None,
      ae_tool_output = None, ae_background_task = None, ae_file_changes = None, ae_injection = None\<rparr>"

definition doubtful_events :: "ai_event list" where
  "doubtful_events =
     [EvSend agent_request (js ''a'') [] False,
      EvStartAccepted (emptyMessage 0 (dec_digits 2) (dec_digits 0) False),
      EvSend sample_request (js ''b'') [] True,
      EvStream (ended_event (dec_digits 1))]"

lemma doubtful_events_reconcile:
  "aw_reconciling (ai_run sample_env doubtful_events ai_world_init)
   = Some (dec_digits 0, [(dec_digits 0, AfterFinish (dec_digits 0) EndFinished)])"
proof -
  have trims: "js_trim (js ''a'') = js ''a''" "js_trim (js ''b'') = js ''b''"
    by (rule js_trim_id; simp add: js_def is_ws_def)+
  show ?thesis
    by (simp add: doubtful_events_def agent_request_def sample_request_def sample_env_def ai_world_init_def
        createDefaultScopeState_def sendMessage_def trims startAiMessage_def begin_start_def new_client_ids_def
        start_call_def start_accepted_def accept_start_def set_stream_def stop_requested_def start_settled_def
        drainAiMessageQueue_def queueAiMessage_def sendQueuedAiMessageNow_def begin_insert_def update_item_def
        ended_event_def stream_event_def applyAiStreamEventToScope_def live_event_def end_status_def
        finishAiMessageQueue_def reconcileAiMessageQueue_def requeue_def doubtful_def opt_str_or_def str_or_def or_else_def
        map_queue_def upd_def call_def answered_def emit_def Let_def)
qed


end
