(* ===== verification/Spec2Isabelle.thy ===== *)
theory Spec2Isabelle
  imports Split_Properties Terminal_Output Upload_Unpack Remote_Editor_Laws Transfer_Queue Connection_Search Connection_Steps Connect_Progress Window_Material
    Terminal_Osc7 Prompt_Directory Ai_Stream Ai_Session
begin

text \<open>
  A verification development of mXterm's front end, the TypeScript program under \<open>src/src\<close>: a desktop client
  for SSH, Telnet, serial, RDP and VNC connections with terminals in split panes, a remote file manager with
  editors and transfers, and an AI assistant. Paths below are relative to \<open>src/src\<close>.

  \<^bold>\<open>The program and its parts.\<close> The front end runs in a web view and reaches the native backend through
  asynchronous commands and events. \<open>features/layout/WorkspaceShell.tsx\<close> is the hub: it owns the tabs, the
  split session, the open files and the attempts to connect, and passes state and callbacks to the panels.
  Output of a session goes through the queue of \<open>features/terminal/terminalOutputFlow.ts\<close> to the screen; the
  directory of a terminal is followed from what is typed, from the prompt and from OSC 7. The transfer
  controller starts waiting transfers and reports into the transfer list. The assistant keeps one scope per
  terminal; its queue, its stream of events and the panel change that scope. Each of these parts is a group of
  definitions here, in the order of the code, with its state as a record and its operations as functions.

  \<^bold>\<open>Theories and the files they model.\<close>
  \<^item> Prelude: \<open>Js_Base\<close> (strings, maps, the two collections of hints), \<open>Js_Number\<close>, \<open>Js_Sort\<close>, \<open>Js_Value\<close>
    (values of unknown type), \<open>Js_Bytes\<close> (bytes and UTF-8), \<open>Js_Pattern\<close> (regular expressions as scanners).
  \<^item> Split panes: \<open>Terminal_Split\<close> and \<open>Terminal_Split_Geometry\<close> (\<open>features/terminal/terminalSplitLayout.ts\<close>),
    \<open>Split_Session\<close> (the split state of the workspace and the divider of \<open>TerminalSplitSurface.tsx\<close>),
    \<open>Split_Reach\<close> (step relation and invariant), \<open>Split_Properties\<close>.
  \<^item> Output: \<open>Text_Buffer\<close> (the interface of a buffer as a locale, and \<open>shared/stream/bufferedTextFlush.ts\<close>),
    \<open>Terminal_Output\<close> (\<open>terminalOutputFlow.ts\<close>).
  \<^item> Directories: \<open>Terminal_Directory\<close> (\<open>terminalInputDirectory.ts\<close>), \<open>Prompt_Directory\<close>
    (\<open>terminalPromptDirectory.ts\<close>), \<open>Terminal_Osc7\<close> (\<open>osc7.ts\<close>).
  \<^item> Remote files: \<open>Remote_Paths\<close> (\<open>features/files/remoteFilePaths.ts\<close>, \<open>remoteFileTypes.ts\<close>), \<open>Remote_Entries\<close>
    (names, dialogs and deletions of the workspace), \<open>Remote_Editor\<close> and \<open>Remote_Editor_Laws\<close> (open files),
    \<open>Upload_Archive\<close>, \<open>Upload_Tar\<close>, \<open>Upload_Unpack\<close> (the archive of an uploaded folder).
  \<^item> Transfers: \<open>Transfer_Items\<close>, \<open>Transfer_Store\<close>, \<open>Transfer_Queue\<close> (the files \<open>remoteFileTransfer*.ts\<close> and
    \<open>useRemoteFileTransferController.ts\<close>).
  \<^item> Connections: \<open>Connection_Types\<close>, \<open>Connection_Normalize\<close>, \<open>Connection_Laws\<close>, \<open>Connection_Store\<close>,
    \<open>Connection_Search\<close>, \<open>Connection_Steps\<close> (the files of \<open>features/connections\<close>), \<open>Shell_Errors\<close> (what the
    workspace makes of a rejected command), \<open>Connect_Step\<close> (the page of an attempt), \<open>Local_Profiles\<close>
    (profiles of local terminals),
    \<open>Connect_Tabs\<close> and \<open>Connect_Flow\<close> (tabs of terminals, attempts to connect, closing, reconnection),
    \<open>Connect_Ledger\<close>, \<open>Connect_Ledger_Laws\<close>, \<open>Connect_Safety\<close> (no session is lost),
    \<open>Connect_Progress\<close> (the page of an attempt is no dead end).
  \<^item> Shortcuts: \<open>Shortcut_Keys\<close>, \<open>Shortcut_Registry\<close> (\<open>features/shortcuts\<close>).
  \<^item> Assistant: \<open>Ai_Types\<close>, \<open>Ai_Flow\<close>, \<open>Ai_Commands\<close>, \<open>Ai_Markdown\<close>, \<open>Ai_Scope\<close>, \<open>Ai_Stream\<close>, \<open>Ai_Queue\<close>,
    \<open>Ai_Session\<close> (the files of \<open>features/ai\<close>).
  \<^item> Settings: \<open>Settings_Types\<close>, \<open>Settings_Store\<close>, \<open>Settings_Laws\<close> (\<open>settingsTypes.ts\<close>, \<open>startupSettings.ts\<close>,
    \<open>useSettings.ts\<close> in \<open>features/settings\<close>), \<open>Window_Material\<close> (\<open>shared/tauri/windowMaterial.ts\<close>, \<open>platformCapabilities.ts\<close>).

  \<^bold>\<open>What the lemmas show.\<close> Split panes: every layout tiles the area and every reachable session shows each tab
  once. Output: what is enqueued reaches the screen in order, once, and a scheduled queue drains. Files: the mark
  of a changed file is exact as long as no read fails, edits that are not saved leave only in the listed ways, an
  uploaded folder of names and sizes a header can hold unpacks to itself, a deletion works through exactly the selected
  entries that no selected folder covers. Directories: only canonical ones are announced, a typed \<open>cd\<close> and a prompt that
  shows a path are followed exactly. Transfers: the controller runs at most the number allowed, no operation on
  others takes a waiting transfer out, and the queue ends. Connections: normalising is idempotent and keeps a secret only where the chosen
  way to authenticate uses it; what is stored has the configuration of its protocol only and trimmed texts; the lists refine maps. Sessions: each one opened is held by
  exactly one tab or was closed exactly once. The page of an attempt always offers an action or
  waits for an answer to come. Shortcuts and Markdown: round trips. Assistant: the
  scope stays consistent, no queued message is lost, a streamed answer is the text that arrived. While a conversation is asked for,
  nothing is sent. Settings: reachable ones are valid and survive a restart, and a change of one part leaves the others, but for blanks
  at the ends of three typed texts.

  \<^bold>\<open>How the program is modelled.\<close>
  \<^item> A string is its list of UTF-16 code units; labels in Chinese are lists of units beside their meaning.
    An absent value is \<open>None\<close>. Case mapping covers Latin and Cyrillic letters.
  \<^item> Numbers are rationals with NaN and the infinities; the rounding of doubles is not modelled. Counters and
    indices the code keeps whole are \<open>nat\<close> or \<open>int\<close>; bytes are words of eight bits.
  \<^item> A \<open>Map\<close> or an object iterated in insertion order is an association list. \<open>Array.sort\<close> is a stable insertion
    sort, which the language fixes for consistent comparators; the laws of a sort assume one (\<open>js_comparator\<close>).
    The comparator of the split panes has a tolerance and is not one: its results are proved directly.
  \<^item> The locale's collation, the clock, random identifiers, \<open>JSON.parse\<close>, \<open>Date.parse\<close>, \<open>String\<close> of a value, gzip
    and every answer of the backend are parameters or events. Where a theorem relies on one it says so.
  \<^item> An \<open>async\<close> function is cut at its awaits. What stands between two of them is one step; a command in flight is
    part of the state with the variables its continuation captured, and its answer is an event that may come at
    any time. Updaters given to React run before the next event; effects of rendering are not modelled.
  \<^item> Regular expressions are written as scanners that try alternatives in the engine's order.
  \<^item> The model is of the native program; the preview in a plain browser is left out except where noted.

  \<^bold>\<open>Bounds and fuel.\<close> No definition needs fuel: the loops of the code are structural or have a measure with its
  termination proof. The limits of the code are kept: batches of output of the configured size, OSC 7 buffers of
  2048 units, typed lines of 4096 units, at most four panes, a hundred finished transfers and a hundred failed ones in
  the list, suggested commands of 4000 units, outputs of tools of 12000 units, archives written in chunks of 4 MiB, names of 100 and 155 bytes and sizes below eight to the eleventh in a tar header.

  \<^bold>\<open>Not modelled.\<close> The Rust backend (\<open>src-tauri\<close>) is another process and language. Of the front end: rendering,
  focus, drag and drop and measuring of elements (most of \<open>WorkspaceShell.tsx\<close>, \<open>DockerToolPanel.tsx\<close>,
  \<open>SettingsView.tsx\<close>, \<open>ConnectionDialog.tsx\<close>, \<open>ConnectionPane.tsx\<close>, \<open>MonitorPanel.tsx\<close>, \<open>AppTitlebar.tsx\<close>), which
  reads the modelled state and calls the modelled operations; wrappers of platform commands (\<open>shared/tauri\<close>);
  generated data (\<open>terminalColorSchemesData.ts\<close>); the wiring of xterm.js and noVNC, which are third-party code;
  style sheets, the prototype and the scripts of the build.
\<close>

end
